(* ===== verification/Fwd_Prelude.thy ===== *)
theory Fwd_Prelude
  imports Main "HOL-Library.Word" "HOL-Library.AList" "HOL-Library.List_Lexorder"
    "HOL-Library.Char_ord"
begin

section \<open>Prelude: Python values, exceptions, the session monad and tables\<close>

text \<open>
  What every component shares.  Python strings are \<^typ>\<open>string\<close>s of ASCII characters (the
  identifiers, addresses, decimal and hex strings the daemon handles), Python bytes are lists of
  8-bit words, Python integers are \<^typ>\<open>int\<close>, a UTC \<open>datetime\<close> is its number of microseconds
  since the Unix epoch, and a SQL table with a primary key is an association list.
  The theory models the builtins the source calls (\<open>str.lower\<close>, \<open>int\<close>, \<open>str\<close>,
  \<open>bytes.fromhex\<close>, \<open>bytes.hex\<close>) and proves the round trips the components rely on.
\<close>

named_theorems table_simps \<open>lookup after an update of a keyed table\<close>

type_synonym byte = "8 word"
type_synonym datetime = int
type_synonym ('k, 'v) table = "('k \<times> 'v) list"

subsection \<open>Exceptions\<close>

text \<open>One constructor per exception class the modelled code raises or catches.  The source has three
  unrelated classes named \<open>VaultUnavailableError\<close>: of \<open>app/sign_transaction.py\<close> (the plain name
  here), of \<open>app/wallet_create.py\<close>, which the scopes of \<open>app/dependencies.py\<close> raise
  (\<open>Scope..\<close>), and of \<open>app/sign_fsp_message.py\<close> (\<open>Fsp..\<close>).\<close>

datatype exn =
    ValueError string
  | TypeError
  | KeyError
  | RuntimeError
  | IntegrityError
  | OtherError
  | RateRepoError string
  | NonceNotInitializedError
  | NonceWalletNotFoundError string
  | TransactionExistsError string
  | TransactionNotFoundError string
  | CallerExistsError string
  | CallerNotFoundError string
  | CallerAlreadyRevokedError string
  | WalletExistsError string
  | WalletNotFoundError string
  | SealError
  | PolicyDenied int string
  | WalletNotFound string
  | VaultUnavailableError
  | ScopeVaultUnavailableError
  | FspVaultUnavailableError
  | WalletNameTaken string
  | NonceNotInitialized
  | NonceWedged
  | TxParamsRejected string
  | IdempotencyConflict string
  | FspMessageMalformed string
  | CallerNameTaken string
  | CallerNotFound string
  | CallerAlreadyRevoked string
  | WalletImportInvalidLength int
  | WalletAddressMismatch string string
  | PrivkeyFileNotFound string
  | PrivkeyFileBadMode string
  | PrivkeyFileBadOwner int int
  | PrivkeyFileBadContent int
  | WalletNameTakenImport string
  | ShredSourceFailed string
  | SystemExit int
  | HTTPException int string

subsection \<open>Operations that may raise\<close>

text \<open>
  An operation reads and updates a state and either returns a value (\<open>Inr\<close>) or raises
  (\<open>Inl\<close>); the state reached so far is kept in both cases, as a Python object would keep it.
\<close>

type_synonym ('s, 'a) op = "'s \<Rightarrow> (exn + 'a) \<times> 's"

definition ret :: "'a \<Rightarrow> ('s, 'a) op" where
  "ret a = (\<lambda>s. (Inr a, s))"

definition raise :: "exn \<Rightarrow> ('s, 'a) op" where
  "raise e = (\<lambda>s. (Inl e, s))"

definition bindM :: "('s, 'a) op \<Rightarrow> ('a \<Rightarrow> ('s, 'b) op) \<Rightarrow> ('s, 'b) op" where
  "bindM m f = (\<lambda>s. case m s of (Inl e, t) \<Rightarrow> (Inl e, t) | (Inr a, t) \<Rightarrow> f a t)"

definition thenM :: "('s, 'a) op \<Rightarrow> ('s, 'b) op \<Rightarrow> ('s, 'b) op" where
  "thenM m n = bindM m (\<lambda>_. n)"

text \<open>\<open>try: m  except: h\<close>, where the handler decides by the exception; a handler that does
  not apply re-raises.\<close>

definition catchM :: "('s, 'a) op \<Rightarrow> (exn \<Rightarrow> ('s, 'a) op) \<Rightarrow> ('s, 'a) op" where
  "catchM m h = (\<lambda>s. case m s of (Inl e, t) \<Rightarrow> h e t | (Inr a, t) \<Rightarrow> (Inr a, t))"

definition getM :: "('s \<Rightarrow> 'a) \<Rightarrow> ('s, 'a) op" where
  "getM f = (\<lambda>s. (Inr (f s), s))"

definition modifyM :: "('s \<Rightarrow> 's) \<Rightarrow> ('s, unit) op" where
  "modifyM f = (\<lambda>s. (Inr (), f s))"

definition ofSum :: "exn + 'a \<Rightarrow> ('s, 'a) op" where
  "ofSum r = (\<lambda>s. (r, s))"

text \<open>Run an operation on a part of a larger state.\<close>

definition zoom :: "('b \<Rightarrow> 's) \<Rightarrow> ('s \<Rightarrow> 'b \<Rightarrow> 'b) \<Rightarrow> ('s, 'a) op \<Rightarrow> ('b, 'a) op" where
  "zoom g p m = (\<lambda>b. case m (g b) of (r, s) \<Rightarrow> (r, p s b))"

lemma ret_run [simp]: "ret a s = (Inr a, s)"
  by (simp add: ret_def)

lemma raise_run [simp]: "raise e s = (Inl e, s)"
  by (simp add: raise_def)

lemma getM_run [simp]: "getM f s = (Inr (f s), s)"
  by (simp add: getM_def)

lemma modifyM_run [simp]: "modifyM f s = (Inr (), f s)"
  by (simp add: modifyM_def)

lemma ofSum_run [simp]: "ofSum r s = (r, s)"
  by (simp add: ofSum_def)

lemma bindM_run: "bindM m f s = (case m s of (Inl e, t) \<Rightarrow> (Inl e, t) | (Inr a, t) \<Rightarrow> f a t)"
  by (simp add: bindM_def)

lemma bindM_Inr [simp]: "m s = (Inr a, t) \<Longrightarrow> bindM m f s = f a t"
  by (simp add: bindM_def)

lemma bindM_Inl [simp]: "m s = (Inl e, t) \<Longrightarrow> bindM m f s = (Inl e, t)"
  by (simp add: bindM_def)

lemma thenM_Inr [simp]: "m s = (Inr a, t) \<Longrightarrow> thenM m n s = n t"
  by (simp add: thenM_def)

lemma thenM_Inl [simp]: "m s = (Inl e, t) \<Longrightarrow> thenM m n s = (Inl e, t)"
  by (simp add: thenM_def)

lemma catchM_Inr [simp]: "m s = (Inr a, t) \<Longrightarrow> catchM m h s = (Inr a, t)"
  by (simp add: catchM_def)

lemma catchM_Inl [simp]: "m s = (Inl e, t) \<Longrightarrow> catchM m h s = h e t"
  by (simp add: catchM_def)

lemma zoom_run: "m (g b) = (r, s) \<Longrightarrow> zoom g p m b = (r, p s b)"
  by (simp add: zoom_def)

subsection \<open>Keyed tables\<close>

text \<open>
  \<open>SELECT .. WHERE key\<close> is \<^const>\<open>map_of\<close>, an upsert is \<^const>\<open>AList.update\<close>,
  \<open>UPDATE .. WHERE key\<close> rewrites the row with that key if there is one, and
  \<open>DELETE .. WHERE p\<close> keeps the other rows.
\<close>

fun tbl_update_where :: "'k \<Rightarrow> ('v \<Rightarrow> 'v) \<Rightarrow> ('k, 'v) table \<Rightarrow> ('k, 'v) table" where
  "tbl_update_where k f [] = []"
| "tbl_update_where k f ((k', v) # t) =
     (if k' = k then (k', f v) # t else (k', v) # tbl_update_where k f t)"

lemma map_of_update_where [table_simps]:
  "map_of (tbl_update_where k f t) = (map_of t)(k := map_option f (map_of t k))"
  by (induction t) (auto simp: fun_eq_iff)

lemma keys_update_where [simp]: "map fst (tbl_update_where k f t) = map fst t"
  by (induction t) auto

lemma map_of_upsert [table_simps]: "map_of (AList.update k v t) = (map_of t)(k := Some v)"
  by (simp add: update_conv')

lemma distinct_upsert [simp]:
  "distinct (map fst t) \<Longrightarrow> distinct (map fst (AList.update k v t))"
  by (rule distinct_update)

lemma map_of_filter_keys [table_simps]:
  "map_of (filter (\<lambda>(k, v). P k) t) k = (if P k then map_of t k else None)"
  by (induction t) auto

lemma distinct_filter_keys [simp]:
  "distinct (map fst t) \<Longrightarrow> distinct (map fst (filter P t))"
  by (induction t) auto

text \<open>\<open>ORDER BY\<close> on rows already in order.\<close>

lemma sort_key_sorted: "sorted (map f xs) \<Longrightarrow> sort_key f xs = xs"
proof (induction xs)
  case (Cons x xs)
  then have "sort_key f xs = xs" by simp
  with Cons.prems show ?case by (cases xs) (auto simp: insort_key.simps)
qed simp

lemma sorted_map_int_upt: "sorted (map int [1..<Suc n])"
  by (induction n) (auto simp: sorted_append)

lemma map_eq_weaken:
  assumes "\<And>x y. g x = g y \<Longrightarrow> f x = f y" "map g xs = map g ys"
  shows "map f xs = map f ys"
proof (rule nth_equalityI)
  show len: "length (map f xs) = length (map f ys)"
    using map_eq_imp_length_eq [OF assms(2)] by simp
  fix i assume i: "i < length (map f xs)"
  then have "g (xs ! i) = g (ys ! i)"
    using assms(2) len by (metis length_map nth_map)
  then have "f (xs ! i) = f (ys ! i)" by (rule assms(1))
  with i len show "map f xs ! i = map f ys ! i" by simp
qed

subsection \<open>Characters and strings\<close>

abbreviation char_code :: "char \<Rightarrow> nat" where
  "char_code c \<equiv> of_char c"

definition lower_char :: "char \<Rightarrow> char" where
  "lower_char c = (if 65 \<le> char_code c \<and> char_code c \<le> 90 then char_of (char_code c + 32) else c)"

definition py_lower :: "string \<Rightarrow> string" where
  "py_lower s = map lower_char s"

definition starts_with :: "string \<Rightarrow> string \<Rightarrow> bool" where
  "starts_with s p \<longleftrightarrow> take (length p) s = p"

text \<open>C \<open>isspace\<close>: tab, newline, vertical tab, form feed, carriage return, space.\<close>

definition is_space :: "char \<Rightarrow> bool" where
  "is_space c \<longleftrightarrow> (9 \<le> char_code c \<and> char_code c \<le> 13) \<or> char_code c = 32"

definition is_digit :: "char \<Rightarrow> bool" where
  "is_digit c \<longleftrightarrow> 48 \<le> char_code c \<and> char_code c \<le> 57"

definition digit_val :: "char \<Rightarrow> nat" where
  "digit_val c = char_code c - 48"

definition digit_char :: "nat \<Rightarrow> char" where
  "digit_char d = char_of (d + 48)"

lemma lower_char_idem [simp]: "lower_char (lower_char c) = lower_char c"
  by (auto simp: lower_char_def)

lemma py_lower_idem [simp]: "py_lower (py_lower s) = py_lower s"
  by (simp add: py_lower_def o_def)

lemma length_py_lower [simp]: "length (py_lower s) = length s"
  by (simp add: py_lower_def)

lemma digit_char_is_digit [simp]: "d < 10 \<Longrightarrow> is_digit (digit_char d)"
  by (simp add: is_digit_def digit_char_def)

lemma digit_val_digit_char [simp]: "d < 10 \<Longrightarrow> digit_val (digit_char d) = d"
  by (simp add: digit_val_def digit_char_def)

lemma digit_char_inj: "d < 10 \<Longrightarrow> d' < 10 \<Longrightarrow> digit_char d = digit_char d' \<Longrightarrow> d = d'"
  by (metis digit_val_digit_char)

subsection \<open>Decimal numbers: \<open>str(n)\<close> and \<open>int(s)\<close>\<close>

fun nat_digits :: "nat \<Rightarrow> nat list" where
  "nat_digits n = (if n < 10 then [n] else nat_digits (n div 10) @ [n mod 10])"

declare nat_digits.simps [simp del]

definition digits_nat :: "nat list \<Rightarrow> nat" where
  "digits_nat ds = foldl (\<lambda>n d. 10 * n + d) 0 ds"

definition str_nat :: "nat \<Rightarrow> string" where
  "str_nat n = map digit_char (nat_digits n)"

definition str_int :: "int \<Rightarrow> string" where
  "str_int i = (if i < 0 then CHR ''-'' # str_nat (nat (- i)) else str_nat (nat i))"

text \<open>
  \<open>int(s)\<close> for a decimal string: surrounding white space, an optional sign, digits with single
  underscores between them, and at most 4300 digits (CPython's default conversion limit).
  \<open>None\<close> is the \<open>ValueError\<close>.
\<close>

fun scan_digits :: "bool \<Rightarrow> string \<Rightarrow> nat list option" where
  "scan_digits after_digit [] = (if after_digit then Some [] else None)"
| "scan_digits after_digit (c # cs) =
     (if is_digit c then map_option (\<lambda>ds. digit_val c # ds) (scan_digits True cs)
      else if c = CHR ''_'' \<and> after_digit then scan_digits False cs
      else None)"

definition strip_spaces :: "string \<Rightarrow> string" where
  "strip_spaces s = rev (dropWhile is_space (rev (dropWhile is_space s)))"

definition unsigned_int :: "string \<Rightarrow> int option" where
  "unsigned_int s =
     (case scan_digits False s of
        None \<Rightarrow> None
      | Some ds \<Rightarrow> if length ds \<le> 4300 then Some (int (digits_nat ds)) else None)"

definition py_int :: "string \<Rightarrow> int option" where
  "py_int s =
     (case strip_spaces s of
        [] \<Rightarrow> None
      | c # cs \<Rightarrow>
          if c = CHR ''-'' then map_option uminus (unsigned_int cs)
          else if c = CHR ''+'' then unsigned_int cs
          else unsigned_int (c # cs))"

lemma nat_digits_small: "d \<in> set (nat_digits n) \<Longrightarrow> d < 10"
proof (induction n rule: nat_digits.induct)
  case (1 n)
  show ?case
  proof (cases "n < 10")
    case True
    with "1.prems" show ?thesis by (simp add: nat_digits.simps [of n])
  next
    case False
    with "1.prems" have "d \<in> set (nat_digits (n div 10)) \<or> d = n mod 10"
      by (auto simp: nat_digits.simps [of n])
    with "1.IH" False show ?thesis by auto
  qed
qed

lemma nat_digits_nonempty [simp]: "nat_digits n \<noteq> []"
  by (subst nat_digits.simps) simp

lemma digits_nat_digits [simp]: "digits_nat (nat_digits n) = n"
proof (induction n rule: nat_digits.induct)
  case (1 n)
  show ?case
  proof (cases "n < 10")
    case True
    then show ?thesis by (simp add: nat_digits.simps [of n] digits_nat_def)
  next
    case False
    with 1 have "digits_nat (nat_digits (n div 10)) = n div 10" by simp
    with False show ?thesis by (simp add: nat_digits.simps [of n] digits_nat_def)
  qed
qed

lemma nat_digits_inj: "nat_digits m = nat_digits n \<Longrightarrow> m = n"
  by (metis digits_nat_digits)

lemma map_digit_char_inj:
  assumes "\<forall>d \<in> set xs. d < 10" "\<forall>d \<in> set ys. d < 10" "map digit_char xs = map digit_char ys"
  shows "xs = ys"
  using assms
proof (induction xs arbitrary: ys)
  case Nil
  then show ?case by simp
next
  case (Cons x xs)
  then obtain y ys' where "ys = y # ys'" by (cases ys) auto
  with Cons show ?case by (auto intro: digit_char_inj)
qed

lemma str_nat_digits: "c \<in> set (str_nat n) \<Longrightarrow> is_digit c"
  using nat_digits_small by (auto simp: str_nat_def)

lemma str_nat_nonempty [simp]: "str_nat n \<noteq> []"
  by (simp add: str_nat_def)

lemma str_nat_inj: "str_nat m = str_nat n \<Longrightarrow> m = n"
  using map_digit_char_inj nat_digits_small nat_digits_inj unfolding str_nat_def by metis

lemma digit_not_space: "is_digit c \<Longrightarrow> \<not> is_space c"
  by (auto simp: is_digit_def is_space_def)

lemma digit_not_sign: "is_digit c \<Longrightarrow> c \<noteq> CHR ''-'' \<and> c \<noteq> CHR ''+''"
  by (auto simp: is_digit_def)

lemma scan_digits_map:
  "\<forall>d \<in> set ds. d < 10 \<Longrightarrow> scan_digits True (map digit_char ds) = Some ds"
  by (induction ds) auto

lemma unsigned_int_str_nat:
  assumes "length (str_nat n) \<le> 4300"
  shows "unsigned_int (str_nat n) = Some (int n)"
proof -
  obtain d ds where ds: "nat_digits n = d # ds" by (cases "nat_digits n") auto
  then have "\<forall>x \<in> set (d # ds). x < 10" using nat_digits_small by metis
  then have "scan_digits False (str_nat n) = Some (nat_digits n)"
    by (simp add: str_nat_def ds scan_digits_map)
  moreover have "length (nat_digits n) \<le> 4300" using assms by (simp add: str_nat_def)
  ultimately show ?thesis by (simp add: unsigned_int_def)
qed

lemma strip_spaces_id:
  assumes "s \<noteq> []" "\<not> is_space (hd s)" "\<not> is_space (last s)"
  shows "strip_spaces s = s"
proof -
  have "dropWhile is_space s = s" using assms by (cases s) auto
  moreover have "dropWhile is_space (rev s) = rev s"
    using assms by (cases s rule: rev_cases) auto
  ultimately show ?thesis by (simp add: strip_spaces_def)
qed

text \<open>A number small enough to print is read back unchanged.\<close>

lemma py_int_str_int:
  assumes "length (str_nat (nat \<bar>i\<bar>)) \<le> 4300"
  shows "py_int (str_int i) = Some i"
proof -
  let ?s = "str_nat (nat \<bar>i\<bar>)"
  have dig: "is_digit (hd ?s)" "is_digit (last ?s)"
    using hd_in_set last_in_set str_nat_nonempty str_nat_digits by blast+
  have str: "str_int i = (if i < 0 then CHR ''-'' # ?s else ?s)"
    by (simp add: str_int_def)
  have "\<not> is_space (CHR ''-'')" by (simp add: is_space_def)
  then have st: "strip_spaces (str_int i) = str_int i"
    using dig digit_not_space by (intro strip_spaces_id) (auto simp: str)
  obtain c cs where c: "?s = c # cs" by (cases ?s) auto
  with dig have "c \<noteq> CHR ''-'' \<and> c \<noteq> CHR ''+''" using digit_not_sign by fastforce
  moreover have "\<not> i < 0 \<Longrightarrow> str_nat (nat i) = c # cs"
    using c by simp
  ultimately show ?thesis
    using unsigned_int_str_nat [OF assms] st
    by (cases "i < 0") (simp_all add: py_int_def str c)
qed

lemma str_int_inj:
  assumes "str_int i = str_int j"
  shows "i = j"
proof -
  have hd_dig: "hd (str_nat n) \<noteq> CHR ''-''" for n
    using str_nat_digits [of "hd (str_nat n)" n] digit_not_sign by simp
  have "(i < 0) = (j < 0)"
    using assms hd_dig by (auto simp: str_int_def split: if_splits) (metis list.sel(1))+
  with assms show ?thesis
    by (auto simp: str_int_def split: if_splits dest!: str_nat_inj)
qed

subsection \<open>Hexadecimal: \<open>bytes.fromhex\<close> and \<open>bytes.hex\<close>\<close>

definition hex_digit :: "char \<Rightarrow> nat option" where
  "hex_digit c =
     (let n = char_code c in
      if 48 \<le> n \<and> n \<le> 57 then Some (n - 48)
      else if 97 \<le> n \<and> n \<le> 102 then Some (n - 87)
      else if 65 \<le> n \<and> n \<le> 70 then Some (n - 55)
      else None)"

definition hex_char :: "nat \<Rightarrow> char" where
  "hex_char d = (if d < 10 then char_of (d + 48) else char_of (d + 87))"

definition byte_hex :: "byte \<Rightarrow> string" where
  "byte_hex b = [hex_char (unat b div 16), hex_char (unat b mod 16)]"

definition bytes_hex :: "byte list \<Rightarrow> string" where
  "bytes_hex bs = concat (map byte_hex bs)"

text \<open>\<open>bytes.fromhex\<close> skips white space between bytes (not inside one); \<open>None\<close> is the
  \<open>ValueError\<close>.\<close>

fun bytes_fromhex :: "string \<Rightarrow> byte list option" where
  "bytes_fromhex [] = Some []"
| "bytes_fromhex (c # cs) =
     (if is_space c then bytes_fromhex cs
      else case cs of
        [] \<Rightarrow> None
      | d # ds \<Rightarrow>
         (case (hex_digit c, hex_digit d) of
            (Some hi, Some lo) \<Rightarrow>
              map_option (\<lambda>bs. word_of_nat (16 * hi + lo) # bs) (bytes_fromhex ds)
          | _ \<Rightarrow> None))"

lemma hex_digit_hex_char [simp]: "d < 16 \<Longrightarrow> hex_digit (hex_char d) = Some d"
  by (auto simp: hex_digit_def hex_char_def Let_def)

lemma hex_char_not_space [simp]: "d < 16 \<Longrightarrow> \<not> is_space (hex_char d)"
  by (auto simp: is_space_def hex_char_def)

lemma unat_byte_bound: "unat (b :: byte) < 256"
  by (rule order_less_le_trans [OF unsigned_less]) simp

lemma fromhex_bytes_hex [simp]: "bytes_fromhex (bytes_hex bs) = Some bs"
proof (induction bs)
  case Nil
  show ?case by (simp add: bytes_hex_def)
next
  case (Cons b bs)
  have "unat b div 16 < 16" "unat b mod 16 < 16"
    using unat_byte_bound [of b] by auto
  moreover have "word_of_nat (16 * (unat b div 16) + unat b mod 16) = b"
    by (simp only: mult_div_mod_eq) simp
  ultimately show ?case
    using Cons by (simp add: bytes_hex_def byte_hex_def)
qed

lemma bytes_hex_inj: "bytes_hex xs = bytes_hex ys \<Longrightarrow> xs = ys"
  by (metis fromhex_bytes_hex option.inject)

lemma length_bytes_hex [simp]: "length (bytes_hex bs) = 2 * length bs"
  by (induction bs) (auto simp: bytes_hex_def byte_hex_def)

end
