(* ===== verification/Policy_Schema.thy ===== *)
theory Policy_Schema
  imports Fwd_Prelude
begin

section \<open>The policy schema (\<open>domain/policy.py\<close>)\<close>

text \<open>
  The Pydantic models of \<open>policy.yaml\<close> as records, and the constraints their \<open>Field\<close>
  declarations impose (\<open>ge\<close>, \<open>min_length\<close>, \<open>max_length\<close>, \<open>pattern\<close>,
  \<open>model_post_init\<close>) as the predicate \<open>valid_policy\<close>: \<open>Policy.model_validate\<close> accepts
  exactly the values that satisfy it.  A YAML mapping is an association list in file order, since
  the engine iterates over \<open>contracts\<close> and \<open>arg_predicates\<close>.
\<close>

text \<open>A YAML scalar of an \<open>Any\<close> field; \<open>POther\<close> carries \<open>str()\<close> of a float, date or
  collection.\<close>

datatype pyval = PStr string | PInt int | PBool bool | PNone | POther string

fun py_str_val :: "pyval \<Rightarrow> string" where
  "py_str_val (PStr s) = s"
| "py_str_val (PInt i) = str_int i"
| "py_str_val (PBool b) = (if b then ''True'' else ''False'')"
| "py_str_val PNone = ''None''"
| "py_str_val (POther s) = s"

record rate_limit =
  per_hour :: "int option"
  per_day :: "int option"

record method_rule =
  mr_max_value_wei :: string
  mr_arg_predicates :: "(string, pyval) table"
  mr_allow_unconstrained_args :: bool

record contract_rule =
  cr_abi :: string
  cr_chains :: "int list"
  cr_methods :: "(string, method_rule) table"

record permission_block =
  pb_contracts :: "(string, contract_rule) table"
  pb_wallet_allowlist :: "string list"
  pb_rate :: "rate_limit option"

record wallet_constraint =
  wc_max_aggregate_value_wei_per_day :: "string option"
  wc_rate :: "rate_limit option"

record fsp_permission_block =
  fb_message_types :: "string list"
  fb_wallet_allowlist :: "string list"
  fb_chain_ids :: "int list"
  fb_rate :: "rate_limit option"

record native_transfer_block =
  nb_chains :: "int list"
  nb_recipient_allowlist :: "string list"
  nb_max_value_wei :: string
  nb_wallet_allowlist :: "string list"
  nb_rate :: "rate_limit option"

record caller_binding =
  cb_policy_path :: string
  cb_capability_id :: "string option"

record wallet_binding =
  wbd_policy_path :: string

record policy =
  p_version :: int
  p_callers :: "(string, caller_binding) table"
  p_wallets :: "(string, wallet_binding) table"
  p_permissions :: "(string, permission_block) table"
  p_wallet_constraints :: "(string, wallet_constraint) table"
  p_fsp_permissions :: "(string, fsp_permission_block) table"
  p_native_transfers :: "(string, native_transfer_block) table"
  p_fsp_self_submit :: "string list"

subsection \<open>Schema validation\<close>

definition ge1 :: "int option \<Rightarrow> bool" where
  "ge1 x = (case x of None \<Rightarrow> True | Some n \<Rightarrow> 1 \<le> n)"

definition valid_rate_limit :: "rate_limit \<Rightarrow> bool" where
  "valid_rate_limit r \<longleftrightarrow> ge1 (per_hour r) \<and> ge1 (per_day r)"

definition valid_rate_opt :: "rate_limit option \<Rightarrow> bool" where
  "valid_rate_opt r = (case r of None \<Rightarrow> True | Some r' \<Rightarrow> valid_rate_limit r')"

definition valid_contract_rule :: "contract_rule \<Rightarrow> bool" where
  "valid_contract_rule c \<longleftrightarrow> cr_chains c \<noteq> []"

definition valid_permission_block :: "permission_block \<Rightarrow> bool" where
  "valid_permission_block p \<longleftrightarrow>
     list_all (\<lambda>(a, c). valid_contract_rule c) (pb_contracts p) \<and> valid_rate_opt (pb_rate p)"

definition valid_native_block :: "native_transfer_block \<Rightarrow> bool" where
  "valid_native_block b \<longleftrightarrow>
     nb_chains b \<noteq> [] \<and> nb_recipient_allowlist b \<noteq> [] \<and> valid_rate_opt (nb_rate b)"

text \<open>The pattern \<open>^[a-z0-9][a-z0-9_-]*/[a-z0-9-]+/[a-z0-9-]+$\<close>.\<close>

fun split_slash :: "string \<Rightarrow> string list" where
  "split_slash [] = [[]]"
| "split_slash (c # cs) =
     (if c = CHR ''/'' then [] # split_slash cs
      else case split_slash cs of [] \<Rightarrow> [[c]] | w # ws \<Rightarrow> (c # w) # ws)"

definition is_lower_alnum :: "char \<Rightarrow> bool" where
  "is_lower_alnum c \<longleftrightarrow> (97 \<le> char_code c \<and> char_code c \<le> 122) \<or> is_digit c"

definition capability_id_matches :: "string \<Rightarrow> bool" where
  "capability_id_matches s =
     (case split_slash s of
        [a, b, r] \<Rightarrow>
          a \<noteq> [] \<and> is_lower_alnum (hd a) \<and>
          list_all (\<lambda>c. is_lower_alnum c \<or> c = CHR ''_'' \<or> c = CHR ''-'') a \<and>
          b \<noteq> [] \<and> list_all (\<lambda>c. is_lower_alnum c \<or> c = CHR ''-'') b \<and>
          r \<noteq> [] \<and> list_all (\<lambda>c. is_lower_alnum c \<or> c = CHR ''-'') r
      | _ \<Rightarrow> False)"

definition valid_caller_binding :: "caller_binding \<Rightarrow> bool" where
  "valid_caller_binding b =
     (case cb_capability_id b of
        None \<Rightarrow> True
      | Some cid \<Rightarrow> length cid \<le> 128 \<and> capability_id_matches cid)"

definition valid_policy :: "policy \<Rightarrow> bool" where
  "valid_policy p \<longleftrightarrow>
     p_version p = 1 \<and>
     list_all (\<lambda>(n, b). valid_caller_binding b) (p_callers p) \<and>
     list_all (\<lambda>(n, b). valid_permission_block b) (p_permissions p) \<and>
     list_all (\<lambda>(n, c). valid_rate_opt (wc_rate c)) (p_wallet_constraints p) \<and>
     list_all (\<lambda>(n, b). valid_rate_opt (fb_rate b)) (p_fsp_permissions p) \<and>
     list_all (\<lambda>(n, b). valid_native_block b) (p_native_transfers p)"

lemma valid_policy_native:
  "valid_policy p \<Longrightarrow> map_of (p_native_transfers p) k = Some b \<Longrightarrow> valid_native_block b"
  by (auto simp: valid_policy_def list_all_iff dest!: map_of_SomeD)

lemma valid_policy_permission:
  "valid_policy p \<Longrightarrow> map_of (p_permissions p) k = Some b \<Longrightarrow> valid_permission_block b"
  by (auto simp: valid_policy_def list_all_iff dest!: map_of_SomeD)

end
