(* ===== verification/Rate_Repo.thy ===== *)
theory Rate_Repo
  imports Policy_Schema
begin

section \<open>The rate repository (\<open>infra/rate_repo.py\<close>)\<close>

text \<open>
  Three bucket tables: call counters per (caller, wallet, contract, method, window), per
  (caller, wallet, FSP message type, window), and per (wallet, window) with the day's committed
  aggregate value, a decimal string.  The interface \<open>counter_store\<close> states what a window
  counter promises; the two passes of the limiter (check every cap, then increment every window)
  and the release loop are analysed once against it and interpreted on each of the tables.
\<close>

type_synonym rate_key = "string \<times> string \<times> string \<times> string \<times> string \<times> datetime"
type_synonym wallet_key = "string \<times> string \<times> datetime"
type_synonym fsp_key = "string \<times> string \<times> string \<times> string \<times> datetime"

record wallet_bucket =
  wb_counter :: int
  wb_aggregate_value_wei :: string

record rate_db =
  rate_buckets :: "(rate_key, int) table"
  wallet_buckets :: "(wallet_key, wallet_bucket) table"
  fsp_rate_buckets :: "(fsp_key, int) table"

subsection \<open>Windows\<close>

definition hour_us :: int where "hour_us = 3600000000"
definition day_us :: int where "day_us = 86400000000"

text \<open>Truncation to the hour or the day of a UTC instant.\<close>

definition window_start :: "string \<Rightarrow> datetime \<Rightarrow> exn + datetime" where
  "window_start kind now =
     (if kind = ''hour'' then Inr (now - now mod hour_us)
      else if kind = ''day'' then Inr (now - now mod day_us)
      else Inl (ValueError (''unknown window_kind: '' @ kind)))"

definition parse_wei :: "string \<Rightarrow> string \<Rightarrow> exn + int" where
  "parse_wei value label =
     (case py_int value of
        Some n \<Rightarrow> Inr n
      | None \<Rightarrow> Inl (RateRepoError (label @ '' is not a valid decimal integer: '' @ value)))"

definition rate_windows :: "rate_limit \<Rightarrow> (string \<times> int) list" where
  "rate_windows rate =
     (case per_hour rate of None \<Rightarrow> [] | Some c \<Rightarrow> [(''hour'', c)]) @
     (case per_day rate of None \<Rightarrow> [] | Some c \<Rightarrow> [(''day'', c)])"

text \<open>First pass: is every window below its cap?  Second pass and release: one statement per
  window.\<close>

fun caps_loop ::
  "('t \<Rightarrow> string \<Rightarrow> datetime \<Rightarrow> int) \<Rightarrow> datetime \<Rightarrow> (string \<times> int) list \<Rightarrow> ('t, bool) op" where
  "caps_loop rd now [] = ret True"
| "caps_loop rd now ((wk, cap) # ws) =
     bindM (ofSum (window_start wk now)) (\<lambda>w.
     bindM (getM (\<lambda>t. rd t wk w)) (\<lambda>counter_val.
     if cap \<le> counter_val then ret False else caps_loop rd now ws))"

fun windows_loop ::
  "(string \<Rightarrow> datetime \<Rightarrow> 't \<Rightarrow> 't) \<Rightarrow> datetime \<Rightarrow> string list \<Rightarrow> ('t, unit) op" where
  "windows_loop stmt now [] = ret ()"
| "windows_loop stmt now (wk # ws) =
     bindM (ofSum (window_start wk now)) (\<lambda>w.
     thenM (modifyM (stmt wk w)) (windows_loop stmt now ws))"

subsection \<open>Statements on the bucket tables\<close>

definition rb_count :: "string \<times> string \<times> string \<times> string \<Rightarrow> rate_db \<Rightarrow> string \<Rightarrow> datetime \<Rightarrow> int" where
  "rb_count = (\<lambda>(caller, wallet, contract, method) t wk ws.
     case map_of (rate_buckets t) (caller, wallet, contract, method, wk, ws) of
       None \<Rightarrow> 0 | Some c \<Rightarrow> c)"

definition rb_inc :: "string \<times> string \<times> string \<times> string \<Rightarrow> string \<Rightarrow> datetime \<Rightarrow> rate_db \<Rightarrow> rate_db" where
  "rb_inc = (\<lambda>(caller, wallet, contract, method) wk ws t.
     let k = (caller, wallet, contract, method, wk, ws) in
     t\<lparr>rate_buckets := AList.update k
         (case map_of (rate_buckets t) k of None \<Rightarrow> 1 | Some c \<Rightarrow> c + 1) (rate_buckets t)\<rparr>)"

definition rb_dec :: "string \<times> string \<times> string \<times> string \<Rightarrow> string \<Rightarrow> datetime \<Rightarrow> rate_db \<Rightarrow> rate_db" where
  "rb_dec = (\<lambda>(caller, wallet, contract, method) wk ws t.
     t\<lparr>rate_buckets := tbl_update_where (caller, wallet, contract, method, wk, ws)
         (\<lambda>c. if 0 < c then c - 1 else c) (rate_buckets t)\<rparr>)"

definition fb_count :: "string \<times> string \<times> string \<Rightarrow> rate_db \<Rightarrow> string \<Rightarrow> datetime \<Rightarrow> int" where
  "fb_count = (\<lambda>(caller, wallet, mtype) t wk ws.
     case map_of (fsp_rate_buckets t) (caller, wallet, mtype, wk, ws) of None \<Rightarrow> 0 | Some c \<Rightarrow> c)"

definition fb_inc :: "string \<times> string \<times> string \<Rightarrow> string \<Rightarrow> datetime \<Rightarrow> rate_db \<Rightarrow> rate_db" where
  "fb_inc = (\<lambda>(caller, wallet, mtype) wk ws t.
     let k = (caller, wallet, mtype, wk, ws) in
     t\<lparr>fsp_rate_buckets := AList.update k
         (case map_of (fsp_rate_buckets t) k of None \<Rightarrow> 1 | Some c \<Rightarrow> c + 1) (fsp_rate_buckets t)\<rparr>)"

definition fb_dec :: "string \<times> string \<times> string \<Rightarrow> string \<Rightarrow> datetime \<Rightarrow> rate_db \<Rightarrow> rate_db" where
  "fb_dec = (\<lambda>(caller, wallet, mtype) wk ws t.
     t\<lparr>fsp_rate_buckets := tbl_update_where (caller, wallet, mtype, wk, ws)
         (\<lambda>c. if 0 < c then c - 1 else c) (fsp_rate_buckets t)\<rparr>)"

definition wbk_count :: "string \<Rightarrow> rate_db \<Rightarrow> string \<Rightarrow> datetime \<Rightarrow> int" where
  "wbk_count wallet t wk ws =
     (case map_of (wallet_buckets t) (wallet, wk, ws) of None \<Rightarrow> 0 | Some b \<Rightarrow> wb_counter b)"

definition wbk_inc :: "string \<Rightarrow> string \<Rightarrow> datetime \<Rightarrow> rate_db \<Rightarrow> rate_db" where
  "wbk_inc wallet wk ws t =
     (let k = (wallet, wk, ws) in
      t\<lparr>wallet_buckets := AList.update k
          (case map_of (wallet_buckets t) k of
             None \<Rightarrow> \<lparr>wb_counter = 1, wb_aggregate_value_wei = ''0''\<rparr>
           | Some b \<Rightarrow> b\<lparr>wb_counter := wb_counter b + 1\<rparr>) (wallet_buckets t)\<rparr>)"

definition wbk_dec :: "string \<Rightarrow> string \<Rightarrow> datetime \<Rightarrow> rate_db \<Rightarrow> rate_db" where
  "wbk_dec wallet wk ws t =
     t\<lparr>wallet_buckets := tbl_update_where (wallet, wk, ws)
         (\<lambda>b. if 0 < wb_counter b then b\<lparr>wb_counter := wb_counter b - 1\<rparr> else b)
         (wallet_buckets t)\<rparr>"

definition wbk_aggregate :: "string \<Rightarrow> datetime \<Rightarrow> rate_db \<Rightarrow> string option" where
  "wbk_aggregate wallet ws t =
     map_option wb_aggregate_value_wei (map_of (wallet_buckets t) (wallet, ''day'', ws))"

subsection \<open>The operations\<close>

definition check_and_increment_caller ::
  "string \<Rightarrow> string \<Rightarrow> string \<Rightarrow> string \<Rightarrow> rate_limit option \<Rightarrow> datetime \<Rightarrow> (rate_db, bool) op" where
  "check_and_increment_caller caller wallet contract method rate now =
     (case rate of
        None \<Rightarrow> ret False
      | Some r \<Rightarrow>
          let windows = rate_windows r; k = (caller, wallet, contract, method) in
          bindM (caps_loop (rb_count k) now windows) (\<lambda>ok.
          if ok then thenM (windows_loop (rb_inc k) now (map fst windows)) (ret True)
          else ret False))"

definition release_caller ::
  "string \<Rightarrow> string \<Rightarrow> string \<Rightarrow> string \<Rightarrow> rate_limit option \<Rightarrow> datetime \<Rightarrow> (rate_db, unit) op" where
  "release_caller caller wallet contract method rate now =
     (case rate of
        None \<Rightarrow> ret ()
      | Some r \<Rightarrow>
          windows_loop (rb_dec (caller, wallet, contract, method)) now (map fst (rate_windows r)))"

definition check_and_increment_fsp_caller ::
  "string \<Rightarrow> string \<Rightarrow> string \<Rightarrow> rate_limit option \<Rightarrow> datetime \<Rightarrow> (rate_db, bool) op" where
  "check_and_increment_fsp_caller caller wallet mtype rate now =
     (case rate of
        None \<Rightarrow> ret False
      | Some r \<Rightarrow>
          let windows = rate_windows r; k = (caller, wallet, mtype) in
          bindM (caps_loop (fb_count k) now windows) (\<lambda>ok.
          if ok then thenM (windows_loop (fb_inc k) now (map fst windows)) (ret True)
          else ret False))"

definition release_fsp_caller ::
  "string \<Rightarrow> string \<Rightarrow> string \<Rightarrow> rate_limit option \<Rightarrow> datetime \<Rightarrow> (rate_db, unit) op" where
  "release_fsp_caller caller wallet mtype rate now =
     (case rate of
        None \<Rightarrow> ret ()
      | Some r \<Rightarrow> windows_loop (fb_dec (caller, wallet, mtype)) now (map fst (rate_windows r)))"

text \<open>The day-aggregate check of a wallet: \<open>True\<close> when the value still fits.\<close>

definition aggregate_allows :: "string \<Rightarrow> string option \<Rightarrow> int \<Rightarrow> datetime \<Rightarrow> (rate_db, bool) op" where
  "aggregate_allows wallet max_agg value_wei now =
     (case max_agg of
        None \<Rightarrow> ret True
      | Some m \<Rightarrow>
          bindM (ofSum (parse_wei m ''max_aggregate_value_wei_per_day'')) (\<lambda>cap.
          bindM (ofSum (window_start ''day'' now)) (\<lambda>ws.
          bindM (getM (wbk_aggregate wallet ws)) (\<lambda>raw.
          bindM (ofSum (case raw of None \<Rightarrow> Inr 0 | Some r \<Rightarrow> parse_wei r ''aggregate_value_wei''))
            (\<lambda>current_agg. ret (\<not> (cap < current_agg + value_wei)))))))"

definition check_and_increment_wallet ::
  "string \<Rightarrow> wallet_constraint option \<Rightarrow> int \<Rightarrow> datetime \<Rightarrow> (rate_db, bool) op" where
  "check_and_increment_wallet wallet constraint value_wei now =
     (case constraint of
        None \<Rightarrow> ret False
      | Some c \<Rightarrow>
          bindM (aggregate_allows wallet (wc_max_aggregate_value_wei_per_day c) value_wei now) (\<lambda>fits.
          if \<not> fits then ret False
          else case wc_rate c of
            None \<Rightarrow> ret True
          | Some r \<Rightarrow>
              let windows = rate_windows r in
              bindM (caps_loop (wbk_count wallet) now windows) (\<lambda>ok.
              if ok then thenM (windows_loop (wbk_inc wallet) now (map fst windows)) (ret True)
              else ret False)))"

definition release_wallet ::
  "string \<Rightarrow> wallet_constraint option \<Rightarrow> datetime \<Rightarrow> (rate_db, unit) op" where
  "release_wallet wallet constraint now =
     (case constraint of
        None \<Rightarrow> ret ()
      | Some c \<Rightarrow>
          (case wc_rate c of
             None \<Rightarrow> ret ()
           | Some r \<Rightarrow> windows_loop (wbk_dec wallet) now (map fst (rate_windows r))))"

text \<open>\<open>str()\<close> of an integer with more than 4300 digits raises.\<close>

definition py_str_int :: "int \<Rightarrow> exn + string" where
  "py_str_int n =
     (if length (str_nat (nat \<bar>n\<bar>)) \<le> 4300 then Inr (str_int n)
      else Inl (ValueError ''Exceeds the limit (4300 digits) for integer string conversion''))"

definition add_committed_value :: "string \<Rightarrow> int \<Rightarrow> datetime \<Rightarrow> (rate_db, unit) op" where
  "add_committed_value wallet value_wei now =
     bindM (ofSum (window_start ''day'' now)) (\<lambda>ws.
     bindM (getM (wbk_aggregate wallet ws)) (\<lambda>raw.
     bindM (ofSum (case raw of None \<Rightarrow> Inr 0 | Some r \<Rightarrow> parse_wei r ''aggregate_value_wei''))
       (\<lambda>existing.
     bindM (ofSum (py_str_int (existing + value_wei))) (\<lambda>new_agg.
     modifyM (\<lambda>t. t\<lparr>wallet_buckets := AList.update (wallet, ''day'', ws)
        (case map_of (wallet_buckets t) (wallet, ''day'', ws) of
           None \<Rightarrow> \<lparr>wb_counter = 0, wb_aggregate_value_wei = new_agg\<rparr>
         | Some b \<Rightarrow> b\<lparr>wb_aggregate_value_wei := new_agg\<rparr>) (wallet_buckets t)\<rparr>)))))"

definition delete_stale :: "datetime \<Rightarrow> (rate_db, int) op" where
  "delete_stale before = (\<lambda>t.
     let rb = filter (\<lambda>((_, _, _, _, _, ws), _). \<not> ws < before) (rate_buckets t);
         wb = filter (\<lambda>((_, _, ws), _). \<not> ws < before) (wallet_buckets t);
         fb = filter (\<lambda>((_, _, _, _, ws), _). \<not> ws < before) (fsp_rate_buckets t)
     in (Inr (int (length (rate_buckets t) - length rb) + int (length (wallet_buckets t) - length wb)
              + int (length (fsp_rate_buckets t) - length fb)),
         t\<lparr>rate_buckets := rb, wallet_buckets := wb, fsp_rate_buckets := fb\<rparr>))"

subsection \<open>Window arithmetic\<close>

definition window_width :: "string \<Rightarrow> int" where
  "window_width wk = (if wk = ''hour'' then hour_us else day_us)"

definition floor_window :: "string \<Rightarrow> datetime \<Rightarrow> datetime" where
  "floor_window wk now = now - now mod window_width wk"

lemma window_width_pos [simp]: "0 < window_width wk"
  by (simp add: window_width_def hour_us_def day_us_def)

lemma window_start_floor [simp]:
  "wk = ''hour'' \<or> wk = ''day'' \<Longrightarrow> window_start wk now = Inr (floor_window wk now)"
  by (auto simp: window_start_def floor_window_def window_width_def)

lemma window_start_hour_day [simp]:
  "window_start ''hour'' now = Inr (floor_window ''hour'' now)"
  "window_start ''day'' now = Inr (floor_window ''day'' now)"
  by simp_all

lemma rate_windows_kinds: "(wk, cap) \<in> set (rate_windows r) \<Longrightarrow> wk = ''hour'' \<or> wk = ''day''"
  by (auto simp: rate_windows_def split: option.splits)

lemma rate_windows_distinct: "distinct (map fst (rate_windows r))"
  by (auto simp: rate_windows_def split: option.splits)

lemma floor_window_le: "floor_window wk now \<le> now"
  by (simp add: floor_window_def)

lemma floor_window_less: "now < floor_window wk now + window_width wk"
  using pos_mod_bound [OF window_width_pos, of now wk] by (simp add: floor_window_def)

lemma floor_window_idem: "floor_window wk (floor_window wk now) = floor_window wk now"
  by (simp add: floor_window_def mod_diff_left_eq [of now _ "now", symmetric] mod_diff_eq)

subsection \<open>The counter interface\<close>

text \<open>The limiter as the code runs it: every cap first, then every increment.\<close>

definition limiter ::
  "('t \<Rightarrow> string \<Rightarrow> datetime \<Rightarrow> int) \<Rightarrow> (string \<Rightarrow> datetime \<Rightarrow> 't \<Rightarrow> 't) \<Rightarrow> rate_limit \<Rightarrow> datetime \<Rightarrow>
   ('t, bool) op" where
  "limiter cnt incr r now =
     bindM (caps_loop cnt now (rate_windows r)) (\<lambda>ok.
     if ok then thenM (windows_loop incr now (map fst (rate_windows r))) (ret True)
     else ret False)"

definition below_caps :: "rate_limit \<Rightarrow> datetime \<Rightarrow> (string \<Rightarrow> datetime \<Rightarrow> int) \<Rightarrow> bool" where
  "below_caps r now c \<longleftrightarrow> (\<forall>(wk, cap) \<in> set (rate_windows r). c wk (floor_window wk now) < cap)"

definition hits :: "rate_limit \<Rightarrow> datetime \<Rightarrow> string \<Rightarrow> datetime \<Rightarrow> bool" where
  "hits r now wk ws \<longleftrightarrow> wk \<in> set (map fst (rate_windows r)) \<and> ws = floor_window wk now"

text \<open>A sequence of requests against the limiter, with the answers; what a request does when its
  rate is missing is the fail-closed branch of the callers.\<close>

fun acquire_run ::
  "('id \<Rightarrow> rate_limit option \<Rightarrow> datetime \<Rightarrow> ('t, bool) op) \<Rightarrow>
   ('id \<times> rate_limit option \<times> datetime) list \<Rightarrow> 't \<Rightarrow> ('id \<times> datetime) list" where
  "acquire_run acq [] t = []"
| "acquire_run acq ((i, r, now) # es) t =
     (case acq i r now t of
        (Inr True, t') \<Rightarrow> (i, now) # acquire_run acq es t'
      | (_, t') \<Rightarrow> acquire_run acq es t')"

definition granted_in :: "'id \<Rightarrow> string \<Rightarrow> datetime \<Rightarrow> ('id \<times> datetime) list \<Rightarrow> int" where
  "granted_in i wk ws gs = int (length (filter (\<lambda>(j, now). j = i \<and> floor_window wk now = ws) gs))"

locale counter_store =
  fixes count :: "'id \<Rightarrow> 't \<Rightarrow> string \<Rightarrow> datetime \<Rightarrow> int"
    and inc :: "'id \<Rightarrow> string \<Rightarrow> datetime \<Rightarrow> 't \<Rightarrow> 't"
    and dec :: "'id \<Rightarrow> string \<Rightarrow> datetime \<Rightarrow> 't \<Rightarrow> 't"
  assumes count_inc: "count i (inc j wk ws t) wk' ws' =
      count i t wk' ws' + (if i = j \<and> wk' = wk \<and> ws' = ws then 1 else 0)"
    and count_dec: "count i (dec j wk ws t) wk' ws' =
      count i t wk' ws' - (if i = j \<and> wk' = wk \<and> ws' = ws \<and> 0 < count i t wk' ws' then 1 else 0)"
begin

lemma caps_loop_eq:
  "\<forall>(wk, cap) \<in> set ws. wk = ''hour'' \<or> wk = ''day'' \<Longrightarrow>
   caps_loop (count i) now ws t =
     (Inr (\<forall>(wk, cap) \<in> set ws. count i t wk (floor_window wk now) < cap), t)"
  by (induction ws) auto

lemma inc_loop:
  assumes "\<forall>wk \<in> set ws. wk = ''hour'' \<or> wk = ''day''" "distinct ws"
  shows "\<exists>t'. windows_loop (inc i) now ws t = (Inr (), t') \<and>
    (\<forall>j wk w. count j t' wk w =
       count j t wk w + (if j = i \<and> wk \<in> set ws \<and> w = floor_window wk now then 1 else 0))"
  using assms
proof (induction ws arbitrary: t)
  case Nil
  then show ?case by simp
next
  case (Cons v ws)
  then obtain t' where "windows_loop (inc i) now ws (inc i v (floor_window v now) t) = (Inr (), t')"
    and "\<forall>j wk w. count j t' wk w = count j (inc i v (floor_window v now) t) wk w +
       (if j = i \<and> wk \<in> set ws \<and> w = floor_window wk now then 1 else 0)"
    by (metis distinct.simps(2) list.set_intros(2))
  with Cons.prems show ?case by (auto simp: count_inc)
qed

lemma dec_loop:
  assumes "\<forall>wk \<in> set ws. wk = ''hour'' \<or> wk = ''day''" "distinct ws"
  shows "\<exists>t'. windows_loop (dec i) now ws t = (Inr (), t') \<and>
    (\<forall>j wk w. count j t' wk w = count j t wk w -
       (if j = i \<and> wk \<in> set ws \<and> w = floor_window wk now \<and> 0 < count j t wk w then 1 else 0))"
  using assms
proof (induction ws arbitrary: t)
  case Nil
  then show ?case by simp
next
  case (Cons v ws)
  then obtain t' where "windows_loop (dec i) now ws (dec i v (floor_window v now) t) = (Inr (), t')"
    and "\<forall>j wk w. count j t' wk w = count j (dec i v (floor_window v now) t) wk w -
       (if j = i \<and> wk \<in> set ws \<and> w = floor_window wk now
          \<and> 0 < count j (dec i v (floor_window v now) t) wk w then 1 else 0)"
    by (metis distinct.simps(2) list.set_intros(2))
  with Cons.prems show ?case by (auto simp: count_dec)
qed

lemma limiter_denied:
  "\<not> below_caps r now (count i t) \<Longrightarrow> limiter (count i) (inc i) r now t = (Inr False, t)"
proof -
  assume nb: "\<not> below_caps r now (count i t)"
  have kinds: "\<forall>(wk, cap) \<in> set (rate_windows r). wk = ''hour'' \<or> wk = ''day''"
    using rate_windows_kinds by blast
  have "caps_loop (count i) now (rate_windows r) t = (Inr False, t)"
    using nb by (auto simp: caps_loop_eq [OF kinds] below_caps_def)
  then show ?thesis by (simp add: limiter_def bindM_run)
qed

lemma limiter_granted:
  assumes "below_caps r now (count i t)"
  shows "\<exists>t'. limiter (count i) (inc i) r now t = (Inr True, t') \<and>
    (\<forall>j wk w. count j t' wk w = count j t wk w + (if j = i \<and> hits r now wk w then 1 else 0))"
proof -
  have kinds: "\<forall>(wk, cap) \<in> set (rate_windows r). wk = ''hour'' \<or> wk = ''day''"
    using rate_windows_kinds by blast
  then have ks: "\<forall>wk \<in> set (map fst (rate_windows r)). wk = ''hour'' \<or> wk = ''day''" by auto
  have "caps_loop (count i) now (rate_windows r) t = (Inr True, t)"
    using assms by (auto simp: caps_loop_eq [OF kinds] below_caps_def)
  with inc_loop [OF ks rate_windows_distinct, of i now t] show ?thesis
    by (auto simp: limiter_def hits_def)
qed

lemma limiter_cases:
  obtains (denied) "\<not> below_caps r now (count i t)" "limiter (count i) (inc i) r now t = (Inr False, t)"
  | (granted) t' where "below_caps r now (count i t)"
      "limiter (count i) (inc i) r now t = (Inr True, t')"
      "\<And>j wk w. count j t' wk w = count j t wk w + (if j = i \<and> hits r now wk w then 1 else 0)"
  using limiter_denied limiter_granted by meson

lemma release_run:
  "\<exists>t'. windows_loop (dec i) now (map fst (rate_windows r)) t = (Inr (), t') \<and>
    (\<forall>j wk w. count j t' wk w =
       count j t wk w - (if j = i \<and> hits r now wk w \<and> 0 < count j t wk w then 1 else 0))"
proof -
  have ks: "\<forall>wk \<in> set (map fst (rate_windows r)). wk = ''hour'' \<or> wk = ''day''"
    using rate_windows_kinds by force
  from dec_loop [OF ks rate_windows_distinct] show ?thesis
    by (auto simp: hits_def)
qed

text \<open>Releasing what was just acquired restores every counter.\<close>

lemma acquire_release:
  assumes "limiter (count i) (inc i) r now t = (Inr True, t')" "\<And>wk w. 0 \<le> count i t wk w"
  shows "\<exists>t''. windows_loop (dec i) now (map fst (rate_windows r)) t' = (Inr (), t'') \<and>
    (\<forall>j wk w. count j t'' wk w = count j t wk w)"
proof -
  have c: "count j t' wk w = count j t wk w + (if j = i \<and> hits r now wk w then 1 else 0)" for j wk w
    using limiter_cases [of r now i t] assms(1) by (metis Pair_inject sum.inject(2))
  obtain t'' where "windows_loop (dec i) now (map fst (rate_windows r)) t' = (Inr (), t'')"
    and "\<forall>j wk w. count j t'' wk w =
       count j t' wk w - (if j = i \<and> hits r now wk w \<and> 0 < count j t' wk w then 1 else 0)"
    using release_run [of i now r t'] by blast
  moreover have "0 \<le> count i t wk w" for wk w by (rule assms(2))
  ultimately show ?thesis
    by (intro exI [of _ t'']) (auto simp: c order_le_less)
qed

text \<open>Whatever the interleaving, one bucket grants at most its cap inside one window.\<close>

lemma grants_bounded:
  assumes acq: "\<And>j r now t. acq j (Some r) now t = limiter (count j) (inc j) r now t"
    and none: "\<And>j now t. acq j None now t = (Inr False, t)"
    and rate: "\<And>q now. (i, q, now) \<in> set es \<Longrightarrow> \<exists>r. q = Some r \<and> (wk, cap) \<in> set (rate_windows r)"
    and start: "count i t wk ws \<le> cap"
  shows "granted_in i wk ws (acquire_run acq es t) \<le> cap - count i t wk ws"
  using rate start
proof (induction es arbitrary: t)
  case Nil
  then show ?case by (simp add: granted_in_def)
next
  case (Cons e es)
  obtain j q now where e: "e = (j, q, now)" by (cases e) auto
  show ?case
  proof (cases q)
    case None
    have "granted_in i wk ws (acquire_run acq es t) \<le> cap - count i t wk ws"
      by (rule Cons.IH) (use Cons.prems in auto)
    with None show ?thesis by (simp add: e none)
  next
    case (Some r)
    show ?thesis
    proof (cases rule: limiter_cases [of r now j t])
      case denied
      have "granted_in i wk ws (acquire_run acq es t) \<le> cap - count i t wk ws"
        by (rule Cons.IH) (use Cons.prems in auto)
      with denied show ?thesis by (simp add: e Some acq)
    next
      case (granted t')
      have r: "j = i \<Longrightarrow> (wk, cap) \<in> set (rate_windows r)"
        using Cons.prems(1) [of q now] by (auto simp: e Some)
      have room: "j = i \<Longrightarrow> floor_window wk now = ws \<Longrightarrow> count i t wk ws < cap"
        using r granted(1) by (auto simp: below_caps_def)
      have h: "j = i \<Longrightarrow> hits r now wk ws = (floor_window wk now = ws)"
        using r by (force simp: hits_def)
      have le: "count i t' wk ws \<le> cap"
        using Cons.prems(2) room h by (cases "j = i") (auto simp: granted(3))
      have "granted_in i wk ws (acquire_run acq es t') \<le> cap - count i t' wk ws"
        using Cons.prems(1) le by (intro Cons.IH) auto
      then show ?thesis
        using h by (auto simp: e Some acq granted granted_in_def split: if_splits)
    qed
  qed
qed

end

lemma check_caller_limiter:
  "check_and_increment_caller c w k m (Some r) now =
     limiter (rb_count (c, w, k, m)) (rb_inc (c, w, k, m)) r now"
  by (simp add: check_and_increment_caller_def limiter_def Let_def)

lemma check_fsp_limiter:
  "check_and_increment_fsp_caller c w m (Some r) now =
     limiter (fb_count (c, w, m)) (fb_inc (c, w, m)) r now"
  by (simp add: check_and_increment_fsp_caller_def limiter_def Let_def)

interpretation rb: counter_store rb_count rb_inc rb_dec
  by unfold_locales (auto simp: rb_count_def rb_inc_def rb_dec_def Let_def table_simps
      split: option.splits if_splits)

interpretation fb: counter_store fb_count fb_inc fb_dec
  by unfold_locales (auto simp: fb_count_def fb_inc_def fb_dec_def Let_def table_simps
      split: option.splits if_splits)

interpretation wbk: counter_store wbk_count wbk_inc wbk_dec
  by unfold_locales (auto simp: wbk_count_def wbk_inc_def wbk_dec_def Let_def table_simps
      split: option.splits if_splits)

subsection \<open>Frames and well-formedness\<close>

lemma windows_loop_frame:
  "(\<And>wk ws t. P (f wk ws t) = P t) \<Longrightarrow> P (snd (windows_loop f now ws t)) = P t"
  by (induction ws arbitrary: t) (auto simp: bindM_run thenM_def split: sum.splits)

lemma caps_loop_state: "snd (caps_loop cnt now ws t) = t"
  by (induction ws) (auto simp: bindM_run split: sum.splits)

lemma limiter_frame:
  assumes "\<And>wk ws t. P (f wk ws t) = P t"
  shows "P (snd (limiter cnt f r now t)) = P t"
  using caps_loop_state [of cnt now "rate_windows r" t]
    windows_loop_frame [of P f now "map fst (rate_windows r)" t, OF assms]
  by (auto simp: limiter_def bindM_run thenM_def split: sum.splits prod.splits)

lemma rb_frames [simp]:
  "wallet_buckets (rb_inc i wk ws t) = wallet_buckets t"
  "fsp_rate_buckets (rb_inc i wk ws t) = fsp_rate_buckets t"
  "wallet_buckets (rb_dec i wk ws t) = wallet_buckets t"
  "fsp_rate_buckets (rb_dec i wk ws t) = fsp_rate_buckets t"
  by (auto simp: rb_inc_def rb_dec_def Let_def split: prod.splits)

lemma fb_frames [simp]:
  "wallet_buckets (fb_inc i wk ws t) = wallet_buckets t"
  "rate_buckets (fb_inc i wk ws t) = rate_buckets t"
  "wallet_buckets (fb_dec i wk ws t) = wallet_buckets t"
  "rate_buckets (fb_dec i wk ws t) = rate_buckets t"
  by (auto simp: fb_inc_def fb_dec_def Let_def split: prod.splits)

lemma wbk_frames [simp]:
  "rate_buckets (wbk_inc w wk ws t) = rate_buckets t"
  "fsp_rate_buckets (wbk_inc w wk ws t) = fsp_rate_buckets t"
  "rate_buckets (wbk_dec w wk ws t) = rate_buckets t"
  "fsp_rate_buckets (wbk_dec w wk ws t) = fsp_rate_buckets t"
  by (auto simp: wbk_inc_def wbk_dec_def Let_def)

text \<open>The committed day aggregate of a wallet, read as the code reads it (no row is 0).\<close>

definition committed_value :: "rate_db \<Rightarrow> string \<Rightarrow> datetime \<Rightarrow> int option" where
  "committed_value t wallet ws =
     (case wbk_aggregate wallet ws t of None \<Rightarrow> Some 0 | Some s \<Rightarrow> py_int s)"

lemma py_int_zero: "py_int ''0'' = Some 0"
  by code_simp

lemma committed_wbk_inc [simp]: "committed_value (wbk_inc w wk v t) w' ws = committed_value t w' ws"
  by (auto simp: committed_value_def wbk_aggregate_def wbk_inc_def Let_def table_simps py_int_zero
      split: option.splits)

lemma committed_wbk_dec [simp]: "committed_value (wbk_dec w wk v t) w' ws = committed_value t w' ws"
  by (auto simp: committed_value_def wbk_aggregate_def wbk_dec_def table_simps split: option.splits)

definition counters_nonneg :: "rate_db \<Rightarrow> bool" where
  "counters_nonneg t \<longleftrightarrow>
     (\<forall>i wk ws. 0 \<le> rb_count i t wk ws) \<and> (\<forall>i wk ws. 0 \<le> fb_count i t wk ws) \<and>
     (\<forall>w wk ws. 0 \<le> wbk_count w t wk ws)"

lemma counts_cong:
  "rate_buckets t = rate_buckets t' \<Longrightarrow> rb_count i t = rb_count i t'"
  "fsp_rate_buckets t = fsp_rate_buckets t' \<Longrightarrow> fb_count j t = fb_count j t'"
  "wallet_buckets t = wallet_buckets t' \<Longrightarrow> wbk_count w t = wbk_count w t'"
  "wallet_buckets t = wallet_buckets t' \<Longrightarrow> committed_value t w ws = committed_value t' w ws"
  by (auto simp: rb_count_def fb_count_def wbk_count_def committed_value_def wbk_aggregate_def
      fun_eq_iff split: prod.splits)

text \<open>The observable content of the rate tables: every counter and every committed aggregate.\<close>

definition same_rates :: "rate_db \<Rightarrow> rate_db \<Rightarrow> bool" where
  "same_rates t t' \<longleftrightarrow>
     (\<forall>i wk ws. rb_count i t' wk ws = rb_count i t wk ws) \<and>
     (\<forall>i wk ws. fb_count i t' wk ws = fb_count i t wk ws) \<and>
     (\<forall>w wk ws. wbk_count w t' wk ws = wbk_count w t wk ws) \<and>
     (\<forall>w ws. committed_value t' w ws = committed_value t w ws)"

lemma same_rates_refl [simp]: "same_rates t t"
  by (simp add: same_rates_def)

lemma same_rates_trans: "same_rates t u \<Longrightarrow> same_rates u v \<Longrightarrow> same_rates t v"
  by (simp add: same_rates_def)

subsection \<open>What each operation does\<close>

lemma caller_check_cases:
  assumes "check_and_increment_caller c w k m rate now t = (res, t')"
  obtains (refused) "res = Inr False" "t' = t"
  | (granted) r where "rate = Some r" "res = Inr True"
      "below_caps r now (rb_count (c, w, k, m) t)"
      "\<And>j wk ws. rb_count j t' wk ws =
         rb_count j t wk ws + (if j = (c, w, k, m) \<and> hits r now wk ws then 1 else 0)"
      "wallet_buckets t' = wallet_buckets t" "fsp_rate_buckets t' = fsp_rate_buckets t"
proof (cases rate)
  case None
  with assms refused show thesis by (simp add: check_and_increment_caller_def)
next
  case (Some r)
  have fr: "wallet_buckets t' = wallet_buckets t" "fsp_rate_buckets t' = fsp_rate_buckets t"
    using assms limiter_frame [where P = wallet_buckets and f = "rb_inc (c, w, k, m)"]
      limiter_frame [where P = fsp_rate_buckets and f = "rb_inc (c, w, k, m)"]
    by (auto simp: Some check_caller_limiter) (metis rb_frames snd_conv)+
  show thesis
  proof (cases rule: rb.limiter_cases [of r now "(c, w, k, m)" t])
    case denied
    with assms refused show thesis by (simp add: Some check_caller_limiter)
  next
    case (granted u)
    with assms have "res = Inr True" "t' = u" by (simp_all add: Some check_caller_limiter)
    with granted fr Some show thesis by (intro that(2)) auto
  qed
qed

lemma release_caller_run:
  "\<exists>t'. release_caller c w k m rate now t = (Inr (), t') \<and>
     wallet_buckets t' = wallet_buckets t \<and> fsp_rate_buckets t' = fsp_rate_buckets t \<and>
     (\<forall>j wk ws. rb_count j t' wk ws = rb_count j t wk ws -
        (case rate of None \<Rightarrow> 0 | Some r \<Rightarrow>
           if j = (c, w, k, m) \<and> hits r now wk ws \<and> 0 < rb_count j t wk ws then 1 else 0))"
proof (cases rate)
  case None
  then show ?thesis by (simp add: release_caller_def)
next
  case (Some r)
  obtain t' where t': "windows_loop (rb_dec (c, w, k, m)) now (map fst (rate_windows r)) t = (Inr (), t')"
    and c: "\<forall>j wk ws. rb_count j t' wk ws = rb_count j t wk ws -
      (if j = (c, w, k, m) \<and> hits r now wk ws \<and> 0 < rb_count j t wk ws then 1 else 0)"
    using rb.release_run [of "(c, w, k, m)" now r t] by blast
  have "wallet_buckets t' = wallet_buckets t" "fsp_rate_buckets t' = fsp_rate_buckets t"
    using windows_loop_frame [where P = wallet_buckets and f = "rb_dec (c, w, k, m)"]
      windows_loop_frame [where P = fsp_rate_buckets and f = "rb_dec (c, w, k, m)"]
    by (metis rb_frames snd_conv t')+
  with t' c Some show ?thesis by (simp add: release_caller_def)
qed

definition fits_aggregate :: "rate_db \<Rightarrow> string \<Rightarrow> string option \<Rightarrow> int \<Rightarrow> datetime \<Rightarrow> bool" where
  "fits_aggregate t wallet max_agg v now =
     (case max_agg of
        None \<Rightarrow> True
      | Some m \<Rightarrow>
          (case (py_int m, committed_value t wallet (floor_window ''day'' now)) of
             (Some cap, Some agg) \<Rightarrow> agg + v \<le> cap
           | _ \<Rightarrow> False))"

lemma aggregate_allows_cases:
  assumes "aggregate_allows w m v now t = (res, t')"
  obtains (error) e where "res = Inl e" "t' = t"
  | (answer) "res = Inr (fits_aggregate t w m v now)" "t' = t"
  using assms
  by (auto simp: aggregate_allows_def fits_aggregate_def committed_value_def parse_wei_def
      bindM_run not_less split: option.splits if_splits)

lemma wallet_check_cases:
  assumes "check_and_increment_wallet w con v now t = (res, t')"
  obtains (error) e where "res = Inl e" "t' = t"
  | (refused) "res = Inr False" "t' = t"
  | (granted) c where "con = Some c" "res = Inr True"
      "fits_aggregate t w (wc_max_aggregate_value_wei_per_day c) v now"
      "case wc_rate c of None \<Rightarrow> t' = t
       | Some r \<Rightarrow> limiter (wbk_count w) (wbk_inc w) r now t = (Inr True, t')"
proof (cases con)
  case None
  with assms refused show thesis by (simp add: check_and_increment_wallet_def)
next
  case (Some c)
  obtain ra ta where a: "aggregate_allows w (wc_max_aggregate_value_wei_per_day c) v now t = (ra, ta)"
    by fastforce
  then show thesis
  proof (cases rule: aggregate_allows_cases)
    case (error e)
    with assms a Some have "res = Inl e" "t' = t"
      by (simp_all add: check_and_increment_wallet_def)
    then show thesis by (rule that(1))
  next
    case answer
    show thesis
    proof (cases "fits_aggregate t w (wc_max_aggregate_value_wei_per_day c) v now")
      case False
      with assms a answer Some that(2) show thesis
        by (simp add: check_and_increment_wallet_def bindM_run)
    next
      case fits: True
      with assms a answer Some have run:
        "(case wc_rate c of None \<Rightarrow> ret True
          | Some r \<Rightarrow> limiter (wbk_count w) (wbk_inc w) r now) t = (res, t')"
        by (simp add: check_and_increment_wallet_def bindM_run limiter_def Let_def
            split: option.splits)
      show thesis
      proof (cases "wc_rate c")
        case None
        with run fits Some that(3) show thesis by simp
      next
        case r: (Some r)
        then show thesis
          using run fits Some that(2,3)
          by (cases rule: wbk.limiter_cases [of r now w t]) auto
      qed
    qed
  qed
qed

lemma wallet_granted_frame:
  assumes "check_and_increment_wallet w con v now t = (Inr True, t')"
  shows "rate_buckets t' = rate_buckets t" "fsp_rate_buckets t' = fsp_rate_buckets t"
    "committed_value t' u ws = committed_value t u ws"
proof -
  have *: "P t' = P t" if "\<And>wk ws t. P (wbk_inc w wk ws t) = P t" for P :: "rate_db \<Rightarrow> 'z"
    using assms
  proof (cases rule: wallet_check_cases)
    case (granted c)
    then show ?thesis
      using limiter_frame [where P = P and f = "wbk_inc w" and t = t, OF that]
      by (auto split: option.splits) (metis snd_conv)
  qed simp_all
  show "rate_buckets t' = rate_buckets t" "fsp_rate_buckets t' = fsp_rate_buckets t"
    "committed_value t' u ws = committed_value t u ws"
    by (rule *, simp)+
qed

lemma release_wallet_run:
  "\<exists>t'. release_wallet w con now t = (Inr (), t') \<and>
     rate_buckets t' = rate_buckets t \<and> fsp_rate_buckets t' = fsp_rate_buckets t \<and>
     (\<forall>u ws. committed_value t' u ws = committed_value t u ws) \<and>
     (\<forall>u wk ws. wbk_count u t' wk ws = wbk_count u t wk ws -
        (case con of None \<Rightarrow> 0 | Some c \<Rightarrow> (case wc_rate c of None \<Rightarrow> 0 | Some r \<Rightarrow>
           if u = w \<and> hits r now wk ws \<and> 0 < wbk_count u t wk ws then 1 else 0)))"
proof (cases "\<exists>c r. con = Some c \<and> wc_rate c = Some r")
  case False
  then show ?thesis by (auto simp: release_wallet_def split: option.splits)
next
  case True
  then obtain c r where cr: "con = Some c" "wc_rate c = Some r" by blast
  obtain t' where t': "windows_loop (wbk_dec w) now (map fst (rate_windows r)) t = (Inr (), t')"
    and c: "\<forall>j wk ws. wbk_count j t' wk ws = wbk_count j t wk ws -
      (if j = w \<and> hits r now wk ws \<and> 0 < wbk_count j t wk ws then 1 else 0)"
    using wbk.release_run [of w now r t] by blast
  have *: "P t' = P t" if "\<And>wk ws t. P (wbk_dec w wk ws t) = P t" for P :: "rate_db \<Rightarrow> 'z"
    using windows_loop_frame [where P = P and f = "wbk_dec w" and t = t, OF that] t'
    by (metis snd_conv)
  have "rate_buckets t' = rate_buckets t" "fsp_rate_buckets t' = fsp_rate_buckets t"
    "committed_value t' u ws = committed_value t u ws" for u ws
    by (rule *, simp)+
  with t' c cr show ?thesis by (simp add: release_wallet_def)
qed

lemma fsp_check_cases:
  assumes "check_and_increment_fsp_caller c w m rate now t = (res, t')"
  obtains (refused) "res = Inr False" "t' = t"
  | (granted) r where "rate = Some r" "res = Inr True"
      "below_caps r now (fb_count (c, w, m) t)"
      "\<And>j wk ws. fb_count j t' wk ws =
         fb_count j t wk ws + (if j = (c, w, m) \<and> hits r now wk ws then 1 else 0)"
      "wallet_buckets t' = wallet_buckets t" "rate_buckets t' = rate_buckets t"
proof (cases rate)
  case None
  with assms refused show thesis by (simp add: check_and_increment_fsp_caller_def)
next
  case (Some r)
  have fr: "wallet_buckets t' = wallet_buckets t" "rate_buckets t' = rate_buckets t"
    using assms limiter_frame [where P = wallet_buckets and f = "fb_inc (c, w, m)"]
      limiter_frame [where P = rate_buckets and f = "fb_inc (c, w, m)"]
    by (auto simp: Some check_fsp_limiter) (metis fb_frames snd_conv)+
  show thesis
  proof (cases rule: fb.limiter_cases [of r now "(c, w, m)" t])
    case denied
    with assms refused show thesis by (simp add: Some check_fsp_limiter)
  next
    case (granted u)
    with assms have "res = Inr True" "t' = u" by (simp_all add: Some check_fsp_limiter)
    with granted fr Some show thesis by (intro that(2)) auto
  qed
qed

lemma release_fsp_run:
  "\<exists>t'. release_fsp_caller c w m rate now t = (Inr (), t') \<and>
     wallet_buckets t' = wallet_buckets t \<and> rate_buckets t' = rate_buckets t \<and>
     (\<forall>j wk ws. fb_count j t' wk ws = fb_count j t wk ws -
        (case rate of None \<Rightarrow> 0 | Some r \<Rightarrow>
           if j = (c, w, m) \<and> hits r now wk ws \<and> 0 < fb_count j t wk ws then 1 else 0))"
proof (cases rate)
  case None
  then show ?thesis by (simp add: release_fsp_caller_def)
next
  case (Some r)
  obtain t' where t': "windows_loop (fb_dec (c, w, m)) now (map fst (rate_windows r)) t = (Inr (), t')"
    and c: "\<forall>j wk ws. fb_count j t' wk ws = fb_count j t wk ws -
      (if j = (c, w, m) \<and> hits r now wk ws \<and> 0 < fb_count j t wk ws then 1 else 0)"
    using fb.release_run [of "(c, w, m)" now r t] by blast
  have "wallet_buckets t' = wallet_buckets t" "rate_buckets t' = rate_buckets t"
    using windows_loop_frame [where P = wallet_buckets and f = "fb_dec (c, w, m)"]
      windows_loop_frame [where P = rate_buckets and f = "fb_dec (c, w, m)"]
    by (metis fb_frames snd_conv t')+
  with t' c Some show ?thesis by (simp add: release_fsp_caller_def)
qed

subsection \<open>Committed value and pruning\<close>

lemma add_committed_run:
  assumes "committed_value t w (floor_window ''day'' now) = Some a"
    and "length (str_nat (nat \<bar>a + v\<bar>)) \<le> 4300"
  shows "\<exists>t'. add_committed_value w v now t = (Inr (), t') \<and>
     rate_buckets t' = rate_buckets t \<and> fsp_rate_buckets t' = fsp_rate_buckets t \<and>
     (\<forall>u wk ws. wbk_count u t' wk ws = wbk_count u t wk ws) \<and>
     (\<forall>u ws. committed_value t' u ws =
        (if u = w \<and> ws = floor_window ''day'' now then Some (a + v) else committed_value t u ws))"
proof -
  have st: "py_str_int (a + v) = Inr (str_int (a + v))"
    using assms(2) by (simp add: py_str_int_def)
  have rd: "py_int (str_int (a + v)) = Some (a + v)"
    using assms(2) by (rule py_int_str_int)
  let ?k = "(w, ''day'', floor_window ''day'' now)"
  let ?b = "case map_of (wallet_buckets t) ?k of
      None \<Rightarrow> \<lparr>wb_counter = 0, wb_aggregate_value_wei = str_int (a + v)\<rparr>
    | Some b \<Rightarrow> b\<lparr>wb_aggregate_value_wei := str_int (a + v)\<rparr>"
  let ?t = "t\<lparr>wallet_buckets := AList.update ?k ?b (wallet_buckets t)\<rparr>"
  have "(case wbk_aggregate w (floor_window ''day'' now) t of None \<Rightarrow> Inr 0
          | Some r \<Rightarrow> parse_wei r ''aggregate_value_wei'') = Inr a"
    using assms(1) by (cases "wbk_aggregate w (floor_window ''day'' now) t") (auto simp: committed_value_def parse_wei_def)
  then have "add_committed_value w v now t = (Inr (), ?t)"
    by (simp add: add_committed_value_def bindM_run st)
  moreover have "wbk_count u ?t wk ws = wbk_count u t wk ws" for u wk ws
    by (simp add: wbk_count_def table_simps split: option.splits)
  moreover have "committed_value ?t u ws =
      (if u = w \<and> ws = floor_window ''day'' now then Some (a + v) else committed_value t u ws)" for u ws
    by (simp add: committed_value_def wbk_aggregate_def table_simps rd split: option.splits)
  ultimately show ?thesis by (intro exI [of _ ?t]) simp
qed

lemma delete_stale_rb:
  "map_of (filter (\<lambda>((_, _, _, _, _, ws), _). \<not> ws < before) t) (c, w, k, m, wk, v) =
     (if v < before then None else map_of t (c, w, k, m, wk, v))"
  by (induction t) auto

lemma delete_stale_wb:
  "map_of (filter (\<lambda>((_, _, ws), _). \<not> ws < before) t) (w, wk, v) =
     (if v < before then None else map_of t (w, wk, v))"
  by (induction t) auto

lemma delete_stale_fb:
  "map_of (filter (\<lambda>((_, _, _, _, ws), _). \<not> ws < before) t) (c, w, m, wk, v) =
     (if v < before then None else map_of t (c, w, m, wk, v))"
  by (induction t) auto

lemmas delete_stale_maps = delete_stale_rb delete_stale_wb delete_stale_fb

subsection \<open>Properties\<close>

text \<open>The caller limiter is all-or-nothing: it grants exactly when every configured window is
  below its cap, a grant adds one to each of those windows and to no other counter, a refusal
  changes nothing, and without a configured rate it refuses (fail closed).\<close>

theorem caller_limiter_all_or_nothing:
  "(case check_and_increment_caller c w k m (Some r) now t of (res, t') \<Rightarrow>
      res = Inr (below_caps r now (rb_count (c, w, k, m) t)) \<and>
      (if below_caps r now (rb_count (c, w, k, m) t)
       then \<forall>j wk ws. rb_count j t' wk ws =
              rb_count j t wk ws + (if j = (c, w, k, m) \<and> hits r now wk ws then 1 else 0)
       else t' = t) \<and>
      wallet_buckets t' = wallet_buckets t \<and> fsp_rate_buckets t' = fsp_rate_buckets t) \<and>
   check_and_increment_caller c w k m None now t = (Inr False, t)"
proof -
  obtain res t' where run: "check_and_increment_caller c w k m (Some r) now t = (res, t')"
    by fastforce
  have "res = Inr (below_caps r now (rb_count (c, w, k, m) t)) \<and>
      (if below_caps r now (rb_count (c, w, k, m) t)
       then \<forall>j wk ws. rb_count j t' wk ws =
              rb_count j t wk ws + (if j = (c, w, k, m) \<and> hits r now wk ws then 1 else 0)
       else t' = t)"
    using run by (cases rule: rb.limiter_cases [of r now "(c, w, k, m)" t])
      (simp_all add: check_caller_limiter)
  moreover have "wallet_buckets t' = wallet_buckets t \<and> fsp_rate_buckets t' = fsp_rate_buckets t"
    using run by (cases rule: caller_check_cases) auto
  ultimately show ?thesis
    using run by (simp add: check_and_increment_caller_def [where rate = None])
qed

text \<open>The two call limiters as the acquisition operations of a request sequence.\<close>

definition caller_acquire ::
  "string \<times> string \<times> string \<times> string \<Rightarrow> rate_limit option \<Rightarrow> datetime \<Rightarrow> (rate_db, bool) op" where
  "caller_acquire = (\<lambda>(c, w, k, m) rate now. check_and_increment_caller c w k m rate now)"

definition fsp_acquire ::
  "string \<times> string \<times> string \<Rightarrow> rate_limit option \<Rightarrow> datetime \<Rightarrow> (rate_db, bool) op" where
  "fsp_acquire = (\<lambda>(c, w, m) rate now. check_and_increment_fsp_caller c w m rate now)"

lemma caller_acquire_simps:
  "caller_acquire j (Some r) now t = limiter (rb_count j) (rb_inc j) r now t"
  "caller_acquire j None now t = (Inr False, t)"
  by (cases j; simp add: caller_acquire_def check_caller_limiter)
    (cases j; simp add: caller_acquire_def check_and_increment_caller_def)

lemma fsp_acquire_simps:
  "fsp_acquire j (Some r) now t = limiter (fb_count j) (fb_inc j) r now t"
  "fsp_acquire j None now t = (Inr False, t)"
  by (cases j; simp add: fsp_acquire_def check_fsp_limiter)
    (cases j; simp add: fsp_acquire_def check_and_increment_fsp_caller_def)

definition empty_rates :: rate_db where
  "empty_rates = \<lparr>rate_buckets = [], wallet_buckets = [], fsp_rate_buckets = []\<rparr>"

lemma empty_rates_counts [simp]:
  "rb_count i empty_rates wk ws = 0" "fb_count j empty_rates wk ws = 0"
  "wbk_count w empty_rates wk ws = 0"
  by (auto simp: rb_count_def fb_count_def wbk_count_def empty_rates_def split: prod.splits)

text \<open>C26: the rate limit is enforced: in any sequence of requests, at any times and interleaved
  with other callers' requests, one (caller, wallet, contract, method) bucket is granted at most
  \<open>cap\<close> requests inside one window of the configured kind, whatever the bucket held before.\<close>

theorem caller_rate_enforced:
  assumes "\<And>rate now. (i, rate, now) \<in> set es \<Longrightarrow>
      \<exists>r. rate = Some r \<and> (wk, cap) \<in> set (rate_windows r)"
    and "0 \<le> rb_count i t wk ws" "rb_count i t wk ws \<le> cap"
  shows "granted_in i wk ws (acquire_run caller_acquire es t) \<le> cap"
proof -
  have "granted_in i wk ws (acquire_run caller_acquire es t) \<le> cap - rb_count i t wk ws"
    using assms(1,3) by (rule rb.grants_bounded [OF caller_acquire_simps])
  with assms(2) show ?thesis by simp
qed

lemma caller_rate_enforced_witness:
  "granted_in (''clif'', ''w'', ''0xc'', ''f()'') ''hour'' 0
     (acquire_run caller_acquire
        [((''clif'', ''w'', ''0xc'', ''f()''), Some \<lparr>per_hour = Some 1, per_day = None\<rparr>, 5),
         ((''clif'', ''w'', ''0xc'', ''f()''), Some \<lparr>per_hour = Some 1, per_day = None\<rparr>, 9)]
        empty_rates) \<le> 1"
  by (rule caller_rate_enforced) (auto simp: rate_windows_def)

text \<open>Releasing after a failed request undoes the grant: every counter of every bucket is what
  it was before the request.\<close>

theorem caller_release_roundtrip:
  assumes "check_and_increment_caller c w k m rate now t = (Inr True, t')"
    and "\<And>wk ws. 0 \<le> rb_count (c, w, k, m) t wk ws"
  shows "\<exists>t''. release_caller c w k m rate now t' = (Inr (), t'') \<and> same_rates t t''"
proof -
  from assms(1) obtain r where r: "rate = Some r"
    and run: "limiter (rb_count (c, w, k, m)) (rb_inc (c, w, k, m)) r now t = (Inr True, t')"
    by (cases rate) (auto simp: check_and_increment_caller_def [where rate = None] check_caller_limiter)
  obtain t'' where t'': "release_caller c w k m rate now t' = (Inr (), t'')"
    and fr: "wallet_buckets t'' = wallet_buckets t'" "fsp_rate_buckets t'' = fsp_rate_buckets t'"
    using release_caller_run [of c w k m rate now t'] by blast
  have cnt: "rb_count j t'' wk ws = rb_count j t wk ws" for j wk ws
    using rb.acquire_release [OF run assms(2)] t'' by (cases j) (auto simp: release_caller_def r)
  have "wallet_buckets t' = wallet_buckets t \<and> fsp_rate_buckets t' = fsp_rate_buckets t"
    using assms(1) by (cases rule: caller_check_cases) auto
  with fr have "wallet_buckets t'' = wallet_buckets t" "fsp_rate_buckets t'' = fsp_rate_buckets t"
    by simp_all
  then have "same_rates t t''"
    using cnt by (simp add: same_rates_def counts_cong [of t'' t])
  with t'' show ?thesis by blast
qed

lemma caller_release_roundtrip_witness:
  "\<exists>t''. release_caller ''c'' ''w'' ''k'' ''m'' (Some \<lparr>per_hour = Some 1, per_day = None\<rparr>) 7
     (rb_inc (''c'', ''w'', ''k'', ''m'') ''hour'' 0 empty_rates) = (Inr (), t'') \<and>
     same_rates empty_rates t''"
  by (rule caller_release_roundtrip)
    (simp_all add: check_and_increment_caller_def rate_windows_def Let_def
      bindM_run thenM_def floor_window_def window_width_def hour_us_def)

text \<open>The wallet limiter is sound: it grants only when the wallet has a constraint and the day's
  committed aggregate plus the new value stays within the configured cap; granting increments the
  wallet's call counters in exactly the configured windows and never the committed aggregate.\<close>

theorem wallet_check_sound:
  assumes "check_and_increment_wallet w con v now t = (Inr True, t')"
  shows "\<exists>c. con = Some c \<and>
     fits_aggregate t w (wc_max_aggregate_value_wei_per_day c) v now \<and>
     (\<forall>u wk ws. wbk_count u t' wk ws = wbk_count u t wk ws +
        (case wc_rate c of None \<Rightarrow> 0 | Some r \<Rightarrow> if u = w \<and> hits r now wk ws then 1 else 0)) \<and>
     (\<forall>r. wc_rate c = Some r \<longrightarrow> below_caps r now (wbk_count w t)) \<and>
     (\<forall>u ws. committed_value t' u ws = committed_value t u ws)"
  using assms
proof (cases rule: wallet_check_cases)
  case (granted c)
  then show ?thesis
    using wallet_granted_frame [OF assms]
    by (cases "wc_rate c"; cases rule: wbk.limiter_cases [of "the (wc_rate c)" now w t])
      (auto intro!: exI [of _ c])
qed simp_all

lemma wallet_check_sound_witness:
  "\<exists>c. Some \<lparr>wc_max_aggregate_value_wei_per_day = Some ''100'',
          wc_rate = Some \<lparr>per_hour = Some 2, per_day = None\<rparr>\<rparr> = Some c \<and>
     fits_aggregate empty_rates ''w'' (wc_max_aggregate_value_wei_per_day c) 60 7 \<and>
     (\<forall>u wk ws. wbk_count u (wbk_inc ''w'' ''hour'' 0 empty_rates) wk ws =
        wbk_count u empty_rates wk ws +
        (case wc_rate c of None \<Rightarrow> 0 | Some r \<Rightarrow> if u = ''w'' \<and> hits r 7 wk ws then 1 else 0)) \<and>
     (\<forall>r. wc_rate c = Some r \<longrightarrow> below_caps r 7 (wbk_count ''w'' empty_rates)) \<and>
     (\<forall>u ws. committed_value (wbk_inc ''w'' ''hour'' 0 empty_rates) u ws =
        committed_value empty_rates u ws)"
proof (rule wallet_check_sound)
  have "py_int ''100'' = Some 100" by code_simp
  then show "check_and_increment_wallet ''w'' (Some \<lparr>wc_max_aggregate_value_wei_per_day = Some ''100'',
       wc_rate = Some \<lparr>per_hour = Some 2, per_day = None\<rparr>\<rparr>) 60 7 empty_rates =
     (Inr True, wbk_inc ''w'' ''hour'' 0 empty_rates)"
    by (simp add: check_and_increment_wallet_def aggregate_allows_def parse_wei_def rate_windows_def
        Let_def bindM_run thenM_def floor_window_def window_width_def hour_us_def wbk_aggregate_def
        empty_rates_def wbk_count_def)
qed

text \<open>Committing a signed transaction's value adds exactly that value to the wallet's day
  aggregate and changes no call counter and no other wallet's or day's aggregate.\<close>

theorem committed_value_adds:
  assumes "committed_value t w (floor_window ''day'' now) = Some a"
    and "length (str_nat (nat \<bar>a + v\<bar>)) \<le> 4300"
  shows "\<exists>t'. add_committed_value w v now t = (Inr (), t') \<and>
     rate_buckets t' = rate_buckets t \<and> fsp_rate_buckets t' = fsp_rate_buckets t \<and>
     (\<forall>u wk ws. wbk_count u t' wk ws = wbk_count u t wk ws) \<and>
     (\<forall>u ws. committed_value t' u ws =
        (if u = w \<and> ws = floor_window ''day'' now then Some (a + v) else committed_value t u ws))"
  using assms by (rule add_committed_run)

lemma committed_value_adds_witness:
  "\<exists>t'. add_committed_value ''w'' 41 7 empty_rates = (Inr (), t') \<and>
     rate_buckets t' = rate_buckets empty_rates \<and> fsp_rate_buckets t' = fsp_rate_buckets empty_rates \<and>
     (\<forall>u wk ws. wbk_count u t' wk ws = wbk_count u empty_rates wk ws) \<and>
     (\<forall>u ws. committed_value t' u ws =
        (if u = ''w'' \<and> ws = floor_window ''day'' 7 then Some (0 + 41)
         else committed_value empty_rates u ws))"
proof (rule committed_value_adds)
  show "committed_value empty_rates ''w'' (floor_window ''day'' 7) = Some 0"
    by (simp add: committed_value_def wbk_aggregate_def empty_rates_def)
  show "length (str_nat (nat \<bar>0 + 41\<bar>)) \<le> 4300" by code_simp
qed

text \<open>Pruning removes exactly the buckets whose window starts before the cut-off and keeps every
  counter and aggregate of the later windows.\<close>

theorem delete_stale_spec:
  "\<exists>n t'. delete_stale before t = (Inr n, t') \<and> 0 \<le> n \<and>
     (\<forall>i wk ws. rb_count i t' wk ws = (if ws < before then 0 else rb_count i t wk ws)) \<and>
     (\<forall>i wk ws. fb_count i t' wk ws = (if ws < before then 0 else fb_count i t wk ws)) \<and>
     (\<forall>w wk ws. wbk_count w t' wk ws = (if ws < before then 0 else wbk_count w t wk ws)) \<and>
     (\<forall>w ws. committed_value t' w ws = (if ws < before then Some 0 else committed_value t w ws))"
  by (auto simp: delete_stale_def Let_def rb_count_def fb_count_def wbk_count_def
      committed_value_def wbk_aggregate_def delete_stale_maps split: prod.splits)

subsection \<open>The counters never go negative\<close>

lemma counters_nonneg_empty [simp]: "counters_nonneg empty_rates"
  by (simp add: counters_nonneg_def)

lemma counters_nonneg_caller:
  "counters_nonneg t \<Longrightarrow> check_and_increment_caller c w k m rate now t = (res, t') \<Longrightarrow> counters_nonneg t'"
  by (erule caller_check_cases) (auto simp: counters_nonneg_def counts_cong [of t' t])

lemma counters_nonneg_fsp:
  "counters_nonneg t \<Longrightarrow> check_and_increment_fsp_caller c w m rate now t = (res, t') \<Longrightarrow> counters_nonneg t'"
  by (erule fsp_check_cases) (auto simp: counters_nonneg_def counts_cong [of t' t])

lemma counters_nonneg_wallet:
  assumes "counters_nonneg t" "check_and_increment_wallet w con v now t = (res, t')"
  shows "counters_nonneg t'"
  using assms(2)
proof (cases rule: wallet_check_cases)
  case (granted c)
  then have "check_and_increment_wallet w con v now t = (Inr True, t')" using assms by simp
  note frame = wallet_granted_frame(1,2) [OF this]
  have "0 \<le> wbk_count u t' wk ws" for u wk ws
    using granted(4) assms(1)
    by (cases "wc_rate c"; cases rule: wbk.limiter_cases [of "the (wc_rate c)" now w t])
      (auto simp: counters_nonneg_def)
  then show ?thesis
    using frame assms(1) by (simp add: counters_nonneg_def counts_cong [of t' t])
qed (use assms in auto)

lemma counters_nonneg_release:
  assumes "counters_nonneg t"
  shows "counters_nonneg (snd (release_caller c w k m rate now t))"
    "counters_nonneg (snd (release_fsp_caller c w m rate now t))"
    "counters_nonneg (snd (release_wallet w con now t))"
proof -
  obtain t' where "release_caller c w k m rate now t = (Inr (), t')"
    "wallet_buckets t' = wallet_buckets t" "fsp_rate_buckets t' = fsp_rate_buckets t"
    "\<forall>j wk ws. rb_count j t' wk ws = rb_count j t wk ws -
        (case rate of None \<Rightarrow> 0 | Some r \<Rightarrow>
           if j = (c, w, k, m) \<and> hits r now wk ws \<and> 0 < rb_count j t wk ws then 1 else 0)"
    using release_caller_run by blast
  with assms show "counters_nonneg (snd (release_caller c w k m rate now t))"
    by (auto simp: counters_nonneg_def counts_cong [of t' t] split: option.splits)
  obtain t2 where "release_fsp_caller c w m rate now t = (Inr (), t2)"
    "wallet_buckets t2 = wallet_buckets t" "rate_buckets t2 = rate_buckets t"
    "\<forall>j wk ws. fb_count j t2 wk ws = fb_count j t wk ws -
        (case rate of None \<Rightarrow> 0 | Some r \<Rightarrow>
           if j = (c, w, m) \<and> hits r now wk ws \<and> 0 < fb_count j t wk ws then 1 else 0)"
    using release_fsp_run by blast
  with assms show "counters_nonneg (snd (release_fsp_caller c w m rate now t))"
    by (auto simp: counters_nonneg_def counts_cong [of t2 t] split: option.splits)
  obtain t3 where "release_wallet w con now t = (Inr (), t3)"
    "rate_buckets t3 = rate_buckets t" "fsp_rate_buckets t3 = fsp_rate_buckets t"
    "\<forall>u wk ws. wbk_count u t3 wk ws = wbk_count u t wk ws -
        (case con of None \<Rightarrow> 0 | Some c \<Rightarrow> (case wc_rate c of None \<Rightarrow> 0 | Some r \<Rightarrow>
           if u = w \<and> hits r now wk ws \<and> 0 < wbk_count u t wk ws then 1 else 0))"
    using release_wallet_run by blast
  with assms show "counters_nonneg (snd (release_wallet w con now t))"
    by (auto simp: counters_nonneg_def counts_cong [of t3 t] split: option.splits)
qed

end
