(* ===== verification/Abi_Intent.thy ===== *)
theory Abi_Intent
  imports Fwd_Prelude
begin

section \<open>The intent decoder and the ABI registry\<close>

text \<open>
  \<open>domain/intent.py\<close> and the indexing and lookups of \<open>infra/abi_registry.py\<close>.  The
  third-party functions are parameters: \<open>selector4\<close> is
  \<open>eth_utils.function_abi_to_4byte_selector\<close> (\<open>None\<close> when it raises) and \<open>abi_decode\<close> is
  \<open>eth_abi.decode\<close> on a list of types.  A decoded Python value is an \<open>abi_value\<close>.
\<close>

datatype abi_value = VStr string | VInt int | VBool bool | VBytes "byte list" | VSeq "abi_value list"

text \<open>An ABI input entry; a missing key is \<open>None\<close>.\<close>

datatype abi_input =
  AbiInput (ai_name: "string option") (ai_type: "string option") (ai_components: "abi_input list option")

record abi_fn =
  fn_type :: "string option"
  fn_mutability :: "string option"
  fn_name :: "string option"
  fn_inputs :: "abi_input list"

record decoded_intent =
  di_contract :: string
  di_method_signature :: string
  di_selector :: string
  di_args :: "(string, abi_value) table"

subsection \<open>Types and signatures\<close>

fun join_commas :: "string list \<Rightarrow> string" where
  "join_commas [] = []"
| "join_commas [x] = x"
| "join_commas (x # y # ys) = x @ CHR '','' # join_commas (y # ys)"

text \<open>\<open>None\<close> is the \<open>KeyError\<close> of a missing \<open>type\<close> or \<open>components\<close>.\<close>

fun canonical_type :: "abi_input \<Rightarrow> string option" where
  "canonical_type (AbiInput nm ty comps) =
     (case ty of
        None \<Rightarrow> None
      | Some t \<Rightarrow>
          if \<not> starts_with t ''tuple'' then Some t
          else
            (case comps of
               None \<Rightarrow> None
             | Some cs \<Rightarrow>
                 map_option (\<lambda>ts. ''('' @ join_commas ts @ '')'' @ drop (length ''tuple'') t)
                   (those (map canonical_type cs))))"

definition canonical_signature :: "abi_fn \<Rightarrow> string option" where
  "canonical_signature f =
     (case fn_name f of
        None \<Rightarrow> None
      | Some name \<Rightarrow>
          map_option (\<lambda>ts. name @ ''('' @ join_commas ts @ '')'')
            (those (map canonical_type (fn_inputs f))))"

definition selector_of :: "(abi_fn \<Rightarrow> byte list option) \<Rightarrow> abi_fn \<Rightarrow> string option" where
  "selector_of selector4 f = map_option (\<lambda>bs. ''0x'' @ bytes_hex bs) (selector4 f)"

text \<open>The alternatives of \<open>_SCALAR_RE\<close>.\<close>

definition scalar_types :: "string list" where
  "scalar_types =
     [''address'', ''bool'', ''string'', ''bytes'', ''uint'', ''int''] @
     map (\<lambda>k. ''uint'' @ str_nat (8 * k)) [1..<33] @
     map (\<lambda>k. ''int'' @ str_nat (8 * k)) [1..<33] @
     map (\<lambda>k. ''bytes'' @ str_nat k) [1..<33]"

text \<open>Python's \<open>$\<close> also matches before a final newline.\<close>

definition chop_newline :: "string \<Rightarrow> string" where
  "chop_newline s = (if s \<noteq> [] \<and> last s = CHR 0x0A then butlast s else s)"

definition is_predicatable_scalar :: "string \<Rightarrow> bool" where
  "is_predicatable_scalar t \<longleftrightarrow>
     CHR ''['' \<notin> set t \<and> CHR ''('' \<notin> set t \<and> \<not> starts_with t ''tuple'' \<and>
     \<not> starts_with t ''function'' \<and>
     (t \<in> set scalar_types \<or> chop_newline t \<in> set scalar_types)"

text \<open>\<open>any(..)\<close> over the inputs in order; a missing key raises.\<close>

fun any_nonscalar :: "abi_input list \<Rightarrow> exn + bool" where
  "any_nonscalar [] = Inr False"
| "any_nonscalar (i # is) =
     (case canonical_type i of
        None \<Rightarrow> Inl KeyError
      | Some t \<Rightarrow> if \<not> is_predicatable_scalar t then Inr True else any_nonscalar is)"

definition has_nonscalar_args :: "abi_fn \<Rightarrow> exn + bool" where
  "has_nonscalar_args f = any_nonscalar (fn_inputs f)"

subsection \<open>Decoding\<close>

text \<open>The assertion fails (\<open>None\<close>) when eth_abi did not return bytes for a bytes type.\<close>

definition normalize_value :: "string \<Rightarrow> abi_value \<Rightarrow> abi_value option" where
  "normalize_value ctype v =
     (if starts_with ctype ''bytes'' \<and> (ctype = ''bytes'' \<or> CHR ''['' \<notin> set ctype)
      then (case v of VBytes bs \<Rightarrow> Some (VStr (''0x'' @ bytes_hex bs)) | _ \<Rightarrow> None)
      else Some v)"

definition input_name :: "nat \<Rightarrow> abi_input \<Rightarrow> string" where
  "input_name i inp =
     (case ai_name inp of
        None \<Rightarrow> ''arg'' @ str_nat i
      | Some n \<Rightarrow> if n = [] then ''arg'' @ str_nat i else n)"

text \<open>The projection loop: \<open>zip\<close> stops at the shorter list; a repeated name overwrites.\<close>

fun project_args ::
  "(abi_input \<times> string \<times> abi_value) list \<Rightarrow> (string, abi_value) table \<Rightarrow>
   (string, abi_value) table option" where
  "project_args [] args = Some args"
| "project_args ((inp, name, v) # r) args =
     (case canonical_type inp of
        None \<Rightarrow> None
      | Some t \<Rightarrow>
          if is_predicatable_scalar t then
            (case normalize_value t v of
               None \<Rightarrow> None
             | Some u \<Rightarrow> project_args r (AList.update name u args))
          else project_args r args)"

text \<open>Every exception inside is caught and answered with \<open>None\<close>.\<close>

definition decode_intent ::
  "(abi_fn \<Rightarrow> byte list option) \<Rightarrow> (string list \<Rightarrow> byte list \<Rightarrow> abi_value list option) \<Rightarrow>
   string \<Rightarrow> byte list \<Rightarrow> abi_fn \<Rightarrow> decoded_intent option" where
  "decode_intent selector4 abi_decode contract calldata f =
     (if length calldata < 4 then None
      else case selector_of selector4 f of
        None \<Rightarrow> None
      | Some sel \<Rightarrow>
          if ''0x'' @ bytes_hex (take 4 calldata) \<noteq> sel then None
          else case those (map canonical_type (fn_inputs f)) of
            None \<Rightarrow> None
          | Some types \<Rightarrow>
              (case abi_decode types (drop 4 calldata) of
                 None \<Rightarrow> None
               | Some decoded \<Rightarrow>
                   (let names = map (\<lambda>(i, inp). input_name i inp) (enumerate 0 (fn_inputs f)) in
                    case project_args (zip (fn_inputs f) (zip names decoded)) [] of
                      None \<Rightarrow> None
                    | Some args \<Rightarrow>
                        map_option (\<lambda>sig. \<lparr>di_contract = py_lower contract, di_method_signature = sig,
                            di_selector = sel, di_args = args\<rparr>)
                          (canonical_signature f))))"

subsection \<open>The registry\<close>

record abi_method =
  am_method_signature :: string
  am_canonical_input_types :: "string list"
  am_abi_fn_entry :: abi_fn

type_synonym abi_registry = "(string, (string, abi_method) table) table"

datatype registry_error =
    DuplicateSelector string string string
  | EntryError

text \<open>The entries of one parsed ABI; an entry that is not a dict is \<open>None\<close>.  \<open>EntryError\<close> is an
  exception of the helpers (a missing key), which escapes \<open>load\<close>.\<close>

fun index_entries ::
  "(abi_fn \<Rightarrow> byte list option) \<Rightarrow> abi_fn option list \<Rightarrow> (string, abi_method) table \<Rightarrow>
   registry_error + (string, abi_method) table" where
  "index_entries selector4 [] submap = Inr submap"
| "index_entries selector4 (None # es) submap = index_entries selector4 es submap"
| "index_entries selector4 (Some f # es) submap =
     (if fn_type f \<noteq> Some ''function'' then index_entries selector4 es submap
      else if fn_mutability f \<noteq> Some ''nonpayable'' \<and> fn_mutability f \<noteq> Some ''payable''
      then index_entries selector4 es submap
      else
        (case (selector_of selector4 f, canonical_signature f,
               those (map canonical_type (fn_inputs f))) of
           (Some sel, Some sig, Some types) \<Rightarrow>
             (case map_of submap sel of
                Some m \<Rightarrow> Inl (DuplicateSelector sel (am_method_signature m) sig)
              | None \<Rightarrow> index_entries selector4 es (submap @ [(sel,
                  \<lparr>am_method_signature = sig, am_canonical_input_types = types,
                   am_abi_fn_entry = f\<rparr>)]))
         | _ \<Rightarrow> Inl EntryError))"

fun load_abis ::
  "(abi_fn \<Rightarrow> byte list option) \<Rightarrow> (string \<times> abi_fn option list) list \<Rightarrow> abi_registry \<Rightarrow>
   registry_error + abi_registry" where
  "load_abis selector4 [] reg = Inr reg"
| "load_abis selector4 ((name, entries) # r) reg =
     (case index_entries selector4 entries [] of
        Inl e \<Rightarrow> Inl e
      | Inr submap \<Rightarrow> load_abis selector4 r (AList.update name submap reg))"

definition registry_lookup :: "abi_registry \<Rightarrow> string \<Rightarrow> string \<Rightarrow> abi_method option" where
  "registry_lookup reg abi_name selector_hex =
     (case map_of reg abi_name of
        None \<Rightarrow> None
      | Some submap \<Rightarrow> map_of submap (py_lower selector_hex))"

definition abi_names :: "abi_registry \<Rightarrow> string list" where
  "abi_names reg = map fst reg"

definition signatures_for :: "abi_registry \<Rightarrow> string \<Rightarrow> string list" where
  "signatures_for reg abi_name =
     (case map_of reg abi_name of
        None \<Rightarrow> []
      | Some submap \<Rightarrow> map (\<lambda>(s, m). am_method_signature m) submap)"

subsection \<open>Lemmas\<close>

text \<open>What the index promises of each of its rows.\<close>

definition method_ok :: "(abi_fn \<Rightarrow> byte list option) \<Rightarrow> string \<Rightarrow> abi_method \<Rightarrow> bool" where
  "method_ok selector4 sel m \<longleftrightarrow>
     fn_type (am_abi_fn_entry m) = Some ''function'' \<and>
     (fn_mutability (am_abi_fn_entry m) = Some ''nonpayable'' \<or>
      fn_mutability (am_abi_fn_entry m) = Some ''payable'') \<and>
     selector_of selector4 (am_abi_fn_entry m) = Some sel \<and>
     canonical_signature (am_abi_fn_entry m) = Some (am_method_signature m) \<and>
     those (map canonical_type (fn_inputs (am_abi_fn_entry m))) = Some (am_canonical_input_types m)"

definition registry_ok :: "(abi_fn \<Rightarrow> byte list option) \<Rightarrow> abi_registry \<Rightarrow> bool" where
  "registry_ok selector4 reg \<longleftrightarrow>
     list_all (\<lambda>(name, submap). distinct (map fst submap) \<and>
       list_all (\<lambda>(sel, m). method_ok selector4 sel m) submap) reg"

lemma index_entries_ok:
  "index_entries selector4 es submap = Inr out \<Longrightarrow> distinct (map fst submap) \<Longrightarrow>
   list_all (\<lambda>(sel, m). method_ok selector4 sel m) submap \<Longrightarrow>
   distinct (map fst out) \<and> list_all (\<lambda>(sel, m). method_ok selector4 sel m) out"
proof (induction selector4 es submap rule: index_entries.induct)
  case (3 selector4 f es submap)
  then show ?case
    by (auto simp: method_ok_def map_of_eq_None_iff split: if_splits option.splits)
qed simp_all

lemma list_all_update: "list_all P xs \<Longrightarrow> P (k, v) \<Longrightarrow> list_all P (AList.update k v xs)"
  by (induction xs) auto

lemma load_abis_ok:
  "load_abis selector4 fs reg = Inr out \<Longrightarrow> registry_ok selector4 reg \<Longrightarrow> registry_ok selector4 out"
proof (induction selector4 fs reg rule: load_abis.induct)
  case (2 selector4 name es r reg)
  then obtain sm where sm: "index_entries selector4 es [] = Inr sm" by (auto split: sum.splits)
  have "registry_ok selector4 (AList.update name sm reg)"
    using 2(3) index_entries_ok [OF sm] unfolding registry_ok_def by (intro list_all_update) auto
  with 2 sm show ?case by simp
qed simp

lemma registry_lookup_ok:
  assumes "registry_ok selector4 reg" "registry_lookup reg abi sel = Some m"
  shows "method_ok selector4 (py_lower sel) m"
  using assms
  by (fastforce simp: registry_lookup_def registry_ok_def list_all_iff split: option.splits
      dest!: map_of_SomeD)

text \<open>The scalars of a method are all its arguments exactly when none is refused.\<close>

lemma any_nonscalar_iff:
  "any_nonscalar is = Inr b \<Longrightarrow>
   b = (\<exists>i \<in> set is. \<exists>t. canonical_type i = Some t \<and> \<not> is_predicatable_scalar t)"
  by (induction "is") (auto split: option.splits if_splits)

lemma project_args_origin:
  "project_args ps args = Some out \<Longrightarrow> map_of out name = Some v \<Longrightarrow>
   map_of args name = Some v \<or>
   (\<exists>inp u t. (inp, name, u) \<in> set ps \<and> canonical_type inp = Some t \<and>
      is_predicatable_scalar t \<and> normalize_value t u = Some v)"
proof (induction ps args rule: project_args.induct)
  case (2 inp nm u r args)
  then obtain t where t: "canonical_type inp = Some t" by (auto split: option.splits)
  show ?case
  proof (cases "is_predicatable_scalar t")
    case False
    with 2 t show ?thesis by fastforce
  next
    case True
    with 2 t obtain x where x: "normalize_value t u = Some x"
      and rest: "project_args r (AList.update nm x args) = Some out" by (auto split: option.splits)
    from "2.IH"(1) [OF t True x rest "2.prems"(2)] show ?thesis
      using t True x by (cases "nm = name") (auto simp: table_simps)
  qed
qed simp

lemma decode_intent_Some:
  assumes "decode_intent selector4 abi_decode contract calldata f = Some d"
  obtains types decoded where "4 \<le> length calldata"
    "selector_of selector4 f = Some (''0x'' @ bytes_hex (take 4 calldata))"
    "those (map canonical_type (fn_inputs f)) = Some types"
    "abi_decode types (drop 4 calldata) = Some decoded"
    "project_args (zip (fn_inputs f) (zip (map (\<lambda>(i, inp). input_name i inp)
        (enumerate 0 (fn_inputs f))) decoded)) [] = Some (di_args d)"
    "canonical_signature f = Some (di_method_signature d)"
    "di_contract d = py_lower contract" "di_selector d = ''0x'' @ bytes_hex (take 4 calldata)"
  using assms
  by (auto simp: decode_intent_def Let_def split: if_splits option.splits)

subsection \<open>Properties\<close>

text \<open>A decoded intent is what the calldata says and carries scalars only: its selector is the
  first four bytes of the calldata and the selector of the ABI entry, its signature the entry's, and
  every argument it exposes is the normalised decoding of an input whose type is a predicatable
  scalar.\<close>

theorem decode_intent_sound:
  assumes "decode_intent selector4 abi_decode contract calldata f = Some d"
  shows "selector_of selector4 f = Some (di_selector d) \<and>
    di_selector d = ''0x'' @ bytes_hex (take 4 calldata) \<and>
    canonical_signature f = Some (di_method_signature d) \<and> di_contract d = py_lower contract \<and>
    (\<exists>types decoded. those (map canonical_type (fn_inputs f)) = Some types \<and>
       abi_decode types (drop 4 calldata) = Some decoded \<and>
       (\<forall>name v. map_of (di_args d) name = Some v \<longrightarrow>
          (\<exists>i < length (fn_inputs f). \<exists>t. i < length decoded \<and>
             input_name i (fn_inputs f ! i) = name \<and>
             canonical_type (fn_inputs f ! i) = Some t \<and> is_predicatable_scalar t \<and>
             normalize_value t (decoded ! i) = Some v)))"
  using assms
proof (rule decode_intent_Some)
  fix types decoded
  assume d: "those (map canonical_type (fn_inputs f)) = Some types"
    "abi_decode types (drop 4 calldata) = Some decoded"
    "selector_of selector4 f = Some (''0x'' @ bytes_hex (take 4 calldata))"
    "canonical_signature f = Some (di_method_signature d)"
    "di_contract d = py_lower contract" "di_selector d = ''0x'' @ bytes_hex (take 4 calldata)"
  let ?names = "map (\<lambda>(i, inp). input_name i inp) (enumerate 0 (fn_inputs f))"
  assume pr: "project_args (zip (fn_inputs f) (zip ?names decoded)) [] = Some (di_args d)"
  have "\<exists>i < length (fn_inputs f). \<exists>t. i < length decoded \<and>
      input_name i (fn_inputs f ! i) = name \<and> canonical_type (fn_inputs f ! i) = Some t \<and>
      is_predicatable_scalar t \<and> normalize_value t (decoded ! i) = Some v"
    if "map_of (di_args d) name = Some v" for name v
  proof -
    from project_args_origin [OF pr that] obtain inp u t
      where m: "(inp, name, u) \<in> set (zip (fn_inputs f) (zip ?names decoded))"
        and t: "canonical_type inp = Some t" "is_predicatable_scalar t" "normalize_value t u = Some v"
      by auto
    then obtain i where "i < length (fn_inputs f)" "i < length decoded" "fn_inputs f ! i = inp"
      "?names ! i = name" "decoded ! i = u"
      by (auto simp: in_set_zip)
    with t show ?thesis by (auto simp: nth_enumerate_eq)
  qed
  with d show ?thesis by auto
qed

definition sample_selector4 :: "abi_fn \<Rightarrow> byte list option" where
  "sample_selector4 f = Some [0xa9, 0x05, 0x9c, 0xbb]"

definition sample_transfer :: abi_fn where
  "sample_transfer = \<lparr>fn_type = Some ''function'', fn_mutability = Some ''nonpayable'',
     fn_name = Some ''transfer'',
     fn_inputs = [AbiInput (Some ''to'') (Some ''address'') None,
                  AbiInput (Some ''amounts'') (Some ''uint256[]'') None]\<rparr>"

definition sample_abi_decode :: "string list \<Rightarrow> byte list \<Rightarrow> abi_value list option" where
  "sample_abi_decode types bs = Some [VStr ''0xab'', VSeq []]"

lemma address_scalar: "is_predicatable_scalar ''address''" "\<not> is_predicatable_scalar ''uint256[]''"
  by (simp_all add: is_predicatable_scalar_def scalar_types_def starts_with_def)

lemma decode_intent_sound_witness:
  "selector_of sample_selector4 sample_transfer = Some ''0xa9059cbb'' \<and>
   ''0xa9059cbb'' = ''0x'' @ bytes_hex (take 4 [0xa9, 0x05, 0x9c, 0xbb]) \<and>
   (\<exists>d. decode_intent sample_selector4 sample_abi_decode ''0xC'' [0xa9, 0x05, 0x9c, 0xbb] sample_transfer
      = Some d \<and> canonical_signature sample_transfer = Some (di_method_signature d) \<and>
      di_args d = [(''to'', VStr ''0xab'')])"
proof -
  let ?c = "[0xa9, 0x05, 0x9c, 0xbb] :: byte list"
  have hex: "bytes_hex ?c = ''a9059cbb''" by code_simp
  have sig: "canonical_signature sample_transfer = Some ''transfer(address,uint256[])''" by code_simp
  have ty: "canonical_type (AbiInput n (Some t) None) = (if starts_with t ''tuple'' then None else Some t)" for n t
    by simp
  let ?d = "\<lparr>di_contract = ''0xc'', di_method_signature = ''transfer(address,uint256[])'',
      di_selector = ''0xa9059cbb'', di_args = [(''to'', VStr ''0xab'')]\<rparr>"
  have low: "py_lower ''0xC'' = ''0xc''" by code_simp
  have dec: "decode_intent sample_selector4 sample_abi_decode ''0xC'' ?c sample_transfer = Some ?d"
    using address_scalar hex sig low
    by (simp add: decode_intent_def selector_of_def sample_selector4_def sample_abi_decode_def
        sample_transfer_def input_name_def normalize_value_def starts_with_def Let_def)
  from decode_intent_sound [OF dec] dec hex show ?thesis by simp
qed

text \<open>The registry answers a lookup only with a state-changing function of that ABI whose
  selector is the one asked for (in any letter case) and whose stored signature and types are
  those of its entry, whatever entries it was loaded from.\<close>

theorem registry_lookup_sound:
  assumes "load_abis selector4 files [] = Inr reg" "registry_lookup reg abi sel = Some m"
  shows "selector_of selector4 (am_abi_fn_entry m) = Some (py_lower sel) \<and>
    fn_type (am_abi_fn_entry m) = Some ''function'' \<and>
    fn_mutability (am_abi_fn_entry m) \<in> {Some ''nonpayable'', Some ''payable''} \<and>
    canonical_signature (am_abi_fn_entry m) = Some (am_method_signature m) \<and>
    those (map canonical_type (fn_inputs (am_abi_fn_entry m))) = Some (am_canonical_input_types m) \<and>
    am_method_signature m \<in> set (signatures_for reg abi)"
proof -
  have "registry_ok selector4 reg"
    using load_abis_ok [OF assms(1)] by (simp add: registry_ok_def)
  with assms(2) have "method_ok selector4 (py_lower sel) m" by (simp add: registry_lookup_ok)
  moreover have "am_method_signature m \<in> set (signatures_for reg abi)"
    using assms(2)
    by (force simp: registry_lookup_def signatures_for_def split: option.splits dest: map_of_SomeD)
  ultimately show ?thesis by (simp add: method_ok_def)
qed

lemma registry_lookup_sound_witness:
  "selector_of sample_selector4 sample_transfer = Some (py_lower ''0xA9059CBB'') \<and>
   (\<exists>reg m. load_abis sample_selector4 [(''erc20'', [None, Some sample_transfer])] [] = Inr reg \<and>
      registry_lookup reg ''erc20'' ''0xA9059CBB'' = Some m \<and>
      am_method_signature m \<in> set (signatures_for reg ''erc20''))"
proof -
  have low: "py_lower ''0xA9059CBB'' = ''0xa9059cbb''" by code_simp
  have sel: "selector_of sample_selector4 sample_transfer = Some ''0xa9059cbb''" by code_simp
  have sig: "canonical_signature sample_transfer = Some ''transfer(address,uint256[])''" by code_simp
  have ty: "those (map canonical_type (fn_inputs sample_transfer)) = Some [''address'', ''uint256[]'']"
    by code_simp
  let ?m = "\<lparr>am_method_signature = ''transfer(address,uint256[])'',
      am_canonical_input_types = [''address'', ''uint256[]''], am_abi_fn_entry = sample_transfer\<rparr>"
  let ?reg = "[(''erc20'', [(''0xa9059cbb'', ?m)])]"
  have ld: "load_abis sample_selector4 [(''erc20'', [None, Some sample_transfer])] [] = Inr ?reg"
    using sel sig ty by (simp add: sample_transfer_def)
  have lk: "registry_lookup ?reg ''erc20'' ''0xA9059CBB'' = Some ?m"
    by (simp add: registry_lookup_def low)
  from registry_lookup_sound [OF ld lk] ld lk show ?thesis by auto
qed

end
