(* ===== verification/Accounts_Repo.thy ===== *)
theory Accounts_Repo
  imports Fwd_Prelude
begin

section \<open>Wallets, callers and API keys\<close>

text \<open>
  \<open>infra/wallet_repo.py\<close>, \<open>infra/caller_repo.py\<close>, \<open>infra/api_key.py\<close> and
  \<open>app/caller_resolution.py\<close>.  Both tables are lists of rows with a unique \<open>name\<close>; a caller's
  key hash is unique too.  Argon2 and the random source are parameters: the hash of a key, the
  verification \<open>verifies hash key\<close> and the 43 random characters are arguments.
\<close>

record wallet =
  w_name :: string
  w_address :: string
  w_privkey_ciphertext :: string
  w_vault_master_key :: string
  w_policy_path :: string
  w_created_at :: datetime

record caller =
  c_name :: string
  c_api_key_hash :: string
  c_api_key_prefix :: string
  c_policy_path :: string
  c_created_at :: datetime
  c_revoked_at :: "datetime option"

type_synonym wallet_db = "wallet list"
type_synonym caller_db = "caller list"

subsection \<open>Wallets\<close>

definition find_wallet :: "string \<Rightarrow> wallet_db \<Rightarrow> wallet option" where
  "find_wallet name t = find (\<lambda>w. w_name w = name) t"

definition wallet_get_by_name :: "string \<Rightarrow> bool \<Rightarrow> (wallet_db, wallet option) op" where
  "wallet_get_by_name name missing_ok =
     bindM (getM (find_wallet name)) (\<lambda>row.
     case row of
       None \<Rightarrow> if missing_ok then ret None else raise (WalletNotFoundError name)
     | Some w \<Rightarrow> ret (Some w))"

definition wallet_create ::
  "datetime \<Rightarrow> string \<Rightarrow> string \<Rightarrow> string \<Rightarrow> string \<Rightarrow> string \<Rightarrow> (wallet_db, wallet) op" where
  "wallet_create now name address privkey_ciphertext vault_master_key policy_path =
     bindM (wallet_get_by_name name True) (\<lambda>existing.
     if existing \<noteq> None then raise (WalletExistsError name)
     else (let row = \<lparr>w_name = name, w_address = address, w_privkey_ciphertext = privkey_ciphertext,
                     w_vault_master_key = vault_master_key, w_policy_path = policy_path,
                     w_created_at = now\<rparr>
           in thenM (modifyM (\<lambda>t. t @ [row])) (ret row)))"

definition wallet_list_all :: "(wallet_db, wallet list) op" where
  "wallet_list_all = getM (sort_key w_created_at)"

subsection \<open>Callers\<close>

definition find_caller :: "string \<Rightarrow> caller_db \<Rightarrow> caller option" where
  "find_caller name t = find (\<lambda>c. c_name c = name) t"

definition caller_get_by_name :: "string \<Rightarrow> bool \<Rightarrow> (caller_db, caller option) op" where
  "caller_get_by_name name missing_ok =
     bindM (getM (find_caller name)) (\<lambda>row.
     case row of
       None \<Rightarrow> if missing_ok then ret None else raise (CallerNotFoundError name)
     | Some c \<Rightarrow> ret (Some c))"

text \<open>\<open>UNIQUE (api_key_hash)\<close> against the other rows.\<close>

definition hash_taken :: "string \<Rightarrow> string \<Rightarrow> caller_db \<Rightarrow> bool" where
  "hash_taken name h t = list_ex (\<lambda>c. c_name c \<noteq> name \<and> c_api_key_hash c = h) t"

definition caller_create ::
  "datetime \<Rightarrow> string \<Rightarrow> string \<Rightarrow> string \<Rightarrow> string \<Rightarrow> bool \<Rightarrow> (caller_db, caller) op" where
  "caller_create now name api_key_hash api_key_prefix policy_path replace =
     bindM (caller_get_by_name name True) (\<lambda>existing.
     let row = \<lparr>c_name = name, c_api_key_hash = api_key_hash, c_api_key_prefix = api_key_prefix,
                c_policy_path = policy_path, c_created_at = now, c_revoked_at = None\<rparr> in
     case existing of
       Some e \<Rightarrow>
         if c_revoked_at e = None \<or> \<not> replace then raise (CallerExistsError name)
         else (\<lambda>t. if hash_taken name api_key_hash t then (Inl IntegrityError, t)
                   else (Inr row, map (\<lambda>c. if c_name c = name then row else c) t))
     | None \<Rightarrow>
         (\<lambda>t. if hash_taken name api_key_hash t then (Inl IntegrityError, t)
              else (Inr row, t @ [row])))"

definition list_by_prefix_active :: "string \<Rightarrow> (caller_db, caller list) op" where
  "list_by_prefix_active prefix =
     getM (filter (\<lambda>c. c_api_key_prefix c = prefix \<and> c_revoked_at c = None))"

definition caller_list_all :: "bool \<Rightarrow> (caller_db, caller list) op" where
  "caller_list_all include_revoked =
     getM (\<lambda>t. filter (\<lambda>c. include_revoked \<or> c_revoked_at c = None)
       (sort_key (\<lambda>c. - c_created_at c) t))"

definition caller_revoke :: "datetime \<Rightarrow> string \<Rightarrow> (caller_db, caller) op" where
  "caller_revoke now name =
     bindM (caller_get_by_name name False) (\<lambda>existing.
     case existing of
       None \<Rightarrow> raise (CallerNotFoundError name)
     | Some e \<Rightarrow>
         if c_revoked_at e \<noteq> None then raise (CallerAlreadyRevokedError name)
         else thenM
           (modifyM (map (\<lambda>c. if c_name c = name then c\<lparr>c_revoked_at := Some now\<rparr> else c)))
           (ret (e\<lparr>c_revoked_at := Some now\<rparr>)))"

subsection \<open>API keys and caller resolution\<close>

definition key_prefix_const :: string where
  "key_prefix_const = ''fwd_live_''"

record generated_key =
  gk_key :: string
  gk_key_hash :: string
  gk_key_prefix :: string

definition generate_api_key :: "(string \<Rightarrow> string) \<Rightarrow> string \<Rightarrow> exn + generated_key" where
  "generate_api_key argon2_hash random_part =
     (if length random_part \<noteq> 43 then Inl RuntimeError
      else (let key = key_prefix_const @ random_part in
        Inr \<lparr>gk_key = key, gk_key_hash = argon2_hash key, gk_key_prefix = take 8 random_part\<rparr>))"

definition extract_prefix :: "string \<Rightarrow> string option" where
  "extract_prefix presented =
     (if \<not> starts_with presented key_prefix_const then None
      else (let random_part = drop (length key_prefix_const) presented in
        if length random_part \<noteq> 43 then None else Some (take 8 random_part)))"

text \<open>The loop over the candidates; \<open>verifies\<close> is \<open>PasswordHasher.verify\<close>: a match, a mismatch
  (\<open>False\<close>) or another argon2 error (\<open>None\<close>), which is re-raised.\<close>

fun resolve_loop :: "(string \<Rightarrow> string \<Rightarrow> bool option) \<Rightarrow> string \<Rightarrow> caller list \<Rightarrow> exn + caller option" where
  "resolve_loop verifies key [] = Inr None"
| "resolve_loop verifies key (c # cs) =
     (case verifies (c_api_key_hash c) key of
        None \<Rightarrow> Inl OtherError
      | Some True \<Rightarrow> Inr (Some c)
      | Some False \<Rightarrow> resolve_loop verifies key cs)"

definition resolve_caller ::
  "(string \<Rightarrow> string \<Rightarrow> bool option) \<Rightarrow> string \<Rightarrow> (caller_db, caller option) op" where
  "resolve_caller verifies presented =
     (case extract_prefix presented of
        None \<Rightarrow> ret None
      | Some prefix \<Rightarrow>
          bindM (list_by_prefix_active prefix) (\<lambda>candidates.
          if candidates = [] then ret None
          else ofSum (resolve_loop verifies presented candidates)))"

text \<open>\<open>str.strip()\<close> on ASCII also strips the separators 28 to 31.\<close>

definition is_py_space :: "char \<Rightarrow> bool" where
  "is_py_space c \<longleftrightarrow> is_space c \<or> (28 \<le> char_code c \<and> char_code c \<le> 31)"

definition py_strip :: "string \<Rightarrow> string" where
  "py_strip s = rev (dropWhile is_py_space (rev (dropWhile is_py_space s)))"

definition require_caller ::
  "(string \<Rightarrow> string \<Rightarrow> bool option) \<Rightarrow> string option \<Rightarrow> (caller_db, caller) op" where
  "require_caller verifies authorization =
     (case authorization of
        None \<Rightarrow> raise (HTTPException 401 ''unauthorized'')
      | Some a \<Rightarrow>
          if \<not> starts_with (py_lower a) ''bearer '' then raise (HTTPException 401 ''unauthorized'')
          else bindM (resolve_caller verifies (py_strip (drop 7 a))) (\<lambda>caller.
            case caller of
              None \<Rightarrow> raise (HTTPException 401 ''unauthorized'')
            | Some c \<Rightarrow> ret c))"

subsection \<open>Well-formed tables\<close>

definition callers_wf :: "caller_db \<Rightarrow> bool" where
  "callers_wf t \<longleftrightarrow> distinct (map c_name t) \<and> distinct (map c_api_key_hash t)"

definition wallets_wf :: "wallet_db \<Rightarrow> bool" where
  "wallets_wf t \<longleftrightarrow> distinct (map w_name t)"

lemma find_caller_Some: "find_caller n t = Some c \<Longrightarrow> c \<in> set t \<and> c_name c = n"
  by (auto simp: find_caller_def find_Some_iff)

lemma find_caller_None: "find_caller n t = None \<longleftrightarrow> n \<notin> c_name ` set t"
  by (auto simp: find_caller_def find_None_iff)

lemma find_wallet_Some: "find_wallet n t = Some w \<Longrightarrow> w \<in> set t \<and> w_name w = n"
  by (auto simp: find_wallet_def find_Some_iff)

lemma find_wallet_None: "find_wallet n t = None \<longleftrightarrow> n \<notin> w_name ` set t"
  by (auto simp: find_wallet_def find_None_iff)

lemma wallet_get_run [simp]:
  "wallet_get_by_name n True t = (Inr (find_wallet n t), t)"
  "wallet_get_by_name n False t =
     (case find_wallet n t of None \<Rightarrow> (Inl (WalletNotFoundError n), t) | Some w \<Rightarrow> (Inr (Some w), t))"
  by (auto simp: wallet_get_by_name_def split: option.splits)

lemma caller_get_run [simp]:
  "caller_get_by_name n True t = (Inr (find_caller n t), t)"
  "caller_get_by_name n False t =
     (case find_caller n t of None \<Rightarrow> (Inl (CallerNotFoundError n), t) | Some c \<Rightarrow> (Inr (Some c), t))"
  by (auto simp: caller_get_by_name_def split: option.splits)

lemma wallet_create_run:
  "wallet_create now n a p v pp t =
     (if find_wallet n t \<noteq> None then (Inl (WalletExistsError n), t)
      else (let row = \<lparr>w_name = n, w_address = a, w_privkey_ciphertext = p, w_vault_master_key = v,
                 w_policy_path = pp, w_created_at = now\<rparr> in (Inr row, t @ [row])))"
  by (simp add: wallet_create_def Let_def bindM_run thenM_def)

lemma caller_create_run:
  "caller_create now n h p pp rep t =
     (let row = \<lparr>c_name = n, c_api_key_hash = h, c_api_key_prefix = p, c_policy_path = pp,
                 c_created_at = now, c_revoked_at = None\<rparr> in
      case find_caller n t of
        Some e \<Rightarrow>
          if c_revoked_at e = None \<or> \<not> rep then (Inl (CallerExistsError n), t)
          else if hash_taken n h t then (Inl IntegrityError, t)
          else (Inr row, map (\<lambda>c. if c_name c = n then row else c) t)
      | None \<Rightarrow> if hash_taken n h t then (Inl IntegrityError, t) else (Inr row, t @ [row]))"
  by (simp add: caller_create_def Let_def bindM_run split: option.splits)

lemma caller_create_cases:
  assumes "caller_create now n h p pp rep t = (res, t')"
  obtains (failed) e where "res = Inl e" "t' = t"
  | (minted) row where "res = Inr row" "row = \<lparr>c_name = n, c_api_key_hash = h, c_api_key_prefix = p,
        c_policy_path = pp, c_created_at = now, c_revoked_at = None\<rparr>"
      "find_caller n t = None" "\<not> hash_taken n h t" "t' = t @ [row]"
  | (replaced) row e where "res = Inr row" "row = \<lparr>c_name = n, c_api_key_hash = h, c_api_key_prefix = p,
        c_policy_path = pp, c_created_at = now, c_revoked_at = None\<rparr>" "rep"
      "find_caller n t = Some e" "c_revoked_at e \<noteq> None" "\<not> hash_taken n h t"
      "t' = map (\<lambda>c. if c_name c = n then row else c) t"
proof (cases "find_caller n t")
  case None
  show thesis
  proof (cases "hash_taken n h t")
    case True
    with None assms have "res = Inl IntegrityError" "t' = t"
      by (simp_all add: caller_create_run Let_def)
    then show thesis by (rule failed)
  next
    case False
    with None assms minted show thesis by (simp add: caller_create_run Let_def)
  qed
next
  case (Some e)
  show thesis
  proof (cases "c_revoked_at e = None \<or> \<not> rep \<or> hash_taken n h t")
    case True
    with Some assms have "(\<exists>e. res = Inl e) \<and> t' = t"
      by (auto simp: caller_create_run Let_def split: if_splits)
    then show thesis using failed by blast
  next
    case False
    then have ok: "c_revoked_at e \<noteq> None" "rep" "\<not> hash_taken n h t" by simp_all
    let ?row = "\<lparr>c_name = n, c_api_key_hash = h, c_api_key_prefix = p, c_policy_path = pp,
                 c_created_at = now, c_revoked_at = None\<rparr>"
    have "res = Inr ?row" "t' = map (\<lambda>c. if c_name c = n then ?row else c) t"
      using Some assms ok by (auto simp: caller_create_run Let_def)
    with Some ok show thesis by (intro replaced [of ?row e]) simp_all
  qed
qed

lemma map_replace_wf:
  assumes "callers_wf t" "c_name row = n" "\<not> hash_taken n (c_api_key_hash row) t"
  shows "callers_wf (map (\<lambda>c. if c_name c = n then row else c) t)"
proof -
  have "map c_name (map (\<lambda>c. if c_name c = n then row else c) t) = map c_name t"
    using assms(2) by simp
  moreover have "distinct (map c_api_key_hash (map (\<lambda>c. if c_name c = n then row else c) t))"
    using assms
  proof (induction t)
    case (Cons c t)
    have IH: "distinct (map c_api_key_hash (map (\<lambda>c. if c_name c = n then row else c) t))"
      using Cons by (auto simp: callers_wf_def hash_taken_def)
    show ?case
    proof (cases "c_name c = n")
      case True
      then have "n \<notin> c_name ` set t" using Cons.prems(1) by (auto simp: callers_wf_def)
      then have "map (\<lambda>c. if c_name c = n then row else c) t = t"
        by (intro map_idI) auto
      moreover have "c_api_key_hash row \<notin> c_api_key_hash ` set t"
      proof
        assume "c_api_key_hash row \<in> c_api_key_hash ` set t"
        then obtain x where x: "x \<in> set t" "c_api_key_hash x = c_api_key_hash row" by auto
        with \<open>n \<notin> c_name ` set t\<close> have "c_name x \<noteq> n" by auto
        with x Cons.prems(3) show False by (auto simp: hash_taken_def list_ex_iff)
      qed
      ultimately show ?thesis using True Cons.prems(1) by (simp add: callers_wf_def)
    next
      case False
      then have "c_api_key_hash c \<noteq> c_api_key_hash row" "c_api_key_hash c \<notin> c_api_key_hash ` set t"
        using Cons.prems by (auto simp: hash_taken_def callers_wf_def)
      with IH False show ?thesis by (auto split: if_splits)
    qed
  qed simp
  ultimately show ?thesis using assms(1) unfolding callers_wf_def by metis
qed

lemma caller_create_wf:
  assumes "callers_wf t" "caller_create now n h p pp rep t = (res, t')"
  shows "callers_wf t'"
  using assms(2)
proof (cases rule: caller_create_cases)
  case (minted row)
  then have "h \<notin> c_api_key_hash ` set t"
    by (auto simp: hash_taken_def list_ex_iff find_caller_None image_iff)
  with minted assms(1) show ?thesis by (simp add: callers_wf_def find_caller_None)
next
  case (replaced row e)
  then show ?thesis using map_replace_wf [OF assms(1), of row n] by simp
qed (use assms in simp)

lemma caller_revoke_run:
  "caller_revoke now n t =
     (case find_caller n t of
        None \<Rightarrow> (Inl (CallerNotFoundError n), t)
      | Some e \<Rightarrow> if c_revoked_at e \<noteq> None then (Inl (CallerAlreadyRevokedError n), t)
          else (Inr (e\<lparr>c_revoked_at := Some now\<rparr>),
                map (\<lambda>c. if c_name c = n then c\<lparr>c_revoked_at := Some now\<rparr> else c) t))"
  by (auto simp: caller_revoke_def bindM_run thenM_def split: option.splits)

lemma caller_revoke_wf: "callers_wf t \<Longrightarrow> callers_wf (snd (caller_revoke now n t))"
  by (auto simp: caller_revoke_run callers_wf_def o_def if_distrib cong: if_cong split: option.splits)

lemma resolve_loop_Some:
  "resolve_loop v key cs = Inr (Some c) \<Longrightarrow> c \<in> set cs \<and> v (c_api_key_hash c) key = Some True"
  by (induction cs) (auto split: option.splits bool.splits)

lemma resolve_loop_found:
  "\<forall>c \<in> set cs. v (c_api_key_hash c) key \<noteq> None \<Longrightarrow> \<exists>c \<in> set cs. v (c_api_key_hash c) key = Some True \<Longrightarrow>
   \<exists>c. resolve_loop v key cs = Inr (Some c)"
  by (induction cs) (auto split: option.splits bool.splits)

lemma resolve_caller_Some:
  assumes "resolve_caller v key t = (Inr (Some c), t')"
  shows "t' = t \<and> c \<in> set t \<and> c_revoked_at c = None \<and> v (c_api_key_hash c) key = Some True \<and>
    extract_prefix key = Some (c_api_key_prefix c)"
  using assms
  by (auto simp: resolve_caller_def list_by_prefix_active_def bindM_run
      split: option.splits if_splits sum.splits dest!: resolve_loop_Some)

lemma require_caller_state: "snd (require_caller v a t) = t"
  by (auto simp: require_caller_def resolve_caller_def list_by_prefix_active_def bindM_run
      split: option.splits sum.splits)

lemma extract_generated: "length r = 43 \<Longrightarrow> extract_prefix (key_prefix_const @ r) = Some (take 8 r)"
  by (simp add: extract_prefix_def starts_with_def Let_def)


text \<open>A key that verifies for one active row only resolves to that row; one that verifies for none, to nobody.\<close>

lemma resolve_unique:
  assumes "c \<in> set t" "c_revoked_at c = None" "length r = 43" "c_api_key_prefix c = take 8 r"
    "verifies (c_api_key_hash c) (key_prefix_const @ r) = Some True"
    "\<And>x. x \<in> set t \<Longrightarrow> x \<noteq> c \<Longrightarrow> verifies (c_api_key_hash x) (key_prefix_const @ r) = Some False"
  shows "resolve_caller verifies (key_prefix_const @ r) t = (Inr (Some c), t)"
proof -
  let ?key = "key_prefix_const @ r" and ?cs = "filter (\<lambda>c. c_api_key_prefix c = take 8 r \<and> c_revoked_at c = None) t"
  have mem: "c \<in> set ?cs" using assms(1,2,4) by simp
  have total: "\<forall>x \<in> set ?cs. verifies (c_api_key_hash x) ?key \<noteq> None"
    using assms(5,6) by (metis filter_is_subset option.distinct(1) subsetD)
  from resolve_loop_found [where v = verifies, OF total] mem assms(5)
  obtain d where d: "resolve_loop verifies ?key ?cs = Inr (Some d)" by blast
  from resolve_loop_Some [OF d] have "d \<in> set t" "verifies (c_api_key_hash d) ?key = Some True" by simp_all
  with assms(6) have "d = c" by fastforce
  moreover have "?cs \<noteq> []" using mem by force
  ultimately show ?thesis
    using d by (simp add: resolve_caller_def extract_generated [OF assms(3)] list_by_prefix_active_def bindM_run)
qed

lemma resolve_nobody:
  assumes "length r = 43" "\<And>x. x \<in> set t \<Longrightarrow> c_revoked_at x = None \<Longrightarrow> verifies (c_api_key_hash x) (key_prefix_const @ r) = Some False"
  shows "resolve_caller verifies (key_prefix_const @ r) t = (Inr None, t)"
proof -
  have "resolve_loop verifies (key_prefix_const @ r) xs = Inr None"
    if "\<forall>x \<in> set xs. verifies (c_api_key_hash x) (key_prefix_const @ r) = Some False" for xs
    using that by (induction xs) auto
  then have "resolve_loop verifies (key_prefix_const @ r) (filter (\<lambda>c. c_api_key_prefix c = take 8 r \<and> c_revoked_at c = None) t) = Inr None"
    using assms(2) by simp
  then show ?thesis
    by (simp add: resolve_caller_def extract_generated [OF assms(1)] list_by_prefix_active_def bindM_run)
qed

text \<open>The row a successful \<open>create\<close> leaves.\<close>

lemma caller_create_row:
  assumes "caller_create now n h p pp rep t = (Inr c, t')"
  shows "c \<in> set t' \<and> c = \<lparr>c_name = n, c_api_key_hash = h, c_api_key_prefix = p, c_policy_path = pp,
    c_created_at = now, c_revoked_at = None\<rparr>"
  using assms
proof (cases rule: caller_create_cases)
  case (replaced row e)
  then have "e \<in> set t" "c_name e = n" using find_caller_Some by blast+
  then have "row \<in> set t'" unfolding replaced(7) by (auto simp: image_iff)
  with replaced show ?thesis by simp
qed simp_all

lemma find_caller_unique:
  assumes "callers_wf t" "c \<in> set t"
  shows "find_caller (c_name c) t = Some c"
proof -
  obtain d where d: "find_caller (c_name c) t = Some d"
    using assms(2) find_caller_None [of "c_name c" t] by (cases "find_caller (c_name c) t") auto
  then have "d \<in> set t" "c_name d = c_name c" using find_caller_Some by auto
  moreover have "inj_on c_name (set t)" using assms(1) by (simp add: callers_wf_def distinct_map)
  ultimately have "d = c" using assms(2) by (metis inj_onD)
  with d show ?thesis by simp
qed

lemma hash_unique: "callers_wf t \<Longrightarrow> c \<in> set t \<Longrightarrow> x \<in> set t \<Longrightarrow> c_api_key_hash x = c_api_key_hash c \<Longrightarrow> x = c"
  unfolding callers_wf_def distinct_map by (metis inj_onD)

subsection \<open>Properties\<close>

text \<open>Authentication is sound: \<open>require_caller\<close> never writes, and a caller it returns is a row of
  the table that is not revoked, whose key hash argon2 accepted for the presented bearer token and
  whose prefix is the token's; every other outcome is a 401 or the re-raised argon2 error.\<close>

theorem caller_auth_sound:
  "case require_caller verifies authorization t of (res, t') \<Rightarrow> t' = t \<and>
     (case res of
        Inr c \<Rightarrow> c \<in> set t \<and> c_revoked_at c = None \<and>
          (\<exists>a. authorization = Some a \<and> starts_with (py_lower a) ''bearer '' \<and>
             verifies (c_api_key_hash c) (py_strip (drop 7 a)) = Some True \<and>
             extract_prefix (py_strip (drop 7 a)) = Some (c_api_key_prefix c))
      | Inl e \<Rightarrow> e = HTTPException 401 ''unauthorized'' \<or> e = OtherError)"
proof -
  have err: "resolve_loop v k cs = Inl e \<Longrightarrow> e = OtherError" for v k cs e
    by (induction cs) (auto split: option.splits bool.splits)
  have res_err: "resolve_caller v k t = (Inl e, t') \<Longrightarrow> e = OtherError" for v k e t'
    by (auto simp: resolve_caller_def list_by_prefix_active_def bindM_run
        split: option.splits if_splits dest: err)
  show ?thesis
    using require_caller_state [of verifies authorization t]
    by (auto simp: require_caller_def bindM_run split: option.splits sum.splits prod.splits
        dest: resolve_caller_Some res_err)
qed

text \<open>A minted key authenticates until it is revoked: after \<open>create\<close> with a generated key, the
  bearer token resolves to an active caller that argon2 accepts, and it is the new caller when argon2
  accepts the key for its hash only; after \<open>revoke\<close> the caller is never returned again.\<close>

theorem minted_key_authenticates:
  assumes "generate_api_key argon2_hash r = Inr g"
    and "caller_create now n (gk_key_hash g) (gk_key_prefix g) pp rep t = (Inr c, t')"
    and "\<And>key. verifies (argon2_hash key) key = Some True"
    and "\<And>c'. c' \<in> set t' \<Longrightarrow> c_api_key_hash c' \<noteq> gk_key_hash g \<Longrightarrow>
          verifies (c_api_key_hash c') (gk_key g) = Some False"
    and "callers_wf t"
  shows "resolve_caller verifies (gk_key g) t' = (Inr (Some c), t') \<and>
    (case caller_revoke later n t' of (res, t'') \<Rightarrow> (\<exists>c'. res = Inr c') \<and>
       resolve_caller verifies (gk_key g) t'' = (Inr None, t''))"
proof -
  have g: "gk_key g = key_prefix_const @ r" "gk_key_hash g = argon2_hash (gk_key g)"
    "gk_key_prefix g = take 8 r" "length r = 43"
    using assms(1) by (auto simp: generate_api_key_def Let_def split: if_splits)
  have wf: "callers_wf t'" using assms(2,5) caller_create_wf by blast
  from caller_create_row [OF assms(2)] have c: "c \<in> set t'" "c_name c = n" "c_api_key_hash c = gk_key_hash g"
    "c_api_key_prefix c = take 8 r" "c_revoked_at c = None" using g(3) by auto
  have other: "verifies (c_api_key_hash x) (key_prefix_const @ r) = Some False" if "x \<in> set t'" "x \<noteq> c" for x
    using assms(4) [OF that(1)] hash_unique [OF wf c(1) that(1)] that(2) c(3) g(1) by metis
  have "verifies (c_api_key_hash c) (key_prefix_const @ r) = Some True" using assms(3) c(3) g(1,2) by metis
  from resolve_unique [where verifies = verifies, OF c(1,5) g(4) c(4) this other]
  have first: "resolve_caller verifies (gk_key g) t' = (Inr (Some c), t')" by (simp add: g(1))
  let ?t = "map (\<lambda>c. if c_name c = n then c\<lparr>c_revoked_at := Some later\<rparr> else c) t'"
  have "find_caller n t' = Some c" using find_caller_unique [OF wf c(1)] c(2) by simp
  then have rev: "caller_revoke later n t' = (Inr (c\<lparr>c_revoked_at := Some later\<rparr>), ?t)"
    using c(5) by (simp add: caller_revoke_run)
  have "verifies (c_api_key_hash x) (key_prefix_const @ r) = Some False" if "x \<in> set ?t" "c_revoked_at x = None" for x
  proof -
    from that obtain y where y: "y \<in> set t'" "x = (if c_name y = n then y\<lparr>c_revoked_at := Some later\<rparr> else y)" by auto
    with that(2) have "x = y" "c_name y \<noteq> n" by (auto split: if_splits)
    with c(2) y(1) other [of y] show ?thesis by auto
  qed
  with resolve_nobody [where verifies = verifies and t = ?t, OF g(4)]
  have "resolve_caller verifies (gk_key g) ?t = (Inr None, ?t)" unfolding g(1) by blast
  with first rev show ?thesis by simp
qed

lemma minted_key_authenticates_witness:
  "let r = replicate 43 CHR ''a''; key = key_prefix_const @ r; h = (\<lambda>k. CHR ''$'' # k);
       c = \<lparr>c_name = ''clif'', c_api_key_hash = h key, c_api_key_prefix = take 8 r,
            c_policy_path = ''policies/clif'', c_created_at = 1, c_revoked_at = None\<rparr>;
       verifies = (\<lambda>stored k. Some (stored = h k)) in
   resolve_caller verifies key [c] = (Inr (Some c), [c]) \<and>
   (case caller_revoke 2 ''clif'' [c] of (res, t'') \<Rightarrow> (\<exists>c'. res = Inr c') \<and>
       resolve_caller verifies key t'' = (Inr None, t''))"
proof -
  let ?r = "replicate 43 CHR ''a''" and ?h = "\<lambda>k. CHR ''$'' # k"
  let ?g = "\<lparr>gk_key = key_prefix_const @ ?r, gk_key_hash = ?h (key_prefix_const @ ?r),
             gk_key_prefix = take 8 ?r\<rparr>"
  let ?c = "\<lparr>c_name = ''clif'', c_api_key_hash = gk_key_hash ?g, c_api_key_prefix = gk_key_prefix ?g,
            c_policy_path = ''policies/clif'', c_created_at = 1, c_revoked_at = None\<rparr>"
  have "resolve_caller (\<lambda>stored k. Some (stored = ?h k)) (gk_key ?g) [?c] = (Inr (Some ?c), [?c]) \<and>
    (case caller_revoke 2 ''clif'' [?c] of (res, t'') \<Rightarrow> (\<exists>c'. res = Inr c') \<and>
       resolve_caller (\<lambda>stored k. Some (stored = ?h k)) (gk_key ?g) t'' = (Inr None, t''))"
    by (rule minted_key_authenticates [where r = ?r and argon2_hash = ?h and t = "[]" and now = 1 and
          pp = "''policies/clif''" and rep = False])
      (simp_all add: generate_api_key_def caller_create_run Let_def find_caller_def hash_taken_def callers_wf_def)
  then show ?thesis by (simp add: Let_def)
qed

end
