(* ===== verification/Policy_Engine.thy ===== *)
theory Policy_Engine
  imports Rate_Repo Abi_Intent Accounts_Repo
begin

section \<open>The policy engine and gate\<close>

text \<open>
  \<open>app/policy_engine.py\<close> (the ten evaluation steps of a signing request, the native-transfer
  branch) and \<open>app/policy_gate.py\<close>.  The checks before the rate limiter read only the request,
  the policy and the ABI registry and are pure; steps 8 and 9 run on the rate tables.  An early
  \<open>return DenyDecision(..)\<close> of a pure stage is \<open>Stop\<close>.
\<close>

record sign_request =
  rq_wallet :: string
  rq_caller :: string
  rq_chain :: int
  rq_to :: string
  rq_value_wei :: string
  rq_data :: string
  rq_gas :: int
  rq_max_fee_per_gas :: int
  rq_max_priority_fee_per_gas :: int
  rq_idempotency_key :: "string option"

text \<open>The third-party Ethereum functions the engine reaches.\<close>

record eth_lib =
  eth_selector4 :: "abi_fn \<Rightarrow> byte list option"
  eth_abi_decode :: "string list \<Rightarrow> byte list \<Rightarrow> abi_value list option"

datatype decision =
    Allow (dec_decoded: decoded_intent) (dec_path: string)
  | Deny (dec_step: int) (dec_reason: string)

datatype 'a stage = Stop decision | Go 'a

definition quoted :: "string \<Rightarrow> string" where
  "quoted s = CHR 0x27 # s @ [CHR 0x27]"

text \<open>\<open>str(exc)\<close> of the exceptions an evaluation can raise (\<open>KeyError\<close>s not spelled out).\<close>

definition exn_text :: "exn \<Rightarrow> string" where
  "exn_text e = (case e of ValueError m \<Rightarrow> m | RateRepoError m \<Rightarrow> m | _ \<Rightarrow> [])"

subsection \<open>Steps 2 to 7\<close>

definition strip_0x :: "string \<Rightarrow> string" where
  "strip_0x s = (if starts_with s ''0x'' \<or> starts_with s ''0X'' then drop 2 s else s)"

definition find_contract :: "string \<Rightarrow> (string, contract_rule) table \<Rightarrow> contract_rule option" where
  "find_contract to_lower contracts =
     map_option snd (find (\<lambda>(addr, cr). py_lower addr = to_lower) contracts)"

text \<open>Step 3: calldata, selector, ABI method, intent.\<close>

definition decode_stage ::
  "eth_lib \<Rightarrow> abi_registry \<Rightarrow> contract_rule \<Rightarrow> sign_request \<Rightarrow> (decoded_intent \<times> abi_fn) stage" where
  "decode_stage lib registry crule rq =
     (let hex_data = strip_0x (rq_data rq) in
      if length hex_data mod 2 \<noteq> 0 then Stop (Deny 3 ''calldata not hex: odd length'')
      else case bytes_fromhex hex_data of
        None \<Rightarrow> Stop (Deny 3 ''calldata not hex: invalid characters'')
      | Some calldata \<Rightarrow>
          if length calldata < 4 then Stop (Deny 3 ''calldata too short'')
          else case registry_lookup registry (cr_abi crule) (''0x'' @ bytes_hex (take 4 calldata)) of
            None \<Rightarrow> Stop (Deny 3 ''unknown selector for abi'')
          | Some m \<Rightarrow>
              (case decode_intent (eth_selector4 lib) (eth_abi_decode lib) (rq_to rq) calldata
                      (am_abi_fn_entry m) of
                 None \<Rightarrow> Stop (Deny 3 ''intent decode failed'')
               | Some d \<Rightarrow> Go (d, am_abi_fn_entry m)))"

text \<open>Step 5.\<close>

definition value_stage :: "string \<Rightarrow> sign_request \<Rightarrow> int stage" where
  "value_stage max_value_wei rq =
     (case py_int max_value_wei of
        None \<Rightarrow> Stop (Deny 5 ''bad value_wei: max_value_wei is not decimal'')
      | Some max_value \<Rightarrow>
          (case py_int (rq_value_wei rq) of
             None \<Rightarrow> Stop (Deny 5 ''bad value_wei: request value_wei is not decimal'')
           | Some request_value \<Rightarrow>
               if max_value < request_value then Stop (Deny 5 ''max_value_wei exceeded'')
               else Go request_value))"

text \<open>Step 6: one predicate against the decoded value; \<open>Some\<close> is the end of the denial reason.\<close>

definition predicate_fails :: "pyval \<Rightarrow> abi_value \<Rightarrow> string option" where
  "predicate_fails pval aval =
     (case aval of
        VBool b \<Rightarrow>
          (let pval_bool = (case pval of PBool p \<Rightarrow> p
                            | _ \<Rightarrow> py_lower (py_str_val pval) \<in> {''true'', ''1''})
           in if pval_bool \<noteq> b then Some ''predicate mismatch'' else None)
      | VInt i \<Rightarrow>
          (case py_int (py_str_val pval) of
             None \<Rightarrow> Some ''predicate not an int''
           | Some p \<Rightarrow> if p \<noteq> i then Some ''predicate mismatch'' else None)
      | VStr s \<Rightarrow>
          if starts_with s ''0x'' \<and> length s = 42
          then (if py_lower (py_str_val pval) \<noteq> py_lower s then Some ''predicate mismatch'' else None)
          else (if py_str_val pval \<noteq> s then Some ''predicate mismatch'' else None)
      | _ \<Rightarrow> Some ''predicate mismatch'')"

fun predicates_stage :: "(string, pyval) table \<Rightarrow> (string, abi_value) table \<Rightarrow> unit stage" where
  "predicates_stage [] args = Go ()"
| "predicates_stage ((pname, pval) # ps) args =
     (if pval = PStr ''any'' then predicates_stage ps args
      else case map_of args pname of
        None \<Rightarrow> Stop (Deny 6 (''arg '' @ quoted pname @ '' not in decoded scalars''))
      | Some aval \<Rightarrow>
          (case predicate_fails pval aval of
             Some why \<Rightarrow> Stop (Deny 6 (''arg '' @ quoted pname @ '' '' @ why))
           | None \<Rightarrow> predicates_stage ps args))"

text \<open>Steps 4 to 7 for a decoded intent; the result is the request value.\<close>

definition method_stage ::
  "permission_block \<Rightarrow> contract_rule \<Rightarrow> sign_request \<Rightarrow> decoded_intent \<Rightarrow> abi_fn \<Rightarrow> exn + int stage" where
  "method_stage perm crule rq d f =
     (case map_of (cr_methods crule) (di_method_signature d) of
        None \<Rightarrow> Inr (Stop (Deny 4 ''method signature not permitted''))
      | Some mrule \<Rightarrow>
          (case has_nonscalar_args f of
             Inl e \<Rightarrow> Inl e
           | Inr nonscalar \<Rightarrow>
               if nonscalar \<and> \<not> mr_allow_unconstrained_args mrule
               then Inr (Stop (Deny 4
                 ''method has unconstrainable non-scalar args; set allow_unconstrained_args: true to permit''))
               else case value_stage (mr_max_value_wei mrule) rq of
                 Stop x \<Rightarrow> Inr (Stop x)
               | Go request_value \<Rightarrow>
                   (case predicates_stage (mr_arg_predicates mrule) (di_args d) of
                      Stop x \<Rightarrow> Inr (Stop x)
                    | Go _ \<Rightarrow>
                        if rq_wallet rq \<notin> set (pb_wallet_allowlist perm)
                        then Inr (Stop (Deny 7 ''wallet not in caller allowlist''))
                        else Inr (Go request_value))))"

definition contract_stage ::
  "eth_lib \<Rightarrow> abi_registry \<Rightarrow> permission_block \<Rightarrow> sign_request \<Rightarrow> exn + (decoded_intent \<times> int) stage" where
  "contract_stage lib registry perm rq =
     (case find_contract (py_lower (rq_to rq)) (pb_contracts perm) of
        None \<Rightarrow> Inr (Stop (Deny 2 ''contract not permitted for caller''))
      | Some crule \<Rightarrow>
          if rq_chain rq \<notin> set (cr_chains crule)
          then Inr (Stop (Deny 2 (''contract not permitted on chain '' @ str_int (rq_chain rq))))
          else case decode_stage lib registry crule rq of
            Stop x \<Rightarrow> Inr (Stop x)
          | Go (d, f) \<Rightarrow>
              (case method_stage perm crule rq d f of
                 Inl e \<Rightarrow> Inl e
               | Inr (Stop x) \<Rightarrow> Inr (Stop x)
               | Inr (Go v) \<Rightarrow> Inr (Go (d, v))))"

subsection \<open>Steps 8 and 9\<close>

text \<open>
  Both branches end alike: the caller limiter (skipped by the native branch when its rule has no
  rate), then the wallet limiter, undoing step 8 when step 9 denies.
\<close>

definition rates_stage ::
  "policy \<Rightarrow> caller \<Rightarrow> wallet \<Rightarrow> string \<Rightarrow> string \<Rightarrow> string \<Rightarrow> rate_limit option \<Rightarrow> bool \<Rightarrow> string \<Rightarrow> int \<Rightarrow>
   datetime \<Rightarrow> decision \<Rightarrow> (rate_db, decision) op" where
  "rates_stage policy c w rwallet contract method rate limited why8 request_value now allow =
     bindM (if limited then check_and_increment_caller (c_name c) rwallet contract method rate now
            else ret True) (\<lambda>caller_ok.
     if \<not> caller_ok then ret (Deny 8 why8)
     else
       (let undo = (if limited then release_caller (c_name c) rwallet contract method rate now
                    else ret ()) in
        case map_of (p_wallets policy) (w_name w) of
          None \<Rightarrow> thenM undo (ret (Deny 9 ''wallet has no constraint binding''))
        | Some wb \<Rightarrow>
            bindM (check_and_increment_wallet (w_name w)
                (map_of (p_wallet_constraints policy) (wbd_policy_path wb)) request_value now)
              (\<lambda>wallet_ok.
              if \<not> wallet_ok then thenM undo (ret (Deny 9 ''wallet constraint exceeded''))
              else ret allow)))"

definition nt_method :: string where
  "nt_method = ''nativeTransfer(address,uint256)''"

text \<open>The native-transfer branch up to its wallet allowlist.\<close>

definition native_stage :: "native_transfer_block \<Rightarrow> sign_request \<Rightarrow> int stage" where
  "native_stage rule rq =
     (if rq_chain rq \<notin> set (nb_chains rule)
      then Stop (Deny 2 (''native transfer not permitted on chain '' @ str_int (rq_chain rq)))
      else if py_lower (rq_to rq) \<notin> set (map py_lower (nb_recipient_allowlist rule))
      then Stop (Deny 2 ''recipient not in native_transfers allowlist'')
      else case (py_int (nb_max_value_wei rule), py_int (rq_value_wei rq)) of
        (Some max_value, Some request_value) \<Rightarrow>
          if request_value \<le> 0 then Stop (Deny 5 ''native transfer value must be > 0'')
          else if max_value < request_value then Stop (Deny 5 ''max_value_wei exceeded'')
          else if rq_wallet rq \<notin> set (nb_wallet_allowlist rule)
          then Stop (Deny 7 ''wallet not in native_transfers allowlist'')
          else Go request_value
      | _ \<Rightarrow> Stop (Deny 5 ''bad value_wei''))"

definition native_intent :: "sign_request \<Rightarrow> int \<Rightarrow> decoded_intent" where
  "native_intent rq v =
     \<lparr>di_contract = py_lower (rq_to rq), di_method_signature = nt_method, di_selector = ''0x'',
      di_args = [(''to'', VStr (py_lower (rq_to rq))), (''value'', VInt v)]\<rparr>"

definition evaluate_native ::
  "policy \<Rightarrow> native_transfer_block \<Rightarrow> caller \<Rightarrow> wallet \<Rightarrow> sign_request \<Rightarrow> datetime \<Rightarrow>
   (rate_db, decision) op" where
  "evaluate_native policy rule c w rq now =
     (case native_stage rule rq of
        Stop x \<Rightarrow> ret x
      | Go v \<Rightarrow> rates_stage policy c w (rq_wallet rq) (py_lower (rq_to rq)) nt_method
          (nb_rate rule) (nb_rate rule \<noteq> None) ''native transfer caller rate limit exceeded'' v now
          (Allow (native_intent rq v) (c_policy_path c)))"

subsection \<open>The evaluation\<close>

definition evaluate_abi ::
  "eth_lib \<Rightarrow> policy \<Rightarrow> abi_registry \<Rightarrow> string \<Rightarrow> caller \<Rightarrow> wallet \<Rightarrow> sign_request \<Rightarrow> datetime \<Rightarrow>
   (rate_db, decision) op" where
  "evaluate_abi lib policy registry path c w rq now =
     (case map_of (p_permissions policy) path of
        None \<Rightarrow> ret (Deny 1 (''caller policy_path '' @ quoted path @ '' has no permissions block''))
      | Some perm \<Rightarrow>
          bindM (ofSum (contract_stage lib registry perm rq)) (\<lambda>st.
          case st of
            Stop x \<Rightarrow> ret x
          | Go (d, v) \<Rightarrow>
              rates_stage policy c w (rq_wallet rq) (py_lower (rq_to rq))
                (di_method_signature d) (pb_rate perm) True ''caller rate limit exceeded''
                v now (Allow d path)))"

definition evaluate_inner ::
  "eth_lib \<Rightarrow> policy \<Rightarrow> abi_registry \<Rightarrow> caller \<Rightarrow> wallet \<Rightarrow> sign_request \<Rightarrow> datetime \<Rightarrow>
   (rate_db, decision) op" where
  "evaluate_inner lib policy registry c w rq now =
     (case map_of (p_callers policy) (c_name c) of
        None \<Rightarrow> ret (Deny 1 ''caller not in policy'')
      | Some binding \<Rightarrow>
          if c_policy_path c \<noteq> cb_policy_path binding then ret (Deny 1 ''caller policy_path drift'')
          else
            (let is_value_only = (strip_0x (rq_data rq) = []) in
             case map_of (p_native_transfers policy) (cb_policy_path binding) of
               Some nt_rule \<Rightarrow>
                 if \<not> is_value_only
                 then ret (Deny 2 ''native_transfers caller may sign value-only transfers only'')
                 else evaluate_native policy nt_rule c w rq now
             | None \<Rightarrow>
                 if is_value_only then ret (Deny 3 ''calldata too short'')
                 else evaluate_abi lib policy registry (cb_policy_path binding) c w rq now))"

definition evaluate ::
  "eth_lib \<Rightarrow> policy \<Rightarrow> abi_registry \<Rightarrow> caller \<Rightarrow> wallet \<Rightarrow> sign_request \<Rightarrow> datetime \<Rightarrow>
   (rate_db, decision) op" where
  "evaluate lib policy registry c w rq now =
     catchM (evaluate_inner lib policy registry c w rq now)
       (\<lambda>e. ret (Deny 0 (''evaluation error: '' @ exn_text e)))"

subsection \<open>The gate\<close>

definition gate ::
  "eth_lib \<Rightarrow> policy \<Rightarrow> abi_registry \<Rightarrow> caller \<Rightarrow> wallet \<Rightarrow> sign_request \<Rightarrow> datetime \<Rightarrow>
   (rate_db, decision) op" where
  "gate lib policy registry c w rq now =
     bindM (evaluate lib policy registry c w rq now) (\<lambda>d.
     case d of
       Deny step reason \<Rightarrow> raise (PolicyDenied step reason)
     | Allow _ _ \<Rightarrow> ret d)"

text \<open>\<open>str(PolicyDenied(step, reason))\<close>.\<close>

definition policy_denied_text :: "int \<Rightarrow> string \<Rightarrow> string" where
  "policy_denied_text step reason = ''policy_denied step='' @ str_int step @ '': '' @ reason"

text \<open>\<open>release_rate_after_failure\<close>: best effort, any exception is dropped with what was done.\<close>

definition release_rate_after_failure ::
  "policy \<Rightarrow> decision \<Rightarrow> caller \<Rightarrow> wallet \<Rightarrow> sign_request \<Rightarrow> datetime \<Rightarrow> (rate_db, unit) op" where
  "release_rate_after_failure policy allow c w rq now =
     catchM
       (case map_of (p_permissions policy) (dec_path allow) of
          None \<Rightarrow> ret ()
        | Some perm \<Rightarrow>
            thenM (release_caller (c_name c) (rq_wallet rq) (py_lower (rq_to rq))
                     (di_method_signature (dec_decoded allow)) (pb_rate perm) now)
              (release_wallet (w_name w)
                (case map_of (p_wallets policy) (w_name w) of
                   None \<Rightarrow> None
                 | Some wb \<Rightarrow> map_of (p_wallet_constraints policy) (wbd_policy_path wb)) now))
       (\<lambda>e. ret ())"

subsection \<open>What the rate stage does\<close>

text \<open>The counters after an allowed request: one more in every window of the caller's bucket and of
  the wallet's, nothing else; the committed aggregates are untouched.\<close>

definition rates_taken ::
  "string \<times> string \<times> string \<times> string \<Rightarrow> rate_limit option \<Rightarrow> string \<Rightarrow> rate_limit option \<Rightarrow> datetime \<Rightarrow>
   rate_db \<Rightarrow> rate_db \<Rightarrow> bool" where
  "rates_taken k rate w wrate now t t' \<longleftrightarrow>
     (\<forall>j wk ws. rb_count j t' wk ws = rb_count j t wk ws +
        (case rate of None \<Rightarrow> 0 | Some r \<Rightarrow> if j = k \<and> hits r now wk ws then 1 else 0)) \<and>
     (\<forall>j wk ws. fb_count j t' wk ws = fb_count j t wk ws) \<and>
     (\<forall>u wk ws. wbk_count u t' wk ws = wbk_count u t wk ws +
        (case wrate of None \<Rightarrow> 0 | Some r \<Rightarrow> if u = w \<and> hits r now wk ws then 1 else 0)) \<and>
     (\<forall>u ws. committed_value t' u ws = committed_value t u ws)"

lemma rates_takenD:
  assumes "rates_taken k rate w wrate now t t'"
  shows "rb_count j t' wk ws = rb_count j t wk ws +
      (case rate of None \<Rightarrow> 0 | Some r \<Rightarrow> if j = k \<and> hits r now wk ws then 1 else 0)"
    and "fb_count i t' wk ws = fb_count i t wk ws"
    and "wbk_count u t' wk ws = wbk_count u t wk ws +
      (case wrate of None \<Rightarrow> 0 | Some r \<Rightarrow> if u = w \<and> hits r now wk ws then 1 else 0)"
    and "committed_value t' u ws = committed_value t u ws"
  using assms unfolding rates_taken_def by blast+

lemma wallet_granted_counts:
  assumes "check_and_increment_wallet w con v now t = (Inr True, t')"
  shows "\<exists>c. con = Some c \<and> fits_aggregate t w (wc_max_aggregate_value_wei_per_day c) v now \<and>
     (\<forall>u wk ws. wbk_count u t' wk ws = wbk_count u t wk ws +
        (case wc_rate c of None \<Rightarrow> 0 | Some r \<Rightarrow> if u = w \<and> hits r now wk ws then 1 else 0)) \<and>
     (\<forall>r. wc_rate c = Some r \<longrightarrow> below_caps r now (wbk_count w t))"
  using assms
proof (cases rule: wallet_check_cases)
  case (granted c)
  then show ?thesis
    by (cases "wc_rate c"; cases rule: wbk.limiter_cases [of "the (wc_rate c)" now w t])
      (auto intro!: exI [of _ c])
qed simp_all

lemma counts_nonneg_rb: "counters_nonneg t \<Longrightarrow> 0 \<le> rb_count j t wk ws"
  by (cases j) (simp add: counters_nonneg_def)

lemma caller_undo:
  assumes "check_and_increment_caller c w k m rate now t = (Inr True, t')" "counters_nonneg t"
  shows "\<exists>t''. release_caller c w k m rate now t' = (Inr (), t'') \<and> same_rates t t''"
proof -
  from assms(1) obtain r where r: "rate = Some r"
    and run: "limiter (rb_count (c, w, k, m)) (rb_inc (c, w, k, m)) r now t = (Inr True, t')"
    by (cases rate) (auto simp: check_and_increment_caller_def [where rate = None] check_caller_limiter)
  have nn: "0 \<le> rb_count (c, w, k, m) t wk ws" for wk ws
    using assms(2) by (rule counts_nonneg_rb)
  obtain t'' where t'': "release_caller c w k m rate now t' = (Inr (), t'')"
    and fr: "wallet_buckets t'' = wallet_buckets t'" "fsp_rate_buckets t'' = fsp_rate_buckets t'"
    using release_caller_run [of c w k m rate now t'] by blast
  have cnt: "rb_count j t'' wk ws = rb_count j t wk ws" for j wk ws
    using rb.acquire_release [OF run nn] t'' by (cases j) (auto simp: release_caller_def r)
  have "wallet_buckets t' = wallet_buckets t \<and> fsp_rate_buckets t' = fsp_rate_buckets t"
    using assms(1) by (cases rule: caller_check_cases) auto
  with fr have "wallet_buckets t'' = wallet_buckets t" "fsp_rate_buckets t'' = fsp_rate_buckets t"
    by simp_all
  then have "same_rates t t''"
    using cnt by (simp add: same_rates_def counts_cong [of t'' t])
  with t'' show ?thesis by blast
qed

lemma caller_check_bool:
  "check_and_increment_caller c w k m rate now t = (res, t') \<Longrightarrow>
   res = Inr True \<and> (\<exists>r. rate = Some r \<and> below_caps r now (rb_count (c, w, k, m) t)) \<or>
   res = Inr False \<and> t' = t"
  by (erule caller_check_cases) auto

text \<open>Step 8 when it is on, and nothing when it is off.\<close>

lemma caller_step_cases:
  assumes "counters_nonneg t"
  obtains (refused) "(if limited then check_and_increment_caller c w k m rate now else ret True) t = (Inr False, t)"
  | (taken) u where
      "(if limited then check_and_increment_caller c w k m rate now else ret True) t = (Inr True, u)"
      "\<exists>z. (if limited then release_caller c w k m rate now else ret ()) u = (Inr (), z) \<and> same_rates t z"
      "wallet_buckets u = wallet_buckets t" "fsp_rate_buckets u = fsp_rate_buckets t"
      "\<And>j wk ws. rb_count j u wk ws = rb_count j t wk ws +
        (case if limited then rate else None of None \<Rightarrow> 0
         | Some r \<Rightarrow> if j = (c, w, k, m) \<and> hits r now wk ws then 1 else 0)"
      "limited \<Longrightarrow> \<exists>r. rate = Some r \<and> below_caps r now (rb_count (c, w, k, m) t)"
proof (cases limited)
  case False
  then show thesis by (intro taken [of t]) auto
next
  case True
  obtain res u where run: "check_and_increment_caller c w k m rate now t = (res, u)" by fastforce
  show thesis
    using run
  proof (cases rule: caller_check_cases)
    case refused
    with run True show thesis by (intro that(1)) simp
  next
    case (granted r)
    then have "\<exists>z. release_caller c w k m rate now u = (Inr (), z) \<and> same_rates t z"
      using caller_undo [OF _ assms] run by simp
    with granted run True show thesis by (intro taken [of u]) simp_all
  qed
qed

lemma rates_stage_cases:
  assumes "rates_stage policy c w rw k m rate limited why v now (Allow d p) t = (res, t')"
    and "counters_nonneg t"
  obtains (denied) step reason where "res = Inr (Deny step reason)" "step = 8 \<or> step = 9" "same_rates t t'"
  | (error) e where "res = Inl e"
  | (allowed) wb con where "res = Inr (Allow d p)"
      "map_of (p_wallets policy) (w_name w) = Some wb"
      "map_of (p_wallet_constraints policy) (wbd_policy_path wb) = Some con"
      "limited \<Longrightarrow> \<exists>r. rate = Some r \<and> below_caps r now (rb_count (c_name c, rw, k, m) t)"
      "fits_aggregate t (w_name w) (wc_max_aggregate_value_wei_per_day con) v now"
      "\<And>r. wc_rate con = Some r \<Longrightarrow> below_caps r now (wbk_count (w_name w) t)"
      "rates_taken (c_name c, rw, k, m) (if limited then rate else None) (w_name w) (wc_rate con) now t t'"
proof -
  let ?step8 = "if limited then check_and_increment_caller (c_name c) rw k m rate now else ret True"
  let ?undo = "if limited then release_caller (c_name c) rw k m rate now else ret ()"
  have rs: "rates_stage policy c w rw k m rate limited why v now (Allow d p) t =
    (case ?step8 t of (Inl e, u) \<Rightarrow> (Inl e, u) | (Inr ok, u) \<Rightarrow>
      (if \<not> ok then ret (Deny 8 why)
       else case map_of (p_wallets policy) (w_name w) of
          None \<Rightarrow> thenM ?undo (ret (Deny 9 ''wallet has no constraint binding''))
        | Some wb \<Rightarrow> bindM (check_and_increment_wallet (w_name w)
                (map_of (p_wallet_constraints policy) (wbd_policy_path wb)) v now)
              (\<lambda>ok. if \<not> ok then thenM ?undo (ret (Deny 9 ''wallet constraint exceeded''))
                else ret (Allow d p))) u)"
    by (simp only: rates_stage_def Let_def bindM_run)
  show thesis
    using assms(2)
  proof (cases rule: caller_step_cases [of t limited "c_name c" rw k m rate now])
    case refused
    with assms(1) have "res = Inr (Deny 8 why)" "t' = t" unfolding rs by simp_all
    then show thesis by (intro denied [of 8 why]) simp_all
  next
    case (taken u)
    have same: "wbk_count x u = wbk_count x t" "fb_count j u = fb_count j t"
      "committed_value u x y = committed_value t x y" for x y j
      using counts_cong(2-4) [of u t] taken(3,4) by simp_all
    show thesis
    proof (cases "map_of (p_wallets policy) (w_name w)")
      case None
      with assms(1) taken(1,2) have "res = Inr (Deny 9 ''wallet has no constraint binding'') \<and> same_rates t t'"
        unfolding rs by auto
      then show thesis by (elim conjE) (rule denied, assumption, simp_all)
    next
      case (Some wb)
      let ?con = "map_of (p_wallet_constraints policy) (wbd_policy_path wb)"
      obtain wr z where z: "check_and_increment_wallet (w_name w) ?con v now u = (wr, z)" by fastforce
      show thesis
        using z
      proof (cases rule: wallet_check_cases)
        case (error e)
        with assms(1) taken(1) Some z have "res = Inl e" unfolding rs by (simp add: bindM_run)
        then show thesis by (rule that(2))
      next
        case refused
        with assms(1) taken(1,2) Some z
        have "res = Inr (Deny 9 ''wallet constraint exceeded'') \<and> same_rates t t'"
          unfolding rs by (auto simp: bindM_run)
        then show thesis by (elim conjE) (rule denied, assumption, simp_all)
      next
        case (granted con)
        with z have zz: "check_and_increment_wallet (w_name w) ?con v now u = (Inr True, z)" by simp
        from assms(1) taken(1) Some zz have r: "res = Inr (Allow d p)" "t' = z"
          unfolding rs by (simp_all add: bindM_run)
        note wc = wallet_granted_counts [OF zz, unfolded granted(1)]
        note fr = wallet_granted_frame [OF zz]
        have "rates_taken (c_name c, rw, k, m) (if limited then rate else None) (w_name w)
            (wc_rate con) now t t'"
          unfolding rates_taken_def r(2)
          using wc taken(5) same fr by (simp add: counts_cong(1) [OF fr(1)] counts_cong(2) [OF fr(2)])
        moreover have "fits_aggregate t (w_name w) (wc_max_aggregate_value_wei_per_day con) v now"
          using granted(3) unfolding fits_aggregate_def same .
        ultimately show thesis
          using r Some granted(1) wc taken(6) by (intro allowed [of wb con]) (simp_all add: same)
      qed
    qed
  qed
qed

subsection \<open>What the pure stages check\<close>

text \<open>Steps 2 to 7 as one specification.\<close>

definition abi_checks ::
  "eth_lib \<Rightarrow> abi_registry \<Rightarrow> permission_block \<Rightarrow> sign_request \<Rightarrow> decoded_intent \<Rightarrow> int \<Rightarrow> bool" where
  "abi_checks lib registry perm rq d v \<longleftrightarrow>
     (\<exists>addr crule mrule m calldata cap.
        (addr, crule) \<in> set (pb_contracts perm) \<and> py_lower addr = py_lower (rq_to rq) \<and>
        rq_chain rq \<in> set (cr_chains crule) \<and>
        bytes_fromhex (strip_0x (rq_data rq)) = Some calldata \<and> 4 \<le> length calldata \<and>
        registry_lookup registry (cr_abi crule) (''0x'' @ bytes_hex (take 4 calldata)) = Some m \<and>
        decode_intent (eth_selector4 lib) (eth_abi_decode lib) (rq_to rq) calldata
          (am_abi_fn_entry m) = Some d \<and>
        map_of (cr_methods crule) (di_method_signature d) = Some mrule \<and>
        (mr_allow_unconstrained_args mrule \<or>
          (\<forall>inp \<in> set (fn_inputs (am_abi_fn_entry m)). \<forall>ty. canonical_type inp = Some ty \<longrightarrow>
             is_predicatable_scalar ty)) \<and>
        py_int (mr_max_value_wei mrule) = Some cap \<and> py_int (rq_value_wei rq) = Some v \<and> v \<le> cap \<and>
        (\<forall>(pname, pval) \<in> set (mr_arg_predicates mrule). pval = PStr ''any'' \<or>
          (\<exists>aval. map_of (di_args d) pname = Some aval \<and> predicate_fails pval aval = None)) \<and>
        rq_wallet rq \<in> set (pb_wallet_allowlist perm))"

text \<open>The native-transfer rule as one specification.\<close>

definition native_checks :: "native_transfer_block \<Rightarrow> sign_request \<Rightarrow> int \<Rightarrow> bool" where
  "native_checks rule rq v \<longleftrightarrow>
     strip_0x (rq_data rq) = [] \<and> rq_chain rq \<in> set (nb_chains rule) \<and>
     (\<exists>r \<in> set (nb_recipient_allowlist rule). py_lower r = py_lower (rq_to rq)) \<and>
     (\<exists>cap. py_int (nb_max_value_wei rule) = Some cap \<and> py_int (rq_value_wei rq) = Some v \<and>
        0 < v \<and> v \<le> cap) \<and>
     rq_wallet rq \<in> set (nb_wallet_allowlist rule)"

lemma predicates_stage_Go:
  "predicates_stage ps args = Go () \<longleftrightarrow>
     (\<forall>(pname, pval) \<in> set ps. pval = PStr ''any'' \<or>
        (\<exists>aval. map_of args pname = Some aval \<and> predicate_fails pval aval = None))"
  by (induction ps args rule: predicates_stage.induct) (auto split: option.splits)

lemma predicates_stage_Stop:
  "predicates_stage ps args = Stop x \<Longrightarrow> \<exists>r. x = Deny 6 r"
  by (induction ps args rule: predicates_stage.induct) (auto split: option.splits if_splits)

lemma value_stage_Go:
  "value_stage m rq = Go v \<Longrightarrow> \<exists>cap. py_int m = Some cap \<and> py_int (rq_value_wei rq) = Some v \<and> v \<le> cap"
  by (auto simp: value_stage_def split: option.splits if_splits)

lemma decode_stage_Go:
  "decode_stage lib registry crule rq = Go (d, f) \<Longrightarrow>
   \<exists>calldata m. bytes_fromhex (strip_0x (rq_data rq)) = Some calldata \<and> 4 \<le> length calldata \<and>
     registry_lookup registry (cr_abi crule) (''0x'' @ bytes_hex (take 4 calldata)) = Some m \<and>
     f = am_abi_fn_entry m \<and>
     decode_intent (eth_selector4 lib) (eth_abi_decode lib) (rq_to rq) calldata f = Some d"
  by (auto simp: decode_stage_def Let_def split: if_splits option.splits)

lemma find_contract_Some:
  "find_contract a cs = Some crule \<Longrightarrow> \<exists>addr. (addr, crule) \<in> set cs \<and> py_lower addr = a"
  by (auto simp: find_contract_def find_Some_iff) (metis nth_mem)

lemma has_nonscalar_False:
  "has_nonscalar_args f = Inr False \<Longrightarrow> inp \<in> set (fn_inputs f) \<Longrightarrow> canonical_type inp = Some ty \<Longrightarrow>
   is_predicatable_scalar ty"
  using any_nonscalar_iff [of "fn_inputs f" False] by (auto simp: has_nonscalar_args_def)

lemma method_stage_Go:
  assumes "method_stage perm crule rq d f = Inr (Go v)"
  obtains mrule cap where "map_of (cr_methods crule) (di_method_signature d) = Some mrule"
    "mr_allow_unconstrained_args mrule \<or> has_nonscalar_args f = Inr False"
    "py_int (mr_max_value_wei mrule) = Some cap" "py_int (rq_value_wei rq) = Some v" "v \<le> cap"
    "predicates_stage (mr_arg_predicates mrule) (di_args d) = Go ()"
    "rq_wallet rq \<in> set (pb_wallet_allowlist perm)"
  using assms
  by (auto simp: method_stage_def split: option.splits sum.splits if_splits stage.splits
      dest!: value_stage_Go)

lemma contract_stage_Go:
  assumes "contract_stage lib registry perm rq = Inr (Go (d, v))"
  shows "abi_checks lib registry perm rq d v"
proof -
  from assms obtain crule f where cr: "find_contract (py_lower (rq_to rq)) (pb_contracts perm) = Some crule"
    "rq_chain rq \<in> set (cr_chains crule)" "decode_stage lib registry crule rq = Go (d, f)"
    and ms: "method_stage perm crule rq d f = Inr (Go v)"
    by (auto simp: contract_stage_def split: option.splits if_splits stage.splits sum.splits)
  from find_contract_Some [OF cr(1)] obtain addr
    where ad: "(addr, crule) \<in> set (pb_contracts perm)" "py_lower addr = py_lower (rq_to rq)" by blast
  from decode_stage_Go [OF cr(3)] obtain calldata m where
    dec: "bytes_fromhex (strip_0x (rq_data rq)) = Some calldata" "4 \<le> length calldata"
     "registry_lookup registry (cr_abi crule) (''0x'' @ bytes_hex (take 4 calldata)) = Some m"
     "f = am_abi_fn_entry m"
     "decode_intent (eth_selector4 lib) (eth_abi_decode lib) (rq_to rq) calldata f = Some d" by blast
  from ms obtain mrule cap where mr: "map_of (cr_methods crule) (di_method_signature d) = Some mrule"
    "mr_allow_unconstrained_args mrule \<or> has_nonscalar_args f = Inr False"
    "py_int (mr_max_value_wei mrule) = Some cap" "py_int (rq_value_wei rq) = Some v" "v \<le> cap"
    "predicates_stage (mr_arg_predicates mrule) (di_args d) = Go ()"
    "rq_wallet rq \<in> set (pb_wallet_allowlist perm)"
    by (rule method_stage_Go)
  have "mr_allow_unconstrained_args mrule \<or> (\<forall>inp \<in> set (fn_inputs f). \<forall>ty.
      canonical_type inp = Some ty \<longrightarrow> is_predicatable_scalar ty)"
    using mr(2) has_nonscalar_False by blast
  with ad cr(2) dec mr show ?thesis
    unfolding abi_checks_def predicates_stage_Go
    by (intro exI [of _ addr] exI [of _ crule] exI [of _ mrule] exI [of _ m] exI [of _ calldata]
        exI [of _ cap]) simp
qed

lemma native_stage_Go:
  "native_stage rule rq = Go v \<Longrightarrow> strip_0x (rq_data rq) = [] \<Longrightarrow> native_checks rule rq v"
  by (auto simp: native_stage_def native_checks_def split: if_splits option.splits)

lemma contract_stage_Stop:
  "contract_stage lib registry perm rq = Inr (Stop x) \<Longrightarrow> \<exists>k r. x = Deny k r \<and> 2 \<le> k \<and> k \<le> 7"
  by (auto simp: contract_stage_def decode_stage_def method_stage_def value_stage_def Let_def
      split: option.splits if_splits stage.splits sum.splits dest!: predicates_stage_Stop)

lemma native_stage_Stop: "native_stage rule rq = Stop x \<Longrightarrow> \<exists>k r. x = Deny k r \<and> 2 \<le> k \<and> k \<le> 7"
  by (auto simp: native_stage_def split: option.splits if_splits)

subsection \<open>What an evaluation does\<close>

text \<open>The rate the caller limiter applied and whether the checks of the matching rule held.\<close>

definition rule_checks ::
  "eth_lib \<Rightarrow> abi_registry \<Rightarrow> policy \<Rightarrow> string \<Rightarrow> sign_request \<Rightarrow> decoded_intent \<Rightarrow> int \<Rightarrow>
   rate_limit option \<Rightarrow> bool" where
  "rule_checks lib registry policy path rq d v rate \<longleftrightarrow>
     (case map_of (p_native_transfers policy) path of
        Some rule \<Rightarrow> native_checks rule rq v \<and> d = native_intent rq v \<and> rate = nb_rate rule
      | None \<Rightarrow> (\<exists>perm. map_of (p_permissions policy) path = Some perm \<and>
          abi_checks lib registry perm rq d v \<and> rate = pb_rate perm \<and> rate \<noteq> None))"

lemma rule_checks_abi:
  "rule_checks lib registry policy path rq d v rate \<Longrightarrow> map_of (p_native_transfers policy) path = None \<Longrightarrow>
   \<exists>perm. map_of (p_permissions policy) path = Some perm \<and> rate = pb_rate perm"
  unfolding rule_checks_def by auto

lemma evaluate_state: "\<exists>d. fst (evaluate lib policy registry c w rq now t) = Inr d"
  by (cases "evaluate_inner lib policy registry c w rq now t")
    (auto simp: evaluate_def catchM_def split: sum.splits)

text \<open>What an allowed request has passed and what it has taken from the limiters.\<close>

definition allowed_effect ::
  "eth_lib \<Rightarrow> abi_registry \<Rightarrow> policy \<Rightarrow> caller \<Rightarrow> wallet \<Rightarrow> sign_request \<Rightarrow> datetime \<Rightarrow> rate_db \<Rightarrow>
   decoded_intent \<Rightarrow> rate_db \<Rightarrow> bool" where
  "allowed_effect lib registry policy c w rq now t d t' \<longleftrightarrow>
     (\<exists>wb con v rate.
        rule_checks lib registry policy (c_policy_path c) rq d v rate \<and>
        map_of (p_wallets policy) (w_name w) = Some wb \<and>
        map_of (p_wallet_constraints policy) (wbd_policy_path wb) = Some con \<and>
        (\<forall>r. rate = Some r \<longrightarrow> below_caps r now
           (rb_count (c_name c, rq_wallet rq, py_lower (rq_to rq), di_method_signature d) t)) \<and>
        fits_aggregate t (w_name w) (wc_max_aggregate_value_wei_per_day con) v now \<and>
        (\<forall>r. wc_rate con = Some r \<longrightarrow> below_caps r now (wbk_count (w_name w) t)) \<and>
        rates_taken (c_name c, rq_wallet rq, py_lower (rq_to rq), di_method_signature d) rate
          (w_name w) (wc_rate con) now t t')"

lemma allowed_effectE:
  assumes "allowed_effect lib registry policy c w rq now t d t'"
  obtains (parts) wb con v rate where
    "rule_checks lib registry policy (c_policy_path c) rq d v rate"
    "map_of (p_wallets policy) (w_name w) = Some wb"
    "map_of (p_wallet_constraints policy) (wbd_policy_path wb) = Some con"
    "fits_aggregate t (w_name w) (wc_max_aggregate_value_wei_per_day con) v now"
    "rates_taken (c_name c, rq_wallet rq, py_lower (rq_to rq), di_method_signature d) rate
       (w_name w) (wc_rate con) now t t'"
  using assms unfolding allowed_effect_def by (elim exE conjE) (rule that)

definition eval_outcome ::
  "eth_lib \<Rightarrow> abi_registry \<Rightarrow> policy \<Rightarrow> caller \<Rightarrow> wallet \<Rightarrow> sign_request \<Rightarrow> datetime \<Rightarrow> rate_db \<Rightarrow>
   (exn + decision) \<times> rate_db \<Rightarrow> bool" where
  "eval_outcome lib registry policy c w rq now t out \<longleftrightarrow>
     (case out of
        (Inl e, t') \<Rightarrow> True
      | (Inr (Deny k r), t') \<Rightarrow> 1 \<le> k \<and> k \<le> 9 \<and> same_rates t t'
      | (Inr (Allow d p), t') \<Rightarrow> p = c_policy_path c \<and>
          allowed_effect lib registry policy c w rq now t d t')"

lemma eval_outcome_deny [simp]:
  "eval_outcome lib registry policy c w rq now t (Inr (Deny k r), t) \<longleftrightarrow> 1 \<le> k \<and> k \<le> 9"
  by (simp add: eval_outcome_def)

lemma rates_stage_outcome:
  assumes "rule_checks lib registry policy (c_policy_path c) rq d v rate"
    and "limited \<longleftrightarrow> rate \<noteq> None" "counters_nonneg t" "m = di_method_signature d"
  shows "eval_outcome lib registry policy c w rq now t
    (rates_stage policy c w (rq_wallet rq) (py_lower (rq_to rq)) m rate limited why v now
       (Allow d (c_policy_path c)) t)"
proof -
  obtain res t' where rs: "rates_stage policy c w (rq_wallet rq) (py_lower (rq_to rq)) m rate limited why
      v now (Allow d (c_policy_path c)) t = (res, t')" by fastforce
  have lim: "(if limited then rate else None) = rate" using assms(2) by simp
  from rs assms(3) have "eval_outcome lib registry policy c w rq now t (res, t')"
  proof (cases rule: rates_stage_cases)
    case (denied k r)
    then show ?thesis by (auto simp: eval_outcome_def)
  next
    case (allowed wb con)
    have "allowed_effect lib registry policy c w rq now t d t'"
      unfolding allowed_effect_def using allowed assms lim
      by (intro exI [of _ wb] exI [of _ con] exI [of _ v] exI [of _ rate]) auto
    with allowed(1) show ?thesis by (simp add: eval_outcome_def)
  qed (simp add: eval_outcome_def)
  with rs show ?thesis by simp
qed

lemma evaluate_native_outcome:
  assumes "map_of (p_native_transfers policy) (c_policy_path c) = Some rule"
    and "strip_0x (rq_data rq) = []" "counters_nonneg t"
  shows "eval_outcome lib registry policy c w rq now t (evaluate_native policy rule c w rq now t)"
proof (cases "native_stage rule rq")
  case (Stop x)
  then obtain k r where "x = Deny k r" "2 \<le> k" "k \<le> 7" using native_stage_Stop by blast
  with Stop show ?thesis by (simp add: evaluate_native_def)
next
  case (Go v)
  have "rule_checks lib registry policy (c_policy_path c) rq (native_intent rq v) v (nb_rate rule)"
    using native_stage_Go [OF Go assms(2)] assms(1) by (simp add: rule_checks_def)
  from rates_stage_outcome [OF this refl assms(3), of nt_method] show ?thesis
    by (simp add: evaluate_native_def Go native_intent_def)
qed

lemma evaluate_abi_outcome:
  assumes "map_of (p_native_transfers policy) (c_policy_path c) = None" "counters_nonneg t"
  shows "eval_outcome lib registry policy c w rq now t
    (evaluate_abi lib policy registry (c_policy_path c) c w rq now t)"
proof (cases "map_of (p_permissions policy) (c_policy_path c)")
  case None
  then show ?thesis by (simp add: evaluate_abi_def)
next
  case (Some perm)
  show ?thesis
  proof (cases "contract_stage lib registry perm rq")
    case (Inl e)
    with Some show ?thesis by (simp add: evaluate_abi_def bindM_run eval_outcome_def)
  next
    case (Inr st)
    show ?thesis
    proof (cases st)
      case (Stop x)
      then obtain k r where "x = Deny k r" "2 \<le> k" "k \<le> 7" using contract_stage_Stop Inr by blast
      with Stop Inr Some show ?thesis by (simp add: evaluate_abi_def bindM_run)
    next
      case (Go dv)
      obtain d v where dv: "dv = (d, v)" by (cases dv)
      have ac: "abi_checks lib registry perm rq d v"
        using Inr Go dv by (intro contract_stage_Go) simp
      show ?thesis
      proof (cases "pb_rate perm")
        case None
        with Some Inr Go dv show ?thesis
          by (simp add: evaluate_abi_def bindM_run rates_stage_def check_and_increment_caller_def)
      next
        case (Some r)
        have "rule_checks lib registry policy (c_policy_path c) rq d v (pb_rate perm)"
          using ac assms(1) \<open>map_of _ _ = Some perm\<close> Some by (simp add: rule_checks_def)
        from rates_stage_outcome [OF this _ assms(2) refl, of True] Some
          \<open>map_of _ _ = Some perm\<close> Inr Go dv
        show ?thesis by (simp add: evaluate_abi_def bindM_run)
      qed
    qed
  qed
qed

lemma evaluate_inner_outcome:
  assumes "counters_nonneg t"
  shows "eval_outcome lib registry policy c w rq now t (evaluate_inner lib policy registry c w rq now t)"
  using assms evaluate_native_outcome [OF _ _ assms, of policy c]
    evaluate_abi_outcome [OF _ assms, of policy c]
  by (auto simp: evaluate_inner_def Let_def split: option.splits)

lemma evaluate_inner_allow_bound:
  "evaluate_inner lib policy registry c w rq now t = (Inr (Allow d p), t') \<Longrightarrow>
   \<exists>b. map_of (p_callers policy) (c_name c) = Some b \<and> cb_policy_path b = c_policy_path c"
  by (auto simp: evaluate_inner_def Let_def split: option.splits if_splits)

lemma evaluate_cases:
  assumes "evaluate lib policy registry c w rq now t = (res, t')" "counters_nonneg t"
  obtains (denied) k r where "res = Inr (Deny k r)" "1 \<le> k" "k \<le> 9" "same_rates t t'"
  | (error) r where "res = Inr (Deny 0 r)"
  | (allowed) d b where "res = Inr (Allow d (c_policy_path c))"
      "map_of (p_callers policy) (c_name c) = Some b" "cb_policy_path b = c_policy_path c"
      "allowed_effect lib registry policy c w rq now t d t'"
proof -
  obtain r u where run: "evaluate_inner lib policy registry c w rq now t = (r, u)" by fastforce
  have out: "eval_outcome lib registry policy c w rq now t (r, u)"
    using evaluate_inner_outcome [OF assms(2), of lib registry policy c w rq now] run by simp
  show thesis
  proof (cases r)
    case (Inl e)
    with run assms(1) show thesis
      by (intro error [of "''evaluation error: '' @ exn_text e"]) (auto simp: evaluate_def catchM_def)
  next
    case (Inr x)
    with run assms(1) have "res = Inr x" "t' = u" by (simp_all add: evaluate_def catchM_def)
    with out Inr run show thesis
      by (cases x) (auto simp: eval_outcome_def dest!: evaluate_inner_allow_bound intro: denied allowed)
  qed
qed

lemma evaluate_Allow:
  assumes "evaluate lib policy registry c w rq now t = (Inr (Allow d p), t')" "counters_nonneg t"
  shows "p = c_policy_path c \<and> allowed_effect lib registry policy c w rq now t d t'"
  using assms by (cases rule: evaluate_cases) simp_all

subsection \<open>Properties\<close>

text \<open>C5: the engine is default-deny and never raises: whatever the policy, registry, request and rate
  tables, it returns a decision, and it allows only a caller bound in the policy under the same
  policy path, whose request passed every check of the matching rule (contract and chain, selector,
  decoded intent, method, scalar arguments, value cap, predicates, wallet allowlist; or the
  native-transfer rule), within the caller's rate caps and the wallet's constraint, which must
  exist; it then takes exactly one unit from each applicable window.\<close>

theorem evaluate_allow_sound:
  assumes "counters_nonneg t"
  shows "\<exists>dec t'. evaluate lib policy registry c w rq now t = (Inr dec, t') \<and>
    (\<forall>d p. dec = Allow d p \<longrightarrow> p = c_policy_path c \<and>
       (\<exists>b. map_of (p_callers policy) (c_name c) = Some b \<and> cb_policy_path b = c_policy_path c) \<and>
       (\<exists>wb con v rate.
          rule_checks lib registry policy (c_policy_path c) rq d v rate \<and>
          map_of (p_wallets policy) (w_name w) = Some wb \<and>
          map_of (p_wallet_constraints policy) (wbd_policy_path wb) = Some con \<and>
          (\<forall>r. rate = Some r \<longrightarrow> below_caps r now
             (rb_count (c_name c, rq_wallet rq, py_lower (rq_to rq), di_method_signature d) t)) \<and>
          fits_aggregate t (w_name w) (wc_max_aggregate_value_wei_per_day con) v now \<and>
          (\<forall>r. wc_rate con = Some r \<longrightarrow> below_caps r now (wbk_count (w_name w) t)) \<and>
          rates_taken (c_name c, rq_wallet rq, py_lower (rq_to rq), di_method_signature d) rate
            (w_name w) (wc_rate con) now t t'))"
proof -
  obtain dec t' where run: "evaluate lib policy registry c w rq now t = (Inr dec, t')"
    using evaluate_state [of lib policy registry c w rq now t]
    by (cases "evaluate lib policy registry c w rq now t") auto
  from this assms show ?thesis
  proof (cases rule: evaluate_cases)
    case (allowed d b)
    with run show ?thesis by (simp add: allowed_effect_def)
  qed (use run in auto)
qed

text \<open>A policy with one caller of one wallet, and a native transfer it allows.\<close>

definition sample_caller :: caller where
  "sample_caller = \<lparr>c_name = ''clif'', c_api_key_hash = ''h'', c_api_key_prefix = ''p'',
     c_policy_path = ''faucet'', c_created_at = 0, c_revoked_at = None\<rparr>"

definition sample_wallet :: wallet where
  "sample_wallet = \<lparr>w_name = ''hot'', w_address = ''0xAA'', w_privkey_ciphertext = ''seal:v1:'',
     w_vault_master_key = ''local:v1'', w_policy_path = ''hot'', w_created_at = 0\<rparr>"

definition sample_policy :: policy where
  "sample_policy = \<lparr>p_version = 1,
     p_callers = [(''clif'', \<lparr>cb_policy_path = ''faucet'', cb_capability_id = None\<rparr>)],
     p_wallets = [(''hot'', \<lparr>wbd_policy_path = ''hot''\<rparr>)],
     p_permissions = [],
     p_wallet_constraints = [(''hot'', \<lparr>wc_max_aggregate_value_wei_per_day = None,
        wc_rate = Some \<lparr>per_hour = None, per_day = Some 5\<rparr>\<rparr>)],
     p_fsp_permissions = [],
     p_native_transfers = [(''faucet'', \<lparr>nb_chains = [14], nb_recipient_allowlist = [''0xBB''],
        nb_max_value_wei = ''9'', nb_wallet_allowlist = [''hot''],
        nb_rate = Some \<lparr>per_hour = Some 2, per_day = None\<rparr>\<rparr>)],
     p_fsp_self_submit = []\<rparr>"

definition sample_request :: sign_request where
  "sample_request = \<lparr>rq_wallet = ''hot'', rq_caller = ''clif'', rq_chain = 14, rq_to = ''0xbb'',
     rq_value_wei = ''7'', rq_data = ''0x'', rq_gas = 21000, rq_max_fee_per_gas = 3,
     rq_max_priority_fee_per_gas = 1, rq_idempotency_key = None\<rparr>"

definition sample_lib :: eth_lib where
  "sample_lib = \<lparr>eth_selector4 = sample_selector4, eth_abi_decode = sample_abi_decode\<rparr>"

definition sample_rates_after :: rate_db where
  "sample_rates_after = wbk_inc ''hot'' ''day'' 0
     (rb_inc (''clif'', ''hot'', ''0xbb'', nt_method) ''hour'' 0 empty_rates)"

lemma sample_strings [simp]:
  "py_int ''9'' = Some 9" "py_int ''7'' = Some 7" "py_lower ''0xBB'' = ''0xbb''"
  "py_lower ''0xbb'' = ''0xbb''" "strip_0x ''0x'' = []"
  by code_simp+

lemma sample_evaluate:
  "evaluate sample_lib sample_policy [] sample_caller sample_wallet sample_request 7 empty_rates =
     (Inr (Allow (native_intent sample_request 7) ''faucet''), sample_rates_after)"
  by (simp add: evaluate_def evaluate_inner_def evaluate_native_def native_stage_def rates_stage_def
      sample_policy_def sample_caller_def sample_wallet_def sample_request_def catchM_def bindM_run
      thenM_def check_and_increment_caller_def check_and_increment_wallet_def aggregate_allows_def
      rate_windows_def Let_def floor_window_def window_width_def hour_us_def day_us_def
      sample_rates_after_def wbk_count_def rb_inc_def empty_rates_def rb_count_def)

lemma evaluate_allow_sound_witness:
  "\<exists>wb con v rate.
     rule_checks sample_lib [] sample_policy ''faucet'' sample_request (native_intent sample_request 7) v rate \<and>
     map_of (p_wallets sample_policy) ''hot'' = Some wb \<and>
     map_of (p_wallet_constraints sample_policy) (wbd_policy_path wb) = Some con \<and>
     rates_taken (''clif'', ''hot'', ''0xbb'', nt_method) rate ''hot'' (wc_rate con) 7
       empty_rates sample_rates_after"
  using evaluate_allow_sound [OF counters_nonneg_empty, of sample_lib sample_policy "[]" sample_caller
      sample_wallet sample_request 7]
  unfolding sample_evaluate
  by (simp add: sample_caller_def sample_wallet_def sample_request_def native_intent_def) blast



lemma release_restores:
  assumes "evaluate lib policy registry c w rq now t = (Inr (Allow d p), t')"
    and "counters_nonneg t" "map_of (p_native_transfers policy) p = None"
  shows "\<exists>t''. release_rate_after_failure policy (Allow d p) c w rq now t' = (Inr (), t'') \<and>
    same_rates t t''"
proof -
  from evaluate_Allow [OF assms(1,2)] have "p = c_policy_path c"
    and eff: "allowed_effect lib registry policy c w rq now t d t'" by simp_all
  let ?k = "(c_name c, rq_wallet rq, py_lower (rq_to rq), di_method_signature d)"
  from eff obtain wb con v rate where rc: "rule_checks lib registry policy (c_policy_path c) rq d v rate"
    and wb: "map_of (p_wallets policy) (w_name w) = Some wb"
      "map_of (p_wallet_constraints policy) (wbd_policy_path wb) = Some con"
    and tk: "rates_taken ?k rate (w_name w) (wc_rate con) now t t'"
    by (elim allowed_effectE) (rule that)
  from rule_checks_abi [OF rc] assms(3) obtain perm where
    perm: "map_of (p_permissions policy) p = Some perm" "rate = pb_rate perm"
    by (auto simp: \<open>p = c_policy_path c\<close>)
  with tk have taken: "rates_taken ?k (pb_rate perm) (w_name w) (wc_rate con) now t t'" by simp
  obtain t1 where t1: "release_caller (c_name c) (rq_wallet rq) (py_lower (rq_to rq))
        (di_method_signature d) (pb_rate perm) now t' = (Inr (), t1)"
    and f1: "wallet_buckets t1 = wallet_buckets t'" "fsp_rate_buckets t1 = fsp_rate_buckets t'"
    and c1: "\<forall>j wk ws. rb_count j t1 wk ws = rb_count j t' wk ws -
        (case pb_rate perm of None \<Rightarrow> 0 | Some r \<Rightarrow>
           if j = ?k \<and> hits r now wk ws \<and> 0 < rb_count j t' wk ws then 1 else 0)"
    using release_caller_run by blast
  obtain t2 where t2: "release_wallet (w_name w) (Some con) now t1 = (Inr (), t2)"
    and f2: "rate_buckets t2 = rate_buckets t1" "fsp_rate_buckets t2 = fsp_rate_buckets t1"
      "\<forall>u ws. committed_value t2 u ws = committed_value t1 u ws"
    and c2: "\<forall>u wk ws. wbk_count u t2 wk ws = wbk_count u t1 wk ws -
        (case wc_rate con of None \<Rightarrow> 0 | Some r \<Rightarrow>
           if u = w_name w \<and> hits r now wk ws \<and> 0 < wbk_count u t1 wk ws then 1 else 0)"
    using release_wallet_run [of "w_name w" "Some con" now t1] by auto
  have nn: "0 \<le> rb_count j t wk ws" "0 \<le> wbk_count u t wk ws" for j u wk ws
    by (rule counts_nonneg_rb [OF assms(2)]) (use assms(2) in \<open>simp add: counters_nonneg_def\<close>)
  have "rb_count j t2 wk ws = rb_count j t wk ws" for j wk ws
    unfolding counts_cong(1) [OF f2(1)] c1 [rule_format, of j wk ws] rates_takenD(1) [OF taken, of j wk ws]
    using nn(1) [of j wk ws] nn(1) [of ?k wk ws] by (simp split: option.split)
  moreover have "wbk_count u t2 wk ws = wbk_count u t wk ws" for u wk ws
    unfolding c2 [rule_format, of u wk ws] counts_cong(3) [OF f1(1)] rates_takenD(3) [OF taken, of u wk ws]
    using nn(2) [of u wk ws] nn(2) [of "w_name w" wk ws] by (simp split: option.split)
  moreover have "fb_count j t2 wk ws = fb_count j t wk ws" "committed_value t2 u ws = committed_value t u ws"
    for j u wk ws
    by (simp_all add: f2(3) counts_cong(2) [OF f2(2)] counts_cong(2) [OF f1(2)] counts_cong(4) [OF f1(1)]
        rates_takenD(2,4) [OF taken])
  ultimately have "same_rates t t2" by (simp add: same_rates_def)
  with t1 t2 perm wb show ?thesis by (auto simp: release_rate_after_failure_def)
qed

text \<open>An allowed contract call that fails before it is signed gives back what it took: after
  \<open>release_rate_after_failure\<close> every counter and aggregate is what it was before the request.\<close>

theorem release_restores_abi:
  assumes "evaluate lib policy registry c w rq now t = (Inr (Allow d p), t')"
    and "counters_nonneg t" "map_of (p_native_transfers policy) p = None"
  shows "\<exists>t''. release_rate_after_failure policy (Allow d p) c w rq now t' = (Inr (), t'') \<and>
    same_rates t t''"
  using assms by (rule release_restores)

definition sample_abi_policy :: policy where
  "sample_abi_policy = sample_policy\<lparr>p_native_transfers := [],
     p_permissions := [(''faucet'', \<lparr>pb_contracts = [(''0xBB'', \<lparr>cr_abi = ''erc20'', cr_chains = [14],
        cr_methods = [(''transfer(address,uint256[])'', \<lparr>mr_max_value_wei = ''9'',
          mr_arg_predicates = [(''to'', PStr ''any'')], mr_allow_unconstrained_args = True\<rparr>)]\<rparr>)],
        pb_wallet_allowlist = [''hot''], pb_rate = Some \<lparr>per_hour = Some 2, per_day = None\<rparr>\<rparr>)]\<rparr>"

definition sample_abi_request :: sign_request where
  "sample_abi_request = sample_request\<lparr>rq_data := ''0xa9059cbb''\<rparr>"

definition sample_registry :: abi_registry where
  "sample_registry = [(''erc20'', [(''0xa9059cbb'',
     \<lparr>am_method_signature = ''transfer(address,uint256[])'',
      am_canonical_input_types = [''address'', ''uint256[]''], am_abi_fn_entry = sample_transfer\<rparr>)])]"

definition sample_intent :: decoded_intent where
  "sample_intent = \<lparr>di_contract = ''0xbb'', di_method_signature = ''transfer(address,uint256[])'',
     di_selector = ''0xa9059cbb'', di_args = [(''to'', VStr ''0xab'')]\<rparr>"

definition sample_abi_rates :: rate_db where
  "sample_abi_rates = wbk_inc ''hot'' ''day'' 0
     (rb_inc (''clif'', ''hot'', ''0xbb'', ''transfer(address,uint256[])'') ''hour'' 0 empty_rates)"

lemma sample_abi_contract:
  "contract_stage sample_lib sample_registry (snd (hd (p_permissions sample_abi_policy))) sample_abi_request =
     Inr (Go (sample_intent, 7))"
proof -
  have hex: "bytes_fromhex ''a9059cbb'' = Some [0xa9, 0x05, 0x9c, 0xbb]" by code_simp
  have bh: "bytes_hex [0xa9, 0x05, 0x9c, 0xbb] = ''a9059cbb''" by code_simp
  have st: "strip_0x ''0xa9059cbb'' = ''a9059cbb''" by code_simp
  have low: "py_lower ''0xa9059cbb'' = ''0xa9059cbb''" by code_simp
  have sig: "canonical_signature sample_transfer = Some ''transfer(address,uint256[])''" by code_simp
  have dec: "decode_intent sample_selector4 sample_abi_decode ''0xbb'' [0xa9, 0x05, 0x9c, 0xbb] sample_transfer =
      Some sample_intent"
    using address_scalar bh sig
    by (simp add: decode_intent_def selector_of_def sample_selector4_def sample_abi_decode_def
        sample_transfer_def input_name_def normalize_value_def starts_with_def Let_def sample_intent_def)
  have ns: "has_nonscalar_args sample_transfer = Inr True"
    using address_scalar
    by (simp add: has_nonscalar_args_def sample_transfer_def starts_with_def)
  let ?mr = "\<lparr>mr_max_value_wei = ''9'', mr_arg_predicates = [(''to'', PStr ''any'')],
     mr_allow_unconstrained_args = True\<rparr>"
  let ?cr = "\<lparr>cr_abi = ''erc20'', cr_chains = [14],
     cr_methods = [(''transfer(address,uint256[])'', ?mr)]\<rparr>"
  have lk: "registry_lookup sample_registry ''erc20'' ''0xa9059cbb'' =
     Some \<lparr>am_method_signature = ''transfer(address,uint256[])'',
      am_canonical_input_types = [''address'', ''uint256[]''], am_abi_fn_entry = sample_transfer\<rparr>"
    using low by (simp add: registry_lookup_def sample_registry_def)
  have rq: "rq_data sample_abi_request = ''0xa9059cbb''" "rq_to sample_abi_request = ''0xbb''"
    "rq_chain sample_abi_request = 14"
    by (simp_all add: sample_abi_request_def sample_request_def)
  have ds: "decode_stage sample_lib sample_registry ?cr sample_abi_request = Go (sample_intent, sample_transfer)"
    by (simp add: decode_stage_def rq st hex bh lk dec sample_lib_def Let_def del: bytes_fromhex.simps)
  have vs: "value_stage ''9'' sample_abi_request = Go 7"
    by (simp add: value_stage_def sample_abi_request_def sample_request_def)
  have ms: "method_stage perm ?cr sample_abi_request sample_intent sample_transfer = Inr (Go 7)"
    if "pb_wallet_allowlist perm = [''hot'']" for perm
    using that by (simp add: method_stage_def ns vs, simp add: sample_intent_def vs,
        simp add: sample_abi_request_def sample_request_def)
  show ?thesis
    by (simp add: contract_stage_def find_contract_def sample_abi_policy_def rq ds ms)
qed

lemma sample_abi_evaluate:
  "evaluate sample_lib sample_abi_policy sample_registry sample_caller sample_wallet sample_abi_request 7
     empty_rates = (Inr (Allow sample_intent ''faucet''), sample_abi_rates)"
proof -
  obtain perm where perm: "map_of (p_permissions sample_abi_policy) ''faucet'' = Some perm"
    "perm = snd (hd (p_permissions sample_abi_policy))"
    by (simp add: sample_abi_policy_def)
  have st: "strip_0x ''0xa9059cbb'' = ''a9059cbb''" by code_simp
  have rate: "pb_rate perm = Some \<lparr>per_hour = Some 2, per_day = None\<rparr>"
    by (simp add: perm(2) sample_abi_policy_def)
  have "evaluate_abi sample_lib sample_abi_policy sample_registry ''faucet'' sample_caller sample_wallet
      sample_abi_request 7 empty_rates = (Inr (Allow sample_intent ''faucet''), sample_abi_rates)"
    using sample_abi_contract
    by (simp add: evaluate_abi_def perm bindM_run rates_stage_def rate [unfolded perm(2)])
      (simp add: sample_abi_policy_def sample_policy_def sample_caller_def sample_wallet_def
        sample_abi_request_def sample_request_def bindM_run sample_intent_def
        thenM_def check_and_increment_caller_def check_and_increment_wallet_def aggregate_allows_def
        rate_windows_def Let_def floor_window_def window_width_def hour_us_def day_us_def
        sample_abi_rates_def wbk_count_def rb_inc_def empty_rates_def rb_count_def)
  then show ?thesis
    by (simp add: evaluate_def evaluate_inner_def catchM_def)
      (simp add: sample_abi_policy_def sample_policy_def sample_caller_def sample_abi_request_def st)
qed

lemma release_restores_abi_witness:
  "\<exists>t''. release_rate_after_failure sample_abi_policy (Allow sample_intent ''faucet'') sample_caller
      sample_wallet sample_abi_request 7 sample_abi_rates = (Inr (), t'') \<and> same_rates empty_rates t''"
  by (rule release_restores_abi [OF sample_abi_evaluate]) (simp_all add: sample_abi_policy_def)

text \<open>An allowed native transfer that fails before it is signed does not give its units back:
  when the path has no permissions block, \<open>release_rate_after_failure\<close> changes nothing, so the
  caller's and the wallet's windows stay one unit up although nothing was signed.\<close>

theorem release_skips_native:
  assumes "evaluate lib policy registry c w rq now t = (Inr (Allow d p), t')"
    and "counters_nonneg t" "map_of (p_native_transfers policy) p = Some rule"
    and "map_of (p_permissions policy) p = None"
  shows "release_rate_after_failure policy (Allow d p) c w rq now t' = (Inr (), t') \<and>
    (\<forall>r wk cap. nb_rate rule = Some r \<longrightarrow> (wk, cap) \<in> set (rate_windows r) \<longrightarrow>
       (let k = (c_name c, rq_wallet rq, py_lower (rq_to rq), nt_method); ws = floor_window wk now
        in rb_count k t' wk ws = rb_count k t wk ws + 1))"
proof -
  let ?k = "(c_name c, rq_wallet rq, py_lower (rq_to rq), nt_method)"
  from evaluate_Allow [OF assms(1,2)] have p: "p = c_policy_path c"
    and eff: "allowed_effect lib registry policy c w rq now t d t'" by simp_all
  from eff obtain wb con v rate where rc: "rule_checks lib registry policy (c_policy_path c) rq d v rate"
    and wb: "map_of (p_wallets policy) (w_name w) = Some wb"
      "map_of (p_wallet_constraints policy) (wbd_policy_path wb) = Some con"
    and tk: "rates_taken (c_name c, rq_wallet rq, py_lower (rq_to rq), di_method_signature d)
      rate (w_name w) (wc_rate con) now t t'"
    by (elim allowed_effectE) (rule that)
  from rc assms(3) p have d: "d = native_intent rq v" and "rate = nb_rate rule"
    by (simp_all add: rule_checks_def)
  with tk have taken: "rates_taken (c_name c, rq_wallet rq, py_lower (rq_to rq), di_method_signature d)
      (nb_rate rule) (w_name w) (wc_rate con) now t t'" by simp
  have ntm: "di_method_signature d = nt_method" by (simp add: d native_intent_def)
  have "rb_count ?k t' wk (floor_window wk now) = rb_count ?k t wk (floor_window wk now) + 1"
    if "nb_rate rule = Some r" "(wk, cap) \<in> set (rate_windows r)" for r wk cap
  proof -
    have "hits r now wk (floor_window wk now)" using that(2) by (force simp: hits_def)
    then show ?thesis
      using that(1) rates_takenD(1) [OF taken, of ?k wk "floor_window wk now"] by (simp add: ntm)
  qed
  moreover have "release_rate_after_failure policy (Allow d p) c w rq now t' = (Inr (), t')"
    by (simp add: release_rate_after_failure_def assms(4))
  ultimately show ?thesis by (simp add: Let_def)
qed

lemma release_skips_native_witness:
  "release_rate_after_failure sample_policy (Allow (native_intent sample_request 7) ''faucet'') sample_caller
     sample_wallet sample_request 7 sample_rates_after = (Inr (), sample_rates_after) \<and>
   rb_count (''clif'', ''hot'', ''0xbb'', nt_method) sample_rates_after ''hour'' 0 =
     rb_count (''clif'', ''hot'', ''0xbb'', nt_method) empty_rates ''hour'' 0 + 1"
proof -
  let ?rule = "\<lparr>nb_chains = [14], nb_recipient_allowlist = [''0xBB''], nb_max_value_wei = ''9'',
     nb_wallet_allowlist = [''hot''], nb_rate = Some \<lparr>per_hour = Some 2, per_day = None\<rparr>\<rparr>"
  have nt: "map_of (p_native_transfers sample_policy) ''faucet'' = Some ?rule"
    and np: "map_of (p_permissions sample_policy) ''faucet'' = None"
    by (simp_all add: sample_policy_def)
  from release_skips_native [OF sample_evaluate counters_nonneg_empty nt np] show ?thesis
    by (simp add: rate_windows_def sample_caller_def sample_request_def Let_def floor_window_def
        window_width_def hour_us_def)
qed

text \<open>An exception in step 9 is answered with a denial at step 0 that keeps the unit step 8 took:
  when the wallet's aggregate cap is not a decimal number, an otherwise allowed contract call is
  denied, yet every window of the caller's bucket has gone up by one.\<close>

theorem evaluation_error_leaks:
  assumes "map_of (p_callers policy) (c_name c) = Some b" "cb_policy_path b = c_policy_path c"
    and "map_of (p_native_transfers policy) (c_policy_path c) = None" "strip_0x (rq_data rq) \<noteq> []"
    and "map_of (p_permissions policy) (c_policy_path c) = Some perm"
    and "contract_stage lib registry perm rq = Inr (Go (d, v))"
    and "pb_rate perm = Some r"
    and "below_caps r now (rb_count (c_name c, rq_wallet rq, py_lower (rq_to rq), di_method_signature d) t)"
    and "map_of (p_wallets policy) (w_name w) = Some wb"
    and "map_of (p_wallet_constraints policy) (wbd_policy_path wb) = Some con"
    and "wc_max_aggregate_value_wei_per_day con = Some cap" "py_int cap = None"
  shows "\<exists>why t'. evaluate lib policy registry c w rq now t = (Inr (Deny 0 why), t') \<and>
    (\<forall>wk ws. rb_count (c_name c, rq_wallet rq, py_lower (rq_to rq), di_method_signature d) t' wk ws =
       rb_count (c_name c, rq_wallet rq, py_lower (rq_to rq), di_method_signature d) t wk ws +
       (if hits r now wk ws then 1 else 0))"
proof -
  let ?k = "(c_name c, rq_wallet rq, py_lower (rq_to rq), di_method_signature d)"
  obtain u where u: "limiter (rb_count ?k) (rb_inc ?k) r now t = (Inr True, u)"
    and cnt: "\<And>j wk ws. rb_count j u wk ws = rb_count j t wk ws + (if j = ?k \<and> hits r now wk ws then 1 else 0)"
    using assms(8) by (cases rule: rb.limiter_cases [of r now ?k t]) auto
  obtain e where e: "check_and_increment_wallet (w_name w) (Some con) v now u = (Inl e, u)"
    using assms(11,12)
    by (simp add: check_and_increment_wallet_def aggregate_allows_def parse_wei_def bindM_run)
  have "evaluate_abi lib policy registry (c_policy_path c) c w rq now t = (Inl e, u)"
    using assms u e
    by (simp add: evaluate_abi_def rates_stage_def check_caller_limiter bindM_run Let_def)
  then have "evaluate lib policy registry c w rq now t = (Inr (Deny 0 (''evaluation error: '' @ exn_text e)), u)"
    using assms(1-4) by (simp add: evaluate_def evaluate_inner_def catchM_def Let_def)
  with cnt show ?thesis by auto
qed

definition sample_broken_policy :: policy where
  "sample_broken_policy = sample_abi_policy\<lparr>p_wallet_constraints :=
     [(''hot'', \<lparr>wc_max_aggregate_value_wei_per_day = Some ''x'', wc_rate = None\<rparr>)]\<rparr>"

lemma evaluation_error_leaks_witness:
  "\<exists>why t'. evaluate sample_lib sample_broken_policy sample_registry sample_caller sample_wallet
      sample_abi_request 7 empty_rates = (Inr (Deny 0 why), t') \<and>
    (\<forall>wk ws. rb_count (''clif'', ''hot'', ''0xbb'', ''transfer(address,uint256[])'') t' wk ws =
       0 + (if hits \<lparr>per_hour = Some 2, per_day = None\<rparr> 7 wk ws then 1 else 0))"
proof -
  let ?b = "\<lparr>cb_policy_path = ''faucet'', cb_capability_id = None\<rparr>"
  let ?wb = "\<lparr>wbd_policy_path = ''hot''\<rparr>"
  let ?con = "\<lparr>wc_max_aggregate_value_wei_per_day = Some ''x'', wc_rate = None\<rparr>"
  let ?r = "\<lparr>per_hour = Some 2, per_day = None\<rparr>"
  let ?perm = "snd (hd (p_permissions sample_abi_policy))"
  have bound: "map_of (p_callers sample_broken_policy) (c_name sample_caller) = Some ?b"
    "cb_policy_path ?b = c_policy_path sample_caller"
    "map_of (p_native_transfers sample_broken_policy) (c_policy_path sample_caller) = None"
    "map_of (p_permissions sample_broken_policy) (c_policy_path sample_caller) = Some ?perm"
    "map_of (p_wallets sample_broken_policy) (w_name sample_wallet) = Some ?wb"
    "map_of (p_wallet_constraints sample_broken_policy) (wbd_policy_path ?wb) = Some ?con"
    "pb_rate ?perm = Some ?r"
    by (simp_all add: sample_broken_policy_def sample_abi_policy_def sample_policy_def
        sample_caller_def sample_wallet_def)
  have st: "strip_0x (rq_data sample_abi_request) \<noteq> []" by code_simp
  have bad: "wc_max_aggregate_value_wei_per_day ?con = Some ''x''" "py_int ''x'' = None"
    by (simp, code_simp)
  have room: "below_caps ?r 7 (rb_count (c_name sample_caller, rq_wallet sample_abi_request,
      py_lower (rq_to sample_abi_request), di_method_signature sample_intent) empty_rates)"
    by (simp add: below_caps_def rate_windows_def rb_count_def empty_rates_def)
  show ?thesis
    using evaluation_error_leaks [OF bound(1-3) st bound(4) sample_abi_contract bound(7) room
        bound(5,6) bad]
    by (simp add: sample_caller_def sample_abi_request_def sample_request_def sample_intent_def
        rb_count_def empty_rates_def)
qed

end
