(* ===== verification/Nonce_Repo.thy ===== *)
theory Nonce_Repo
  imports Fwd_Prelude
begin

section \<open>The nonce repository (\<open>infra/nonce_repo.py\<close>)\<close>

text \<open>
  One row per (wallet, chain): the next nonce to hand out, the highest confirmed nonce and the
  time of the last reconciliation.  SQLite's 64-bit range is not modelled: nonces are integers.
  The interface \<open>nonce_ledger\<close> states what reserving and releasing promise; that no two
  outstanding reservations of one (wallet, chain) share a nonce is proved once against it and
  interpreted on the repository.
\<close>

record nonce_row =
  next_nonce :: int
  last_confirmed :: "int option"
  last_reconciled_at :: datetime

type_synonym nonce_db = "(string \<times> int, nonce_row) table"

text \<open>\<open>Nonce\<close>: a row with its key.\<close>

type_synonym nonce = "(string \<times> int) \<times> nonce_row"

subsection \<open>Operations\<close>

text \<open>
  \<open>INSERT .. ON CONFLICT (DO UPDATE | DO NOTHING)\<close>.  The foreign key on \<open>wallets\<close> is
  checked only when a row is inserted; \<open>wallet_exists\<close> is its outcome.
\<close>

definition init_for_wallet ::
  "bool \<Rightarrow> datetime \<Rightarrow> string \<Rightarrow> int \<Rightarrow> int \<Rightarrow> bool \<Rightarrow> (nonce_db, nonce) op" where
  "init_for_wallet wallet_exists now wallet chain starting_nonce force = (\<lambda>t.
     let fresh = \<lparr>next_nonce = starting_nonce, last_confirmed = None, last_reconciled_at = now\<rparr> in
     case map_of t (wallet, chain) of
       None \<Rightarrow>
         if wallet_exists then (Inr ((wallet, chain), fresh), AList.update (wallet, chain) fresh t)
         else (Inl (NonceWalletNotFoundError wallet), t)
     | Some row \<Rightarrow>
         if force then (Inr ((wallet, chain), fresh), AList.update (wallet, chain) fresh t)
         else (Inr ((wallet, chain), row), t))"

definition reserve_next :: "string \<Rightarrow> int \<Rightarrow> (nonce_db, int) op" where
  "reserve_next wallet chain =
     bindM (getM (\<lambda>t. map_of t (wallet, chain))) (\<lambda>row.
     case row of
       None \<Rightarrow> raise NonceNotInitializedError
     | Some r \<Rightarrow>
         (let current = next_nonce r in
          thenM (modifyM (tbl_update_where (wallet, chain) (next_nonce_update (\<lambda>_. current + 1))))
            (ret current)))"

definition release_if_unused :: "string \<Rightarrow> int \<Rightarrow> int \<Rightarrow> (nonce_db, bool) op" where
  "release_if_unused wallet chain reserved = (\<lambda>t.
     case map_of t (wallet, chain) of
       None \<Rightarrow> (Inr False, t)
     | Some r \<Rightarrow>
         if next_nonce r - 1 = reserved
         then (Inr True, tbl_update_where (wallet, chain) (next_nonce_update (\<lambda>n. n - 1)) t)
         else (Inr False, t))"

definition mark_confirmed :: "string \<Rightarrow> int \<Rightarrow> int \<Rightarrow> (nonce_db, unit) op" where
  "mark_confirmed wallet chain confirmed_nonce =
     modifyM (tbl_update_where (wallet, chain) (\<lambda>r. r\<lparr>last_confirmed :=
       (case last_confirmed r of
          None \<Rightarrow> Some confirmed_nonce
        | Some c \<Rightarrow> if c < confirmed_nonce then Some confirmed_nonce else Some c)\<rparr>))"

definition get_nonce :: "string \<Rightarrow> int \<Rightarrow> bool \<Rightarrow> (nonce_db, nonce option) op" where
  "get_nonce wallet chain missing_ok =
     bindM (getM (\<lambda>t. map_of t (wallet, chain))) (\<lambda>row.
     case row of
       None \<Rightarrow> if missing_ok then ret None else raise NonceNotInitializedError
     | Some r \<Rightarrow> ret (Some ((wallet, chain), r)))"

definition set_next_nonce :: "string \<Rightarrow> int \<Rightarrow> int \<Rightarrow> (nonce_db, unit) op" where
  "set_next_nonce wallet chain v =
     modifyM (tbl_update_where (wallet, chain)
       (\<lambda>r. r\<lparr>next_nonce := v, last_confirmed := Some (v - 1)\<rparr>))"

definition list_all_nonces :: "(nonce_db, nonce list) op" where
  "list_all_nonces = getM (\<lambda>t. t)"

subsection \<open>The ledger interface\<close>

text \<open>A sequence of reservations and releases, with the reservations still outstanding.  As in
  the use cases, only an outstanding reservation is released.\<close>

datatype 'k ledger_cmd = Reserve 'k | Release 'k int

fun ledger_run ::
  "('k \<Rightarrow> ('s, int) op) \<Rightarrow> ('k \<Rightarrow> int \<Rightarrow> ('s, bool) op) \<Rightarrow> 'k ledger_cmd list \<Rightarrow> 's \<Rightarrow>
   ('k \<times> int) list \<Rightarrow> 's \<times> ('k \<times> int) list" where
  "ledger_run rsv rel [] s out = (s, out)"
| "ledger_run rsv rel (Reserve k # cs) s out =
     (case rsv k s of
        (Inl e, t) \<Rightarrow> ledger_run rsv rel cs t out
      | (Inr n, t) \<Rightarrow> ledger_run rsv rel cs t ((k, n) # out))"
| "ledger_run rsv rel (Release k n # cs) s out =
     (if (k, n) \<in> set out
      then ledger_run rsv rel cs (snd (rel k n s)) (remove1 (k, n) out)
      else ledger_run rsv rel cs s out)"

definition outstanding_ok :: "('k \<Rightarrow> int option) \<Rightarrow> ('k \<times> int) list \<Rightarrow> bool" where
  "outstanding_ok nxt out \<longleftrightarrow>
     distinct out \<and> list_all (\<lambda>(k, n). case nxt k of None \<Rightarrow> False | Some m \<Rightarrow> n < m) out"

lemma outstanding_okD:
  "outstanding_ok nxt out \<Longrightarrow> (k, n) \<in> set out \<Longrightarrow> \<exists>m. nxt k = Some m \<and> n < m"
  by (force simp: outstanding_ok_def list_all_iff split: option.splits)

lemma outstanding_okI:
  "distinct out \<Longrightarrow> (\<And>k n. (k, n) \<in> set out \<Longrightarrow> \<exists>m. nxt k = Some m \<and> n < m) \<Longrightarrow>
   outstanding_ok nxt out"
  by (fastforce simp: outstanding_ok_def list_all_iff)

lemma outstanding_ok_distinct: "outstanding_ok nxt out \<Longrightarrow> distinct out"
  by (simp add: outstanding_ok_def)

locale nonce_ledger =
  fixes nxt :: "'s \<Rightarrow> 'k \<Rightarrow> int option"
    and reserve :: "'k \<Rightarrow> ('s, int) op"
    and release :: "'k \<Rightarrow> int \<Rightarrow> ('s, bool) op"
  assumes reserve_none: "nxt s k = None \<Longrightarrow> reserve k s = (Inl NonceNotInitializedError, s)"
    and reserve_some: "nxt s k = Some n \<Longrightarrow>
      \<exists>t. reserve k s = (Inr n, t) \<and> nxt t = (nxt s)(k := Some (n + 1))"
    and release_law: "\<exists>t. release k n s = (Inr (nxt s k = Some (n + 1)), t) \<and>
      nxt t = (if nxt s k = Some (n + 1) then (nxt s)(k := Some n) else nxt s)"
begin

lemma reserve_release:
  assumes "reserve k s = (Inr n, t)"
  shows "\<exists>u. release k n t = (Inr True, u) \<and> nxt u = nxt s"
proof -
  have n: "nxt s k = Some n" "nxt t = (nxt s)(k := Some (n + 1))"
    using assms reserve_none [of s k] reserve_some [of s k] by (cases "nxt s k"; force)+
  obtain u where "release k n t = (Inr (nxt t k = Some (n + 1)), u)"
    "nxt u = (if nxt t k = Some (n + 1) then (nxt t)(k := Some n) else nxt t)"
    using release_law [of k n t] by blast
  with n show ?thesis by (auto simp: fun_eq_iff)
qed

text \<open>A later reservation of the same key keeps an earlier one from being handed out again.\<close>

lemma late_release_keeps:
  assumes "nxt s k = Some m" "n + 1 < m"
  shows "\<exists>t. release k n s = (Inr False, t) \<and> nxt t = nxt s"
  using release_law [of k n s] assms by auto

lemma reserve_ok:
  assumes "reserve k s = (Inr n, t)" "outstanding_ok (nxt s) out"
  shows "outstanding_ok (nxt t) ((k, n) # out)"
proof -
  have n: "nxt s k = Some n" "nxt t = (nxt s)(k := Some (n + 1))"
    using assms(1) reserve_none [of s k] reserve_some [of s k] by (cases "nxt s k"; force)+
  have "(k, n) \<notin> set out" using outstanding_okD [OF assms(2), of k n] n by auto
  moreover have "\<exists>m. nxt t k' = Some m \<and> n' < m" if "(k', n') \<in> set out" for k' n'
    using outstanding_okD [OF assms(2) that] n by auto
  ultimately show ?thesis
    using n outstanding_ok_distinct [OF assms(2)]
    by (intro outstanding_okI) (auto simp del: fun_upd_apply, force)
qed

lemma reserve_cases:
  obtains (missing) "nxt s k = None" "reserve k s = (Inl NonceNotInitializedError, s)"
  | (reserved) n t where "nxt s k = Some n" "reserve k s = (Inr n, t)" "nxt t = (nxt s)(k := Some (n + 1))"
  using reserve_none reserve_some by (cases "nxt s k") blast+

lemma release_ok:
  assumes "(k, n) \<in> set out" "outstanding_ok (nxt s) out"
  shows "outstanding_ok (nxt (snd (release k n s))) (remove1 (k, n) out)"
proof (rule outstanding_okI)
  show "distinct (remove1 (k, n) out)"
    using outstanding_ok_distinct [OF assms(2)] by (rule distinct_remove1)
  fix k' n'
  assume "(k', n') \<in> set (remove1 (k, n) out)"
  then have m: "(k', n') \<in> set out" "(k', n') \<noteq> (k, n)"
    using outstanding_ok_distinct [OF assms(2)] by auto
  show "\<exists>m. nxt (snd (release k n s)) k' = Some m \<and> n' < m"
    using release_law [of k n s] outstanding_okD [OF assms(2) m(1)] m(2)
    by (cases "k' = k") auto
qed

lemma run_ok:
  "outstanding_ok (nxt s) out \<Longrightarrow> ledger_run reserve release cs s out = (t, out') \<Longrightarrow>
   outstanding_ok (nxt t) out'"
proof (induction cs arbitrary: s out)
  case (Cons c cs)
  show ?case
  proof (cases c)
    case (Reserve k)
    show ?thesis
    proof (cases rule: reserve_cases [of s k])
      case missing
      with Cons Reserve show ?thesis by simp
    next
      case (reserved n u)
      with Cons.prems Reserve have "ledger_run reserve release cs u ((k, n) # out) = (t, out')" by simp
      then show ?thesis
        using reserve_ok [OF reserved(2) Cons.prems(1)] Cons.IH by blast
    qed
  next
    case (Release k n)
    show ?thesis
    proof (cases "(k, n) \<in> set out")
      case True
      with Cons.prems Release
      have "ledger_run reserve release cs (snd (release k n s)) (remove1 (k, n) out) = (t, out')" by simp
      then show ?thesis
        using release_ok [OF True Cons.prems(1)] Cons.IH by blast
    qed (use Cons Release in simp)
  qed
qed simp

end

subsection \<open>The repository is a ledger\<close>

definition nonce_next :: "nonce_db \<Rightarrow> string \<times> int \<Rightarrow> int option" where
  "nonce_next t k = map_option next_nonce (map_of t k)"

definition reserve_key :: "string \<times> int \<Rightarrow> (nonce_db, int) op" where
  "reserve_key = (\<lambda>(w, c). reserve_next w c)"

definition release_key :: "string \<times> int \<Rightarrow> int \<Rightarrow> (nonce_db, bool) op" where
  "release_key = (\<lambda>(w, c) n. release_if_unused w c n)"

interpretation nl: nonce_ledger nonce_next reserve_key release_key
  by unfold_locales
    (auto simp: nonce_next_def reserve_key_def release_key_def reserve_next_def release_if_unused_def
      Let_def table_simps fun_eq_iff thenM_def bindM_run split: option.splits)

lemma reserve_next_run:
  "reserve_next w c t = (case map_of t (w, c) of
     None \<Rightarrow> (Inl NonceNotInitializedError, t)
   | Some r \<Rightarrow> (Inr (next_nonce r),
       tbl_update_where (w, c) (next_nonce_update (\<lambda>_. next_nonce r + 1)) t))"
  by (simp add: reserve_next_def bindM_run thenM_def Let_def split: option.splits)

lemma update_where_twice:
  "tbl_update_where k f (tbl_update_where k g t) = tbl_update_where k (f \<circ> g) t"
  by (induction t) auto

lemma update_where_id:
  "(\<And>r. map_of t k = Some r \<Longrightarrow> f r = r) \<Longrightarrow> tbl_update_where k f t = t"
  by (induction t) auto

subsection \<open>Properties\<close>

text \<open>Nonces are never handed out twice: after any sequence of reservations and releases, in
  any order and over any number of (wallet, chain) pairs, the outstanding reservations are pairwise
  distinct and each lies below the next nonce of its pair.\<close>

theorem outstanding_nonces_distinct:
  "case ledger_run reserve_key release_key cs t [] of (t', out) \<Rightarrow>
     distinct out \<and> list_all (\<lambda>(k, n). case nonce_next t' k of None \<Rightarrow> False | Some m \<Rightarrow> n < m) out"
proof -
  obtain t' out where r: "ledger_run reserve_key release_key cs t [] = (t', out)" by fastforce
  have "outstanding_ok (nonce_next t) []" by (simp add: outstanding_ok_def)
  with nl.run_ok r have "outstanding_ok (nonce_next t') out" by blast
  with r show ?thesis by (simp add: outstanding_ok_def)
qed

text \<open>Releasing the nonce just reserved restores the table exactly, and once a later
  reservation has been made the release answers \<open>False\<close> and leaves the table alone.\<close>

theorem reserve_release_roundtrip:
  assumes "reserve_next w c t = (Inr n, t')"
  shows "release_if_unused w c n t' = (Inr True, t) \<and>
     (\<exists>t''. reserve_next w c t' = (Inr (n + 1), t'') \<and>
        release_if_unused w c n t'' = (Inr False, t''))"
proof -
  from assms obtain r where r: "map_of t (w, c) = Some r" "n = next_nonce r"
    and t': "t' = tbl_update_where (w, c) (next_nonce_update (\<lambda>_. next_nonce r + 1)) t"
    by (auto simp: reserve_next_run split: option.splits)
  have "tbl_update_where (w, c) (next_nonce_update (\<lambda>n. n - 1) \<circ>
          next_nonce_update (\<lambda>_. next_nonce r + 1)) t = t"
    using r by (intro update_where_id) auto
  with r show ?thesis
    by (simp add: t' release_if_unused_def reserve_next_run table_simps update_where_twice)
qed

lemma reserve_release_roundtrip_witness:
  "release_if_unused ''w'' 14 7
      [((''w'', 14), \<lparr>next_nonce = 8, last_confirmed = None, last_reconciled_at = 0\<rparr>)] =
     (Inr True, [((''w'', 14), \<lparr>next_nonce = 7, last_confirmed = None, last_reconciled_at = 0\<rparr>)]) \<and>
   (\<exists>t''. reserve_next ''w'' 14
        [((''w'', 14), \<lparr>next_nonce = 8, last_confirmed = None, last_reconciled_at = 0\<rparr>)] =
          (Inr (7 + 1), t'') \<and>
      release_if_unused ''w'' 14 7 t'' = (Inr False, t''))"
  by (rule reserve_release_roundtrip) (simp add: reserve_next_run)

text \<open>Reporting a confirmed nonce raises the confirmed mark to the maximum of what was known
  and what is reported, touches no other field or row, and reports commute.\<close>

theorem mark_confirmed_is_max:
  "\<exists>t'. mark_confirmed w c n t = (Inr (), t') \<and>
     (\<forall>k. map_of t' k = (if k = (w, c)
        then map_option (\<lambda>r. r\<lparr>last_confirmed :=
               Some (case last_confirmed r of None \<Rightarrow> n | Some m \<Rightarrow> max m n)\<rparr>) (map_of t k)
        else map_of t k)) \<and>
     (\<forall>m. snd (mark_confirmed w c m t') = snd (mark_confirmed w c n (snd (mark_confirmed w c m t))))"
proof -
  let ?f = "\<lambda>n (r :: nonce_row). r\<lparr>last_confirmed := Some (case last_confirmed r of None \<Rightarrow> n | Some m \<Rightarrow> max m n)\<rparr>"
  have *: "mark_confirmed w c n = modifyM (tbl_update_where (w, c) (?f n))" for n
    by (auto simp: mark_confirmed_def max_def fun_eq_iff split: option.splits
        intro!: arg_cong [where f = "\<lambda>f. tbl_update_where (w, c) f t" for t])
  have "?f m \<circ> ?f n = ?f n \<circ> ?f m" for m
    by (auto simp: fun_eq_iff max.commute max.left_commute split: option.splits)
  then have "tbl_update_where (w, c) (?f m \<circ> ?f n) t = tbl_update_where (w, c) (?f n \<circ> ?f m) t" for m
    by (simp only:)
  then show ?thesis
    by (simp add: * table_simps update_where_twice del: o_apply)
qed

text \<open>Initialising is idempotent and never overwrites: an existing row is returned and kept
  unless \<open>force\<close> is given; otherwise the row becomes exactly the fresh one; for an unknown wallet
  it raises and the table is unchanged.\<close>

theorem init_for_wallet_spec:
  "(case init_for_wallet ex now w c n force t of (res, t') \<Rightarrow>
      (case map_of t (w, c) of
         Some row \<Rightarrow> if \<not> force then res = Inr ((w, c), row) \<and> t' = t
           else res = Inr ((w, c), \<lparr>next_nonce = n, last_confirmed = None, last_reconciled_at = now\<rparr>) \<and>
                map_of t' = (map_of t)((w, c) \<mapsto>
                  \<lparr>next_nonce = n, last_confirmed = None, last_reconciled_at = now\<rparr>)
       | None \<Rightarrow> if ex
           then res = Inr ((w, c), \<lparr>next_nonce = n, last_confirmed = None, last_reconciled_at = now\<rparr>) \<and>
                map_of t' = (map_of t)((w, c) \<mapsto>
                  \<lparr>next_nonce = n, last_confirmed = None, last_reconciled_at = now\<rparr>)
           else res = Inl (NonceWalletNotFoundError w) \<and> t' = t) \<and>
      init_for_wallet ex later w c m False t' =
        (if map_of t' (w, c) = None then (Inl (NonceWalletNotFoundError w), t')
         else (Inr ((w, c), the (map_of t' (w, c))), t')))"
  by (auto simp: init_for_wallet_def Let_def table_simps split: option.splits)

end
