(* ===== verification/Py_Json.thy ===== *)
theory Py_Json
  imports Fwd_Prelude
begin

section \<open>Canonical JSON (\<open>_canonical_json\<close>) and \<open>json.loads\<close>\<close>

text \<open>
  The daemon writes \<open>json.dumps(obj, sort_keys=True, separators=(",", ":"), ensure_ascii=False)\<close>
  into the audit chain, the idempotency comparison and the stored request, and reads the stored
  request back with \<open>json.loads\<close>.  A Python string is represented by its UTF-8 bytes, so an
  unescaped non-ASCII character passes through byte by byte.  A float keeps its source text.
  The main result is that \<open>json.loads\<close> reads back what \<open>_canonical_json\<close> writes, hence that
  the canonical form is injective.
\<close>

datatype json =
    JNull
  | JBool bool
  | JInt int
  | JFloat string
  | JStr string
  | JList "json list"
  | JObj "(string \<times> json) list"

subsection \<open>Writing\<close>

definition json_escape_char :: "char \<Rightarrow> string" where
  "json_escape_char c =
     (if c = CHR 0x22 then [CHR 0x5C, CHR 0x22]
      else if c = CHR 0x5C then [CHR 0x5C, CHR 0x5C]
      else if c = CHR 0x0A then [CHR 0x5C, CHR ''n'']
      else if c = CHR 0x0D then [CHR 0x5C, CHR ''r'']
      else if c = CHR 0x09 then [CHR 0x5C, CHR ''t'']
      else if c = CHR 0x0C then [CHR 0x5C, CHR ''f'']
      else if c = CHR 0x08 then [CHR 0x5C, CHR ''b'']
      else if char_code c < 32
        then [CHR 0x5C, CHR ''u'', CHR ''0'', CHR ''0'', hex_char (char_code c div 16),
              hex_char (char_code c mod 16)]
      else [c])"

definition json_string_lit :: "string \<Rightarrow> string" where
  "json_string_lit s = CHR 0x22 # concat (map json_escape_char s) @ [CHR 0x22]"

fun sep_concat :: "string list \<Rightarrow> string" where
  "sep_concat [] = []"
| "sep_concat [x] = x"
| "sep_concat (x # y # ys) = x @ CHR '','' # sep_concat (y # ys)"

fun canonical_json :: "json \<Rightarrow> string" where
  "canonical_json JNull = ''null''"
| "canonical_json (JBool b) = (if b then ''true'' else ''false'')"
| "canonical_json (JInt i) = str_int i"
| "canonical_json (JFloat s) = s"
| "canonical_json (JStr s) = json_string_lit s"
| "canonical_json (JList xs) = CHR ''['' # sep_concat (map canonical_json xs) @ [CHR '']'']"
| "canonical_json (JObj kvs) =
     CHR ''{'' # sep_concat (map (\<lambda>(k, s). json_string_lit k @ CHR '':'' # s)
       (sort_key fst (map (\<lambda>(k, v). (k, canonical_json v)) kvs))) @ [CHR ''}'']"

subsection \<open>Reading\<close>

definition is_json_ws :: "char \<Rightarrow> bool" where
  "is_json_ws c \<longleftrightarrow> c = CHR '' '' \<or> c = CHR 0x09 \<or> c = CHR 0x0A \<or> c = CHR 0x0D"

definition skip_ws :: "string \<Rightarrow> string" where
  "skip_ws s = dropWhile is_json_ws s"

definition hex4 :: "char \<Rightarrow> char \<Rightarrow> char \<Rightarrow> char \<Rightarrow> nat option" where
  "hex4 a b c d =
     (case (hex_digit a, hex_digit b, hex_digit c, hex_digit d) of
        (Some x, Some y, Some z, Some w) \<Rightarrow> Some (((x * 16 + y) * 16 + z) * 16 + w)
      | _ \<Rightarrow> None)"

definition utf8 :: "nat \<Rightarrow> string" where
  "utf8 n =
     (if n < 128 then [char_of n]
      else if n < 2048 then [char_of (192 + n div 64), char_of (128 + n mod 64)]
      else if n < 65536
        then [char_of (224 + n div 4096), char_of (128 + n div 64 mod 64), char_of (128 + n mod 64)]
      else [char_of (240 + n div 262144), char_of (128 + n div 4096 mod 64),
            char_of (128 + n div 64 mod 64), char_of (128 + n mod 64)])"

definition json_simple_escape :: "char \<Rightarrow> char option" where
  "json_simple_escape e =
     (if e = CHR 0x22 \<or> e = CHR 0x5C \<or> e = CHR ''/'' then Some e
      else if e = CHR ''b'' then Some (CHR 0x08)
      else if e = CHR ''f'' then Some (CHR 0x0C)
      else if e = CHR ''n'' then Some (CHR 0x0A)
      else if e = CHR ''r'' then Some (CHR 0x0D)
      else if e = CHR ''t'' then Some (CHR 0x09)
      else None)"

text \<open>The code point after \<open>\u\<close>; a high surrogate takes a following low one with it.\<close>

definition json_unicode :: "string \<Rightarrow> (nat \<times> string) option" where
  "json_unicode s =
     (case s of
        a # b # c # d # r \<Rightarrow>
          (case hex4 a b c d of
             None \<Rightarrow> None
           | Some u \<Rightarrow>
               if 0xD800 \<le> u \<and> u \<le> 0xDBFF then
                 (case r of
                    p # q # a' # b' # c' # d' # r' \<Rightarrow>
                      if p = CHR 0x5C \<and> q = CHR ''u'' then
                        (case hex4 a' b' c' d' of
                           None \<Rightarrow> None
                         | Some v \<Rightarrow>
                             if 0xDC00 \<le> v \<and> v \<le> 0xDFFF
                             then Some (0x10000 + (u - 0xD800) * 1024 + (v - 0xDC00), r')
                             else Some (u, r))
                      else Some (u, r)
                  | _ \<Rightarrow> Some (u, r))
               else Some (u, r))
      | _ \<Rightarrow> None)"

lemma json_unicode_shorter: "json_unicode s = Some (n, r) \<Longrightarrow> length r < length s"
  by (auto simp: json_unicode_def split: list.splits option.splits if_splits)

function json_string :: "string \<Rightarrow> (string \<times> string) option" where
  "json_string [] = None"
| "json_string (c # cs) =
     (if c = CHR 0x22 then Some ([], cs)
      else if c = CHR 0x5C then
        (case cs of
           [] \<Rightarrow> None
         | e # es \<Rightarrow>
             if e = CHR ''u'' then
               (case json_unicode es of
                  None \<Rightarrow> None
                | Some (n, r) \<Rightarrow> map_option (\<lambda>(s, t). (utf8 n @ s, t)) (json_string r))
             else
               (case json_simple_escape e of
                  None \<Rightarrow> None
                | Some x \<Rightarrow> map_option (\<lambda>(s, t). (x # s, t)) (json_string es)))
      else if char_code c < 32 then None
      else map_option (\<lambda>(s, t). (c # s, t)) (json_string cs))"
  by pat_completeness auto
termination
  by (relation "measure length") (auto dest: json_unicode_shorter)

definition take_digits :: "string \<Rightarrow> string \<times> string" where
  "take_digits s = (takeWhile is_digit s, dropWhile is_digit s)"

definition json_frac :: "string \<Rightarrow> string \<times> string" where
  "json_frac s =
     (case s of
        c # cs \<Rightarrow> if c = CHR ''.'' \<and> fst (take_digits cs) \<noteq> []
                  then (c # fst (take_digits cs), snd (take_digits cs)) else ([], s)
      | [] \<Rightarrow> ([], s))"

definition json_exp :: "string \<Rightarrow> string \<times> string" where
  "json_exp s =
     (case s of
        c # cs \<Rightarrow>
          if c = CHR ''e'' \<or> c = CHR ''E'' then
            (let (sg, ds) = (case cs of d # r \<Rightarrow> if d = CHR ''+'' \<or> d = CHR ''-'' then ([d], r) else ([], cs)
                             | [] \<Rightarrow> ([], cs))
             in if fst (take_digits ds) \<noteq> []
                then (c # sg @ fst (take_digits ds), snd (take_digits ds)) else ([], s))
          else ([], s)
      | [] \<Rightarrow> ([], s))"

definition json_number :: "string \<Rightarrow> (json \<times> string) option" where
  "json_number s =
     (let (sg, s1) = (case s of c # cs \<Rightarrow> if c = CHR ''-'' then ([c], cs) else ([], s) | [] \<Rightarrow> ([], s));
          ds = fst (take_digits s1);
          (ip, r1) = (if ds \<noteq> [] \<and> hd ds = CHR ''0'' then (''0'', tl s1) else (ds, snd (take_digits s1)));
          (fr, r2) = json_frac r1;
          (ex, r3) = json_exp r2
      in if ip = [] then None
         else if fr = [] \<and> ex = []
           then map_option (\<lambda>i. (JInt (if sg = [] then i else - i), r3)) (unsigned_int ip)
         else Some (JFloat (sg @ ip @ fr @ ex), r3))"

fun strip_prefix :: "string \<Rightarrow> string \<Rightarrow> string option" where
  "strip_prefix [] s = Some s"
| "strip_prefix (p # ps) [] = None"
| "strip_prefix (p # ps) (c # cs) = (if p = c then strip_prefix ps cs else None)"

text \<open>Numbers and the constants.\<close>

definition json_scalar :: "string \<Rightarrow> (json \<times> string) option" where
  "json_scalar s =
     (case strip_prefix ''null'' s of Some r \<Rightarrow> Some (JNull, r)
      | None \<Rightarrow> (case strip_prefix ''true'' s of Some r \<Rightarrow> Some (JBool True, r)
      | None \<Rightarrow> (case strip_prefix ''false'' s of Some r \<Rightarrow> Some (JBool False, r)
      | None \<Rightarrow> (case strip_prefix ''NaN'' s of Some r \<Rightarrow> Some (JFloat ''NaN'', r)
      | None \<Rightarrow> (case strip_prefix ''Infinity'' s of Some r \<Rightarrow> Some (JFloat ''Infinity'', r)
      | None \<Rightarrow> (case strip_prefix ''-Infinity'' s of Some r \<Rightarrow> Some (JFloat ''-Infinity'', r)
      | None \<Rightarrow> json_number s))))))"

text \<open>A Python dict from the members in order: a later value replaces an earlier one.\<close>

definition dict_of :: "(string \<times> json) list \<Rightarrow> (string \<times> json) list" where
  "dict_of kvs = foldl (\<lambda>d (k, v). AList.update k v d) [] kvs"

fun json_value :: "nat \<Rightarrow> string \<Rightarrow> (json \<times> string) option"
  and json_elems :: "nat \<Rightarrow> string \<Rightarrow> (json list \<times> string) option"
  and json_members :: "nat \<Rightarrow> string \<Rightarrow> ((string \<times> json) list \<times> string) option" where
  "json_value 0 s = None"
| "json_value (Suc n) s =
     (case s of
        [] \<Rightarrow> None
      | c # cs \<Rightarrow>
          if c = CHR 0x22 then map_option (\<lambda>(t, r). (JStr t, r)) (json_string cs)
          else if c = CHR ''['' then
            (case skip_ws cs of
               d # r \<Rightarrow> if d = CHR '']'' then Some (JList [], r)
                        else map_option (\<lambda>(xs, t). (JList xs, t)) (json_elems n (d # r))
             | [] \<Rightarrow> None)
          else if c = CHR ''{'' then
            (case skip_ws cs of
               d # r \<Rightarrow> if d = CHR ''}'' then Some (JObj [], r)
                        else map_option (\<lambda>(kvs, t). (JObj (dict_of kvs), t)) (json_members n (d # r))
             | [] \<Rightarrow> None)
          else json_scalar s)"
| "json_elems 0 s = None"
| "json_elems (Suc n) s =
     (case json_value n s of
        None \<Rightarrow> None
      | Some (v, r) \<Rightarrow>
          (case skip_ws r of
             d # t \<Rightarrow> if d = CHR '']'' then Some ([v], t)
                      else if d = CHR '','' then
                        map_option (\<lambda>(vs, u). (v # vs, u)) (json_elems n (skip_ws t))
                      else None
           | [] \<Rightarrow> None))"
| "json_members 0 s = None"
| "json_members (Suc n) s =
     (case s of
        [] \<Rightarrow> None
      | q # qs \<Rightarrow>
          if q \<noteq> CHR 0x22 then None
          else (case json_string qs of
             None \<Rightarrow> None
           | Some (k, r1) \<Rightarrow>
               (case skip_ws r1 of
                  [] \<Rightarrow> None
                | c # r2 \<Rightarrow>
                    if c \<noteq> CHR '':'' then None
                    else (case json_value n (skip_ws r2) of
                       None \<Rightarrow> None
                     | Some (v, r3) \<Rightarrow>
                         (case skip_ws r3 of
                            d # t \<Rightarrow> if d = CHR ''}'' then Some ([(k, v)], t)
                                     else if d = CHR '','' then
                                       map_option (\<lambda>(kvs, u). ((k, v) # kvs, u))
                                         (json_members n (skip_ws t))
                                     else None
                          | [] \<Rightarrow> None)))))"

text \<open>\<open>None\<close> is the \<open>ValueError\<close>.  A nested value costs two units of fuel and at least one
  character, so two units per character are enough.\<close>

definition json_loads :: "string \<Rightarrow> json option" where
  "json_loads s =
     (case json_value (2 * length s + 2) (skip_ws s) of
        None \<Rightarrow> None
      | Some (v, r) \<Rightarrow> if skip_ws r = [] then Some v else None)"

subsection \<open>Reading back what was written\<close>

text \<open>The value as \<open>json.loads\<close> returns it: members in key order.\<close>

fun jnorm :: "json \<Rightarrow> json" where
  "jnorm (JList xs) = JList (map jnorm xs)"
| "jnorm (JObj kvs) = JObj (sort_key fst (map (\<lambda>(k, v). (k, jnorm v)) kvs))"
| "jnorm j = j"

text \<open>The values the daemon writes: dicts have distinct keys, integers can be printed, no floats.\<close>

fun json_ok :: "json \<Rightarrow> bool" where
  "json_ok (JInt i) \<longleftrightarrow> length (str_nat (nat \<bar>i\<bar>)) \<le> 4300"
| "json_ok (JFloat s) \<longleftrightarrow> False"
| "json_ok (JList xs) \<longleftrightarrow> list_all json_ok xs"
| "json_ok (JObj kvs) \<longleftrightarrow> distinct (map fst kvs) \<and> list_all (\<lambda>(k, v). json_ok v) kvs"
| "json_ok j \<longleftrightarrow> True"

lemma json_string_escape:
  "json_string (json_escape_char c @ t) = map_option (\<lambda>(s, r). (c # s, r)) (json_string t)"
proof (cases "char_code c < 32 \<and> c \<notin> {CHR 0x0A, CHR 0x0D, CHR 0x09, CHR 0x0C, CHR 0x08}")
  case True
  then have lt32: "char_code c < 32" by (rule conjunct1)
  have ne: "c \<noteq> CHR 0x22" "c \<noteq> CHR 0x5C"
    using lt32 by (intro notI, simp)+
  have lt: "char_code c div 16 < 16" "char_code c mod 16 < 16" using lt32 by simp_all
  have z: "hex_digit (CHR ''0'') = Some 0" by (simp add: hex_digit_def)
  have h: "hex4 (CHR ''0'') (CHR ''0'') (hex_char (char_code c div 16)) (hex_char (char_code c mod 16)) =
      Some (char_code c)"
    unfolding hex4_def z hex_digit_hex_char [OF lt(1)] hex_digit_hex_char [OF lt(2)]
    by (simp add: div_mult_mod_eq)
  have u: "json_unicode (CHR ''0'' # CHR ''0'' # hex_char (char_code c div 16) #
      hex_char (char_code c mod 16) # t) = Some (char_code c, t)"
    using lt32 by (simp add: json_unicode_def h)
  have "json_escape_char c = [CHR 0x5C, CHR ''u'', CHR ''0'', CHR ''0'', hex_char (char_code c div 16),
              hex_char (char_code c mod 16)]"
    using True ne by (simp add: json_escape_char_def)
  moreover have "utf8 (char_code c) = [c]"
    using lt32 by (simp add: utf8_def)
  ultimately show ?thesis
    by (simp add: u)
next
  case False
  then consider "c = CHR 0x0A" | "c = CHR 0x0D" | "c = CHR 0x09" | "c = CHR 0x0C" | "c = CHR 0x08"
    | "\<not> char_code c < 32" by blast
  then show ?thesis
  proof cases
    case 6
    then have "c \<noteq> CHR 0x0A" "c \<noteq> CHR 0x0D" "c \<noteq> CHR 0x09" "c \<noteq> CHR 0x0C" "c \<noteq> CHR 0x08" by auto
    with 6 show ?thesis
      by (cases "c = CHR 0x22"; cases "c = CHR 0x5C")
        (simp_all add: json_escape_char_def json_simple_escape_def)
  qed (simp_all add: json_escape_char_def json_simple_escape_def)
qed

lemma json_string_lit_read:
  "json_string (concat (map json_escape_char s) @ CHR 0x22 # r) = Some (s, r)"
  by (induction s) (simp_all add: json_string_escape del: json_string.simps(2), simp)

text \<open>A number is followed by something that does not continue it.\<close>

definition num_end :: "string \<Rightarrow> bool" where
  "num_end r \<longleftrightarrow> (case r of [] \<Rightarrow> True
     | c # cs \<Rightarrow> \<not> is_digit c \<and> c \<noteq> CHR ''.'' \<and> c \<noteq> CHR ''e'' \<and> c \<noteq> CHR ''E'')"

lemma num_end_simps [simp]:
  "num_end []" "num_end (CHR '','' # r)" "num_end (CHR '']'' # r)" "num_end (CHR ''}'' # r)"
  by (simp_all add: num_end_def is_digit_def)

lemma num_end_parts: "num_end r \<Longrightarrow> json_frac r = ([], r) \<and> json_exp r = ([], r)"
  by (auto simp: num_end_def json_frac_def json_exp_def split: list.splits)

lemma take_digits_app:
  "list_all is_digit ds \<Longrightarrow> num_end r \<Longrightarrow> take_digits (ds @ r) = (ds, r)"
  by (cases r) (auto simp: take_digits_def list_all_iff num_end_def takeWhile_append2 dropWhile_append2)

lemma str_nat_all_digits: "list_all is_digit (str_nat n)"
  using str_nat_digits by (auto simp: list_all_iff)

lemma nat_digits_zero: "hd (nat_digits n) = 0 \<Longrightarrow> n = 0"
proof (induction n rule: nat_digits.induct)
  case (1 n)
  show ?case
  proof (cases "n < 10")
    case True
    with "1.prems" show ?thesis by (simp add: nat_digits.simps [of n])
  next
    case False
    then have "hd (nat_digits n) = hd (nat_digits (n div 10))" by (simp add: nat_digits.simps [of n])
    with 1 False have "n div 10 = 0" by simp
    with False show ?thesis by simp
  qed
qed

lemma str_nat_zero: "hd (str_nat n) = CHR ''0'' \<Longrightarrow> str_nat n = ''0''"
proof -
  assume "hd (str_nat n) = CHR ''0''"
  moreover have "digit_char 0 = CHR ''0''" by code_simp
  ultimately have "digit_char (hd (nat_digits n)) = digit_char 0"
    by (simp add: str_nat_def hd_map)
  moreover have "hd (nat_digits n) < 10" by (intro nat_digits_small [of _ n]) simp
  ultimately have "hd (nat_digits n) = 0" using digit_char_inj [of _ 0] by simp
  then have "n = 0" by (rule nat_digits_zero)
  moreover have "str_nat 0 = ''0''" by code_simp
  ultimately show ?thesis by simp
qed

lemma json_number_nat:
  assumes "num_end r"
  shows "(let ds = fst (take_digits (str_nat n @ r));
          (ip, r1) = (if ds \<noteq> [] \<and> hd ds = CHR ''0'' then (''0'', tl (str_nat n @ r))
                      else (ds, snd (take_digits (str_nat n @ r)))) in (ip, r1)) = (str_nat n, r)"
proof (cases "hd (str_nat n) = CHR ''0''")
  case True
  then have "str_nat n = ''0''" by (rule str_nat_zero)
  then show ?thesis
    using take_digits_app [OF str_nat_all_digits [of n] assms] by (simp add: Let_def)
next
  case False
  then show ?thesis
    using take_digits_app [OF str_nat_all_digits [of n] assms] by (simp add: Let_def)
qed

lemma json_number_int:
  assumes "num_end r" "length (str_nat (nat \<bar>i\<bar>)) \<le> 4300"
  shows "json_number (str_int i @ r) = Some (JInt i, r)"
proof -
  let ?n = "nat \<bar>i\<bar>"
  obtain c cs where c: "str_nat ?n = c # cs" by (cases "str_nat ?n") auto
  have m: "c \<noteq> CHR ''-''" using str_nat_digits [of c ?n] digit_not_sign c by simp
  have sg: "(case str_int i @ r of c # cs \<Rightarrow> if c = CHR ''-'' then ([c], cs) else ([], str_int i @ r)
            | [] \<Rightarrow> ([], str_int i @ r)) = (if i < 0 then ''-'' else [], str_nat ?n @ r)"
    using c m by (auto simp: str_int_def)
  show ?thesis
    using json_number_nat [OF assms(1), of ?n] unsigned_int_str_nat [OF assms(2)]
      num_end_parts [OF assms(1)]
    by (auto simp: json_number_def sg Let_def split: prod.splits if_splits)
qed

lemma str_int_hd: "\<exists>c cs. str_int i = c # cs \<and> (is_digit c \<or> c = CHR ''-'' \<and> cs \<noteq> [] \<and> is_digit (hd cs))"
proof -
  obtain c cs where c: "str_nat (nat \<bar>i\<bar>) = c # cs" by (cases "str_nat (nat \<bar>i\<bar>)") auto
  then have "is_digit c" using str_nat_digits [of c "nat \<bar>i\<bar>"] by simp
  with c show ?thesis by (cases "i < 0") (auto simp: str_int_def)
qed

lemma json_scalar_int:
  assumes "num_end r" "length (str_nat (nat \<bar>i\<bar>)) \<le> 4300"
  shows "json_scalar (str_int i @ r) = Some (JInt i, r)"
proof -
  obtain c cs where "str_int i = c # cs"
    and "is_digit c \<or> c = CHR ''-'' \<and> cs \<noteq> [] \<and> is_digit (hd cs)" using str_int_hd by blast
  then have "strip_prefix ''null'' (str_int i @ r) = None" "strip_prefix ''true'' (str_int i @ r) = None"
    "strip_prefix ''false'' (str_int i @ r) = None" "strip_prefix ''NaN'' (str_int i @ r) = None"
    "strip_prefix ''Infinity'' (str_int i @ r) = None" "strip_prefix ''-Infinity'' (str_int i @ r) = None"
    by (cases cs; auto simp: is_digit_def)+
  with json_number_int [OF assms] show ?thesis by (simp add: json_scalar_def)
qed

subsection \<open>The round trip\<close>

lemma sort_key_map_snd:
  "sort_key fst (map (\<lambda>(k, v). (k, f v)) kvs) = map (\<lambda>(k, v). (k, f v)) (sort_key fst kvs)"
proof -
  have ins: "insort_key fst (k, f v) (map (\<lambda>(k, v). (k, f v)) xs) =
      map (\<lambda>(k, v). (k, f v)) (insort_key fst (k, v) xs)" for k v xs
    by (induction xs) auto
  show ?thesis
  proof (induction kvs)
    case (Cons kv kvs)
    then show ?case using ins [of "fst kv" "snd kv" "sort_key fst kvs"]
      by (cases kv) simp
  qed simp
qed

lemma dict_of_distinct: "distinct (map fst kvs) \<Longrightarrow> dict_of kvs = kvs"
proof -
  have upd: "k \<notin> set (map fst d) \<Longrightarrow> AList.update k v d = d @ [(k, v)]" for k v and d :: "(string \<times> json) list"
    by (induction d) auto
  have "distinct (map fst (d @ kvs)) \<Longrightarrow> foldl (\<lambda>d (k, v). AList.update k v d) d kvs = d @ kvs" for d
  proof (induction kvs arbitrary: d)
    case (Cons kv kvs)
    then show ?case by (cases kv) (simp add: upd)
  qed simp
  from this [of "[]"] show "distinct (map fst kvs) \<Longrightarrow> dict_of kvs = kvs"
    by (simp add: dict_of_def)
qed

lemma skip_ws_stop [simp]:
  "skip_ws (CHR '','' # r) = CHR '','' # r" "skip_ws (CHR '']'' # r) = CHR '']'' # r"
  "skip_ws (CHR ''}'' # r) = CHR ''}'' # r" "skip_ws (CHR '':'' # r) = CHR '':'' # r"
  "skip_ws (CHR 0x22 # r) = CHR 0x22 # r" "skip_ws [] = []"
  by (simp_all add: skip_ws_def is_json_ws_def)

lemma canonical_hd:
  assumes "json_ok j"
  obtains c cs where "canonical_json j = c # cs" "\<not> is_json_ws c" "c \<noteq> CHR '']''"
proof -
  have "\<exists>c cs. canonical_json j = c # cs \<and> \<not> is_json_ws c \<and> c \<noteq> CHR '']''"
  proof (cases j)
    case (JInt i)
    then show ?thesis using str_int_hd [of i] by (auto simp: is_json_ws_def is_digit_def)
  qed (use assms in \<open>auto simp: is_json_ws_def json_string_lit_def\<close>)
  with that show thesis by blast
qed

lemma skip_ws_canonical [simp]: "json_ok j \<Longrightarrow> skip_ws (canonical_json j @ r) = canonical_json j @ r"
  by (erule canonical_hd) (simp add: skip_ws_def)

lemma json_elems_read:
  assumes "\<And>x n r. x \<in> set xs \<Longrightarrow> json_ok x \<Longrightarrow> num_end r \<Longrightarrow> 2 * length (canonical_json x) \<le> n \<Longrightarrow>
      json_value n (canonical_json x @ r) = Some (jnorm x, r)"
    and "list_all json_ok xs" "xs \<noteq> []"
    and "2 * length (sep_concat (map canonical_json xs)) + 1 \<le> n"
  shows "json_elems n (sep_concat (map canonical_json xs) @ CHR '']'' # r) = Some (map jnorm xs, r)"
  using assms
proof (induction xs arbitrary: n)
  case (Cons x xs)
  then obtain m where n: "n = Suc m" by (cases n) auto
  show ?case
  proof (cases xs)
    case Nil
    have "json_value m (canonical_json x @ CHR '']'' # r) = Some (jnorm x, CHR '']'' # r)"
      by (rule Cons.prems(1)) (use Cons.prems Nil n in auto)
    with Nil n show ?thesis by simp
  next
    case (Cons y ys)
    have v: "json_value m (canonical_json x @ t) = Some (jnorm x, t)" if "num_end t" for t
      by (rule Cons.prems(1)) (use Cons.prems Cons n that in auto)
    have "json_elems m (sep_concat (map canonical_json xs) @ CHR '']'' # r) = Some (map jnorm xs, r)"
      by (rule Cons.IH) (use Cons.prems Cons n in auto)
    moreover have "skip_ws (sep_concat (map canonical_json xs) @ CHR '']'' # r) =
        sep_concat (map canonical_json xs) @ CHR '']'' # r"
      using Cons.prems(2) by (cases ys) (simp_all add: Cons)
    ultimately show ?thesis by (simp add: n v Cons)
  qed
qed simp

abbreviation json_member :: "string \<times> string \<Rightarrow> string" where
  "json_member \<equiv> \<lambda>(k, s). json_string_lit k @ CHR '':'' # s"

lemma skip_ws_member [simp]: "skip_ws (json_string_lit k @ t) = json_string_lit k @ t"
  by (simp add: json_string_lit_def)

lemma json_members_read:
  assumes "\<And>k x n r. (k, x) \<in> set kvs \<Longrightarrow> json_ok x \<Longrightarrow> num_end r \<Longrightarrow>
      2 * length (canonical_json x) \<le> n \<Longrightarrow>
      json_value n (canonical_json x @ r) = Some (jnorm x, r)"
    and "list_all (\<lambda>(k, v). json_ok v) kvs" "kvs \<noteq> []"
    and "2 * length (sep_concat (map (\<lambda>(k, v). json_member (k, canonical_json v)) kvs)) + 1 \<le> n"
  shows "json_members n
      (sep_concat (map (\<lambda>(k, v). json_member (k, canonical_json v)) kvs) @ CHR ''}'' # r) =
    Some (map (\<lambda>(k, v). (k, jnorm v)) kvs, r)"
  using assms
proof (induction kvs arbitrary: n)
  case (Cons kv kvs)
  then obtain m where n: "n = Suc m" by (cases n) auto
  obtain k x where kv: "kv = (k, x)" by (cases kv)
  have lit: "json_string (tl (json_string_lit k) @ t) = Some (k, t)" for t
    using json_string_lit_read [of k t] by (simp add: json_string_lit_def)
  have hd: "json_string_lit k = CHR 0x22 # tl (json_string_lit k)" by (simp add: json_string_lit_def)
  have ok: "json_ok x" using Cons.prems(2) by (simp add: kv)
  show ?case
  proof (cases kvs)
    case Nil
    have "json_value m (canonical_json x @ CHR ''}'' # r) = Some (jnorm x, CHR ''}'' # r)"
      by (rule Cons.prems(1)) (use Cons.prems Nil n kv in auto)
    moreover have sh: "sep_concat (map (\<lambda>(k, v). json_member (k, canonical_json v)) (kv # kvs)) =
        CHR 0x22 # tl (json_string_lit k) @ CHR '':'' # canonical_json x"
      using hd by (simp add: kv Nil)
    ultimately show ?thesis using Nil ok unfolding sh by (simp add: n kv lit)
  next
    case (Cons y ys)
    have v: "json_value m (canonical_json x @ t) = Some (jnorm x, t)" if "num_end t" for t
      by (rule Cons.prems(1)) (use Cons.prems Cons n kv that in auto)
    let ?rest = "sep_concat (map (\<lambda>(k, v). json_member (k, canonical_json v)) kvs)"
    have m: "json_members m (?rest @ CHR ''}'' # r) = Some (map (\<lambda>(k, v). (k, jnorm v)) kvs, r)"
      by (rule Cons.IH) (use Cons.prems Cons n kv in auto)
    have sk: "skip_ws (?rest @ CHR ''}'' # r) = ?rest @ CHR ''}'' # r"
      by (cases ys; cases y) (simp_all add: Cons)
    have "sep_concat (map (\<lambda>(k, v). json_member (k, canonical_json v)) (kv # kvs)) =
        CHR 0x22 # tl (json_string_lit k) @ CHR '':'' # canonical_json x @ CHR '','' # ?rest"
      using hd by (simp add: kv Cons)
    then show ?thesis
      using m sk v ok by (simp add: n kv lit)
  qed
qed simp

lemma json_value_read:
  "json_ok j \<Longrightarrow> num_end r \<Longrightarrow> 2 * length (canonical_json j) \<le> n \<Longrightarrow>
   json_value n (canonical_json j @ r) = Some (jnorm j, r)"
proof (induction j arbitrary: n r)
  case (JInt i)
  obtain c cs where c: "str_int i = c # cs"
    and "is_digit c \<or> c = CHR ''-'' \<and> cs \<noteq> [] \<and> is_digit (hd cs)" using str_int_hd by blast
  then have "c \<noteq> CHR 0x22" "c \<noteq> CHR ''[''" "c \<noteq> CHR ''{''" by (auto simp: is_digit_def)
  moreover obtain m where "n = Suc m" using JInt(3) c by (cases n) auto
  ultimately show ?case using json_scalar_int [of r i] JInt c by simp
next
  case (JStr s)
  then obtain m where "n = Suc m" by (cases n) (auto simp: json_string_lit_def)
  then show ?case using json_string_lit_read [of s r] by (simp add: json_string_lit_def)
next
  case (JList xs)
  then obtain m where n: "n = Suc m" by (cases n) auto
  show ?case
  proof (cases xs)
    case (Cons y ys)
    have e: "json_elems m (sep_concat (map canonical_json xs) @ CHR '']'' # r) = Some (map jnorm xs, r)"
      by (rule json_elems_read) (use JList n Cons in \<open>auto simp: list_all_iff\<close>)
    have "json_ok y" using JList Cons by simp
    then obtain c cs where c: "canonical_json y = c # cs" "\<not> is_json_ws c" "c \<noteq> CHR '']''"
      by (rule canonical_hd)
    obtain t where "sep_concat (map canonical_json xs) = c # t"
      using c by (cases ys) (auto simp: Cons)
    with e c show ?thesis by (simp add: n skip_ws_def)
  qed (simp add: n)
next
  case (JObj kvs)
  then obtain m where n: "n = Suc m" by (cases n) auto
  let ?s = "sort_key fst kvs"
  have shape: "canonical_json (JObj kvs) =
      CHR ''{'' # sep_concat (map (\<lambda>(k, v). json_member (k, canonical_json v)) ?s) @ [CHR ''}'']"
    by (simp only: canonical_json.simps sort_key_map_snd) (simp add: o_def case_prod_beta')
  show ?case
  proof (cases "kvs = []")
    case False
    then have ne: "?s \<noteq> []" by (metis sort_key_simps(1) length_sort length_0_conv)
    have e: "json_members m (sep_concat (map (\<lambda>(k, v). json_member (k, canonical_json v)) ?s) @
        CHR ''}'' # r) = Some (map (\<lambda>(k, v). (k, jnorm v)) ?s, r)"
      by (rule json_members_read)
        (use JObj n ne shape in \<open>auto simp: list_all_iff simp del: canonical_json.simps\<close>)
    obtain t where t: "sep_concat (map (\<lambda>(k, v). json_member (k, canonical_json v)) ?s) = CHR 0x22 # t"
      using ne by (cases ?s; cases "tl ?s") (auto simp: json_string_lit_def)
    have "distinct (map fst (map (\<lambda>(k, v). (k, jnorm v)) ?s))"
      using JObj(2) by (simp add: o_def case_prod_beta' distinct_map inj_on_def)
    then have "dict_of (map (\<lambda>(k, v). (k, jnorm v)) ?s) = map (\<lambda>(k, v). (k, jnorm v)) ?s"
      by (rule dict_of_distinct)
    with e t show ?thesis
      unfolding shape by (simp add: n sort_key_map_snd)
  qed (simp add: n)
next
  case JNull
  then show ?case by (cases n) (simp_all add: json_scalar_def)
next
  case (JBool b)
  then show ?case by (cases n; cases b) (simp_all add: json_scalar_def)
qed simp

text \<open>\<open>json.loads\<close> reads back what \<open>_canonical_json\<close> wrote, with the members of every
  object in key order; the fuel of the reader always suffices on canonical text.\<close>

theorem json_loads_canonical:
  assumes "json_ok j"
  shows "json_loads (canonical_json j) = Some (jnorm j)"
proof -
  have "json_value (2 * length (canonical_json j) + 2) (canonical_json j @ []) = Some (jnorm j, [])"
    using assms by (intro json_value_read) auto
  with skip_ws_canonical [OF assms, of "[]"] show ?thesis by (simp add: json_loads_def)
qed

lemma json_loads_canonical_witness:
  "json_loads (canonical_json (JObj [(''to'', JStr ''0x1''), (''chain'', JInt (- 14)), (''a'', JNull)])) =
   Some (jnorm (JObj [(''to'', JStr ''0x1''), (''chain'', JInt (- 14)), (''a'', JNull)]))"
proof (rule json_loads_canonical)
  have "length (str_nat 14) \<le> 4300" by code_simp
  then show "json_ok (JObj [(''to'', JStr ''0x1''), (''chain'', JInt (- 14)), (''a'', JNull)])" by simp
qed

lemma canonical_json_inj:
  "json_ok i \<Longrightarrow> json_ok j \<Longrightarrow> canonical_json i = canonical_json j \<Longrightarrow> jnorm i = jnorm j"
proof -
  have rd: "json_ok j \<Longrightarrow> json_loads (canonical_json j) = Some (jnorm j)" for j
    using json_value_read [of j "[]" "2 * length (canonical_json j) + 2"] skip_ws_canonical [of j "[]"]
    by (simp add: json_loads_def)
  show "json_ok i \<Longrightarrow> json_ok j \<Longrightarrow> canonical_json i = canonical_json j \<Longrightarrow> jnorm i = jnorm j"
    using rd [of i] rd [of j] by simp
qed

text \<open>Equal canonical texts of two objects mean equal values under every key.\<close>

lemma canonical_obj_inj:
  assumes "json_ok (JObj kvs)" "json_ok (JObj kvs')"
    and "canonical_json (JObj kvs) = canonical_json (JObj kvs')"
  shows "map_option jnorm (map_of kvs k) = map_option jnorm (map_of kvs' k)"
proof -
  let ?n = "map (\<lambda>(k, v). (k, jnorm v))"
  have keys: "map fst (?n xs) = map fst xs" for xs :: "(string \<times> json) list"
    by (simp add: o_def case_prod_beta')
  have look: "map_of (?n xs) k = map_option jnorm (map_of xs k)" for xs
    by (induction xs) auto
  have "sort_key fst (?n kvs) = sort_key fst (?n kvs')"
    using canonical_json_inj [OF assms] by simp
  then have "set (?n kvs) = set (?n kvs')" by (metis set_sort)
  moreover have "distinct (map fst (?n kvs))" "distinct (map fst (?n kvs'))"
    using assms(1,2) unfolding keys by simp_all
  ultimately have "map_of (?n kvs) = map_of (?n kvs')" using map_of_inject_set by blast
  then show ?thesis using look by metis
qed

end
