(* ===== verification/Sha256.thy ===== *)
theory Sha256
  imports Fwd_Prelude
begin

section \<open>\<open>hashlib.sha256\<close> and \<open>datetime.isoformat\<close>\<close>

text \<open>
  Two pieces of the standard library the audit chain and the FSP policy hash use, written out:
  SHA-256 (FIPS 180-4) on 32-bit words, and the ISO form of a UTC instant with microseconds, whose
  calendar arithmetic follows \<open>datetime\<close>'s own proleptic Gregorian algorithm.
\<close>

unbundle bit_operations_syntax

subsection \<open>SHA-256\<close>

type_synonym w32 = "32 word"

text \<open>The constants of the standard: the first 32 bits of the fractional parts of the cube roots
  and of the square roots of the first primes, computed bit by bit.\<close>

fun root_bits :: "nat \<Rightarrow> nat \<Rightarrow> nat \<Rightarrow> nat \<Rightarrow> nat" where
  "root_bits k n 0 r = r"
| "root_bits k n (Suc b) r = root_bits k n b (if (r + 2 ^ b) ^ k \<le> n then r + 2 ^ b else r)"

definition root_fraction :: "nat \<Rightarrow> nat \<Rightarrow> w32" where
  "root_fraction k p = word_of_nat (root_bits k (p * 2 ^ (32 * k)) 40 0)"

definition first_primes :: "nat list" where
  "first_primes = [
    2, 3, 5, 7, 11, 13, 17, 19, 23, 29, 31, 37, 41, 43, 47, 53,
    59, 61, 67, 71, 73, 79, 83, 89, 97, 101, 103, 107, 109, 113, 127, 131,
    137, 139, 149, 151, 157, 163, 167, 173, 179, 181, 191, 193, 197, 199, 211, 223,
    227, 229, 233, 239, 241, 251, 257, 263, 269, 271, 277, 281, 283, 293, 307, 311]"

definition sha_k :: "w32 list" where
  "sha_k = map (root_fraction 3) first_primes"

type_synonym sha_state = "w32 \<times> w32 \<times> w32 \<times> w32 \<times> w32 \<times> w32 \<times> w32 \<times> w32"

definition sha_init :: sha_state where
  "sha_init =
     (let h = map (root_fraction 2) (take 8 first_primes)
      in (h ! 0, h ! 1, h ! 2, h ! 3, h ! 4, h ! 5, h ! 6, h ! 7))"

definition rotr32 :: "nat \<Rightarrow> w32 \<Rightarrow> w32" where
  "rotr32 n x = drop_bit n x OR push_bit (32 - n) x"

definition sha_step :: "sha_state \<Rightarrow> w32 \<times> w32 \<Rightarrow> sha_state" where
  "sha_step = (\<lambda>(a, b, c, d, e, f, g, h) (k, w).
     let s1 = rotr32 6 e XOR rotr32 11 e XOR rotr32 25 e;
         ch = (e AND f) XOR (NOT e AND g);
         t1 = h + s1 + ch + k + w;
         s0 = rotr32 2 a XOR rotr32 13 a XOR rotr32 22 a;
         maj = (a AND b) XOR (a AND c) XOR (b AND c);
         t2 = s0 + maj
     in (t1 + t2, a, b, c, d + t1, e, f, g))"

text \<open>The message schedule, newest word first.\<close>

fun sha_schedule :: "nat \<Rightarrow> w32 list \<Rightarrow> w32 list" where
  "sha_schedule 0 ws = rev ws"
| "sha_schedule (Suc n) ws =
     (let w2 = ws ! 1; w7 = ws ! 6; w15 = ws ! 14; w16 = ws ! 15;
          s0 = rotr32 7 w15 XOR rotr32 18 w15 XOR drop_bit 3 w15;
          s1 = rotr32 17 w2 XOR rotr32 19 w2 XOR drop_bit 10 w2
      in sha_schedule n ((w16 + s0 + w7 + s1) # ws))"

definition sha_block :: "sha_state \<Rightarrow> w32 list \<Rightarrow> sha_state" where
  "sha_block st block =
     (case (st, foldl sha_step st (zip sha_k (sha_schedule 48 (rev block)))) of
        ((a, b, c, d, e, f, g, h), (a', b', c', d', e', f', g', h')) \<Rightarrow>
          (a + a', b + b', c + c', d + d', e + e', f + f', g + g', h + h'))"

definition be_bytes :: "nat \<Rightarrow> int \<Rightarrow> byte list" where
  "be_bytes k n = rev (map (\<lambda>i. word_of_int (n div 256 ^ i)) [0..<k])"

definition sha_pad :: "byte list \<Rightarrow> byte list" where
  "sha_pad m = m @ [0x80] @ replicate ((119 - length m mod 64) mod 64) 0 @ be_bytes 8 (8 * int (length m))"

fun bytes_w32 :: "byte list \<Rightarrow> w32 list" where
  "bytes_w32 (a # b # c # d # r) =
     word_of_int (((uint a * 256 + uint b) * 256 + uint c) * 256 + uint d) # bytes_w32 r"
| "bytes_w32 _ = []"

function chunks16 :: "w32 list \<Rightarrow> w32 list list" where
  "chunks16 ws = (if ws = [] then [] else take 16 ws # chunks16 (drop 16 ws))"
  by pat_completeness auto
termination
  by (relation "measure length") auto

declare chunks16.simps [simp del]

definition sha256 :: "byte list \<Rightarrow> byte list" where
  "sha256 m =
     (case foldl sha_block sha_init (chunks16 (bytes_w32 (sha_pad m))) of
        (a, b, c, d, e, f, g, h) \<Rightarrow>
          concat (map (\<lambda>w. be_bytes 4 (uint w)) [a, b, c, d, e, f, g, h]))"

text \<open>\<open>s.encode("utf-8")\<close>: a string is already its UTF-8 bytes.\<close>

definition encode_utf8 :: "string \<Rightarrow> byte list" where
  "encode_utf8 s = map (\<lambda>c. word_of_int (of_char c)) s"

definition sha256_hex :: "byte list \<Rightarrow> string" where
  "sha256_hex m = bytes_hex (sha256 m)"

lemma length_be_bytes [simp]: "length (be_bytes k n) = k"
  by (simp add: be_bytes_def)

lemma length_sha256 [simp]: "length (sha256 m) = 32"
  by (simp add: sha256_def split: prod.split)

lemma length_sha256_hex [simp]: "length (sha256_hex m) = 64"
  by (simp add: sha256_hex_def)

text \<open>The padded message fills whole 64-byte blocks.\<close>

lemma length_sha_pad: "length (sha_pad m) mod 64 = 0"
proof -
  define k where "k = length m mod 64"
  define q where "q = length m div 64"
  have m: "length m = 64 * q + k" and k: "k < 64" by (simp_all add: k_def q_def)
  have len: "length (sha_pad m) = length m + 9 + (119 - k) mod 64"
    by (simp add: sha_pad_def k_def)
  show ?thesis
  proof (cases "k \<le> 55")
    case True
    then have "119 - k = 64 + (55 - k)" by simp
    then have "(119 - k) mod 64 = 55 - k" using True by (simp only: mod_add_self1) simp
    with True have "length (sha_pad m) = 64 * (q + 1)" by (simp add: len m)
    then show ?thesis by simp
  next
    case False
    then have "(119 - k) mod 64 = 119 - k" by simp
    with False k have "length (sha_pad m) = 64 * (q + 2)" by (simp add: len m)
    then show ?thesis by simp
  qed
qed

lemma encode_utf8_inj: "encode_utf8 s = encode_utf8 t \<Longrightarrow> s = t"
proof -
  have "word_of_int (of_char c) = (word_of_int (of_char d) :: byte) \<Longrightarrow> c = d" for c d :: char
  proof -
    have lt: "of_char x mod 256 = (of_char x :: int)" for x :: char
      by (rule of_char_mod_256)
    assume "word_of_int (of_char c) = (word_of_int (of_char d) :: byte)"
    then have "of_char c mod 256 = (of_char d mod 256 :: int)"
      by (simp add: word_of_int_eq_iff take_bit_eq_mod)
    with lt have "of_char c = (of_char d :: int)" by simp
    then show "c = d" by simp
  qed
  then show "encode_utf8 s = encode_utf8 t \<Longrightarrow> s = t"
    unfolding encode_utf8_def by (intro map_injective [of _ s t]) (auto intro: injI)
qed

subsection \<open>ISO form of an instant\<close>

text \<open>Days since 1 January of year 1 (as day 1) to a civil date, as \<open>datetime\<close> computes it.\<close>

definition days_before_month :: "int list" where
  "days_before_month = [-1, 0, 31, 59, 90, 120, 151, 181, 212, 243, 273, 304, 334]"

definition days_in_month :: "int list" where
  "days_in_month = [-1, 31, 28, 31, 30, 31, 30, 31, 31, 30, 31, 30, 31]"

definition ord2ymd :: "int \<Rightarrow> int \<times> int \<times> int" where
  "ord2ymd ordinal =
     (let n = ordinal - 1;
          n400 = n div 146097; n = n mod 146097;
          n100 = n div 36524; n = n mod 36524;
          n4 = n div 1461; n = n mod 1461;
          n1 = n div 365; n = n mod 365;
          year = n400 * 400 + 1 + n100 * 100 + n4 * 4 + n1
      in if n1 = 4 \<or> n100 = 4 then (year - 1, 12, 31)
         else
           (let leap = n1 = 3 \<and> (n4 \<noteq> 24 \<or> n100 = 3);
                month = (n + 50) div 32;
                preceding = days_before_month ! nat month + (if 2 < month \<and> leap then 1 else 0)
            in if n < preceding then
                 (let m = month - 1;
                      p = preceding - (days_in_month ! nat m + (if m = 2 \<and> leap then 1 else 0))
                  in (year, m, n - p + 1))
               else (year, month, n - preceding + 1)))"

definition pad_int :: "nat \<Rightarrow> int \<Rightarrow> string" where
  "pad_int k n = (let s = str_int n in replicate (k - length s) CHR ''0'' @ s)"

definition epoch_ordinal :: int where "epoch_ordinal = 719163"

definition isoformat_us :: "datetime \<Rightarrow> string" where
  "isoformat_us ts =
     (let (y, m, d) = ord2ymd (ts div 86400000000 + epoch_ordinal);
          us = ts mod 86400000000;
          secs = us div 1000000
      in pad_int 4 y @ ''-'' @ pad_int 2 m @ ''-'' @ pad_int 2 d @ ''T'' @
         pad_int 2 (secs div 3600) @ '':'' @ pad_int 2 (secs div 60 mod 60) @ '':'' @
         pad_int 2 (secs mod 60) @ ''.'' @ pad_int 6 (us mod 1000000) @ ''+00:00'')"

end
