(* ===== verification/Audit_Repo.thy ===== *)
theory Audit_Repo
  imports Py_Json Sha256
begin

section \<open>The audit repository (\<open>infra/audit_repo.py\<close>)\<close>

text \<open>
  The append-only log, one row per operation, chained by SHA-256 over the canonical JSON of the row
  and the previous row's hash.  The table is the list of its rows with the next value of the
  autoincrement key; a tampered table is any such list.  The interface \<open>hash_chain\<close> states what
  a chained row is; that two verified chains with one head agree, unless a collision can be read off
  them, is proved against it.
\<close>

definition genesis_prev_hash :: string where
  "genesis_prev_hash = replicate 64 CHR ''0''"

record audit_row =
  ar_seq :: int
  ar_ts :: datetime
  ar_caller :: "string option"
  ar_action :: string
  ar_request_json :: "string option"
  ar_decision :: string
  ar_decision_reason :: "string option"
  ar_outcome :: "string option"
  ar_prev_hash :: string
  ar_row_hash :: string

record audit_db =
  audit_log :: "audit_row list"
  audit_next_seq :: int

definition valid_actions :: "string list" where
  "valid_actions = [''sign-transaction'', ''sign-transaction-duplicate'', ''wallet-create'',
     ''wallet-import'', ''caller-create'', ''caller-revoke'', ''policy-load'',
     ''audit-verify-failure'', ''fsp-sign-message'', ''nonce-init'', ''nonce-sync'',
     ''tx-broadcast-result'', ''tx-receipt'', ''tx-replacement'']"

definition valid_decisions :: "string list" where
  "valid_decisions = [''approved'', ''denied'', ''error'']"

definition json_opt :: "string option \<Rightarrow> json" where
  "json_opt v = (case v of None \<Rightarrow> JNull | Some s \<Rightarrow> JStr s)"

subsection \<open>Row hashes\<close>

definition row_text ::
  "string \<Rightarrow> datetime \<Rightarrow> string option \<Rightarrow> string \<Rightarrow> string option \<Rightarrow> string \<Rightarrow> string option \<Rightarrow>
   string option \<Rightarrow> string" where
  "row_text prev_hash ts caller action request_json decision decision_reason outcome =
     canonical_json (JObj [
       (''prev_hash'', JStr prev_hash),
       (''ts'', JStr (isoformat_us ts)),
       (''caller'', json_opt caller),
       (''action'', JStr action),
       (''request_json'', json_opt request_json),
       (''decision'', JStr decision),
       (''decision_reason'', json_opt decision_reason),
       (''outcome'', json_opt outcome)])"

definition row_hash ::
  "string \<Rightarrow> datetime \<Rightarrow> string option \<Rightarrow> string \<Rightarrow> string option \<Rightarrow> string \<Rightarrow> string option \<Rightarrow>
   string option \<Rightarrow> string" where
  "row_hash prev_hash ts caller action request_json decision decision_reason outcome =
     sha256_hex (encode_utf8
       (row_text prev_hash ts caller action request_json decision decision_reason outcome))"

text \<open>The text and the recomputed hash of a stored row.\<close>

definition stored_text :: "audit_row \<Rightarrow> string" where
  "stored_text r = row_text (ar_prev_hash r) (ar_ts r) (ar_caller r) (ar_action r)
     (ar_request_json r) (ar_decision r) (ar_decision_reason r) (ar_outcome r)"

definition recompute :: "audit_row \<Rightarrow> string" where
  "recompute r = row_hash (ar_prev_hash r) (ar_ts r) (ar_caller r) (ar_action r)
     (ar_request_json r) (ar_decision r) (ar_decision_reason r) (ar_outcome r)"

lemma recompute_text: "recompute r = sha256_hex (encode_utf8 (stored_text r))"
  by (simp add: recompute_def stored_text_def row_hash_def)

subsection \<open>Reading and writing\<close>

text \<open>\<open>ORDER BY seq\<close>.\<close>

definition rows_asc :: "audit_db \<Rightarrow> audit_row list" where
  "rows_asc t = sort_key ar_seq (audit_log t)"

definition last_row_hash :: "audit_db \<Rightarrow> string" where
  "last_row_hash t =
     (case rev (rows_asc t) of [] \<Rightarrow> genesis_prev_hash | r # _ \<Rightarrow> ar_row_hash r)"

definition min_seq :: "audit_db \<Rightarrow> int option" where
  "min_seq t = (case rows_asc t of [] \<Rightarrow> None | r # _ \<Rightarrow> Some (ar_seq r))"

text \<open>\<open>AuditRepo.append\<close>; \<open>now\<close> is \<open>datetime.now(UTC)\<close>, used when no \<open>ts\<close> is given.\<close>

definition append_row ::
  "datetime \<Rightarrow> string \<Rightarrow> string \<Rightarrow> string option \<Rightarrow> string option \<Rightarrow> string option \<Rightarrow>
   string option \<Rightarrow> datetime option \<Rightarrow> (audit_db, audit_row) op" where
  "append_row now action decision caller request_json decision_reason outcome ts =
     (if action \<notin> set valid_actions then raise (ValueError (''invalid action: '' @ action))
      else if decision \<notin> set valid_decisions then raise (ValueError (''invalid decision: '' @ decision))
      else (\<lambda>t.
        let ts' = (case ts of None \<Rightarrow> now | Some v \<Rightarrow> v);
            prev = last_row_hash t;
            rh = row_hash prev ts' caller action request_json decision decision_reason outcome;
            row = \<lparr>ar_seq = audit_next_seq t, ar_ts = ts', ar_caller = caller, ar_action = action,
                   ar_request_json = request_json, ar_decision = decision,
                   ar_decision_reason = decision_reason, ar_outcome = outcome,
                   ar_prev_hash = prev, ar_row_hash = rh\<rparr>
        in (Inr row, t\<lparr>audit_log := audit_log t @ [row], audit_next_seq := audit_next_seq t + 1\<rparr>)))"

definition audit_get :: "int \<Rightarrow> (audit_db, audit_row option) op" where
  "audit_get seq = getM (\<lambda>t. find (\<lambda>r. ar_seq r = seq) (audit_log t))"

definition audit_tail :: "nat \<Rightarrow> (audit_db, audit_row list) op" where
  "audit_tail n = getM (\<lambda>t. rev (take n (rev (rows_asc t))))"

text \<open>SQLite's \<open>LIKE\<close>: \<open>%\<close> any text, \<open>_\<close> one character, ASCII case ignored.\<close>

function sql_like :: "string \<Rightarrow> string \<Rightarrow> bool" where
  "sql_like [] s = (s = [])"
| "sql_like (p # ps) s =
     (if p = CHR ''%'' then
        sql_like ps s \<or> (case s of [] \<Rightarrow> False | c # cs \<Rightarrow> sql_like (p # ps) cs)
      else (case s of
        [] \<Rightarrow> False
      | c # cs \<Rightarrow> (p = CHR ''_'' \<or> lower_char p = lower_char c) \<and> sql_like ps cs))"
  by pat_completeness auto
termination
  by (relation "measure (\<lambda>(p, s). length p + length s)") auto

definition find_sign_transaction_seq :: "string \<Rightarrow> (audit_db, int option) op" where
  "find_sign_transaction_seq i = getM (\<lambda>t.
     case filter (\<lambda>r. ar_action r = ''sign-transaction'' \<and> ar_decision r = ''approved'' \<and>
        (case ar_outcome r of None \<Rightarrow> False
         | Some o' \<Rightarrow> sql_like
             (''%'' @ [CHR 0x22] @ ''tx_id'' @ [CHR 0x22] @ '':'' @ [CHR 0x22] @ i @ [CHR 0x22] @ ''%'') o'))
        (rows_asc t) of
       [] \<Rightarrow> None
     | r # _ \<Rightarrow> Some (ar_seq r))"

subsection \<open>Verification\<close>

text \<open>The \<open>detail\<close> of a result, with the values the message carries.\<close>

datatype verify_detail =
    EmptyChain
  | MissingAnchor int int
  | LinkageMismatch int string string
  | RecomputeMismatch int string string
  | UpstreamBreak int int
  | ChainIntact int

record verify_result =
  vr_ok :: bool
  vr_rows_checked :: int
  vr_first_break_seq :: "int option"
  vr_detail :: verify_detail
  vr_upstream_break :: bool
  vr_upstream_break_seq :: "int option"

definition break_at :: "int \<Rightarrow> int \<Rightarrow> verify_detail \<Rightarrow> verify_result" where
  "break_at n seq d = \<lparr>vr_ok = False, vr_rows_checked = n, vr_first_break_seq = Some seq,
     vr_detail = d, vr_upstream_break = False, vr_upstream_break_seq = None\<rparr>"

text \<open>The walk: \<open>Inl\<close> is an early return, \<open>Inr\<close> the number of rows checked.\<close>

fun verify_loop :: "string \<Rightarrow> int \<Rightarrow> audit_row list \<Rightarrow> verify_result + int" where
  "verify_loop expected n [] = Inr n"
| "verify_loop expected n (r # rs) =
     (if ar_prev_hash r \<noteq> expected
      then Inl (break_at (n + 1) (ar_seq r) (LinkageMismatch (ar_seq r) expected (ar_prev_hash r)))
      else if recompute r \<noteq> ar_row_hash r
      then Inl (break_at (n + 1) (ar_seq r) (RecomputeMismatch (ar_seq r) (ar_row_hash r) (recompute r)))
      else verify_loop (ar_row_hash r) (n + 1) rs)"

definition in_window :: "int option \<Rightarrow> int option \<Rightarrow> audit_row \<Rightarrow> bool" where
  "in_window from_seq to_seq r \<longleftrightarrow>
     (case from_seq of None \<Rightarrow> True | Some f \<Rightarrow> f \<le> ar_seq r) \<and>
     (case to_seq of None \<Rightarrow> True | Some l \<Rightarrow> ar_seq r \<le> l)"

text \<open>After the anchor is known: walk, then report a flagged upstream break or an intact chain.\<close>

definition verify_from :: "string \<Rightarrow> int option \<Rightarrow> audit_row list \<Rightarrow> verify_result" where
  "verify_from expected upstream rows =
     (case verify_loop expected 0 rows of
        Inl res \<Rightarrow> res
      | Inr n \<Rightarrow>
          (case upstream of
             Some s \<Rightarrow> \<lparr>vr_ok = False, vr_rows_checked = n, vr_first_break_seq = Some s,
                vr_detail = UpstreamBreak s (s + 1), vr_upstream_break = True,
                vr_upstream_break_seq = Some s\<rparr>
           | None \<Rightarrow> \<lparr>vr_ok = True, vr_rows_checked = n, vr_first_break_seq = None,
                vr_detail = ChainIntact n, vr_upstream_break = False,
                vr_upstream_break_seq = None\<rparr>))"

definition verify :: "int option \<Rightarrow> int option \<Rightarrow> audit_db \<Rightarrow> verify_result" where
  "verify from_seq to_seq t =
     (case filter (in_window from_seq to_seq) (rows_asc t) of
        [] \<Rightarrow> \<lparr>vr_ok = True, vr_rows_checked = 0, vr_first_break_seq = None, vr_detail = EmptyChain,
               vr_upstream_break = False, vr_upstream_break_seq = None\<rparr>
      | r # rs \<Rightarrow>
          (let first_seq = ar_seq r in
           if min_seq t = Some first_seq then verify_from genesis_prev_hash None (r # rs)
           else
             (case find (\<lambda>x. ar_seq x = first_seq - 1) (audit_log t) of
                None \<Rightarrow> break_at 1 first_seq (MissingAnchor (first_seq - 1) first_seq)
              | Some anchor \<Rightarrow>
                  verify_from (ar_row_hash anchor)
                    (if ar_row_hash anchor \<noteq> ar_prev_hash r then Some (first_seq - 1) else None)
                    (r # rs))))"

subsection \<open>Hash chains\<close>

fun chained :: "('r \<Rightarrow> 'h) \<Rightarrow> ('r \<Rightarrow> 'h) \<Rightarrow> ('r \<Rightarrow> 'h) \<Rightarrow> 'h \<Rightarrow> 'r list \<Rightarrow> bool" where
  "chained prev stored rcp e [] = True"
| "chained prev stored rcp e (r # rs) \<longleftrightarrow>
     prev r = e \<and> rcp r = stored r \<and> chained prev stored rcp (stored r) rs"

definition chain_head :: "('r \<Rightarrow> 'h) \<Rightarrow> 'h \<Rightarrow> 'r list \<Rightarrow> 'h" where
  "chain_head stored e rs = (if rs = [] then e else stored (last rs))"

lemma chained_append:
  "chained prev stored rcp e (xs @ ys) \<longleftrightarrow>
     chained prev stored rcp e xs \<and> chained prev stored rcp (chain_head stored e xs) ys"
  by (induction xs arbitrary: e) (auto simp: chain_head_def)

text \<open>A chained row hashes a text that fixes the row's link to its predecessor.\<close>

locale hash_chain =
  fixes prev :: "'r \<Rightarrow> 'h"
    and stored :: "'r \<Rightarrow> 'h"
    and content :: "'r \<Rightarrow> 'c"
    and digest :: "'c \<Rightarrow> 'h"
    and genesis :: 'h
  assumes content_prev: "content r = content r' \<Longrightarrow> prev r = prev r'"
begin

abbreviation chain :: "'r list \<Rightarrow> bool" where
  "chain rs \<equiv> chained prev stored (\<lambda>r. digest (content r)) genesis rs"

lemma same_head_same_content:
  assumes "chain xs" "chain ys" "chain_head stored genesis xs = chain_head stored genesis ys"
  shows "map content xs = map content ys \<or>
    (\<exists>x \<in> set xs. \<exists>y \<in> set ys. content x \<noteq> content y \<and> digest (content x) = digest (content y)) \<or>
    (\<exists>r \<in> set xs \<union> set ys. digest (content r) = genesis)"
  using assms
proof (induction xs arbitrary: ys rule: rev_induct)
  case Nil
  then show ?case
    by (cases ys rule: rev_cases) (auto simp: chain_head_def chained_append)
next
  case (snoc x xs)
  show ?case
  proof (cases ys rule: rev_cases)
    case Nil
    with snoc.prems show ?thesis by (auto simp: chain_head_def chained_append)
  next
    case (snoc zs y)
    have x: "chain xs" "prev x = chain_head stored genesis xs" "digest (content x) = stored x"
      using snoc.prems(1) by (simp_all add: chained_append)
    have y: "chain zs" "prev y = chain_head stored genesis zs" "digest (content y) = stored y"
      using snoc.prems(2) snoc by (simp_all add: chained_append)
    have h: "digest (content x) = digest (content y)"
      using snoc.prems(3) snoc x y by (simp add: chain_head_def)
    show ?thesis
    proof (cases "content x = content y")
      case True
      then have "prev x = prev y" by (rule content_prev)
      then have "chain_head stored genesis xs = chain_head stored genesis zs"
        using x(2) y(2) by simp
      from snoc.IH [OF x(1) y(1) this] True show ?thesis
        unfolding snoc by auto
    qed (use h snoc in auto)
  qed
qed

lemma append_chain:
  assumes "chain xs" "prev r = chain_head stored genesis xs" "stored r = digest (content r)"
  shows "chain (xs @ [r])"
  using assms by (simp add: chained_append)

end

lemma jnorm_json_opt [simp]: "jnorm (json_opt v) = json_opt v"
  by (cases v) (simp_all add: json_opt_def)

lemma json_ok_json_opt [simp]: "json_ok (json_opt v)"
  by (cases v) (simp_all add: json_opt_def)

lemma json_opt_inj [simp]: "json_opt v = json_opt w \<longleftrightarrow> v = w"
  by (cases v; cases w) (simp_all add: json_opt_def)

lemma row_text_inj:
  assumes "row_text p ts c a q d dr u = row_text p' ts' c' a' q' d' dr' u'"
  shows "p = p' \<and> isoformat_us ts = isoformat_us ts' \<and> c = c' \<and> a = a' \<and> q = q' \<and> d = d' \<and>
    dr = dr' \<and> u = u'"
proof -
  have eq: "canonical_json (JObj [
       (''prev_hash'', JStr p), (''ts'', JStr (isoformat_us ts)), (''caller'', json_opt c),
       (''action'', JStr a), (''request_json'', json_opt q), (''decision'', JStr d),
       (''decision_reason'', json_opt dr), (''outcome'', json_opt u)]) =
     canonical_json (JObj [
       (''prev_hash'', JStr p'), (''ts'', JStr (isoformat_us ts')), (''caller'', json_opt c'),
       (''action'', JStr a'), (''request_json'', json_opt q'), (''decision'', JStr d'),
       (''decision_reason'', json_opt dr'), (''outcome'', json_opt u')])"
    using assms by (simp only: row_text_def)
  note inj = canonical_obj_inj [OF _ _ eq]
  show ?thesis
    using inj [of "''prev_hash''"] inj [of "''ts''"] inj [of "''caller''"] inj [of "''action''"]
      inj [of "''request_json''"] inj [of "''decision''"] inj [of "''decision_reason''"]
      inj [of "''outcome''"]
    by simp
qed

interpretation al: hash_chain ar_prev_hash ar_row_hash stored_text
    "\<lambda>s. sha256_hex (encode_utf8 s)" genesis_prev_hash
  by unfold_locales (auto simp: stored_text_def dest: row_text_inj)

subsection \<open>What verification decides\<close>

abbreviation audit_chain :: "string \<Rightarrow> audit_row list \<Rightarrow> bool" where
  "audit_chain \<equiv> chained ar_prev_hash ar_row_hash recompute"

definition audit_contiguous :: "audit_db \<Rightarrow> bool" where
  "audit_contiguous t \<longleftrightarrow>
     map ar_seq (audit_log t) = map int [1..<Suc (length (audit_log t))] \<and>
     audit_next_seq t = int (length (audit_log t)) + 1"

definition audit_intact :: "audit_db \<Rightarrow> bool" where
  "audit_intact t \<longleftrightarrow> audit_contiguous t \<and> audit_chain genesis_prev_hash (audit_log t)"

lemma rows_asc_contiguous: "audit_contiguous t \<Longrightarrow> rows_asc t = audit_log t"
  unfolding rows_asc_def audit_contiguous_def by (metis sort_key_sorted sorted_map_int_upt)

lemma verify_loop_Inr: "verify_loop e n rs = Inr m \<longleftrightarrow> audit_chain e rs \<and> m = n + int (length rs)"
  by (induction e n rs rule: verify_loop.induct) (auto split: if_splits)

lemma verify_loop_Inl:
  "verify_loop e n rs = Inl res \<Longrightarrow> \<not> audit_chain e rs \<and> \<not> vr_ok res \<and> \<not> vr_upstream_break res"
  by (induction e n rs rule: verify_loop.induct) (auto simp: break_at_def split: if_splits)

lemma verify_from_ok:
  "vr_ok (verify_from e None rs) \<longleftrightarrow> audit_chain e rs"
  using verify_loop_Inl [of e 0 rs] verify_loop_Inr [of e 0 rs]
  by (cases "verify_loop e 0 rs") (auto simp: verify_from_def)

lemma verify_from_linked:
  "vr_ok (verify_from e (if e \<noteq> ar_prev_hash r then Some s else None) (r # rs)) =
     audit_chain e (r # rs) \<and>
   \<not> vr_upstream_break (verify_from e (if e \<noteq> ar_prev_hash r then Some s else None) (r # rs))"
proof (cases "verify_loop e 0 (r # rs)")
  case (Inl res)
  then have "\<not> audit_chain e (r # rs) \<and> \<not> vr_ok res \<and> \<not> vr_upstream_break res"
    by (rule verify_loop_Inl)
  with Inl show ?thesis unfolding verify_from_def by (simp del: verify_loop.simps chained.simps)
next
  case (Inr n)
  then have ch: "audit_chain e (r # rs)"
    by (simp only: verify_loop_Inr)
  then have "ar_prev_hash r = e" by simp
  with Inr ch show ?thesis
    unfolding verify_from_def by (simp del: verify_loop.simps chained.simps)
qed

lemma find_seq_contiguous:
  assumes "map ar_seq rows = map int [1..<Suc (length rows)]" "rows = xs @ r # ys" "xs \<noteq> []"
  shows "find (\<lambda>x. ar_seq x = ar_seq r - 1) rows = Some (last xs)" "ar_seq r = int (length xs) + 1"
proof -
  have nth: "i < length rows \<Longrightarrow> ar_seq (rows ! i) = int i + 1" for i
  proof -
    assume i: "i < length rows"
    then have "ar_seq (rows ! i) = map ar_seq rows ! i" by simp
    also have "\<dots> = int i + 1" using i unfolding assms(1) by (simp del: upt_Suc)
    finally show ?thesis .
  qed
  show r: "ar_seq r = int (length xs) + 1" using nth [of "length xs"] assms(2) by simp
  have l: "ar_seq (last xs) = int (length xs)"
    using nth [of "length xs - 1"] assms(2,3)
    by (cases xs rule: rev_cases) (simp_all add: nth_append)
  have "find (\<lambda>x. ar_seq x = int (length xs)) rows = Some (last xs)"
    unfolding find_Some_iff
    using nth l assms(2,3)
    by (intro exI [of _ "length xs - 1"]) (auto simp: nth_append last_conv_nth)
  then show "find (\<lambda>x. ar_seq x = ar_seq r - 1) rows = Some (last xs)" by (simp add: r)
qed

text \<open>A window of a contiguous log is a segment of it.\<close>

lemma window_segment:
  assumes "sorted (map ar_seq rows)"
  obtains xs zs where "rows = xs @ filter (in_window f l) rows @ zs"
proof -
  let ?lo = "\<lambda>r. case f of None \<Rightarrow> False | Some v \<Rightarrow> ar_seq r < v"
  let ?hi = "\<lambda>r. case l of None \<Rightarrow> True | Some v \<Rightarrow> ar_seq r \<le> v"
  have win: "in_window f l r \<longleftrightarrow> \<not> ?lo r \<and> ?hi r" for r
    by (auto simp: in_window_def split: option.splits)
  have "\<exists>xs zs. rows = xs @ filter (in_window f l) rows @ zs"
    using assms
  proof (induction rows)
    case (Cons r rs)
    then obtain xs zs where s: "rs = xs @ filter (in_window f l) rs @ zs" by auto
    show ?case
    proof (cases "in_window f l r")
      case False
      show ?thesis
      proof (cases "?lo r")
        case True
        with False s show ?thesis by (intro exI [of _ "r # xs"] exI [of _ zs]) simp
      next
        case lo: False
        with False have "\<not> ?hi r" by (simp add: win)
        then have "\<forall>x \<in> set rs. \<not> in_window f l x"
          using Cons.prems by (force simp: win split: option.splits)
        then have "filter (in_window f l) (r # rs) = []" using False by (simp add: filter_empty_conv)
        then show ?thesis by (metis append_Nil)
      qed
    next
      case True
      show ?thesis
      proof (cases "filter (in_window f l) rs = []")
        case True
        with \<open>in_window f l r\<close> show ?thesis by (intro exI [of _ "[]"] exI [of _ rs]) simp
      next
        case False
        have "xs = []"
        proof (rule ccontr)
          assume "xs \<noteq> []"
          then obtain x xs' where x: "xs = x # xs'" by (cases xs) auto
          obtain w where w: "w \<in> set (filter (in_window f l) rs)" using False by (metis hd_in_set)
          have "ar_seq r \<le> ar_seq x" "ar_seq x \<le> ar_seq w"
            using Cons.prems w by (subst (asm) s, auto simp: x sorted_append)+
          moreover have "in_window f l w" using w by simp
          ultimately have "in_window f l x" using True by (auto simp: in_window_def split: option.splits)
          then have "length (filter (in_window f l) rs) > length (filter (in_window f l) rs)"
            by (subst (2) s) (simp add: x)
          then show False by simp
        qed
        with True s show ?thesis by (intro exI [of _ "[]"] exI [of _ zs]) simp
      qed
    qed
  qed simp
  with that show thesis by blast
qed

lemma verify_window:
  assumes "audit_contiguous t" "audit_log t = xs @ (r # ys) @ zs"
    "filter (in_window f l) (audit_log t) = r # ys"
  shows "vr_ok (verify f l t) \<longleftrightarrow> audit_chain (chain_head ar_row_hash genesis_prev_hash xs) (r # ys)"
proof -
  have asc: "rows_asc t = audit_log t" using assms(1) by (rule rows_asc_contiguous)
  have seqs: "map ar_seq (audit_log t) = map int [1..<Suc (length (audit_log t))]"
    using assms(1) by (simp add: audit_contiguous_def del: upt_Suc)
  show ?thesis
  proof (cases "xs = []")
    case True
    with assms show ?thesis
      by (simp add: verify_def asc min_seq_def verify_from_ok chain_head_def del: chained.simps)
  next
    case False
    then obtain x xs' where x: "xs = x # xs'" by (cases xs) auto
    have split: "audit_log t = xs @ r # (ys @ zs)" using assms(2) by simp
    note fs = find_seq_contiguous [OF seqs split False]
    have "ar_seq x = 1"
      using seqs unfolding split x by (simp add: upt_conv_Cons del: upt_Suc)
    then have "min_seq t \<noteq> Some (ar_seq r)"
      using fs(2) False by (simp add: min_seq_def asc assms(2) x)
    with fs(1) False assms(3) show ?thesis
      using verify_from_linked [of "ar_row_hash (last xs)" r "ar_seq r - 1" ys]
      by (simp add: verify_def asc chain_head_def del: chained.simps)
  qed
qed

lemma last_row_hash_head:
  "last_row_hash t = chain_head ar_row_hash genesis_prev_hash (rows_asc t)"
  by (simp add: last_row_hash_def chain_head_def split: list.split)

lemma audit_intact_append:
  assumes "audit_intact t" "append_row now a d c q dr u ts t = (res, t')"
  shows "audit_intact t'"
proof (cases "a \<in> set valid_actions \<and> d \<in> set valid_decisions")
  case True
  then obtain row where row: "t' = t\<lparr>audit_log := audit_log t @ [row], audit_next_seq := audit_next_seq t + 1\<rparr>"
    "ar_seq row = audit_next_seq t" "ar_prev_hash row = last_row_hash t" "ar_row_hash row = recompute row"
    using assms(2) by (auto simp: append_row_def Let_def recompute_def)
  have ct: "audit_contiguous t" and ch: "audit_chain genesis_prev_hash (audit_log t)"
    using assms(1) by (simp_all add: audit_intact_def)
  have "last_row_hash t = chain_head ar_row_hash genesis_prev_hash (audit_log t)"
    using last_row_hash_head [of t] rows_asc_contiguous [OF ct] by simp
  with row ch have "audit_chain genesis_prev_hash (audit_log t')"
    by (simp add: chained_append)
  moreover have "audit_contiguous t'"
    using ct row by (simp add: audit_contiguous_def)
  ultimately show ?thesis by (simp add: audit_intact_def)
next
  case False
  with assms show ?thesis by (auto simp: append_row_def split: if_splits)
qed

lemma audit_intact_verify: "audit_intact t \<Longrightarrow> vr_ok (verify None None t)"
proof -
  assume t: "audit_intact t"
  then have asc: "rows_asc t = audit_log t" by (simp add: audit_intact_def rows_asc_contiguous)
  show ?thesis
    using t by (cases "audit_log t")
      (simp_all add: verify_def asc in_window_def min_seq_def verify_from_ok audit_intact_def
        del: chained.simps)
qed

lemma verify_full_chain:
  "vr_ok (verify None None t) \<longleftrightarrow> audit_chain genesis_prev_hash (rows_asc t)"
  by (cases "rows_asc t")
    (simp_all add: verify_def in_window_def min_seq_def verify_from_ok del: chained.simps(2))

lemma append_row_frame:
  "append_row now a d c q dr u ts t = (Inr row, t') \<Longrightarrow>
   audit_log t' = audit_log t @ [row] \<and> ar_action row = a \<and> ar_decision row = d \<and> ar_caller row = c \<and>
   ar_request_json row = q \<and> ar_decision_reason row = dr \<and> ar_outcome row = u"
  by (auto simp: append_row_def Let_def split: if_splits)

lemma append_row_valid:
  "a \<in> set valid_actions \<Longrightarrow> d \<in> set valid_decisions \<Longrightarrow>
   \<exists>row t'. append_row now a d c q dr u ts t = (Inr row, t')"
  by (simp add: append_row_def Let_def)

subsection \<open>Properties\<close>

definition empty_audit :: audit_db where
  "empty_audit = \<lparr>audit_log = [], audit_next_seq = 1\<rparr>"

lemma empty_audit_intact [simp]: "audit_intact empty_audit"
  by (simp add: audit_intact_def audit_contiguous_def empty_audit_def)

text \<open>A full verification answers \<open>ok\<close> exactly when the chain is intact: the first row links to
  the genesis hash, every row to its predecessor's stored hash, and every stored hash is the
  SHA-256 recomputed from the row; it then reports the number of rows.\<close>

theorem verify_full_iff_chain:
  "vr_ok (verify None None t) \<longleftrightarrow>
     chained ar_prev_hash ar_row_hash recompute genesis_prev_hash (rows_asc t)"
  by (rule verify_full_chain)

text \<open>A windowed verification raises no false alarm and misses nothing inside its window: on a
  contiguous log it answers \<open>ok\<close> exactly when the window is empty or its rows recompute and chain
  on from the row before it; so on an intact log every window verifies.\<close>

theorem verify_window_exact:
  assumes "audit_contiguous t"
  shows "\<exists>xs ys zs. audit_log t = xs @ ys @ zs \<and> ys = filter (in_window f l) (audit_log t) \<and>
     vr_ok (verify f l t) =
       (ys = [] \<or> chained ar_prev_hash ar_row_hash recompute
          (chain_head ar_row_hash genesis_prev_hash xs) ys) \<and>
     (vr_ok (verify None None t) \<longrightarrow> vr_ok (verify f l t))"
proof -
  have asc: "rows_asc t = audit_log t" using assms by (rule rows_asc_contiguous)
  have "sorted (map ar_seq (audit_log t))"
    using assms unfolding audit_contiguous_def by (metis sorted_map_int_upt)
  then obtain xs ys zs where w: "audit_log t = xs @ ys @ zs"
    and ys: "ys = filter (in_window f l) (audit_log t)"
    by (rule window_segment) blast
  have ok: "vr_ok (verify f l t) = (ys = [] \<or> audit_chain (chain_head ar_row_hash genesis_prev_hash xs) ys)"
  proof (cases ys)
    case Nil
    then show ?thesis by (simp add: verify_def asc ys [symmetric])
  next
    case (Cons r rs)
    have "audit_log t = xs @ (r # rs) @ zs" using w Cons by (simp only:)
    moreover have "filter (in_window f l) (audit_log t) = r # rs" using ys Cons by (simp only:)
    ultimately show ?thesis
      unfolding Cons using verify_window [OF assms] by blast
  qed
  have "vr_ok (verify f l t)" if full: "vr_ok (verify None None t)"
  proof -
    have "audit_chain genesis_prev_hash (xs @ ys @ zs)"
      using full by (simp only: verify_full_chain asc w)
    then show ?thesis by (simp only: ok chained_append simp_thms)
  qed
  with w ys ok show ?thesis by (intro exI [of _ xs] exI [of _ ys] exI [of _ zs]) simp
qed

definition one_row_audit :: audit_db where
  "one_row_audit = snd (append_row 5 ''tx-receipt'' ''approved'' (Some ''clif'') None None None None empty_audit)"

lemma one_row_audit_intact: "audit_intact one_row_audit"
  unfolding one_row_audit_def by (rule audit_intact_append [OF empty_audit_intact]) (rule prod.collapse [symmetric])

lemma verify_window_exact_witness:
  "\<exists>xs ys zs. audit_log one_row_audit = xs @ ys @ zs \<and>
     ys = filter (in_window (Some 1) None) (audit_log one_row_audit) \<and>
     vr_ok (verify (Some 1) None one_row_audit) =
       (ys = [] \<or> chained ar_prev_hash ar_row_hash recompute
          (chain_head ar_row_hash genesis_prev_hash xs) ys) \<and>
     (vr_ok (verify None None one_row_audit) \<longrightarrow> vr_ok (verify (Some 1) None one_row_audit))"
  by (rule verify_window_exact) (use one_row_audit_intact in \<open>simp add: audit_intact_def\<close>)

text \<open>Appending keeps the chain: on an intact log an append raises or adds one row at the end,
  with the fields it was given, and the log is intact again, so it verifies.\<close>

theorem append_keeps_chain:
  assumes "audit_intact t"
  shows "case append_row now a d c q dr u ts t of (res, t') \<Rightarrow>
     audit_intact t' \<and> vr_ok (verify None None t') \<and>
     (if a \<in> set valid_actions \<and> d \<in> set valid_decisions
      then \<exists>row. res = Inr row \<and> audit_log t' = audit_log t @ [row] \<and>
        ar_seq row = int (length (audit_log t)) + 1 \<and> ar_action row = a \<and> ar_decision row = d \<and>
        ar_caller row = c \<and> ar_request_json row = q \<and> ar_decision_reason row = dr \<and>
        ar_outcome row = u \<and> ar_ts row = (case ts of None \<Rightarrow> now | Some v \<Rightarrow> v)
      else t' = t)"
proof -
  obtain res t' where run: "append_row now a d c q dr u ts t = (res, t')" by fastforce
  have "audit_intact t'" using assms run by (rule audit_intact_append)
  moreover have "audit_next_seq t = int (length (audit_log t)) + 1"
    using assms by (simp add: audit_intact_def audit_contiguous_def)
  ultimately show ?thesis
    using run audit_intact_verify by (auto simp: append_row_def Let_def split: if_splits)
qed

lemma append_keeps_chain_witness:
  "case append_row 0 ''tx-receipt'' ''approved'' (Some ''clif'') None None None None empty_audit of
     (res, t') \<Rightarrow>
     audit_intact t' \<and> vr_ok (verify None None t') \<and>
     (if ''tx-receipt'' \<in> set valid_actions \<and> ''approved'' \<in> set valid_decisions
      then \<exists>row. res = Inr row \<and> audit_log t' = audit_log empty_audit @ [row] \<and>
        ar_seq row = int (length (audit_log empty_audit)) + 1 \<and> ar_action row = ''tx-receipt'' \<and>
        ar_decision row = ''approved'' \<and>
        ar_caller row = Some ''clif'' \<and> ar_request_json row = None \<and> ar_decision_reason row = None \<and>
        ar_outcome row = None \<and> ar_ts row = (case None of None \<Rightarrow> 0 | Some v \<Rightarrow> v)
      else t' = empty_audit)"
  by (rule append_keeps_chain) simp

text \<open>C24: the chain is tamper-evident: if two logs both verify and end in the same row hash, they
  agree row by row in every hashed field, unless one can point at two of their rows whose different
  texts have the same SHA-256, or at a row whose hash is the all-zero genesis value.\<close>

theorem audit_tamper_evident:
  assumes "vr_ok (verify None None t)" "vr_ok (verify None None t')"
    and "last_row_hash t = last_row_hash t'"
  shows "map (\<lambda>r. (ar_prev_hash r, isoformat_us (ar_ts r), ar_caller r, ar_action r,
            ar_request_json r, ar_decision r, ar_decision_reason r, ar_outcome r)) (rows_asc t) =
         map (\<lambda>r. (ar_prev_hash r, isoformat_us (ar_ts r), ar_caller r, ar_action r,
            ar_request_json r, ar_decision r, ar_decision_reason r, ar_outcome r)) (rows_asc t') \<or>
    (\<exists>r \<in> set (rows_asc t). \<exists>r' \<in> set (rows_asc t').
       stored_text r \<noteq> stored_text r' \<and>
       sha256 (encode_utf8 (stored_text r)) = sha256 (encode_utf8 (stored_text r'))) \<or>
    (\<exists>r \<in> set (rows_asc t) \<union> set (rows_asc t').
       sha256_hex (encode_utf8 (stored_text r)) = genesis_prev_hash)"
proof -
  have rc: "recompute = (\<lambda>r. sha256_hex (encode_utf8 (stored_text r)))"
    by (simp add: fun_eq_iff recompute_text)
  let ?f = "\<lambda>r. (ar_prev_hash r, isoformat_us (ar_ts r), ar_caller r, ar_action r,
            ar_request_json r, ar_decision r, ar_decision_reason r, ar_outcome r)"
  have "stored_text r = stored_text r' \<Longrightarrow> ?f r = ?f r'" for r r'
    by (simp add: stored_text_def) (drule row_text_inj, simp)
  then have content: "map stored_text xs = map stored_text ys \<Longrightarrow> map ?f xs = map ?f ys" for xs ys
    by (rule map_eq_weaken)
  have "al.chain (rows_asc t)" "al.chain (rows_asc t')"
    "chain_head ar_row_hash genesis_prev_hash (rows_asc t) =
     chain_head ar_row_hash genesis_prev_hash (rows_asc t')"
    using assms unfolding verify_full_chain rc last_row_hash_head by simp_all
  then consider "map stored_text (rows_asc t) = map stored_text (rows_asc t')"
    | x y where "x \<in> set (rows_asc t)" "y \<in> set (rows_asc t')" "stored_text x \<noteq> stored_text y"
        "sha256_hex (encode_utf8 (stored_text x)) = sha256_hex (encode_utf8 (stored_text y))"
    | r where "r \<in> set (rows_asc t) \<union> set (rows_asc t')"
        "sha256_hex (encode_utf8 (stored_text r)) = genesis_prev_hash"
    using al.same_head_same_content [of "rows_asc t" "rows_asc t'"] by blast
  then show ?thesis
  proof cases
    case 1
    then show ?thesis by (intro disjI1 content)
  next
    case 2
    then have "sha256 (encode_utf8 (stored_text x)) = sha256 (encode_utf8 (stored_text y))"
      unfolding sha256_hex_def by (intro bytes_hex_inj)
    with 2 show ?thesis by blast
  next
    case 3
    then show ?thesis by blast
  qed
qed

lemma audit_tamper_evident_witness:
  "map (\<lambda>r. (ar_prev_hash r, isoformat_us (ar_ts r), ar_caller r, ar_action r,
            ar_request_json r, ar_decision r, ar_decision_reason r, ar_outcome r)) (rows_asc one_row_audit) =
   map (\<lambda>r. (ar_prev_hash r, isoformat_us (ar_ts r), ar_caller r, ar_action r,
            ar_request_json r, ar_decision r, ar_decision_reason r, ar_outcome r)) (rows_asc one_row_audit) \<or>
    (\<exists>r \<in> set (rows_asc one_row_audit). \<exists>r' \<in> set (rows_asc one_row_audit).
       stored_text r \<noteq> stored_text r' \<and>
       sha256 (encode_utf8 (stored_text r)) = sha256 (encode_utf8 (stored_text r'))) \<or>
    (\<exists>r \<in> set (rows_asc one_row_audit) \<union> set (rows_asc one_row_audit).
       sha256_hex (encode_utf8 (stored_text r)) = genesis_prev_hash)"
  by (rule audit_tamper_evident) (simp_all add: audit_intact_verify one_row_audit_intact)

text \<open>\<open>verify\<close> never sets \<open>upstream_break\<close>: a first row that does not link to its anchor is
  already reported by the linkage check of the walk, so the branch after the walk that reports an
  upstream break is unreachable.\<close>

theorem upstream_break_never_reported:
  "\<not> vr_upstream_break (verify f l t)"
proof (cases "filter (in_window f l) (rows_asc t)")
  case (Cons r rs)
  have "\<not> vr_upstream_break (verify_from e None (r # rs))" for e
    using verify_loop_Inl [of e 0 "r # rs"]
    by (cases "verify_loop e 0 (r # rs)") (auto simp: verify_from_def)
  with Cons verify_from_linked show ?thesis
    by (auto simp: verify_def Let_def break_at_def split: option.splits)
qed (simp add: verify_def)

end
