(* ===== verification/Transaction_Repo.thy ===== *)
theory Transaction_Repo
  imports Fwd_Prelude
begin

section \<open>The transaction repository (\<open>infra/transaction_repo.py\<close>)\<close>

text \<open>
  The tables \<open>transactions\<close>, \<open>transaction_hashes\<close> and \<open>transaction_attempts\<close> as lists of
  rows in insertion order, with the constraints of migrations 0004 and 0007: the primary keys, the
  partial unique index on (caller, idempotency_key) and the foreign keys.  A violated constraint
  raises \<open>IntegrityError\<close>; \<open>fk_ok\<close> is the outcome of the foreign keys on \<open>wallets\<close> and
  \<open>callers\<close>.  The interface \<open>numbered_rows\<close> states what the two tables numbered by
  \<open>sequence_num\<close> promise.
\<close>

record transaction =
  tx_id :: string
  tx_wallet :: string
  tx_chain :: int
  tx_caller :: string
  tx_nonce :: int
  tx_contract_address :: string
  tx_method_name :: string
  tx_value_wei :: string
  tx_idempotency_key :: "string option"
  tx_request_json :: string
  tx_signed_raw :: "string option"
  tx_status :: string
  tx_submitted_at :: "datetime option"
  tx_confirmed_at :: "datetime option"
  tx_receipt_json :: "string option"
  tx_created_at :: datetime
  tx_reserved_at :: "datetime option"

record transaction_hash =
  th_tx_id :: string
  th_sequence_num :: int
  th_hash_hex :: string
  th_submitted_at :: datetime

record transaction_attempt =
  ta_tx_id :: string
  ta_sequence_num :: int
  ta_gas :: int
  ta_max_fee_per_gas :: int
  ta_max_priority_fee_per_gas :: int
  ta_signed_raw :: string
  ta_hash :: string
  ta_created_at :: datetime

record tx_db =
  transactions :: "transaction list"
  transaction_hashes :: "transaction_hash list"
  transaction_attempts :: "transaction_attempt list"

definition valid_statuses :: "string list" where
  "valid_statuses = [''pending'', ''submitted'', ''mined'', ''failed'', ''reverted'']"

subsection \<open>Transactions\<close>

definition find_tx :: "string \<Rightarrow> tx_db \<Rightarrow> transaction option" where
  "find_tx i t = find (\<lambda>x. tx_id x = i) (transactions t)"

definition get_by_id :: "string \<Rightarrow> bool \<Rightarrow> (tx_db, transaction option) op" where
  "get_by_id i missing_ok =
     bindM (getM (find_tx i)) (\<lambda>row.
     case row of
       None \<Rightarrow> if missing_ok then ret None else raise (TransactionNotFoundError i)
     | Some x \<Rightarrow> ret (Some x))"

definition find_idempotent :: "string \<Rightarrow> string \<Rightarrow> tx_db \<Rightarrow> transaction option" where
  "find_idempotent caller key t =
     find (\<lambda>x. tx_caller x = caller \<and> tx_idempotency_key x = Some key) (transactions t)"

definition get_by_idempotency_key :: "string \<Rightarrow> string \<Rightarrow> (tx_db, transaction option) op" where
  "get_by_idempotency_key caller key = getM (find_idempotent caller key)"

text \<open>\<open>INSERT\<close> under the constraints of the schema.\<close>

definition insert_tx :: "bool \<Rightarrow> transaction \<Rightarrow> (tx_db, unit) op" where
  "insert_tx fk_ok x = (\<lambda>t.
     if \<not> fk_ok \<or> find_tx (tx_id x) t \<noteq> None \<or>
        (case tx_idempotency_key x of None \<Rightarrow> False
         | Some k \<Rightarrow> find_idempotent (tx_caller x) k t \<noteq> None)
     then (Inl IntegrityError, t)
     else (Inr (), t\<lparr>transactions := transactions t @ [x]\<rparr>))"

text \<open>\<open>TransactionRepo.create\<close>; the caller passes the row with the fields \<open>create\<close> fixes
  (\<open>confirmed_at\<close>, \<open>receipt_json\<close>, \<open>created_at\<close>) still to be set.\<close>

definition tx_create :: "bool \<Rightarrow> datetime \<Rightarrow> transaction \<Rightarrow> (tx_db, transaction) op" where
  "tx_create fk_ok now args =
     (if tx_status args \<notin> set valid_statuses
      then raise (ValueError (''invalid status: '' @ tx_status args))
      else bindM (get_by_id (tx_id args) True) (\<lambda>existing.
        if existing \<noteq> None then raise (TransactionExistsError (tx_id args))
        else (let row = args\<lparr>tx_confirmed_at := None, tx_receipt_json := None, tx_created_at := now\<rparr>
              in thenM (insert_tx fk_ok row) (ret row))))"

definition list_by_status :: "string \<Rightarrow> (tx_db, transaction list) op" where
  "list_by_status status =
     (if status \<notin> set valid_statuses then raise (ValueError (''invalid status: '' @ status))
      else getM (\<lambda>t. sort_key tx_created_at (filter (\<lambda>x. tx_status x = status) (transactions t))))"

text \<open>\<open>reserved_at IS NOT NULL AND reserved_at < older_than\<close>, and pending.\<close>

definition is_stale :: "datetime \<Rightarrow> transaction \<Rightarrow> bool" where
  "is_stale older_than x \<longleftrightarrow>
     tx_status x = ''pending'' \<and>
     (case tx_reserved_at x of None \<Rightarrow> False | Some r \<Rightarrow> r < older_than)"

definition has_stale_reservation :: "string \<Rightarrow> int \<Rightarrow> datetime \<Rightarrow> (tx_db, bool) op" where
  "has_stale_reservation wallet chain older_than =
     getM (\<lambda>t. list_ex (\<lambda>x. tx_wallet x = wallet \<and> tx_chain x = chain \<and> is_stale older_than x)
       (transactions t))"

definition list_stale_reservations :: "datetime \<Rightarrow> (tx_db, transaction list) op" where
  "list_stale_reservations older_than =
     getM (\<lambda>t. sort_key (\<lambda>x. case tx_reserved_at x of None \<Rightarrow> 0 | Some r \<Rightarrow> r)
       (filter (is_stale older_than) (transactions t)))"

definition in_flight :: "transaction \<Rightarrow> bool" where
  "in_flight x \<longleftrightarrow> tx_status x = ''pending'' \<or> tx_status x = ''submitted''"

definition count_in_flight :: "string \<Rightarrow> int \<Rightarrow> (tx_db, nat) op" where
  "count_in_flight wallet chain =
     getM (\<lambda>t. length (filter (\<lambda>x. tx_wallet x = wallet \<and> tx_chain x = chain \<and> in_flight x)
       (transactions t)))"

definition set_if :: "'a option \<Rightarrow> 'a option \<Rightarrow> 'a option" where
  "set_if new old = (case new of None \<Rightarrow> old | Some v \<Rightarrow> Some v)"

definition status_values ::
  "string \<Rightarrow> datetime option \<Rightarrow> string option \<Rightarrow> string option \<Rightarrow> datetime option \<Rightarrow>
   transaction \<Rightarrow> transaction" where
  "status_values status confirmed receipt raw submitted x =
     x\<lparr>tx_status := status,
       tx_confirmed_at := set_if confirmed (tx_confirmed_at x),
       tx_receipt_json := set_if receipt (tx_receipt_json x),
       tx_signed_raw := set_if raw (tx_signed_raw x),
       tx_submitted_at := set_if submitted (tx_submitted_at x)\<rparr>"

definition update_status ::
  "string \<Rightarrow> string \<Rightarrow> datetime option \<Rightarrow> string option \<Rightarrow> string option \<Rightarrow> datetime option \<Rightarrow>
   (tx_db, unit) op" where
  "update_status i status confirmed receipt raw submitted =
     (if status \<notin> set valid_statuses then raise (ValueError (''invalid status: '' @ status))
      else modifyM (\<lambda>t. t\<lparr>transactions := map (\<lambda>x.
        if tx_id x = i then status_values status confirmed receipt raw submitted x else x)
        (transactions t)\<rparr>))"

subsection \<open>Hashes and attempts\<close>

definition add_hash :: "datetime \<Rightarrow> string \<Rightarrow> string \<Rightarrow> int \<Rightarrow> (tx_db, transaction_hash) op" where
  "add_hash now i hash_hex sequence_num = (\<lambda>t.
     let row = \<lparr>th_tx_id = i, th_sequence_num = sequence_num, th_hash_hex = hash_hex,
                th_submitted_at = now\<rparr> in
     if find_tx i t = None \<or>
        list_ex (\<lambda>h. th_tx_id h = i \<and> th_sequence_num h = sequence_num) (transaction_hashes t)
     then (Inl IntegrityError, t)
     else (Inr row, t\<lparr>transaction_hashes := transaction_hashes t @ [row]\<rparr>))"

definition list_hashes_by_tx :: "string \<Rightarrow> (tx_db, transaction_hash list) op" where
  "list_hashes_by_tx i =
     getM (\<lambda>t. sort_key th_sequence_num (filter (\<lambda>h. th_tx_id h = i) (transaction_hashes t)))"

definition add_attempt :: "transaction_attempt \<Rightarrow> (tx_db, transaction_attempt) op" where
  "add_attempt row = (\<lambda>t.
     if list_ex (\<lambda>a. ta_tx_id a = ta_tx_id row \<and> ta_sequence_num a = ta_sequence_num row)
        (transaction_attempts t)
     then (Inl IntegrityError, t)
     else (Inr row, t\<lparr>transaction_attempts := transaction_attempts t @ [row]\<rparr>))"

definition list_attempts :: "string \<Rightarrow> (tx_db, transaction_attempt list) op" where
  "list_attempts i =
     getM (\<lambda>t. sort_key ta_sequence_num (filter (\<lambda>a. ta_tx_id a = i) (transaction_attempts t)))"

definition latest_attempt :: "string \<Rightarrow> (tx_db, transaction_attempt option) op" where
  "latest_attempt i =
     getM (\<lambda>t. case sort_key (\<lambda>a. - ta_sequence_num a)
                   (filter (\<lambda>a. ta_tx_id a = i) (transaction_attempts t)) of
       [] \<Rightarrow> None
     | a # _ \<Rightarrow> Some a)"

subsection \<open>Lookups after updates\<close>

lemma find_append: "find P (xs @ ys) = (case find P xs of None \<Rightarrow> find P ys | Some x \<Rightarrow> Some x)"
  by (induction xs) auto

lemma find_tx_id: "find_tx i t = Some x \<Longrightarrow> tx_id x = i \<and> x \<in> set (transactions t)"
  by (auto simp: find_tx_def find_Some_iff)

lemma find_tx_None: "find_tx i t = None \<longleftrightarrow> i \<notin> tx_id ` set (transactions t)"
  by (auto simp: find_tx_def find_None_iff)

lemma find_idempotent_Some:
  "find_idempotent c k t = Some x \<Longrightarrow>
   x \<in> set (transactions t) \<and> tx_caller x = c \<and> tx_idempotency_key x = Some k"
  by (auto simp: find_idempotent_def find_Some_iff)

lemma find_idempotent_None:
  "find_idempotent c k t = None \<longleftrightarrow>
   (\<forall>x \<in> set (transactions t). \<not> (tx_caller x = c \<and> tx_idempotency_key x = Some k))"
  by (auto simp: find_idempotent_def find_None_iff)

lemma find_tx_unique:
  "distinct (map tx_id (transactions t)) \<Longrightarrow> x \<in> set (transactions t) \<Longrightarrow> find_tx (tx_id x) t = Some x"
proof -
  have "distinct (map tx_id xs) \<Longrightarrow> x \<in> set xs \<Longrightarrow> find (\<lambda>y. tx_id y = tx_id x) xs = Some x" for xs
    by (induction xs) (auto simp: image_iff)
  then show "distinct (map tx_id (transactions t)) \<Longrightarrow> x \<in> set (transactions t) \<Longrightarrow>
      find_tx (tx_id x) t = Some x"
    by (simp add: find_tx_def)
qed

lemma status_values_frame [simp]:
  "tx_id (status_values s c r w u x) = tx_id x" "tx_wallet (status_values s c r w u x) = tx_wallet x"
  "tx_chain (status_values s c r w u x) = tx_chain x" "tx_nonce (status_values s c r w u x) = tx_nonce x"
  "tx_caller (status_values s c r w u x) = tx_caller x"
  "tx_status (status_values s c r w u x) = s"
  "tx_idempotency_key (status_values s c r w u x) = tx_idempotency_key x"
  "tx_request_json (status_values s c r w u x) = tx_request_json x"
  "tx_value_wei (status_values s c r w u x) = tx_value_wei x"
  "tx_contract_address (status_values s c r w u x) = tx_contract_address x"
  "tx_reserved_at (status_values s c r w u x) = tx_reserved_at x"
  by (simp_all add: status_values_def)

lemma find_map_upd:
  "(\<And>x. P (f x) = P x) \<Longrightarrow> find P (map f xs) = map_option f (find P xs)"
  by (induction xs) auto

lemma update_status_run:
  "s \<in> set valid_statuses \<Longrightarrow>
   update_status i s c r w u t = (Inr (), t\<lparr>transactions := map (\<lambda>x.
     if tx_id x = i then status_values s c r w u x else x) (transactions t)\<rparr>)"
  by (simp add: update_status_def)

lemma find_tx_update:
  "find_tx j (t\<lparr>transactions := map (\<lambda>x. if tx_id x = i then status_values s c r w u x else x)
      (transactions t)\<rparr>) =
   (if j = i then map_option (status_values s c r w u) (find_tx i t) else find_tx j t)"
proof -
  have "find_tx j (t\<lparr>transactions := map (\<lambda>x. if tx_id x = i then status_values s c r w u x else x)
      (transactions t)\<rparr>) =
      map_option (\<lambda>x. if tx_id x = i then status_values s c r w u x else x) (find_tx j t)"
    unfolding find_tx_def by (simp add: find_map_upd)
  then show ?thesis
    by (cases "find_tx j t") (auto dest: find_tx_id)
qed

subsection \<open>Well-formed tables\<close>

text \<open>What the primary keys, the unique index and the status check keep true.\<close>

definition idem_keys :: "transaction list \<Rightarrow> (string \<times> string option) list" where
  "idem_keys xs = map (\<lambda>x. (tx_caller x, tx_idempotency_key x))
     (filter (\<lambda>x. tx_idempotency_key x \<noteq> None) xs)"

lemma idem_keys_simps [simp]:
  "idem_keys [] = []"
  "idem_keys (x # xs) = (case tx_idempotency_key x of None \<Rightarrow> idem_keys xs
     | Some k \<Rightarrow> (tx_caller x, Some k) # idem_keys xs)"
  by (auto simp: idem_keys_def split: option.splits)

definition tx_rows_wf :: "transaction list \<Rightarrow> bool" where
  "tx_rows_wf xs \<longleftrightarrow>
     distinct (map tx_id xs) \<and> list_all (\<lambda>x. tx_status x \<in> set valid_statuses) xs \<and>
     distinct (idem_keys xs)"

definition tx_wf :: "tx_db \<Rightarrow> bool" where
  "tx_wf t \<longleftrightarrow> tx_rows_wf (transactions t) \<and>
     distinct (map (\<lambda>h. (th_tx_id h, th_sequence_num h)) (transaction_hashes t)) \<and>
     (\<forall>h \<in> set (transaction_hashes t). th_tx_id h \<in> tx_id ` set (transactions t)) \<and>
     distinct (map (\<lambda>a. (ta_tx_id a, ta_sequence_num a)) (transaction_attempts t))"

lemma tx_rows_wf_snoc:
  assumes "tx_rows_wf xs" "tx_id x \<notin> tx_id ` set xs" "tx_status x \<in> set valid_statuses"
    "\<And>k y. tx_idempotency_key x = Some k \<Longrightarrow> y \<in> set xs \<Longrightarrow>
       \<not> (tx_caller y = tx_caller x \<and> tx_idempotency_key y = Some k)"
  shows "tx_rows_wf (xs @ [x])"
proof -
  have "distinct (idem_keys (xs @ [x]))"
    using assms(1,4) by (cases "tx_idempotency_key x") (auto simp: tx_rows_wf_def idem_keys_def)
  with assms(1-3) show ?thesis by (simp add: tx_rows_wf_def)
qed

lemma tx_rows_wf_map:
  assumes "tx_rows_wf xs"
    and f: "\<And>x. tx_id (f x) = tx_id x" "\<And>x. tx_caller (f x) = tx_caller x"
      "\<And>x. tx_idempotency_key (f x) = tx_idempotency_key x"
      "\<And>x. x \<in> set xs \<Longrightarrow> tx_status (f x) \<in> set valid_statuses"
  shows "tx_rows_wf (map f xs)"
proof -
  have "idem_keys (map f xs) = idem_keys xs" by (simp add: idem_keys_def filter_map o_def f)
  moreover have "map tx_id (map f xs) = map tx_id xs" by (simp add: f)
  moreover have "list_all (\<lambda>x. tx_status x \<in> set valid_statuses) (map f xs)"
    using f(4) by (simp add: list_all_iff)
  ultimately show ?thesis using assms(1) unfolding tx_rows_wf_def by metis
qed

lemma tx_wf_unique_key:
  assumes "tx_wf t" "x \<in> set (transactions t)" "tx_idempotency_key x = Some k"
  shows "find_idempotent (tx_caller x) k t = Some x"
proof -
  have "distinct (idem_keys xs) \<Longrightarrow> x \<in> set xs \<Longrightarrow>
      find (\<lambda>y. tx_caller y = tx_caller x \<and> tx_idempotency_key y = Some k) xs = Some x" for xs
  proof (induction xs)
    case (Cons y ys)
    show ?case
    proof (cases "x \<in> set ys")
      case True
      then have "(tx_caller x, Some k) \<in> set (idem_keys ys)"
        using assms(3) by (force simp: idem_keys_def)
      then have "\<not> (tx_caller y = tx_caller x \<and> tx_idempotency_key y = Some k)"
        using Cons.prems(1) by auto
      moreover have "distinct (idem_keys ys)"
        using Cons.prems(1) by (simp split: option.splits)
      ultimately show ?thesis using Cons.IH True by auto
    qed (use Cons.prems assms(3) in simp)
  qed simp
  with assms(1,2) show ?thesis by (simp add: find_idempotent_def tx_wf_def tx_rows_wf_def)
qed

lemma tx_create_cases:
  assumes "tx_create fk now args t = (res, t')"
  obtains (failed) e where "res = Inl e" "t' = t"
  | (created) row where "res = Inr row"
      "row = args\<lparr>tx_confirmed_at := None, tx_receipt_json := None, tx_created_at := now\<rparr>"
      "t' = t\<lparr>transactions := transactions t @ [row]\<rparr>"
      "fk" "tx_status args \<in> set valid_statuses" "find_tx (tx_id args) t = None"
      "\<forall>k. tx_idempotency_key args = Some k \<longrightarrow> find_idempotent (tx_caller args) k t = None"
  using assms
  by (auto simp: tx_create_def get_by_id_def insert_tx_def bindM_run thenM_def Let_def
      split: if_splits option.splits)

lemma tx_create_wf:
  assumes "tx_wf t" "tx_create fk now args t = (res, t')"
  shows "tx_wf t'"
  using assms(2)
proof (cases rule: tx_create_cases)
  case (created row)
  have "tx_rows_wf (transactions t @ [row])"
    using assms(1) created
    by (intro tx_rows_wf_snoc) (auto simp: tx_wf_def find_tx_None find_idempotent_None)
  with assms(1) created show ?thesis by (simp add: tx_wf_def)
qed (use assms in simp)

lemma update_status_wf:
  assumes "tx_wf t" "update_status i s c r w u t = (res, t')"
  shows "tx_wf t'"
proof (cases "s \<in> set valid_statuses")
  case True
  let ?f = "\<lambda>x. if tx_id x = i then status_values s c r w u x else x"
  have t': "t' = t\<lparr>transactions := map ?f (transactions t)\<rparr>"
    using assms(2) True by (simp add: update_status_run)
  have "tx_rows_wf (map ?f (transactions t))"
    using assms(1) True by (intro tx_rows_wf_map) (auto simp: tx_wf_def tx_rows_wf_def list_all_iff)
  moreover have "tx_id ` set (map ?f (transactions t)) = tx_id ` set (transactions t)"
    unfolding set_map image_image by (rule image_cong) (simp_all add: status_values_def)
  ultimately show ?thesis using assms(1) unfolding tx_wf_def t' by simp
next
  case False
  with assms show ?thesis by (simp add: update_status_def)
qed

lemma add_hash_cases:
  assumes "add_hash now i h n t = (res, t')"
  obtains (failed) "res = Inl IntegrityError" "t' = t"
  | (added) row where "res = Inr row"
      "row = \<lparr>th_tx_id = i, th_sequence_num = n, th_hash_hex = h, th_submitted_at = now\<rparr>"
      "t' = t\<lparr>transaction_hashes := transaction_hashes t @ [row]\<rparr>"
      "(i, n) \<notin> (\<lambda>h. (th_tx_id h, th_sequence_num h)) ` set (transaction_hashes t)"
      "i \<in> tx_id ` set (transactions t)"
  using assms by (force simp: add_hash_def Let_def list_ex_iff dest: find_tx_id split: if_splits)

lemma add_attempt_cases:
  assumes "add_attempt a t = (res, t')"
  obtains (failed) "res = Inl IntegrityError" "t' = t"
  | (added) "res = Inr a" "t' = t\<lparr>transaction_attempts := transaction_attempts t @ [a]\<rparr>"
      "(ta_tx_id a, ta_sequence_num a) \<notin>
         (\<lambda>a. (ta_tx_id a, ta_sequence_num a)) ` set (transaction_attempts t)"
  using assms by (force simp: add_attempt_def list_ex_iff split: if_splits)

lemma add_hash_wf: "tx_wf t \<Longrightarrow> add_hash now i h n t = (res, t') \<Longrightarrow> tx_wf t'"
  by (erule add_hash_cases) (simp_all add: tx_wf_def)

lemma add_attempt_wf: "tx_wf t \<Longrightarrow> add_attempt a t = (res, t') \<Longrightarrow> tx_wf t'"
  by (erule add_attempt_cases) (simp_all add: tx_wf_def)

subsection \<open>Rows numbered by \<open>sequence_num\<close>\<close>

text \<open>
  The hashes and the attempts of a transaction are numbered; the store refuses a second row with
  the same number.  The client numbers a new row with one more than the rows it reads, so the
  numbers stay \<open>1..n\<close> and the newest row is the one with the highest number.
\<close>

locale numbered_rows =
  fixes nums :: "'s \<Rightarrow> string \<Rightarrow> int list"
    and add :: "'r \<Rightarrow> ('s, 'b) op"
    and owner :: "'r \<Rightarrow> string"
    and num :: "'r \<Rightarrow> int"
  assumes add_nums: "add r s = (Inr b, t) \<Longrightarrow>
      nums t i = (if i = owner r then nums s i @ [num r] else nums s i)"
    and add_error: "add r s = (Inl e, t) \<Longrightarrow> t = s"
begin

definition numbered :: "'s \<Rightarrow> bool" where
  "numbered s \<longleftrightarrow> (\<forall>i. nums s i = map int [1..<Suc (length (nums s i))])"

lemma add_next_numbered:
  assumes "numbered s" "add r s = (res, t)" "num r = int (length (nums s (owner r))) + 1"
  shows "numbered t"
proof (cases res)
  case (Inl e)
  with assms add_error show ?thesis by (metis)
next
  case (Inr b)
  have n: "nums t i = (if i = owner r then nums s i @ [num r] else nums s i)" for i
    using assms(2) add_nums by (simp add: Inr)
  have "nums t i = map int [1..<Suc (length (nums t i))]" for i
  proof (cases "i = owner r")
    case True
    have "nums s i @ [num r] =
        map int [1..<Suc (length (nums s i))] @ [int (Suc (length (nums s i)))]"
      using assms(1,3) True unfolding numbered_def by (metis add.commute of_nat_Suc)
    then show ?thesis by (simp add: n True)
  next
    case False
    with assms(1) n [of i] show ?thesis by (simp add: numbered_def)
  qed
  then show ?thesis by (simp add: numbered_def)
qed

end

definition hash_nums :: "tx_db \<Rightarrow> string \<Rightarrow> int list" where
  "hash_nums t i = map th_sequence_num (filter (\<lambda>h. th_tx_id h = i) (transaction_hashes t))"

definition attempt_nums :: "tx_db \<Rightarrow> string \<Rightarrow> int list" where
  "attempt_nums t i = map ta_sequence_num (filter (\<lambda>a. ta_tx_id a = i) (transaction_attempts t))"

definition add_hash_row :: "transaction_hash \<Rightarrow> (tx_db, transaction_hash) op" where
  "add_hash_row h = add_hash (th_submitted_at h) (th_tx_id h) (th_hash_hex h) (th_sequence_num h)"

interpretation hash_rows: numbered_rows hash_nums add_hash_row th_tx_id th_sequence_num
  by unfold_locales
    (auto simp: add_hash_row_def hash_nums_def elim!: add_hash_cases)

interpretation attempt_rows: numbered_rows attempt_nums add_attempt ta_tx_id ta_sequence_num
  by unfold_locales (auto simp: attempt_nums_def elim!: add_attempt_cases)

text \<open>On numbered rows, \<open>latest_attempt\<close> is the newest row and \<open>list_attempts\<close> keeps the
  order of insertion.\<close>

lemma list_attempts_numbered:
  assumes "attempt_rows.numbered t"
  shows "list_attempts i t = (Inr (filter (\<lambda>a. ta_tx_id a = i) (transaction_attempts t)), t)"
proof -
  have "attempt_nums t i = map int [1..<Suc (length (attempt_nums t i))]"
    using assms by (simp only: attempt_rows.numbered_def)
  then have "sorted (attempt_nums t i)" by (metis sorted_map_int_upt)
  then show ?thesis by (simp add: list_attempts_def attempt_nums_def sort_key_sorted)
qed

lemma foldr_insort_min:
  "\<forall>y \<in> set xs. f x < f y \<Longrightarrow> foldr (insort_key f) xs (x # zs) = x # foldr (insort_key f) xs zs"
  by (induction xs) auto

lemma latest_attempt_numbered:
  assumes "attempt_rows.numbered t"
  shows "latest_attempt i t =
    (Inr (let xs = filter (\<lambda>a. ta_tx_id a = i) (transaction_attempts t)
          in if xs = [] then None else Some (last xs)), t)"
proof (cases "filter (\<lambda>a. ta_tx_id a = i) (transaction_attempts t)" rule: rev_cases)
  case Nil
  then show ?thesis by (simp add: latest_attempt_def)
next
  case (snoc ys y)
  have "attempt_nums t i = map int [1..<Suc (length (attempt_nums t i))]"
    using assms by (simp only: attempt_rows.numbered_def)
  then have "map ta_sequence_num (ys @ [y]) = map int [1..<Suc (Suc (length ys))]"
    by (simp add: attempt_nums_def snoc del: upt_Suc)
  then have m: "map ta_sequence_num ys = map int [1..<Suc (length ys)]"
    "ta_sequence_num y = int (Suc (length ys))" by simp_all
  have "\<forall>x \<in> set ys. ta_sequence_num x < ta_sequence_num y"
  proof
    fix x assume "x \<in> set ys"
    then have "ta_sequence_num x \<in> set (map int [1..<Suc (length ys)])"
      using m(1) by (metis image_eqI list.set_map)
    then show "ta_sequence_num x < ta_sequence_num y" by (auto simp: m(2))
  qed
  then have "sort_key (\<lambda>a. - ta_sequence_num a) (ys @ [y]) = y # foldr (insort_key (\<lambda>a. - ta_sequence_num a)) ys []"
    by (simp add: sort_key_def foldr_insort_min)
  with snoc show ?thesis by (simp add: latest_attempt_def)
qed

subsection \<open>Properties\<close>

text \<open>\<open>create\<close> stores the transaction exactly once: it either raises and changes nothing, or
  appends the one row with that id, which both lookups then find; it raises precisely for an unknown
  status, a taken id, a taken (caller, idempotency key) or a missing wallet or caller.\<close>

theorem tx_create_spec:
  "case tx_create fk now args t of (res, t') \<Rightarrow>
     (if tx_status args \<notin> set valid_statuses
      then res = Inl (ValueError (''invalid status: '' @ tx_status args)) \<and> t' = t
      else if find_tx (tx_id args) t \<noteq> None
      then res = Inl (TransactionExistsError (tx_id args)) \<and> t' = t
      else if (if fk then \<exists>k. tx_idempotency_key args = Some k \<and> find_idempotent (tx_caller args) k t \<noteq> None
               else True)
      then res = Inl IntegrityError \<and> t' = t
      else \<exists>row. res = Inr row \<and> tx_confirmed_at row = None \<and> tx_nonce row = tx_nonce args \<and>
        tx_status row = tx_status args \<and> transactions t' = transactions t @ [row] \<and>
        find_tx (tx_id args) t' = Some row \<and>
        (case tx_idempotency_key args of None \<Rightarrow> True
         | Some k \<Rightarrow> find_idempotent (tx_caller args) k t' = Some row) \<and>
        transaction_hashes t' = transaction_hashes t \<and>
        transaction_attempts t' = transaction_attempts t)"
  by (auto simp: tx_create_def get_by_id_def insert_tx_def bindM_run thenM_def Let_def find_tx_def
      find_idempotent_def find_append split: option.splits)

text \<open>The tables stay well-formed: ids unique, every status one of the five, at most one
  transaction per (caller, idempotency key), at most one hash and one attempt per sequence number,
  every hash that of a stored transaction, under every operation that writes them.\<close>

theorem tx_tables_wf:
  assumes "tx_wf t"
  shows "tx_wf (snd (tx_create fk now args t)) \<and> tx_wf (snd (update_status i s c r w u t)) \<and>
    tx_wf (snd (add_hash now i h n t)) \<and> tx_wf (snd (add_attempt a t))"
  using assms tx_create_wf update_status_wf add_hash_wf add_attempt_wf by (metis prod.collapse)

definition empty_txs :: tx_db where
  "empty_txs = \<lparr>transactions = [], transaction_hashes = [], transaction_attempts = []\<rparr>"

lemma tx_tables_wf_witness:
  "\<forall>row att. tx_wf (snd (tx_create True 5 row empty_txs)) \<and>
     tx_wf (snd (update_status ''a'' ''mined'' None None None None empty_txs)) \<and>
     tx_wf (snd (add_hash 5 ''a'' ''0x'' 1 empty_txs)) \<and> tx_wf (snd (add_attempt att empty_txs))"
  by (intro allI tx_tables_wf) (simp add: tx_wf_def tx_rows_wf_def empty_txs_def)

text \<open>A wallet is reported as wedged exactly when the list of stale reservations has a row of
  that (wallet, chain), and every listed row is pending with a reservation older than the lease.\<close>

theorem stale_reservations_agree:
  "\<exists>xs. list_stale_reservations older t = (Inr xs, t) \<and>
     has_stale_reservation w c older t = (Inr (\<exists>x \<in> set xs. tx_wallet x = w \<and> tx_chain x = c), t) \<and>
     set xs = {x \<in> set (transactions t). tx_status x = ''pending'' \<and>
       (\<exists>r. tx_reserved_at x = Some r \<and> r < older)}"
  by (auto simp: list_stale_reservations_def has_stale_reservation_def is_stale_def list_ex_iff
      split: option.splits)

end
