(* ===== verification/Session.thy ===== *)
theory Session
  imports Rate_Repo Nonce_Repo Audit_Repo Transaction_Repo Accounts_Repo
begin

section \<open>The database and its sessions\<close>

text \<open>
  \<open>infra/db.py\<close> and the scopes of \<open>app/dependencies.py\<close>.  All tables live in one SQLite
  file, the record \<open>db\<close>.  A session works on a copy and publishes it on commit: \<open>work\<close> is
  what its statements see, \<open>durable\<close> what survives a rollback.  Every writing session opens with
  \<open>BEGIN IMMEDIATE\<close>, so sessions run one after the other and each is a function on \<open>db\<close>.
  The interface \<open>state_part\<close> states what the table of one repository is inside the database.
\<close>

record db =
  db_wallets :: wallet_db
  db_callers :: caller_db
  db_txs :: tx_db
  db_nonces :: nonce_db
  db_rates :: rate_db
  db_audit :: audit_db

record session =
  work :: db
  durable :: db

subsection \<open>Parts of a state\<close>

locale state_part =
  fixes get :: "'s \<Rightarrow> 'a" and put :: "'a \<Rightarrow> 's \<Rightarrow> 's"
  assumes get_put: "get (put a s) = a"
    and put_get: "put (get s) s = s"
    and put_put: "put b (put a s) = put b s"
begin

lemma zoom_ret: "zoom get put (ret v) = ret v"
  by (simp add: zoom_def fun_eq_iff put_get)

lemma zoom_raise: "zoom get put (raise e) = raise e"
  by (simp add: zoom_def fun_eq_iff put_get)

lemma zoom_bind: "zoom get put (bindM m f) = bindM (zoom get put m) (\<lambda>x. zoom get put (f x))"
proof
  fix s
  show "zoom get put (bindM m f) s = bindM (zoom get put m) (\<lambda>x. zoom get put (f x)) s"
    by (cases "m (get s)"; cases "fst (m (get s))")
      (auto simp: zoom_def bindM_run get_put put_put split: prod.splits)
qed

lemma zoom_catch: "zoom get put (catchM m h) = catchM (zoom get put m) (\<lambda>e. zoom get put (h e))"
proof
  fix s
  show "zoom get put (catchM m h) s = catchM (zoom get put m) (\<lambda>e. zoom get put (h e)) s"
    by (cases "m (get s)"; cases "fst (m (get s))")
      (auto simp: zoom_def catchM_def get_put put_put split: prod.splits)
qed

lemma zoom_read:
  assumes "\<And>t. snd (m t) = t"
  shows "zoom get put m s = (fst (m (get s)), s)"
  using assms [of "get s"] by (cases "m (get s)") (simp add: zoom_def put_get)

end

text \<open>The repositories built on one session.\<close>

definition put_wallets :: "wallet_db \<Rightarrow> session \<Rightarrow> session" where
  "put_wallets v s = s\<lparr>work := (work s)\<lparr>db_wallets := v\<rparr>\<rparr>"

definition put_callers :: "caller_db \<Rightarrow> session \<Rightarrow> session" where
  "put_callers v s = s\<lparr>work := (work s)\<lparr>db_callers := v\<rparr>\<rparr>"

definition put_txs :: "tx_db \<Rightarrow> session \<Rightarrow> session" where
  "put_txs v s = s\<lparr>work := (work s)\<lparr>db_txs := v\<rparr>\<rparr>"

definition put_nonces :: "nonce_db \<Rightarrow> session \<Rightarrow> session" where
  "put_nonces v s = s\<lparr>work := (work s)\<lparr>db_nonces := v\<rparr>\<rparr>"

definition put_rates :: "rate_db \<Rightarrow> session \<Rightarrow> session" where
  "put_rates v s = s\<lparr>work := (work s)\<lparr>db_rates := v\<rparr>\<rparr>"

definition put_audit :: "audit_db \<Rightarrow> session \<Rightarrow> session" where
  "put_audit v s = s\<lparr>work := (work s)\<lparr>db_audit := v\<rparr>\<rparr>"

interpretation wallets_part: state_part "\<lambda>s. db_wallets (work s)" put_wallets
  by unfold_locales (simp_all add: put_wallets_def)

interpretation callers_part: state_part "\<lambda>s. db_callers (work s)" put_callers
  by unfold_locales (simp_all add: put_callers_def)

interpretation txs_part: state_part "\<lambda>s. db_txs (work s)" put_txs
  by unfold_locales (simp_all add: put_txs_def)

interpretation nonces_part: state_part "\<lambda>s. db_nonces (work s)" put_nonces
  by unfold_locales (simp_all add: put_nonces_def)

interpretation rates_part: state_part "\<lambda>s. db_rates (work s)" put_rates
  by unfold_locales (simp_all add: put_rates_def)

interpretation audit_part: state_part "\<lambda>s. db_audit (work s)" put_audit
  by unfold_locales (simp_all add: put_audit_def)

definition on_wallets :: "(wallet_db, 'a) op \<Rightarrow> (session, 'a) op" where
  "on_wallets = zoom (\<lambda>s. db_wallets (work s)) put_wallets"

definition on_callers :: "(caller_db, 'a) op \<Rightarrow> (session, 'a) op" where
  "on_callers = zoom (\<lambda>s. db_callers (work s)) put_callers"

definition on_txs :: "(tx_db, 'a) op \<Rightarrow> (session, 'a) op" where
  "on_txs = zoom (\<lambda>s. db_txs (work s)) put_txs"

definition on_nonces :: "(nonce_db, 'a) op \<Rightarrow> (session, 'a) op" where
  "on_nonces = zoom (\<lambda>s. db_nonces (work s)) put_nonces"

definition on_rates :: "(rate_db, 'a) op \<Rightarrow> (session, 'a) op" where
  "on_rates = zoom (\<lambda>s. db_rates (work s)) put_rates"

definition on_audit :: "(audit_db, 'a) op \<Rightarrow> (session, 'a) op" where
  "on_audit = zoom (\<lambda>s. db_audit (work s)) put_audit"

lemmas on_defs = on_wallets_def on_callers_def on_txs_def on_nonces_def on_rates_def on_audit_def

lemmas put_defs = put_wallets_def put_callers_def put_txs_def put_nonces_def put_rates_def
  put_audit_def

text \<open>One statement on a repository, run: the statement's result, its table replaced.\<close>

lemma on_run:
  "on_wallets m1 s = (case m1 (db_wallets (work s)) of (r, v) \<Rightarrow> (r, put_wallets v s))"
  "on_callers m2 s = (case m2 (db_callers (work s)) of (r, v) \<Rightarrow> (r, put_callers v s))"
  "on_txs m3 s = (case m3 (db_txs (work s)) of (r, v) \<Rightarrow> (r, put_txs v s))"
  "on_nonces m4 s = (case m4 (db_nonces (work s)) of (r, v) \<Rightarrow> (r, put_nonces v s))"
  "on_rates m5 s = (case m5 (db_rates (work s)) of (r, v) \<Rightarrow> (r, put_rates v s))"
  "on_audit m6 s = (case m6 (db_audit (work s)) of (r, v) \<Rightarrow> (r, put_audit v s))"
  by (simp_all add: on_defs zoom_def)

lemma put_same [simp]:
  "put_wallets (db_wallets (work s)) s = s" "put_callers (db_callers (work s)) s = s"
  "put_txs (db_txs (work s)) s = s" "put_nonces (db_nonces (work s)) s = s"
  "put_rates (db_rates (work s)) s = s" "put_audit (db_audit (work s)) s = s"
  by (simp_all add: wallets_part.put_get callers_part.put_get txs_part.put_get nonces_part.put_get
      rates_part.put_get audit_part.put_get)

subsection \<open>Commit and scope\<close>

text \<open>\<open>AuditRepo.commit\<close>: the session's commit, made before an exception is raised.\<close>

definition audit_commit :: "(session, unit) op" where
  "audit_commit = modifyM (\<lambda>s. s\<lparr>durable := work s\<rparr>)"

lemma audit_commit_run [simp]: "audit_commit s = (Inr (), s\<lparr>durable := work s\<rparr>)"
  by (simp add: audit_commit_def)

definition open_session :: "db \<Rightarrow> session" where
  "open_session d = \<lparr>work = d, durable = d\<rparr>"

definition session_scope :: "bool \<Rightarrow> (session, 'a) op \<Rightarrow> (db, 'a) op" where
  "session_scope read_only body = (\<lambda>d.
     case body (open_session d) of
       (Inr a, s) \<Rightarrow> (Inr a, if read_only then durable s else work s)
     | (Inl e, s) \<Rightarrow> (Inl e, durable s))"

text \<open>The scopes that open the sealed master first; \<open>vault\<close> is how that went.\<close>

definition sealed_scope :: "bool \<Rightarrow> (session, 'a) op \<Rightarrow> (db, 'a) op" where
  "sealed_scope vault body =
     (if vault then session_scope False body else raise ScopeVaultUnavailableError)"

lemma open_session_simps [simp]: "work (open_session d) = d" "durable (open_session d) = d"
  by (simp_all add: open_session_def)

lemma session_scope_cases:
  assumes "session_scope ro body d = (res, d')"
  obtains (committed) a s where "res = Inr a" "body (open_session d) = (Inr a, s)"
      "d' = (if ro then durable s else work s)"
  | (rolled_back) e s where "res = Inl e" "body (open_session d) = (Inl e, s)" "d' = durable s"
  using assms by (auto simp: session_scope_def split: prod.splits sum.splits)

text \<open>Nothing of a failed body is kept unless the body committed it itself.\<close>

definition commit_free :: "(session, 'a) op \<Rightarrow> bool" where
  "commit_free m \<longleftrightarrow> (\<forall>s. durable (snd (m s)) = durable s)"

named_theorems commit_free_rules

lemma commit_free_basic [commit_free_rules]:
  "commit_free (ret a)" "commit_free (raise e)" "commit_free (getM f)" "commit_free (ofSum r)"
  by (simp_all add: commit_free_def)

lemma commit_free_bind [commit_free_rules]:
  assumes "commit_free m" "\<And>x. commit_free (f x)"
  shows "commit_free (bindM m f)"
  unfolding commit_free_def
proof
  fix s
  obtain r t where m: "m s = (r, t)" by fastforce
  then have "durable t = durable s" using assms(1) by (metis commit_free_def snd_conv)
  with m assms(2) show "durable (snd (bindM m f s)) = durable s"
    by (cases r) (auto simp: bindM_run commit_free_def)
qed

lemma commit_free_then [commit_free_rules]:
  "commit_free m \<Longrightarrow> commit_free n \<Longrightarrow> commit_free (thenM m n)"
  by (simp add: thenM_def commit_free_bind)

lemma commit_free_on [commit_free_rules]:
  "commit_free (on_wallets m1)" "commit_free (on_callers m2)" "commit_free (on_txs m3)"
  "commit_free (on_nonces m4)" "commit_free (on_rates m5)" "commit_free (on_audit m6)"
  by (simp_all add: commit_free_def on_run put_defs split: prod.splits)

lemma commit_free_rollback:
  assumes "commit_free body" "session_scope ro body d = (Inl e, d')"
  shows "d' = d"
  using assms(2)
proof (cases rule: session_scope_cases)
  case (rolled_back e' s)
  then show ?thesis using assms(1) by (metis commit_free_def open_session_simps(2) snd_conv)
qed simp

subsection \<open>Audit rows of the use cases\<close>

text \<open>The readings of the clock one request takes, and its fresh uuid: the \<open>now\<close> of the use
  case, of \<open>AuditRepo.append\<close>, of \<open>TransactionRepo.create\<close> and of \<open>add_hash\<close>.\<close>

record clock =
  ck_now :: datetime
  ck_audit :: datetime
  ck_row :: datetime
  ck_hash :: datetime
  ck_uuid :: string

text \<open>\<open>audit_repo.append(..)\<close> with canonical JSON for the request and the outcome, and the
  recurring end of a refusal: audit row, commit, raise.\<close>

definition json_audit ::
  "clock \<Rightarrow> string \<Rightarrow> string \<Rightarrow> string option \<Rightarrow> (string \<times> json) list \<Rightarrow> string option \<Rightarrow>
   (string \<times> json) list option \<Rightarrow> (session, audit_row) op" where
  "json_audit ck action decision name request reason outcome =
     on_audit (append_row (ck_audit ck) action decision name
       (Some (canonical_json (JObj request))) reason
       (map_option (\<lambda>kv. canonical_json (JObj kv)) outcome) None)"

definition json_refuse ::
  "clock \<Rightarrow> string \<Rightarrow> string \<Rightarrow> string option \<Rightarrow> (string \<times> json) list \<Rightarrow> string \<Rightarrow>
   (string \<times> json) list option \<Rightarrow> exn \<Rightarrow> (session, 'a) op" where
  "json_refuse ck action decision name request reason outcome e =
     thenM (json_audit ck action decision name request (Some reason) outcome)
       (thenM audit_commit (raise e))"

end
