(* ===== verification/Sign_Transaction.thy ===== *)
theory Sign_Transaction
  imports Session Policy_Engine
begin

section \<open>The signing pipeline\<close>

text \<open>
  \<open>app/sign_transaction.py\<close>, the signer it uses (\<open>infra/envelope_signer.py\<close>) and its endpoint
  \<open>POST /v1/sign-transaction\<close> (\<open>api/sign.py\<close>).  The pipeline is cut where the source has
  its numbered comments; each cut is one definition on the session, and \<open>sign_transaction\<close>
  composes them in order.  Decryption, the signature and the address checksum are parameters;
  the clock and the fresh id are inputs.
\<close>

record settings =
  fwd_max_gas :: int
  fwd_max_fee_per_gas :: int
  fwd_nonce_sync_max_advance :: int
  fwd_reservation_lease_sec :: int

record tx_dict =
  td_chain_id :: int
  td_nonce :: int
  td_to :: string
  td_value :: int
  td_data :: string
  td_gas :: int
  td_max_fee_per_gas :: int
  td_max_priority_fee_per_gas :: int

record signed_tx =
  st_raw_transaction :: "byte list"
  st_hash :: "byte list"

text \<open>The sealed master's decryption, \<open>eth_account\<close> and \<open>to_checksum_address\<close>.\<close>

record signer_lib =
  sl_decrypt :: "string \<Rightarrow> exn + byte list"
  sl_sign_tx :: "byte list \<Rightarrow> tx_dict \<Rightarrow> exn + signed_tx"
  sl_checksum :: "string \<Rightarrow> exn + string"

record sign_result =
  sr_tx_id :: string
  sr_hash :: string
  sr_signed_raw_tx :: string
  sr_nonce :: int

subsection \<open>The envelope signer\<close>

definition signer_wallet :: "string \<Rightarrow> (session, wallet) op" where
  "signer_wallet name =
     bindM (on_wallets (wallet_get_by_name name False)) (\<lambda>w.
     case w of None \<Rightarrow> raise (WalletNotFoundError name) | Some v \<Rightarrow> ret v)"

definition signer_address :: "string \<Rightarrow> (session, string) op" where
  "signer_address name = bindM (signer_wallet name) (\<lambda>w. ret (w_address w))"

definition signer_sign_transaction :: "signer_lib \<Rightarrow> string \<Rightarrow> tx_dict \<Rightarrow> (session, signed_tx) op" where
  "signer_sign_transaction lib name td =
     bindM (signer_wallet name) (\<lambda>w.
     bindM (ofSum (sl_decrypt lib (w_privkey_ciphertext w))) (\<lambda>key.
     ofSum (sl_sign_tx lib key td)))"

subsection \<open>Audit rows\<close>

definition request_fields :: "sign_request \<Rightarrow> (string \<times> json) list" where
  "request_fields rq =
     [(''wallet'', JStr (rq_wallet rq)), (''chain'', JInt (rq_chain rq)), (''to'', JStr (rq_to rq)),
      (''value_wei'', JStr (rq_value_wei rq)), (''data'', JStr (rq_data rq)), (''gas'', JInt (rq_gas rq)),
      (''max_fee_per_gas'', JInt (rq_max_fee_per_gas rq)),
      (''max_priority_fee_per_gas'', JInt (rq_max_priority_fee_per_gas rq))]"

definition request_body :: "sign_request \<Rightarrow> string" where
  "request_body rq = canonical_json (JObj (request_fields rq))"

definition sign_audit ::
  "clock \<Rightarrow> sign_request \<Rightarrow> caller \<Rightarrow> string \<Rightarrow> string option \<Rightarrow> string option \<Rightarrow> (session, audit_row) op" where
  "sign_audit ck rq c decision reason outcome =
     on_audit (append_row (ck_audit ck) ''sign-transaction'' decision (Some (c_name c))
       (Some (request_body rq)) reason outcome None)"

text \<open>The recurring end of a refusal: audit row, commit, raise.\<close>

definition refuse ::
  "clock \<Rightarrow> sign_request \<Rightarrow> caller \<Rightarrow> string \<Rightarrow> string \<Rightarrow> string option \<Rightarrow> exn \<Rightarrow> (session, 'a) op" where
  "refuse ck rq c decision reason outcome e =
     thenM (sign_audit ck rq c decision (Some reason) outcome) (thenM audit_commit (raise e))"

subsection \<open>The pipeline\<close>

text \<open>Idempotency replay, before anything is evaluated, reserved or counted.\<close>

definition replay_stage ::
  "clock \<Rightarrow> sign_request \<Rightarrow> caller \<Rightarrow> (session, sign_result option) op" where
  "replay_stage ck rq c =
     (case rq_idempotency_key rq of
        None \<Rightarrow> ret None
      | Some key \<Rightarrow>
          bindM (on_txs (get_by_idempotency_key (rq_caller rq) key)) (\<lambda>existing.
          case existing of
            None \<Rightarrow> ret None
          | Some x \<Rightarrow>
              if request_body rq \<noteq> tx_request_json x
              then refuse ck rq c ''denied'' ''idempotency_key_body_mismatch''
                (Some (canonical_json (JObj [(''original_tx_id'', JStr (tx_id x))])))
                (IdempotencyConflict key)
              else
                bindM (on_txs (list_hashes_by_tx (tx_id x))) (\<lambda>hashes.
                bindM (on_audit (find_sign_transaction_seq (tx_id x))) (\<lambda>orig_seq.
                thenM (on_audit (append_row (ck_audit ck) ''sign-transaction-duplicate'' ''approved''
                    (Some (rq_caller rq))
                    (Some (canonical_json (JObj (request_fields rq @ [(''idempotency_key'', JStr key)]))))
                    (Some ''idempotency_replay'')
                    (Some (canonical_json (JObj [(''original_tx_id'', JStr (tx_id x)),
                       (''original_audit_seq'', case orig_seq of None \<Rightarrow> JNull | Some n \<Rightarrow> JInt n)])))
                    None))
                  (ret (Some \<lparr>sr_tx_id = tx_id x,
                     sr_hash = (case hashes of [] \<Rightarrow> [] | h # _ \<Rightarrow> th_hash_hex h),
                     sr_signed_raw_tx = (case tx_signed_raw x of None \<Rightarrow> [] | Some r \<Rightarrow> r),
                     sr_nonce = tx_nonce x\<rparr>))))))"

text \<open>1. Resolve the wallet.\<close>

definition address_stage :: "sign_request \<Rightarrow> (session, string) op" where
  "address_stage rq = catchM (signer_address (rq_wallet rq)) (\<lambda>e.
     case e of WalletNotFoundError _ \<Rightarrow> raise (WalletNotFound (rq_wallet rq)) | _ \<Rightarrow> raise e)"

text \<open>2. Sanity caps.\<close>

definition cap_reason :: "settings \<Rightarrow> sign_request \<Rightarrow> string option" where
  "cap_reason st rq =
     (if rq_max_fee_per_gas rq < rq_max_priority_fee_per_gas rq
      then Some ''max_priority_fee_per_gas exceeds max_fee_per_gas''
      else if fwd_max_gas st < rq_gas rq
      then Some (''gas '' @ str_int (rq_gas rq) @ '' exceeds FWD_MAX_GAS '' @ str_int (fwd_max_gas st))
      else if fwd_max_fee_per_gas st < rq_max_fee_per_gas rq
      then Some (''max_fee_per_gas '' @ str_int (rq_max_fee_per_gas rq) @
        '' exceeds FWD_MAX_FEE_PER_GAS '' @ str_int (fwd_max_fee_per_gas st))
      else None)"

definition caps_stage :: "settings \<Rightarrow> clock \<Rightarrow> sign_request \<Rightarrow> caller \<Rightarrow> (session, unit) op" where
  "caps_stage st ck rq c =
     (case cap_reason st rq of
        None \<Rightarrow> ret ()
      | Some reason \<Rightarrow> refuse ck rq c ''denied'' reason None (TxParamsRejected reason))"

text \<open>3. The policy gate.\<close>

definition gate_stage ::
  "eth_lib \<Rightarrow> policy \<Rightarrow> abi_registry \<Rightarrow> clock \<Rightarrow> sign_request \<Rightarrow> caller \<Rightarrow> wallet \<Rightarrow> (session, decision) op" where
  "gate_stage lib policy registry ck rq c w =
     catchM (on_rates (gate lib policy registry c w rq (ck_now ck))) (\<lambda>e.
     case e of
       PolicyDenied step reason \<Rightarrow>
         refuse ck rq c ''denied'' (policy_denied_text step reason) None (PolicyDenied step reason)
     | _ \<Rightarrow> raise e)"

definition release_rate ::
  "policy \<Rightarrow> clock \<Rightarrow> sign_request \<Rightarrow> caller \<Rightarrow> wallet \<Rightarrow> decision \<Rightarrow> (session, unit) op" where
  "release_rate policy ck rq c w allow =
     on_rates (release_rate_after_failure policy allow c w rq (ck_now ck))"

text \<open>3b. The wedge guard.\<close>

definition lease_cutoff :: "settings \<Rightarrow> clock \<Rightarrow> datetime" where
  "lease_cutoff st ck = ck_now ck - fwd_reservation_lease_sec st * 1000000"

definition wedge_stage ::
  "settings \<Rightarrow> policy \<Rightarrow> clock \<Rightarrow> sign_request \<Rightarrow> caller \<Rightarrow> wallet \<Rightarrow> decision \<Rightarrow> (session, unit) op" where
  "wedge_stage st policy ck rq c w allow =
     bindM (on_txs (has_stale_reservation (rq_wallet rq) (rq_chain rq) (lease_cutoff st ck))) (\<lambda>stale.
     if stale
     then thenM (release_rate policy ck rq c w allow)
       (refuse ck rq c ''denied'' ''wallet_has_stale_nonce_hole'' None NonceWedged)
     else ret ())"

text \<open>4. Reserve the nonce.\<close>

definition reserve_stage ::
  "policy \<Rightarrow> clock \<Rightarrow> sign_request \<Rightarrow> caller \<Rightarrow> wallet \<Rightarrow> decision \<Rightarrow> (session, int) op" where
  "reserve_stage policy ck rq c w allow =
     catchM (on_nonces (reserve_next (rq_wallet rq) (rq_chain rq))) (\<lambda>e.
     case e of
       NonceNotInitializedError \<Rightarrow>
         thenM (release_rate policy ck rq c w allow)
           (refuse ck rq c ''error'' ''nonce_not_initialized'' None NonceNotInitialized)
     | _ \<Rightarrow> raise e)"

text \<open>5 and 6. Build the transaction and sign it.\<close>

definition build_and_sign :: "signer_lib \<Rightarrow> sign_request \<Rightarrow> int \<Rightarrow> (session, signed_tx) op" where
  "build_and_sign lib rq nonce =
     bindM (ofSum (sl_checksum lib (rq_to rq))) (\<lambda>to_addr.
     bindM (ofSum (case py_int (rq_value_wei rq) of
        None \<Rightarrow> Inl (ValueError ''invalid literal for int() with base 10'') | Some v \<Rightarrow> Inr v)) (\<lambda>v.
     catchM (signer_sign_transaction lib (rq_wallet rq)
         \<lparr>td_chain_id = rq_chain rq, td_nonce = nonce, td_to = to_addr, td_value = v,
          td_data = rq_data rq, td_gas = rq_gas rq, td_max_fee_per_gas = rq_max_fee_per_gas rq,
          td_max_priority_fee_per_gas = rq_max_priority_fee_per_gas rq\<rparr>)
       (\<lambda>e. case e of SealError \<Rightarrow> raise VaultUnavailableError | _ \<Rightarrow> raise e)))"

definition pre_sign_failure :: "exn \<Rightarrow> bool" where
  "pre_sign_failure e = (case e of VaultUnavailableError \<Rightarrow> True | ValueError _ \<Rightarrow> True
     | TypeError \<Rightarrow> True | _ \<Rightarrow> False)"

definition sign_stage ::
  "signer_lib \<Rightarrow> policy \<Rightarrow> clock \<Rightarrow> sign_request \<Rightarrow> caller \<Rightarrow> wallet \<Rightarrow> decision \<Rightarrow> int \<Rightarrow>
   (session, signed_tx) op" where
  "sign_stage lib policy ck rq c w allow nonce =
     catchM (build_and_sign lib rq nonce) (\<lambda>e.
     if pre_sign_failure e
     then thenM (on_nonces (release_if_unused (rq_wallet rq) (rq_chain rq) nonce))
       (thenM (release_rate policy ck rq c w allow)
         (refuse ck rq c ''error'' ''pre_sign_failure'' None e))
     else raise e)"

text \<open>7. Persist the transaction, its hash, its attempt and the audit row.\<close>

definition new_tx_row :: "clock \<Rightarrow> sign_request \<Rightarrow> int \<Rightarrow> string \<Rightarrow> transaction" where
  "new_tx_row ck rq nonce raw =
     \<lparr>tx_id = ck_uuid ck, tx_wallet = rq_wallet rq, tx_chain = rq_chain rq, tx_caller = rq_caller rq,
      tx_nonce = nonce, tx_contract_address = rq_to rq, tx_method_name = take 10 (rq_data rq),
      tx_value_wei = rq_value_wei rq, tx_idempotency_key = rq_idempotency_key rq,
      tx_request_json = request_body rq, tx_signed_raw = Some raw, tx_status = ''pending'',
      tx_submitted_at = None, tx_confirmed_at = None, tx_receipt_json = None,
      tx_created_at = ck_row ck, tx_reserved_at = Some (ck_now ck)\<rparr>"

definition new_attempt :: "clock \<Rightarrow> sign_request \<Rightarrow> string \<Rightarrow> string \<Rightarrow> transaction_attempt" where
  "new_attempt ck rq raw tx_hash =
     \<lparr>ta_tx_id = ck_uuid ck, ta_sequence_num = 1, ta_gas = rq_gas rq,
      ta_max_fee_per_gas = rq_max_fee_per_gas rq,
      ta_max_priority_fee_per_gas = rq_max_priority_fee_per_gas rq,
      ta_signed_raw = raw, ta_hash = tx_hash, ta_created_at = ck_now ck\<rparr>"

text \<open>The foreign keys of a transaction row.\<close>

definition tx_fk_ok :: "sign_request \<Rightarrow> db \<Rightarrow> bool" where
  "tx_fk_ok rq d \<longleftrightarrow> find_wallet (rq_wallet rq) (db_wallets d) \<noteq> None \<and>
     find_caller (rq_caller rq) (db_callers d) \<noteq> None"

definition persist_stage ::
  "clock \<Rightarrow> sign_request \<Rightarrow> caller \<Rightarrow> int \<Rightarrow> signed_tx \<Rightarrow> (session, sign_result) op" where
  "persist_stage ck rq c nonce stx =
     (let tx_hash = ''0x'' @ bytes_hex (st_hash stx);
          raw = ''0x'' @ bytes_hex (st_raw_transaction stx) in
      bindM (getM (\<lambda>s. tx_fk_ok rq (work s))) (\<lambda>fk.
      thenM (on_txs (tx_create fk (ck_row ck) (new_tx_row ck rq nonce raw)))
        (thenM (on_txs (add_hash (ck_hash ck) (ck_uuid ck) tx_hash 1))
          (thenM (on_txs (add_attempt (new_attempt ck rq raw tx_hash)))
            (thenM (sign_audit ck rq c ''approved'' None
                (Some (canonical_json (JObj [(''tx_id'', JStr (ck_uuid ck)), (''hash'', JStr tx_hash),
                   (''nonce'', JInt nonce)]))))
              (ret \<lparr>sr_tx_id = ck_uuid ck, sr_hash = tx_hash, sr_signed_raw_tx = raw,
                    sr_nonce = nonce\<rparr>))))))"

record sign_env =
  se_settings :: settings
  se_eth :: eth_lib
  se_signer :: signer_lib
  se_policy :: policy
  se_registry :: abi_registry

text \<open>Steps 1 to 7.\<close>

definition sign_fresh ::
  "sign_env \<Rightarrow> clock \<Rightarrow> sign_request \<Rightarrow> caller \<Rightarrow> wallet \<Rightarrow> (session, sign_result) op" where
  "sign_fresh env ck rq c w =
     thenM (address_stage rq)
       (thenM (caps_stage (se_settings env) ck rq c)
         (bindM (gate_stage (se_eth env) (se_policy env) (se_registry env) ck rq c w) (\<lambda>allow.
          thenM (wedge_stage (se_settings env) (se_policy env) ck rq c w allow)
            (bindM (reserve_stage (se_policy env) ck rq c w allow) (\<lambda>nonce.
             bindM (sign_stage (se_signer env) (se_policy env) ck rq c w allow nonce) (\<lambda>stx.
             persist_stage ck rq c nonce stx))))))"

definition sign_transaction ::
  "sign_env \<Rightarrow> clock \<Rightarrow> sign_request \<Rightarrow> caller \<Rightarrow> wallet \<Rightarrow> (session, sign_result) op" where
  "sign_transaction env ck rq c w =
     (if rq_caller rq = [] \<or> 64 < length (rq_caller rq)
      then raise (ValueError ''caller must be a non-empty string with len <= 64'')
      else bindM (replay_stage ck rq c) (\<lambda>replayed.
        case replayed of Some res \<Rightarrow> ret res | None \<Rightarrow> sign_fresh env ck rq c w))"

subsection \<open>The endpoint\<close>

record sign_body =
  sb_wallet :: string
  sb_chain :: int
  sb_to :: string
  sb_value_wei :: string
  sb_data :: string
  sb_gas :: int
  sb_max_fee_per_gas :: int
  sb_max_priority_fee_per_gas :: int

definition is_hex_char :: "char \<Rightarrow> bool" where
  "is_hex_char ch \<longleftrightarrow> hex_digit ch \<noteq> None"

text \<open>The regular expressions; \<open>$\<close> also matches before one final newline.\<close>

definition hex_address_match :: "string \<Rightarrow> bool" where
  "hex_address_match s = (let v = chop_newline s in
     take 2 v = ''0x'' \<and> length v = 42 \<and> list_all is_hex_char (drop 2 v))"

definition hex_data_match :: "string \<Rightarrow> bool" where
  "hex_data_match s = (let v = chop_newline s in
     take 2 v = ''0x'' \<and> even (length v) \<and> list_all is_hex_char (drop 2 v))"

definition value_decimal :: "string \<Rightarrow> bool" where
  "value_decimal s = (case py_int s of None \<Rightarrow> False | Some n \<Rightarrow> 0 \<le> n)"

definition sign_body_valid :: "sign_body \<Rightarrow> bool" where
  "sign_body_valid b \<longleftrightarrow>
     1 \<le> length (sb_wallet b) \<and> length (sb_wallet b) \<le> 64 \<and> 1 \<le> sb_chain b \<and>
     length (sb_to b) = 42 \<and> hex_address_match (sb_to b) \<and> value_decimal (sb_value_wei b) \<and>
     hex_data_match (sb_data b) \<and> 21000 \<le> sb_gas b \<and> 1 \<le> sb_max_fee_per_gas b \<and>
     0 \<le> sb_max_priority_fee_per_gas b"

definition body_request :: "sign_body \<Rightarrow> string \<Rightarrow> string option \<Rightarrow> sign_request" where
  "body_request b name key =
     \<lparr>rq_wallet = sb_wallet b, rq_caller = name, rq_chain = sb_chain b, rq_to = sb_to b,
      rq_value_wei = sb_value_wei b, rq_data = sb_data b, rq_gas = sb_gas b,
      rq_max_fee_per_gas = sb_max_fee_per_gas b,
      rq_max_priority_fee_per_gas = sb_max_priority_fee_per_gas b, rq_idempotency_key = key\<rparr>"

text \<open>The \<open>except\<close> arms around the scope.  An exception without an arm propagates; the server
  answers it with status 500.\<close>

definition sign_http :: "exn \<Rightarrow> exn" where
  "sign_http e = (case e of
     PolicyDenied _ _ \<Rightarrow> HTTPException 403 ''policy_denied''
   | TxParamsRejected _ \<Rightarrow> HTTPException 400 ''tx_params_rejected''
   | WalletNotFound _ \<Rightarrow> HTTPException 403 ''policy_denied''
   | IdempotencyConflict _ \<Rightarrow> HTTPException 409 ''idempotency_conflict''
   | NonceWedged \<Rightarrow> HTTPException 409 ''nonce_wedged''
   | NonceNotInitialized \<Rightarrow> HTTPException 409 ''nonce_not_initialized''
   | VaultUnavailableError \<Rightarrow> HTTPException 503 ''vault_unavailable''
   | _ \<Rightarrow> e)"

definition http_status :: "exn \<Rightarrow> int" where
  "http_status e = (case e of HTTPException code _ \<Rightarrow> code | _ \<Rightarrow> 500)"

text \<open>The body of the scope: the wallet must exist, then the pipeline runs.\<close>

definition sign_scope ::
  "sign_env \<Rightarrow> clock \<Rightarrow> sign_request \<Rightarrow> caller \<Rightarrow> (session, sign_result) op" where
  "sign_scope env ck rq c =
     bindM (on_wallets (wallet_get_by_name (rq_wallet rq) True)) (\<lambda>wallet.
     case wallet of
       None \<Rightarrow> raise (HTTPException 403 ''policy_denied'')
     | Some w \<Rightarrow> sign_transaction env ck rq c w)"

text \<open>The handler after authentication and body validation.\<close>

definition sign_handler ::
  "sign_env \<Rightarrow> bool \<Rightarrow> clock \<Rightarrow> sign_body \<Rightarrow> string option \<Rightarrow> caller \<Rightarrow> (db, sign_result) op" where
  "sign_handler env vault ck b key c =
     (if (case key of None \<Rightarrow> False | Some k \<Rightarrow> 128 < length k)
      then raise (HTTPException 400 ''bad_idempotency_key'')
      else catchM (sealed_scope vault (sign_scope env ck (body_request b (c_name c) key) c))
        (\<lambda>e. raise (sign_http e)))"

text \<open>The authenticating dependency runs first, on a read-only session, then the body is
  validated (status 422).\<close>

definition authenticate :: "(string \<Rightarrow> string \<Rightarrow> bool option) \<Rightarrow> string option \<Rightarrow> (db, caller) op" where
  "authenticate verifies authorization =
     session_scope True (on_callers (require_caller verifies authorization))"

definition post_sign_transaction ::
  "sign_env \<Rightarrow> (string \<Rightarrow> string \<Rightarrow> bool option) \<Rightarrow> bool \<Rightarrow> clock \<Rightarrow> string option \<Rightarrow> string option \<Rightarrow> sign_body \<Rightarrow>
   (db, sign_result) op" where
  "post_sign_transaction env verifies vault ck authorization key b =
     bindM (authenticate verifies authorization) (\<lambda>c.
     if \<not> sign_body_valid b then raise (HTTPException 422 ''validation'')
     else sign_handler env vault ck b key c)"

end
