(* ===== verification/Sign_Correct.thy ===== *)
theory Sign_Correct
  imports Sign_Transaction
begin

section \<open>What the signing pipeline does\<close>

text \<open>
  Each stage of \<open>Sign_Transaction\<close> is run on a session and its outcome read off; the case rules
  \<open>sign_fresh_cases\<close> and \<open>sign_transaction_cases\<close> then list everything a request can do to the
  database, and the properties follow from them.
\<close>

subsection \<open>Refusals\<close>

text \<open>The database with one \<open>sign-transaction\<close> row appended.\<close>

definition sign_audited ::
  "clock \<Rightarrow> sign_request \<Rightarrow> caller \<Rightarrow> string \<Rightarrow> string option \<Rightarrow> string option \<Rightarrow> db \<Rightarrow> db" where
  "sign_audited ck rq c decision reason outcome d =
     d\<lparr>db_audit := snd (append_row (ck_audit ck) ''sign-transaction'' decision (Some (c_name c))
        (Some (request_body rq)) reason outcome None (db_audit d))\<rparr>"

lemma audit_words:
  "''sign-transaction'' \<in> set valid_actions" "''sign-transaction-duplicate'' \<in> set valid_actions"
  "''approved'' \<in> set valid_decisions" "''denied'' \<in> set valid_decisions"
  "''error'' \<in> set valid_decisions"
  by (simp_all add: valid_actions_def valid_decisions_def)

lemma sign_audit_run:
  assumes "decision \<in> set valid_decisions"
  shows "\<exists>row. sign_audit ck rq c decision reason outcome s =
    (Inr row, s\<lparr>work := sign_audited ck rq c decision reason outcome (work s)\<rparr>)"
proof -
  obtain row t where run: "append_row (ck_audit ck) ''sign-transaction'' decision (Some (c_name c))
      (Some (request_body rq)) reason outcome None (db_audit (work s)) = (Inr row, t)"
    using append_row_valid [OF audit_words(1) assms] by blast
  then show ?thesis by (simp add: sign_audit_def sign_audited_def on_run put_audit_def)
qed

lemma session_eqI: "work s = d \<Longrightarrow> durable s = d \<Longrightarrow> (s :: session) = open_session d"
  by (cases s) (simp add: open_session_def)

lemma refuse_run:
  assumes "decision \<in> set valid_decisions"
  shows "refuse ck rq c decision reason outcome e s =
    (Inl e, open_session (sign_audited ck rq c decision (Some reason) outcome (work s)))"
proof -
  obtain row where "sign_audit ck rq c decision (Some reason) outcome s =
      (Inr row, s\<lparr>work := sign_audited ck rq c decision (Some reason) outcome (work s)\<rparr>)"
    using sign_audit_run [OF assms] by blast
  then show ?thesis
    by (simp add: refuse_def open_session_def)
qed

lemmas refuse_runs = refuse_run [OF audit_words(4)] refuse_run [OF audit_words(5)]

lemma sign_audited_simps [simp]:
  "db_wallets (sign_audited ck rq c dc r u d) = db_wallets d"
  "db_callers (sign_audited ck rq c dc r u d) = db_callers d"
  "db_txs (sign_audited ck rq c dc r u d) = db_txs d"
  "db_nonces (sign_audited ck rq c dc r u d) = db_nonces d"
  "db_rates (sign_audited ck rq c dc r u d) = db_rates d"
  by (simp_all add: sign_audited_def)

lemma sign_audited_row:
  assumes "decision \<in> set valid_decisions"
  shows "\<exists>row. audit_log (db_audit (sign_audited ck rq c decision r u d)) = audit_log (db_audit d) @ [row] \<and>
    ar_action row = ''sign-transaction'' \<and> ar_decision row = decision \<and>
    ar_caller row = Some (c_name c) \<and> ar_request_json row = Some (request_body rq) \<and>
    ar_decision_reason row = r \<and> ar_outcome row = u"
proof -
  obtain row t where run: "append_row (ck_audit ck) ''sign-transaction'' decision (Some (c_name c))
      (Some (request_body rq)) r u None (db_audit d) = (Inr row, t)"
    using append_row_valid [OF audit_words(1) assms] by blast
  from append_row_frame [OF run] run show ?thesis by (auto simp: sign_audited_def)
qed

lemma sign_audited_intact:
  "audit_intact (db_audit d) \<Longrightarrow> audit_intact (db_audit (sign_audited ck rq c dc r u d))"
  by (cases "append_row (ck_audit ck) ''sign-transaction'' dc (Some (c_name c))
        (Some (request_body rq)) r u None (db_audit d)")
    (auto simp: sign_audited_def dest: audit_intact_append)

subsection \<open>The stages\<close>

lemma signer_wallet_run:
  "signer_wallet name s = (case find_wallet name (db_wallets (work s)) of
     None \<Rightarrow> (Inl (WalletNotFoundError name), s) | Some w \<Rightarrow> (Inr w, s))"
  by (simp add: signer_wallet_def on_run wallet_get_by_name_def bindM_run split: option.splits)

lemma address_stage_cases:
  obtains (missing) "address_stage rq s = (Inl (WalletNotFound (rq_wallet rq)), s)"
      "find_wallet (rq_wallet rq) (db_wallets (work s)) = None"
  | (found) w where "address_stage rq s = (Inr (w_address w), s)"
      "find_wallet (rq_wallet rq) (db_wallets (work s)) = Some w"
  by (cases "find_wallet (rq_wallet rq) (db_wallets (work s))")
    (simp_all add: address_stage_def signer_address_def bindM_run signer_wallet_run catchM_def)

lemma caps_stage_run:
  "caps_stage st ck rq c s = (case cap_reason st rq of
     None \<Rightarrow> (Inr (), s)
   | Some r \<Rightarrow> (Inl (TxParamsRejected r), open_session (sign_audited ck rq c ''denied'' (Some r) None (work s))))"
  by (simp add: caps_stage_def refuse_runs split: option.split)

lemma gate_stage_run:
  "gate_stage lib policy registry ck rq c w s =
     (case evaluate lib policy registry c w rq (ck_now ck) (db_rates (work s)) of
        (Inl e, r) \<Rightarrow> (Inl e, put_rates r s)
      | (Inr (Allow d p), r) \<Rightarrow> (Inr (Allow d p), put_rates r s)
      | (Inr (Deny k why), r) \<Rightarrow> (Inl (PolicyDenied k why), open_session
          (sign_audited ck rq c ''denied'' (Some (policy_denied_text k why)) None
            ((work s)\<lparr>db_rates := r\<rparr>))))"
  using evaluate_state [of lib policy registry c w rq "ck_now ck" "db_rates (work s)"]
  by (cases "evaluate lib policy registry c w rq (ck_now ck) (db_rates (work s))")
    (auto simp: gate_stage_def gate_def on_run bindM_run catchM_def refuse_runs put_rates_def
      split: sum.splits decision.splits)

lemma release_rate_run:
  "release_rate policy ck rq c w allow s =
     (Inr (), put_rates (snd (release_rate_after_failure policy allow c w rq (ck_now ck)
        (db_rates (work s)))) s)"
proof -
  have "fst (release_rate_after_failure policy allow c w rq (ck_now ck) (db_rates (work s))) = Inr ()"
    by (auto simp: release_rate_after_failure_def catchM_def split: prod.splits sum.splits)
  then show ?thesis
    by (cases "release_rate_after_failure policy allow c w rq (ck_now ck) (db_rates (work s))")
      (simp add: release_rate_def on_run)
qed

text \<open>The database after the release that accompanies a failure.\<close>

definition released ::
  "policy \<Rightarrow> clock \<Rightarrow> sign_request \<Rightarrow> caller \<Rightarrow> wallet \<Rightarrow> decision \<Rightarrow> db \<Rightarrow> db" where
  "released policy ck rq c w allow d =
     d\<lparr>db_rates := snd (release_rate_after_failure policy allow c w rq (ck_now ck) (db_rates d))\<rparr>"

lemma release_refuse_run:
  assumes "decision \<in> set valid_decisions"
  shows "thenM (release_rate policy ck rq c w allow) (refuse ck rq c decision why u e) s =
    (Inl e, open_session (sign_audited ck rq c decision (Some why) u
       (released policy ck rq c w allow (work s))))"
  by (simp add: release_rate_run refuse_run [OF assms] released_def put_rates_def)

lemma wedge_stage_run:
  "wedge_stage st policy ck rq c w allow s =
     (if list_ex (\<lambda>x. tx_wallet x = rq_wallet rq \<and> tx_chain x = rq_chain rq \<and> is_stale (lease_cutoff st ck) x)
          (transactions (db_txs (work s)))
      then (Inl NonceWedged, open_session (sign_audited ck rq c ''denied''
        (Some ''wallet_has_stale_nonce_hole'') None (released policy ck rq c w allow (work s))))
      else (Inr (), s))"
  by (simp add: wedge_stage_def on_run bindM_run has_stale_reservation_def
      release_refuse_run [OF audit_words(4)])

definition reserved :: "sign_request \<Rightarrow> int \<Rightarrow> db \<Rightarrow> db" where
  "reserved rq n d = d\<lparr>db_nonces := tbl_update_where (rq_wallet rq, rq_chain rq)
     (next_nonce_update (\<lambda>_. n + 1)) (db_nonces d)\<rparr>"

lemma reserve_stage_run:
  "reserve_stage policy ck rq c w allow s =
     (case map_of (db_nonces (work s)) (rq_wallet rq, rq_chain rq) of
        None \<Rightarrow> (Inl NonceNotInitialized, open_session (sign_audited ck rq c ''error''
          (Some ''nonce_not_initialized'') None (released policy ck rq c w allow (work s))))
      | Some row \<Rightarrow> (Inr (next_nonce row), s\<lparr>work := reserved rq (next_nonce row) (work s)\<rparr>))"
  by (simp add: reserve_stage_def on_run reserve_next_run catchM_def put_nonces_def reserved_def
      release_refuse_run [OF audit_words(5)] split: option.split)

lemma build_and_sign_state: "\<exists>r. build_and_sign lib rq n s = (r, s)"
  by (auto simp: build_and_sign_def signer_sign_transaction_def bindM_run catchM_def signer_wallet_run
      split: sum.splits option.splits exn.splits)

lemma release_reserved:
  assumes "map_of (db_nonces d) (rq_wallet rq, rq_chain rq) = Some row"
  shows "release_if_unused (rq_wallet rq) (rq_chain rq) (next_nonce row)
     (db_nonces (reserved rq (next_nonce row) d)) = (Inr True, db_nonces d)"
proof -
  have "tbl_update_where (rq_wallet rq, rq_chain rq) (next_nonce_update (\<lambda>n. n - 1) \<circ>
      next_nonce_update (\<lambda>_. next_nonce row + 1)) (db_nonces d) = db_nonces d"
    using assms by (intro update_where_id) auto
  with assms show ?thesis
    by (simp add: reserved_def release_if_unused_def table_simps update_where_twice)
qed

lemma sign_stage_cases:
  assumes "map_of (db_nonces d) (rq_wallet rq, rq_chain rq) = Some row"
    and "work s = reserved rq (next_nonce row) d"
  obtains (stx) stx where "build_and_sign lib rq (next_nonce row) s = (Inr stx, s)"
      "sign_stage lib policy ck rq c w allow (next_nonce row) s = (Inr stx, s)"
  | (released) e where "build_and_sign lib rq (next_nonce row) s = (Inl e, s)" "pre_sign_failure e"
      "sign_stage lib policy ck rq c w allow (next_nonce row) s =
        (Inl e, open_session (sign_audited ck rq c ''error'' (Some ''pre_sign_failure'') None
           (released policy ck rq c w allow d)))"
  | (escaped) e where "\<not> pre_sign_failure e"
      "sign_stage lib policy ck rq c w allow (next_nonce row) s = (Inl e, s)"
proof -
  obtain r where run: "build_and_sign lib rq (next_nonce row) s = (r, s)"
    using build_and_sign_state by blast
  have undo: "on_nonces (release_if_unused (rq_wallet rq) (rq_chain rq) (next_nonce row)) s =
      (Inr True, s\<lparr>work := d\<rparr>)"
    using release_reserved [OF assms(1)] by (simp add: on_run assms(2) put_nonces_def reserved_def)
  show thesis
  proof (cases r)
    case (Inr x)
    with run show thesis by (intro stx [of x]) (simp_all add: sign_stage_def)
  next
    case (Inl e)
    show thesis
    proof (cases "pre_sign_failure e")
      case True
      with run Inl undo show thesis
        by (intro released [of e]) (simp_all add: sign_stage_def release_refuse_run [OF audit_words(5)])
    next
      case False
      with run Inl show thesis by (intro escaped [of e]) (simp_all add: sign_stage_def)
    qed
  qed
qed

text \<open>The database with a new pending transaction.\<close>

definition sign_outcome :: "clock \<Rightarrow> signed_tx \<Rightarrow> int \<Rightarrow> string" where
  "sign_outcome ck stx n = canonical_json (JObj [(''tx_id'', JStr (ck_uuid ck)),
     (''hash'', JStr (''0x'' @ bytes_hex (st_hash stx))), (''nonce'', JInt n)])"

definition stored :: "clock \<Rightarrow> sign_request \<Rightarrow> caller \<Rightarrow> int \<Rightarrow> signed_tx \<Rightarrow> db \<Rightarrow> db" where
  "stored ck rq c n stx d =
     (let raw = ''0x'' @ bytes_hex (st_raw_transaction stx); h = ''0x'' @ bytes_hex (st_hash stx) in
      sign_audited ck rq c ''approved'' None (Some (sign_outcome ck stx n))
        (d\<lparr>db_txs := \<lparr>transactions = transactions (db_txs d) @ [new_tx_row ck rq n raw],
             transaction_hashes = transaction_hashes (db_txs d) @
               [\<lparr>th_tx_id = ck_uuid ck, th_sequence_num = 1, th_hash_hex = h, th_submitted_at = ck_hash ck\<rparr>],
             transaction_attempts = transaction_attempts (db_txs d) @ [new_attempt ck rq raw h]\<rparr>\<rparr>))"

definition fresh_result :: "clock \<Rightarrow> signed_tx \<Rightarrow> int \<Rightarrow> sign_result" where
  "fresh_result ck stx n =
     \<lparr>sr_tx_id = ck_uuid ck, sr_hash = ''0x'' @ bytes_hex (st_hash stx),
      sr_signed_raw_tx = ''0x'' @ bytes_hex (st_raw_transaction stx), sr_nonce = n\<rparr>"

lemma new_tx_row_fields [simp]:
  "tx_id (new_tx_row ck rq n raw) = ck_uuid ck" "tx_status (new_tx_row ck rq n raw) = ''pending''"
  "tx_wallet (new_tx_row ck rq n raw) = rq_wallet rq" "tx_chain (new_tx_row ck rq n raw) = rq_chain rq"
  "tx_nonce (new_tx_row ck rq n raw) = n" "tx_caller (new_tx_row ck rq n raw) = rq_caller rq"
  "tx_idempotency_key (new_tx_row ck rq n raw) = rq_idempotency_key rq"
  "(new_tx_row ck rq n raw)\<lparr>tx_confirmed_at := None, tx_receipt_json := None, tx_created_at := ck_row ck\<rparr> =
     new_tx_row ck rq n raw"
  by (simp_all add: new_tx_row_def)

lemma persist_stage_commit_free: "commit_free (persist_stage ck rq c n stx)"
  by (auto simp: persist_stage_def sign_audit_def Let_def intro!: commit_free_rules)

lemma add_hash_Inr:
  "add_hash now i h k t = (Inr row, t') \<Longrightarrow> row = \<lparr>th_tx_id = i, th_sequence_num = k, th_hash_hex = h,
     th_submitted_at = now\<rparr> \<and> t' = t\<lparr>transaction_hashes := transaction_hashes t @ [row]\<rparr>"
  by (auto simp: add_hash_def Let_def split: if_splits)

lemma add_attempt_Inr:
  "add_attempt a t = (Inr row, t') \<Longrightarrow> row = a \<and>
     t' = t\<lparr>transaction_attempts := transaction_attempts t @ [a]\<rparr>"
  by (auto simp: add_attempt_def split: if_splits)

lemma thenM_cases:
  assumes "thenM m n s = (r, s')"
  obtains (stop) e where "m s = (Inl e, s')" "r = Inl e"
  | (go) a t where "m s = (Inr a, t)" "n t = (r, s')"
  using assms by (auto simp: thenM_def bindM_run split: prod.splits sum.splits)

lemma persist_stage_cases:
  obtains (failed) e s' where "persist_stage ck rq c n stx s = (Inl e, s')" "durable s' = durable s"
  | (stored) "persist_stage ck rq c n stx s =
        (Inr (fresh_result ck stx n), s\<lparr>work := stored ck rq c n stx (work s)\<rparr>)"
      "find_tx (ck_uuid ck) (db_txs (work s)) = None" "tx_fk_ok rq (work s)"
      "case rq_idempotency_key rq of None \<Rightarrow> True
       | Some k \<Rightarrow> find_idempotent (rq_caller rq) k (db_txs (work s)) = None"
proof -
  let ?raw = "''0x'' @ bytes_hex (st_raw_transaction stx)"
  let ?h = "''0x'' @ bytes_hex (st_hash stx)"
  let ?row = "new_tx_row ck rq n ?raw"
  obtain r s' where run: "persist_stage ck rq c n stx s = (r, s')" by fastforce
  show thesis
  proof (cases r)
    case (Inl e)
    have "durable s' = durable s"
      using persist_stage_commit_free [unfolded commit_free_def] run by (metis snd_conv)
    with run Inl show thesis by (intro failed [of e s']) simp_all
  next
    case (Inr res)
    note run = run [unfolded Inr persist_stage_def Let_def bindM_run getM_run prod.case sum.case]
    from run obtain a t1 where m1: "on_txs (tx_create (tx_fk_ok rq (work s)) (ck_row ck) ?row) s = (Inr a, t1)"
      and n1: "thenM (on_txs (add_hash (ck_hash ck) (ck_uuid ck) ?h 1))
          (thenM (on_txs (add_attempt (new_attempt ck rq ?raw ?h)))
            (thenM (sign_audit ck rq c ''approved'' None (Some (sign_outcome ck stx n)))
              (ret (fresh_result ck stx n)))) t1 = (Inr res, s')"
      by (auto simp: sign_outcome_def fresh_result_def elim!: thenM_cases [of "on_txs (tx_create fk x y)" for fk x y])
    from m1 obtain v1 where v1: "tx_create (tx_fk_ok rq (work s)) (ck_row ck) ?row (db_txs (work s)) = (Inr a, v1)"
      "t1 = put_txs v1 s" by (auto simp: on_run split: prod.splits)
    from v1(1) have c1: "v1 = (db_txs (work s))\<lparr>transactions := transactions (db_txs (work s)) @ [?row]\<rparr>"
      "find_tx (ck_uuid ck) (db_txs (work s)) = None" "tx_fk_ok rq (work s)"
      "case rq_idempotency_key rq of None \<Rightarrow> True
       | Some k \<Rightarrow> find_idempotent (rq_caller rq) k (db_txs (work s)) = None"
      by (cases rule: tx_create_cases; simp split: option.split)+
    from n1 obtain a2 t2 where m2: "on_txs (add_hash (ck_hash ck) (ck_uuid ck) ?h 1) t1 = (Inr a2, t2)"
      and n2: "thenM (on_txs (add_attempt (new_attempt ck rq ?raw ?h)))
            (thenM (sign_audit ck rq c ''approved'' None (Some (sign_outcome ck stx n)))
              (ret (fresh_result ck stx n))) t2 = (Inr res, s')"
      by (cases rule: thenM_cases) simp_all
    from n2 obtain a3 t3 where m3: "on_txs (add_attempt (new_attempt ck rq ?raw ?h)) t2 = (Inr a3, t3)"
      and n3: "thenM (sign_audit ck rq c ''approved'' None (Some (sign_outcome ck stx n)))
              (ret (fresh_result ck stx n)) t3 = (Inr res, s')"
      by (cases rule: thenM_cases) simp_all
    from m2 m3 v1(2) c1(1) have "work t3 = (work s)\<lparr>db_txs := db_txs (work t3)\<rparr>" "durable t3 = durable s"
      "db_txs (work t3) = \<lparr>transactions = transactions (db_txs (work s)) @ [?row],
             transaction_hashes = transaction_hashes (db_txs (work s)) @
               [\<lparr>th_tx_id = ck_uuid ck, th_sequence_num = 1, th_hash_hex = ?h, th_submitted_at = ck_hash ck\<rparr>],
             transaction_attempts = transaction_attempts (db_txs (work s)) @ [new_attempt ck rq ?raw ?h]\<rparr>"
      by (auto simp: on_run put_txs_def split: prod.splits dest!: add_hash_Inr add_attempt_Inr)
    moreover from n3 sign_audit_run [OF audit_words(3), of ck rq c None "Some (sign_outcome ck stx n)" t3]
    have "s' = t3\<lparr>work := sign_audited ck rq c ''approved'' None (Some (sign_outcome ck stx n)) (work t3)\<rparr>"
      "res = fresh_result ck stx n" by auto
    ultimately have "s' = s\<lparr>work := stored ck rq c n stx (work s)\<rparr>"
      by (cases t3; cases s) (simp add: stored_def Let_def)
    with \<open>res = _\<close> \<open>r = _\<close> c1 \<open>persist_stage ck rq c n stx s = (r, s')\<close> show thesis
      by (intro stored) simp_all
  qed
qed

subsection \<open>The pipeline as a whole\<close>

text \<open>The rates a refusal leaves behind: untouched before the gate, those of the evaluation when the
  gate denied, and afterwards those of the best-effort release.\<close>

definition refusal_rates ::
  "sign_env \<Rightarrow> clock \<Rightarrow> sign_request \<Rightarrow> caller \<Rightarrow> wallet \<Rightarrow> rate_db \<Rightarrow> exn \<Rightarrow> rate_db \<Rightarrow> bool" where
  "refusal_rates env ck rq c w t e t' \<longleftrightarrow>
     (case e of
        TxParamsRejected _ \<Rightarrow> t' = t
      | PolicyDenied k why \<Rightarrow>
          evaluate (se_eth env) (se_policy env) (se_registry env) c w rq (ck_now ck) t = (Inr (Deny k why), t')
      | _ \<Rightarrow> (\<exists>d p u. evaluate (se_eth env) (se_policy env) (se_registry env) c w rq (ck_now ck) t =
            (Inr (Allow d p), u) \<and>
          t' = snd (release_rate_after_failure (se_policy env) (Allow d p) c w rq (ck_now ck) u)))"

text \<open>What follows an allowing decision.\<close>

lemma sign_tail_cases:
  fixes t d
  defines "d1 \<equiv> d\<lparr>db_rates := t\<rparr>"
  assumes run: "thenM (wedge_stage (se_settings env) (se_policy env) ck rq c w (Allow dd p))
        (bindM (reserve_stage (se_policy env) ck rq c w (Allow dd p)) (\<lambda>nonce.
         bindM (sign_stage (se_signer env) (se_policy env) ck rq c w (Allow dd p) nonce) (\<lambda>stx.
         persist_stage ck rq c nonce stx))) (put_rates t (open_session d)) = (res, s')"
  obtains (rolled_back) e where "res = Inl e" "durable s' = d"
  | (refused) e decision why where "res = Inl e" "decision = ''denied'' \<or> decision = ''error''"
      "s' = open_session (sign_audited ck rq c decision (Some why) None
        (released (se_policy env) ck rq c w (Allow dd p) d1))"
      "\<nexists>k r. e = PolicyDenied k r" "\<nexists>r. e = TxParamsRejected r"
  | (signed) row stx where "res = Inr (fresh_result ck stx (next_nonce row))"
      "\<not> list_ex (\<lambda>x. tx_wallet x = rq_wallet rq \<and> tx_chain x = rq_chain rq \<and>
          is_stale (lease_cutoff (se_settings env) ck) x) (transactions (db_txs d))"
      "map_of (db_nonces d) (rq_wallet rq, rq_chain rq) = Some row"
      "work s' = stored ck rq c (next_nonce row) stx (reserved rq (next_nonce row) d1)"
      "durable s' = d" "find_tx (ck_uuid ck) (db_txs d) = None" "tx_fk_ok rq d"
      "case rq_idempotency_key rq of None \<Rightarrow> True | Some k \<Rightarrow> find_idempotent (rq_caller rq) k (db_txs d) = None"
proof -
  let ?s1 = "put_rates t (open_session d)"
  have s1: "work ?s1 = d1" "durable ?s1 = d" by (simp_all add: put_rates_def d1_def)
  show thesis
  proof (cases "list_ex (\<lambda>x. tx_wallet x = rq_wallet rq \<and> tx_chain x = rq_chain rq \<and>
      is_stale (lease_cutoff (se_settings env) ck) x) (transactions (db_txs d))")
    case True
    with run s1 show thesis
      by (intro refused [of NonceWedged "''denied''" "''wallet_has_stale_nonce_hole''"]) (auto simp: wedge_stage_run d1_def)
  next
    case fresh: False
    show thesis
    proof (cases "map_of (db_nonces d) (rq_wallet rq, rq_chain rq)")
      case None
      with run fresh s1 show thesis
        by (intro refused [of NonceNotInitialized "''error''" "''nonce_not_initialized''"])
          (auto simp: wedge_stage_run reserve_stage_run d1_def)
    next
      case (Some row)
      let ?n = "next_nonce row"
      let ?s2 = "?s1\<lparr>work := reserved rq ?n d1\<rparr>"
      have row1: "map_of (db_nonces d1) (rq_wallet rq, rq_chain rq) = Some row"
        and ws2: "work ?s2 = reserved rq ?n d1" using Some by (simp_all add: d1_def)
      from run fresh s1 Some have run2:
        "bindM (sign_stage (se_signer env) (se_policy env) ck rq c w (Allow dd p) ?n) (\<lambda>stx.
           persist_stage ck rq c ?n stx) ?s2 = (res, s')"
        by (simp add: wedge_stage_run reserve_stage_run d1_def)
      show thesis
        using row1 ws2
      proof (cases rule: sign_stage_cases [where lib = "se_signer env" and policy = "se_policy env"
          and ck = ck and c = c and w = w and allow = "Allow dd p"])
        case (released e)
        with run2 show thesis
          by (intro refused [of e "''error''" "''pre_sign_failure''"]) (auto simp: pre_sign_failure_def)
      next
        case (escaped e)
        with run2 s1 show thesis by (intro rolled_back [of e]) auto
      next
        case (stx stx)
        show thesis
        proof (cases rule: persist_stage_cases [of ck rq c ?n stx ?s2])
          case (failed e s3)
          with run2 stx s1 show thesis by (intro rolled_back [of e]) auto
        next
          case stored
          from run2 stx(2) stored(1) have "res = Inr (fresh_result ck stx ?n)"
            "s' = ?s2\<lparr>work := stored ck rq c ?n stx (work ?s2)\<rparr>"
            unfolding bindM_run by simp_all
          with stored(2-) s1 fresh Some show thesis
            by (intro signed [of stx row]) (simp_all add: d1_def reserved_def tx_fk_ok_def cong: option.case_cong)
        qed
      qed
    qed
  qed
qed

lemma sign_fresh_cases:
  assumes "sign_fresh env ck rq c w (open_session d) = (res, s')"
  obtains (rolled_back) e where "res = Inl e" "durable s' = d"
  | (refused) e decision why t where "res = Inl e" "decision = ''denied'' \<or> decision = ''error''"
      "s' = open_session (sign_audited ck rq c decision (Some why) None (d\<lparr>db_rates := t\<rparr>))"
      "refusal_rates env ck rq c w (db_rates d) e t"
      "\<And>k r. e = PolicyDenied k r \<Longrightarrow> decision = ''denied'' \<and> why = policy_denied_text k r"
  | (signed) dec p t row stx where "res = Inr (fresh_result ck stx (next_nonce row))"
      "evaluate (se_eth env) (se_policy env) (se_registry env) c w rq (ck_now ck) (db_rates d) =
        (Inr (Allow dec p), t)"
      "cap_reason (se_settings env) rq = None"
      "find_wallet (rq_wallet rq) (db_wallets d) \<noteq> None"
      "\<not> list_ex (\<lambda>x. tx_wallet x = rq_wallet rq \<and> tx_chain x = rq_chain rq \<and>
          is_stale (lease_cutoff (se_settings env) ck) x) (transactions (db_txs d))"
      "map_of (db_nonces d) (rq_wallet rq, rq_chain rq) = Some row"
      "work s' = stored ck rq c (next_nonce row) stx (reserved rq (next_nonce row) (d\<lparr>db_rates := t\<rparr>))"
      "durable s' = d"
      "find_tx (ck_uuid ck) (db_txs d) = None" "tx_fk_ok rq d"
      "case rq_idempotency_key rq of None \<Rightarrow> True | Some k \<Rightarrow> find_idempotent (rq_caller rq) k (db_txs d) = None"
proof -
  let ?s = "open_session d"
  let ?ev = "evaluate (se_eth env) (se_policy env) (se_registry env) c w rq (ck_now ck) (db_rates d)"
  note run = assms [unfolded sign_fresh_def]
  note sign_rolled = rolled_back and sign_refused = refused and sign_signed = signed
  show thesis
  proof (cases rule: address_stage_cases [of rq ?s])
    case missing
    with run show thesis by (intro rolled_back [of "WalletNotFound (rq_wallet rq)"]) auto
  next
    case (found wal)
    show thesis
    proof (cases "cap_reason (se_settings env) rq")
      case (Some reason)
      with run found show thesis
        by (intro refused [of "TxParamsRejected reason" "''denied''" reason "db_rates d"])
          (auto simp: caps_stage_run refusal_rates_def)
    next
      case cap: None
      obtain dec t where ev: "?ev = (Inr dec, t)"
        using evaluate_state by (metis prod.collapse)
      show thesis
      proof (cases dec)
        case (Deny k why)
        with run found cap ev show thesis
          by (intro refused [of "PolicyDenied k why" "''denied''" "policy_denied_text k why" t])
            (auto simp: caps_stage_run gate_stage_run refusal_rates_def)
      next
        case (Allow dd p)
        let ?t' = "snd (release_rate_after_failure (se_policy env) (Allow dd p) c w rq (ck_now ck) t)"
        from run found cap ev Allow have "thenM (wedge_stage (se_settings env) (se_policy env) ck rq c w (Allow dd p))
          (bindM (reserve_stage (se_policy env) ck rq c w (Allow dd p)) (\<lambda>nonce.
           bindM (sign_stage (se_signer env) (se_policy env) ck rq c w (Allow dd p) nonce) (\<lambda>stx.
           persist_stage ck rq c nonce stx))) (put_rates t ?s) = (res, s')"
          by (simp add: caps_stage_run gate_stage_run)
        then show thesis
        proof (cases rule: sign_tail_cases)
          case (rolled_back e)
          then show thesis by (rule sign_rolled)
        next
          case (refused e decision why)
          moreover from refused(4,5) ev Allow have "refusal_rates env ck rq c w (db_rates d) e ?t'"
            by (cases e) (auto simp: refusal_rates_def)
          ultimately show thesis
            by (intro sign_refused [of e decision why ?t']) (auto simp: released_def)
        next
          case (signed row stx)
          with cap ev Allow found show thesis
            by (intro sign_signed [of stx row dd p t]) simp_all
        qed
      qed
    qed
  qed
qed

end
