(* ===== verification/Audited.thy ===== *)
theory Audited
  imports Session
begin

section \<open>Operations that write an audit row\<close>

text \<open>
  What one appended row changes, how an approved step and a refusal run, and the two predicates the
  handlers' checks are proved to satisfy: a guarding operation returns without touching the session or
  refuses, a refusing one leaves a refusal behind on an exception.
\<close>

subsection \<open>One row more\<close>

lemma decision_words [simp]:
  "''approved'' \<in> set valid_decisions" "''denied'' \<in> set valid_decisions" "''error'' \<in> set valid_decisions"
  by (simp_all add: valid_decisions_def)

text \<open>One row appended to the log, nothing else.\<close>

definition audit_grown :: "string \<Rightarrow> string \<Rightarrow> db \<Rightarrow> db \<Rightarrow> bool" where
  "audit_grown action decision d d' \<longleftrightarrow>
     d' = d\<lparr>db_audit := db_audit d'\<rparr> \<and>
     (\<exists>row now c q r u ts. append_row now action decision c q r u ts (db_audit d) = (Inr row, db_audit d'))"

lemma audit_grownD:
  assumes "audit_grown a dc d d'"
  shows "db_wallets d' = db_wallets d" "db_callers d' = db_callers d" "db_txs d' = db_txs d"
    "db_nonces d' = db_nonces d" "db_rates d' = db_rates d"
    "\<exists>row. audit_log (db_audit d') = audit_log (db_audit d) @ [row] \<and> ar_action row = a \<and> ar_decision row = dc"
    "audit_intact (db_audit d) \<Longrightarrow> audit_intact (db_audit d')"
proof -
  have eq: "d' = d\<lparr>db_audit := db_audit d'\<rparr>" using assms unfolding audit_grown_def by blast
  show "db_wallets d' = db_wallets d" by (subst eq) simp
  show "db_callers d' = db_callers d" by (subst eq) simp
  show "db_txs d' = db_txs d" by (subst eq) simp
  show "db_nonces d' = db_nonces d" by (subst eq) simp
  show "db_rates d' = db_rates d" by (subst eq) simp
  from assms obtain row now c q r u ts
    where run: "append_row now a dc c q r u ts (db_audit d) = (Inr row, db_audit d')"
    unfolding audit_grown_def by blast
  from append_row_frame [OF run]
  show "\<exists>row. audit_log (db_audit d') = audit_log (db_audit d) @ [row] \<and> ar_action row = a \<and> ar_decision row = dc"
    by blast
  show "audit_intact (db_audit d) \<Longrightarrow> audit_intact (db_audit d')"
    using audit_intact_append [OF _ run] by blast
qed

lemma json_audit_run:
  assumes "action \<in> set valid_actions" "decision \<in> set valid_decisions"
  shows "\<exists>row d'. json_audit ck action decision name request reason outcome s = (Inr row, s\<lparr>work := d'\<rparr>) \<and>
    audit_grown action decision (work s) d'"
proof -
  define q u where "q = canonical_json (JObj request)"
    and "u = map_option (\<lambda>kv. canonical_json (JObj kv)) outcome"
  obtain row t where run: "append_row (ck_audit ck) action decision name (Some q) reason u None
      (db_audit (work s)) = (Inr row, t)"
    using append_row_valid [OF assms] by blast
  then have "json_audit ck action decision name request reason outcome s =
      (Inr row, s\<lparr>work := (work s)\<lparr>db_audit := t\<rparr>\<rparr>)"
    unfolding json_audit_def q_def [symmetric] u_def [symmetric] by (simp add: on_run put_audit_def)
  moreover from run have "audit_grown action decision (work s) ((work s)\<lparr>db_audit := t\<rparr>)"
    unfolding audit_grown_def by simp blast
  ultimately show ?thesis by blast
qed

lemma json_refuse_run:
  assumes "action \<in> set valid_actions" "decision \<in> set valid_decisions"
  shows "\<exists>d'. json_refuse ck action decision name request reason outcome e s = (Inl e, open_session d') \<and>
    audit_grown action decision (work s) d'"
proof -
  obtain row d' where "json_audit ck action decision name request (Some reason) outcome s = (Inr row, s\<lparr>work := d'\<rparr>)"
    "audit_grown action decision (work s) d'"
    using json_audit_run [OF assms] by blast
  then show ?thesis by (intro exI [of _ d']) (simp add: json_refuse_def open_session_def)
qed

lemma json_audit_commit_free [commit_free_rules]:
  "commit_free (json_audit ck action decision name request reason outcome)"
  by (simp add: json_audit_def commit_free_rules)

lemma audited_step:
  assumes "action \<in> set valid_actions" "decision \<in> set valid_decisions"
  shows "\<exists>d'. thenM (json_audit ck action decision name request reason outcome) (ret v) s =
      (Inr v, s\<lparr>work := d'\<rparr>) \<and> audit_grown action decision (work s) d'"
proof -
  obtain row d' where "json_audit ck action decision name request reason outcome s = (Inr row, s\<lparr>work := d'\<rparr>)"
    "audit_grown action decision (work s) d'"
    using json_audit_run [OF assms] by blast
  then show ?thesis by (intro exI [of _ d']) simp
qed

lemma audited_step_Inr:
  assumes "action \<in> set valid_actions" "decision \<in> set valid_decisions"
    and "thenM (json_audit ck action decision name request reason outcome) (ret u) s = (Inr v, s')"
  shows "v = u \<and> audit_grown action decision (work s) (work s')"
proof -
  obtain d' where "thenM (json_audit ck action decision name request reason outcome) (ret u) s =
      (Inr u, s\<lparr>work := d'\<rparr>)" "audit_grown action decision (work s) d'"
    using audited_step [OF assms(1,2), of ck name request reason outcome u s] by blast
  moreover from calculation(1) assms(3) have "v = u" "s' = s\<lparr>work := d'\<rparr>"
    by (metis Inr_inject prod.inject)+
  ultimately show ?thesis by simp
qed

text \<open>A refused request: nothing, or one denied or error row.\<close>

definition audit_refused :: "string \<Rightarrow> db \<Rightarrow> db \<Rightarrow> bool" where
  "audit_refused action d d' \<longleftrightarrow>
     d' = d \<or> audit_grown action ''denied'' d d' \<or> audit_grown action ''error'' d d'"

lemma audit_refusedD:
  assumes "audit_refused action d d'"
  shows "db_wallets d' = db_wallets d" "db_callers d' = db_callers d" "db_txs d' = db_txs d"
    "db_nonces d' = db_nonces d" "db_rates d' = db_rates d"
    "audit_intact (db_audit d) \<Longrightarrow> audit_intact (db_audit d')"
  using assms audit_grownD by (auto simp: audit_refused_def)

lemma json_refuse_cases:
  assumes "action \<in> set valid_actions" "decision = ''denied'' \<or> decision = ''error''"
    and "json_refuse ck action decision name request reason outcome e s = (r, s')"
  shows "r = Inl e \<and> audit_refused action (work s) (durable s') \<and> s' = open_session (work s')"
proof -
  have "decision \<in> set valid_decisions" using assms(2) decision_words by blast
  then obtain d' where "(r, s') = (Inl e, open_session d')" "audit_grown action decision (work s) d'"
    using json_refuse_run [OF assms(1)] assms(3) by metis
  with assms(2) show ?thesis unfolding audit_refused_def by fastforce
qed

subsection \<open>Checks that refuse before anything is written\<close>

text \<open>
  A guarding operation returns without touching the session or refuses the action; an operation is
  refusing when what it leaves behind on an exception is a refusal.
\<close>

definition refusing :: "string \<Rightarrow> (session, 'a) op \<Rightarrow> bool" where
  "refusing action m \<longleftrightarrow> (\<forall>d. case m (open_session d) of
     (Inl e, s) \<Rightarrow> audit_refused action d (durable s) | (Inr v, s) \<Rightarrow> True)"

definition guarding :: "string \<Rightarrow> (session, 'a) op \<Rightarrow> bool" where
  "guarding action m \<longleftrightarrow> refusing action m \<and> (\<forall>d v s. m (open_session d) = (Inr v, s) \<longrightarrow> s = open_session d)"

named_theorems guarding_rules

lemma refusingD:
  "refusing action m \<Longrightarrow> m (open_session d) = (Inl e, s) \<Longrightarrow> audit_refused action d (durable s)"
  by (force simp: refusing_def split: prod.splits)

lemma guardingD: "guarding action m \<Longrightarrow> m (open_session d) = (Inr v, s) \<Longrightarrow> s = open_session d"
  by (simp add: guarding_def)

lemma refusing_bind:
  assumes "guarding action m" "\<And>x. refusing action (f x)"
  shows "refusing action (bindM m f)"
proof -
  have "case bindM m f (open_session d) of (Inl e, s) \<Rightarrow> audit_refused action d (durable s) | (Inr v, s) \<Rightarrow> True" for d
  proof -
    obtain r s where r: "m (open_session d) = (r, s)" by fastforce
    show ?thesis
    proof (cases r)
      case (Inl e)
      with r assms(1) show ?thesis by (auto simp: guarding_def dest: refusingD)
    next
      case (Inr v)
      with r assms(1) have "s = open_session d" by (auto dest: guardingD)
      with r Inr assms(2) [of v] show ?thesis by (simp add: refusing_def)
    qed
  qed
  then show ?thesis by (simp add: refusing_def)
qed

lemma guarding_bind [guarding_rules]:
  assumes "guarding action m" "\<And>x. guarding action (f x)"
  shows "guarding action (bindM m f)"
proof -
  have "s = open_session d" if "bindM m f (open_session d) = (Inr v, s)" for d v s
  proof -
    from that obtain x t where "m (open_session d) = (Inr x, t)" "f x t = (Inr v, s)"
      by (auto simp: bindM_run split: prod.splits sum.splits)
    with assms show ?thesis by (metis guardingD)
  qed
  with assms refusing_bind show ?thesis unfolding guarding_def by blast
qed

lemma guarding_then [guarding_rules]:
  "guarding action m \<Longrightarrow> guarding action n \<Longrightarrow> guarding action (thenM m n)"
  by (simp add: thenM_def guarding_bind)

lemma refusing_then:
  "guarding action m \<Longrightarrow> refusing action n \<Longrightarrow> refusing action (thenM m n)"
  by (simp add: thenM_def refusing_bind)

lemma guarding_basic [guarding_rules]:
  "guarding action (ret v)" "guarding action (raise e)" "guarding action (ofSum r)"
  by (auto simp: guarding_def refusing_def audit_refused_def split: sum.splits)

lemma guarding_read [guarding_rules]:
  "(\<And>t. snd (m1 t) = t) \<Longrightarrow> guarding action (on_wallets m1)"
  "(\<And>t. snd (m2 t) = t) \<Longrightarrow> guarding action (on_callers m2)"
  "(\<And>t. snd (m3 t) = t) \<Longrightarrow> guarding action (on_txs m3)"
  "(\<And>t. snd (m4 t) = t) \<Longrightarrow> guarding action (on_nonces m4)"
  unfolding on_defs
  by (auto simp: guarding_def refusing_def audit_refused_def wallets_part.zoom_read callers_part.zoom_read
      txs_part.zoom_read nonces_part.zoom_read split: sum.splits)

lemma guarding_get [guarding_rules]: "guarding action (getM f)"
  by (simp add: guarding_def refusing_def)

lemma refusing_commit_free: "commit_free m \<Longrightarrow> refusing action m"
proof -
  assume free: "commit_free m"
  have "case m (open_session d) of (Inl e, s) \<Rightarrow> audit_refused action d (durable s) | (Inr v, s) \<Rightarrow> True" for d
  proof -
    obtain r s where r: "m (open_session d) = (r, s)" by fastforce
    with free have "durable s = d" by (metis commit_free_def open_session_simps(2) snd_conv)
    with r show ?thesis by (simp add: audit_refused_def split: sum.split)
  qed
  then show ?thesis by (simp add: refusing_def)
qed

lemma guarding_refuse [guarding_rules]:
  assumes "action \<in> set valid_actions" "decision = ''denied'' \<or> decision = ''error''"
  shows "guarding action (json_refuse ck action decision name request reason outcome e :: (session, 'a) op)"
proof -
  have "r = Inl e \<and> audit_refused action d (durable s)"
    if "(json_refuse ck action decision name request reason outcome e :: (session, 'a) op) (open_session d) = (r, s)" for d r s
    using json_refuse_cases [OF assms that] by simp
  then show ?thesis unfolding guarding_def refusing_def by (fastforce split: prod.splits sum.splits)
qed

lemma guarding_session:
  assumes "refusing action m" "session_scope False m d = (Inl e, d')"
  shows "audit_refused action d d'"
  using assms(2)
proof (cases rule: session_scope_cases)
  case (rolled_back e' s)
  with assms(1) show ?thesis by (auto dest: refusingD)
qed simp

subsection \<open>Sequences that returned\<close>

lemma bindM_InrE:
  assumes "bindM m f s = (Inr v, s')"
  obtains a t where "m s = (Inr a, t)" "f a t = (Inr v, s')"
  using assms by (auto simp: bindM_run split: prod.splits sum.splits)

lemma thenM_InrE:
  assumes "thenM m n s = (Inr v, s')"
  obtains a t where "m s = (Inr a, t)" "n t = (Inr v, s')"
  using assms unfolding thenM_def by (rule bindM_InrE)

lemma json_refuse_not_Inr:
  "json_refuse ck action decision name request reason outcome e s \<noteq> (Inr v, s')"
  by (auto simp: json_refuse_def thenM_def bindM_run split: prod.splits sum.splits)

lemma thenM_step: "m s = (Inr a, t) \<Longrightarrow> n t = r \<Longrightarrow> thenM m n s = r"
  by simp

end
