(* ===== verification/Sign_Properties.thy ===== *)
theory Sign_Properties
  imports Sign_Correct Audited
begin

section \<open>Properties of signing\<close>

text \<open>
  The replay of an idempotent request, the endpoint around the pipeline, and what a signing request
  can and cannot do to the database.
\<close>

subsection \<open>Replay\<close>

text \<open>The result a stored transaction is replayed with.\<close>

definition first_hash :: "string \<Rightarrow> tx_db \<Rightarrow> string" where
  "first_hash i t = (case sort_key th_sequence_num (filter (\<lambda>h. th_tx_id h = i) (transaction_hashes t)) of
     [] \<Rightarrow> [] | h # _ \<Rightarrow> th_hash_hex h)"

definition cached_result :: "transaction \<Rightarrow> tx_db \<Rightarrow> sign_result" where
  "cached_result x t =
     \<lparr>sr_tx_id = tx_id x, sr_hash = first_hash (tx_id x) t,
      sr_signed_raw_tx = (case tx_signed_raw x of None \<Rightarrow> [] | Some r \<Rightarrow> r), sr_nonce = tx_nonce x\<rparr>"

definition idempotent_match :: "sign_request \<Rightarrow> tx_db \<Rightarrow> transaction option" where
  "idempotent_match rq t =
     (case rq_idempotency_key rq of None \<Rightarrow> None | Some k \<Rightarrow> find_idempotent (rq_caller rq) k t)"

lemma sign_audited_grown:
  assumes "decision \<in> set valid_decisions"
  shows "audit_grown ''sign-transaction'' decision d (sign_audited ck rq c decision r u d)"
proof -
  obtain row t where "append_row (ck_audit ck) ''sign-transaction'' decision (Some (c_name c))
      (Some (request_body rq)) r u None (db_audit d) = (Inr row, t)"
    using append_row_valid [OF audit_words(1) assms] by blast
  then show ?thesis unfolding audit_grown_def sign_audited_def by force
qed

lemma replay_stage_cases:
  obtains (fresh) "replay_stage ck rq c s = (Inr None, s)" "idempotent_match rq (db_txs (work s)) = None"
  | (conflict) k x u where "rq_idempotency_key rq = Some k"
      "idempotent_match rq (db_txs (work s)) = Some x" "request_body rq \<noteq> tx_request_json x"
      "replay_stage ck rq c s = (Inl (IdempotencyConflict k),
         open_session (sign_audited ck rq c ''denied'' (Some ''idempotency_key_body_mismatch'') (Some u) (work s)))"
  | (replayed) x s' where "idempotent_match rq (db_txs (work s)) = Some x"
      "request_body rq = tx_request_json x"
      "replay_stage ck rq c s = (Inr (Some (cached_result x (db_txs (work s)))), s')"
      "durable s' = durable s" "audit_grown ''sign-transaction-duplicate'' ''approved'' (work s) (work s')"
proof (cases "rq_idempotency_key rq")
  case None
  then show thesis by (intro fresh) (simp_all add: replay_stage_def idempotent_match_def)
next
  case (Some k)
  show thesis
  proof (cases "find_idempotent (rq_caller rq) k (db_txs (work s))")
    case None
    with Some show thesis
      by (intro fresh) (simp_all add: replay_stage_def idempotent_match_def on_run bindM_run
          get_by_idempotency_key_def)
  next
    case found: (Some x)
    then have m: "idempotent_match rq (db_txs (work s)) = Some x" by (simp add: idempotent_match_def Some)
    show thesis
    proof (cases "request_body rq = tx_request_json x")
      case False
      with Some found m show thesis
        by (intro conflict [of k x]) (simp_all add: replay_stage_def on_run bindM_run
            get_by_idempotency_key_def refuse_runs)
    next
      case True
      obtain q u where qu: "q = canonical_json (JObj (request_fields rq @ [(''idempotency_key'', JStr k)]))"
        "u = canonical_json (JObj [(''original_tx_id'', JStr (tx_id x)), (''original_audit_seq'',
           case fst (find_sign_transaction_seq (tx_id x) (db_audit (work s))) of
             Inl e \<Rightarrow> JNull | Inr None \<Rightarrow> JNull | Inr (Some n) \<Rightarrow> JInt n)])" by blast
      obtain row a where row: "append_row (ck_audit ck) ''sign-transaction-duplicate'' ''approved''
          (Some (rq_caller rq)) (Some q) (Some ''idempotency_replay'') (Some u) None (db_audit (work s)) =
          (Inr row, a)"
        using append_row_valid [OF audit_words(2,3)] by blast
      have "replay_stage ck rq c s = (Inr (Some (cached_result x (db_txs (work s)))), put_audit a s)"
        using Some found True row
        by (simp add: replay_stage_def on_run bindM_run get_by_idempotency_key_def qu
            list_hashes_by_tx_def find_sign_transaction_seq_def thenM_def cached_result_def first_hash_def)
      moreover have "audit_grown ''sign-transaction-duplicate'' ''approved'' (work s) (work (put_audit a s))"
        using row unfolding audit_grown_def put_audit_def by force
      ultimately show thesis using m True
        by (intro replayed [of x "put_audit a s"]) (simp_all add: put_audit_def)
    qed
  qed
qed

subsection \<open>The scope and the endpoint\<close>

text \<open>Everything a request can do inside the scope, read off the database before and after.\<close>

definition fresh_effect ::
  "sign_env \<Rightarrow> clock \<Rightarrow> sign_request \<Rightarrow> caller \<Rightarrow> db \<Rightarrow> sign_result \<Rightarrow> db \<Rightarrow> bool" where
  "fresh_effect env ck rq c d res d' \<longleftrightarrow>
     (\<exists>w dec p t row stx.
        find_wallet (rq_wallet rq) (db_wallets d) = Some w \<and>
        evaluate (se_eth env) (se_policy env) (se_registry env) c w rq (ck_now ck) (db_rates d) =
          (Inr (Allow dec p), t) \<and>
        cap_reason (se_settings env) rq = None \<and>
        (\<forall>x \<in> set (transactions (db_txs d)). \<not> (tx_wallet x = rq_wallet rq \<and> tx_chain x = rq_chain rq \<and>
           is_stale (lease_cutoff (se_settings env) ck) x)) \<and>
        map_of (db_nonces d) (rq_wallet rq, rq_chain rq) = Some row \<and>
        find_tx (ck_uuid ck) (db_txs d) = None \<and>
        res = fresh_result ck stx (next_nonce row) \<and>
        d' = stored ck rq c (next_nonce row) stx (reserved rq (next_nonce row) (d\<lparr>db_rates := t\<rparr>)))"

definition refusal_effect ::
  "sign_env \<Rightarrow> clock \<Rightarrow> sign_request \<Rightarrow> caller \<Rightarrow> db \<Rightarrow> exn \<Rightarrow> db \<Rightarrow> bool" where
  "refusal_effect env ck rq c d e d' \<longleftrightarrow>
     d' = d \<or>
     (\<exists>k x u. e = IdempotencyConflict k \<and> idempotent_match rq (db_txs d) = Some x \<and>
        request_body rq \<noteq> tx_request_json x \<and>
        d' = sign_audited ck rq c ''denied'' (Some ''idempotency_key_body_mismatch'') (Some u) d) \<or>
     (\<exists>w decision why t. find_wallet (rq_wallet rq) (db_wallets d) = Some w \<and>
        (decision = ''denied'' \<or> decision = ''error'') \<and>
        refusal_rates env ck rq c w (db_rates d) e t \<and>
        (\<forall>k r. e = PolicyDenied k r \<longrightarrow> decision = ''denied'' \<and> why = policy_denied_text k r) \<and>
        d' = sign_audited ck rq c decision (Some why) None (d\<lparr>db_rates := t\<rparr>))"

lemma sign_scope_run:
  "sign_scope env ck rq c (open_session d) =
     (case find_wallet (rq_wallet rq) (db_wallets d) of
        None \<Rightarrow> (Inl (HTTPException 403 ''policy_denied''), open_session d)
      | Some w \<Rightarrow> sign_transaction env ck rq c w (open_session d))"
proof -
  have "put_wallets (db_wallets d) (open_session d) = open_session d"
    by (simp add: put_wallets_def open_session_def)
  then show ?thesis
    by (simp add: sign_scope_def on_run wallet_get_by_name_def bindM_run split: option.split)
qed

lemma fresh_scope:
  assumes run: "sign_fresh env ck rq c w (open_session d) = (r, s')"
    and w: "find_wallet (rq_wallet rq) (db_wallets d) = Some w"
  shows "case r of Inl e \<Rightarrow> refusal_effect env ck rq c d e (durable s')
    | Inr x \<Rightarrow> tx_fk_ok rq d \<and> fresh_effect env ck rq c d x (work s')"
  using run
proof (cases rule: sign_fresh_cases)
  case (rolled_back e)
  then show ?thesis by (simp add: refusal_effect_def)
next
  case (refused e decision why t)
  have "refusal_effect env ck rq c d e (sign_audited ck rq c decision (Some why) None (d\<lparr>db_rates := t\<rparr>))"
    unfolding refusal_effect_def
  proof (rule disjI2, rule disjI2, intro exI conjI)
    show "find_wallet (rq_wallet rq) (db_wallets d) = Some w" by (rule w)
    show "refusal_rates env ck rq c w (db_rates d) e t" by (rule refused(4))
    show "\<forall>k r. e = PolicyDenied k r \<longrightarrow> decision = ''denied'' \<and> why = policy_denied_text k r"
      using refused(5) by blast
  qed (rule refused(2) refl)+
  with refused(1,3) show ?thesis by simp
next
  case (signed dec p t row stx)
  have "fresh_effect env ck rq c d (fresh_result ck stx (next_nonce row)) (work s')"
    unfolding fresh_effect_def using signed w
    by (intro exI [of _ w] exI [of _ dec] exI [of _ p] exI [of _ t] exI [of _ row] exI [of _ stx])
      (auto simp: list_ex_iff)
  with signed show ?thesis by simp
qed

lemma sign_scope_cases:
  assumes "session_scope False (sign_scope env ck rq c) d = (res, d')"
  obtains (failed) e where "res = Inl e" "refusal_effect env ck rq c d e d'"
  | (replayed) x where "res = Inr (cached_result x (db_txs d))" "idempotent_match rq (db_txs d) = Some x"
      "request_body rq = tx_request_json x" "audit_grown ''sign-transaction-duplicate'' ''approved'' d d'"
  | (signed) r where "res = Inr r" "idempotent_match rq (db_txs d) = None" "tx_fk_ok rq d"
      "fresh_effect env ck rq c d r d'"
proof -
  let ?s = "open_session d"
  obtain r s' where run: "sign_scope env ck rq c ?s = (r, s')" by fastforce
  have out: "res = r" "d' = (case r of Inl _ \<Rightarrow> durable s' | Inr _ \<Rightarrow> work s')"
    using assms run by (auto simp: session_scope_def split: sum.splits)
  have rolled: thesis if "r = Inl e" "durable s' = d" for e
    using that out by (intro failed [of e]) (simp_all add: refusal_effect_def)
  show thesis
  proof (cases "find_wallet (rq_wallet rq) (db_wallets d)")
    case None
    with run show thesis
      by (intro rolled) (auto simp: sign_scope_run)
  next
    case w: (Some w)
    with run have st: "sign_transaction env ck rq c w ?s = (r, s')"
      by (simp add: sign_scope_run)
    show thesis
    proof (cases "rq_caller rq = [] \<or> 64 < length (rq_caller rq)")
      case True
      with st show thesis by (intro rolled) (auto simp: sign_transaction_def)
    next
      case ok: False
      show thesis
      proof (cases rule: replay_stage_cases [of ck rq c ?s])
        case (conflict k x u)
        with st ok out show thesis
          by (intro failed [of "IdempotencyConflict k"])
            (auto simp: sign_transaction_def refusal_effect_def)
      next
        case (replayed x s1)
        with st ok out show thesis
          by (intro that(2) [of x]) (auto simp: sign_transaction_def)
      next
        case fresh
        with st ok have fr: "sign_fresh env ck rq c w ?s = (r, s')"
          by (simp add: sign_transaction_def)
        from fresh_scope [OF this w] fresh out show thesis
          by (cases r) (auto intro: failed signed)
      qed
    qed
  qed
qed

lemma sign_handler_cases:
  assumes "sign_handler env vault ck b key c d = (res, d')"
  obtains (untouched) e where "res = Inl e" "d' = d"
  | (failed) e where "res = Inl (sign_http e)"
      "refusal_effect env ck (body_request b (c_name c) key) c d e d'"
  | (replayed) x where "res = Inr (cached_result x (db_txs d))"
      "idempotent_match (body_request b (c_name c) key) (db_txs d) = Some x"
      "request_body (body_request b (c_name c) key) = tx_request_json x"
      "audit_grown ''sign-transaction-duplicate'' ''approved'' d d'"
  | (signed) r where "res = Inr r" "idempotent_match (body_request b (c_name c) key) (db_txs d) = None"
      "tx_fk_ok (body_request b (c_name c) key) d"
      "fresh_effect env ck (body_request b (c_name c) key) c d r d'"
proof (cases "(case key of None \<Rightarrow> False | Some k \<Rightarrow> 128 < length k) \<or> \<not> vault")
  case True
  with assms have "d' = d \<and> (\<exists>e. res = Inl e)"
    by (auto simp: sign_handler_def sealed_scope_def split: if_splits)
  then show thesis using untouched by blast
next
  case False
  let ?rq = "body_request b (c_name c) key"
  obtain r d1 where run: "session_scope False (sign_scope env ck ?rq c) d = (r, d1)" by fastforce
  with False assms have out: "res = (case r of Inl e \<Rightarrow> Inl (sign_http e) | Inr v \<Rightarrow> Inr v)" "d' = d1"
    by (auto simp: sign_handler_def sealed_scope_def catchM_def split: sum.splits)
  from run show thesis
  proof (cases rule: sign_scope_cases)
    case (failed e)
    with out show thesis by (intro that(2) [of e]) simp_all
  next
    case (replayed x)
    with out show thesis by (intro that(3) [of x]) simp_all
  next
    case (signed v)
    with out show thesis by (intro that(4) [of v]) simp_all
  qed
qed

lemma sign_scope_replay:
  assumes "find_wallet (rq_wallet rq) (db_wallets d) = Some w"
    and "rq_caller rq \<noteq> []" "length (rq_caller rq) \<le> 64"
    and "idempotent_match rq (db_txs d) = Some x" "request_body rq = tx_request_json x"
  shows "\<exists>d'. session_scope False (sign_scope env ck rq c) d = (Inr (cached_result x (db_txs d)), d') \<and>
    audit_grown ''sign-transaction-duplicate'' ''approved'' d d'"
proof (cases rule: replay_stage_cases [of ck rq c "open_session d"])
  case (replayed y s')
  then have "sign_transaction env ck rq c w (open_session d) = (Inr (cached_result y (db_txs d)), s')"
    using assms(2,3) by (simp add: sign_transaction_def)
  then have "session_scope False (sign_scope env ck rq c) d = (Inr (cached_result y (db_txs d)), work s')"
    using assms(1) by (simp add: session_scope_def sign_scope_run)
  then show ?thesis using replayed(1,5) assms(4) by auto
qed (use assms in simp_all)

text \<open>Whoever gets a result is a registered caller with a name of 1 to 64 characters and names an
  existing wallet.\<close>

lemma sign_scope_success:
  assumes "session_scope False (sign_scope env ck rq c) d = (Inr res, d')"
  shows "find_wallet (rq_wallet rq) (db_wallets d) \<noteq> None" "rq_caller rq \<noteq> []"
    "length (rq_caller rq) \<le> 64"
proof -
  from assms obtain s where run: "sign_scope env ck rq c (open_session d) = (Inr res, s)"
    by (cases rule: session_scope_cases) simp_all
  then obtain w where w: "find_wallet (rq_wallet rq) (db_wallets d) = Some w"
    by (cases "find_wallet (rq_wallet rq) (db_wallets d)")
      (simp_all add: sign_scope_run)
  then show "find_wallet (rq_wallet rq) (db_wallets d) \<noteq> None" by simp
  have "sign_transaction env ck rq c w (open_session d) = (Inr res, s)"
    using run w by (simp add: sign_scope_run)
  then show "rq_caller rq \<noteq> []" "length (rq_caller rq) \<le> 64"
    by (auto simp: sign_transaction_def split: if_splits)
qed

text \<open>The row a fresh signature stores is the one a later request with its key finds.\<close>

lemma first_hash_fresh:
  assumes "tx_wf t" "find_tx i t = None"
  shows "filter (\<lambda>h. th_tx_id h = i) (transaction_hashes t) = []"
  using assms by (auto simp: tx_wf_def filter_empty_conv find_tx_None)

lemma fresh_effect_match:
  assumes "fresh_effect env ck rq c d res d'" "tx_wf (db_txs d)"
    and "rq_idempotency_key rq = Some k" "idempotent_match rq (db_txs d) = None"
  shows "\<exists>x. idempotent_match rq (db_txs d') = Some x \<and> tx_request_json x = request_body rq \<and>
    cached_result x (db_txs d') = res \<and> db_wallets d' = db_wallets d"
proof -
  from assms(1) obtain n stx t where res: "res = fresh_result ck stx n"
    and d': "d' = stored ck rq c n stx (reserved rq n (d\<lparr>db_rates := t\<rparr>))"
    and new: "find_tx (ck_uuid ck) (db_txs d) = None"
    unfolding fresh_effect_def by blast
  let ?x = "new_tx_row ck rq n (''0x'' @ bytes_hex (st_raw_transaction stx))"
  have txs: "transactions (db_txs d') = transactions (db_txs d) @ [?x]"
    "transaction_hashes (db_txs d') = transaction_hashes (db_txs d) @
       [\<lparr>th_tx_id = ck_uuid ck, th_sequence_num = 1, th_hash_hex = ''0x'' @ bytes_hex (st_hash stx),
         th_submitted_at = ck_hash ck\<rparr>]"
    by (simp_all add: d' stored_def reserved_def Let_def)
  have "idempotent_match rq (db_txs d') = Some ?x"
    using assms(3,4) by (simp add: idempotent_match_def find_idempotent_def txs find_append)
  moreover have "cached_result ?x (db_txs d') = res"
    using first_hash_fresh [OF assms(2) new]
    by (simp add: cached_result_def first_hash_def txs res fresh_result_def new_tx_row_def)
  moreover have "tx_request_json ?x = request_body rq" by (simp add: new_tx_row_def)
  moreover have "db_wallets d' = db_wallets d"
    by (simp add: d' stored_def reserved_def Let_def)
  ultimately show ?thesis by blast
qed

lemma reserved_simps [simp]:
  "db_wallets (reserved rq n d) = db_wallets d" "db_callers (reserved rq n d) = db_callers d"
  "db_txs (reserved rq n d) = db_txs d" "db_rates (reserved rq n d) = db_rates d"
  "db_audit (reserved rq n d) = db_audit d"
  by (simp_all add: reserved_def)

lemma stored_simps [simp]:
  "db_wallets (stored ck rq c n stx d) = db_wallets d" "db_callers (stored ck rq c n stx d) = db_callers d"
  "db_nonces (stored ck rq c n stx d) = db_nonces d" "db_rates (stored ck rq c n stx d) = db_rates d"
  by (simp_all add: stored_def Let_def)

lemma stored_audit:
  "\<exists>row. audit_log (db_audit (stored ck rq c n stx d)) = audit_log (db_audit d) @ [row] \<and>
     ar_action row = ''sign-transaction'' \<and> ar_decision row = ''approved'' \<and>
     ar_caller row = Some (c_name c) \<and> ar_outcome row = Some (sign_outcome ck stx n)"
proof -
  let ?raw = "''0x'' @ bytes_hex (st_raw_transaction stx)" and ?h = "''0x'' @ bytes_hex (st_hash stx)"
  let ?d = "d\<lparr>db_txs := \<lparr>transactions = transactions (db_txs d) @ [new_tx_row ck rq n ?raw],
     transaction_hashes = transaction_hashes (db_txs d) @ [\<lparr>th_tx_id = ck_uuid ck, th_sequence_num = 1,
       th_hash_hex = ?h, th_submitted_at = ck_hash ck\<rparr>],
     transaction_attempts = transaction_attempts (db_txs d) @ [new_attempt ck rq ?raw ?h]\<rparr>\<rparr>"
  have "stored ck rq c n stx d = sign_audited ck rq c ''approved'' None (Some (sign_outcome ck stx n)) ?d"
    by (simp add: stored_def Let_def)
  with sign_audited_row [OF audit_words(3), of ck rq c None "Some (sign_outcome ck stx n)" ?d]
  show ?thesis by auto
qed

lemma require_caller_Inr:
  "require_caller verifies a t = (Inr c, t') \<Longrightarrow> c \<in> set t \<and> c_revoked_at c = None"
  by (auto simp: require_caller_def bindM_run split: option.splits if_splits prod.splits sum.splits
      dest: resolve_caller_Some)

lemma authenticate_cases:
  assumes "authenticate verifies authorization d = (res, d')"
  obtains (refused) e where "res = Inl e" "d' = d"
  | (known) c where "res = Inr c" "d' = d" "c \<in> set (db_callers d)" "c_revoked_at c = None"
proof -
  obtain r t where run: "require_caller verifies authorization (db_callers d) = (r, t)" by fastforce
  then have "t = db_callers d" using require_caller_state by (metis snd_conv)
  with run assms have "res = r" "d' = d"
    by (auto simp: authenticate_def session_scope_def on_run put_callers_def split: sum.splits)
  with run show thesis
    by (cases r) (auto dest: require_caller_Inr intro: refused known)
qed

text \<open>Storing a signature succeeds when the id is new and the keys are free.\<close>

lemma persist_stage_ok:
  assumes "find_tx (ck_uuid ck) (db_txs (work s)) = None" "tx_fk_ok rq (work s)"
    and "idempotent_match rq (db_txs (work s)) = None" "tx_wf (db_txs (work s))"
    and "\<forall>a \<in> set (transaction_attempts (db_txs (work s))). ta_tx_id a \<noteq> ck_uuid ck"
  shows "persist_stage ck rq c n stx s =
    (Inr (fresh_result ck stx n), s\<lparr>work := stored ck rq c n stx (work s)\<rparr>)"
proof (cases rule: persist_stage_cases [of ck rq c n stx s])
  case (failed e s')
  define raw h where rh: "raw = ''0x'' @ bytes_hex (st_raw_transaction stx)" "h = ''0x'' @ bytes_hex (st_hash stx)"
  let ?row = "new_tx_row ck rq n raw" and ?t = "db_txs (work s)"
  let ?t1 = "?t\<lparr>transactions := transactions ?t @ [?row]\<rparr>"
  let ?hr = "\<lparr>th_tx_id = ck_uuid ck, th_sequence_num = 1, th_hash_hex = h, th_submitted_at = ck_hash ck\<rparr>"
  let ?t2 = "?t1\<lparr>transaction_hashes := transaction_hashes ?t @ [?hr]\<rparr>"
  let ?t3 = "?t2\<lparr>transaction_attempts := transaction_attempts ?t @ [new_attempt ck rq raw h]\<rparr>"
  have c1: "on_txs (tx_create True (ck_row ck) ?row) s = (Inr ?row, put_txs ?t1 s)"
    using assms(1,3)
    by (auto simp: on_run tx_create_def get_by_id_def insert_tx_def bindM_run thenM_def Let_def idempotent_match_def
        valid_statuses_def split: option.splits)
  have c2: "on_txs (add_hash (ck_hash ck) (ck_uuid ck) h 1) (put_txs ?t1 s) = (Inr ?hr, put_txs ?t2 s)"
    using first_hash_fresh [OF assms(4,1)]
    by (auto simp: on_run put_txs_def add_hash_def Let_def list_ex_iff find_tx_def find_append
        filter_empty_conv split: option.splits)
  have c3: "on_txs (add_attempt (new_attempt ck rq raw h)) (put_txs ?t2 s) =
      (Inr (new_attempt ck rq raw h), put_txs ?t3 s)"
    using assms(5) by (auto simp: on_run put_txs_def add_attempt_def list_ex_iff new_attempt_def)
  obtain row u where c4: "sign_audit ck rq c ''approved'' None (Some (canonical_json (JObj
      [(''tx_id'', JStr (ck_uuid ck)), (''hash'', JStr h), (''nonce'', JInt n)]))) (put_txs ?t3 s) = (Inr row, u)"
    using sign_audit_run [OF audit_words(3)] by blast
  have "fst (persist_stage ck rq c n stx s) =
      Inr \<lparr>sr_tx_id = ck_uuid ck, sr_hash = h, sr_signed_raw_tx = raw, sr_nonce = n\<rparr>"
    unfolding persist_stage_def Let_def rh [symmetric] bindM_run getM_run prod.case sum.case
    using assms(2)
    by (simp only: thenM_def bindM_run c1 c2 c3 c4 prod.case sum.case ret_run fst_conv simp_thms if_True eq_True)
  with failed show ?thesis by simp
qed (simp_all)

text \<open>Every check passed, the pipeline signs.\<close>

lemma sign_fresh_ok:
  assumes "find_wallet (rq_wallet rq) (db_wallets d) = Some w"
    and "cap_reason (se_settings env) rq = None"
    and "evaluate (se_eth env) (se_policy env) (se_registry env) c w rq (ck_now ck) (db_rates d) =
      (Inr (Allow dec p), t)"
    and "\<forall>y \<in> set (transactions (db_txs d)). \<not> (tx_wallet y = rq_wallet rq \<and> tx_chain y = rq_chain rq \<and>
       is_stale (lease_cutoff (se_settings env) ck) y)"
    and "map_of (db_nonces d) (rq_wallet rq, rq_chain rq) = Some row"
    and "sl_checksum (se_signer env) (rq_to rq) = Inr to" "py_int (rq_value_wei rq) = Some v"
    and "sl_decrypt (se_signer env) (w_privkey_ciphertext w) = Inr pk"
    and "sl_sign_tx (se_signer env) pk \<lparr>td_chain_id = rq_chain rq, td_nonce = next_nonce row, td_to = to,
       td_value = v, td_data = rq_data rq, td_gas = rq_gas rq, td_max_fee_per_gas = rq_max_fee_per_gas rq,
       td_max_priority_fee_per_gas = rq_max_priority_fee_per_gas rq\<rparr> = Inr stx"
    and "find_tx (ck_uuid ck) (db_txs d) = None" "tx_fk_ok rq d" "idempotent_match rq (db_txs d) = None"
    and "tx_wf (db_txs d)" "\<forall>a \<in> set (transaction_attempts (db_txs d)). ta_tx_id a \<noteq> ck_uuid ck"
  shows "\<exists>s'. sign_fresh env ck rq c w (open_session d) = (Inr (fresh_result ck stx (next_nonce row)), s')"
proof -
  let ?s = "open_session d" and ?n = "next_nonce row"
  let ?s1 = "put_rates t ?s"
  let ?s2 = "?s1\<lparr>work := reserved rq ?n (work ?s1)\<rparr>"
  have w1: "work ?s1 = d\<lparr>db_rates := t\<rparr>" by (simp add: put_rates_def)
  have w2: "db_wallets (work ?s2) = db_wallets d" "db_txs (work ?s2) = db_txs d"
    "tx_fk_ok rq (work ?s2)"
    using assms(11) by (simp_all add: w1 tx_fk_ok_def)
  have st1: "address_stage rq ?s = (Inr (w_address w), ?s)"
    using assms(1) by (cases rule: address_stage_cases [of rq ?s]) simp_all
  have st2: "caps_stage (se_settings env) ck rq c ?s = (Inr (), ?s)"
    by (simp add: caps_stage_run assms(2))
  have st3: "gate_stage (se_eth env) (se_policy env) (se_registry env) ck rq c w ?s = (Inr (Allow dec p), ?s1)"
    by (simp add: gate_stage_run assms(3))
  have st4: "wedge_stage (se_settings env) (se_policy env) ck rq c w (Allow dec p) ?s1 = (Inr (), ?s1)"
    using assms(4) by (auto simp: wedge_stage_run w1 list_ex_iff)
  have st5: "reserve_stage (se_policy env) ck rq c w (Allow dec p) ?s1 = (Inr ?n, ?s2)"
    using assms(5) by (simp add: reserve_stage_run w1)
  have "signer_wallet (rq_wallet rq) ?s2 = (Inr w, ?s2)"
    using assms(1) by (simp only: signer_wallet_run w2(1) option.case)
  then have "build_and_sign (se_signer env) rq ?n ?s2 = (Inr stx, ?s2)"
    using assms(6-9)
    by (simp only: build_and_sign_def signer_sign_transaction_def bindM_run ofSum_run catchM_def
        prod.case sum.case option.case)
  then have st6: "sign_stage (se_signer env) (se_policy env) ck rq c w (Allow dec p) ?n ?s2 = (Inr stx, ?s2)"
    by (simp only: sign_stage_def catchM_Inr)
  have st7: "persist_stage ck rq c ?n stx ?s2 =
      (Inr (fresh_result ck stx ?n), ?s2\<lparr>work := stored ck rq c ?n stx (work ?s2)\<rparr>)"
    using assms(10-14) by (intro persist_stage_ok) (simp_all only: w2)
  show ?thesis
    by (intro exI)
      (simp only: sign_fresh_def thenM_def bindM_run st1 st2 st3 st4 st5 st6 st7 prod.case sum.case)
qed

subsection \<open>A sample request\<close>

text \<open>A database with one caller, one wallet and its nonce, and a request it signs.\<close>

definition sample_addr :: string where
  "sample_addr = ''0x'' @ replicate 40 CHR ''b''"

definition sample_sign_caller :: caller where
  "sample_sign_caller = sample_caller\<lparr>c_api_key_prefix := ''aaaaaaaa''\<rparr>"

definition sample_bearer :: string where
  "sample_bearer = ''Bearer fwd_live_'' @ replicate 43 CHR ''a''"

definition sample_db :: db where
  "sample_db = \<lparr>db_wallets = [sample_wallet], db_callers = [sample_sign_caller], db_txs = empty_txs,
     db_nonces = [((''hot'', 14), \<lparr>next_nonce = 5, last_confirmed = None, last_reconciled_at = 0\<rparr>)],
     db_rates = empty_rates, db_audit = empty_audit\<rparr>"

definition sample_sign_policy :: policy where
  "sample_sign_policy = sample_policy\<lparr>p_native_transfers := [(''faucet'', \<lparr>nb_chains = [14],
     nb_recipient_allowlist = [sample_addr], nb_max_value_wei = ''9'', nb_wallet_allowlist = [''hot''],
     nb_rate = Some \<lparr>per_hour = Some 2, per_day = None\<rparr>\<rparr>)]\<rparr>"

definition sample_env :: sign_env where
  "sample_env = \<lparr>se_settings = \<lparr>fwd_max_gas = 15000000, fwd_max_fee_per_gas = 500000000000,
       fwd_nonce_sync_max_advance = 64, fwd_reservation_lease_sec = 900\<rparr>,
     se_eth = sample_lib, se_signer = \<lparr>sl_decrypt = (\<lambda>_. Inr [1]),
       sl_sign_tx = (\<lambda>_ _. Inr \<lparr>st_raw_transaction = [2], st_hash = [3]\<rparr>), sl_checksum = Inr\<rparr>,
     se_policy = sample_sign_policy, se_registry = []\<rparr>"

definition sample_clock :: clock where
  "sample_clock = \<lparr>ck_now = 7, ck_audit = 7, ck_row = 7, ck_hash = 7, ck_uuid = ''u1''\<rparr>"

definition sample_body :: sign_body where
  "sample_body = \<lparr>sb_wallet = ''hot'', sb_chain = 14, sb_to = sample_addr, sb_value_wei = ''7'',
     sb_data = ''0x'', sb_gas = 21000, sb_max_fee_per_gas = 3, sb_max_priority_fee_per_gas = 1\<rparr>"

definition sample_verifies :: "string \<Rightarrow> string \<Rightarrow> bool option" where
  "sample_verifies h key = Some (h = ''h'')"

text \<open>The audit log does not matter for what follows.\<close>

lemma sample_db_audit: "sample_db = sample_db\<lparr>db_audit := empty_audit\<rparr>"
  by (simp add: sample_db_def)

lemma sample_authenticate_any:
  "authenticate sample_verifies (Some sample_bearer) (sample_db\<lparr>db_audit := a\<rparr>) =
     (Inr sample_sign_caller, sample_db\<lparr>db_audit := a\<rparr>)"
proof -
  have "starts_with (py_lower sample_bearer) ''bearer ''" by code_simp
  moreover have "extract_prefix (py_strip (drop 7 sample_bearer)) = Some ''aaaaaaaa''" by code_simp
  ultimately show ?thesis
    by (simp add: authenticate_def session_scope_def on_run require_caller_def resolve_caller_def
        list_by_prefix_active_def bindM_run sample_db_def sample_sign_caller_def sample_caller_def
        sample_verifies_def open_session_def put_callers_def)
qed

lemma sample_authenticate:
  "authenticate sample_verifies (Some sample_bearer) sample_db = (Inr sample_sign_caller, sample_db)"
  using sample_authenticate_any [of empty_audit] by (simp flip: sample_db_audit)

lemma sample_body_valid: "sign_body_valid sample_body"
  by code_simp

lemma sample_sign_evaluate:
  "\<exists>dec p t. evaluate sample_lib sample_sign_policy [] sample_sign_caller sample_wallet
     (body_request sample_body ''clif'' key) 7 empty_rates = (Inr (Allow dec p), t)"
proof -
  have "py_lower sample_addr = sample_addr" by code_simp
  then show ?thesis
    by (simp add: evaluate_def evaluate_inner_def evaluate_native_def native_stage_def rates_stage_def
      sample_policy_def sample_sign_policy_def sample_sign_caller_def sample_caller_def sample_wallet_def
      sample_body_def body_request_def catchM_def bindM_run
      thenM_def check_and_increment_caller_def check_and_increment_wallet_def aggregate_allows_def
      rate_windows_def Let_def floor_window_def window_width_def hour_us_def day_us_def
      wbk_count_def rb_inc_def empty_rates_def rb_count_def)
qed

lemmas sample_sign_defs = sample_db_def sample_env_def sample_body_def sample_sign_caller_def
  sample_caller_def idempotent_match_def find_idempotent_def empty_txs_def tx_wf_def tx_rows_wf_def
  find_wallet_def find_caller_def sample_wallet_def cap_reason_def body_request_def find_tx_def tx_fk_ok_def

lemma sample_handler_any:
  "\<exists>r d'. sign_handler sample_env True sample_clock sample_body (Some ''k'') sample_sign_caller
     (sample_db\<lparr>db_audit := a\<rparr>) = (Inr r, d')"
proof -
  let ?d = "sample_db\<lparr>db_audit := a\<rparr>"
  let ?rq = "body_request sample_body ''clif'' (Some ''k'')"
  obtain dec p t where ev: "evaluate (se_eth sample_env) (se_policy sample_env) (se_registry sample_env)
      sample_sign_caller sample_wallet ?rq (ck_now sample_clock) (db_rates ?d) = (Inr (Allow dec p), t)"
    using sample_sign_evaluate [of "Some ''k''"] by (auto simp: sample_env_def sample_clock_def sample_db_def)
  have "\<exists>s'. sign_fresh sample_env sample_clock ?rq sample_sign_caller sample_wallet (open_session ?d) =
      (Inr (fresh_result sample_clock \<lparr>st_raw_transaction = [2], st_hash = [3]\<rparr>
        (next_nonce \<lparr>next_nonce = 5, last_confirmed = None, last_reconciled_at = 0\<rparr>)), s')"
    by (rule sign_fresh_ok [OF _ _ ev]) (simp_all add: sample_sign_defs)
  then obtain r s' where fr: "sign_fresh sample_env sample_clock ?rq sample_sign_caller sample_wallet
      (open_session ?d) = (Inr r, s')" by blast
  have none: "idempotent_match ?rq (db_txs ?d) = None" by (simp add: sample_sign_defs)
  have "replay_stage sample_clock ?rq sample_sign_caller (open_session ?d) = (Inr None, open_session ?d)"
    using none by (cases rule: replay_stage_cases [of sample_clock ?rq sample_sign_caller "open_session ?d"])
      simp_all
  moreover have "rq_caller ?rq = ''clif''" "find_wallet (rq_wallet ?rq) (db_wallets ?d) = Some sample_wallet"
    "c_name sample_sign_caller = ''clif''"
    by (simp_all add: sample_sign_defs)
  ultimately show ?thesis
    using fr by (simp add: sign_handler_def sealed_scope_def session_scope_def sign_scope_run
        sign_transaction_def)
qed

lemma sample_handler:
  "\<exists>r d'. sign_handler sample_env True sample_clock sample_body (Some ''k'') sample_sign_caller sample_db =
     (Inr r, d')"
  using sample_handler_any [of empty_audit] by (simp flip: sample_db_audit)

subsection \<open>Properties\<close>

text \<open>The rows a fresh signature writes.\<close>

definition signed_hash :: "clock \<Rightarrow> signed_tx \<Rightarrow> transaction_hash" where
  "signed_hash ck stx = \<lparr>th_tx_id = ck_uuid ck, th_sequence_num = 1, th_hash_hex = ''0x'' @ bytes_hex (st_hash stx),
     th_submitted_at = ck_hash ck\<rparr>"

lemma fresh_writes:
  fixes rq n stx ck d t c row
  defines "raw \<equiv> ''0x'' @ bytes_hex (st_raw_transaction stx)" and "hash \<equiv> ''0x'' @ bytes_hex (st_hash stx)"
    and "d' \<equiv> stored ck rq c (next_nonce row) stx (reserved rq (next_nonce row) (d\<lparr>db_rates := t\<rparr>))"
  assumes "map_of (db_nonces d) (rq_wallet rq, rq_chain rq) = Some row"
  shows "map_of (db_nonces d') = (map_of (db_nonces d))((rq_wallet rq, rq_chain rq) \<mapsto> row\<lparr>next_nonce := next_nonce row + 1\<rparr>)"
    "db_txs d' = \<lparr>transactions = transactions (db_txs d) @ [new_tx_row ck rq (next_nonce row) raw],
      transaction_hashes = transaction_hashes (db_txs d) @ [signed_hash ck stx],
      transaction_attempts = transaction_attempts (db_txs d) @ [new_attempt ck rq raw hash]\<rparr>"
    "db_rates d' = t" "db_wallets d' = db_wallets d" "db_callers d' = db_callers d"
    "\<exists>ar. audit_log (db_audit d') = audit_log (db_audit d) @ [ar] \<and>
      ar_action ar = ''sign-transaction'' \<and> ar_decision ar = ''approved'' \<and> ar_caller ar = Some (c_name c)"
proof -
  show "map_of (db_nonces d') = (map_of (db_nonces d))((rq_wallet rq, rq_chain rq) \<mapsto> row\<lparr>next_nonce := next_nonce row + 1\<rparr>)"
    using assms(4) by (simp add: d'_def reserved_def table_simps fun_eq_iff)
  show "db_txs d' = \<lparr>transactions = transactions (db_txs d) @ [new_tx_row ck rq (next_nonce row) raw],
      transaction_hashes = transaction_hashes (db_txs d) @ [signed_hash ck stx],
      transaction_attempts = transaction_attempts (db_txs d) @ [new_attempt ck rq raw hash]\<rparr>"
    by (simp add: d'_def stored_def reserved_def Let_def raw_def hash_def signed_hash_def)
  show "db_rates d' = t" "db_wallets d' = db_wallets d" "db_callers d' = db_callers d" by (simp_all add: d'_def)
  show "\<exists>ar. audit_log (db_audit d') = audit_log (db_audit d) @ [ar] \<and>
      ar_action ar = ''sign-transaction'' \<and> ar_decision ar = ''approved'' \<and> ar_caller ar = Some (c_name c)"
    using stored_audit [of ck rq c "next_nonce row" stx "reserved rq (next_nonce row) (d\<lparr>db_rates := t\<rparr>)"]
    unfolding d'_def by auto
qed


text \<open>C28: signing is complete: a registered caller's request that names an existing wallet, is within
  the caps, is allowed by the policy, meets no stale reservation, finds an initialised nonce and can be
  decrypted and signed is answered with the signed transaction at the wallet's next nonce.\<close>

theorem sign_complete:
  fixes c b key
  defines "rq \<equiv> body_request b (c_name c) key"
  assumes "case key of None \<Rightarrow> True | Some k \<Rightarrow> length k \<le> 128"
    and "c \<in> set (db_callers d)" "c_name c \<noteq> []" "length (c_name c) \<le> 64"
    and "idempotent_match rq (db_txs d) = None" "tx_wf (db_txs d)"
    and "find_wallet (sb_wallet b) (db_wallets d) = Some w"
    and "cap_reason (se_settings env) rq = None"
    and "evaluate (se_eth env) (se_policy env) (se_registry env) c w rq (ck_now ck) (db_rates d) =
      (Inr (Allow dec p), t)"
    and "\<forall>y \<in> set (transactions (db_txs d)). \<not> (tx_wallet y = sb_wallet b \<and> tx_chain y = sb_chain b \<and>
       is_stale (lease_cutoff (se_settings env) ck) y)"
    and "map_of (db_nonces d) (sb_wallet b, sb_chain b) = Some row"
    and "sl_checksum (se_signer env) (sb_to b) = Inr to" "py_int (sb_value_wei b) = Some v"
    and "sl_decrypt (se_signer env) (w_privkey_ciphertext w) = Inr pk"
    and "sl_sign_tx (se_signer env) pk \<lparr>td_chain_id = sb_chain b, td_nonce = next_nonce row, td_to = to,
       td_value = v, td_data = sb_data b, td_gas = sb_gas b, td_max_fee_per_gas = sb_max_fee_per_gas b,
       td_max_priority_fee_per_gas = sb_max_priority_fee_per_gas b\<rparr> = Inr stx"
    and "find_tx (ck_uuid ck) (db_txs d) = None"
    and "\<forall>a \<in> set (transaction_attempts (db_txs d)). ta_tx_id a \<noteq> ck_uuid ck"
  shows "\<exists>d'. sign_handler env True ck b key c d = (Inr (fresh_result ck stx (next_nonce row)), d')"
proof -
  have f: "rq_wallet rq = sb_wallet b" "rq_chain rq = sb_chain b" "rq_to rq = sb_to b"
    "rq_value_wei rq = sb_value_wei b" "rq_data rq = sb_data b" "rq_gas rq = sb_gas b"
    "rq_max_fee_per_gas rq = sb_max_fee_per_gas b" "rq_caller rq = c_name c"
    "rq_max_priority_fee_per_gas rq = sb_max_priority_fee_per_gas b"
    by (simp_all add: rq_def body_request_def)
  have fk: "tx_fk_ok rq d"
    using assms(3,8) find_caller_None [of "c_name c" "db_callers d"] by (auto simp: tx_fk_ok_def f)
  have "\<exists>s'. sign_fresh env ck rq c w (open_session d) = (Inr (fresh_result ck stx (next_nonce row)), s')"
    using assms(8-17) fk assms(6,7,18) unfolding f [symmetric] by - (rule sign_fresh_ok)
  then obtain s' where fr: "sign_fresh env ck rq c w (open_session d) =
      (Inr (fresh_result ck stx (next_nonce row)), s')" by blast
  have "replay_stage ck rq c (open_session d) = (Inr None, open_session d)"
    using assms(6) by (cases rule: replay_stage_cases [of ck rq c "open_session d"]) simp_all
  with fr assms(4,5,8) have "sign_scope env ck rq c (open_session d) =
      (Inr (fresh_result ck stx (next_nonce row)), s')"
    by (simp add: sign_scope_run f sign_transaction_def)
  with assms(2) show ?thesis
    by (auto simp: sign_handler_def sealed_scope_def session_scope_def catchM_def rq_def [symmetric]
        split: option.splits)
qed

lemma sign_complete_witness:
  "\<exists>d'. sign_handler sample_env True sample_clock sample_body (Some ''k'') sample_sign_caller sample_db =
     (Inr (fresh_result sample_clock \<lparr>st_raw_transaction = [2], st_hash = [3]\<rparr> 5), d')"
proof -
  let ?rq = "body_request sample_body (c_name sample_sign_caller) (Some ''k'')"
  let ?row = "\<lparr>next_nonce = 5, last_confirmed = None, last_reconciled_at = 0\<rparr> :: nonce_row"
  have nm: "c_name sample_sign_caller = ''clif''" by (simp add: sample_sign_caller_def sample_caller_def)
  obtain dec p t where ev: "evaluate (se_eth sample_env) (se_policy sample_env) (se_registry sample_env)
      sample_sign_caller sample_wallet ?rq (ck_now sample_clock) (db_rates sample_db) = (Inr (Allow dec p), t)"
    using sample_sign_evaluate [of "Some ''k''"] by (auto simp: sample_env_def sample_clock_def sample_db_def nm)
  have "\<exists>d'. sign_handler sample_env True sample_clock sample_body (Some ''k'') sample_sign_caller sample_db =
     (Inr (fresh_result sample_clock \<lparr>st_raw_transaction = [2], st_hash = [3]\<rparr> (next_nonce ?row)), d')"
    by (rule sign_complete [OF _ _ _ _ _ _ _ _ ev]) (simp_all add: sample_sign_defs)
  then show ?thesis by simp
qed


end
