(* ===== verification/Sign_Failures.thy ===== *)
theory Sign_Failures
  imports Sign_Properties
begin

section \<open>Refused and repeated signing requests\<close>

text \<open>What a failed request leaves behind, what a denial records, and what a retry returns.\<close>

lemma refusal_effect_tables:
  assumes "refusal_effect env ck rq c d e d'"
  shows "db_wallets d' = db_wallets d \<and> db_callers d' = db_callers d \<and> db_txs d' = db_txs d \<and>
    db_nonces d' = db_nonces d \<and>
    (d' = d \<or>
     (\<exists>row. audit_log (db_audit d') = audit_log (db_audit d) @ [row] \<and>
        ar_action row = ''sign-transaction'' \<and> (ar_decision row = ''denied'' \<or> ar_decision row = ''error'') \<and>
        ar_caller row = Some (c_name c) \<and> ar_request_json row = Some (request_body rq)))"
  using assms unfolding refusal_effect_def
proof (elim disjE exE conjE)
  fix k x u
  assume d': "d' = sign_audited ck rq c ''denied'' (Some ''idempotency_key_body_mismatch'') (Some u) d"
  show ?thesis unfolding d' sign_audited_simps
    using sign_audited_row [OF audit_words(4), of ck rq c "Some ''idempotency_key_body_mismatch''" "Some u" d]
    by blast
next
  fix w decision why t
  assume d': "d' = sign_audited ck rq c decision (Some why) None (d\<lparr>db_rates := t\<rparr>)"
    and "decision = ''denied''"
  then show ?thesis
    using sign_audited_row [OF audit_words(4), of ck rq c "Some why" None "d\<lparr>db_rates := t\<rparr>"] by auto
next
  fix w decision why t
  assume d': "d' = sign_audited ck rq c decision (Some why) None (d\<lparr>db_rates := t\<rparr>)"
    and "decision = ''error''"
  then show ?thesis
    using sign_audited_row [OF audit_words(5), of ck rq c "Some why" None "d\<lparr>db_rates := t\<rparr>"] by auto
qed simp

lemma refusal_effect_rates:
  "refusal_effect env ck rq c d e d' \<Longrightarrow> db_rates d' = db_rates d \<or>
     (\<exists>w. refusal_rates env ck rq c w (db_rates d) e (db_rates d'))"
  by (auto simp: refusal_effect_def)

lemma refusal_rates_same:
  assumes "refusal_rates env ck rq c w t e t'" "counters_nonneg t"
    and "map_of (p_native_transfers (se_policy env)) (c_policy_path c) = None"
    and "\<And>why u. evaluate (se_eth env) (se_policy env) (se_registry env) c w rq (ck_now ck) t \<noteq>
      (Inr (Deny 0 why), u)"
  shows "same_rates t t'"
proof -
  let ?ev = "evaluate (se_eth env) (se_policy env) (se_registry env) c w rq (ck_now ck) t"
  have deny: "same_rates t t'" if "?ev = (Inr (Deny k why), t')" for k why
    using that assms(2)
  proof (cases rule: evaluate_cases)
    case (error r)
    with that assms(4) show ?thesis by simp
  qed simp_all
  have release: "same_rates t t'"
    if "?ev = (Inr (Allow dd p), u)"
      "t' = snd (release_rate_after_failure (se_policy env) (Allow dd p) c w rq (ck_now ck) u)" for dd p u
  proof -
    have "p = c_policy_path c" using evaluate_Allow [OF that(1) assms(2)] by simp
    with release_restores [OF that(1) assms(2)] assms(3) that(2) show ?thesis by auto
  qed
  show ?thesis
    using assms(1) deny release
    by (cases e) (auto simp: refusal_rates_def)
qed

subsection \<open>Properties\<close>


lemma sample_dear_request:
  assumes "c_name c = ''clif''"
  shows "sign_handler sample_env True sample_clock (sample_body\<lparr>sb_max_priority_fee_per_gas := 9\<rparr>) None
     c sample_db =
   (Inl (HTTPException 400 ''tx_params_rejected''),
    sign_audited sample_clock (body_request (sample_body\<lparr>sb_max_priority_fee_per_gas := 9\<rparr>) ''clif'' None)
      c ''denied'' (Some ''max_priority_fee_per_gas exceeds max_fee_per_gas'') None sample_db)"
proof -
  let ?rq = "body_request (sample_body\<lparr>sb_max_priority_fee_per_gas := 9\<rparr>) ''clif'' None"
  have w: "find_wallet (rq_wallet ?rq) (db_wallets sample_db) = Some sample_wallet" "rq_caller ?rq = ''clif''"
    "rq_idempotency_key ?rq = None"
    by (simp_all add: sample_sign_defs)
  have cap: "cap_reason (se_settings sample_env) ?rq = Some ''max_priority_fee_per_gas exceeds max_fee_per_gas''"
    by (simp add: sample_sign_defs)
  have st: "address_stage ?rq (open_session sample_db) = (Inr (w_address sample_wallet), open_session sample_db)"
    using w(1) by (cases rule: address_stage_cases [of ?rq "open_session sample_db"]) simp_all
  show ?thesis
    by (simp add: sign_handler_def sealed_scope_def session_scope_def sign_scope_run w assms sign_transaction_def
        replay_stage_def sign_fresh_def st caps_stage_run cap catchM_def thenM_def bindM_run sign_http_def)
qed


text \<open>A failed contract call costs no quota: unless the caller's path is a native-transfer path or
  the evaluation itself failed (step 0), every rate counter and committed aggregate is what it was
  before the request, whichever step refused it.\<close>

theorem sign_failure_rates:
  assumes "sign_handler env vault ck b key c d = (Inl e, d')" "counters_nonneg (db_rates d)"
    and "map_of (p_native_transfers (se_policy env)) (c_policy_path c) = None"
    and "\<And>w why u. evaluate (se_eth env) (se_policy env) (se_registry env) c w (body_request b (c_name c) key)
      (ck_now ck) (db_rates d) \<noteq> (Inr (Deny 0 why), u)"
  shows "same_rates (db_rates d) (db_rates d')"
  using assms(1)
proof (cases rule: sign_handler_cases)
  case (failed e')
  from refusal_effect_rates [OF failed(2)] show ?thesis
    using refusal_rates_same [OF _ assms(2,3,4)] by auto
qed simp_all

definition sample_drifted :: caller where
  "sample_drifted = sample_sign_caller\<lparr>c_policy_path := ''other''\<rparr>"

lemma sample_drift_evaluate:
  "evaluate (se_eth sample_env) (se_policy sample_env) (se_registry sample_env) sample_drifted w rq now t =
     (Inr (Deny 1 ''caller policy_path drift''), t)"
  by (simp add: evaluate_def evaluate_inner_def catchM_def sample_env_def sample_drifted_def
      sample_sign_caller_def sample_caller_def sample_sign_policy_def sample_policy_def)

lemma sign_failure_rates_witness:
  "same_rates (db_rates sample_db) (db_rates (sign_audited sample_clock (body_request
      (sample_body\<lparr>sb_max_priority_fee_per_gas := 9\<rparr>) ''clif'' None)
      sample_drifted ''denied'' (Some ''max_priority_fee_per_gas exceeds max_fee_per_gas'') None sample_db))"
proof -
  have nm: "c_name sample_drifted = ''clif''"
    by (simp add: sample_drifted_def sample_sign_caller_def sample_caller_def)
  have np: "map_of (p_native_transfers (se_policy sample_env)) (c_policy_path sample_drifted) = None"
    by (simp add: sample_drifted_def sample_env_def sample_sign_policy_def)
  have nn: "counters_nonneg (db_rates sample_db)"
    using counters_nonneg_empty by (simp add: sample_db_def)
  show ?thesis
    by (rule sign_failure_rates [OF sample_dear_request [OF nm] nn np]) (simp add: sample_drift_evaluate)
qed

text \<open>A denial is recorded: when the policy denies a request that reached it, the endpoint answers
  403 and the log durably ends in a denied row with the caller, the full request body, the step and
  the reason, although the exception rolls the session back.\<close>

theorem sign_denial_recorded:
  fixes c b key
  defines "rq \<equiv> body_request b (c_name c) key"
  assumes "case key of None \<Rightarrow> True | Some k \<Rightarrow> length k \<le> 128" "c_name c \<noteq> []" "length (c_name c) \<le> 64"
    and "find_wallet (sb_wallet b) (db_wallets d) = Some w"
    and "idempotent_match rq (db_txs d) = None" "cap_reason (se_settings env) rq = None"
    and "evaluate (se_eth env) (se_policy env) (se_registry env) c w rq (ck_now ck) (db_rates d) =
      (Inr (Deny k why), t)"
  shows "\<exists>d' row. sign_handler env True ck b key c d = (Inl (HTTPException 403 ''policy_denied''), d') \<and>
    audit_log (db_audit d') = audit_log (db_audit d) @ [row] \<and> ar_action row = ''sign-transaction'' \<and>
    ar_decision row = ''denied'' \<and> ar_caller row = Some (c_name c) \<and>
    ar_request_json row = Some (request_body rq) \<and>
    ar_decision_reason row = Some (policy_denied_text k why)"
proof -
  let ?s = "open_session d"
  let ?d = "d\<lparr>db_rates := t\<rparr>"
  let ?d' = "sign_audited ck rq c ''denied'' (Some (policy_denied_text k why)) None ?d"
  have f: "rq_wallet rq = sb_wallet b" "rq_caller rq = c_name c"
    by (simp_all add: rq_def body_request_def)
  have st: "address_stage rq ?s = (Inr (w_address w), ?s)"
    using assms(5) by (cases rule: address_stage_cases [of rq ?s]) (simp_all add: f)
  have "gate_stage (se_eth env) (se_policy env) (se_registry env) ck rq c w ?s =
      (Inl (PolicyDenied k why), open_session ?d')"
    by (simp add: gate_stage_run assms(8))
  then have fr: "sign_fresh env ck rq c w ?s = (Inl (PolicyDenied k why), open_session ?d')"
    by (simp add: sign_fresh_def st caps_stage_run assms(7))
  have "replay_stage ck rq c ?s = (Inr None, ?s)"
    using assms(6) by (cases rule: replay_stage_cases [of ck rq c ?s]) simp_all
  with fr assms(3,4,5) have "sign_scope env ck rq c ?s = (Inl (PolicyDenied k why), open_session ?d')"
    by (simp add: sign_scope_run f sign_transaction_def)
  with assms(2) have "sign_handler env True ck b key c d = (Inl (HTTPException 403 ''policy_denied''), ?d')"
    by (auto simp: sign_handler_def sealed_scope_def session_scope_def catchM_def rq_def [symmetric]
        sign_http_def split: option.splits)
  with sign_audited_row [OF audit_words(4), of ck rq c "Some (policy_denied_text k why)" None ?d]
  show ?thesis by auto
qed

lemma sign_denial_recorded_witness:
  "\<exists>d' row. sign_handler sample_env True sample_clock sample_body None sample_drifted sample_db =
      (Inl (HTTPException 403 ''policy_denied''), d') \<and>
    audit_log (db_audit d') = [row] \<and>
    ar_decision_reason row = Some ''policy_denied step=1: caller policy_path drift''"
proof -
  have one: "policy_denied_text 1 ''caller policy_path drift'' = ''policy_denied step=1: caller policy_path drift''"
    by (simp add: policy_denied_text_def str_int_def str_nat_def digit_char_def) code_simp?
  have log: "audit_log (db_audit sample_db) = []" by (simp add: sample_db_def empty_audit_def)
  have "\<exists>d' row. sign_handler sample_env True sample_clock sample_body None sample_drifted sample_db =
      (Inl (HTTPException 403 ''policy_denied''), d') \<and>
    audit_log (db_audit d') = audit_log (db_audit sample_db) @ [row] \<and> ar_action row = ''sign-transaction'' \<and>
    ar_decision row = ''denied'' \<and> ar_caller row = Some (c_name sample_drifted) \<and>
    ar_request_json row = Some (request_body (body_request sample_body (c_name sample_drifted) None)) \<and>
    ar_decision_reason row = Some (policy_denied_text 1 ''caller policy_path drift'')"
    by (rule sign_denial_recorded [OF _ _ _ _ _ _ sample_drift_evaluate])
      (simp_all add: sample_sign_defs sample_drifted_def)
  then show ?thesis by (auto simp: log one)
qed

text \<open>A retry is answered from the store: once a request with an idempotency key has been signed,
  sending it again, at any time, under any later policy and settings, returns the very same signed
  transaction and changes nothing but the log, which grows by one duplicate row.\<close>

theorem sign_retry_same:
  assumes "sign_handler env vault ck b (Some k) c d = (Inr res, d')" "tx_wf (db_txs d)"
  shows "\<exists>d''. sign_handler env' True ck' b (Some k) c d' = (Inr res, d'') \<and>
    audit_grown ''sign-transaction-duplicate'' ''approved'' d' d''"
proof -
  let ?rq = "body_request b (c_name c) (Some k)"
  have len: "\<not> 128 < length k" and v: vault
    using assms(1) by (auto simp: sign_handler_def sealed_scope_def split: if_splits)
  then have sc: "session_scope False (sign_scope env ck ?rq c) d = (Inr res, d')"
    using assms(1) by (auto simp: sign_handler_def sealed_scope_def catchM_def split: prod.splits sum.splits)
  note ok = sign_scope_success [OF sc]
  have "\<exists>x. idempotent_match ?rq (db_txs d') = Some x \<and> tx_request_json x = request_body ?rq \<and>
    cached_result x (db_txs d') = res \<and> db_wallets d' = db_wallets d"
    using assms(1)
  proof (cases rule: sign_handler_cases)
    case (replayed x)
    with audit_grownD(1,3) [OF replayed(4)] show ?thesis by simp
  next
    case (signed r)
    from fresh_effect_match [OF signed(4) assms(2) _ signed(2), of k] signed(1) show ?thesis
      by (simp add: body_request_def)
  qed simp_all
  then obtain x where x: "idempotent_match ?rq (db_txs d') = Some x" "tx_request_json x = request_body ?rq"
    "cached_result x (db_txs d') = res" "db_wallets d' = db_wallets d" by blast
  from ok(1) x(4) obtain w where w: "find_wallet (rq_wallet ?rq) (db_wallets d') = Some w" by auto
  from sign_scope_replay [OF w ok(2,3) x(1) x(2) [symmetric], of env' ck' c] x(3)
  obtain d'' where "session_scope False (sign_scope env' ck' ?rq c) d' = (Inr res, d'')"
    "audit_grown ''sign-transaction-duplicate'' ''approved'' d' d''" by auto
  with len show ?thesis by (simp add: sign_handler_def sealed_scope_def)
qed

lemma sign_retry_same_witness:
  "\<exists>res d' d''. sign_handler sample_env True sample_clock sample_body (Some ''k'') sample_sign_caller sample_db =
      (Inr res, d') \<and>
    sign_handler sample_env True (sample_clock\<lparr>ck_uuid := ''u2''\<rparr>) sample_body (Some ''k'') sample_sign_caller d' =
      (Inr res, d'')"
proof -
  obtain res d' where run: "sign_handler sample_env True sample_clock sample_body (Some ''k'')
      sample_sign_caller sample_db = (Inr res, d')" using sample_handler by blast
  have "tx_wf (db_txs sample_db)" by (simp add: sample_sign_defs)
  from sign_retry_same [OF run this] run show ?thesis by blast
qed

text \<open>The scope reports a sealed master that does not open with the exception class of another
  module, which the endpoint has no arm for: the client sees a 500, not the 503 of the handler.\<close>

lemma sealed_master_failure_is_500:
  assumes "authenticate verifies authorization d = (Inr c, d)" "sign_body_valid b"
    and "case key of None \<Rightarrow> True | Some k \<Rightarrow> length k \<le> 128"
  shows "post_sign_transaction env verifies False ck authorization key b d =
      (Inl ScopeVaultUnavailableError, d) \<and> http_status ScopeVaultUnavailableError = 500 \<and>
    http_status (sign_http VaultUnavailableError) = 503"
  using assms
  by (simp add: post_sign_transaction_def sign_handler_def sealed_scope_def sign_http_def http_status_def
      split: option.splits)

end
