(* ===== verification/Tx_Reports.thy ===== *)
theory Tx_Reports
  imports Sign_Transaction
begin

section \<open>Reports about signed transactions\<close>

text \<open>
  \<open>api/transactions.py\<close>: a caller reads a transaction, reports its broadcast and its receipt, and
  asks for a replacement of a stuck one.  Every handler first checks that the transaction is the
  caller's; a report must also name a hash recorded for it and find it in the status the transition
  leaves.  A refusal appends a denied audit row, commits it and raises.
\<close>

datatype broadcast_outcome = Accepted | RejectedReleaseable | RejectedNonceTooLow

datatype receipt_outcome = MinedSuccess | MinedReverted

record broadcast_body =
  bb_tx_hash :: string
  bb_outcome :: broadcast_outcome
  bb_error_class :: "string option"

record receipt_body =
  rb_tx_hash :: string
  rb_outcome :: receipt_outcome
  rb_block_number :: int

record replacement_body =
  pb_gas :: int
  pb_max_fee_per_gas :: int
  pb_max_priority_fee_per_gas :: int

record report_response =
  rr_tx_id :: string
  rr_status :: string

record replacement_response =
  pr_tx_id :: string
  pr_signed_raw_tx :: string
  pr_hash :: string
  pr_nonce :: int
  pr_attempt :: int

definition broadcast_word :: "broadcast_outcome \<Rightarrow> string" where
  "broadcast_word o' = (case o' of Accepted \<Rightarrow> ''accepted''
     | RejectedReleaseable \<Rightarrow> ''rejected_releaseable'' | RejectedNonceTooLow \<Rightarrow> ''rejected_nonce_too_low'')"

definition receipt_word :: "receipt_outcome \<Rightarrow> string" where
  "receipt_word o' = (case o' of MinedSuccess \<Rightarrow> ''mined_success'' | MinedReverted \<Rightarrow> ''mined_reverted'')"

subsection \<open>The shared checks\<close>

definition ownership_check :: "string \<Rightarrow> caller \<Rightarrow> (session, transaction) op" where
  "ownership_check i c =
     bindM (on_txs (get_by_id i True)) (\<lambda>tx.
     case tx of
       None \<Rightarrow> raise (HTTPException 404 ''transaction_not_found'')
     | Some x \<Rightarrow> if tx_caller x \<noteq> c_name c then raise (HTTPException 404 ''transaction_not_found'')
         else ret x)"

definition hash_check :: "clock \<Rightarrow> string \<Rightarrow> string \<Rightarrow> string \<Rightarrow> string \<Rightarrow> (session, unit) op" where
  "hash_check ck i reported action name =
     bindM (on_txs (list_hashes_by_tx i)) (\<lambda>known.
     if reported \<notin> th_hash_hex ` set known
     then json_refuse ck action ''denied'' (Some name) [(''tx_id'', JStr i), (''tx_hash'', JStr reported)]
       ''tx_hash_mismatch'' None (HTTPException 409 ''tx_hash_mismatch'')
     else ret ())"

definition transition_check ::
  "clock \<Rightarrow> string \<Rightarrow> string \<Rightarrow> string \<Rightarrow> string \<Rightarrow> string \<Rightarrow> string \<Rightarrow> (session, unit) op" where
  "transition_check ck i current required intent action name =
     (if current \<noteq> required
      then json_refuse ck action ''denied'' (Some name) [(''tx_id'', JStr i)]
        (''illegal_transition:'' @ current @ ''->'' @ intent) None (HTTPException 409 ''illegal_transition'')
      else ret ())"

subsection \<open>Reading a transaction\<close>

definition get_transaction :: "string \<Rightarrow> caller \<Rightarrow> (db, transaction \<times> transaction_hash list) op" where
  "get_transaction i c =
     session_scope False
       (bindM (ownership_check i c) (\<lambda>x.
        bindM (on_txs (list_hashes_by_tx i)) (\<lambda>hashes. ret (x, hashes))))"

subsection \<open>The broadcast result\<close>

definition broadcast_step ::
  "clock \<Rightarrow> string \<Rightarrow> broadcast_body \<Rightarrow> caller \<Rightarrow> transaction \<Rightarrow> (session, report_response) op" where
  "broadcast_step ck i b c x =
     (let request = [(''tx_id'', JStr i), (''tx_hash'', JStr (bb_tx_hash b))];
          audit = (\<lambda>reason outcome. json_audit ck ''tx-broadcast-result'' ''approved'' (Some (c_name c)) request
                     (Some reason) (Some outcome)) in
      case bb_outcome b of
        Accepted \<Rightarrow>
          thenM (on_txs (update_status i ''submitted'' None None None (Some (ck_now ck))))
            (thenM (audit ''broadcast_accepted'' [(''tx_hash'', JStr (bb_tx_hash b))])
              (ret \<lparr>rr_tx_id = i, rr_status = ''submitted''\<rparr>))
      | RejectedReleaseable \<Rightarrow>
          bindM (on_nonces (release_if_unused (tx_wallet x) (tx_chain x) (tx_nonce x))) (\<lambda>released.
          thenM (on_txs (update_status i ''failed'' None None None None))
            (thenM (audit ''broadcast_rejected_releaseable''
                [(''tx_hash'', JStr (bb_tx_hash b)), (''error_class'', json_opt (bb_error_class b)),
                 (''released'', JBool released)])
              (ret \<lparr>rr_tx_id = i, rr_status = ''failed''\<rparr>)))
      | RejectedNonceTooLow \<Rightarrow>
          thenM (on_txs (update_status i ''failed'' None None None None))
            (thenM (audit ''broadcast_rejected_nonce_too_low''
                [(''tx_hash'', JStr (bb_tx_hash b)), (''error_class'', json_opt (bb_error_class b)),
                 (''hint'', JStr ''chain ahead of fwd; admin nonce-sync required (ship a11+)'')])
              (ret \<lparr>rr_tx_id = i, rr_status = ''failed''\<rparr>)))"

definition broadcast_result ::
  "clock \<Rightarrow> string \<Rightarrow> broadcast_body \<Rightarrow> caller \<Rightarrow> (db, report_response) op" where
  "broadcast_result ck i b c =
     session_scope False
       (bindM (ownership_check i c) (\<lambda>x.
        thenM (hash_check ck i (bb_tx_hash b) ''tx-broadcast-result'' (c_name c))
          (thenM (transition_check ck i (tx_status x) ''pending'' (broadcast_word (bb_outcome b))
              ''tx-broadcast-result'' (c_name c))
            (broadcast_step ck i b c x))))"

subsection \<open>The receipt\<close>

definition receipt_json :: "receipt_body \<Rightarrow> int \<Rightarrow> string" where
  "receipt_json b st = canonical_json (JObj [(''block_number'', JInt (rb_block_number b)),
     (''tx_hash'', JStr (rb_tx_hash b)), (''status'', JInt st)])"

definition receipt_step ::
  "clock \<Rightarrow> string \<Rightarrow> receipt_body \<Rightarrow> caller \<Rightarrow> transaction \<Rightarrow> (session, report_response) op" where
  "receipt_step ck i b c x =
     (let request = [(''tx_id'', JStr i), (''tx_hash'', JStr (rb_tx_hash b))];
          audit = (\<lambda>reason. json_audit ck ''tx-receipt'' ''approved'' (Some (c_name c)) request (Some reason) None) in
      case rb_outcome b of
        MinedSuccess \<Rightarrow>
          thenM (on_txs (update_status i ''mined'' (Some (ck_now ck)) (Some (receipt_json b 1)) None None))
            (thenM (on_nonces (mark_confirmed (tx_wallet x) (tx_chain x) (tx_nonce x)))
              (bindM (ofSum (case py_int (tx_value_wei x) of
                  None \<Rightarrow> Inl (ValueError ''invalid literal for int() with base 10'') | Some v \<Rightarrow> Inr v)) (\<lambda>v.
               thenM (on_rates (add_committed_value (tx_wallet x) v (ck_now ck)))
                (thenM (audit ''receipt_mined_success'')
                  (ret \<lparr>rr_tx_id = i, rr_status = ''mined''\<rparr>)))))
      | MinedReverted \<Rightarrow>
          thenM (on_txs (update_status i ''reverted'' (Some (ck_now ck)) (Some (receipt_json b 0)) None None))
            (thenM (on_nonces (mark_confirmed (tx_wallet x) (tx_chain x) (tx_nonce x)))
              (thenM (audit ''receipt_mined_reverted'')
                (ret \<lparr>rr_tx_id = i, rr_status = ''reverted''\<rparr>))))"

definition receipt :: "clock \<Rightarrow> string \<Rightarrow> receipt_body \<Rightarrow> caller \<Rightarrow> (db, report_response) op" where
  "receipt ck i b c =
     session_scope False
       (bindM (ownership_check i c) (\<lambda>x.
        thenM (hash_check ck i (rb_tx_hash b) ''tx-receipt'' (c_name c))
          (thenM (transition_check ck i (tx_status x) ''submitted'' (receipt_word (rb_outcome b))
              ''tx-receipt'' (c_name c))
            (receipt_step ck i b c x))))"

subsection \<open>The replacement\<close>

text \<open>\<open>math.ceil(prev * 1.125)\<close> in binary64: the integer is rounded to 53 significant bits (ties to
  even), the product, a multiple of 1/8, is rounded again.\<close>

fun bit_length :: "nat \<Rightarrow> nat" where
  "bit_length n = (if n = 0 then 0 else Suc (bit_length (n div 2)))"

declare bit_length.simps [simp del]

definition round53 :: "nat \<Rightarrow> nat" where
  "round53 m =
     (let k = bit_length m - 53; q = m div 2 ^ k; r = m mod 2 ^ k in
      if k = 0 then m
      else if 2 ^ (k - 1) < r \<or> (r = 2 ^ (k - 1) \<and> odd q) then (q + 1) * 2 ^ k else q * 2 ^ k)"

definition min_bump :: "int \<Rightarrow> int" where
  "min_bump prev = int ((round53 (9 * round53 (nat prev)) + 7) div 8)"

definition exn_name :: "exn \<Rightarrow> string" where
  "exn_name e = (case e of
     ValueError _ \<Rightarrow> ''ValueError'' | TypeError \<Rightarrow> ''TypeError'' | KeyError \<Rightarrow> ''KeyError''
   | RuntimeError \<Rightarrow> ''RuntimeError'' | IntegrityError \<Rightarrow> ''IntegrityError'' | SealError \<Rightarrow> ''SealError''
   | WalletNotFoundError _ \<Rightarrow> ''WalletNotFoundError'' | VaultUnavailableError \<Rightarrow> ''VaultUnavailableError''
   | _ \<Rightarrow> ''Exception'')"

text \<open>3 and the global caps: the reason to refuse the new fees, with the audited request.\<close>

definition bump_refusal ::
  "string \<Rightarrow> replacement_body \<Rightarrow> transaction_attempt option \<Rightarrow> (string \<times> json) list option" where
  "bump_refusal i b prev =
     (case prev of
        None \<Rightarrow> None
      | Some p \<Rightarrow>
          if pb_max_priority_fee_per_gas b < min_bump (ta_max_priority_fee_per_gas p)
          then Some [(''tx_id'', JStr i), (''max_priority_fee_per_gas'', JInt (pb_max_priority_fee_per_gas b)),
            (''min_required'', JInt (min_bump (ta_max_priority_fee_per_gas p)))]
          else if pb_max_fee_per_gas b < ta_max_fee_per_gas p
          then Some [(''tx_id'', JStr i), (''max_fee_per_gas'', JInt (pb_max_fee_per_gas b)),
            (''prev_max_fee_per_gas'', JInt (ta_max_fee_per_gas p))]
          else None)"

definition replacement_cap_reason :: "settings \<Rightarrow> replacement_body \<Rightarrow> string option" where
  "replacement_cap_reason st b =
     (if pb_max_fee_per_gas b < pb_max_priority_fee_per_gas b
      then Some ''tx_params_rejected:priority_exceeds_maxfee''
      else if fwd_max_gas st < pb_gas b
      then Some (''tx_params_rejected:gas_exceeds_cap:'' @ str_int (pb_gas b) @ ''>'' @ str_int (fwd_max_gas st))
      else if fwd_max_fee_per_gas st < pb_max_fee_per_gas b
      then Some (''tx_params_rejected:max_fee_exceeds_cap:'' @ str_int (pb_max_fee_per_gas b) @ ''>'' @
        str_int (fwd_max_fee_per_gas st))
      else None)"

definition replacement_refuse ::
  "clock \<Rightarrow> caller \<Rightarrow> string \<Rightarrow> (string \<times> json) list \<Rightarrow> string \<Rightarrow> exn \<Rightarrow> (session, 'a) op" where
  "replacement_refuse ck c decision request reason e =
     json_refuse ck ''tx-replacement'' decision (Some (c_name c)) request reason None e"

definition fee_checks ::
  "settings \<Rightarrow> clock \<Rightarrow> string \<Rightarrow> replacement_body \<Rightarrow> caller \<Rightarrow> (session, unit) op" where
  "fee_checks st ck i b c =
     bindM (on_txs (latest_attempt i)) (\<lambda>prev.
     case bump_refusal i b prev of
       Some request \<Rightarrow> replacement_refuse ck c ''denied'' request ''replacement_bump_too_low''
         (HTTPException 400 ''replacement_bump_too_low'')
     | None \<Rightarrow>
         (case replacement_cap_reason st b of
            Some reason \<Rightarrow> replacement_refuse ck c ''denied'' [(''tx_id'', JStr i)] reason
              (HTTPException 400 ''tx_params_rejected'')
          | None \<Rightarrow> ret ()))"

text \<open>4. The retry cap; the number of the new attempt.\<close>

definition attempt_number :: "clock \<Rightarrow> string \<Rightarrow> caller \<Rightarrow> (session, int) op" where
  "attempt_number ck i c =
     bindM (on_txs (list_attempts i)) (\<lambda>attempts.
     if 5 \<le> length attempts
     then replacement_refuse ck c ''denied'' [(''tx_id'', JStr i)] ''replacement_cap_exhausted''
       (HTTPException 409 ''replacement_cap_exhausted'')
     else ret (int (length attempts) + 1))"

text \<open>5. The original calldata, out of the stored request.\<close>

definition recorded_data :: "string \<Rightarrow> string option" where
  "recorded_data request_json =
     (case json_loads request_json of
        Some (JObj kv) \<Rightarrow>
          (case map_of kv ''data'' of Some (JStr s) \<Rightarrow> if s = [] then None else Some s | _ \<Rightarrow> None)
      | _ \<Rightarrow> None)"

definition replacement_dict :: "transaction \<Rightarrow> replacement_body \<Rightarrow> string \<Rightarrow> int \<Rightarrow> string \<Rightarrow> tx_dict" where
  "replacement_dict x b to_addr v data =
     \<lparr>td_chain_id = tx_chain x, td_nonce = tx_nonce x, td_to = to_addr, td_value = v, td_data = data,
      td_gas = pb_gas b, td_max_fee_per_gas = pb_max_fee_per_gas b,
      td_max_priority_fee_per_gas = pb_max_priority_fee_per_gas b\<rparr>"

definition resign ::
  "signer_lib \<Rightarrow> clock \<Rightarrow> string \<Rightarrow> replacement_body \<Rightarrow> caller \<Rightarrow> transaction \<Rightarrow> (session, signed_tx) op" where
  "resign lib ck i b c x =
     (case recorded_data (tx_request_json x) of
        None \<Rightarrow> replacement_refuse ck c ''denied'' [(''tx_id'', JStr i)] ''replacement_intent_unrecoverable''
          (HTTPException 409 ''replacement_intent_unrecoverable'')
      | Some data \<Rightarrow>
          bindM (ofSum (sl_checksum lib (tx_contract_address x))) (\<lambda>to_addr.
          bindM (ofSum (case py_int (tx_value_wei x) of
             None \<Rightarrow> Inl (ValueError ''invalid literal for int() with base 10'') | Some v \<Rightarrow> Inr v)) (\<lambda>v.
          catchM (signer_sign_transaction lib (tx_wallet x) (replacement_dict x b to_addr v data))
            (\<lambda>e. replacement_refuse ck c ''error'' [(''tx_id'', JStr i)] (''sign_failure:'' @ exn_name e)
              (HTTPException 503 ''vault_unavailable'')))))"

text \<open>6. Persist.\<close>

definition replacement_attempt :: "clock \<Rightarrow> string \<Rightarrow> replacement_body \<Rightarrow> int \<Rightarrow> string \<Rightarrow> string \<Rightarrow> transaction_attempt" where
  "replacement_attempt ck i b seq raw h =
     \<lparr>ta_tx_id = i, ta_sequence_num = seq, ta_gas = pb_gas b, ta_max_fee_per_gas = pb_max_fee_per_gas b,
      ta_max_priority_fee_per_gas = pb_max_priority_fee_per_gas b, ta_signed_raw = raw, ta_hash = h,
      ta_created_at = ck_now ck\<rparr>"

definition replacement_persist ::
  "clock \<Rightarrow> string \<Rightarrow> replacement_body \<Rightarrow> caller \<Rightarrow> transaction \<Rightarrow> int \<Rightarrow> signed_tx \<Rightarrow>
   (session, replacement_response) op" where
  "replacement_persist ck i b c x seq stx =
     (let h = ''0x'' @ bytes_hex (st_hash stx); raw = ''0x'' @ bytes_hex (st_raw_transaction stx) in
      thenM (on_txs (add_attempt (replacement_attempt ck i b seq raw h)))
        (thenM (on_txs (add_hash (ck_hash ck) i h seq))
          (thenM (json_audit ck ''tx-replacement'' ''approved'' (Some (c_name c)) [(''tx_id'', JStr i)] None
              (Some [(''prev_seq'', JInt (seq - 1)), (''new_seq'', JInt seq), (''new_hash'', JStr h),
                     (''nonce'', JInt (tx_nonce x))]))
            (ret \<lparr>pr_tx_id = i, pr_signed_raw_tx = raw, pr_hash = h, pr_nonce = tx_nonce x,
                  pr_attempt = seq\<rparr>))))"

definition replacement_body_op ::
  "settings \<Rightarrow> signer_lib \<Rightarrow> clock \<Rightarrow> string \<Rightarrow> replacement_body \<Rightarrow> caller \<Rightarrow> (session, replacement_response) op" where
  "replacement_body_op st lib ck i b c =
     bindM (ownership_check i c) (\<lambda>x.
     thenM (transition_check ck i (tx_status x) ''submitted'' ''replacement'' ''tx-replacement'' (c_name c))
       (thenM (fee_checks st ck i b c)
         (bindM (attempt_number ck i c) (\<lambda>seq.
          bindM (resign lib ck i b c x) (\<lambda>stx.
          replacement_persist ck i b c x seq stx)))))"

definition sign_replacement ::
  "settings \<Rightarrow> signer_lib \<Rightarrow> bool \<Rightarrow> clock \<Rightarrow> string \<Rightarrow> replacement_body \<Rightarrow> caller \<Rightarrow>
   (db, replacement_response) op" where
  "sign_replacement st lib vault ck i b c = sealed_scope vault (replacement_body_op st lib ck i b c)"

subsection \<open>The endpoints\<close>

definition broadcast_body_valid :: "broadcast_body \<Rightarrow> bool" where
  "broadcast_body_valid b \<longleftrightarrow> length (bb_tx_hash b) = 66 \<and>
     (case bb_error_class b of None \<Rightarrow> True | Some s \<Rightarrow> length s \<le> 128)"

definition receipt_body_valid :: "receipt_body \<Rightarrow> bool" where
  "receipt_body_valid b \<longleftrightarrow> length (rb_tx_hash b) = 66 \<and> 0 \<le> rb_block_number b"

definition replacement_body_valid :: "replacement_body \<Rightarrow> bool" where
  "replacement_body_valid b \<longleftrightarrow> 21000 \<le> pb_gas b \<and> 1 \<le> pb_max_fee_per_gas b \<and>
     0 \<le> pb_max_priority_fee_per_gas b"

text \<open>Authentication, then the body, then the handler.\<close>

definition guarded ::
  "(string \<Rightarrow> string \<Rightarrow> bool option) \<Rightarrow> string option \<Rightarrow> bool \<Rightarrow> (caller \<Rightarrow> (db, 'a) op) \<Rightarrow> (db, 'a) op" where
  "guarded verifies authorization valid handler =
     bindM (authenticate verifies authorization) (\<lambda>c.
     if \<not> valid then raise (HTTPException 422 ''validation'') else handler c)"

definition post_broadcast_result ::
  "(string \<Rightarrow> string \<Rightarrow> bool option) \<Rightarrow> clock \<Rightarrow> string option \<Rightarrow> string \<Rightarrow> broadcast_body \<Rightarrow> (db, report_response) op" where
  "post_broadcast_result verifies ck authorization i b =
     guarded verifies authorization (broadcast_body_valid b) (broadcast_result ck i b)"

definition post_receipt ::
  "(string \<Rightarrow> string \<Rightarrow> bool option) \<Rightarrow> clock \<Rightarrow> string option \<Rightarrow> string \<Rightarrow> receipt_body \<Rightarrow> (db, report_response) op" where
  "post_receipt verifies ck authorization i b =
     guarded verifies authorization (receipt_body_valid b) (receipt ck i b)"

definition post_sign_replacement ::
  "sign_env \<Rightarrow> (string \<Rightarrow> string \<Rightarrow> bool option) \<Rightarrow> bool \<Rightarrow> clock \<Rightarrow> string option \<Rightarrow> string \<Rightarrow> replacement_body \<Rightarrow>
   (db, replacement_response) op" where
  "post_sign_replacement env verifies vault ck authorization i b =
     guarded verifies authorization (replacement_body_valid b)
       (sign_replacement (se_settings env) (se_signer env) vault ck i b)"

end
