(* ===== verification/Report_Correct.thy ===== *)
theory Report_Correct
  imports Tx_Reports Sign_Properties
begin

section \<open>What reports and replacements do\<close>

text \<open>
  The case rules \<open>broadcast_cases\<close>, \<open>receipt_cases\<close> and \<open>replacement_cases\<close> list the outcomes of
  the three writing handlers: nothing, one refused audit row, or the effect of the approved path with
  one approved audit row.
\<close>

subsection \<open>Audit rows and refusals\<close>

lemma report_words:
  "''tx-broadcast-result'' \<in> set valid_actions" "''tx-receipt'' \<in> set valid_actions"
  "''tx-replacement'' \<in> set valid_actions"
  by (simp_all add: valid_actions_def)

lemma ownership_check_run:
  "ownership_check i c s = (case find_tx i (db_txs (work s)) of
     None \<Rightarrow> (Inl (HTTPException 404 ''transaction_not_found''), s)
   | Some x \<Rightarrow> if tx_caller x \<noteq> c_name c then (Inl (HTTPException 404 ''transaction_not_found''), s)
       else (Inr x, s))"
  by (simp add: ownership_check_def on_run get_by_id_def bindM_run split: option.split)

definition known_hash :: "string \<Rightarrow> string \<Rightarrow> tx_db \<Rightarrow> bool" where
  "known_hash i h t \<longleftrightarrow> (\<exists>r \<in> set (transaction_hashes t). th_tx_id r = i \<and> th_hash_hex r = h)"

lemma hash_check_cases:
  assumes "action \<in> set valid_actions"
  obtains (unknown) d' where "\<not> known_hash i h (db_txs (work s))"
      "hash_check ck i h action name s = (Inl (HTTPException 409 ''tx_hash_mismatch''), open_session d')"
      "audit_grown action ''denied'' (work s) d'"
  | (known) "known_hash i h (db_txs (work s))" "hash_check ck i h action name s = (Inr (), s)"
proof -
  have eq: "hash_check ck i h action name s = (if known_hash i h (db_txs (work s)) then (Inr (), s)
     else json_refuse ck action ''denied'' (Some name) [(''tx_id'', JStr i), (''tx_hash'', JStr h)]
       ''tx_hash_mismatch'' None (HTTPException 409 ''tx_hash_mismatch'') s)"
    by (auto simp: hash_check_def on_run list_hashes_by_tx_def bindM_run known_hash_def)
  show thesis
  proof (cases "known_hash i h (db_txs (work s))")
    case True
    with eq show thesis by (intro known) simp_all
  next
    case False
    with eq json_refuse_run [OF assms audit_words(4)] show thesis by (metis unknown)
  qed
qed

lemma transition_check_cases:
  assumes "action \<in> set valid_actions"
  obtains (illegal) d' where "current \<noteq> required"
      "transition_check ck i current required intent action name s =
         (Inl (HTTPException 409 ''illegal_transition''), open_session d')"
      "audit_grown action ''denied'' (work s) d'"
  | (legal) "current = required" "transition_check ck i current required intent action name s = (Inr (), s)"
proof (cases "current = required")
  case True
  then show thesis by (intro legal) (simp_all add: transition_check_def)
next
  case False
  with json_refuse_run [OF assms audit_words(4)] show thesis
    by (metis illegal transition_check_def)
qed

subsection \<open>The broadcast report\<close>

text \<open>The tables after an approved broadcast report.\<close>

definition broadcast_db :: "clock \<Rightarrow> string \<Rightarrow> broadcast_outcome \<Rightarrow> transaction \<Rightarrow> db \<Rightarrow> db" where
  "broadcast_db ck i o' x d =
     (case o' of
        Accepted \<Rightarrow> d\<lparr>db_txs := snd (update_status i ''submitted'' None None None (Some (ck_now ck)) (db_txs d))\<rparr>
      | RejectedReleaseable \<Rightarrow>
          d\<lparr>db_nonces := snd (release_if_unused (tx_wallet x) (tx_chain x) (tx_nonce x) (db_nonces d)),
            db_txs := snd (update_status i ''failed'' None None None None (db_txs d))\<rparr>
      | RejectedNonceTooLow \<Rightarrow> d\<lparr>db_txs := snd (update_status i ''failed'' None None None None (db_txs d))\<rparr>)"

definition broadcast_status :: "broadcast_outcome \<Rightarrow> string" where
  "broadcast_status o' = (case o' of Accepted \<Rightarrow> ''submitted'' | _ \<Rightarrow> ''failed'')"

lemma status_words:
  "''submitted'' \<in> set valid_statuses" "''failed'' \<in> set valid_statuses"
  "''mined'' \<in> set valid_statuses" "''reverted'' \<in> set valid_statuses"
  by (simp_all add: valid_statuses_def)

lemma on_txs_update_run:
  assumes "st \<in> set valid_statuses"
  shows "on_txs (update_status i st a b r u) s =
    (Inr (), s\<lparr>work := (work s)\<lparr>db_txs := snd (update_status i st a b r u (db_txs (work s)))\<rparr>\<rparr>)"
  using assms by (simp add: on_run update_status_def put_txs_def)

lemma release_total: "\<exists>r. release_if_unused w c n t = (Inr r, snd (release_if_unused w c n t))"
  by (auto simp: release_if_unused_def split: option.splits)

text \<open>The row of an approved report.\<close>

definition broadcast_reason :: "broadcast_outcome \<Rightarrow> string" where
  "broadcast_reason o' = (case o' of Accepted \<Rightarrow> ''broadcast_accepted''
     | RejectedReleaseable \<Rightarrow> ''broadcast_rejected_releaseable''
     | RejectedNonceTooLow \<Rightarrow> ''broadcast_rejected_nonce_too_low'')"

definition broadcast_extra :: "broadcast_body \<Rightarrow> bool \<Rightarrow> (string \<times> json) list" where
  "broadcast_extra b rel = (''tx_hash'', JStr (bb_tx_hash b)) #
     (case bb_outcome b of Accepted \<Rightarrow> []
      | RejectedReleaseable \<Rightarrow> [(''error_class'', json_opt (bb_error_class b)), (''released'', JBool rel)]
      | RejectedNonceTooLow \<Rightarrow> [(''error_class'', json_opt (bb_error_class b)),
          (''hint'', JStr ''chain ahead of fwd; admin nonce-sync required (ship a11+)'')])"

lemma broadcast_step_run:
  "\<exists>d'. broadcast_step ck i b c x s =
     (Inr \<lparr>rr_tx_id = i, rr_status = broadcast_status (bb_outcome b)\<rparr>, s\<lparr>work := d'\<rparr>) \<and>
     audit_grown ''tx-broadcast-result'' ''approved'' (broadcast_db ck i (bb_outcome b) x (work s)) d'"
proof -
  let ?d1 = "broadcast_db ck i (bb_outcome b) x (work s)"
  let ?s1 = "s\<lparr>work := ?d1\<rparr>"
  let ?v = "\<lparr>rr_tx_id = i, rr_status = broadcast_status (bb_outcome b)\<rparr>"
  obtain rel where rel: "release_if_unused (tx_wallet x) (tx_chain x) (tx_nonce x) (db_nonces (work s)) =
      (Inr rel, snd (release_if_unused (tx_wallet x) (tx_chain x) (tx_nonce x) (db_nonces (work s))))"
    using release_total by blast
  have rel_run: "on_nonces (release_if_unused (tx_wallet x) (tx_chain x) (tx_nonce x)) s =
      (Inr rel, put_nonces (snd (release_if_unused (tx_wallet x) (tx_chain x) (tx_nonce x) (db_nonces (work s)))) s)"
    unfolding on_run by (subst rel) simp
  have step: "broadcast_step ck i b c x s =
     thenM (json_audit ck ''tx-broadcast-result'' ''approved'' (Some (c_name c))
          [(''tx_id'', JStr i), (''tx_hash'', JStr (bb_tx_hash b))]
          (Some (broadcast_reason (bb_outcome b))) (Some (broadcast_extra b rel))) (ret ?v) ?s1"
    by (cases "bb_outcome b")
      (simp_all add: broadcast_step_def broadcast_db_def broadcast_status_def broadcast_reason_def
        broadcast_extra_def thenM_def bindM_run rel_run on_txs_update_run status_words put_nonces_def Let_def)
  show ?thesis
    unfolding step
    using audited_step [OF report_words(1) audit_words(3), of ck "Some (c_name c)" _ _ _ ?v ?s1] by simp
qed

text \<open>The checks shared by the two reports, and why they refuse.\<close>

definition report_refusal ::
  "string \<Rightarrow> string \<Rightarrow> string \<Rightarrow> string \<Rightarrow> caller \<Rightarrow> db \<Rightarrow> exn \<Rightarrow> db \<Rightarrow> bool" where
  "report_refusal action i h required c d e d' \<longleftrightarrow>
     (case find_tx i (db_txs d) of
        None \<Rightarrow> e = HTTPException 404 ''transaction_not_found'' \<and> d' = d
      | Some x \<Rightarrow>
          if tx_caller x \<noteq> c_name c then e = HTTPException 404 ''transaction_not_found'' \<and> d' = d
          else if \<not> known_hash i h (db_txs d)
          then e = HTTPException 409 ''tx_hash_mismatch'' \<and> audit_grown action ''denied'' d d'
          else tx_status x \<noteq> required \<and> e = HTTPException 409 ''illegal_transition'' \<and>
            audit_grown action ''denied'' d d')"

lemma report_refusal_refused:
  "report_refusal action i h required c d e d' \<Longrightarrow> audit_refused action d d'"
  by (auto simp: report_refusal_def audit_refused_def split: option.splits if_splits)

lemma report_scope_cases:
  assumes words: "action \<in> set valid_actions"
    and run: "session_scope False
       (bindM (ownership_check i c) (\<lambda>x.
        thenM (hash_check ck i h action (c_name c))
          (thenM (transition_check ck i (tx_status x) required intent action (c_name c))
            (body x)))) d = (res, d')"
  obtains (refused) e where "res = Inl e" "report_refusal action i h required c d e d'"
  | (checked) x where "find_tx i (db_txs d) = Some x" "tx_caller x = c_name c"
      "known_hash i h (db_txs d)" "tx_status x = required"
      "session_scope False (body x) d = (res, d')"
proof (cases "find_tx i (db_txs d)")
  case None
  with run have "res = Inl (HTTPException 404 ''transaction_not_found'')" "d' = d"
    by (auto simp: session_scope_def ownership_check_run)
  with None show thesis by (intro refused) (auto simp: report_refusal_def)
next
  case (Some x)
  show thesis
  proof (cases "tx_caller x = c_name c")
    case False
    with run Some have "res = Inl (HTTPException 404 ''transaction_not_found'')" "d' = d"
      by (auto simp: session_scope_def ownership_check_run)
    with False Some show thesis by (intro refused) (auto simp: report_refusal_def)
  next
    case own: True
    let ?s = "open_session d"
    have go: "session_scope False
       (\<lambda>s. thenM (hash_check ck i h action (c_name c))
          (thenM (transition_check ck i (tx_status x) required intent action (c_name c)) (body x)) s) d = (res, d')"
      using run own Some by (simp add: session_scope_def ownership_check_run)
    show thesis
      using words
    proof (cases rule: hash_check_cases [where i = i and h = h and s = ?s and ck = ck and name = "c_name c"])
      case (unknown u)
      with go have "res = Inl (HTTPException 409 ''tx_hash_mismatch'')" "d' = u"
        by (auto simp: session_scope_def)
      with unknown own Some show thesis by (intro refused) (auto simp: report_refusal_def)
    next
      case known
      show thesis
        using words
      proof (cases rule: transition_check_cases [where current = "tx_status x" and required = required and ck = ck and
          i = i and intent = intent and name = "c_name c" and s = ?s])
        case (illegal u)
        with go known have "res = Inl (HTTPException 409 ''illegal_transition'')" "d' = u"
          by (auto simp: session_scope_def)
        with illegal known own Some show thesis by (intro refused) (auto simp: report_refusal_def)
      next
        case legal
        with go known own Some show thesis
          by (intro checked [of x]) (auto simp: session_scope_def)
      qed
    qed
  qed
qed

lemma broadcast_cases:
  assumes "broadcast_result ck i b c d = (res, d')"
  obtains (refused) e where "res = Inl e"
      "report_refusal ''tx-broadcast-result'' i (bb_tx_hash b) ''pending'' c d e d'"
  | (accepted) x where "find_tx i (db_txs d) = Some x" "tx_caller x = c_name c"
      "known_hash i (bb_tx_hash b) (db_txs d)" "tx_status x = ''pending''"
      "res = Inr \<lparr>rr_tx_id = i, rr_status = broadcast_status (bb_outcome b)\<rparr>"
      "audit_grown ''tx-broadcast-result'' ''approved'' (broadcast_db ck i (bb_outcome b) x d) d'"
  using report_words(1) assms [unfolded broadcast_result_def]
proof (cases rule: report_scope_cases)
  case (refused e)
  then show thesis by (rule that(1))
next
  case (checked x)
  obtain u where "broadcast_step ck i b c x (open_session d) =
     (Inr \<lparr>rr_tx_id = i, rr_status = broadcast_status (bb_outcome b)\<rparr>, (open_session d)\<lparr>work := u\<rparr>)"
    "audit_grown ''tx-broadcast-result'' ''approved'' (broadcast_db ck i (bb_outcome b) x d) u"
    using broadcast_step_run [of ck i b c x "open_session d"] by auto
  with checked show thesis by (intro that(2) [of x]) (auto simp: session_scope_def)
qed

subsection \<open>The receipt\<close>

definition receipt_status :: "receipt_outcome \<Rightarrow> string" where
  "receipt_status o' = (case o' of MinedSuccess \<Rightarrow> ''mined'' | MinedReverted \<Rightarrow> ''reverted'')"

definition receipt_flag :: "receipt_outcome \<Rightarrow> int" where
  "receipt_flag o' = (case o' of MinedSuccess \<Rightarrow> 1 | MinedReverted \<Rightarrow> 0)"

definition receipt_txs :: "clock \<Rightarrow> string \<Rightarrow> receipt_body \<Rightarrow> db \<Rightarrow> tx_db" where
  "receipt_txs ck i b d = snd (update_status i (receipt_status (rb_outcome b)) (Some (ck_now ck))
     (Some (receipt_json b (receipt_flag (rb_outcome b)))) None None (db_txs d))"

text \<open>What the receipt does to the rates: only a mined transaction adds its value.\<close>

definition receipt_rates :: "clock \<Rightarrow> receipt_outcome \<Rightarrow> transaction \<Rightarrow> rate_db \<Rightarrow> rate_db \<Rightarrow> bool" where
  "receipt_rates ck o' x r r' = (case o' of
     MinedSuccess \<Rightarrow> \<exists>v. py_int (tx_value_wei x) = Some v \<and>
       add_committed_value (tx_wallet x) v (ck_now ck) r = (Inr (), r')
   | MinedReverted \<Rightarrow> r' = r)"

definition receipt_db :: "clock \<Rightarrow> string \<Rightarrow> receipt_body \<Rightarrow> transaction \<Rightarrow> rate_db \<Rightarrow> db \<Rightarrow> db" where
  "receipt_db ck i b x r d = d\<lparr>db_txs := receipt_txs ck i b d,
     db_nonces := snd (mark_confirmed (tx_wallet x) (tx_chain x) (tx_nonce x) (db_nonces d)),
     db_rates := r\<rparr>"

lemma mark_confirmed_total: "mark_confirmed w c n t = (Inr (), snd (mark_confirmed w c n t))"
  by (simp add: mark_confirmed_def)

lemma on_nonces_mark_run:
  "on_nonces (mark_confirmed w c n) s =
    (Inr (), s\<lparr>work := (work s)\<lparr>db_nonces := snd (mark_confirmed w c n (db_nonces (work s)))\<rparr>\<rparr>)"
  unfolding on_run by (subst mark_confirmed_total) (simp add: put_nonces_def)

lemma receipt_step_commit_free: "commit_free (receipt_step ck i b c x)"
  unfolding receipt_step_def Let_def
  by (cases "rb_outcome b") (auto intro!: commit_free_rules)

lemma receipt_prefix_run:
  "thenM (on_txs (update_status i (receipt_status (rb_outcome b)) (Some (ck_now ck))
        (Some (receipt_json b (receipt_flag (rb_outcome b)))) None None))
     (thenM (on_nonces (mark_confirmed (tx_wallet x) (tx_chain x) (tx_nonce x))) m) s =
   m (s\<lparr>work := receipt_db ck i b x (db_rates (work s)) (work s)\<rparr>)"
proof -
  have "receipt_status (rb_outcome b) \<in> set valid_statuses"
    by (cases "rb_outcome b") (simp_all add: receipt_status_def status_words)
  from on_txs_update_run [OF this] show ?thesis
    by (simp add: on_nonces_mark_run receipt_db_def receipt_txs_def)
qed

text \<open>The step after the two updates.\<close>

definition receipt_tail ::
  "clock \<Rightarrow> string \<Rightarrow> receipt_body \<Rightarrow> caller \<Rightarrow> string \<Rightarrow> (session, report_response) op" where
  "receipt_tail ck i b c reason =
     thenM (json_audit ck ''tx-receipt'' ''approved'' (Some (c_name c))
         [(''tx_id'', JStr i), (''tx_hash'', JStr (rb_tx_hash b))] (Some reason) None)
       (ret \<lparr>rr_tx_id = i, rr_status = receipt_status (rb_outcome b)\<rparr>)"

lemma receipt_tail_run:
  "\<exists>d'. receipt_tail ck i b c reason s = (Inr \<lparr>rr_tx_id = i, rr_status = receipt_status (rb_outcome b)\<rparr>,
     s\<lparr>work := d'\<rparr>) \<and> audit_grown ''tx-receipt'' ''approved'' (work s) d'"
  unfolding receipt_tail_def by (rule audited_step [OF report_words(2) audit_words(3)])

lemma receipt_tail_not_Inl: "receipt_tail ck i b c reason s \<noteq> (Inl e, s')"
  using receipt_tail_run [of ck i b c reason s] by auto

lemma receipt_step_run:
  "receipt_step ck i b c x s =
     (let t = (\<lambda>r. s\<lparr>work := receipt_db ck i b x r (work s)\<rparr>) in
      case rb_outcome b of
        MinedReverted \<Rightarrow> receipt_tail ck i b c ''receipt_mined_reverted'' (t (db_rates (work s)))
      | MinedSuccess \<Rightarrow>
          (case py_int (tx_value_wei x) of
             None \<Rightarrow> (Inl (ValueError ''invalid literal for int() with base 10''), t (db_rates (work s)))
           | Some v \<Rightarrow>
               (case add_committed_value (tx_wallet x) v (ck_now ck) (db_rates (work s)) of
                  (Inl e, r) \<Rightarrow> (Inl e, t r)
                | (Inr u, r) \<Rightarrow> receipt_tail ck i b c ''receipt_mined_success'' (t r))))"
proof (cases "rb_outcome b")
  case MinedReverted
  then show ?thesis
    using receipt_prefix_run [of i b ck x "receipt_tail ck i b c ''receipt_mined_reverted''" s]
    by (simp add: receipt_step_def receipt_tail_def receipt_status_def receipt_flag_def)
next
  case MinedSuccess
  let ?k = "bindM (ofSum (case py_int (tx_value_wei x) of
      None \<Rightarrow> Inl (ValueError ''invalid literal for int() with base 10'') | Some v \<Rightarrow> Inr v)) (\<lambda>v.
    thenM (on_rates (add_committed_value (tx_wallet x) v (ck_now ck)))
      (receipt_tail ck i b c ''receipt_mined_success''))"
  have "receipt_step ck i b c x s = ?k (s\<lparr>work := receipt_db ck i b x (db_rates (work s)) (work s)\<rparr>)"
    using receipt_prefix_run [of i b ck x ?k s]
    by (simp add: receipt_step_def receipt_tail_def receipt_status_def receipt_flag_def MinedSuccess)
  then show ?thesis
    by (cases "py_int (tx_value_wei x)")
      (auto simp: MinedSuccess bindM_run thenM_def on_run put_rates_def receipt_db_def split: prod.splits sum.splits)
qed

lemma receipt_step_cases:
  assumes "receipt_step ck i b c x s = (Inr v, s')"
  obtains (effect) r d' where "receipt_rates ck (rb_outcome b) x (db_rates (work s)) r"
    "v = \<lparr>rr_tx_id = i, rr_status = receipt_status (rb_outcome b)\<rparr>"
    "audit_grown ''tx-receipt'' ''approved'' (receipt_db ck i b x r (work s)) d'" "s' = s\<lparr>work := d'\<rparr>"
proof -
  have fin: thesis if "receipt_rates ck (rb_outcome b) x (db_rates (work s)) r"
    "receipt_tail ck i b c reason (s\<lparr>work := receipt_db ck i b x r (work s)\<rparr>) = (Inr v, s')" for r reason
    using that receipt_tail_run [of ck i b c reason "s\<lparr>work := receipt_db ck i b x r (work s)\<rparr>"]
    by (auto intro: effect)
  show thesis
  proof (cases "rb_outcome b")
    case MinedReverted
    with assms show thesis by (intro fin) (simp_all add: receipt_step_run receipt_rates_def Let_def)
  next
    case MinedSuccess
    with assms obtain w r where "py_int (tx_value_wei x) = Some w"
      "add_committed_value (tx_wallet x) w (ck_now ck) (db_rates (work s)) = (Inr (), r)"
      "receipt_tail ck i b c ''receipt_mined_success'' (s\<lparr>work := receipt_db ck i b x r (work s)\<rparr>) = (Inr v, s')"
      by (auto simp: receipt_step_run Let_def split: option.splits prod.splits sum.splits)
    with MinedSuccess show thesis by (intro fin) (auto simp: receipt_rates_def)
  qed
qed

lemma receipt_step_Inl:
  assumes "receipt_step ck i b c x s = (Inl e, s')"
  shows "py_int (tx_value_wei x) = None \<or> (\<exists>v e r. py_int (tx_value_wei x) = Some v \<and>
    add_committed_value (tx_wallet x) v (ck_now ck) (db_rates (work s)) = (Inl e, r))"
  using assms
  by (cases "rb_outcome b")
    (auto simp: receipt_step_run Let_def receipt_tail_not_Inl split: option.splits prod.splits sum.splits)

lemma receipt_cases:
  assumes "receipt ck i b c d = (res, d')"
  obtains (refused) e where "res = Inl e"
      "report_refusal ''tx-receipt'' i (rb_tx_hash b) ''submitted'' c d e d'"
  | (failed) e where "res = Inl e" "d' = d"
      "\<exists>x. find_tx i (db_txs d) = Some x \<and> tx_caller x = c_name c \<and> tx_status x = ''submitted'' \<and>
         (py_int (tx_value_wei x) = None \<or>
          (\<exists>v e r. py_int (tx_value_wei x) = Some v \<and>
             add_committed_value (tx_wallet x) v (ck_now ck) (db_rates d) = (Inl e, r)))"
  | (accepted) x r where "find_tx i (db_txs d) = Some x" "tx_caller x = c_name c"
      "known_hash i (rb_tx_hash b) (db_txs d)" "tx_status x = ''submitted''"
      "receipt_rates ck (rb_outcome b) x (db_rates d) r"
      "res = Inr \<lparr>rr_tx_id = i, rr_status = receipt_status (rb_outcome b)\<rparr>"
      "audit_grown ''tx-receipt'' ''approved'' (receipt_db ck i b x r d) d'"
  using report_words(2) assms [unfolded receipt_def]
proof (cases rule: report_scope_cases)
  case (refused e)
  then show thesis by (rule that(1))
next
  case (checked x)
  show thesis
  proof (cases res)
    case (Inl e)
    with checked(5) obtain s where "receipt_step ck i b c x (open_session d) = (Inl e, s)"
      by (cases rule: session_scope_cases) simp_all
    with checked have "\<exists>x. find_tx i (db_txs d) = Some x \<and> tx_caller x = c_name c \<and> tx_status x = ''submitted'' \<and>
         (py_int (tx_value_wei x) = None \<or>
          (\<exists>v e r. py_int (tx_value_wei x) = Some v \<and>
             add_committed_value (tx_wallet x) v (ck_now ck) (db_rates d) = (Inl e, r)))"
      by (auto dest!: receipt_step_Inl)
    moreover from Inl checked have "d' = d" by (metis commit_free_rollback receipt_step_commit_free)
    ultimately show thesis using Inl by (intro that(2)) simp_all
  next
    case (Inr v)
    with checked(5) obtain s where run: "receipt_step ck i b c x (open_session d) = (Inr v, s)" "d' = work s"
      by (cases rule: session_scope_cases) simp_all
    from run(1) show thesis
    proof (cases rule: receipt_step_cases)
      case (effect r u)
      with run(2) checked Inr show thesis by (intro that(3) [of x r]) simp_all
    qed
  qed
qed

subsection \<open>The replacement\<close>

lemmas replacement_words = report_words(3)

lemma signer_sign_state: "\<exists>r. signer_sign_transaction lib name td s = (r, s)"
  by (auto simp: signer_sign_transaction_def bindM_run signer_wallet_run split: option.splits sum.splits)

text \<open>The signer's answer; it reads the wallets only.\<close>

definition sign_answer :: "signer_lib \<Rightarrow> string \<Rightarrow> tx_dict \<Rightarrow> db \<Rightarrow> exn + signed_tx" where
  "sign_answer lib name td d = fst (signer_sign_transaction lib name td (open_session d))"

lemma guarding_catch_sign [guarding_rules]:
  assumes "\<And>e. guarding action (h e)"
  shows "guarding action (catchM (signer_sign_transaction lib name td) h)"
proof -
  have "catchM (signer_sign_transaction lib name td) h (open_session d) =
     (case sign_answer lib name td d of Inl e \<Rightarrow> h e (open_session d) | Inr v \<Rightarrow> (Inr v, open_session d))" for d
    using signer_sign_state [of lib name td "open_session d"]
    by (auto simp: catchM_def sign_answer_def)
  with assms show ?thesis
    unfolding guarding_def refusing_def by (auto split: sum.splits prod.splits)
qed

lemma ownership_check_guarding [guarding_rules]: "guarding action (ownership_check i c)"
  unfolding ownership_check_def
  by (auto intro!: guarding_rules simp: get_by_id_def bindM_run split: option.split)

lemma transition_check_guarding [guarding_rules]:
  "action \<in> set valid_actions \<Longrightarrow> guarding action (transition_check ck i current required intent action name)"
  by (simp add: transition_check_def guarding_rules)

lemma fee_checks_guarding [guarding_rules]: "guarding ''tx-replacement'' (fee_checks st ck i b c)"
  unfolding fee_checks_def replacement_refuse_def
  by (auto intro!: guarding_rules replacement_words simp: latest_attempt_def split: option.split)

lemma attempt_number_guarding [guarding_rules]: "guarding ''tx-replacement'' (attempt_number ck i c)"
  unfolding attempt_number_def replacement_refuse_def
  by (auto intro!: guarding_rules replacement_words simp: list_attempts_def)

lemma resign_guarding [guarding_rules]: "guarding ''tx-replacement'' (resign lib ck i b c x)"
  unfolding resign_def replacement_refuse_def
  by (auto intro!: guarding_rules replacement_words split: option.split)

lemma replacement_persist_commit_free: "commit_free (replacement_persist ck i b c x seq stx)"
  by (auto simp: replacement_persist_def Let_def intro!: commit_free_rules)

lemma replacement_refusing: "refusing ''tx-replacement'' (replacement_body_op st lib ck i b c)"
  unfolding replacement_body_op_def
  by (intro refusing_bind refusing_then guarding_rules replacement_words refusing_commit_free
      replacement_persist_commit_free)

text \<open>The attempts recorded for a transaction, in order of their numbers.\<close>

definition attempts_of :: "string \<Rightarrow> tx_db \<Rightarrow> transaction_attempt list" where
  "attempts_of i t = filter (\<lambda>a. ta_tx_id a = i) (transaction_attempts t)"

definition newest_attempt :: "string \<Rightarrow> tx_db \<Rightarrow> transaction_attempt option" where
  "newest_attempt i t = (case sort_key (\<lambda>a. - ta_sequence_num a) (attempts_of i t) of [] \<Rightarrow> None | a # _ \<Rightarrow> Some a)"

lemma ownership_check_Inr:
  "ownership_check i c s = (Inr x, t) \<Longrightarrow> find_tx i (db_txs (work s)) = Some x \<and> tx_caller x = c_name c"
  by (auto simp: ownership_check_run split: option.splits if_splits)

lemma transition_check_Inr:
  "transition_check ck i current required intent action name s = (Inr u, t) \<Longrightarrow> current = required"
  by (auto simp: transition_check_def json_refuse_not_Inr split: if_splits)

lemma fee_checks_Inr:
  assumes "fee_checks st ck i b c s = (Inr u, t)"
  shows "bump_refusal i b (newest_attempt i (db_txs (work s))) = None \<and> replacement_cap_reason st b = None"
proof -
  have "on_txs (latest_attempt i) s = (Inr (newest_attempt i (db_txs (work s))), s)"
    by (simp add: on_run latest_attempt_def newest_attempt_def attempts_of_def)
  with assms show ?thesis
    by (auto simp: fee_checks_def replacement_refuse_def json_refuse_not_Inr split: option.splits)
qed

lemma attempt_number_Inr:
  assumes "attempt_number ck i c s = (Inr seq, t)"
  shows "length (attempts_of i (db_txs (work s))) < 5 \<and> seq = int (length (attempts_of i (db_txs (work s)))) + 1"
proof -
  have "on_txs (list_attempts i) s = (Inr (sort_key ta_sequence_num (attempts_of i (db_txs (work s)))), s)"
    by (simp add: on_run list_attempts_def attempts_of_def)
  with assms show ?thesis
    by (auto simp: attempt_number_def replacement_refuse_def json_refuse_not_Inr split: if_splits)
qed

lemma resign_Inr:
  assumes "resign lib ck i b c x (open_session d) = (Inr stx, t)"
  obtains data to_addr v where "recorded_data (tx_request_json x) = Some data"
    "sl_checksum lib (tx_contract_address x) = Inr to_addr" "py_int (tx_value_wei x) = Some v"
    "sign_answer lib (tx_wallet x) (replacement_dict x b to_addr v data) d = Inr stx"
proof -
  from assms obtain data where data: "recorded_data (tx_request_json x) = Some data"
    by (cases "recorded_data (tx_request_json x)")
      (auto simp: resign_def replacement_refuse_def json_refuse_not_Inr)
  with assms obtain to_addr where to_addr: "sl_checksum lib (tx_contract_address x) = Inr to_addr"
    by (cases "sl_checksum lib (tx_contract_address x)") (auto simp: resign_def bindM_run)
  with assms data obtain v where v: "py_int (tx_value_wei x) = Some v"
    by (cases "py_int (tx_value_wei x)") (auto simp: resign_def bindM_run)
  obtain r where "signer_sign_transaction lib (tx_wallet x) (replacement_dict x b to_addr v data) (open_session d) =
      (r, open_session d)"
    using signer_sign_state by blast
  with assms data to_addr v have "sign_answer lib (tx_wallet x) (replacement_dict x b to_addr v data) d = Inr stx"
    by (cases r) (auto simp: resign_def bindM_run catchM_def sign_answer_def replacement_refuse_def
        json_refuse_not_Inr)
  with data to_addr v that show thesis by blast
qed

text \<open>The tables after an accepted replacement, its audit row aside.\<close>

definition replaced_db :: "clock \<Rightarrow> string \<Rightarrow> replacement_body \<Rightarrow> int \<Rightarrow> signed_tx \<Rightarrow> db \<Rightarrow> db" where
  "replaced_db ck i b seq stx d =
     (let raw = ''0x'' @ bytes_hex (st_raw_transaction stx); h = ''0x'' @ bytes_hex (st_hash stx) in
      d\<lparr>db_txs := (db_txs d)\<lparr>
        transaction_attempts := transaction_attempts (db_txs d) @ [replacement_attempt ck i b seq raw h],
        transaction_hashes := transaction_hashes (db_txs d) @ [\<lparr>th_tx_id = i, th_sequence_num = seq,
           th_hash_hex = h, th_submitted_at = ck_hash ck\<rparr>]\<rparr>\<rparr>)"

definition replacement_result :: "string \<Rightarrow> transaction \<Rightarrow> int \<Rightarrow> signed_tx \<Rightarrow> replacement_response" where
  "replacement_result i x seq stx = \<lparr>pr_tx_id = i, pr_signed_raw_tx = ''0x'' @ bytes_hex (st_raw_transaction stx),
     pr_hash = ''0x'' @ bytes_hex (st_hash stx), pr_nonce = tx_nonce x, pr_attempt = seq\<rparr>"

lemma replacement_persist_Inr:
  assumes "replacement_persist ck i b c x seq stx s = (Inr v, s')"
  shows "v = replacement_result i x seq stx \<and>
    audit_grown ''tx-replacement'' ''approved'' (replaced_db ck i b seq stx (work s)) (work s')"
proof -
  define raw h where rh: "raw = ''0x'' @ bytes_hex (st_raw_transaction stx)" "h = ''0x'' @ bytes_hex (st_hash stx)"
  note run = assms [unfolded replacement_persist_def Let_def rh [symmetric]]
  from run obtain a1 s1 where 1: "on_txs (add_attempt (replacement_attempt ck i b seq raw h)) s = (Inr a1, s1)"
    and rest: "thenM (on_txs (add_hash (ck_hash ck) i h seq))
          (thenM (json_audit ck ''tx-replacement'' ''approved'' (Some (c_name c)) [(''tx_id'', JStr i)] None
              (Some [(''prev_seq'', JInt (seq - 1)), (''new_seq'', JInt seq), (''new_hash'', JStr h),
                     (''nonce'', JInt (tx_nonce x))]))
            (ret \<lparr>pr_tx_id = i, pr_signed_raw_tx = raw, pr_hash = h, pr_nonce = tx_nonce x,
                  pr_attempt = seq\<rparr>)) s1 = (Inr v, s')"
    by (rule thenM_InrE)
  from rest obtain a2 s2 where 2: "on_txs (add_hash (ck_hash ck) i h seq) s1 = (Inr a2, s2)"
    and last: "thenM (json_audit ck ''tx-replacement'' ''approved'' (Some (c_name c)) [(''tx_id'', JStr i)] None
              (Some [(''prev_seq'', JInt (seq - 1)), (''new_seq'', JInt seq), (''new_hash'', JStr h),
                     (''nonce'', JInt (tx_nonce x))]))
            (ret \<lparr>pr_tx_id = i, pr_signed_raw_tx = raw, pr_hash = h, pr_nonce = tx_nonce x,
                  pr_attempt = seq\<rparr>) s2 = (Inr v, s')"
    by (rule thenM_InrE)
  have w: "work s2 = replaced_db ck i b seq stx (work s)"
    using 1 2 unfolding replaced_db_def Let_def rh [symmetric]
    by (auto simp: on_run put_txs_def split: prod.splits
        dest!: add_attempt_Inr add_hash_Inr)
  have "v = \<lparr>pr_tx_id = i, pr_signed_raw_tx = raw, pr_hash = h, pr_nonce = tx_nonce x, pr_attempt = seq\<rparr> \<and>
      audit_grown ''tx-replacement'' ''approved'' (work s2) (work s')"
    using last by (rule audited_step_Inr [OF report_words(3) audit_words(3)])
  with w show ?thesis by (simp add: replacement_result_def rh)
qed

text \<open>What an accepted replacement found and did.\<close>

definition replacement_effect ::
  "settings \<Rightarrow> signer_lib \<Rightarrow> clock \<Rightarrow> string \<Rightarrow> replacement_body \<Rightarrow> caller \<Rightarrow> db \<Rightarrow> replacement_response \<Rightarrow> db \<Rightarrow> bool"
  where
  "replacement_effect st lib ck i b c d v d' \<longleftrightarrow>
     (\<exists>x stx data to_addr n. find_tx i (db_txs d) = Some x \<and> tx_caller x = c_name c \<and>
        tx_status x = ''submitted'' \<and> bump_refusal i b (newest_attempt i (db_txs d)) = None \<and>
        replacement_cap_reason st b = None \<and> length (attempts_of i (db_txs d)) < 5 \<and>
        recorded_data (tx_request_json x) = Some data \<and>
        sl_checksum lib (tx_contract_address x) = Inr to_addr \<and> py_int (tx_value_wei x) = Some n \<and>
        sign_answer lib (tx_wallet x) (replacement_dict x b to_addr n data) d = Inr stx \<and>
        v = replacement_result i x (int (length (attempts_of i (db_txs d))) + 1) stx \<and>
        audit_grown ''tx-replacement'' ''approved''
          (replaced_db ck i b (int (length (attempts_of i (db_txs d))) + 1) stx d) d')"

lemma replacement_cases:
  assumes "sign_replacement st lib vault ck i b c d = (res, d')"
  obtains (refused) e where "res = Inl e" "audit_refused ''tx-replacement'' d d'"
  | (accepted) v where "res = Inr v" "replacement_effect st lib ck i b c d v d'"
proof (cases "vault \<and> (\<exists>v. res = Inr v)")
  case False
  then obtain e where e: "res = Inl e \<and> audit_refused ''tx-replacement'' d d'"
  proof (cases vault)
    case True
    with False obtain e where "res = Inl e" by (cases res) auto
    with assms True guarding_session [OF replacement_refusing] show thesis
      by (intro that) (auto simp: sign_replacement_def sealed_scope_def)
  qed (use assms in \<open>auto simp: sign_replacement_def sealed_scope_def audit_refused_def\<close>)
  then show thesis by (intro refused) simp_all
next
  case True
  then obtain v where v: "res = Inr v" by blast
  let ?t = "''tx-replacement''"
  from assms True v obtain s where r0: "replacement_body_op st lib ck i b c (open_session d) = (Inr v, s)"
    and d': "d' = work s"
    by (auto simp: sign_replacement_def sealed_scope_def elim: session_scope_cases)
  from r0 [unfolded replacement_body_op_def] obtain x s1 where x: "ownership_check i c (open_session d) = (Inr x, s1)"
    and r1: "thenM (transition_check ck i (tx_status x) ''submitted'' ''replacement'' ?t (c_name c))
       (thenM (fee_checks st ck i b c)
         (bindM (attempt_number ck i c) (\<lambda>seq.
          bindM (resign lib ck i b c x) (\<lambda>stx.
          replacement_persist ck i b c x seq stx)))) s1 = (Inr v, s)"
    by (rule bindM_InrE)
  have s1: "s1 = open_session d" using ownership_check_guarding x by (rule guardingD)
  from r1 [unfolded s1] obtain u s2 where st: "transition_check ck i (tx_status x) ''submitted'' ''replacement'' ?t
      (c_name c) (open_session d) = (Inr u, s2)"
    and r2: "thenM (fee_checks st ck i b c) (bindM (attempt_number ck i c) (\<lambda>seq.
          bindM (resign lib ck i b c x) (\<lambda>stx. replacement_persist ck i b c x seq stx))) s2 = (Inr v, s)"
    by (rule thenM_InrE)
  have s2: "s2 = open_session d"
    using transition_check_guarding [OF report_words(3)] st by (rule guardingD)
  from r2 [unfolded s2] obtain u' s3 where fee: "fee_checks st ck i b c (open_session d) = (Inr u', s3)"
    and r3: "bindM (attempt_number ck i c) (\<lambda>seq. bindM (resign lib ck i b c x) (\<lambda>stx.
          replacement_persist ck i b c x seq stx)) s3 = (Inr v, s)"
    by (rule thenM_InrE)
  have s3: "s3 = open_session d" using fee_checks_guarding fee by (rule guardingD)
  from r3 [unfolded s3] obtain seq s4 where num: "attempt_number ck i c (open_session d) = (Inr seq, s4)"
    and r4: "bindM (resign lib ck i b c x) (\<lambda>stx. replacement_persist ck i b c x seq stx) s4 = (Inr v, s)"
    by (rule bindM_InrE)
  have s4: "s4 = open_session d" using attempt_number_guarding num by (rule guardingD)
  from r4 [unfolded s4] obtain stx s5 where sign: "resign lib ck i b c x (open_session d) = (Inr stx, s5)"
    and r5: "replacement_persist ck i b c x seq stx s5 = (Inr v, s)"
    by (rule bindM_InrE)
  have s5: "s5 = open_session d" using resign_guarding sign by (rule guardingD)
  from sign obtain data to_addr n where "recorded_data (tx_request_json x) = Some data"
    "sl_checksum lib (tx_contract_address x) = Inr to_addr" "py_int (tx_value_wei x) = Some n"
    "sign_answer lib (tx_wallet x) (replacement_dict x b to_addr n data) d = Inr stx"
    by (rule resign_Inr)
  with ownership_check_Inr [OF x] transition_check_Inr [OF st] fee_checks_Inr [OF fee] attempt_number_Inr [OF num]
    replacement_persist_Inr [OF r5] s5 d'
  have "replacement_effect st lib ck i b c d v d'"
    unfolding replacement_effect_def
    by (intro exI [of _ x] exI [of _ stx] exI [of _ data] exI [of _ to_addr] exI [of _ n]) simp
  with v show thesis by (rule accepted)
qed

end
