(* ===== verification/Report_Properties.thy ===== *)
theory Report_Properties
  imports Report_Correct
begin

section \<open>Properties of reports and replacements\<close>

text \<open>
  The life cycle of a transaction's status, the exact effect of the two reports on every branch, the
  isolation of callers, and what a replacement may change: its fees only, within the bump rule, the
  caps and the five attempts.
\<close>

subsection \<open>Frames\<close>

text \<open>Everything that fixes a transaction's intent; the status and the report times may change.\<close>

definition tx_same :: "transaction \<Rightarrow> transaction \<Rightarrow> bool" where
  "tx_same x y \<longleftrightarrow> y = x\<lparr>tx_status := tx_status y, tx_submitted_at := tx_submitted_at y,
     tx_confirmed_at := tx_confirmed_at y, tx_receipt_json := tx_receipt_json y\<rparr>"

lemma tx_same_refl [simp]: "tx_same x x"
  by (simp add: tx_same_def)

lemma tx_same_trans: "tx_same x y \<Longrightarrow> tx_same y z \<Longrightarrow> tx_same x z"
  unfolding tx_same_def by (cases x; cases y; cases z) simp

lemma tx_same_status: "tx_same x (status_values st a b None u x)"
  by (cases x) (simp add: tx_same_def status_values_def set_if_def)

lemma tx_sameD:
  assumes "tx_same x y"
  shows "tx_id y = tx_id x" "tx_wallet y = tx_wallet x" "tx_chain y = tx_chain x" "tx_caller y = tx_caller x"
    "tx_nonce y = tx_nonce x" "tx_contract_address y = tx_contract_address x" "tx_value_wei y = tx_value_wei x"
    "tx_idempotency_key y = tx_idempotency_key x" "tx_request_json y = tx_request_json x"
    "tx_signed_raw y = tx_signed_raw x"
  by (subst assms [unfolded tx_same_def], simp)+

text \<open>The two updates and the replacement, looked up.\<close>

lemma snd_update_status:
  "st \<in> set valid_statuses \<Longrightarrow> snd (update_status i st a b r u t) = t\<lparr>transactions := map (\<lambda>x.
     if tx_id x = i then status_values st a b r u x else x) (transactions t)\<rparr>"
  by (simp add: update_status_run)

lemma broadcast_find:
  "find_tx j (db_txs (broadcast_db ck i o' x d)) =
     (if j = i then map_option (status_values (broadcast_status o') None None None
         (if o' = Accepted then Some (ck_now ck) else None)) (find_tx i (db_txs d))
      else find_tx j (db_txs d))"
  by (cases o') (simp_all add: broadcast_db_def broadcast_status_def snd_update_status status_words find_tx_update)

lemma receipt_status_valid: "receipt_status o' \<in> set valid_statuses"
  by (cases o') (simp_all add: receipt_status_def status_words)

lemma receipt_find:
  "find_tx j (db_txs (receipt_db ck i b x r d)) =
     (if j = i then map_option (status_values (receipt_status (rb_outcome b)) (Some (ck_now ck))
         (Some (receipt_json b (receipt_flag (rb_outcome b)))) None None) (find_tx i (db_txs d))
      else find_tx j (db_txs d))"
  by (simp add: receipt_db_def receipt_txs_def snd_update_status [OF receipt_status_valid] find_tx_update)

lemma replaced_find [simp]: "find_tx j (db_txs (replaced_db ck i b seq stx d)) = find_tx j (db_txs d)"
  by (simp add: replaced_db_def Let_def find_tx_def)

lemma guarded_cases:
  assumes "guarded verifies a valid handler d = (res, d')"
  obtains (stopped) e where "res = Inl e" "d' = d"
  | (called) c where "c \<in> set (db_callers d)" "c_revoked_at c = None" "valid" "handler c d = (res, d')"
proof -
  obtain r d0 where au: "authenticate verifies a d = (r, d0)" by fastforce
  from au show thesis
  proof (cases rule: authenticate_cases)
    case (refused e)
    with au assms show thesis by (intro stopped) (auto simp: guarded_def)
  next
    case (known c)
    with au assms show thesis
      by (cases valid) (auto simp: guarded_def intro: stopped called)
  qed
qed

subsection \<open>Evolution of one row\<close>

text \<open>What one request may do to the row \<open>j\<close>, when it reports on \<open>i\<close>.\<close>

definition row_moves :: "string \<Rightarrow> string \<Rightarrow> string list \<Rightarrow> string \<Rightarrow> transaction \<Rightarrow> db \<Rightarrow> bool" where
  "row_moves i source targets j x d' \<longleftrightarrow>
     (\<exists>y. find_tx j (db_txs d') = Some y \<and> tx_same x y \<and>
        (y = x \<or> (j = i \<and> tx_status x = source \<and> tx_status y \<in> set targets)))"

lemma row_moves_same: "db_txs d' = db_txs d \<Longrightarrow> find_tx j (db_txs d) = Some x \<Longrightarrow> row_moves i s t j x d'"
  by (auto simp: row_moves_def)

lemma broadcast_row:
  assumes "broadcast_result ck i b c d = (res, d')" "find_tx j (db_txs d) = Some x"
  shows "row_moves i ''pending'' [''submitted'', ''failed''] j x d'"
  using assms(1)
proof (cases rule: broadcast_cases)
  case (refused e)
  with assms(2) show ?thesis by (intro row_moves_same) (auto dest: report_refusal_refused audit_refusedD)
next
  case (accepted y)
  from audit_grownD(3) [OF accepted(6)]
  have "find_tx j (db_txs d') = find_tx j (db_txs (broadcast_db ck i (bb_outcome b) y d))" by simp
  then show ?thesis
    using assms(2) accepted(1,4)
    by (auto simp: row_moves_def broadcast_find tx_same_status broadcast_status_def split: broadcast_outcome.split)
qed

lemma receipt_row:
  assumes "receipt ck i b c d = (res, d')" "find_tx j (db_txs d) = Some x"
  shows "row_moves i ''submitted'' [''mined'', ''reverted''] j x d'"
  using assms(1)
proof (cases rule: receipt_cases)
  case (refused e)
  with assms(2) show ?thesis by (intro row_moves_same) (auto dest: report_refusal_refused audit_refusedD)
next
  case (failed e)
  with assms(2) show ?thesis by (intro row_moves_same) simp_all
next
  case (accepted y r)
  from audit_grownD(3) [OF accepted(7)]
  have "find_tx j (db_txs d') = find_tx j (db_txs (receipt_db ck i b y r d))" by simp
  then show ?thesis
    using assms(2) accepted(1,4)
    by (auto simp: row_moves_def receipt_find tx_same_status receipt_status_def split: receipt_outcome.split)
qed

lemma replacement_rows:
  assumes "sign_replacement st lib vault ck i b c d = (res, d')"
  shows "transactions (db_txs d') = transactions (db_txs d)"
  using assms
proof (cases rule: replacement_cases)
  case (refused e)
  then show ?thesis by (auto dest: audit_refusedD)
next
  case (accepted v)
  then obtain seq stx where g: "audit_grown ''tx-replacement'' ''approved'' (replaced_db ck i b seq stx d) d'"
    by (auto simp: replacement_effect_def)
  from audit_grownD(3) [OF g] show ?thesis by (simp add: replaced_db_def Let_def)
qed

subsection \<open>A sample database\<close>

text \<open>One submitted transaction of the caller \<open>clif\<close>, with one hash and one attempt.\<close>

definition sample_hash :: string where
  "sample_hash = ''0x'' @ replicate 64 CHR ''c''"

definition sample_tx :: "string \<Rightarrow> transaction" where
  "sample_tx status = \<lparr>tx_id = ''t1'', tx_wallet = ''hot'', tx_chain = 14, tx_caller = ''clif'', tx_nonce = 4,
     tx_contract_address = sample_addr, tx_method_name = ''0x'', tx_value_wei = ''7'',
     tx_idempotency_key = None, tx_request_json = request_body (body_request sample_body ''clif'' None),
     tx_signed_raw = Some ''0x02'', tx_status = status, tx_submitted_at = None, tx_confirmed_at = None,
     tx_receipt_json = None, tx_created_at = 1, tx_reserved_at = Some 1\<rparr>"

definition sample_tx_db :: "string \<Rightarrow> db" where
  "sample_tx_db status = sample_db\<lparr>db_txs := \<lparr>transactions = [sample_tx status],
     transaction_hashes = [\<lparr>th_tx_id = ''t1'', th_sequence_num = 1, th_hash_hex = sample_hash, th_submitted_at = 1\<rparr>],
     transaction_attempts = [\<lparr>ta_tx_id = ''t1'', ta_sequence_num = 1, ta_gas = 21000, ta_max_fee_per_gas = 80,
        ta_max_priority_fee_per_gas = 8, ta_signed_raw = ''0x02'', ta_hash = sample_hash, ta_created_at = 1\<rparr>]\<rparr>\<rparr>"

lemma sample_tx_find [simp]:
  "find_tx j (db_txs (sample_tx_db status)) = (if j = ''t1'' then Some (sample_tx status) else None)"
  by (simp add: sample_tx_db_def find_tx_def sample_tx_def)

lemma sample_tx_fields [simp]:
  "tx_id (sample_tx s) = ''t1''" "tx_caller (sample_tx s) = ''clif''" "tx_status (sample_tx s) = s"
  "tx_wallet (sample_tx s) = ''hot''" "tx_chain (sample_tx s) = 14" "tx_nonce (sample_tx s) = 4"
  "tx_value_wei (sample_tx s) = ''7''" "tx_contract_address (sample_tx s) = sample_addr"
  "tx_request_json (sample_tx s) = request_body (body_request sample_body ''clif'' None)"
  by (simp_all add: sample_tx_def)

lemma sample_known_hash: "known_hash ''t1'' sample_hash (db_txs (sample_tx_db status))"
  by (simp add: known_hash_def sample_tx_db_def)

lemma sample_caller_name [simp]: "c_name sample_sign_caller = ''clif''"
  by (simp add: sample_sign_caller_def sample_caller_def)

subsection \<open>Properties\<close>



text \<open>A broadcast report on every branch: a missing or foreign transaction is answered 404 and nothing
  is written; an unknown hash and a wrong status are answered 409 with one denied audit row; otherwise
  the transaction becomes submitted or failed, a releaseable rejection steps the wallet's next nonce
  back exactly when the transaction held the newest one, no other nonce, rate, wallet or caller changes
  and one approved audit row is added.\<close>

theorem broadcast_result_spec:
  "case broadcast_result ck i b c d of
     (Inl e, d') \<Rightarrow> report_refusal ''tx-broadcast-result'' i (bb_tx_hash b) ''pending'' c d e d'
   | (Inr v, d') \<Rightarrow> \<exists>x. find_tx i (db_txs d) = Some x \<and> tx_caller x = c_name c \<and> tx_status x = ''pending'' \<and>
       known_hash i (bb_tx_hash b) (db_txs d) \<and>
       v = \<lparr>rr_tx_id = i, rr_status = broadcast_status (bb_outcome b)\<rparr> \<and>
       find_tx i (db_txs d') = Some (x\<lparr>tx_status := broadcast_status (bb_outcome b),
         tx_submitted_at := (if bb_outcome b = Accepted then Some (ck_now ck) else tx_submitted_at x)\<rparr>) \<and>
       transaction_hashes (db_txs d') = transaction_hashes (db_txs d) \<and>
       transaction_attempts (db_txs d') = transaction_attempts (db_txs d) \<and>
       map_of (db_nonces d') = (\<lambda>k. if bb_outcome b = RejectedReleaseable \<and> k = (tx_wallet x, tx_chain x)
         then map_option (\<lambda>r. if next_nonce r = tx_nonce x + 1 then r\<lparr>next_nonce := tx_nonce x\<rparr> else r)
           (map_of (db_nonces d) k)
         else map_of (db_nonces d) k) \<and>
       db_rates d' = db_rates d \<and> db_wallets d' = db_wallets d \<and> db_callers d' = db_callers d \<and>
       (\<exists>row. audit_log (db_audit d') = audit_log (db_audit d) @ [row] \<and>
          ar_action row = ''tx-broadcast-result'' \<and> ar_decision row = ''approved'')"
proof -
  obtain res d' where run: "broadcast_result ck i b c d = (res, d')" by fastforce
  from run show ?thesis
  proof (cases rule: broadcast_cases)
    case (refused e)
    with run show ?thesis by simp
  next
    case (accepted x)
    let ?d1 = "broadcast_db ck i (bb_outcome b) x d"
    note g = audit_grownD [OF accepted(6)]
    have tx: "find_tx i (db_txs d') = Some (x\<lparr>tx_status := broadcast_status (bb_outcome b),
         tx_submitted_at := (if bb_outcome b = Accepted then Some (ck_now ck) else tx_submitted_at x)\<rparr>)"
      using accepted(1) by (simp add: g(3) broadcast_find status_values_def set_if_def)
    have rows: "transaction_hashes (db_txs ?d1) = transaction_hashes (db_txs d)"
      "transaction_attempts (db_txs ?d1) = transaction_attempts (db_txs d)"
      "db_rates ?d1 = db_rates d" "db_wallets ?d1 = db_wallets d" "db_callers ?d1 = db_callers d"
      "db_audit ?d1 = db_audit d"
      by (cases "bb_outcome b"; simp add: broadcast_db_def snd_update_status status_words)+
    have nonces: "map_of (db_nonces ?d1) k = (if bb_outcome b = RejectedReleaseable \<and> k = (tx_wallet x, tx_chain x)
         then map_option (\<lambda>r. if next_nonce r = tx_nonce x + 1 then r\<lparr>next_nonce := tx_nonce x\<rparr> else r)
           (map_of (db_nonces d) k)
         else map_of (db_nonces d) k)" for k
      by (cases "bb_outcome b")
        (auto simp: broadcast_db_def release_if_unused_def table_simps split: option.splits)
    have "db_rates d' = db_rates d" "db_wallets d' = db_wallets d" "db_callers d' = db_callers d"
      "\<exists>row. audit_log (db_audit d') = audit_log (db_audit d) @ [row] \<and>
          ar_action row = ''tx-broadcast-result'' \<and> ar_decision row = ''approved''"
      using g rows by simp_all
    with run accepted(1-5) tx show ?thesis
      by (simp add: g(3,4) nonces rows(1,2) fun_eq_iff)
  qed
qed

text \<open>A receipt on every branch: refusals as for a broadcast report; a value that is no number or an
  aggregate that cannot be read fails the request and keeps nothing; otherwise the transaction becomes
  mined or reverted with its confirmation time and receipt, the confirmed nonce is raised to at least
  the transaction's, and the wallet's day aggregate is increased by the transaction's value when it was
  mined successfully and only then.\<close>

theorem receipt_spec:
  "case receipt ck i b c d of
     (Inl e, d') \<Rightarrow> report_refusal ''tx-receipt'' i (rb_tx_hash b) ''submitted'' c d e d' \<or>
       (d' = d \<and> (\<exists>x. find_tx i (db_txs d) = Some x \<and> tx_caller x = c_name c \<and> tx_status x = ''submitted'' \<and>
         (py_int (tx_value_wei x) = None \<or>
          (\<exists>v e r. py_int (tx_value_wei x) = Some v \<and>
             add_committed_value (tx_wallet x) v (ck_now ck) (db_rates d) = (Inl e, r)))))
   | (Inr v, d') \<Rightarrow> \<exists>x. find_tx i (db_txs d) = Some x \<and> tx_caller x = c_name c \<and> tx_status x = ''submitted'' \<and>
       known_hash i (rb_tx_hash b) (db_txs d) \<and>
       v = \<lparr>rr_tx_id = i, rr_status = receipt_status (rb_outcome b)\<rparr> \<and>
       find_tx i (db_txs d') = Some (x\<lparr>tx_status := receipt_status (rb_outcome b),
         tx_confirmed_at := Some (ck_now ck),
         tx_receipt_json := Some (receipt_json b (receipt_flag (rb_outcome b)))\<rparr>) \<and>
       db_nonces d' = snd (mark_confirmed (tx_wallet x) (tx_chain x) (tx_nonce x) (db_nonces d)) \<and>
       (case rb_outcome b of
          MinedSuccess \<Rightarrow> \<exists>n. py_int (tx_value_wei x) = Some n \<and>
            add_committed_value (tx_wallet x) n (ck_now ck) (db_rates d) = (Inr (), db_rates d')
        | MinedReverted \<Rightarrow> db_rates d' = db_rates d) \<and>
       db_wallets d' = db_wallets d \<and> db_callers d' = db_callers d \<and>
       (\<exists>row. audit_log (db_audit d') = audit_log (db_audit d) @ [row] \<and>
          ar_action row = ''tx-receipt'' \<and> ar_decision row = ''approved'')"
proof -
  obtain res d' where run: "receipt ck i b c d = (res, d')" by fastforce
  from run show ?thesis
  proof (cases rule: receipt_cases)
    case (refused e)
    with run show ?thesis by simp
  next
    case (failed e)
    with run show ?thesis by simp
  next
    case (accepted x r)
    note g = audit_grownD [OF accepted(7)]
    have tx: "find_tx i (db_txs d') = Some (x\<lparr>tx_status := receipt_status (rb_outcome b),
         tx_confirmed_at := Some (ck_now ck),
         tx_receipt_json := Some (receipt_json b (receipt_flag (rb_outcome b)))\<rparr>)"
      using accepted(1) by (simp add: g(3) receipt_find status_values_def set_if_def del: canonical_json.simps)
    have rows: "db_rates d' = r" "db_wallets d' = db_wallets d" "db_callers d' = db_callers d"
      "db_nonces d' = snd (mark_confirmed (tx_wallet x) (tx_chain x) (tx_nonce x) (db_nonces d))"
      "\<exists>row. audit_log (db_audit d') = audit_log (db_audit d) @ [row] \<and>
          ar_action row = ''tx-receipt'' \<and> ar_decision row = ''approved''"
      using g by (simp_all add: receipt_db_def)
    show ?thesis
      using run accepted(1-6) tx rows by (simp add: receipt_rates_def split: receipt_outcome.splits)
  qed
qed

text \<open>Callers are isolated: a transaction that does not exist and one that belongs to another caller
  are answered alike, with 404, by the lookup, both reports and the replacement, and the request writes
  nothing at all, not even an audit row.\<close>

theorem caller_isolation:
  assumes "\<And>x. find_tx i (db_txs d) = Some x \<Longrightarrow> tx_caller x \<noteq> c_name c"
  shows "get_transaction i c d = (Inl (HTTPException 404 ''transaction_not_found''), d) \<and>
    broadcast_result ck i bb c d = (Inl (HTTPException 404 ''transaction_not_found''), d) \<and>
    receipt ck i rb c d = (Inl (HTTPException 404 ''transaction_not_found''), d) \<and>
    sign_replacement st lib True ck i pb c d = (Inl (HTTPException 404 ''transaction_not_found''), d)"
proof -
  have "ownership_check i c (open_session d) = (Inl (HTTPException 404 ''transaction_not_found''), open_session d)"
    using assms by (auto simp: ownership_check_run split: option.split)
  then show ?thesis
    by (simp add: get_transaction_def broadcast_result_def receipt_def sign_replacement_def sealed_scope_def
        replacement_body_op_def session_scope_def bindM_run)
qed

lemma caller_isolation_witness:
  "receipt sample_clock ''t1'' \<lparr>rb_tx_hash = sample_hash, rb_outcome = MinedSuccess, rb_block_number = 3\<rparr>
     (sample_sign_caller\<lparr>c_name := ''other''\<rparr>) (sample_tx_db ''submitted'') =
   (Inl (HTTPException 404 ''transaction_not_found''), sample_tx_db ''submitted'')"
  using caller_isolation [of "''t1''" "sample_tx_db ''submitted''" "sample_sign_caller\<lparr>c_name := ''other''\<rparr>"]
  by simp

subsection \<open>What a replacement may change\<close>

text \<open>The calldata read back from the request recorded at signing.\<close>

lemma map_of_sort_key:
  assumes "distinct (map fst xs)" "(k, v) \<in> set xs"
  shows "map_of (sort_key f xs) k = Some v"
  using assms by (intro map_of_is_SomeI) (simp_all add: distinct_map inj_on_def)

lemma recorded_data_request:
  assumes "json_ok (JObj (request_fields rq))"
  shows "recorded_data (request_body rq) = (if rq_data rq = [] then None else Some (rq_data rq))"
proof -
  let ?kvs = "map (\<lambda>(k, v). (k, jnorm v)) (request_fields rq)"
  have "distinct (map fst ?kvs)" "(''data'', JStr (rq_data rq)) \<in> set ?kvs"
    by (simp_all add: request_fields_def)
  from map_of_sort_key [OF this] have "map_of (sort_key fst ?kvs) ''data'' = Some (JStr (rq_data rq))" .
  moreover have "jnorm (JObj (request_fields rq)) = JObj (sort_key fst ?kvs)" by (simp add: jnorm.simps)
  ultimately show ?thesis
    unfolding recorded_data_def request_body_def json_loads_canonical [OF assms] by simp
qed

lemma sign_answer_Inr:
  assumes "sign_answer lib name td d = Inr stx"
  obtains w pk where "find_wallet name (db_wallets d) = Some w"
    "sl_decrypt lib (w_privkey_ciphertext w) = Inr pk" "sl_sign_tx lib pk td = Inr stx"
  using assms
  by (auto simp: sign_answer_def signer_sign_transaction_def bindM_run signer_wallet_run
      split: option.splits sum.splits)

text \<open>C8: a replacement re-signs the recorded intent: for a transaction stored by the signing pipeline for
  request \<open>rq\<close> at nonce \<open>n\<close>, whatever has been reported on it since, an accepted replacement signs, with
  the same wallet's key, the chain, nonce, recipient, value and calldata of the original request, and
  takes only gas and fees from the new body.\<close>

theorem replacement_same_intent:
  assumes "sign_replacement st lib vault ck i b c d = (Inr v, d')"
    and "find_tx i (db_txs d) = Some x" "tx_same (new_tx_row ck0 rq n raw) x"
    and "json_ok (JObj (request_fields rq))"
  shows "\<exists>w pk to_addr amount stx. find_wallet (rq_wallet rq) (db_wallets d) = Some w \<and>
    sl_decrypt lib (w_privkey_ciphertext w) = Inr pk \<and> sl_checksum lib (rq_to rq) = Inr to_addr \<and>
    py_int (rq_value_wei rq) = Some amount \<and>
    sl_sign_tx lib pk \<lparr>td_chain_id = rq_chain rq, td_nonce = n, td_to = to_addr, td_value = amount,
      td_data = rq_data rq, td_gas = pb_gas b, td_max_fee_per_gas = pb_max_fee_per_gas b,
      td_max_priority_fee_per_gas = pb_max_priority_fee_per_gas b\<rparr> = Inr stx \<and>
    pr_signed_raw_tx v = ''0x'' @ bytes_hex (st_raw_transaction stx) \<and> pr_nonce v = n \<and>
    db_nonces d' = db_nonces d \<and> db_rates d' = db_rates d"
proof -
  from assms(1) have "replacement_effect st lib ck i b c d v d'"
    by (cases rule: replacement_cases) simp_all
  with assms(2) obtain stx data to_addr amount where e:
    "recorded_data (tx_request_json x) = Some data" "sl_checksum lib (tx_contract_address x) = Inr to_addr"
    "py_int (tx_value_wei x) = Some amount"
    "sign_answer lib (tx_wallet x) (replacement_dict x b to_addr amount data) d = Inr stx"
    "v = replacement_result i x (int (length (attempts_of i (db_txs d))) + 1) stx"
    "audit_grown ''tx-replacement'' ''approved''
       (replaced_db ck i b (int (length (attempts_of i (db_txs d))) + 1) stx d) d'"
    unfolding replacement_effect_def by auto
  note same = tx_sameD [OF assms(3)]
  have req: "tx_request_json x = request_body rq" "tx_contract_address x = rq_to rq"
    "tx_value_wei x = rq_value_wei rq" "tx_chain x = rq_chain rq" "tx_nonce x = n" "tx_wallet x = rq_wallet rq"
    by (simp_all add: same) (simp_all add: new_tx_row_def)
  from e(1) have data: "data = rq_data rq"
    by (simp add: req recorded_data_request [OF assms(4)] split: if_splits)
  from e(4) obtain w pk where w: "find_wallet (tx_wallet x) (db_wallets d) = Some w"
    "sl_decrypt lib (w_privkey_ciphertext w) = Inr pk"
    "sl_sign_tx lib pk (replacement_dict x b to_addr amount data) = Inr stx"
    by (rule sign_answer_Inr)
  have "db_nonces d' = db_nonces d" "db_rates d' = db_rates d"
    using audit_grownD [OF e(6)] by (simp_all add: replaced_db_def Let_def)
  moreover have "pr_signed_raw_tx v = ''0x'' @ bytes_hex (st_raw_transaction stx)" "pr_nonce v = n"
    by (simp_all add: e(5) replacement_result_def req)
  ultimately show ?thesis
    using w e(2,3) unfolding replacement_dict_def data req by blast
qed

text \<open>When every check passes, the replacement is accepted.\<close>

lemma replacement_ok:
  fixes i d
  defines "k \<equiv> int (length (attempts_of i (db_txs d))) + 1"
  assumes "find_tx i (db_txs d) = Some x" "tx_caller x = c_name c" "tx_status x = ''submitted''"
    and "bump_refusal i b (newest_attempt i (db_txs d)) = None" "replacement_cap_reason st b = None"
    and "length (attempts_of i (db_txs d)) < 5" "recorded_data (tx_request_json x) = Some data"
    and "sl_checksum lib (tx_contract_address x) = Inr to_addr" "py_int (tx_value_wei x) = Some amount"
    and "sign_answer lib (tx_wallet x) (replacement_dict x b to_addr amount data) d = Inr stx"
    and "(i, k) \<notin> (\<lambda>a. (ta_tx_id a, ta_sequence_num a)) ` set (transaction_attempts (db_txs d))"
    and "(i, k) \<notin> (\<lambda>h. (th_tx_id h, th_sequence_num h)) ` set (transaction_hashes (db_txs d))"
  shows "\<exists>d'. sign_replacement st lib True ck i b c d = (Inr (replacement_result i x k stx), d')"
proof -
  let ?s = "open_session d"
  define raw h where rh: "raw = ''0x'' @ bytes_hex (st_raw_transaction stx)" "h = ''0x'' @ bytes_hex (st_hash stx)"
  have 1: "ownership_check i c ?s = (Inr x, ?s)" using assms(2,3) by (simp add: ownership_check_run)
  have 2: "transition_check ck i (tx_status x) ''submitted'' ''replacement'' ''tx-replacement'' (c_name c) ?s = (Inr (), ?s)"
    using assms(4) by (simp add: transition_check_def)
  have "on_txs (latest_attempt i) ?s = (Inr (newest_attempt i (db_txs d)), ?s)"
    using put_same(3) [of ?s] by (simp add: on_run latest_attempt_def newest_attempt_def attempts_of_def)
  then have 3: "fee_checks st ck i b c ?s = (Inr (), ?s)" using assms(5,6) by (simp add: fee_checks_def)
  have "on_txs (list_attempts i) ?s = (Inr (sort_key ta_sequence_num (attempts_of i (db_txs d))), ?s)"
    using put_same(3) [of ?s] by (simp add: on_run list_attempts_def attempts_of_def)
  then have 4: "attempt_number ck i c ?s = (Inr k, ?s)" using assms(7) by (simp add: attempt_number_def k_def)
  have "signer_sign_transaction lib (tx_wallet x) (replacement_dict x b to_addr amount data) ?s = (Inr stx, ?s)"
    using assms(11) signer_sign_state [of lib "tx_wallet x" "replacement_dict x b to_addr amount data" ?s]
    by (auto simp: sign_answer_def)
  then have 5: "resign lib ck i b c x ?s = (Inr stx, ?s)"
    using assms(8-10) by (simp add: resign_def bindM_run)
  let ?a = "replacement_attempt ck i b k raw h"
  let ?t = "(db_txs d)\<lparr>transaction_attempts := transaction_attempts (db_txs d) @ [?a]\<rparr>"
  have 6: "on_txs (add_attempt ?a) ?s = (Inr ?a, put_txs ?t ?s)"
    using assms(12) by (auto simp: on_run add_attempt_def list_ex_iff replacement_attempt_def)
  let ?h = "\<lparr>th_tx_id = i, th_sequence_num = k, th_hash_hex = h, th_submitted_at = ck_hash ck\<rparr>"
  have 7: "\<exists>s2. on_txs (add_hash (ck_hash ck) i h k) (put_txs ?t ?s) = (Inr ?h, s2)"
    using assms(2,13) by (auto simp: on_run put_txs_def add_hash_def Let_def list_ex_iff find_tx_def)
  then obtain s2 where 7: "on_txs (add_hash (ck_hash ck) i h k) (put_txs ?t ?s) = (Inr ?h, s2)" by blast
  obtain d3 where 8: "thenM (json_audit ck ''tx-replacement'' ''approved'' (Some (c_name c)) [(''tx_id'', JStr i)] None
              (Some [(''prev_seq'', JInt (k - 1)), (''new_seq'', JInt k), (''new_hash'', JStr h),
                     (''nonce'', JInt (tx_nonce x))])) (ret (replacement_result i x k stx)) s2 =
       (Inr (replacement_result i x k stx), s2\<lparr>work := d3\<rparr>)"
    using audited_step [OF report_words(3) audit_words(3), of ck "Some (c_name c)" "[(''tx_id'', JStr i)]" None
      "Some [(''prev_seq'', JInt (k - 1)), (''new_seq'', JInt k), (''new_hash'', JStr h),
                     (''nonce'', JInt (tx_nonce x))]" "replacement_result i x k stx" s2] by blast
  have res: "replacement_result i x k stx = \<lparr>pr_tx_id = i, pr_signed_raw_tx = raw, pr_hash = h,
      pr_nonce = tx_nonce x, pr_attempt = k\<rparr>"
    by (simp add: replacement_result_def rh)
  have "replacement_persist ck i b c x k stx ?s = (Inr (replacement_result i x k stx), s2\<lparr>work := d3\<rparr>)"
    using 8 unfolding replacement_persist_def Let_def rh [symmetric] res
    by - (rule thenM_step, rule 6, rule thenM_step, rule 7)
  with 1 2 3 4 5 show ?thesis
    by (simp add: sign_replacement_def sealed_scope_def session_scope_def replacement_body_op_def)
qed

lemma sample_request_ok: "json_ok (JObj (request_fields (body_request sample_body ''clif'' None)))"
proof -
  have "length (str_nat 14) \<le> 4300" "length (str_nat 21000) \<le> 4300" "length (str_nat 3) \<le> 4300"
    "length (str_nat (Suc 0)) \<le> 4300"
    by (simp_all add: str_nat_def nat_digits.simps)
  then show ?thesis
    by (simp add: request_fields_def body_request_def sample_body_def)
qed

definition sample_bump :: replacement_body where
  "sample_bump = \<lparr>pb_gas = 30000, pb_max_fee_per_gas = 90, pb_max_priority_fee_per_gas = 9\<rparr>"

subsection \<open>The bump rule\<close>

lemma bit_length_le: "n < 2 ^ k \<Longrightarrow> bit_length n \<le> k"
proof (induction n arbitrary: k rule: bit_length.induct)
  case (1 n)
  show ?case
  proof (cases "n = 0")
    case False
    with "1.prems" obtain k' where k: "k = Suc k'" by (cases k) auto
    with "1.prems" have "n div 2 < 2 ^ k'" by simp
    with "1.IH" [OF False this] k False show ?thesis by (simp add: bit_length.simps [of n])
  qed (simp add: bit_length.simps)
qed

lemma round53_small: "n < 2 ^ 53 \<Longrightarrow> round53 n = n"
  using bit_length_le [of n 53] by (simp add: round53_def)

text \<open>The least priority fee a replacement must offer is computed in floating point, and is exact
  below 2^49 wei (far above the fee cap): it is the least integer that is at least 9/8 of the previous
  fee, so the fee really rises by 12.5 percent.\<close>

theorem min_bump_exact:
  assumes "0 \<le> prev" "prev < 2 ^ 49"
  shows "8 * min_bump prev \<ge> 9 * prev \<and> 8 * (min_bump prev - 1) < 9 * prev"
proof -
  define m where "m = nat prev"
  have m: "prev = int m" "m < 2 ^ 49" using assms by (simp_all add: m_def nat_less_iff)
  then have "round53 m = m" "round53 (9 * m) = 9 * m" by (simp_all add: round53_small)
  then have "min_bump prev = int ((9 * m + 7) div 8)" by (simp add: min_bump_def m(1))
  then show ?thesis by (simp add: m(1)) presburger
qed

lemma min_bump_exact_witness: "8 * min_bump 8 \<ge> 9 * 8 \<and> 8 * (min_bump 8 - 1) < 9 * (8 :: int)"
  by (rule min_bump_exact) simp_all

text \<open>C29: what an accepted replacement proves about its fees and its number: the fees are within the global
  caps and, against the newest recorded attempt, the fee cap did not fall and the priority fee rose by
  the required bump; the transaction then has at most five attempts and the new one carries the next
  number and the hash and bytes returned.\<close>

theorem replacement_bounds:
  assumes "sign_replacement st lib vault ck i b c d = (Inr v, d')" "attempt_rows.numbered (db_txs d)"
    and "attempts_of i (db_txs d) \<noteq> []"
  defines "p \<equiv> last (attempts_of i (db_txs d))"
  shows "pb_max_priority_fee_per_gas b \<le> pb_max_fee_per_gas b \<and> pb_gas b \<le> fwd_max_gas st \<and>
    pb_max_fee_per_gas b \<le> fwd_max_fee_per_gas st \<and>
    min_bump (ta_max_priority_fee_per_gas p) \<le> pb_max_priority_fee_per_gas b \<and>
    ta_max_fee_per_gas p \<le> pb_max_fee_per_gas b \<and>
    attempts_of i (db_txs d') = attempts_of i (db_txs d) @ [replacement_attempt ck i b (pr_attempt v)
      (pr_signed_raw_tx v) (pr_hash v)] \<and>
    pr_attempt v = int (length (attempts_of i (db_txs d'))) \<and> length (attempts_of i (db_txs d')) \<le> 5 \<and>
    known_hash i (pr_hash v) (db_txs d')"
proof -
  from assms(1) have "replacement_effect st lib ck i b c d v d'"
    by (cases rule: replacement_cases) simp_all
  then obtain x stx where e: "bump_refusal i b (newest_attempt i (db_txs d)) = None"
    "replacement_cap_reason st b = None" "length (attempts_of i (db_txs d)) < 5"
    "v = replacement_result i x (int (length (attempts_of i (db_txs d))) + 1) stx"
    "audit_grown ''tx-replacement'' ''approved''
       (replaced_db ck i b (int (length (attempts_of i (db_txs d))) + 1) stx d) d'"
    unfolding replacement_effect_def by blast
  have "newest_attempt i (db_txs d) = Some p"
    using latest_attempt_numbered [OF assms(2), of i] assms(3)
    by (simp add: latest_attempt_def newest_attempt_def attempts_of_def p_def)
  with e(1) have "min_bump (ta_max_priority_fee_per_gas p) \<le> pb_max_priority_fee_per_gas b"
    "ta_max_fee_per_gas p \<le> pb_max_fee_per_gas b"
    by (auto simp: bump_refusal_def split: if_splits)
  moreover from e(2) have "pb_max_priority_fee_per_gas b \<le> pb_max_fee_per_gas b" "pb_gas b \<le> fwd_max_gas st"
    "pb_max_fee_per_gas b \<le> fwd_max_fee_per_gas st"
    by (auto simp: replacement_cap_reason_def split: if_splits)
  moreover have "attempts_of i (db_txs d') = attempts_of i (db_txs d) @ [replacement_attempt ck i b (pr_attempt v)
      (pr_signed_raw_tx v) (pr_hash v)]" "known_hash i (pr_hash v) (db_txs d')"
    using audit_grownD(3) [OF e(5)]
    by (simp_all add: attempts_of_def known_hash_def replaced_db_def Let_def e(4) replacement_result_def
        replacement_attempt_def)
  ultimately show ?thesis using e(3) by (simp add: e(4) replacement_result_def)
qed

lemma sample_replacement:
  "\<exists>d'. sign_replacement (se_settings sample_env) (se_signer sample_env) True sample_clock ''t1'' sample_bump
     sample_sign_caller (sample_tx_db ''submitted'') =
     (Inr (replacement_result ''t1'' (sample_tx ''submitted'') 2 \<lparr>st_raw_transaction = [2], st_hash = [3]\<rparr>), d')"
proof -
  let ?d = "sample_tx_db ''submitted''"
  have att: "length (attempts_of ''t1'' (db_txs ?d)) = 1"
    by (simp add: attempts_of_def sample_tx_db_def)
  have "sign_answer (se_signer sample_env) ''hot'' td ?d = Inr \<lparr>st_raw_transaction = [2], st_hash = [3]\<rparr>" for td
    by (simp add: sign_answer_def signer_sign_transaction_def bindM_run signer_wallet_run sample_env_def
        sample_tx_db_def sample_db_def find_wallet_def sample_wallet_def)
  moreover have "recorded_data (tx_request_json (sample_tx ''submitted'')) = Some ''0x''"
    using recorded_data_request [OF sample_request_ok] by (simp add: body_request_def sample_body_def)
  moreover have "bump_refusal ''t1'' sample_bump (newest_attempt ''t1'' (db_txs ?d)) = None"
    by (simp add: newest_attempt_def attempts_of_def sample_tx_db_def bump_refusal_def sample_bump_def
        min_bump_def round53_small)
  moreover have "py_int ''7'' = Some 7" by code_simp
  ultimately show ?thesis
    using replacement_ok [of "''t1''" ?d "sample_tx ''submitted''" sample_sign_caller sample_bump
      "se_settings sample_env" "''0x''" "se_signer sample_env" sample_addr 7
      "\<lparr>st_raw_transaction = [2], st_hash = [3]\<rparr>" sample_clock]
    by (simp add: att replacement_cap_reason_def sample_bump_def sample_env_def)
      (simp add: sample_tx_db_def)
qed

lemma sample_tx_stored:
  "tx_same (new_tx_row (sample_clock\<lparr>ck_uuid := ''t1'', ck_row := 1, ck_now := 1\<rparr>)
     (body_request sample_body ''clif'' None) 4 ''0x02'') (sample_tx s)"
  by (simp add: tx_same_def new_tx_row_def sample_tx_def body_request_def sample_body_def sample_clock_def)

lemma replacement_same_intent_witness:
  "\<exists>v d'. sign_replacement (se_settings sample_env) (se_signer sample_env) True sample_clock ''t1'' sample_bump
     sample_sign_caller (sample_tx_db ''submitted'') = (Inr v, d') \<and> pr_nonce v = 4 \<and>
     db_nonces d' = db_nonces (sample_tx_db ''submitted'')"
proof -
  obtain v d' where run: "sign_replacement (se_settings sample_env) (se_signer sample_env) True sample_clock ''t1''
     sample_bump sample_sign_caller (sample_tx_db ''submitted'') = (Inr v, d')"
    using sample_replacement by blast
  have "find_tx ''t1'' (db_txs (sample_tx_db ''submitted'')) = Some (sample_tx ''submitted'')" by simp
  from replacement_same_intent [OF run this sample_tx_stored sample_request_ok] run show ?thesis by blast
qed

lemma sample_numbered: "attempt_rows.numbered (db_txs (sample_tx_db s))"
  by (simp add: attempt_rows.numbered_def attempt_nums_def sample_tx_db_def)

lemma replacement_bounds_witness:
  "\<exists>v d'. sign_replacement (se_settings sample_env) (se_signer sample_env) True sample_clock ''t1'' sample_bump
     sample_sign_caller (sample_tx_db ''submitted'') = (Inr v, d') \<and> known_hash ''t1'' (pr_hash v) (db_txs d')"
proof -
  obtain v d' where run: "sign_replacement (se_settings sample_env) (se_signer sample_env) True sample_clock ''t1''
     sample_bump sample_sign_caller (sample_tx_db ''submitted'') = (Inr v, d')"
    using sample_replacement by blast
  have "attempts_of ''t1'' (db_txs (sample_tx_db ''submitted'')) \<noteq> []"
    by (simp add: attempts_of_def sample_tx_db_def)
  from replacement_bounds [OF run sample_numbered this] run show ?thesis by blast
qed

end
