(* ===== verification/Nonce_Admin.thy ===== *)
theory Nonce_Admin
  imports Sign_Transaction
begin

section \<open>Nonce administration\<close>

text \<open>
  \<open>api/admin_auth.py\<close> and \<open>api/nonce.py\<close>: the operator seeds a (wallet, chain), heals its nonce
  forward within a bound, lists stale reservations and reads a row.  Refusals append a denied audit row
  with no caller, commit it and raise.
\<close>

subsection \<open>Admin authentication\<close>

text \<open>\<open>hmac.compare_digest\<close> on two ASCII strings is equality.\<close>

definition require_admin :: "string \<Rightarrow> string option \<Rightarrow> ('s, unit) op" where
  "require_admin expected authorization =
     (if expected = [] then raise (HTTPException 503 ''admin_unavailable'')
      else case authorization of
        None \<Rightarrow> raise (HTTPException 401 ''unauthorized'')
      | Some a \<Rightarrow>
          if \<not> starts_with (py_lower a) ''bearer '' then raise (HTTPException 401 ''unauthorized'')
          else if py_strip (drop 7 a) \<noteq> expected then raise (HTTPException 401 ''unauthorized'')
          else ret ())"

text \<open>The admin dependency runs first, then the body is validated, then the handler runs.\<close>

definition admin_guarded :: "string \<Rightarrow> string option \<Rightarrow> bool \<Rightarrow> (db, 'a) op \<Rightarrow> (db, 'a) op" where
  "admin_guarded expected authorization valid handler =
     thenM (require_admin expected authorization)
       (if \<not> valid then raise (HTTPException 422 ''validation'') else handler)"

subsection \<open>Seeding a nonce\<close>

record nonce_init_body =
  nib_wallet :: string
  nib_chain :: int
  nib_starting_nonce :: int
  nib_force :: bool
  nib_force_with_in_flight :: bool

definition nonce_init_body_valid :: "nonce_init_body \<Rightarrow> bool" where
  "nonce_init_body_valid b \<longleftrightarrow> 1 \<le> length (nib_wallet b) \<and> length (nib_wallet b) \<le> 64 \<and>
     1 \<le> nib_chain b \<and> 0 \<le> nib_starting_nonce b"

record nonce_init_response =
  nir_wallet :: string
  nir_chain :: int
  nir_next_nonce :: int

definition init_request :: "nonce_init_body \<Rightarrow> (string \<times> json) list" where
  "init_request b = [(''wallet'', JStr (nib_wallet b)), (''chain'', JInt (nib_chain b)),
     (''starting_nonce'', JInt (nib_starting_nonce b)), (''force'', JBool (nib_force b)),
     (''force_with_in_flight'', JBool (nib_force_with_in_flight b))]"

definition init_refuse ::
  "clock \<Rightarrow> nonce_init_body \<Rightarrow> string \<Rightarrow> (string \<times> json) list option \<Rightarrow> exn \<Rightarrow> (session, 'a) op" where
  "init_refuse ck b reason outcome e =
     json_refuse ck ''nonce-init'' ''denied'' None (init_request b) reason outcome e"

text \<open>An existing row is overwritten only with \<open>force\<close>, and while transactions are in flight only with
  \<open>force_with_in_flight\<close>.\<close>

definition existing_guard :: "clock \<Rightarrow> nonce_init_body \<Rightarrow> nonce option \<Rightarrow> (session, unit) op" where
  "existing_guard ck b existing =
     (case existing of
        None \<Rightarrow> ret ()
      | Some (_, row) \<Rightarrow>
          if \<not> nib_force b
          then init_refuse ck b ''already_initialized'' (Some [(''next_nonce'', JInt (next_nonce row))])
            (HTTPException 409 ''nonce_already_initialized'')
          else ret ())"

definition in_flight_guard :: "clock \<Rightarrow> nonce_init_body \<Rightarrow> nonce option \<Rightarrow> (session, unit) op" where
  "in_flight_guard ck b existing =
     (if nib_force b \<and> existing \<noteq> None \<and> \<not> nib_force_with_in_flight b
      then bindM (on_txs (count_in_flight (nib_wallet b) (nib_chain b))) (\<lambda>n.
        if 0 < n
        then init_refuse ck b (''in_flight_nonces:'' @ str_nat n) None (HTTPException 409 ''in_flight_nonces'')
        else ret ())
      else ret ())"

definition init_stage :: "clock \<Rightarrow> nonce_init_body \<Rightarrow> (session, nonce) op" where
  "init_stage ck b =
     catchM
       (bindM (getM (\<lambda>s. find_wallet (nib_wallet b) (db_wallets (work s)) \<noteq> None)) (\<lambda>wallet_exists.
        on_nonces (init_for_wallet wallet_exists (ck_now ck) (nib_wallet b) (nib_chain b)
          (nib_starting_nonce b) (nib_force b))))
       (\<lambda>e. case e of
          NonceWalletNotFoundError _ \<Rightarrow>
            init_refuse ck b ''wallet_not_found'' None (HTTPException 404 ''wallet_not_found'')
        | _ \<Rightarrow> raise e)"

definition nonce_init :: "clock \<Rightarrow> nonce_init_body \<Rightarrow> (session, nonce_init_response) op" where
  "nonce_init ck b =
     bindM (on_nonces (get_nonce (nib_wallet b) (nib_chain b) True)) (\<lambda>existing.
     thenM (existing_guard ck b existing)
       (thenM (in_flight_guard ck b existing)
         (bindM (init_stage ck b) (\<lambda>(k, row).
          thenM (case existing of
              Some (_, old) \<Rightarrow> json_audit ck ''nonce-init'' ''approved'' None (init_request b)
                (Some ''force_overwrite'')
                (Some [(''from'', JInt (next_nonce old)), (''to'', JInt (next_nonce row))])
            | None \<Rightarrow> json_audit ck ''nonce-init'' ''approved'' None (init_request b) None
                (Some [(''next_nonce'', JInt (next_nonce row))]))
            (ret \<lparr>nir_wallet = fst k, nir_chain = snd k, nir_next_nonce = next_nonce row\<rparr>)))))"

definition post_nonce_init ::
  "string \<Rightarrow> bool \<Rightarrow> clock \<Rightarrow> string option \<Rightarrow> nonce_init_body \<Rightarrow> (db, nonce_init_response) op" where
  "post_nonce_init expected vault ck authorization b =
     admin_guarded expected authorization (nonce_init_body_valid b) (sealed_scope vault (nonce_init ck b))"

subsection \<open>Synchronising with the chain\<close>

record nonce_sync_body =
  nsb_wallet :: string
  nsb_chain :: int
  nsb_on_chain_count :: int

definition nonce_sync_body_valid :: "nonce_sync_body \<Rightarrow> bool" where
  "nonce_sync_body_valid b \<longleftrightarrow> 1 \<le> length (nsb_wallet b) \<and> length (nsb_wallet b) \<le> 64 \<and>
     1 \<le> nsb_chain b \<and> 0 \<le> nsb_on_chain_count b"

record nonce_sync_response =
  nsr_wallet :: string
  nsr_chain :: int
  nsr_from_nonce :: int
  nsr_to_nonce :: int
  nsr_status :: string

definition sync_request :: "nonce_sync_body \<Rightarrow> (string \<times> json) list" where
  "sync_request b = [(''wallet'', JStr (nsb_wallet b)), (''chain'', JInt (nsb_chain b)),
     (''on_chain_count'', JInt (nsb_on_chain_count b))]"

definition sync_response :: "nonce_sync_body \<Rightarrow> int \<Rightarrow> string \<Rightarrow> nonce_sync_response" where
  "sync_response b cur status = \<lparr>nsr_wallet = nsb_wallet b, nsr_chain = nsb_chain b, nsr_from_nonce = cur,
     nsr_to_nonce = nsb_on_chain_count b, nsr_status = status\<rparr>"

definition sync_step :: "settings \<Rightarrow> clock \<Rightarrow> nonce_sync_body \<Rightarrow> int \<Rightarrow> (session, nonce_sync_response) op" where
  "sync_step st ck b cur =
     (let count = nsb_on_chain_count b; max_advance = fwd_nonce_sync_max_advance st in
      if count = cur
      then thenM (json_audit ck ''nonce-sync'' ''approved'' None (sync_request b) (Some ''in_sync'')
          (Some [(''from'', JInt cur), (''to'', JInt cur)]))
        (ret (sync_response b cur ''in_sync''))
      else if count < cur \<or> cur + max_advance < count
      then json_refuse ck ''nonce-sync'' ''denied'' None (sync_request b)
        (''nonce_sync_out_of_bounds:cur='' @ str_int cur @ '',requested='' @ str_int count @
         '',max_advance='' @ str_int max_advance) None (HTTPException 409 ''nonce_sync_out_of_bounds'')
      else thenM (on_nonces (set_next_nonce (nsb_wallet b) (nsb_chain b) count))
        (thenM (json_audit ck ''nonce-sync'' ''approved'' None (sync_request b) None
            (Some [(''from'', JInt cur), (''to'', JInt count)]))
          (ret (sync_response b cur ''advanced''))))"

definition nonce_sync :: "settings \<Rightarrow> clock \<Rightarrow> nonce_sync_body \<Rightarrow> (session, nonce_sync_response) op" where
  "nonce_sync st ck b =
     bindM (on_nonces (get_nonce (nsb_wallet b) (nsb_chain b) True)) (\<lambda>row.
     case row of
       None \<Rightarrow> json_refuse ck ''nonce-sync'' ''denied'' None (sync_request b) ''nonce_not_initialized'' None
         (HTTPException 404 ''nonce_not_initialized'')
     | Some (_, r) \<Rightarrow> sync_step st ck b (next_nonce r))"

definition post_nonce_sync ::
  "string \<Rightarrow> settings \<Rightarrow> bool \<Rightarrow> clock \<Rightarrow> string option \<Rightarrow> nonce_sync_body \<Rightarrow> (db, nonce_sync_response) op" where
  "post_nonce_sync expected st vault ck authorization b =
     admin_guarded expected authorization (nonce_sync_body_valid b) (sealed_scope vault (nonce_sync st ck b))"

subsection \<open>Reading\<close>

record nonce_hole =
  nh_tx_id :: string
  nh_wallet :: string
  nh_chain :: int
  nh_nonce :: int
  nh_reserved_at :: "datetime option"
  nh_caller :: string

definition nonce_holes :: "settings \<Rightarrow> clock \<Rightarrow> (db, nonce_hole list) op" where
  "nonce_holes st ck =
     session_scope False
       (bindM (on_txs (list_stale_reservations (lease_cutoff st ck))) (\<lambda>stale.
        ret (map (\<lambda>x. \<lparr>nh_tx_id = tx_id x, nh_wallet = tx_wallet x, nh_chain = tx_chain x,
          nh_nonce = tx_nonce x, nh_reserved_at = tx_reserved_at x, nh_caller = tx_caller x\<rparr>) stale)))"

definition get_nonce_holes :: "string \<Rightarrow> settings \<Rightarrow> clock \<Rightarrow> string option \<Rightarrow> (db, nonce_hole list) op" where
  "get_nonce_holes expected st ck authorization = admin_guarded expected authorization True (nonce_holes st ck)"

record nonce_get_response =
  ngr_wallet :: string
  ngr_chain :: int
  ngr_next_nonce :: int
  ngr_last_confirmed :: "int option"

definition nonce_lookup :: "string \<Rightarrow> int \<Rightarrow> (db, nonce_get_response) op" where
  "nonce_lookup wallet chain =
     bindM (session_scope False (on_nonces (get_nonce wallet chain True))) (\<lambda>row.
     case row of
       None \<Rightarrow> raise (HTTPException 404 ''nonce_not_initialized'')
     | Some ((w, c), r) \<Rightarrow> ret \<lparr>ngr_wallet = w, ngr_chain = c, ngr_next_nonce = next_nonce r,
         ngr_last_confirmed = last_confirmed r\<rparr>)"

definition get_nonce_endpoint ::
  "string \<Rightarrow> string option \<Rightarrow> string \<Rightarrow> int \<Rightarrow> (db, nonce_get_response) op" where
  "get_nonce_endpoint expected authorization wallet chain =
     admin_guarded expected authorization True (nonce_lookup wallet chain)"

end
