(* ===== verification/Nonce_Correct.thy ===== *)
theory Nonce_Correct
  imports Nonce_Admin Audited
begin

section \<open>What nonce administration does\<close>

text \<open>The outcomes of seeding and synchronising as case rules, and the properties read off them.\<close>

lemma nonce_words: "''nonce-init'' \<in> set valid_actions" "''nonce-sync'' \<in> set valid_actions"
  by (simp_all add: valid_actions_def)

subsection \<open>Admin authentication\<close>

definition admin_ok :: "string \<Rightarrow> string option \<Rightarrow> bool" where
  "admin_ok expected authorization \<longleftrightarrow> expected \<noteq> [] \<and>
     (case authorization of None \<Rightarrow> False
      | Some a \<Rightarrow> starts_with (py_lower a) ''bearer '' \<and> py_strip (drop 7 a) = expected)"

lemma require_admin_run:
  "require_admin expected a s = (if admin_ok expected a then Inr ()
     else if expected = [] then Inl (HTTPException 503 ''admin_unavailable'')
     else Inl (HTTPException 401 ''unauthorized''), s)"
  by (auto simp: require_admin_def admin_ok_def split: option.splits)

lemma admin_guarded_cases:
  assumes "admin_guarded expected a valid handler d = (res, d')"
  obtains (stopped) e where "res = Inl e" "d' = d"
  | (admitted) "admin_ok expected a" "valid" "handler d = (res, d')"
  using assms by (cases "admin_ok expected a"; cases valid)
    (auto simp: admin_guarded_def thenM_def bindM_run require_admin_run split: if_splits)

subsection \<open>Seeding\<close>

definition in_flight_count :: "string \<Rightarrow> int \<Rightarrow> tx_db \<Rightarrow> nat" where
  "in_flight_count w c t = length (filter (\<lambda>x. tx_wallet x = w \<and> tx_chain x = c \<and> in_flight x) (transactions t))"

definition fresh_nonce :: "clock \<Rightarrow> nonce_init_body \<Rightarrow> nonce_row" where
  "fresh_nonce ck b = \<lparr>next_nonce = nib_starting_nonce b, last_confirmed = None, last_reconciled_at = ck_now ck\<rparr>"

definition seeded :: "clock \<Rightarrow> nonce_init_body \<Rightarrow> db \<Rightarrow> db" where
  "seeded ck b d = d\<lparr>db_nonces := AList.update (nib_wallet b, nib_chain b) (fresh_nonce ck b) (db_nonces d)\<rparr>"

text \<open>When seeding is allowed.\<close>

definition seed_allowed :: "nonce_init_body \<Rightarrow> db \<Rightarrow> bool" where
  "seed_allowed b d \<longleftrightarrow>
     (case map_of (db_nonces d) (nib_wallet b, nib_chain b) of
        None \<Rightarrow> find_wallet (nib_wallet b) (db_wallets d) \<noteq> None
      | Some row \<Rightarrow> nib_force b \<and>
          (nib_force_with_in_flight b \<or> in_flight_count (nib_wallet b) (nib_chain b) (db_txs d) = 0))"

lemma init_refuse_cases:
  "\<exists>d'. init_refuse ck b reason outcome e s = (Inl e, open_session d') \<and>
     audit_grown ''nonce-init'' ''denied'' (work s) d'"
  unfolding init_refuse_def by (rule json_refuse_run [OF nonce_words(1) decision_words(2)])

lemma get_nonce_run:
  "on_nonces (get_nonce w c True) s = (Inr (map_option (\<lambda>r. ((w, c), r)) (map_of (db_nonces (work s)) (w, c))), s)"
  by (simp add: on_run get_nonce_def bindM_run split: option.split)

definition nonce_init_refusal :: "nonce_init_body \<Rightarrow> db \<Rightarrow> exn" where
  "nonce_init_refusal b d =
     (case map_of (db_nonces d) (nib_wallet b, nib_chain b) of
        None \<Rightarrow> HTTPException 404 ''wallet_not_found''
      | Some row \<Rightarrow> if nib_force b then HTTPException 409 ''in_flight_nonces''
          else HTTPException 409 ''nonce_already_initialized'')"

lemma nonce_init_refused:
  assumes "\<not> seed_allowed b d"
  shows "\<exists>d'. nonce_init ck b (open_session d) = (Inl (nonce_init_refusal b d), open_session d') \<and>
    audit_grown ''nonce-init'' ''denied'' d d'"
proof (cases "map_of (db_nonces d) (nib_wallet b, nib_chain b)")
  case None
  let ?s = "open_session d"
  have ex: "on_nonces (init_for_wallet False (ck_now ck) (nib_wallet b) (nib_chain b) (nib_starting_nonce b)
      (nib_force b)) ?s = (Inl (NonceWalletNotFoundError (nib_wallet b)), ?s)"
    using None put_same(4) [of ?s] by (simp add: on_run init_for_wallet_def Let_def)
  obtain d' where "(init_refuse ck b ''wallet_not_found'' None (HTTPException 404 ''wallet_not_found'') :: (session, nonce) op) ?s =
      (Inl (HTTPException 404 ''wallet_not_found''), open_session d')" "audit_grown ''nonce-init'' ''denied'' d d'"
    using init_refuse_cases [where s = ?s] by (metis open_session_simps(1))
  with None assms ex show ?thesis
    by (intro exI [of _ d']) (simp add: nonce_init_def get_nonce_run existing_guard_def in_flight_guard_def
        init_stage_def catchM_def bindM_run thenM_def seed_allowed_def nonce_init_refusal_def)
next
  case (Some row)
  let ?s = "open_session d"
  have count: "on_txs (count_in_flight (nib_wallet b) (nib_chain b)) ?s =
      (Inr (in_flight_count (nib_wallet b) (nib_chain b) (db_txs d)), ?s)"
    using put_same(3) [of ?s] by (simp add: on_run count_in_flight_def in_flight_count_def)
  have ref: "\<exists>d'. (init_refuse ck b reason outcome e :: (session, unit) op) ?s = (Inl e, open_session d') \<and>
      audit_grown ''nonce-init'' ''denied'' d d'" for reason outcome e
    using init_refuse_cases [where s = ?s] by simp
  show ?thesis
  proof (cases "nib_force b")
    case False
    obtain d' where "(init_refuse ck b ''already_initialized'' (Some [(''next_nonce'', JInt (next_nonce row))])
        (HTTPException 409 ''nonce_already_initialized'') :: (session, unit) op) ?s =
      (Inl (HTTPException 409 ''nonce_already_initialized''), open_session d')"
      "audit_grown ''nonce-init'' ''denied'' d d'" using ref by blast
    with Some False show ?thesis
      by (intro exI [of _ d']) (simp add: nonce_init_def get_nonce_run existing_guard_def nonce_init_refusal_def)
  next
    case True
    let ?n = "in_flight_count (nib_wallet b) (nib_chain b) (db_txs d)"
    from True Some assms have n: "0 < ?n" "\<not> nib_force_with_in_flight b" by (simp_all add: seed_allowed_def)
    obtain d' where "(init_refuse ck b (''in_flight_nonces:'' @ str_nat ?n) None
        (HTTPException 409 ''in_flight_nonces'') :: (session, unit) op) ?s =
      (Inl (HTTPException 409 ''in_flight_nonces''), open_session d')"
      "audit_grown ''nonce-init'' ''denied'' d d'" using ref by blast
    with Some True n count show ?thesis
      by (intro exI [of _ d']) (simp add: nonce_init_def get_nonce_run existing_guard_def in_flight_guard_def
          nonce_init_refusal_def)
  qed
qed

lemma nonce_init_seeded:
  assumes "seed_allowed b d"
  shows "\<exists>d'. nonce_init ck b (open_session d) = (Inr \<lparr>nir_wallet = nib_wallet b, nir_chain = nib_chain b,
      nir_next_nonce = nib_starting_nonce b\<rparr>, (open_session d)\<lparr>work := d'\<rparr>) \<and>
    audit_grown ''nonce-init'' ''approved'' (seeded ck b d) d'"
proof -
  let ?s = "open_session d"
  let ?k = "(nib_wallet b, nib_chain b)"
  let ?old = "map_of (db_nonces d) ?k"
  let ?e = "map_option (\<lambda>r. (?k, r)) ?old"
  let ?res = "\<lparr>nir_wallet = nib_wallet b, nir_chain = nib_chain b, nir_next_nonce = nib_starting_nonce b\<rparr>"
  have count: "on_txs (count_in_flight (nib_wallet b) (nib_chain b)) ?s =
      (Inr (in_flight_count (nib_wallet b) (nib_chain b) (db_txs d)), ?s)"
    using put_same(3) [of ?s] by (simp add: on_run count_in_flight_def in_flight_count_def)
  have g: "existing_guard ck b ?e ?s = (Inr (), ?s)" "in_flight_guard ck b ?e ?s = (Inr (), ?s)"
    using assms count
    by (auto simp: existing_guard_def in_flight_guard_def seed_allowed_def bindM_run split: option.splits)
  have "init_for_wallet (find_wallet (nib_wallet b) (db_wallets d) \<noteq> None) (ck_now ck) (nib_wallet b) (nib_chain b)
      (nib_starting_nonce b) (nib_force b) (db_nonces d) =
      (Inr (?k, fresh_nonce ck b), AList.update ?k (fresh_nonce ck b) (db_nonces d))"
    using assms by (auto simp: init_for_wallet_def Let_def seed_allowed_def fresh_nonce_def split: option.splits)
  then have i: "init_stage ck b ?s = (Inr (?k, fresh_nonce ck b), ?s\<lparr>work := seeded ck b d\<rparr>)"
    by (simp add: init_stage_def catchM_def bindM_run on_run put_nonces_def seeded_def)
  define reason where "reason = (case ?old of None \<Rightarrow> None | Some _ \<Rightarrow> Some ''force_overwrite'')"
  define outcome where "outcome = (case ?old of
      None \<Rightarrow> Some [(''next_nonce'', JInt (nib_starting_nonce b))]
    | Some old \<Rightarrow> Some [(''from'', JInt (next_nonce old)), (''to'', JInt (nib_starting_nonce b))])"
  obtain d' where "thenM (json_audit ck ''nonce-init'' ''approved'' None (init_request b) reason outcome) (ret ?res)
      (?s\<lparr>work := seeded ck b d\<rparr>) = (Inr ?res, ?s\<lparr>work := d'\<rparr>)"
    "audit_grown ''nonce-init'' ''approved'' (seeded ck b d) d'"
    using audited_step [OF nonce_words(1) decision_words(1), of ck None "init_request b" reason outcome ?res
      "?s\<lparr>work := seeded ck b d\<rparr>"] by auto
  moreover have "nonce_init ck b ?s = thenM (json_audit ck ''nonce-init'' ''approved'' None (init_request b) reason
      outcome) (ret ?res) (?s\<lparr>work := seeded ck b d\<rparr>)"
    using g i
    by (cases ?old) (simp_all add: nonce_init_def get_nonce_run reason_def outcome_def fresh_nonce_def)
  ultimately show ?thesis by auto
qed

lemma nonce_init_cases:
  assumes "session_scope False (nonce_init ck b) d = (res, d')"
  obtains (refused) "\<not> seed_allowed b d" "res = Inl (nonce_init_refusal b d)"
      "audit_grown ''nonce-init'' ''denied'' d d'"
  | (seeded) "seed_allowed b d" "res = Inr \<lparr>nir_wallet = nib_wallet b, nir_chain = nib_chain b,
        nir_next_nonce = nib_starting_nonce b\<rparr>"
      "audit_grown ''nonce-init'' ''approved'' (seeded ck b d) d'"
proof (cases "seed_allowed b d")
  case True
  with nonce_init_seeded [OF True, of ck] assms show thesis by (auto simp: session_scope_def intro: seeded)
next
  case False
  with nonce_init_refused [OF False, of ck] assms show thesis by (auto simp: session_scope_def intro: refused)
qed

subsection \<open>Synchronising\<close>

definition synced :: "nonce_sync_body \<Rightarrow> db \<Rightarrow> db" where
  "synced b d = d\<lparr>db_nonces := snd (set_next_nonce (nsb_wallet b) (nsb_chain b) (nsb_on_chain_count b) (db_nonces d))\<rparr>"

lemma nonce_sync_cases:
  assumes "session_scope False (nonce_sync st ck b) d = (res, d')"
  obtains (missing) "map_of (db_nonces d) (nsb_wallet b, nsb_chain b) = None"
      "res = Inl (HTTPException 404 ''nonce_not_initialized'')" "audit_grown ''nonce-sync'' ''denied'' d d'"
  | (bounds) r where "map_of (db_nonces d) (nsb_wallet b, nsb_chain b) = Some r"
      "nsb_on_chain_count b < next_nonce r \<or> next_nonce r + fwd_nonce_sync_max_advance st < nsb_on_chain_count b"
      "res = Inl (HTTPException 409 ''nonce_sync_out_of_bounds'')" "audit_grown ''nonce-sync'' ''denied'' d d'"
  | (same) r where "map_of (db_nonces d) (nsb_wallet b, nsb_chain b) = Some r" "nsb_on_chain_count b = next_nonce r"
      "res = Inr (sync_response b (next_nonce r) ''in_sync'')" "audit_grown ''nonce-sync'' ''approved'' d d'"
  | (advanced) r where "map_of (db_nonces d) (nsb_wallet b, nsb_chain b) = Some r"
      "next_nonce r < nsb_on_chain_count b" "nsb_on_chain_count b \<le> next_nonce r + fwd_nonce_sync_max_advance st"
      "res = Inr (sync_response b (next_nonce r) ''advanced'')" "audit_grown ''nonce-sync'' ''approved'' (synced b d) d'"
proof -
  let ?s = "open_session d"
  have ref: "\<exists>d'. (json_refuse ck ''nonce-sync'' ''denied'' None q reason outcome e :: (session, nonce_sync_response) op) ?s =
      (Inl e, open_session d') \<and> audit_grown ''nonce-sync'' ''denied'' d d'" for q reason outcome e
    using json_refuse_run [OF nonce_words(2) decision_words(2), where s = ?s] by simp
  have app: "\<exists>u. thenM (json_audit ck ''nonce-sync'' ''approved'' None q reason outcome) (ret v) (?s\<lparr>work := du\<rparr>) =
      (Inr v, ?s\<lparr>work := u\<rparr>) \<and> audit_grown ''nonce-sync'' ''approved'' du u"
    for q reason outcome du and v :: nonce_sync_response
    using audited_step [OF nonce_words(2) decision_words(1), of ck None q reason outcome v "?s\<lparr>work := du\<rparr>"] by auto
  have here: "?s\<lparr>work := d\<rparr> = ?s" by (simp add: open_session_def)
  show thesis
  proof (cases "map_of (db_nonces d) (nsb_wallet b, nsb_chain b)")
    case None
    then have "nonce_sync st ck b ?s = json_refuse ck ''nonce-sync'' ''denied'' None (sync_request b)
        ''nonce_not_initialized'' None (HTTPException 404 ''nonce_not_initialized'') ?s"
      by (simp add: nonce_sync_def get_nonce_run)
    with ref [of "sync_request b" "''nonce_not_initialized''" None "HTTPException 404 ''nonce_not_initialized''"]
      None assms show thesis by (auto simp: session_scope_def intro: missing)
  next
    case (Some r)
    then have run: "nonce_sync st ck b ?s = sync_step st ck b (next_nonce r) ?s"
      by (simp add: nonce_sync_def get_nonce_run)
    consider "nsb_on_chain_count b = next_nonce r"
      | "nsb_on_chain_count b < next_nonce r \<or> next_nonce r + fwd_nonce_sync_max_advance st < nsb_on_chain_count b"
        "nsb_on_chain_count b \<noteq> next_nonce r"
      | "next_nonce r < nsb_on_chain_count b" "nsb_on_chain_count b \<le> next_nonce r + fwd_nonce_sync_max_advance st"
      by linarith
    then show thesis
    proof cases
      case 1
      with app [of "sync_request b" "Some ''in_sync''" "Some [(''from'', JInt (next_nonce r)), (''to'', JInt (next_nonce r))]"
          "sync_response b (next_nonce r) ''in_sync''" d] run assms Some
      show thesis by (auto simp: session_scope_def sync_step_def here Let_def intro: same)
    next
      case 2
      define reason where "reason = ''nonce_sync_out_of_bounds:cur='' @ str_int (next_nonce r) @ '',requested='' @
         str_int (nsb_on_chain_count b) @ '',max_advance='' @ str_int (fwd_nonce_sync_max_advance st)"
      from 2 have "sync_step st ck b (next_nonce r) ?s = json_refuse ck ''nonce-sync'' ''denied'' None (sync_request b)
          reason None (HTTPException 409 ''nonce_sync_out_of_bounds'') ?s"
        unfolding sync_step_def Let_def reason_def by simp
      with ref [of "sync_request b" reason None "HTTPException 409 ''nonce_sync_out_of_bounds''"] run assms Some 2
      show thesis by (auto simp: session_scope_def intro: bounds)
    next
      case 3
      have "on_nonces (set_next_nonce (nsb_wallet b) (nsb_chain b) (nsb_on_chain_count b)) ?s =
          (Inr (), ?s\<lparr>work := synced b d\<rparr>)"
        by (simp add: on_run set_next_nonce_def put_nonces_def synced_def)
      with 3 have "sync_step st ck b (next_nonce r) ?s = thenM (json_audit ck ''nonce-sync'' ''approved'' None
          (sync_request b) None (Some [(''from'', JInt (next_nonce r)), (''to'', JInt (nsb_on_chain_count b))]))
          (ret (sync_response b (next_nonce r) ''advanced'')) (?s\<lparr>work := synced b d\<rparr>)"
        by (simp add: sync_step_def Let_def)
      with app [of "sync_request b" None "Some [(''from'', JInt (next_nonce r)), (''to'', JInt (nsb_on_chain_count b))]"
          "sync_response b (next_nonce r) ''advanced''" "synced b d"] run assms Some 3
      show thesis by (auto simp: session_scope_def intro: advanced)
    qed
  qed
qed

subsection \<open>Properties\<close>

text \<open>Seeding a nonce on every branch: it succeeds exactly for a wallet that exists and has no row,
  or with force for a row without in-flight transactions (or with their explicit override), and then
  sets that one row to the fresh state, for every other (wallet, chain) nothing changes; otherwise the
  matching 404 or 409 is raised, no nonce changes and one denied audit row is kept.\<close>

theorem nonce_init_spec:
  "case session_scope False (nonce_init ck b) d of (res, d') \<Rightarrow>
     db_txs d' = db_txs d \<and> db_rates d' = db_rates d \<and> db_wallets d' = db_wallets d \<and> db_callers d' = db_callers d \<and>
     (if seed_allowed b d
      then res = Inr \<lparr>nir_wallet = nib_wallet b, nir_chain = nib_chain b, nir_next_nonce = nib_starting_nonce b\<rparr> \<and>
        map_of (db_nonces d') = (map_of (db_nonces d))((nib_wallet b, nib_chain b) \<mapsto> fresh_nonce ck b) \<and>
        (\<exists>row. audit_log (db_audit d') = audit_log (db_audit d) @ [row] \<and> ar_action row = ''nonce-init'' \<and>
           ar_decision row = ''approved'')
      else res = Inl (nonce_init_refusal b d) \<and> db_nonces d' = db_nonces d \<and>
        (\<exists>row. audit_log (db_audit d') = audit_log (db_audit d) @ [row] \<and> ar_action row = ''nonce-init'' \<and>
           ar_decision row = ''denied''))"
proof -
  obtain res d' where run: "session_scope False (nonce_init ck b) d = (res, d')" by fastforce
  from run show ?thesis
  proof (cases rule: nonce_init_cases)
    case refused
    with audit_grownD [OF refused(3)] show ?thesis by (simp add: run)
  next
    case seeded
    with audit_grownD [OF seeded(3)] show ?thesis by (simp add: run seeded_def table_simps)
  qed
qed

text \<open>Synchronising never moves a nonce back and never by more than the configured advance: whatever
  count is presented, every next nonce afterwards is what it was, except that the named row may have
  been set to the presented count, which is then at most the configured advance above; and a row whose
  nonce is set has the count before it as its confirmed mark.\<close>

theorem nonce_sync_bounded:
  "case session_scope False (nonce_sync st ck b) d of (res, d') \<Rightarrow>
     \<forall>k. case map_of (db_nonces d) k of
        None \<Rightarrow> map_of (db_nonces d') k = None
      | Some r \<Rightarrow> map_of (db_nonces d') k = Some r \<or>
          (k = (nsb_wallet b, nsb_chain b) \<and>
           next_nonce r < nsb_on_chain_count b \<and> nsb_on_chain_count b \<le> next_nonce r + fwd_nonce_sync_max_advance st \<and>
           map_of (db_nonces d') k = Some (r\<lparr>next_nonce := nsb_on_chain_count b,
             last_confirmed := Some (nsb_on_chain_count b - 1)\<rparr>))"
proof -
  obtain res d' where run: "session_scope False (nonce_sync st ck b) d = (res, d')" by fastforce
  from run show ?thesis
  proof (cases rule: nonce_sync_cases)
    case missing
    with audit_grownD(4) [OF missing(3)] run show ?thesis by (simp split: option.split)
  next
    case (bounds r)
    with audit_grownD(4) [OF bounds(4)] run show ?thesis by (simp split: option.split)
  next
    case (same r)
    with audit_grownD(4) [OF same(4)] run show ?thesis by (simp split: option.split)
  next
    case (advanced r)
    with audit_grownD(4) [OF advanced(5)] run show ?thesis
      by (auto simp: synced_def set_next_nonce_def table_simps split: option.split)
  qed
qed

end
