(* ===== verification/Accounts_Admin.thy ===== *)
theory Accounts_Admin
  imports Nonce_Admin Policy_Schema
begin

section \<open>Caller and wallet administration\<close>

text \<open>
  The use cases \<open>app/caller_create.py\<close>, \<open>caller_revoke.py\<close>, \<open>caller_list.py\<close>,
  \<open>wallet_create.py\<close>, \<open>wallet_import.py\<close>, \<open>wallet_list.py\<close>, \<open>capability_list.py\<close> with the
  signer's provisioning half (\<open>infra/envelope_signer.py\<close>) and the endpoints \<open>api/callers.py\<close> and
  \<open>api/wallets.py\<close>.  The random key, argon2, the fresh account, encryption, address derivation, the
  key file and the outcome of \<open>shred\<close> are parameters.
\<close>

subsection \<open>Names\<close>

text \<open>\<open>^[a-z0-9][a-z0-9_-]{0,63}$\<close> and the capability pattern with Python's \<open>$\<close>.\<close>

definition name_match :: "string \<Rightarrow> bool" where
  "name_match s = (let v = chop_newline s in
     v \<noteq> [] \<and> length v \<le> 64 \<and> is_lower_alnum (hd v) \<and>
     list_all (\<lambda>c. is_lower_alnum c \<or> c = CHR ''_'' \<or> c = CHR ''-'') v)"

definition capability_match :: "string \<Rightarrow> bool" where
  "capability_match s = capability_id_matches (chop_newline s)"

definition policy_path_exists :: "policy \<Rightarrow> string \<Rightarrow> string \<Rightarrow> bool" where
  "policy_path_exists p policy_path kind =
     (if kind = ''caller''
      then map_of (p_permissions p) policy_path \<noteq> None \<or> map_of (p_fsp_permissions p) policy_path \<noteq> None \<or>
        map_of (p_native_transfers p) policy_path \<noteq> None
      else if kind = ''wallet'' then map_of (p_wallet_constraints p) policy_path \<noteq> None
      else False)"

subsection \<open>Callers\<close>

record caller_create_request =
  ccr_name :: string
  ccr_policy_path :: string
  ccr_replace :: bool
  ccr_capability_id :: "string option"

record caller_create_result =
  ccs_name :: string
  ccs_api_key :: string
  ccs_api_key_prefix :: string
  ccs_policy_path :: string
  ccs_capability_id :: "string option"

definition caller_create_fields :: "caller_create_request \<Rightarrow> (string \<times> json) list" where
  "caller_create_fields r = [(''name'', JStr (ccr_name r)), (''policy_path'', JStr (ccr_policy_path r)),
     (''replace'', JBool (ccr_replace r)), (''capability_id'', json_opt (ccr_capability_id r))]"

definition create_caller ::
  "(string \<Rightarrow> string) \<Rightarrow> string \<Rightarrow> clock \<Rightarrow> caller_create_request \<Rightarrow> (session, caller_create_result) op" where
  "create_caller argon2_hash random_part ck r =
     bindM (ofSum (generate_api_key argon2_hash random_part)) (\<lambda>g.
     bindM (catchM (on_callers (caller_create (ck_row ck) (ccr_name r) (gk_key_hash g) (gk_key_prefix g)
         (ccr_policy_path r) (ccr_replace r)))
       (\<lambda>e. case e of
          CallerExistsError n \<Rightarrow> json_refuse ck ''caller-create'' ''error'' None (caller_create_fields r)
            (''CallerExistsError: '' @ n) None (CallerNameTaken (ccr_name r))
        | _ \<Rightarrow> raise e)) (\<lambda>c.
     thenM (json_audit ck ''caller-create'' ''approved'' None (caller_create_fields r) None
         (Some [(''api_key_prefix'', JStr (c_api_key_prefix c))]))
       (ret \<lparr>ccs_name = c_name c, ccs_api_key = gk_key g, ccs_api_key_prefix = c_api_key_prefix c,
             ccs_policy_path = c_policy_path c, ccs_capability_id = ccr_capability_id r\<rparr>)))"

definition revoke_caller :: "clock \<Rightarrow> string \<Rightarrow> (session, unit) op" where
  "revoke_caller ck name =
     bindM (catchM (on_callers (caller_revoke (ck_now ck) name))
       (\<lambda>e. case e of
          CallerNotFoundError n \<Rightarrow> json_refuse ck ''caller-revoke'' ''error'' None [(''name'', JStr name)]
            (''CallerNotFoundError: '' @ n) None (CallerNotFound name)
        | CallerAlreadyRevokedError n \<Rightarrow> json_refuse ck ''caller-revoke'' ''error'' None [(''name'', JStr name)]
            (''CallerAlreadyRevokedError: '' @ n) None (CallerAlreadyRevoked name)
        | _ \<Rightarrow> raise e)) (\<lambda>_.
     thenM (json_audit ck ''caller-revoke'' ''approved'' None [(''name'', JStr name)] None None) (ret ()))"

definition list_callers :: "bool \<Rightarrow> (session, caller list) op" where
  "list_callers include_revoked = on_callers (caller_list_all include_revoked)"

record caller_body =
  cab_name :: string
  cab_policy_path :: string
  cab_replace :: bool
  cab_capability_id :: "string option"

definition caller_body_valid :: "caller_body \<Rightarrow> bool" where
  "caller_body_valid b \<longleftrightarrow> 1 \<le> length (cab_name b) \<and> length (cab_name b) \<le> 64 \<and>
     1 \<le> length (cab_policy_path b) \<and> length (cab_policy_path b) \<le> 128 \<and>
     (case cab_capability_id b of None \<Rightarrow> True | Some s \<Rightarrow> length s \<le> 128)"

definition caller_http :: "exn \<Rightarrow> exn" where
  "caller_http e = (case e of
     CallerNameTaken _ \<Rightarrow> HTTPException 409 ''caller_exists''
   | CallerNotFound _ \<Rightarrow> HTTPException 404 ''caller_not_found''
   | CallerAlreadyRevoked _ \<Rightarrow> HTTPException 409 ''caller_already_revoked''
   | _ \<Rightarrow> e)"

definition callers_handler ::
  "policy option \<Rightarrow> (string \<Rightarrow> string) \<Rightarrow> string \<Rightarrow> bool \<Rightarrow> clock \<Rightarrow> caller_body \<Rightarrow> (db, caller_create_result) op" where
  "callers_handler policy argon2_hash random_part vault ck b =
     (if \<not> name_match (cab_name b) then raise (HTTPException 400 ''invalid_name'')
      else if (case cab_capability_id b of None \<Rightarrow> False | Some s \<Rightarrow> \<not> capability_match s)
      then raise (HTTPException 400 ''invalid_capability_id'')
      else if (case policy of None \<Rightarrow> False | Some p \<Rightarrow> \<not> policy_path_exists p (cab_policy_path b) ''caller'')
      then raise (HTTPException 400 ''unknown_policy_path'')
      else catchM (sealed_scope vault (create_caller argon2_hash random_part ck
          \<lparr>ccr_name = cab_name b, ccr_policy_path = cab_policy_path b, ccr_replace = cab_replace b,
           ccr_capability_id = cab_capability_id b\<rparr>))
        (\<lambda>e. raise (caller_http e)))"

definition post_callers ::
  "string \<Rightarrow> policy option \<Rightarrow> (string \<Rightarrow> string) \<Rightarrow> string \<Rightarrow> bool \<Rightarrow> clock \<Rightarrow> string option \<Rightarrow> caller_body \<Rightarrow>
   (db, caller_create_result) op" where
  "post_callers expected policy argon2_hash random_part vault ck authorization b =
     admin_guarded expected authorization (caller_body_valid b)
       (callers_handler policy argon2_hash random_part vault ck b)"

definition delete_caller :: "string \<Rightarrow> bool \<Rightarrow> clock \<Rightarrow> string option \<Rightarrow> string \<Rightarrow> (db, unit) op" where
  "delete_caller expected vault ck authorization name =
     admin_guarded expected authorization True
       (catchM (sealed_scope vault (revoke_caller ck name)) (\<lambda>e. raise (caller_http e)))"

text \<open>The listing drops the key hash and joins the capability of the live policy.\<close>

record caller_summary =
  cs_name :: string
  cs_api_key_prefix :: string
  cs_policy_path :: string
  cs_created_at :: datetime
  cs_revoked_at :: "datetime option"
  cs_capability_id :: "string option"

definition policy_capability :: "policy option \<Rightarrow> string \<Rightarrow> string option" where
  "policy_capability policy name =
     (case policy of
        None \<Rightarrow> None
      | Some p \<Rightarrow> (case map_of (p_callers p) name of None \<Rightarrow> None | Some b \<Rightarrow> cb_capability_id b))"

definition caller_summary_of :: "policy option \<Rightarrow> caller \<Rightarrow> caller_summary" where
  "caller_summary_of policy c = \<lparr>cs_name = c_name c, cs_api_key_prefix = c_api_key_prefix c,
     cs_policy_path = c_policy_path c, cs_created_at = c_created_at c, cs_revoked_at = c_revoked_at c,
     cs_capability_id = policy_capability policy (c_name c)\<rparr>"

definition list_callers_endpoint ::
  "string \<Rightarrow> policy option \<Rightarrow> string option \<Rightarrow> (db, caller_summary list) op" where
  "list_callers_endpoint expected policy authorization =
     admin_guarded expected authorization True
       (bindM (session_scope True (list_callers True)) (\<lambda>cs. ret (map (caller_summary_of policy) cs)))"

record granted_capability =
  gc_capability_id :: string
  gc_caller_name :: string
  gc_policy_path :: string
  gc_status :: string
  gc_granted_at :: "datetime option"
  gc_revoked_at :: "datetime option"

definition granted_row :: "caller list \<Rightarrow> string \<times> caller_binding \<Rightarrow> granted_capability option" where
  "granted_row callers nb = (case nb of (name, binding) \<Rightarrow>
     (case cb_capability_id binding of
        None \<Rightarrow> None
      | Some cid \<Rightarrow> Some (
          case find (\<lambda>c. c_name c = name) (rev callers) of
            None \<Rightarrow> \<lparr>gc_capability_id = cid, gc_caller_name = name, gc_policy_path = cb_policy_path binding,
              gc_status = ''active'', gc_granted_at = None, gc_revoked_at = None\<rparr>
          | Some c \<Rightarrow> \<lparr>gc_capability_id = cid, gc_caller_name = name, gc_policy_path = cb_policy_path binding,
              gc_status = (if c_revoked_at c \<noteq> None then ''revoked'' else ''active''),
              gc_granted_at = Some (c_created_at c), gc_revoked_at = c_revoked_at c\<rparr>)))"

definition list_capabilities :: "policy option \<Rightarrow> (session, granted_capability list) op" where
  "list_capabilities policy =
     (case policy of
        None \<Rightarrow> ret []
      | Some p \<Rightarrow> bindM (on_callers (caller_list_all True)) (\<lambda>callers.
          ret (sort_key gc_capability_id (List.map_filter (granted_row callers) (p_callers p)))))"

definition list_capabilities_endpoint ::
  "string \<Rightarrow> policy option \<Rightarrow> string option \<Rightarrow> (db, granted_capability list) op" where
  "list_capabilities_endpoint expected policy authorization =
     admin_guarded expected authorization True (session_scope True (list_capabilities policy))"

subsection \<open>Provisioning wallets\<close>

text \<open>The sealed master's encryption, \<open>Account.create\<close>, \<open>Account.from_key\<close> and the checksum.\<close>

record provision_lib =
  pl_encrypt :: "byte list \<Rightarrow> exn + string"
  pl_address_of :: "byte list \<Rightarrow> exn + string"
  pl_checksum :: "string \<Rightarrow> string"

definition signer_create_wallet ::
  "provision_lib \<Rightarrow> byte list \<times> string \<Rightarrow> clock \<Rightarrow> string \<Rightarrow> string \<Rightarrow> (session, wallet) op" where
  "signer_create_wallet lib account ck name policy_path =
     bindM (ofSum (pl_encrypt lib (fst account))) (\<lambda>ciphertext.
     on_wallets (wallet_create (ck_row ck) name (pl_checksum lib (snd account)) ciphertext ''local:v1'' policy_path))"

definition signer_import_wallet ::
  "provision_lib \<Rightarrow> clock \<Rightarrow> string \<Rightarrow> byte list \<Rightarrow> string \<Rightarrow> string option \<Rightarrow> (session, wallet) op" where
  "signer_import_wallet lib ck name key policy_path expected =
     (if length key \<noteq> 32 then raise (WalletImportInvalidLength (int (length key)))
      else bindM (ofSum (pl_address_of lib key)) (\<lambda>address.
        let derived = pl_checksum lib address in
        if (case expected of None \<Rightarrow> False | Some x \<Rightarrow> py_lower derived \<noteq> py_lower x)
        then raise (WalletAddressMismatch (case expected of None \<Rightarrow> [] | Some x \<Rightarrow> x) derived)
        else bindM (ofSum (pl_encrypt lib key)) (\<lambda>ciphertext.
          on_wallets (wallet_create (ck_row ck) name derived ciphertext ''local:v1'' policy_path))))"

text \<open>Creating a wallet; \<open>seal_text\<close> is the message of the \<open>SealError\<close>.\<close>

definition wallet_create_fields :: "string \<Rightarrow> string \<Rightarrow> (string \<times> json) list" where
  "wallet_create_fields name policy_path = [(''name'', JStr name), (''policy_path'', JStr policy_path)]"

definition create_wallet ::
  "provision_lib \<Rightarrow> byte list \<times> string \<Rightarrow> string \<Rightarrow> clock \<Rightarrow> string \<Rightarrow> string \<Rightarrow> (session, string \<times> string) op" where
  "create_wallet lib account seal_text ck name policy_path =
     bindM (catchM (signer_create_wallet lib account ck name policy_path)
       (\<lambda>e. case e of
          WalletExistsError n \<Rightarrow> json_refuse ck ''wallet-create'' ''error'' None
            (wallet_create_fields name policy_path) (''WalletExistsError: '' @ n) None (WalletNameTaken name)
        | SealError \<Rightarrow> json_refuse ck ''wallet-create'' ''error'' None
            (wallet_create_fields name policy_path) (''SealError: '' @ seal_text) None ScopeVaultUnavailableError
        | _ \<Rightarrow> raise e)) (\<lambda>w.
     thenM (json_audit ck ''wallet-create'' ''approved'' None (wallet_create_fields name policy_path) None
         (Some [(''address'', JStr (w_address w))]))
       (ret (w_name w, w_address w)))"

definition list_wallets :: "(session, wallet list) op" where
  "list_wallets = on_wallets wallet_list_all"

record wallet_body =
  wab_name :: string
  wab_policy_path :: string

definition wallet_body_valid :: "wallet_body \<Rightarrow> bool" where
  "wallet_body_valid b \<longleftrightarrow> 1 \<le> length (wab_name b) \<and> length (wab_name b) \<le> 64 \<and>
     1 \<le> length (wab_policy_path b) \<and> length (wab_policy_path b) \<le> 128"

definition wallet_http :: "exn \<Rightarrow> exn" where
  "wallet_http e = (case e of
     WalletNameTaken _ \<Rightarrow> HTTPException 409 ''wallet_exists''
   | ScopeVaultUnavailableError \<Rightarrow> HTTPException 503 ''vault_unavailable''
   | _ \<Rightarrow> e)"

definition wallets_handler ::
  "policy option \<Rightarrow> provision_lib \<Rightarrow> byte list \<times> string \<Rightarrow> string \<Rightarrow> bool \<Rightarrow> clock \<Rightarrow> wallet_body \<Rightarrow>
   (db, string \<times> string) op" where
  "wallets_handler policy lib account seal_text vault ck b =
     (if \<not> name_match (wab_name b) then raise (HTTPException 400 ''invalid_name'')
      else if (case policy of None \<Rightarrow> False | Some p \<Rightarrow> \<not> policy_path_exists p (wab_policy_path b) ''wallet'')
      then raise (HTTPException 400 ''unknown_policy_path'')
      else catchM (sealed_scope vault (create_wallet lib account seal_text ck (wab_name b) (wab_policy_path b)))
        (\<lambda>e. raise (wallet_http e)))"

definition post_wallets ::
  "string \<Rightarrow> policy option \<Rightarrow> provision_lib \<Rightarrow> byte list \<times> string \<Rightarrow> string \<Rightarrow> bool \<Rightarrow> clock \<Rightarrow> string option \<Rightarrow>
   wallet_body \<Rightarrow> (db, string \<times> string) op" where
  "post_wallets expected policy lib account seal_text vault ck authorization b =
     admin_guarded expected authorization (wallet_body_valid b)
       (wallets_handler policy lib account seal_text vault ck b)"

record wallet_summary =
  ws_name :: string
  ws_address :: string
  ws_policy_path :: string
  ws_created_at :: datetime

definition wallet_summary_of :: "wallet \<Rightarrow> wallet_summary" where
  "wallet_summary_of w = \<lparr>ws_name = w_name w, ws_address = w_address w, ws_policy_path = w_policy_path w,
     ws_created_at = w_created_at w\<rparr>"

definition list_wallets_endpoint :: "string \<Rightarrow> string option \<Rightarrow> (db, wallet_summary list) op" where
  "list_wallets_endpoint expected authorization =
     admin_guarded expected authorization True
       (bindM (session_scope False list_wallets) (\<lambda>ws. ret (map wallet_summary_of ws)))"

subsection \<open>Importing a wallet from a key file\<close>

text \<open>The file at the path, if there is one; \<open>pf_text\<close> is \<open>None\<close> when it is not ASCII.\<close>

record privkey_file =
  pf_mode :: nat
  pf_uid :: int
  pf_text :: "string option"

record import_request =
  ir_name :: string
  ir_policy_path :: string
  ir_path :: string
  ir_expected_address :: "string option"
  ir_shred_source :: bool

definition import_fields :: "import_request \<Rightarrow> (string \<times> json) list" where
  "import_fields r = [(''name'', JStr (ir_name r)), (''policy_path'', JStr (ir_policy_path r)),
     (''source_file'', JStr (ir_path r))]"

text \<open>\<open>f"{mode:04o}"\<close>.\<close>

fun octal_digits :: "nat \<Rightarrow> string" where
  "octal_digits n = (if n < 8 then [digit_char n] else octal_digits (n div 8) @ [digit_char (n mod 8)])"

declare octal_digits.simps [simp del]

definition octal4 :: "nat \<Rightarrow> string" where
  "octal4 n = replicate (4 - length (octal_digits n)) CHR ''0'' @ octal_digits n"

text \<open>\<open>f"{type(exc).__name__}: {exc}"\<close>.\<close>

definition import_text :: "exn \<Rightarrow> string" where
  "import_text e = (case e of
     PrivkeyFileNotFound p \<Rightarrow> ''PrivkeyFileNotFound: '' @ p
   | PrivkeyFileBadMode m \<Rightarrow> ''PrivkeyFileBadMode: privkey-file mode must be 0600 (got '' @ m @ '')''
   | PrivkeyFileBadOwner f u \<Rightarrow>
       ''PrivkeyFileBadOwner: privkey-file must be owned by the user running clifwd (file_owner='' @ str_int f @
       '', current_user='' @ str_int u @ '')''
   | PrivkeyFileBadContent n \<Rightarrow>
       ''PrivkeyFileBadContent: privkey-file must contain a 32-byte hex-encoded secp256k1 private key (got '' @
       str_int n @ '' bytes)''
   | WalletExistsError n \<Rightarrow> ''WalletExistsError: '' @ n
   | WalletImportInvalidLength n \<Rightarrow> ''WalletImportInvalidLength: buffer length '' @ str_int n
   | WalletAddressMismatch x d \<Rightarrow>
       ''WalletAddressMismatch: derived address '' @ d @ '' does not match --expected-address '' @ x
   | _ \<Rightarrow> [])"

definition import_refuse :: "clock \<Rightarrow> import_request \<Rightarrow> exn \<Rightarrow> exn \<Rightarrow> (session, 'a) op" where
  "import_refuse ck r cause e =
     json_refuse ck ''wallet-import'' ''error'' None (import_fields r) (import_text cause) None e"

text \<open>1 to 4. The refusal table; the result is the key.\<close>

definition import_checks :: "int \<Rightarrow> clock \<Rightarrow> import_request \<Rightarrow> privkey_file option \<Rightarrow> (session, byte list) op" where
  "import_checks uid ck r file =
     (let refuse1 = (\<lambda>e. import_refuse ck r e e) in
      case file of
        None \<Rightarrow> refuse1 (PrivkeyFileNotFound (ir_path r))
      | Some f \<Rightarrow>
          if pf_mode f \<noteq> 384 then refuse1 (PrivkeyFileBadMode (octal4 (pf_mode f)))
          else if pf_uid f \<noteq> uid then refuse1 (PrivkeyFileBadOwner (pf_uid f) uid)
          else case pf_text f of
            None \<Rightarrow> raise (ValueError ''ascii'')
          | Some text \<Rightarrow>
              (let content = py_strip text in
               case bytes_fromhex content of
                 None \<Rightarrow> refuse1 (PrivkeyFileBadContent (int (length content)))
               | Some key \<Rightarrow>
                   if length key \<noteq> 32 then refuse1 (PrivkeyFileBadContent (int (length key)))
                   else ret key))"

text \<open>5. Encrypt and persist.\<close>

definition import_stage ::
  "provision_lib \<Rightarrow> clock \<Rightarrow> import_request \<Rightarrow> byte list \<Rightarrow> (session, wallet) op" where
  "import_stage lib ck r key =
     catchM (signer_import_wallet lib ck (ir_name r) key (ir_policy_path r) (ir_expected_address r))
       (\<lambda>e. case e of
          WalletExistsError n \<Rightarrow> import_refuse ck r e (WalletNameTakenImport (ir_name r))
        | WalletImportInvalidLength n \<Rightarrow> import_refuse ck r e (PrivkeyFileBadContent n)
        | WalletAddressMismatch x derived \<Rightarrow> import_refuse ck r e e
        | _ \<Rightarrow> raise e)"

text \<open>6. Shred the source when asked to, then the approved row; \<open>shredded\<close> is whether that worked.\<close>

definition import_wallet ::
  "provision_lib \<Rightarrow> int \<Rightarrow> bool \<Rightarrow> clock \<Rightarrow> import_request \<Rightarrow> privkey_file option \<Rightarrow> (session, wallet) op" where
  "import_wallet lib uid shredded ck r file =
     bindM (import_checks uid ck r file) (\<lambda>key.
     bindM (import_stage lib ck r key) (\<lambda>w.
     if ir_shred_source r \<and> \<not> shredded then raise (ShredSourceFailed (ir_path r))
     else thenM (json_audit ck ''wallet-import'' ''approved'' None (import_fields r) None
         (Some [(''address'', JStr (w_address w))]))
       (ret w)))"

text \<open>The command runs the use case in the admin scope.\<close>

definition wallets_import ::
  "provision_lib \<Rightarrow> int \<Rightarrow> bool \<Rightarrow> bool \<Rightarrow> clock \<Rightarrow> import_request \<Rightarrow> privkey_file option \<Rightarrow> (db, wallet) op" where
  "wallets_import lib uid shredded vault ck r file = sealed_scope vault (import_wallet lib uid shredded ck r file)"

end
