(* ===== verification/Accounts_Correct.thy ===== *)
theory Accounts_Correct
  imports Accounts_Admin Nonce_Correct Sign_Properties
begin

section \<open>What caller and wallet administration does\<close>

text \<open>Case rules for the four writing use cases, and the properties: what they change, that no secret
  reaches the audit log, that a revoked caller is locked out, that every admin endpoint needs the admin
  key, and what a failed shred does to an import.\<close>

lemma account_words:
  "''caller-create'' \<in> set valid_actions" "''caller-revoke'' \<in> set valid_actions"
  "''wallet-create'' \<in> set valid_actions" "''wallet-import'' \<in> set valid_actions"
  by (simp_all add: valid_actions_def)

subsection \<open>A mutation followed by its approved row\<close>

text \<open>The shape the use cases share: one repository operation whose exceptions are refused or re-raised,
  then one approved row, then the result.\<close>

lemma mutation_cases:
  assumes words: "action \<in> set valid_actions"
    and pure: "\<And>e t. m (open_session d) = (Inl e, t) \<Longrightarrow> t = open_session d"
    and guards: "\<And>e. guarding action (h e)" "\<And>e v s. h e (open_session d) \<noteq> (Inr v, s)"
    and run: "session_scope False (bindM (catchM m h) (\<lambda>x.
       thenM (json_audit ck action ''approved'' name request reason (outcome x)) (ret (result x)))) d = (res, d')"
  obtains (refused) e e' where "m (open_session d) = (Inl e', open_session d)" "res = Inl e" "audit_refused action d d'"
  | (approved) x s where "m (open_session d) = (Inr x, s)" "res = Inr (result x)"
      "audit_grown action ''approved'' (work s) d'"
proof -
  obtain r s where m: "m (open_session d) = (r, s)" by fastforce
  show thesis
  proof (cases r)
    case (Inl e)
    with m pure have s: "s = open_session d" by simp
    obtain r' t where h: "h e (open_session d) = (r', t)" by fastforce
    with guards(2) obtain e2 where e2: "r' = Inl e2" by (cases r') auto
    from h e2 guards(1) have "audit_refused action d (durable t)"
      unfolding guarding_def by (blast dest: refusingD)
    with m Inl s h e2 run show thesis
      by (intro refused) (auto simp: session_scope_def bindM_run)
  next
    case (Inr x)
    obtain u where "thenM (json_audit ck action ''approved'' name request reason (outcome x)) (ret (result x)) s =
        (Inr (result x), s\<lparr>work := u\<rparr>)" "audit_grown action ''approved'' (work s) u"
      using audited_step [OF words decision_words(1), of ck name request reason "outcome x" "result x" s] by blast
    with m Inr run show thesis by (intro approved) (auto simp: session_scope_def)
  qed
qed

lemma json_refuse_bottom:
  "json_refuse ck action decision name request reason outcome e s \<noteq> (Inr v, t)"
  by (rule json_refuse_not_Inr)

lemma on_run_Inl:
  "on_callers m2 s = (Inl e, t) \<Longrightarrow> (\<And>e v. m2 (db_callers (work s)) = (Inl e, v) \<Longrightarrow> v = db_callers (work s)) \<Longrightarrow> t = s"
  "on_wallets m1 s = (Inl e, t) \<Longrightarrow> (\<And>e v. m1 (db_wallets (work s)) = (Inl e, v) \<Longrightarrow> v = db_wallets (work s)) \<Longrightarrow> t = s"
  by (auto simp: on_run split: prod.splits)

subsection \<open>Callers\<close>

lemma create_caller_cases:
  assumes "session_scope False (create_caller argon2 rnd ck r) d = (res, d')"
  obtains (refused) e where "res = Inl e" "audit_refused ''caller-create'' d d'"
  | (created) g row t where "generate_api_key argon2 rnd = Inr g"
      "caller_create (ck_row ck) (ccr_name r) (gk_key_hash g) (gk_key_prefix g) (ccr_policy_path r) (ccr_replace r)
         (db_callers d) = (Inr row, t)"
      "res = Inr \<lparr>ccs_name = c_name row, ccs_api_key = gk_key g, ccs_api_key_prefix = c_api_key_prefix row,
         ccs_policy_path = c_policy_path row, ccs_capability_id = ccr_capability_id r\<rparr>"
      "audit_grown ''caller-create'' ''approved'' (d\<lparr>db_callers := t\<rparr>) d'"
proof (cases "generate_api_key argon2 rnd")
  case (Inl e)
  with assms have "res = Inl e" "d' = d"
    by (auto simp: create_caller_def session_scope_def)
  then show thesis by (intro refused) (simp_all add: audit_refused_def)
next
  case (Inr g)
  let ?m = "on_callers (caller_create (ck_row ck) (ccr_name r) (gk_key_hash g) (gk_key_prefix g)
         (ccr_policy_path r) (ccr_replace r))"
  let ?h = "\<lambda>e. (case e of
          CallerExistsError n \<Rightarrow> json_refuse ck ''caller-create'' ''error'' None (caller_create_fields r)
            (''CallerExistsError: '' @ n) None (CallerNameTaken (ccr_name r))
        | _ \<Rightarrow> raise e) :: (session, caller) op"
  have run: "session_scope False (bindM (catchM ?m ?h) (\<lambda>c.
      thenM (json_audit ck ''caller-create'' ''approved'' None (caller_create_fields r) None
         (Some [(''api_key_prefix'', JStr (c_api_key_prefix c))]))
       (ret \<lparr>ccs_name = c_name c, ccs_api_key = gk_key g, ccs_api_key_prefix = c_api_key_prefix c,
             ccs_policy_path = c_policy_path c, ccs_capability_id = ccr_capability_id r\<rparr>))) d = (res, d')"
    using assms Inr by (simp add: create_caller_def session_scope_def bindM_run)
  have same: "t = open_session d" if "?m (open_session d) = (Inl e, t)" for e t
    using that by (rule on_run_Inl) (auto elim: caller_create_cases)
  have g: "guarding ''caller-create'' (?h e)" "?h e (open_session d) \<noteq> (Inr v, s)" for e v s
    by (cases e; simp add: guarding_basic guarding_refuse account_words json_refuse_not_Inr)+
  from account_words(1) same g run show thesis
  proof (rule mutation_cases)
    fix e e' assume "res = Inl e" "audit_refused ''caller-create'' d d'"
    then show thesis by (rule refused)
  next
    fix x s
    assume m: "?m (open_session d) = (Inr x, s)" and res: "res = Inr \<lparr>ccs_name = c_name x, ccs_api_key = gk_key g,
        ccs_api_key_prefix = c_api_key_prefix x, ccs_policy_path = c_policy_path x, ccs_capability_id = ccr_capability_id r\<rparr>"
      and g: "audit_grown ''caller-create'' ''approved'' (work s) d'"
    from m obtain t where "caller_create (ck_row ck) (ccr_name r) (gk_key_hash g) (gk_key_prefix g) (ccr_policy_path r)
        (ccr_replace r) (db_callers d) = (Inr x, t)" "work s = d\<lparr>db_callers := t\<rparr>"
      by (auto simp: on_run put_callers_def split: prod.splits)
    with Inr res g show thesis by (intro created) simp_all
  qed
qed

lemma revoke_caller_cases:
  assumes "session_scope False (revoke_caller ck name) d = (res, d')"
  obtains (refused) e where "res = Inl e" "audit_refused ''caller-revoke'' d d'"
  | (revoked) c t where "caller_revoke (ck_now ck) name (db_callers d) = (Inr c, t)" "res = Inr ()"
      "audit_grown ''caller-revoke'' ''approved'' (d\<lparr>db_callers := t\<rparr>) d'"
proof -
  let ?m = "on_callers (caller_revoke (ck_now ck) name)"
  let ?h = "\<lambda>e. (case e of
          CallerNotFoundError n \<Rightarrow> json_refuse ck ''caller-revoke'' ''error'' None [(''name'', JStr name)]
            (''CallerNotFoundError: '' @ n) None (CallerNotFound name)
        | CallerAlreadyRevokedError n \<Rightarrow> json_refuse ck ''caller-revoke'' ''error'' None [(''name'', JStr name)]
            (''CallerAlreadyRevokedError: '' @ n) None (CallerAlreadyRevoked name)
        | _ \<Rightarrow> raise e) :: (session, caller) op"
  note run = assms [unfolded revoke_caller_def]
  have same: "t = open_session d" if "?m (open_session d) = (Inl e, t)" for e t
    using that by (rule on_run_Inl) (auto simp: caller_revoke_run split: option.splits if_splits)
  have g: "guarding ''caller-revoke'' (?h e)" "?h e (open_session d) \<noteq> (Inr v, s)" for e v s
    by (cases e; simp add: guarding_basic guarding_refuse account_words json_refuse_not_Inr)+
  from account_words(2) same g run show thesis
  proof (rule mutation_cases)
    fix e e' assume "res = Inl e" "audit_refused ''caller-revoke'' d d'"
    then show thesis by (rule refused)
  next
    fix x s
    assume m: "?m (open_session d) = (Inr x, s)" and res: "res = Inr ()"
      and g: "audit_grown ''caller-revoke'' ''approved'' (work s) d'"
    from m obtain t where "caller_revoke (ck_now ck) name (db_callers d) = (Inr x, t)" "work s = d\<lparr>db_callers := t\<rparr>"
      by (auto simp: on_run put_callers_def split: prod.splits)
    with res g show thesis by (intro revoked) simp_all
  qed
qed

subsection \<open>Wallets\<close>

definition new_wallet :: "provision_lib \<Rightarrow> clock \<Rightarrow> string \<Rightarrow> string \<Rightarrow> string \<Rightarrow> string \<Rightarrow> wallet" where
  "new_wallet lib ck name address ciphertext policy_path =
     \<lparr>w_name = name, w_address = pl_checksum lib address, w_privkey_ciphertext = ciphertext,
      w_vault_master_key = ''local:v1'', w_policy_path = policy_path, w_created_at = ck_row ck\<rparr>"

lemma signer_create_wallet_run:
  "signer_create_wallet lib account ck name pp s =
     (case pl_encrypt lib (fst account) of
        Inl e \<Rightarrow> (Inl e, s)
      | Inr ct \<Rightarrow>
          if find_wallet name (db_wallets (work s)) \<noteq> None then (Inl (WalletExistsError name), s)
          else (let w = new_wallet lib ck name (snd account) ct pp in
            (Inr w, put_wallets (db_wallets (work s) @ [w]) s)))"
  by (simp add: signer_create_wallet_def bindM_run on_run wallet_create_run new_wallet_def Let_def split: sum.split)

lemma create_wallet_cases:
  assumes "session_scope False (create_wallet lib account seal_text ck name pp) d = (res, d')"
  obtains (refused) e where "res = Inl e" "audit_refused ''wallet-create'' d d'"
  | (created) ct where "pl_encrypt lib (fst account) = Inr ct" "find_wallet name (db_wallets d) = None"
      "res = Inr (name, pl_checksum lib (snd account))"
      "audit_grown ''wallet-create'' ''approved''
         (d\<lparr>db_wallets := db_wallets d @ [new_wallet lib ck name (snd account) ct pp]\<rparr>) d'"
proof -
  let ?m = "signer_create_wallet lib account ck name pp"
  let ?h = "\<lambda>e. (case e of
          WalletExistsError n \<Rightarrow> json_refuse ck ''wallet-create'' ''error'' None
            (wallet_create_fields name pp) (''WalletExistsError: '' @ n) None (WalletNameTaken name)
        | SealError \<Rightarrow> json_refuse ck ''wallet-create'' ''error'' None
            (wallet_create_fields name pp) (''SealError: '' @ seal_text) None ScopeVaultUnavailableError
        | _ \<Rightarrow> raise e) :: (session, wallet) op"
  note run = assms [unfolded create_wallet_def]
  have same: "t = open_session d" if "?m (open_session d) = (Inl e, t)" for e t
    using that by (auto simp: signer_create_wallet_run Let_def split: sum.splits if_splits)
  have g: "guarding ''wallet-create'' (?h e)" "?h e (open_session d) \<noteq> (Inr v, s)" for e v s
    by (cases e; simp add: guarding_basic guarding_refuse account_words json_refuse_not_Inr)+
  from account_words(3) same g run show thesis
  proof (rule mutation_cases)
    fix e e' assume "res = Inl e" "audit_refused ''wallet-create'' d d'"
    then show thesis by (rule refused)
  next
    fix x s
    assume m: "?m (open_session d) = (Inr x, s)" and res: "res = Inr (w_name x, w_address x)"
      and g: "audit_grown ''wallet-create'' ''approved'' (work s) d'"
    from m obtain ct where "pl_encrypt lib (fst account) = Inr ct" "find_wallet name (db_wallets d) = None"
      "x = new_wallet lib ck name (snd account) ct pp" "work s = d\<lparr>db_wallets := db_wallets d @ [x]\<rparr>"
      by (auto simp: signer_create_wallet_run Let_def put_wallets_def split: sum.splits if_splits)
    with res g show thesis by (intro created [of ct]) (simp_all add: new_wallet_def)
  qed
qed

text \<open>What the refusal table accepts.\<close>

definition file_key :: "int \<Rightarrow> privkey_file option \<Rightarrow> byte list option" where
  "file_key uid kf =
     (case kf of
        None \<Rightarrow> None
      | Some f \<Rightarrow>
          if pf_mode f = 384 \<and> pf_uid f = uid
          then (case pf_text f of
             None \<Rightarrow> None
           | Some text \<Rightarrow>
               (case bytes_fromhex (py_strip text) of
                  Some key \<Rightarrow> if length key = 32 then Some key else None
                | None \<Rightarrow> None))
          else None)"

lemma import_checks_cases:
  obtains (refused) e s where "file_key uid kf = None" "import_checks uid ck r kf (open_session d) = (Inl e, s)"
      "audit_refused ''wallet-import'' d (durable s)"
  | (key) key where "file_key uid kf = Some key"
      "import_checks uid ck r kf (open_session d) = (Inr key, open_session d)"
proof -
  have ref: "\<exists>e' s. (import_refuse ck r e e :: (session, byte list) op) (open_session d) = (Inl e', s) \<and>
      audit_refused ''wallet-import'' d (durable s)" for e
    unfolding import_refuse_def
    using json_refuse_cases [OF account_words(4), of "''error''" ck None "import_fields r" "import_text e" None e
      "open_session d"] by (cases "(json_refuse ck ''wallet-import'' ''error'' None (import_fields r) (import_text e)
         None e :: (session, byte list) op) (open_session d)") auto
  have raised: "audit_refused ''wallet-import'' d (durable (open_session d))"
    by (simp add: audit_refused_def)
  have "(file_key uid kf = None \<and> (\<exists>e s. import_checks uid ck r kf (open_session d) = (Inl e, s) \<and>
           audit_refused ''wallet-import'' d (durable s))) \<or>
        (\<exists>key. file_key uid kf = Some key \<and>
           import_checks uid ck r kf (open_session d) = (Inr key, open_session d))"
    using ref raised
    by (auto simp: import_checks_def file_key_def Let_def split: option.split)
  with refused key show thesis by blast
qed

lemma signer_import_wallet_cases:
  assumes "signer_import_wallet lib ck name key pp x s = (res, s')"
  obtains (failed) e where "res = Inl e" "s' = s"
  | (stored) a ct where "length key = 32" "pl_address_of lib key = Inr a" "pl_encrypt lib key = Inr ct"
      "case x of None \<Rightarrow> True | Some y \<Rightarrow> py_lower (pl_checksum lib a) = py_lower y"
      "find_wallet name (db_wallets (work s)) = None" "res = Inr (new_wallet lib ck name a ct pp)"
      "s' = put_wallets (db_wallets (work s) @ [new_wallet lib ck name a ct pp]) s"
proof (cases "length key = 32 \<and> (\<exists>a ct. pl_address_of lib key = Inr a \<and> pl_encrypt lib key = Inr ct \<and>
    (case x of None \<Rightarrow> True | Some y \<Rightarrow> py_lower (pl_checksum lib a) = py_lower y) \<and>
    find_wallet name (db_wallets (work s)) = None)")
  case True
  then obtain a ct where "length key = 32" "pl_address_of lib key = Inr a" "pl_encrypt lib key = Inr ct"
      "case x of None \<Rightarrow> True | Some y \<Rightarrow> py_lower (pl_checksum lib a) = py_lower y"
      "find_wallet name (db_wallets (work s)) = None" by blast
  with assms show thesis
    by (intro stored [of a ct])
      (auto simp: signer_import_wallet_def bindM_run on_run wallet_create_run new_wallet_def Let_def split: option.splits)
next
  case False
  with assms have "(\<exists>e. res = Inl e) \<and> s' = s"
    by (auto simp: signer_import_wallet_def bindM_run on_run wallet_create_run Let_def
        split: option.splits sum.splits if_splits)
  then show thesis using failed by blast
qed

lemma import_wallet_cases:
  assumes "session_scope False (import_wallet lib uid shredded ck r kf) d = (res, d')"
  obtains (refused) e where "res = Inl e" "audit_refused ''wallet-import'' d d'"
  | (imported) key a ct where "file_key uid kf = Some key" "pl_address_of lib key = Inr a"
      "pl_encrypt lib key = Inr ct"
      "case ir_expected_address r of None \<Rightarrow> True | Some y \<Rightarrow> py_lower (pl_checksum lib a) = py_lower y"
      "find_wallet (ir_name r) (db_wallets d) = None" "\<not> (ir_shred_source r \<and> \<not> shredded)"
      "res = Inr (new_wallet lib ck (ir_name r) a ct (ir_policy_path r))"
      "audit_grown ''wallet-import'' ''approved''
         (d\<lparr>db_wallets := db_wallets d @ [new_wallet lib ck (ir_name r) a ct (ir_policy_path r)]\<rparr>) d'"
proof (cases rule: import_checks_cases [where uid = uid and kf = kf and ck = ck and r = r and d = d])
  case (refused e s)
  with assms show thesis by (intro that(1)) (auto simp: import_wallet_def session_scope_def)
next
  case (key key)
  let ?m = "signer_import_wallet lib ck (ir_name r) key (ir_policy_path r) (ir_expected_address r)"
  let ?h = "\<lambda>e. (case e of
          WalletExistsError n \<Rightarrow> import_refuse ck r e (WalletNameTakenImport (ir_name r))
        | WalletImportInvalidLength n \<Rightarrow> import_refuse ck r e (PrivkeyFileBadContent n)
        | WalletAddressMismatch x derived \<Rightarrow> import_refuse ck r e e
        | _ \<Rightarrow> raise e) :: (session, wallet) op"
  have same: "t = open_session d" if "?m (open_session d) = (Inl e, t)" for e t
    using that by (cases rule: signer_import_wallet_cases) simp_all
  have g: "guarding ''wallet-import'' (?h e)" "?h e (open_session d) \<noteq> (Inr v, s)" for e v s
    by (cases e; simp add: import_refuse_def guarding_basic guarding_refuse account_words json_refuse_not_Inr)+
  show thesis
  proof (cases "ir_shred_source r \<and> \<not> shredded")
    case True
    have "refusing ''wallet-import'' (?h e)" for e using g(1) by (simp add: guarding_def)
    obtain q t where m: "?m (open_session d) = (q, t)" by fastforce
    have "(\<exists>e. res = Inl e) \<and> audit_refused ''wallet-import'' d d'"
    proof (cases q)
      case (Inl e)
      with m same have t: "t = open_session d" by simp
      obtain r' t' where h: "?h e (open_session d) = (r', t')" by fastforce
      with g(2) obtain e2 where e2: "r' = Inl e2" by (cases r') blast+
      with h g(1) have "audit_refused ''wallet-import'' d (durable t')"
        unfolding guarding_def by (blast dest: refusingD)
      moreover have "import_stage lib ck r key (open_session d) = (Inl e2, t')"
        using m Inl t h e2 by (simp add: import_stage_def)
      ultimately show ?thesis using assms key by (auto simp: import_wallet_def session_scope_def)
    next
      case (Inr w)
      then have "import_stage lib ck r key (open_session d) = (Inr w, t)"
        using m by (simp add: import_stage_def)
      moreover have "durable t = d"
        using m Inr by (cases rule: signer_import_wallet_cases) (simp_all add: put_wallets_def)
      ultimately show ?thesis
        using assms key True by (auto simp: import_wallet_def session_scope_def audit_refused_def)
    qed
    then show thesis using that(1) by blast
  next
    case False
    then have "session_scope False (bindM (catchM ?m ?h) (\<lambda>w.
       thenM (json_audit ck ''wallet-import'' ''approved'' None (import_fields r) None
         (Some [(''address'', JStr (w_address w))])) (ret w))) d = (res, d')"
      using assms key by (auto simp: import_wallet_def import_stage_def session_scope_def)
    with account_words(4) same g show thesis
    proof (rule mutation_cases)
      fix e e' assume "res = Inl e" "audit_refused ''wallet-import'' d d'"
      then show thesis by (rule that(1))
    next
      fix x s
      assume m: "?m (open_session d) = (Inr x, s)" and res: "res = Inr x"
        and g: "audit_grown ''wallet-import'' ''approved'' (work s) d'"
      from m show thesis
      proof (cases rule: signer_import_wallet_cases)
        case (stored a ct)
        with res g key False show thesis by (intro that(2) [of key a ct]) (simp_all add: put_wallets_def)
      qed simp
    qed
  qed
qed

subsection \<open>Properties\<close>

text \<open>C30: revocation locks out: once a revocation has answered, no bearer token authenticates as that
  caller against the database it leaves, whichever key hash verifies it; and revoking changes no other
  caller and no other table.\<close>

theorem revoked_cannot_authenticate:
  assumes "session_scope False (revoke_caller ck name) d = (Inr (), d')"
  shows "(\<forall>c d''. authenticate verifies a d' = (Inr c, d'') \<longrightarrow> c_name c \<noteq> name) \<and>
    filter (\<lambda>c. c_name c \<noteq> name) (db_callers d') = filter (\<lambda>c. c_name c \<noteq> name) (db_callers d) \<and>
    db_txs d' = db_txs d \<and> db_nonces d' = db_nonces d \<and> db_rates d' = db_rates d \<and> db_wallets d' = db_wallets d"
  using assms
proof (cases rule: revoke_caller_cases)
  case (revoked c t)
  note g = audit_grownD [OF revoked(3)]
  have t: "t = map (\<lambda>c. if c_name c = name then c\<lparr>c_revoked_at := Some (ck_now ck)\<rparr> else c) (db_callers d)"
    using revoked(1) by (auto simp: caller_revoke_run split: option.splits if_splits)
  have tables: "db_callers d' = t" "db_txs d' = db_txs d" "db_nonces d' = db_nonces d" "db_rates d' = db_rates d"
    "db_wallets d' = db_wallets d" using g by simp_all
  have same: "filter (\<lambda>c. c_name c \<noteq> name) (map (\<lambda>c. if c_name c = name then c\<lparr>c_revoked_at := x\<rparr> else c) cs) =
      filter (\<lambda>c. c_name c \<noteq> name) cs" for x and cs :: "caller list"
    by (induction cs) auto
  show ?thesis
  proof (intro conjI allI impI)
    fix c d''
    assume "authenticate verifies a d' = (Inr c, d'')"
    then show "c_name c \<noteq> name"
    proof (cases rule: authenticate_cases)
      case (known c')
      then have c: "c \<in> set t" "c_revoked_at c = None" by (simp_all add: tables)
      then obtain c0 where "c = (if c_name c0 = name then c0\<lparr>c_revoked_at := Some (ck_now ck)\<rparr> else c0)"
        unfolding t set_map by blast
      with c(2) show ?thesis by (cases "c_name c0 = name") simp_all
    qed simp
  next
    show "filter (\<lambda>c. c_name c \<noteq> name) (db_callers d') = filter (\<lambda>c. c_name c \<noteq> name) (db_callers d)"
      unfolding tables(1) t by (rule same)
  qed (rule tables)+
qed simp

definition sample_revoked_db :: db where
  "sample_revoked_db = snd (session_scope False (revoke_caller sample_clock ''clif'') sample_db)"

lemma sample_revoke:
  "session_scope False (revoke_caller sample_clock ''clif'') sample_db = (Inr (), sample_revoked_db)"
proof -
  obtain res d' where run: "session_scope False (revoke_caller sample_clock ''clif'') sample_db = (res, d')" by fastforce
  have find: "find_caller ''clif'' (db_callers sample_db) = Some sample_sign_caller" "c_revoked_at sample_sign_caller = None"
    by (simp_all add: sample_db_def find_caller_def sample_sign_caller_def sample_caller_def)
  obtain d2 where "thenM (json_audit sample_clock ''caller-revoke'' ''approved'' None [(''name'', JStr ''clif'')] None None)
      (ret ()) (put_callers (snd (caller_revoke (ck_now sample_clock) ''clif'' (db_callers sample_db))) (open_session sample_db)) =
      (Inr (), d2)"
    using audited_step [OF account_words(2) decision_words(1), of sample_clock None "[(''name'', JStr ''clif'')]" None
      None "()" "put_callers (snd (caller_revoke (ck_now sample_clock) ''clif'' (db_callers sample_db)))
        (open_session sample_db)"] by blast
  then have "fst (session_scope False (revoke_caller sample_clock ''clif'') sample_db) = Inr ()"
    using find by (simp add: revoke_caller_def session_scope_def on_run caller_revoke_run catchM_def bindM_run)
  then show ?thesis by (simp add: sample_revoked_db_def prod_eq_iff)
qed

lemma revoked_cannot_authenticate_witness:
  "fst (authenticate sample_verifies (Some sample_bearer) sample_revoked_db) \<noteq> Inr sample_sign_caller"
proof
  assume "fst (authenticate sample_verifies (Some sample_bearer) sample_revoked_db) = Inr sample_sign_caller"
  then obtain d'' where "authenticate sample_verifies (Some sample_bearer) sample_revoked_db = (Inr sample_sign_caller, d'')"
    by (metis prod.collapse)
  with revoked_cannot_authenticate [OF sample_revoke] have "c_name sample_sign_caller \<noteq> ''clif''" by blast
  then show False by (simp add: sample_sign_caller_def sample_caller_def)
qed

text \<open>The row an approved step appends depends on the log and the step's words, on no other table.\<close>

lemma audited_scope:
  assumes "action \<in> set valid_actions"
    and "body (open_session d) = thenM (json_audit ck action ''approved'' name request reason outcome) (ret v) s"
    and "body' (open_session d) = thenM (json_audit ck action ''approved'' name request reason outcome) (ret v') s'"
    and "db_audit (work s) = db_audit d" "db_audit (work s') = db_audit d"
  shows "db_audit (snd (session_scope False body d)) = db_audit (snd (session_scope False body' d))"
proof -
  obtain m where m: "json_audit ck action ''approved'' name request reason outcome = on_audit m"
    by (simp add: json_audit_def)
  obtain row t where "json_audit ck action ''approved'' name request reason outcome (open_session d) = (Inr row, t)"
    using json_audit_run [OF assms(1) decision_words(1)] by blast
  then obtain u where "m (db_audit d) = (Inr row, u)" by (auto simp: m on_run split: prod.splits)
  with assms(2-5) show ?thesis
    by (simp add: m session_scope_def on_run put_audit_def)
qed

lemma wallet_audit_no_secret:
  assumes "pl_encrypt lib key = Inr ct" "pl_encrypt lib key' = Inr ct'"
  shows "db_audit (snd (session_scope False (create_wallet lib (key, addr) st ck name pp) d)) =
      db_audit (snd (session_scope False (create_wallet lib (key', addr) st ck name pp) d))"
proof (cases "find_wallet name (db_wallets d)")
  case None
  let ?s = "\<lambda>c. put_wallets (db_wallets d @ [new_wallet lib ck name addr c pp]) (open_session d)"
  have run: "create_wallet lib (k, addr) st ck name pp (open_session d) =
      thenM (json_audit ck ''wallet-create'' ''approved'' None (wallet_create_fields name pp) None
        (Some [(''address'', JStr (pl_checksum lib addr))])) (ret (name, pl_checksum lib addr)) (?s c)"
    if "pl_encrypt lib k = Inr c" for k c
    using that None
    by (simp add: create_wallet_def bindM_run signer_create_wallet_run new_wallet_def catchM_def Let_def)
  show ?thesis
    by (rule audited_scope, rule account_words(3), rule run [OF assms(1)], rule run [OF assms(2)])
      (simp_all add: put_wallets_def)
next
  case (Some w)
  with assms(1,2) have "create_wallet lib (key, addr) st ck name pp (open_session d) =
      create_wallet lib (key', addr) st ck name pp (open_session d)"
    by (simp add: create_wallet_def bindM_run signer_create_wallet_run catchM_def)
  then show ?thesis by (simp add: session_scope_def)
qed

lemma caller_audit_no_secret:
  assumes "generate_api_key h rnd = Inr g" "generate_api_key h' rnd' = Inr g'" "gk_key_prefix g = gk_key_prefix g'"
    and "hash_taken (ccr_name r) (gk_key_hash g) (db_callers d) = hash_taken (ccr_name r) (gk_key_hash g') (db_callers d)"
  shows "db_audit (snd (session_scope False (create_caller h rnd ck r) d)) =
      db_audit (snd (session_scope False (create_caller h' rnd' ck r) d))"
proof -
  let ?row = "\<lambda>g. \<lparr>c_name = ccr_name r, c_api_key_hash = gk_key_hash g, c_api_key_prefix = gk_key_prefix g,
      c_policy_path = ccr_policy_path r, c_created_at = ck_row ck, c_revoked_at = None\<rparr>"
  let ?res = "\<lambda>g. \<lparr>ccs_name = ccr_name r, ccs_api_key = gk_key g, ccs_api_key_prefix = gk_key_prefix g,
      ccs_policy_path = ccr_policy_path r, ccs_capability_id = ccr_capability_id r\<rparr>"
  let ?m = "\<lambda>g. caller_create (ck_row ck) (ccr_name r) (gk_key_hash g) (gk_key_prefix g) (ccr_policy_path r)
      (ccr_replace r) (db_callers d)"
  have run: "create_caller f x ck r (open_session d) =
      thenM (json_audit ck ''caller-create'' ''approved'' None (caller_create_fields r) None
         (Some [(''api_key_prefix'', JStr (gk_key_prefix k))])) (ret (?res k)) (put_callers t (open_session d))"
    if "generate_api_key f x = Inr k" "?m k = (Inr c, t)" for f x k c t
  proof -
    from that(2) have "c = ?row k" by (auto elim: caller_create_cases)
    with that show ?thesis by (simp add: create_caller_def bindM_run on_run catchM_def)
  qed
  have same: "create_caller f x ck r (open_session d) = create_caller f' x' ck r (open_session d)"
    if "generate_api_key f x = Inr k" "generate_api_key f' x' = Inr k'" "?m k = (Inl e, db_callers d)" "?m k' = (Inl e, db_callers d)"
    for f x k f' x' k' e
    using that by (cases e) (simp_all add: create_caller_def bindM_run on_run catchM_def json_refuse_not_Inr split: prod.split sum.split)
  show "db_audit (snd (session_scope False (create_caller h rnd ck r) d)) =
      db_audit (snd (session_scope False (create_caller h' rnd' ck r) d))"
  proof (cases "fst (?m g)")
    case (Inl e)
    with assms(4) have "?m g = (Inl e, db_callers d)" "?m g' = (Inl e, db_callers d)"
      by (auto simp: caller_create_run Let_def split: option.splits if_splits)
    with same [OF assms(1,2)] show ?thesis by (simp add: session_scope_def)
  next
    case (Inr c)
    with assms(4) have "\<exists>c t c' t'. ?m g = (Inr c, t) \<and> ?m g' = (Inr c', t')"
      by (auto simp: caller_create_run Let_def split: option.splits if_splits)
    then obtain c t c' t' where m: "?m g = (Inr c, t)" "?m g' = (Inr c', t')" by blast
    show ?thesis
      by (rule audited_scope, rule account_words(1), rule run [OF assms(1) m(1)], rule run [OF assms(2) m(2), folded assms(3)])
        (simp_all add: put_callers_def)
  qed
qed

text \<open>No secret reaches the audit log: what creating a wallet writes there is the same for any two
  private keys that can be encrypted and have the same address, so neither the key nor its ciphertext
  shows in it; and what creating a caller writes is the same for any two API keys with the same
  8-character prefix, whatever their argon2 hashes are.\<close>

theorem audit_carries_no_secret:
  assumes "pl_encrypt lib key = Inr ct" "pl_encrypt lib key' = Inr ct'"
    and "generate_api_key h rnd = Inr g" "generate_api_key h' rnd' = Inr g'" "gk_key_prefix g = gk_key_prefix g'"
    and "hash_taken (ccr_name r) (gk_key_hash g) (db_callers d) = hash_taken (ccr_name r) (gk_key_hash g') (db_callers d)"
  shows "db_audit (snd (session_scope False (create_wallet lib (key, addr) st ck name pp) d)) =
      db_audit (snd (session_scope False (create_wallet lib (key', addr) st ck name pp) d)) \<and>
    db_audit (snd (session_scope False (create_caller h rnd ck r) d)) =
      db_audit (snd (session_scope False (create_caller h' rnd' ck r) d))"
  using wallet_audit_no_secret [OF assms(1,2)] caller_audit_no_secret [OF assms(3-6)] by blast

definition sample_provision :: provision_lib where
  "sample_provision = \<lparr>pl_encrypt = (\<lambda>k. Inr (if k = [] then ''e0'' else ''e1'')), pl_address_of = (\<lambda>k. Inr ''0xAb''),
     pl_checksum = (\<lambda>a. a)\<rparr>"

definition sample_create :: caller_create_request where
  "sample_create = \<lparr>ccr_name = ''new'', ccr_policy_path = ''p'', ccr_replace = False, ccr_capability_id = None\<rparr>"

text \<open>Two keys and two random parts that differ, and the hashes with them.\<close>

lemma audit_carries_no_secret_witness:
  "db_audit (snd (session_scope False (create_wallet sample_provision ([], ''0xAb'') [] sample_clock ''w9'' ''p'') sample_db)) =
     db_audit (snd (session_scope False (create_wallet sample_provision ([1], ''0xAb'') [] sample_clock ''w9'' ''p'') sample_db)) \<and>
   db_audit (snd (session_scope False (create_caller (\<lambda>k. ''h1'') (replicate 43 CHR ''a'') sample_clock sample_create) sample_db)) =
     db_audit (snd (session_scope False (create_caller (\<lambda>k. ''h2'') (replicate 42 CHR ''a'' @ ''b'') sample_clock sample_create) sample_db))"
proof (rule audit_carries_no_secret)
  show "pl_encrypt sample_provision [] = Inr ''e0''" "pl_encrypt sample_provision [1] = Inr ''e1''"
    by (simp_all add: sample_provision_def)
  let ?g = "\<lambda>h r. \<lparr>gk_key = key_prefix_const @ r, gk_key_hash = h, gk_key_prefix = take 8 r\<rparr>"
  show "generate_api_key (\<lambda>k. ''h1'') (replicate 43 CHR ''a'') = Inr (?g ''h1'' (replicate 43 CHR ''a''))"
    "generate_api_key (\<lambda>k. ''h2'') (replicate 42 CHR ''a'' @ ''b'') = Inr (?g ''h2'' (replicate 42 CHR ''a'' @ ''b''))"
    by (simp_all add: generate_api_key_def)
  show "gk_key_prefix (?g ''h1'' (replicate 43 CHR ''a'')) = gk_key_prefix (?g ''h2'' (replicate 42 CHR ''a'' @ ''b''))"
    by simp
  show "hash_taken (ccr_name sample_create) (gk_key_hash (?g ''h1'' (replicate 43 CHR ''a''))) (db_callers sample_db) =
      hash_taken (ccr_name sample_create) (gk_key_hash (?g ''h2'' (replicate 42 CHR ''a'' @ ''b''))) (db_callers sample_db)"
    by (simp add: hash_taken_def sample_create_def sample_db_def sample_sign_caller_def sample_caller_def)
qed

subsection \<open>Every admin endpoint needs the admin key\<close>

definition admin_refusal :: "string \<Rightarrow> exn" where
  "admin_refusal expected =
     (if expected = [] then HTTPException 503 ''admin_unavailable'' else HTTPException 401 ''unauthorized'')"

lemma admin_guarded_refused:
  "\<not> admin_ok expected a \<Longrightarrow> admin_guarded expected a valid handler d = (Inl (admin_refusal expected), d)"
  by (simp add: admin_guarded_def thenM_def bindM_run require_admin_run admin_refusal_def)

text \<open>Without the admin key nothing is done: when the configured key is empty, the header is missing,
  is not a bearer header or carries another key, each of the ten admin endpoints answers 503 or 401 and
  leaves the database as it was, whatever the body.\<close>

theorem admin_required:
  assumes "\<not> admin_ok expected a"
  shows "post_nonce_init expected vault ck a ib d = (Inl (admin_refusal expected), d) \<and>
    post_nonce_sync expected st vault ck a sb d = (Inl (admin_refusal expected), d) \<and>
    get_nonce_holes expected st ck a d = (Inl (admin_refusal expected), d) \<and>
    get_nonce_endpoint expected a w c d = (Inl (admin_refusal expected), d) \<and>
    post_callers expected policy h rnd vault ck a cb d = (Inl (admin_refusal expected), d) \<and>
    delete_caller expected vault ck a name d = (Inl (admin_refusal expected), d) \<and>
    list_callers_endpoint expected policy a d = (Inl (admin_refusal expected), d) \<and>
    list_capabilities_endpoint expected policy a d = (Inl (admin_refusal expected), d) \<and>
    post_wallets expected policy lib acct seal vault ck a wb d = (Inl (admin_refusal expected), d) \<and>
    list_wallets_endpoint expected a d = (Inl (admin_refusal expected), d)"
  unfolding post_nonce_init_def post_nonce_sync_def get_nonce_holes_def get_nonce_endpoint_def post_callers_def
    delete_caller_def list_callers_endpoint_def list_capabilities_endpoint_def post_wallets_def
    list_wallets_endpoint_def
  by (intro conjI admin_guarded_refused [OF assms])

text \<open>A prefix of the key is not the key; the scheme is read case-insensitively.\<close>

lemma admin_required_witness:
  "\<not> admin_ok ''secret'' (Some ''Bearer secre'') \<and> admin_ok ''secret'' (Some ''BEARER secret '') \<and>
   delete_caller ''secret'' True sample_clock (Some ''Bearer secre'') ''clif'' sample_db =
     (Inl (HTTPException 401 ''unauthorized''), sample_db)"
proof -
  have no: "\<not> admin_ok ''secret'' (Some ''Bearer secre'')" by code_simp
  moreover have "admin_ok ''secret'' (Some ''BEARER secret '')" by code_simp
  moreover have "admin_refusal ''secret'' = HTTPException 401 ''unauthorized''" by (simp add: admin_refusal_def)
  ultimately show ?thesis using admin_required [OF no] by metis
qed

subsection \<open>A failed shred\<close>

lemma import_steps:
  fixes ck :: clock
  assumes "file_key uid kf = Some key" "pl_address_of lib key = Inr a" "pl_encrypt lib key = Inr ct"
    and "case ir_expected_address r of None \<Rightarrow> True | Some y \<Rightarrow> py_lower (pl_checksum lib a) = py_lower y"
    and "find_wallet (ir_name r) (db_wallets d) = None"
  defines "w \<equiv> new_wallet lib ck (ir_name r) a ct (ir_policy_path r)"
  shows "import_checks uid ck r kf (open_session d) = (Inr key, open_session d)"
    "import_stage lib ck r key (open_session d) = (Inr w, put_wallets (db_wallets d @ [w]) (open_session d))"
proof -
  show "import_checks uid ck r kf (open_session d) = (Inr key, open_session d)"
    using assms(1) by (cases rule: import_checks_cases [where uid = uid and kf = kf and ck = ck and r = r and d = d]) auto
  have "length key = 32" using assms(1) by (auto simp: file_key_def split: option.splits if_splits)
  with assms(2-5) show "import_stage lib ck r key (open_session d) = (Inr w, put_wallets (db_wallets d @ [w]) (open_session d))"
    unfolding w_def
    by (auto simp: import_stage_def signer_import_wallet_def bindM_run on_run wallet_create_run new_wallet_def Let_def
        catchM_def split: option.splits)
qed

text \<open>An import that succeeds when the source file can be shredded fails when it cannot, and the wallet
  it had inserted is then rolled back: the database is the one before, with neither the wallet nor an
  audit row, although the command reports the wallet as imported.\<close>

theorem import_shred_failure:
  assumes "ir_shred_source r" "wallets_import lib uid True True ck r kf d = (Inr w, d1)"
  shows "wallets_import lib uid False True ck r kf d = (Inl (ShredSourceFailed (ir_path r)), d) \<and>
    db_wallets d1 = db_wallets d @ [w]"
proof -
  have "session_scope False (import_wallet lib uid True ck r kf) d = (Inr w, d1)"
    using assms(2) by (simp add: wallets_import_def sealed_scope_def)
  then show ?thesis
  proof (cases rule: import_wallet_cases)
    case (imported key a ct)
    let ?w = "new_wallet lib ck (ir_name r) a ct (ir_policy_path r)"
    note steps = import_steps [OF imported(1-5), of ck]
    then have "session_scope False (import_wallet lib uid False ck r kf) d = (Inl (ShredSourceFailed (ir_path r)), d)"
      using assms(1) by (simp add: import_wallet_def session_scope_def put_wallets_def)
    moreover have "db_wallets d1 = db_wallets d @ [w]" using audit_grownD(1) [OF imported(8)] imported(7) by simp
    ultimately show ?thesis by (simp add: wallets_import_def sealed_scope_def)
  qed simp
qed

definition sample_import :: import_request where
  "sample_import = \<lparr>ir_name = ''imp'', ir_policy_path = ''p'', ir_path = ''/k'', ir_expected_address = Some ''0xaB'',
     ir_shred_source = True\<rparr>"

definition sample_key_file :: privkey_file where
  "sample_key_file = \<lparr>pf_mode = 384, pf_uid = 1000, pf_text = Some (replicate 64 CHR ''a'' @ [CHR 0x0A])\<rparr>"

lemma import_shred_failure_witness:
  "fst (wallets_import sample_provision 1000 False True sample_clock sample_import (Some sample_key_file) sample_db) =
    Inl (ShredSourceFailed ''/k'')"
proof -
  let ?key = "replicate 32 (0xaa :: byte)"
  let ?w = "new_wallet sample_provision sample_clock ''imp'' ''0xAb'' ''e1'' ''p''"
  have "file_key 1000 (Some sample_key_file) = Some ?key" by code_simp
  moreover have "py_lower ''0xAb'' = py_lower ''0xaB''" by code_simp
  moreover have "find_wallet ''imp'' (db_wallets sample_db) = None"
    by (simp add: sample_db_def find_wallet_def sample_wallet_def)
  ultimately have steps: "import_checks 1000 sample_clock sample_import (Some sample_key_file) (open_session sample_db) =
      (Inr ?key, open_session sample_db)"
    "import_stage sample_provision sample_clock sample_import ?key (open_session sample_db) =
      (Inr ?w, put_wallets (db_wallets sample_db @ [?w]) (open_session sample_db))"
    using import_steps [of 1000 "Some sample_key_file" ?key sample_provision "''0xAb''" "''e1''" sample_import sample_db]
    by (simp_all add: sample_provision_def sample_import_def)
  obtain d1 where "thenM (json_audit sample_clock ''wallet-import'' ''approved'' None (import_fields sample_import) None
      (Some [(''address'', JStr (w_address ?w))])) (ret ?w) (put_wallets (db_wallets sample_db @ [?w]) (open_session sample_db)) =
      (Inr ?w, d1)"
    using audited_step [OF account_words(4) decision_words(1), of sample_clock None "import_fields sample_import" None
      "Some [(''address'', JStr (w_address ?w))]" ?w "put_wallets (db_wallets sample_db @ [?w]) (open_session sample_db)"]
    by blast
  with steps have "wallets_import sample_provision 1000 True True sample_clock sample_import (Some sample_key_file)
      sample_db = (Inr ?w, work d1)"
    by (simp add: wallets_import_def sealed_scope_def session_scope_def import_wallet_def)
  from import_shred_failure [OF _ this] show ?thesis by (simp add: sample_import_def)
qed

end
