(* ===== verification/Fsp_Message.thy ===== *)
theory Fsp_Message
  imports Sign_Transaction
begin

section \<open>FSP messages\<close>

text \<open>
  \<open>domain/fsp_message.py\<close>: the 32-byte hash of a Flare Systems Protocol message, rebuilt from typed
  fields.  \<open>eth_utils.keccak\<close> and \<open>eth_abi.encode\<close> are parameters; SHA-256 is the one of the audit
  chain.  Every malformed input is \<open>None\<close>, and so is every exception.
\<close>

subsection \<open>The builder\<close>

text \<open>The Python values handed to \<open>eth_abi.encode\<close>.\<close>

datatype fsp_value =
    FInt int
  | FAddress string
  | FBytes "byte list"
  | FPairs "(int \<times> int) list"

record fsp_lib =
  fl_keccak :: "byte list \<Rightarrow> byte list"
  fl_encode :: "string list \<Rightarrow> fsp_value list \<Rightarrow> exn + byte list"

text \<open>The optional keyword arguments; absent ones are \<open>None\<close>.\<close>

record fsp_fields =
  ff_chain_id :: "int option"
  ff_no_of_weight_based_claims :: "int option"
  ff_rewards_hash :: "string option"
  ff_address :: "string option"
  ff_signing_policy :: "string option"
  ff_payload :: "string option"
  ff_protocol_id :: "int option"
  ff_registration_variant :: "string option"
  ff_block_number :: "int option"
  ff_replicate :: "int option"
  ff_gamma_x :: "int option"
  ff_gamma_y :: "int option"
  ff_c :: "int option"
  ff_s :: "int option"
  ff_deltas :: "string option"

record fsp_message =
  fm_message_type :: string
  fm_reward_epoch_id :: int
  fm_message_hash :: "byte list"

definition message_types :: "string list" where
  "message_types = [''UPTIME'', ''REWARD_DISTRIBUTION'', ''SIGNING_POLICY'', ''VOTER_REGISTRATION'',
     ''PROTOCOL_PAYLOAD'', ''FAST_UPDATE'']"

definition max_uint24 :: int where "max_uint24 = 16777215"
definition max_payload_bytes :: nat where "max_payload_bytes = 4096"
definition max_deltas_bytes :: nat where "max_deltas_bytes = 4096"
definition max_uint256 :: int where "max_uint256 = 2 ^ 256 - 1"

definition decode_hex :: "string option \<Rightarrow> byte list option" where
  "decode_hex x =
     (case x of
        None \<Rightarrow> None
      | Some s \<Rightarrow> if \<not> starts_with s ''0x'' then None else bytes_fromhex (drop 2 s))"

text \<open>The iterated hash over the 32-byte chunks; \<open>None\<close> is the \<open>ValueError\<close>.\<close>

definition pad32 :: "byte list \<Rightarrow> byte list" where
  "pad32 bs = (if length bs mod 32 \<noteq> 0 then bs @ replicate (32 - length bs mod 32) 0 else bs)"

definition chunk32 :: "nat \<Rightarrow> byte list \<Rightarrow> byte list" where
  "chunk32 i bs = take 32 (drop (i * 32) bs)"

definition signing_policy_hash :: "(byte list \<Rightarrow> byte list) \<Rightarrow> byte list \<Rightarrow> byte list option" where
  "signing_policy_hash keccak policy =
     (let bs = pad32 policy in
      if length bs < 64 then None
      else Some (foldl (\<lambda>h i. keccak (h @ chunk32 i bs)) (keccak (chunk32 0 bs @ chunk32 1 bs))
        [2..<length bs div 32]))"

definition encoded :: "fsp_lib \<Rightarrow> string list \<Rightarrow> fsp_value list \<Rightarrow> byte list option" where
  "encoded lib types args = (case fl_encode lib types args of Inl e \<Rightarrow> None | Inr bs \<Rightarrow> Some bs)"

definition any_fast_update :: "fsp_fields \<Rightarrow> bool" where
  "any_fast_update f \<longleftrightarrow> ff_block_number f \<noteq> None \<or> ff_replicate f \<noteq> None \<or> ff_gamma_x f \<noteq> None \<or>
     ff_gamma_y f \<noteq> None \<or> ff_c f \<noteq> None \<or> ff_s f \<noteq> None \<or> ff_deltas f \<noteq> None"

definition positive :: "int option \<Rightarrow> int option" where
  "positive x = (case x of None \<Rightarrow> None | Some n \<Rightarrow> if n \<le> 0 then None else Some n)"

definition uptime_hash :: "fsp_lib \<Rightarrow> int \<Rightarrow> fsp_fields \<Rightarrow> byte list option" where
  "uptime_hash lib epoch f =
     (if ff_chain_id f \<noteq> None \<or> ff_no_of_weight_based_claims f \<noteq> None \<or> ff_rewards_hash f \<noteq> None \<or>
         ff_address f \<noteq> None \<or> ff_signing_policy f \<noteq> None \<or> ff_payload f \<noteq> None \<or>
         ff_protocol_id f \<noteq> None \<or> ff_registration_variant f \<noteq> None \<or> any_fast_update f
      then None
      else Some (fl_keccak lib (be_bytes 32 epoch @ fl_keccak lib (replicate 32 0))))"

definition rewards_hash_bytes :: "string option \<Rightarrow> byte list option" where
  "rewards_hash_bytes x =
     (case x of
        None \<Rightarrow> None
      | Some s \<Rightarrow>
          if \<not> starts_with s ''0x'' \<or> length s \<noteq> 66 then None
          else (case bytes_fromhex (drop 2 s) of
             None \<Rightarrow> None
           | Some bs \<Rightarrow> if length bs \<noteq> 32 then None else Some bs))"

definition reward_hash :: "fsp_lib \<Rightarrow> int \<Rightarrow> fsp_fields \<Rightarrow> byte list option" where
  "reward_hash lib epoch f =
     (if ff_address f \<noteq> None \<or> ff_signing_policy f \<noteq> None \<or> ff_payload f \<noteq> None \<or>
         ff_protocol_id f \<noteq> None \<or> ff_registration_variant f \<noteq> None \<or> any_fast_update f
      then None
      else case positive (ff_chain_id f) of
        None \<Rightarrow> None
      | Some chain \<Rightarrow>
          (case ff_no_of_weight_based_claims f of
             None \<Rightarrow> None
           | Some n \<Rightarrow>
               if n < 0 then None
               else (case rewards_hash_bytes (ff_rewards_hash f) of
                  None \<Rightarrow> None
                | Some r \<Rightarrow>
                    map_option (\<lambda>e. fl_keccak lib (be_bytes 32 epoch @ fl_keccak lib e @ r))
                      (encoded lib [''(uint256,uint256)[]''] [FPairs [(chain, n)]]))))"

definition voter_hash :: "fsp_lib \<Rightarrow> int \<Rightarrow> fsp_fields \<Rightarrow> byte list option" where
  "voter_hash lib epoch f =
     (if ff_no_of_weight_based_claims f \<noteq> None \<or> ff_rewards_hash f \<noteq> None \<or> ff_signing_policy f \<noteq> None \<or>
         ff_payload f \<noteq> None \<or> ff_protocol_id f \<noteq> None \<or> any_fast_update f
      then None
      else case ff_address f of
        None \<Rightarrow> None
      | Some a \<Rightarrow>
          if \<not> hex_address_match a then None
          else if ff_registration_variant f = Some ''legacy''
          then if ff_chain_id f \<noteq> None then None
            else map_option (fl_keccak lib)
              (encoded lib [''uint32'', ''address''] [FInt epoch, FAddress (py_lower a)])
          else if ff_registration_variant f = Some ''chain_scoped''
          then (case positive (ff_chain_id f) of
             None \<Rightarrow> None
           | Some chain \<Rightarrow> map_option (fl_keccak lib)
               (encoded lib [''uint256'', ''uint32'', ''address''] [FInt chain, FInt epoch, FAddress (py_lower a)]))
          else None)"

definition policy_message_hash :: "fsp_lib \<Rightarrow> fsp_fields \<Rightarrow> byte list option" where
  "policy_message_hash lib f =
     (if ff_chain_id f \<noteq> None \<or> ff_address f \<noteq> None \<or> ff_no_of_weight_based_claims f \<noteq> None \<or>
         ff_rewards_hash f \<noteq> None \<or> ff_payload f \<noteq> None \<or> ff_protocol_id f \<noteq> None \<or>
         ff_registration_variant f \<noteq> None \<or> any_fast_update f
      then None
      else case decode_hex (ff_signing_policy f) of
        None \<Rightarrow> None
      | Some bs \<Rightarrow> if length bs = 0 then None else signing_policy_hash (fl_keccak lib) bs)"

definition payload_hash :: "fsp_lib \<Rightarrow> fsp_fields \<Rightarrow> byte list option" where
  "payload_hash lib f =
     (if ff_address f \<noteq> None \<or> ff_no_of_weight_based_claims f \<noteq> None \<or> ff_rewards_hash f \<noteq> None \<or>
         ff_signing_policy f \<noteq> None \<or> ff_registration_variant f \<noteq> None \<or> any_fast_update f
      then None
      else case decode_hex (ff_payload f) of
        None \<Rightarrow> None
      | Some bs \<Rightarrow>
          if length bs = 0 then None
          else if max_payload_bytes < length bs then None
          else Some (fl_keccak lib bs))"

definition uint256 :: "int option \<Rightarrow> int option" where
  "uint256 x = (case x of None \<Rightarrow> None | Some n \<Rightarrow> if n < 0 \<or> max_uint256 < n then None else Some n)"

definition fast_update_hash :: "fsp_lib \<Rightarrow> fsp_fields \<Rightarrow> byte list option" where
  "fast_update_hash lib f =
     (if ff_no_of_weight_based_claims f \<noteq> None \<or> ff_rewards_hash f \<noteq> None \<or> ff_address f \<noteq> None \<or>
         ff_signing_policy f \<noteq> None \<or> ff_payload f \<noteq> None \<or> ff_protocol_id f \<noteq> None \<or>
         ff_registration_variant f \<noteq> None
      then None
      else case (uint256 (ff_block_number f), uint256 (ff_replicate f), uint256 (ff_gamma_x f),
          uint256 (ff_gamma_y f), uint256 (ff_c f), uint256 (ff_s f)) of
        (Some bn, Some rep, Some gx, Some gy, Some c, Some s) \<Rightarrow>
          (case decode_hex (ff_deltas f) of
             None \<Rightarrow> None
           | Some ds \<Rightarrow>
               if max_deltas_bytes < length ds then None
               else map_option sha256
                 (encoded lib [''uint256'', ''uint256'', ''uint256'', ''uint256'', ''uint256'', ''uint256'', ''bytes'']
                   [FInt bn, FInt rep, FInt gx, FInt gy, FInt c, FInt s, FBytes ds]))
      | _ \<Rightarrow> None)"

definition build_fsp_message :: "fsp_lib \<Rightarrow> string \<Rightarrow> int \<Rightarrow> fsp_fields \<Rightarrow> fsp_message option" where
  "build_fsp_message lib message_type epoch f =
     (if message_type \<notin> set message_types then None
      else if epoch < 0 \<or> max_uint24 < epoch then None
      else map_option (\<lambda>h. \<lparr>fm_message_type = message_type, fm_reward_epoch_id = epoch, fm_message_hash = h\<rparr>)
        (if message_type = ''UPTIME'' then uptime_hash lib epoch f
         else if message_type = ''REWARD_DISTRIBUTION'' then reward_hash lib epoch f
         else if message_type = ''VOTER_REGISTRATION'' then voter_hash lib epoch f
         else if message_type = ''SIGNING_POLICY'' then policy_message_hash lib f
         else if message_type = ''PROTOCOL_PAYLOAD'' then payload_hash lib f
         else fast_update_hash lib f))"

subsection \<open>The message as data\<close>

text \<open>What a message says, apart from how it is hashed: the abstract message.  \<open>fields_of\<close> lists
  the arguments a type takes; everything else must be absent.\<close>

datatype fsp_content =
    Uptime int
  | Reward int int int "byte list"
  | VoterLegacy int string
  | VoterScoped int int string
  | SigningPolicy "byte list"
  | ProtocolPayload "byte list"
  | FastUpdate "int list" "byte list"

datatype fsp_field =
    FChainId | FClaims | FRewardsHash | FAddr | FSigningPolicy | FPayload | FProtocolId | FVariant | FFastUpdate

definition given :: "fsp_fields \<Rightarrow> fsp_field list" where
  "given f = map fst (filter snd
     [(FChainId, ff_chain_id f \<noteq> None), (FClaims, ff_no_of_weight_based_claims f \<noteq> None),
      (FRewardsHash, ff_rewards_hash f \<noteq> None), (FAddr, ff_address f \<noteq> None),
      (FSigningPolicy, ff_signing_policy f \<noteq> None), (FPayload, ff_payload f \<noteq> None),
      (FProtocolId, ff_protocol_id f \<noteq> None), (FVariant, ff_registration_variant f \<noteq> None),
      (FFastUpdate, any_fast_update f)])"

definition fields_of :: "string \<Rightarrow> fsp_field list" where
  "fields_of t =
     (if t = ''UPTIME'' then []
      else if t = ''REWARD_DISTRIBUTION'' then [FChainId, FClaims, FRewardsHash]
      else if t = ''VOTER_REGISTRATION'' then [FChainId, FAddr, FVariant]
      else if t = ''SIGNING_POLICY'' then [FSigningPolicy]
      else if t = ''PROTOCOL_PAYLOAD'' then [FChainId, FPayload, FProtocolId]
      else [FChainId, FFastUpdate])"

definition reward_content :: "int \<Rightarrow> fsp_fields \<Rightarrow> fsp_content option" where
  "reward_content e f =
     (case (ff_chain_id f, ff_no_of_weight_based_claims f, rewards_hash_bytes (ff_rewards_hash f)) of
        (Some c, Some n, Some r) \<Rightarrow> if 0 < c \<and> 0 \<le> n then Some (Reward e c n r) else None
      | _ \<Rightarrow> None)"

definition voter_content :: "int \<Rightarrow> fsp_fields \<Rightarrow> fsp_content option" where
  "voter_content e f =
     (case (ff_registration_variant f, ff_chain_id f, ff_address f) of
        (Some v, None, Some a) \<Rightarrow>
          if hex_address_match a \<and> v = ''legacy'' then Some (VoterLegacy e (py_lower a)) else None
      | (Some v, Some c, Some a) \<Rightarrow>
          if hex_address_match a \<and> v = ''chain_scoped'' \<and> 0 < c then Some (VoterScoped e c (py_lower a)) else None
      | _ \<Rightarrow> None)"

definition fast_content :: "fsp_fields \<Rightarrow> fsp_content option" where
  "fast_content f =
     (case (ff_block_number f, ff_replicate f, ff_gamma_x f, ff_gamma_y f, ff_c f, ff_s f, decode_hex (ff_deltas f)) of
        (Some bn, Some rep, Some gx, Some gy, Some c, Some s, Some ds) \<Rightarrow>
          if list_all (\<lambda>n. 0 \<le> n \<and> n \<le> max_uint256) [bn, rep, gx, gy, c, s] \<and> length ds \<le> max_deltas_bytes
          then Some (FastUpdate [bn, rep, gx, gy, c, s] ds) else None
      | _ \<Rightarrow> None)"

definition fsp_content :: "string \<Rightarrow> int \<Rightarrow> fsp_fields \<Rightarrow> fsp_content option" where
  "fsp_content t e f =
     (if t \<notin> set message_types \<or> \<not> (0 \<le> e \<and> e \<le> max_uint24) \<or> \<not> set (given f) \<subseteq> set (fields_of t) then None
      else if t = ''UPTIME'' then Some (Uptime e)
      else if t = ''REWARD_DISTRIBUTION'' then reward_content e f
      else if t = ''VOTER_REGISTRATION'' then voter_content e f
      else if t = ''SIGNING_POLICY'' then
        (case decode_hex (ff_signing_policy f) of Some bs \<Rightarrow> if 32 < length bs then Some (SigningPolicy bs) else None
         | None \<Rightarrow> None)
      else if t = ''PROTOCOL_PAYLOAD'' then
        (case decode_hex (ff_payload f) of
           Some bs \<Rightarrow> if 1 \<le> length bs \<and> length bs \<le> max_payload_bytes then Some (ProtocolPayload bs) else None
         | None \<Rightarrow> None)
      else fast_content f)"

text \<open>The hash of an abstract message, by type.\<close>

fun content_hash :: "fsp_lib \<Rightarrow> fsp_content \<Rightarrow> byte list option" where
  "content_hash lib (Uptime e) = Some (fl_keccak lib (be_bytes 32 e @ fl_keccak lib (replicate 32 0)))"
| "content_hash lib (Reward e c n r) =
     map_option (\<lambda>x. fl_keccak lib (be_bytes 32 e @ fl_keccak lib x @ r)) (encoded lib [''(uint256,uint256)[]''] [FPairs [(c, n)]])"
| "content_hash lib (VoterLegacy e a) = map_option (fl_keccak lib) (encoded lib [''uint32'', ''address''] [FInt e, FAddress a])"
| "content_hash lib (VoterScoped e c a) =
     map_option (fl_keccak lib) (encoded lib [''uint256'', ''uint32'', ''address''] [FInt c, FInt e, FAddress a])"
| "content_hash lib (SigningPolicy bs) = signing_policy_hash (fl_keccak lib) bs"
| "content_hash lib (ProtocolPayload bs) = Some (fl_keccak lib bs)"
| "content_hash lib (FastUpdate ns ds) =
     map_option sha256 (encoded lib (replicate 6 ''uint256'' @ [''bytes'']) (map FInt ns @ [FBytes ds]))"

subsection \<open>The builder implements the abstract message\<close>

lemma length_pad32: "32 dvd length (pad32 bs)" "length bs \<le> length (pad32 bs)"
  "64 \<le> length (pad32 bs) \<longleftrightarrow> 32 < length bs"
proof -
  define k where "k = length bs div 32"
  define r where "r = length bs mod 32"
  have l: "length bs = 32 * k + r" "r < 32" by (simp_all add: k_def r_def)
  have p: "length (pad32 bs) = (if r = 0 then 32 * k else 32 * (k + 1))"
    using l by (simp add: pad32_def r_def [symmetric])
  show "32 dvd length (pad32 bs)" by (simp add: p)
  show "length bs \<le> length (pad32 bs)" using l by (simp add: p)
  show "64 \<le> length (pad32 bs) \<longleftrightarrow> 32 < length bs" using l by (auto simp: p)
qed

lemma signing_policy_hash_None: "signing_policy_hash k bs = None \<longleftrightarrow> length bs \<le> 32"
  using length_pad32(3) [of bs] by (auto simp: signing_policy_hash_def Let_def)

lemma message_type_cases:
  assumes "t \<in> set message_types"
  obtains "t = ''UPTIME''" | "t = ''REWARD_DISTRIBUTION''" | "t = ''SIGNING_POLICY''" | "t = ''VOTER_REGISTRATION''"
  | "t = ''PROTOCOL_PAYLOAD''" | "t = ''FAST_UPDATE''"
  using assms unfolding message_types_def by (simp only: list.set insert_iff empty_iff simp_thms) (elim disjE)

definition abstract_hash :: "fsp_lib \<Rightarrow> string \<Rightarrow> int \<Rightarrow> fsp_fields \<Rightarrow> byte list option" where
  "abstract_hash lib t e f = Option.bind (fsp_content t e f) (content_hash lib)"

definition only :: "fsp_field list \<Rightarrow> fsp_fields \<Rightarrow> bool" where
  "only xs f \<longleftrightarrow> set (given f) \<subseteq> set xs"

lemma only_simps:
  "only xs f \<longleftrightarrow> (ff_chain_id f \<noteq> None \<longrightarrow> FChainId \<in> set xs) \<and> (ff_no_of_weight_based_claims f \<noteq> None \<longrightarrow> FClaims \<in> set xs) \<and>
     (ff_rewards_hash f \<noteq> None \<longrightarrow> FRewardsHash \<in> set xs) \<and> (ff_address f \<noteq> None \<longrightarrow> FAddr \<in> set xs) \<and>
     (ff_signing_policy f \<noteq> None \<longrightarrow> FSigningPolicy \<in> set xs) \<and> (ff_payload f \<noteq> None \<longrightarrow> FPayload \<in> set xs) \<and>
     (ff_protocol_id f \<noteq> None \<longrightarrow> FProtocolId \<in> set xs) \<and> (ff_registration_variant f \<noteq> None \<longrightarrow> FVariant \<in> set xs) \<and>
     (any_fast_update f \<longrightarrow> FFastUpdate \<in> set xs)"
proof -
  have sub: "set (map fst (filter snd ps)) \<subseteq> set xs \<longleftrightarrow> list_all (\<lambda>p. snd p \<longrightarrow> fst p \<in> set xs) ps" for ps
    by (induction ps) auto
  show ?thesis unfolding only_def given_def sub by (simp only: list_all_iff list.set ball_simps fst_conv snd_conv simp_thms)
qed

text \<open>The message of a valid epoch, one equation per type.\<close>

lemma content_of_type:
  assumes "0 \<le> e" "e \<le> max_uint24"
  shows "fsp_content ''UPTIME'' e f = (if only [] f then Some (Uptime e) else None)"
    "fsp_content ''REWARD_DISTRIBUTION'' e f = (if only [FChainId, FClaims, FRewardsHash] f then reward_content e f else None)"
    "fsp_content ''VOTER_REGISTRATION'' e f = (if only [FChainId, FAddr, FVariant] f then voter_content e f else None)"
    "fsp_content ''SIGNING_POLICY'' e f = (if only [FSigningPolicy] f then
        (case decode_hex (ff_signing_policy f) of Some bs \<Rightarrow> if 32 < length bs then Some (SigningPolicy bs) else None
         | None \<Rightarrow> None) else None)"
    "fsp_content ''PROTOCOL_PAYLOAD'' e f = (if only [FChainId, FPayload, FProtocolId] f then
        (case decode_hex (ff_payload f) of
           Some bs \<Rightarrow> if 1 \<le> length bs \<and> length bs \<le> max_payload_bytes then Some (ProtocolPayload bs) else None
         | None \<Rightarrow> None) else None)"
    "fsp_content ''FAST_UPDATE'' e f = (if only [FChainId, FFastUpdate] f then fast_content f else None)"
  using assms by (simp_all add: fsp_content_def message_types_def fields_of_def only_def)

lemma uptime_refines: "uptime_hash lib e f = Option.bind (if only [] f then Some (Uptime e) else None) (content_hash lib)"
  by (simp add: uptime_hash_def only_simps)

lemma reward_refines:
  "reward_hash lib e f =
     Option.bind (if only [FChainId, FClaims, FRewardsHash] f then reward_content e f else None) (content_hash lib)"
proof (cases "only [FChainId, FClaims, FRewardsHash] f")
  case True
  then show ?thesis
    by (simp add: reward_hash_def only_simps reward_content_def positive_def split: option.split)
qed (auto simp: reward_hash_def only_simps)

lemma voter_refines:
  "voter_hash lib e f = Option.bind (if only [FChainId, FAddr, FVariant] f then voter_content e f else None) (content_hash lib)"
proof (cases "only [FChainId, FAddr, FVariant] f")
  case True
  then show ?thesis
    by (cases "ff_address f"; cases "ff_registration_variant f"; cases "ff_chain_id f")
      (simp_all add: voter_hash_def only_simps voter_content_def positive_def)
qed (auto simp: voter_hash_def only_simps)

lemma policy_refines:
  "policy_message_hash lib f = Option.bind (if only [FSigningPolicy] f then
        (case decode_hex (ff_signing_policy f) of Some bs \<Rightarrow> if 32 < length bs then Some (SigningPolicy bs) else None
         | None \<Rightarrow> None) else None) (content_hash lib)"
proof (cases "only [FSigningPolicy] f")
  case True
  then show ?thesis
    by (cases "decode_hex (ff_signing_policy f)")
      (auto simp: policy_message_hash_def only_simps signing_policy_hash_None)
qed (auto simp: policy_message_hash_def only_simps)

lemma payload_refines:
  "payload_hash lib f = Option.bind (if only [FChainId, FPayload, FProtocolId] f then
        (case decode_hex (ff_payload f) of
           Some bs \<Rightarrow> if 1 \<le> length bs \<and> length bs \<le> max_payload_bytes then Some (ProtocolPayload bs) else None
         | None \<Rightarrow> None) else None) (content_hash lib)"
proof (cases "only [FChainId, FPayload, FProtocolId] f")
  case True
  then show ?thesis
    by (cases "decode_hex (ff_payload f)") (auto simp: payload_hash_def only_simps Suc_le_eq)
qed (auto simp: payload_hash_def only_simps)

lemma uint256_cases: "uint256 (Some n) = (if 0 \<le> n \<and> n \<le> max_uint256 then Some n else None)" "uint256 None = None"
  by (auto simp: uint256_def)

lemma fast_refines:
  "fast_update_hash lib f = Option.bind (if only [FChainId, FFastUpdate] f then fast_content f else None) (content_hash lib)"
proof (cases "only [FChainId, FFastUpdate] f")
  case True
  then have none: "ff_no_of_weight_based_claims f = None" "ff_rewards_hash f = None" "ff_address f = None"
    "ff_signing_policy f = None" "ff_payload f = None" "ff_protocol_id f = None" "ff_registration_variant f = None"
    by (simp_all add: only_simps)
  have six: "replicate 6 x = [x, x, x, x, x, x]" for x :: string by (simp add: numeral_eq_Suc)
  show ?thesis
    by (cases "ff_block_number f"; cases "ff_replicate f"; cases "ff_gamma_x f"; cases "ff_gamma_y f"; cases "ff_c f";
        cases "ff_s f"; cases "decode_hex (ff_deltas f)")
      (simp_all add: fast_update_hash_def none True fast_content_def uint256_cases six)
qed (auto simp: fast_update_hash_def only_simps)

lemmas type_refines = uptime_refines reward_refines voter_refines policy_refines payload_refines fast_refines

text \<open>C31: the builder refines the abstract message: on every input it returns exactly the hash of the
  message the arguments describe, and \<open>None\<close> exactly when they describe none (an unknown type, an epoch
  outside 24 bits, a missing, foreign or malformed argument) or \<open>eth_abi\<close> rejects the values.\<close>

theorem build_refines_content:
  "build_fsp_message lib t e f =
     (case fsp_content t e f of
        None \<Rightarrow> None
      | Some c \<Rightarrow> map_option (\<lambda>h. \<lparr>fm_message_type = t, fm_reward_epoch_id = e, fm_message_hash = h\<rparr>) (content_hash lib c))"
proof (cases "t \<in> set message_types \<and> 0 \<le> e \<and> e \<le> max_uint24")
  case True
  then have "build_fsp_message lib t e f =
      map_option (\<lambda>h. \<lparr>fm_message_type = t, fm_reward_epoch_id = e, fm_message_hash = h\<rparr>) (abstract_hash lib t e f)"
    by (elim conjE message_type_cases)
      (simp_all add: build_fsp_message_def message_types_def abstract_hash_def content_of_type type_refines)
  then show ?thesis by (cases "fsp_content t e f") (simp_all add: abstract_hash_def)
next
  case False
  then have "t \<notin> set message_types \<or> e < 0 \<or> max_uint24 < e" by linarith
  then have "build_fsp_message lib t e f = None" by (elim disjE) (simp_all add: build_fsp_message_def)
  moreover have "fsp_content t e f = None" unfolding fsp_content_def by (rule if_P) (use False in blast)
  ultimately show ?thesis by simp
qed

subsection \<open>Hash chains\<close>

fun chain_inputs :: "('a list \<Rightarrow> 'a list) \<Rightarrow> 'a list \<Rightarrow> 'a list list \<Rightarrow> 'a list set" where
  "chain_inputs k h [] = {}"
| "chain_inputs k h (c # cs) = insert (h @ c) (chain_inputs k (k (h @ c)) cs)"

lemma chain_injective:
  assumes "length cs = length cs'" "\<And>x. length (k x) = n"
    and "inj_on k (chain_inputs k h cs \<union> chain_inputs k h' cs')" "length h = length h'"
    and "foldl (\<lambda>h c. k (h @ c)) h cs = foldl (\<lambda>h c. k (h @ c)) h' cs'"
  shows "h = h' \<and> cs = cs'"
  using assms(1,3-5)
proof (induction cs cs' arbitrary: h h' rule: list_induct2)
  case (Cons c cs c' cs')
  have "inj_on k (chain_inputs k (k (h @ c)) cs \<union> chain_inputs k (k (h' @ c')) cs')"
    using Cons.prems(1) by (rule inj_on_subset) auto
  moreover have "length (k (h @ c)) = length (k (h' @ c'))" by (simp only: assms(2))
  moreover have "foldl (\<lambda>h c. k (h @ c)) (k (h @ c)) cs = foldl (\<lambda>h c. k (h @ c)) (k (h' @ c')) cs'"
    using Cons.prems(3) by (simp only: foldl_Cons)
  ultimately have same: "k (h @ c) = k (h' @ c') \<and> cs = cs'" by (rule Cons.IH)
  moreover have "h @ c \<in> chain_inputs k h (c # cs) \<union> chain_inputs k h' (c' # cs')"
    "h' @ c' \<in> chain_inputs k h (c # cs) \<union> chain_inputs k h' (c' # cs')" by (simp_all only: chain_inputs.simps insert_iff Un_iff simp_thms)
  ultimately have "h @ c = h' @ c'" using inj_onD [OF Cons.prems(1)] by blast
  with same Cons.prems(2) show ?case by (simp only: append_eq_append_conv simp_thms)
qed simp

definition chunks :: "byte list \<Rightarrow> byte list list" where
  "chunks bs = map (\<lambda>i. chunk32 i bs) [0..<length bs div 32]"

lemma concat_chunks: "n * 32 \<le> length bs \<Longrightarrow> concat (map (\<lambda>i. chunk32 i bs) [0..<n]) = take (n * 32) bs"
proof (induction n)
  case (Suc n)
  then have "take (n * 32 + 32) bs = take (n * 32) bs @ chunk32 n bs" by (simp only: take_add chunk32_def)
  with Suc show ?case by (simp add: add.commute)
qed simp

lemma chunks_inj:
  assumes "length bs = length cs" "32 dvd length bs" "chunks bs = chunks cs"
  shows "bs = cs"
proof -
  have "concat (chunks xs) = xs" if "32 dvd length xs" for xs
    using concat_chunks [of "length xs div 32" xs] that by (simp add: chunks_def dvd_div_mult_self)
  with assms show ?thesis by metis
qed

lemma signing_policy_hash_chain:
  assumes "32 < length bs"
  shows "signing_policy_hash k bs = Some (foldl (\<lambda>h c. k (h @ c)) (hd (chunks (pad32 bs))) (tl (chunks (pad32 bs))))"
proof -
  have l: "64 \<le> length (pad32 bs)" using assms length_pad32(3) by blast
  then have "2 \<le> length (pad32 bs) div 32" by simp
  then have "[0..<length (pad32 bs) div 32] = 0 # 1 # [2..<length (pad32 bs) div 32]"
    by (simp add: upt_conv_Cons numeral_2_eq_2)
  with l show ?thesis
    by (simp add: signing_policy_hash_def Let_def chunks_def foldl_map)
qed

subsection \<open>What the hash binds\<close>

lemma be_bytes_Suc: "be_bytes (Suc k) n = be_bytes k (n div 256) @ [word_of_int n]"
proof -
  have "n div 256 ^ Suc i = n div 256 div 256 ^ i" for i
    by (simp add: zdiv_zmult2_eq)
  then have "map (\<lambda>i. word_of_int (n div 256 ^ i)) [0..<Suc k] =
      (word_of_int n :: byte) # map (\<lambda>i. word_of_int (n div 256 div 256 ^ i)) [0..<k]"
    by (simp add: upt_conv_Cons map_Suc_upt [symmetric] del: upt_Suc)
  then show ?thesis by (simp add: be_bytes_def del: upt_Suc)
qed

lemma be_bytes_inj:
  "0 \<le> a \<Longrightarrow> a < 256 ^ k \<Longrightarrow> 0 \<le> b \<Longrightarrow> b < 256 ^ k \<Longrightarrow> be_bytes k a = be_bytes k b \<Longrightarrow> a = b"
proof (induction k arbitrary: a b)
  case (Suc k)
  have "x < 256 * p \<Longrightarrow> x div 256 < p" for x p :: int by arith
  then have "a div 256 < 256 ^ k" "b div 256 < 256 ^ k" using Suc.prems by simp_all
  with Suc have "a div 256 = b div 256" by (simp add: be_bytes_Suc)
  moreover have "(word_of_int a :: byte) = word_of_int b" using Suc.prems by (simp add: be_bytes_Suc)
  then have "a mod 256 = b mod 256" by (simp add: word_of_int_eq_iff take_bit_eq_mod)
  ultimately show ?case by (metis div_mult_mod_eq)
qed simp

text \<open>The documented behaviour of the libraries: a keccak hash has 32 bytes, and the encoding of values of
  one list of types determines them (addresses written in lower case).\<close>

definition lowered :: "fsp_value \<Rightarrow> bool" where
  "lowered v = (case v of FAddress a \<Rightarrow> py_lower a = a \<and> starts_with a ''0x'' | _ \<Rightarrow> True)"

definition abi_faithful :: "fsp_lib \<Rightarrow> bool" where
  "abi_faithful lib \<longleftrightarrow> (\<forall>ts a b x. fl_encode lib ts a = Inr x \<and> fl_encode lib ts b = Inr x \<and>
     list_all lowered a \<and> list_all lowered b \<longrightarrow> a = b)"

text \<open>The inputs one message gives to the hash functions.\<close>

fun encoding :: "fsp_lib \<Rightarrow> fsp_content \<Rightarrow> byte list option" where
  "encoding lib (Reward e c n r) = encoded lib [''(uint256,uint256)[]''] [FPairs [(c, n)]]"
| "encoding lib (VoterLegacy e a) = encoded lib [''uint32'', ''address''] [FInt e, FAddress a]"
| "encoding lib (VoterScoped e c a) = encoded lib [''uint256'', ''uint32'', ''address''] [FInt c, FInt e, FAddress a]"
| "encoding lib (FastUpdate ns ds) = encoded lib (replicate 6 ''uint256'' @ [''bytes'']) (map FInt ns @ [FBytes ds])"
| "encoding lib _ = None"

fun keccak_inputs :: "fsp_lib \<Rightarrow> fsp_content \<Rightarrow> byte list set" where
  "keccak_inputs lib (Uptime e) = {replicate 32 0, be_bytes 32 e @ fl_keccak lib (replicate 32 0)}"
| "keccak_inputs lib (Reward e c n r) =
     (\<Union>x \<in> set_option (encoding lib (Reward e c n r)). {x, be_bytes 32 e @ fl_keccak lib x @ r})"
| "keccak_inputs lib (SigningPolicy bs) =
     chain_inputs (fl_keccak lib) (hd (chunks (pad32 bs))) (tl (chunks (pad32 bs)))"
| "keccak_inputs lib (ProtocolPayload bs) = {bs}"
| "keccak_inputs lib (FastUpdate ns ds) = {}"
| "keccak_inputs lib c = set_option (encoding lib c)"

fun sha_inputs :: "fsp_lib \<Rightarrow> fsp_content \<Rightarrow> byte list set" where
  "sha_inputs lib (FastUpdate ns ds) = set_option (encoding lib (FastUpdate ns ds))"
| "sha_inputs lib c = {}"

text \<open>The kind of a message, with the number of chunks of a signing policy; the policy up to the zero
  padding.\<close>

fun shape :: "fsp_content \<Rightarrow> nat \<times> nat" where
  "shape (Uptime e) = (0, 0)"
| "shape (Reward e c n r) = (1, 0)"
| "shape (VoterLegacy e a) = (2, 0)"
| "shape (VoterScoped e c a) = (3, 0)"
| "shape (SigningPolicy bs) = (4, length (pad32 bs))"
| "shape (ProtocolPayload bs) = (5, 0)"
| "shape (FastUpdate ns ds) = (6, 0)"

fun padded :: "fsp_content \<Rightarrow> fsp_content" where
  "padded (SigningPolicy bs) = SigningPolicy (pad32 bs)"
| "padded c = c"

fun content_wf :: "fsp_content \<Rightarrow> bool" where
  "content_wf (Uptime e) = (0 \<le> e \<and> e \<le> max_uint24)"
| "content_wf (Reward e c n r) = (0 \<le> e \<and> e \<le> max_uint24 \<and> length r = 32)"
| "content_wf (VoterLegacy e a) = lowered (FAddress a)"
| "content_wf (VoterScoped e c a) = lowered (FAddress a)"
| "content_wf (SigningPolicy bs) = (32 < length bs)"
| "content_wf c = True"

lemma lowered_simps [simp]: "lowered (FInt i)" "lowered (FBytes b)" "lowered (FPairs ps)"
  by (simp_all add: lowered_def)

lemma lowered_address: "hex_address_match a \<Longrightarrow> lowered (FAddress (py_lower a))"
proof -
  assume "hex_address_match a"
  then have "take 2 (chop_newline a) = ''0x''" by (simp add: hex_address_match_def Let_def)
  moreover have "take 2 xs = ''0x'' \<Longrightarrow> take 2 (xs @ ys) = ''0x''" for xs ys
    by (cases xs; cases "tl xs") auto
  ultimately have "take 2 a = ''0x''"
    by (metis chop_newline_def append_butlast_last_id)
  then have "take 2 (py_lower a) = ''0x''"
    by (simp add: py_lower_def take_map lower_char_def)
  then show ?thesis by (simp add: lowered_def starts_with_def numeral_2_eq_2)
qed

lemma fsp_content_wf: "fsp_content t e f = Some c \<Longrightarrow> content_wf c"
  by (auto simp: fsp_content_def reward_content_def voter_content_def fast_content_def lowered_address
      rewards_hash_bytes_def split: if_splits option.splits)

lemma encoded_same:
  assumes "abi_faithful lib" "encoded lib ts a = Some x" "encoded lib ts b = Some x"
    and "list_all lowered a" "list_all lowered b"
  shows "a = b"
  using assms by (auto simp: abi_faithful_def encoded_def split: sum.splits)

lemma epoch_bytes_inj:
  assumes "be_bytes 32 e = be_bytes 32 e'" "0 \<le> e" "e \<le> max_uint24" "0 \<le> e'" "e' \<le> max_uint24"
  shows "e = e'"
  using assms by (intro be_bytes_inj [of e 32 e']) (simp_all add: max_uint24_def)

lemma policy_bound:
  assumes "\<And>x. length (k x) = 32" "32 < length bs" "32 < length bs'" "length (pad32 bs) = length (pad32 bs')"
    and "inj_on k (chain_inputs k (hd (chunks (pad32 bs))) (tl (chunks (pad32 bs))) \<union>
       chain_inputs k (hd (chunks (pad32 bs'))) (tl (chunks (pad32 bs'))))"
    and "signing_policy_hash k bs = signing_policy_hash k bs'"
  shows "pad32 bs = pad32 bs'"
proof -
  have two: "2 \<le> length (pad32 b) div 32" if "32 < length b" for b
    using length_pad32(3) [of b] that by simp
  have chunk: "length (chunk32 0 (pad32 b)) = 32 \<and> chunks (pad32 b) = chunk32 0 (pad32 b) # tl (chunks (pad32 b))"
    if "32 < length b" for b
    using two [OF that] length_pad32(3) [of b] that by (simp add: chunks_def chunk32_def upt_conv_Cons)
  then have hd: "hd (chunks (pad32 b)) = chunk32 0 (pad32 b)" if "32 < length b" for b
    using that by (metis list.sel(1))
  have "hd (chunks (pad32 bs)) = hd (chunks (pad32 bs')) \<and> tl (chunks (pad32 bs)) = tl (chunks (pad32 bs'))"
  proof (rule chain_injective [OF _ assms(1) assms(5)])
    show "length (tl (chunks (pad32 bs))) = length (tl (chunks (pad32 bs')))" using assms(4) by (simp add: chunks_def)
    show "length (hd (chunks (pad32 bs))) = length (hd (chunks (pad32 bs')))"
      using chunk assms(2,3) hd by simp
    show "foldl (\<lambda>h c. k (h @ c)) (hd (chunks (pad32 bs))) (tl (chunks (pad32 bs))) =
        foldl (\<lambda>h c. k (h @ c)) (hd (chunks (pad32 bs'))) (tl (chunks (pad32 bs')))"
      using assms(6) by (simp add: signing_policy_hash_chain assms(2,3))
  qed
  then have "chunks (pad32 bs) = chunks (pad32 bs')" using chunk assms(2,3) hd by metis
  then show ?thesis by (rule chunks_inj [OF assms(4) length_pad32(1)])
qed

lemma content_bound:
  assumes lib: "abi_faithful lib" "\<And>x. length (fl_keccak lib x) = 32"
    and wf: "content_wf c" "content_wf c'" and shape: "shape c = shape c'"
    and hash: "content_hash lib c = Some h" "content_hash lib c' = Some h"
    and inj: "inj_on (fl_keccak lib) (keccak_inputs lib c \<union> keccak_inputs lib c')"
      "inj_on sha256 (sha_inputs lib c \<union> sha_inputs lib c')"
  shows "padded c = padded c'"
proof -
  note k = inj_onD [OF inj(1)] and sha = inj_onD [OF inj(2)]
  show ?thesis
  proof (cases c)
    case (Uptime e)
    with shape obtain e' where c': "c' = Uptime e'" by (cases c') auto
    have "be_bytes 32 e @ fl_keccak lib (replicate 32 0) = be_bytes 32 e' @ fl_keccak lib (replicate 32 0)"
      by (rule k) (use hash in \<open>simp_all add: Uptime c'\<close>)
    with wf show ?thesis by (simp add: Uptime c' epoch_bytes_inj)
  next
    case (Reward e ch n r)
    with shape obtain e' ch' n' r' where c': "c' = Reward e' ch' n' r'" by (cases c') auto
    from hash obtain x x' where x: "encoding lib c = Some x" "encoding lib c' = Some x'"
      by (auto simp: Reward c')
    have "be_bytes 32 e @ fl_keccak lib x @ r = be_bytes 32 e' @ fl_keccak lib x' @ r'"
      by (rule k) (use hash x in \<open>simp_all add: Reward c'\<close>)
    then have "be_bytes 32 e = be_bytes 32 e'" "fl_keccak lib x = fl_keccak lib x'" "r = r'"
      by (simp_all add: lib(2))
    moreover from this(2) have "x = x'" by (rule k) (use x in \<open>simp_all add: Reward c'\<close>)
    ultimately show ?thesis
      using x encoded_same [OF lib(1)] wf by (fastforce simp: Reward c' intro: epoch_bytes_inj)
  next
    case (VoterLegacy e a)
    with shape obtain e' a' where c': "c' = VoterLegacy e' a'" by (cases c') auto
    from hash obtain x x' where x: "encoding lib c = Some x" "encoding lib c' = Some x'" by (auto simp: VoterLegacy c')
    have "x = x'" by (rule k) (use hash x in \<open>simp_all add: VoterLegacy c'\<close>)
    with x encoded_same [OF lib(1)] wf show ?thesis by (fastforce simp: VoterLegacy c')
  next
    case (VoterScoped e ch a)
    with shape obtain e' ch' a' where c': "c' = VoterScoped e' ch' a'" by (cases c') auto
    from hash obtain x x' where x: "encoding lib c = Some x" "encoding lib c' = Some x'" by (auto simp: VoterScoped c')
    have "x = x'" by (rule k) (use hash x in \<open>simp_all add: VoterScoped c'\<close>)
    with x encoded_same [OF lib(1)] wf show ?thesis by (fastforce simp: VoterScoped c')
  next
    case (SigningPolicy bs)
    with shape obtain bs' where c': "c' = SigningPolicy bs'" by (cases c') auto
    have "pad32 bs = pad32 bs'"
    proof (rule policy_bound [OF lib(2)])
      show "32 < length bs" "32 < length bs'" "length (pad32 bs) = length (pad32 bs')"
        using wf shape by (simp_all add: SigningPolicy c')
      show "signing_policy_hash (fl_keccak lib) bs = signing_policy_hash (fl_keccak lib) bs'"
        using hash by (simp add: SigningPolicy c')
    qed (use inj(1) in \<open>simp only: SigningPolicy c' keccak_inputs.simps\<close>)
    then show ?thesis by (simp add: SigningPolicy c')
  next
    case (ProtocolPayload bs)
    with shape obtain bs' where c': "c' = ProtocolPayload bs'" by (cases c') auto
    have "bs = bs'" by (rule k) (use hash in \<open>simp_all add: ProtocolPayload c'\<close>)
    then show ?thesis by (simp add: ProtocolPayload c')
  next
    case (FastUpdate ns ds)
    with shape obtain ns' ds' where c': "c' = FastUpdate ns' ds'" by (cases c') auto
    from hash obtain x x' where x: "encoding lib c = Some x" "encoding lib c' = Some x'" by (auto simp: FastUpdate c')
    have "x = x'" by (rule sha) (use hash x in \<open>simp_all add: FastUpdate c'\<close>)
    with x have "map FInt ns @ [FBytes ds] = map FInt ns' @ [FBytes ds']"
      by (intro encoded_same [OF lib(1)]) (auto simp: FastUpdate c' list_all_iff)
    then have "ns = ns'" "ds = ds'" by (auto simp: inj_map_eq_map inj_on_def)
    then show ?thesis by (simp add: FastUpdate c')
  qed
qed

subsection \<open>Properties\<close>

lemma build_cases:
  assumes "build_fsp_message lib t e f = Some m"
  obtains c where "fsp_content t e f = Some c" "content_hash lib c = Some (fm_message_hash m)"
    "fm_message_type m = t" "fm_reward_epoch_id m = e"
  using assms unfolding build_refines_content by (auto split: option.splits)

lemma chain_length:
  "(\<And>x. length (k x) = n) \<Longrightarrow> length h = n \<Longrightarrow> length (foldl (\<lambda>h i. k (h @ g i)) h xs) = n"
  by (induction xs arbitrary: h) simp_all

lemma content_hash_length:
  assumes "\<And>x. length (fl_keccak lib x) = 32" "content_hash lib c = Some h" "content_wf c"
  shows "length h = 32"
  using assms(2,3)
proof (cases c)
  case (SigningPolicy bs)
  then show ?thesis using assms(2) chain_length [OF assms(1) assms(1)]
    by (auto simp: signing_policy_hash_def Let_def split: if_splits)
qed (auto simp: assms(1))

text \<open>C32: what the builder returns is typed as the signer needs it: 32 bytes, of the type and the epoch asked
  for, the epoch in 24 bits, and only when exactly the arguments of that type were given.\<close>

theorem fsp_message_typed:
  assumes "\<And>x. length (fl_keccak lib x) = 32" "build_fsp_message lib t e f = Some m"
  shows "length (fm_message_hash m) = 32 \<and> fm_message_type m = t \<and> t \<in> set message_types \<and>
    fm_reward_epoch_id m = e \<and> 0 \<le> e \<and> e \<le> max_uint24 \<and> set (given f) \<subseteq> set (fields_of t)"
proof -
  from assms(2) obtain c where c: "fsp_content t e f = Some c" "content_hash lib c = Some (fm_message_hash m)"
    "fm_message_type m = t" "fm_reward_epoch_id m = e" by (rule build_cases)
  moreover have "length (fm_message_hash m) = 32"
    using content_hash_length [OF assms(1) c(2) fsp_content_wf [OF c(1)]] .
  moreover from c(1) have "t \<in> set message_types \<and> 0 \<le> e \<and> e \<le> max_uint24 \<and> set (given f) \<subseteq> set (fields_of t)"
    unfolding fsp_content_def by (meson option.distinct(1))
  ultimately show ?thesis by blast
qed

text \<open>The hash binds the message: two accepted messages of one type (for a signing policy: of one padded
  length) with the same hash say the same - for a reward distribution the epoch, the chain, the number of
  claims and the rewards hash - unless keccak or SHA-256 collides on the inputs of the two messages.\<close>

theorem fsp_hash_binds:
  assumes "abi_faithful lib" "\<And>x. length (fl_keccak lib x) = 32"
    and "build_fsp_message lib t e f = Some m" "build_fsp_message lib t e' f' = Some m'"
    and "fm_message_hash m = fm_message_hash m'"
    and "fsp_content t e f = Some c" "fsp_content t e' f' = Some c'" "shape c = shape c'"
    and "inj_on (fl_keccak lib) (keccak_inputs lib c \<union> keccak_inputs lib c')"
    and "inj_on sha256 (sha_inputs lib c \<union> sha_inputs lib c')"
  shows "padded c = padded c'"
proof (rule content_bound [OF assms(1,2) _ _ assms(8) _ _ assms(9,10)])
  show "content_wf c" "content_wf c'" using assms(6,7) by (simp_all add: fsp_content_wf)
  show "content_hash lib c = Some (fm_message_hash m)" "content_hash lib c' = Some (fm_message_hash m)"
    using assms(3-7) by (auto elim!: build_cases)
qed

definition no_fields :: fsp_fields where
  "no_fields = \<lparr>ff_chain_id = None, ff_no_of_weight_based_claims = None, ff_rewards_hash = None, ff_address = None,
     ff_signing_policy = None, ff_payload = None, ff_protocol_id = None, ff_registration_variant = None,
     ff_block_number = None, ff_replicate = None, ff_gamma_x = None, ff_gamma_y = None, ff_c = None, ff_s = None,
     ff_deltas = None\<rparr>"

lemma payload_build:
  assumes "0 \<le> e" "e \<le> max_uint24" "1 \<le> length p" "length p \<le> 4096"
  shows "build_fsp_message lib ''PROTOCOL_PAYLOAD'' e (no_fields\<lparr>ff_payload := Some (''0x'' @ bytes_hex p)\<rparr>) =
    Some \<lparr>fm_message_type = ''PROTOCOL_PAYLOAD'', fm_reward_epoch_id = e, fm_message_hash = fl_keccak lib p\<rparr>"
proof -
  have "decode_hex (Some (''0x'' @ bytes_hex p)) = Some p" by (simp add: decode_hex_def starts_with_def)
  then show ?thesis
    using assms
    by (simp add: build_refines_content content_of_type only_simps no_fields_def any_fast_update_def max_payload_bytes_def)
qed

text \<open>The last keccak input of a message.\<close>

lemma last_keccak_input:
  assumes "\<And>x. length (fl_keccak lib x) = 32" "content_hash lib c = Some h" "content_wf c" "shape c \<noteq> (6, 0)"
    and "\<And>x. encoding lib c = Some x \<Longrightarrow> 1 \<le> length x \<and> length x \<le> 4096"
    and "\<And>bs. c = ProtocolPayload bs \<Longrightarrow> 1 \<le> length bs \<and> length bs \<le> 4096"
  shows "\<exists>p. h = fl_keccak lib p \<and> 1 \<le> length p \<and> length p \<le> 4096"
proof (cases c)
  case (SigningPolicy bs)
  let ?k = "\<lambda>h c. fl_keccak lib (h @ c)"
  have n: "32 < length bs" "64 \<le> length (pad32 bs)" using assms(3) length_pad32(3) [of bs] by (simp_all add: SigningPolicy)
  define cs where "cs = tl (chunks (pad32 bs))"
  have len: "length x \<le> 32" if "x \<in> set (chunks b)" for x b using that by (auto simp: chunks_def chunk32_def)
  have "cs \<noteq> []" using n(2) by (simp add: cs_def chunks_def upt_conv_Cons)
  then obtain xs x where cs: "cs = xs @ [x]" by (cases cs rule: rev_cases) simp
  have set: "set cs \<subseteq> set (chunks (pad32 bs))" unfolding cs_def by (cases "chunks (pad32 bs)") auto
  have hd: "length (hd (chunks (pad32 bs))) = 32"
    using n(2) by (simp add: chunks_def chunk32_def upt_conv_Cons)
  have "h = fl_keccak lib (foldl ?k (hd (chunks (pad32 bs))) xs @ x)"
    using assms(2) by (simp add: SigningPolicy signing_policy_hash_chain [OF n(1)] cs_def [symmetric] cs)
  moreover have "length x \<le> 32" using set len by (auto simp: cs)
  ultimately show ?thesis using chain_length [where k = "fl_keccak lib" and g = "\<lambda>x. x" and xs = xs, OF assms(1) hd]
    by (intro exI [of _ "foldl ?k (hd (chunks (pad32 bs))) xs @ x"]) simp
next
  case (Uptime e)
  then show ?thesis
    using assms(1,2) by (intro exI [of _ "be_bytes 32 e @ fl_keccak lib (replicate 32 0)"]) simp
next
  case (Reward e ch n r)
  then obtain x where "h = fl_keccak lib (be_bytes 32 e @ fl_keccak lib x @ r)" using assms(2) by auto
  then show ?thesis
    using assms(1,3) Reward by (intro exI [of _ "be_bytes 32 e @ fl_keccak lib x @ r"]) simp
next
  case (ProtocolPayload bs)
  then show ?thesis using assms(2) assms(6) [of bs] by (intro exI [of _ bs]) simp
qed (use assms(2,4,5) in auto)

text \<open>The list of message types a caller may sign does not confine a caller allowed to sign protocol
  payloads: for every message of any type but a fast update there is a payload whose hash, and so whose
  signature, is that of the message.\<close>

theorem payload_covers_types:
  assumes "\<And>x. length (fl_keccak lib x) = 32" "build_fsp_message lib t e f = Some m" "t \<noteq> ''FAST_UPDATE''"
    and "\<And>c x. fsp_content t e f = Some c \<Longrightarrow> encoding lib c = Some x \<Longrightarrow> 1 \<le> length x \<and> length x \<le> 4096"
    and "0 \<le> e'" "e' \<le> max_uint24"
  shows "\<exists>p m'. build_fsp_message lib ''PROTOCOL_PAYLOAD'' e' (no_fields\<lparr>ff_payload := Some p\<rparr>) = Some m' \<and>
    fm_message_hash m' = fm_message_hash m"
proof -
  from assms(2) obtain c where c: "fsp_content t e f = Some c" "content_hash lib c = Some (fm_message_hash m)"
    by (rule build_cases)
  have "shape c \<noteq> (6, 0)"
    using c(1) assms(3)
    by (auto simp: fsp_content_def message_types_def reward_content_def voter_content_def split: if_splits option.splits)
  moreover have "1 \<le> length bs \<and> length bs \<le> 4096" if "c = ProtocolPayload bs" for bs
    using c(1) unfolding that
    by (auto simp: fsp_content_def reward_content_def voter_content_def fast_content_def max_payload_bytes_def
        split: if_splits option.splits)
  ultimately obtain p where "fm_message_hash m = fl_keccak lib p" "1 \<le> length p" "length p \<le> 4096"
    using last_keccak_input [OF assms(1) c(2) fsp_content_wf [OF c(1)]] assms(4) [OF c(1)] by blast
  with payload_build [OF assms(5,6), of p lib] show ?thesis by (metis fsp_message.select_convs(3))
qed

text \<open>A toy library: the hash cuts or pads to 32 bytes, the encoder knows one value.\<close>

definition sample_fsp_lib :: fsp_lib where
  "sample_fsp_lib = \<lparr>fl_keccak = (\<lambda>x. take 32 (x @ replicate 32 0)),
     fl_encode = (\<lambda>ts a. if a = [FPairs [(14, 3)]] then Inr [1] else Inl (ValueError []))\<rparr>"

definition sample_reward :: "char \<Rightarrow> fsp_fields" where
  "sample_reward d = no_fields\<lparr>ff_chain_id := Some 14, ff_no_of_weight_based_claims := Some 3,
     ff_rewards_hash := Some (''0x'' @ replicate 64 d)\<rparr>"

definition sample_reward_content :: fsp_content where
  "sample_reward_content = Reward 5 14 3 (replicate 32 0xaa)"

lemma sample_fsp_facts:
  "abi_faithful sample_fsp_lib" "length (fl_keccak sample_fsp_lib x) = 32"
  "fsp_content ''REWARD_DISTRIBUTION'' 5 (sample_reward CHR ''a'') = Some sample_reward_content"
  "fsp_content ''REWARD_DISTRIBUTION'' 5 (sample_reward CHR ''A'') = Some sample_reward_content"
  "content_hash sample_fsp_lib sample_reward_content = Some (be_bytes 32 5)"
proof -
  show "abi_faithful sample_fsp_lib" by (simp add: abi_faithful_def sample_fsp_lib_def)
  show "length (fl_keccak sample_fsp_lib x) = 32" by (simp add: sample_fsp_lib_def)
  show "fsp_content ''REWARD_DISTRIBUTION'' 5 (sample_reward CHR ''a'') = Some sample_reward_content"
    "fsp_content ''REWARD_DISTRIBUTION'' 5 (sample_reward CHR ''A'') = Some sample_reward_content"
    by code_simp+
  show "content_hash sample_fsp_lib sample_reward_content = Some (be_bytes 32 5)"
    by (simp add: sample_reward_content_def sample_fsp_lib_def encoded_def)
qed

lemma sample_reward_built:
  "build_fsp_message sample_fsp_lib ''REWARD_DISTRIBUTION'' 5 (sample_reward CHR ''a'') =
     Some \<lparr>fm_message_type = ''REWARD_DISTRIBUTION'', fm_reward_epoch_id = 5, fm_message_hash = be_bytes 32 5\<rparr>"
  "build_fsp_message sample_fsp_lib ''REWARD_DISTRIBUTION'' 5 (sample_reward CHR ''A'') =
     Some \<lparr>fm_message_type = ''REWARD_DISTRIBUTION'', fm_reward_epoch_id = 5, fm_message_hash = be_bytes 32 5\<rparr>"
  by (simp_all add: build_refines_content sample_fsp_facts)

lemma fsp_message_typed_witness:
  "length (be_bytes 32 5) = 32 \<and> set (given (sample_reward CHR ''a'')) \<subseteq> set (fields_of ''REWARD_DISTRIBUTION'')"
  using fsp_message_typed [OF sample_fsp_facts(2) sample_reward_built(1)] by simp

text \<open>Upper and lower case spellings of one rewards hash are one message.\<close>

lemma fsp_hash_binds_witness:
  "padded sample_reward_content = padded sample_reward_content \<and> sample_reward CHR ''a'' \<noteq> sample_reward CHR ''A''"
proof
  have inputs: "keccak_inputs sample_fsp_lib sample_reward_content = {[1], be_bytes 32 5 @ (1 # replicate 31 0) @ replicate 32 0xaa}"
    by (simp add: sample_reward_content_def sample_fsp_lib_def encoded_def)
  have diff: "fl_keccak sample_fsp_lib [1] \<noteq> fl_keccak sample_fsp_lib (be_bytes 32 5 @ (1 # replicate 31 0) @ replicate 32 0xaa)"
    by code_simp
  show "padded sample_reward_content = padded sample_reward_content"
  proof (rule fsp_hash_binds [OF sample_fsp_facts(1,2) sample_reward_built _ sample_fsp_facts(3,4)])
    show "inj_on (fl_keccak sample_fsp_lib)
       (keccak_inputs sample_fsp_lib sample_reward_content \<union> keccak_inputs sample_fsp_lib sample_reward_content)"
      unfolding inputs Un_absorb by (rule inj_onI) (use diff in auto)
    show "inj_on sha256 (sha_inputs sample_fsp_lib sample_reward_content \<union> sha_inputs sample_fsp_lib sample_reward_content)"
      by (simp add: sample_reward_content_def)
  qed simp_all
  show "sample_reward CHR ''a'' \<noteq> sample_reward CHR ''A''" by (simp add: sample_reward_def no_fields_def)
qed

lemma payload_covers_types_witness:
  "\<exists>p m'. build_fsp_message sample_fsp_lib ''PROTOCOL_PAYLOAD'' 1 (no_fields\<lparr>ff_payload := Some p\<rparr>) = Some m' \<and>
    fm_message_hash m' = be_bytes 32 7"
proof -
  have up: "build_fsp_message sample_fsp_lib ''UPTIME'' 7 no_fields =
      Some \<lparr>fm_message_type = ''UPTIME'', fm_reward_epoch_id = 7, fm_message_hash = be_bytes 32 7\<rparr>"
    and content: "fsp_content ''UPTIME'' 7 no_fields = Some (Uptime 7)"
    by (simp_all add: build_refines_content content_of_type max_uint24_def only_simps no_fields_def any_fast_update_def
        sample_fsp_lib_def)
  have "\<exists>p m'. build_fsp_message sample_fsp_lib ''PROTOCOL_PAYLOAD'' 1 (no_fields\<lparr>ff_payload := Some p\<rparr>) = Some m' \<and>
      fm_message_hash m' = fm_message_hash \<lparr>fm_message_type = ''UPTIME'', fm_reward_epoch_id = 7, fm_message_hash = be_bytes 32 7\<rparr>"
    by (rule payload_covers_types [OF sample_fsp_facts(2) up]) (auto simp: content max_uint24_def)
  then show ?thesis by simp
qed

end
