(* ===== verification/Sign_Fsp.thy ===== *)
theory Sign_Fsp
  imports Fsp_Message
begin

section \<open>Signing FSP messages\<close>

text \<open>
  \<open>app/fsp_policy.py\<close>, \<open>app/sign_fsp_message.py\<close>, the signer's EIP-191 half
  (\<open>infra/envelope_signer.py\<close>) and the endpoint \<open>POST /v1/sign-fsp-message\<close>.  There is no nonce, no
  transaction row and no idempotency key: one rate counter, one signature, one audit row.
\<close>

record fsp_request =
  fq_wallet :: string
  fq_caller :: string
  fq_message_type :: string
  fq_reward_epoch_id :: int
  fq_fields :: fsp_fields

subsection \<open>The FSP policy\<close>

datatype fsp_decision =
    FspAllow (fd_caller: string) (fd_wallet: string) (fd_message_type: string) (fd_path: string) (fd_rate: "rate_limit option")
  | FspDeny int string

text \<open>The UTF-8 bytes of the dash in one of the messages.\<close>

definition em_dash :: string where
  "em_dash = [CHR 0xE2, CHR 0x80, CHR 0x94]"

definition str_opt_int :: "int option \<Rightarrow> string" where
  "str_opt_int x = (case x of None \<Rightarrow> ''None'' | Some n \<Rightarrow> str_int n)"

text \<open>Steps 3 to 6: the checks of the permission block.\<close>

definition fsp_block_checks :: "policy \<Rightarrow> string \<Rightarrow> fsp_permission_block \<Rightarrow> fsp_request \<Rightarrow> fsp_decision option" where
  "fsp_block_checks policy path perm rq =
     (if map_of (p_permissions policy) path \<noteq> None
      then Some (FspDeny 3 ''policy_path is also an EVM permissions block (cross-domain forbidden)'')
      else if fq_message_type rq = ''UPTIME'' \<and> fb_chain_ids perm = []
      then Some (FspDeny 4 (''UPTIME requires explicit chain_ids '' @ em_dash @
        '' configure chain_ids to prevent cross-chain replay''))
      else if fb_chain_ids perm \<noteq> [] \<and>
          (case ff_chain_id (fq_fields rq) of None \<Rightarrow> True | Some c \<Rightarrow> c \<notin> set (fb_chain_ids perm))
      then Some (FspDeny 4 (''chain_id '' @ str_opt_int (ff_chain_id (fq_fields rq)) @ '' not in permitted chain_ids''))
      else if fq_message_type rq \<notin> set (fb_message_types perm)
      then Some (FspDeny 5 ''message_type not permitted'')
      else if fq_wallet rq \<notin> set (fb_wallet_allowlist perm)
      then Some (FspDeny 6 ''wallet not in fsp allowlist'')
      else None)"

definition fsp_binding :: "policy \<Rightarrow> caller \<Rightarrow> (fsp_decision, string \<times> fsp_permission_block) sum" where
  "fsp_binding policy c =
     (case map_of (p_callers policy) (c_name c) of
        None \<Rightarrow> Inl (FspDeny 1 ''caller not in policy'')
      | Some binding \<Rightarrow>
          if c_policy_path c \<noteq> cb_policy_path binding then Inl (FspDeny 1 ''caller policy_path drift'')
          else (case map_of (p_fsp_permissions policy) (cb_policy_path binding) of
             None \<Rightarrow> Inl (FspDeny 2 (''caller policy_path '' @ CHR 0x27 # cb_policy_path binding @ CHR 0x27 #
               '' has no fsp_permissions block''))
           | Some perm \<Rightarrow> Inr (cb_policy_path binding, perm)))"

definition evaluate_fsp :: "policy \<Rightarrow> caller \<Rightarrow> fsp_request \<Rightarrow> datetime \<Rightarrow> (rate_db, fsp_decision) op" where
  "evaluate_fsp policy c rq now =
     catchM
       (case fsp_binding policy c of
          Inl deny \<Rightarrow> ret deny
        | Inr (path, perm) \<Rightarrow>
            (case fsp_block_checks policy path perm rq of
               Some deny \<Rightarrow> ret deny
             | None \<Rightarrow>
                 bindM (check_and_increment_fsp_caller (c_name c) (fq_wallet rq) (fq_message_type rq) (fb_rate perm) now)
                   (\<lambda>ok. if \<not> ok then ret (FspDeny 7 ''fsp caller rate limit exceeded'')
                     else ret (FspAllow (c_name c) (fq_wallet rq) (fq_message_type rq) path (fb_rate perm)))))
       (\<lambda>e. ret (FspDeny 0 (''fsp evaluation error: '' @ exn_text e)))"

definition fsp_gate :: "policy \<Rightarrow> caller \<Rightarrow> fsp_request \<Rightarrow> datetime \<Rightarrow> (rate_db, fsp_decision) op" where
  "fsp_gate policy c rq now =
     bindM (evaluate_fsp policy c rq now) (\<lambda>d.
     case d of FspDeny step reason \<Rightarrow> raise (PolicyDenied step reason) | _ \<Rightarrow> ret d)"

definition release_fsp_rate_after_failure :: "fsp_decision \<Rightarrow> datetime \<Rightarrow> (rate_db, unit) op" where
  "release_fsp_rate_after_failure allow now =
     catchM (release_fsp_caller (fd_caller allow) (fd_wallet allow) (fd_message_type allow) (fd_rate allow) now)
       (\<lambda>e. ret ())"

subsection \<open>The signer\<close>

record signed_digest =
  sd_message_hash :: "byte list"
  sd_r :: int
  sd_s :: int
  sd_v :: int
  sd_signature :: "byte list"

text \<open>The sealed master's decryption, and \<open>eth_account\<close>'s signature over the EIP-191 envelope: r, s, v and
  the 65 bytes.\<close>

record fsp_signer =
  fs_decrypt :: "string \<Rightarrow> exn + byte list"
  fs_sign_message :: "byte list \<Rightarrow> byte list \<Rightarrow> exn + (int \<times> int \<times> int \<times> byte list)"

definition sign_fsp_eip191 :: "fsp_signer \<Rightarrow> string \<Rightarrow> byte list \<Rightarrow> (session, signed_digest) op" where
  "sign_fsp_eip191 lib name h =
     (if length h \<noteq> 32 then raise (ValueError ''message_hash_32 must be exactly 32 bytes'')
      else bindM (signer_wallet name) (\<lambda>w.
        bindM (ofSum (fs_decrypt lib (w_privkey_ciphertext w))) (\<lambda>key.
        bindM (ofSum (fs_sign_message lib key h)) (\<lambda>(r, s, v, sig).
        ret \<lparr>sd_message_hash = h, sd_r = r, sd_s = s, sd_v = v, sd_signature = sig\<rparr>))))"

subsection \<open>The use case\<close>

record fsp_env =
  fe_lib :: fsp_lib
  fe_signer :: fsp_signer
  fe_policy :: policy

record fsp_result =
  fr_message_hash :: string
  fr_v :: int
  fr_r :: string
  fr_s :: string
  fr_signature :: string

definition json_int_opt :: "int option \<Rightarrow> json" where
  "json_int_opt x = (case x of None \<Rightarrow> JNull | Some n \<Rightarrow> JInt n)"

definition fsp_request_fields :: "fsp_request \<Rightarrow> (string \<times> json) list" where
  "fsp_request_fields rq = (let f = fq_fields rq in
     [(''wallet'', JStr (fq_wallet rq)), (''message_type'', JStr (fq_message_type rq)),
      (''reward_epoch_id'', JInt (fq_reward_epoch_id rq)), (''chain_id'', json_int_opt (ff_chain_id f)),
      (''no_of_weight_based_claims'', json_int_opt (ff_no_of_weight_based_claims f)),
      (''rewards_hash'', json_opt (ff_rewards_hash f)), (''address'', json_opt (ff_address f)),
      (''signing_policy'', json_opt (ff_signing_policy f)), (''payload'', json_opt (ff_payload f)),
      (''protocol_id'', json_int_opt (ff_protocol_id f)),
      (''registration_variant'', json_opt (ff_registration_variant f)),
      (''block_number'', json_int_opt (ff_block_number f)), (''replicate'', json_int_opt (ff_replicate f)),
      (''gamma_x'', json_int_opt (ff_gamma_x f)), (''gamma_y'', json_int_opt (ff_gamma_y f)),
      (''c'', json_int_opt (ff_c f)), (''s'', json_int_opt (ff_s f)), (''deltas'', json_opt (ff_deltas f))])"

definition fsp_refuse ::
  "clock \<Rightarrow> fsp_request \<Rightarrow> caller \<Rightarrow> string \<Rightarrow> string \<Rightarrow> exn \<Rightarrow> (session, 'a) op" where
  "fsp_refuse ck rq c decision reason e =
     json_refuse ck ''fsp-sign-message'' decision (Some (c_name c)) (fsp_request_fields rq) reason None e"

text \<open>1. Resolve the wallet.\<close>

definition fsp_address_stage :: "fsp_request \<Rightarrow> (session, string) op" where
  "fsp_address_stage rq = catchM (signer_address (fq_wallet rq)) (\<lambda>e.
     case e of WalletNotFoundError _ \<Rightarrow> raise (WalletNotFound (fq_wallet rq)) | _ \<Rightarrow> raise e)"

text \<open>2. The policy gate.\<close>

definition fsp_gate_stage :: "policy \<Rightarrow> clock \<Rightarrow> fsp_request \<Rightarrow> caller \<Rightarrow> (session, fsp_decision) op" where
  "fsp_gate_stage policy ck rq c =
     catchM (on_rates (fsp_gate policy c rq (ck_now ck))) (\<lambda>e.
     case e of
       PolicyDenied step reason \<Rightarrow>
         fsp_refuse ck rq c ''denied'' (policy_denied_text step reason) (PolicyDenied step reason)
     | _ \<Rightarrow> raise e)"

text \<open>3. Rebuild the message hash; the chain id of the gate goes into it only for the types that hash it.\<close>

definition build_chain_id :: "fsp_request \<Rightarrow> int option" where
  "build_chain_id rq =
     (if fq_message_type rq = ''UPTIME'' then None
      else if fq_message_type rq = ''VOTER_REGISTRATION'' \<and> ff_registration_variant (fq_fields rq) = Some ''legacy'' then None
      else if fq_message_type rq \<in> {''SIGNING_POLICY'', ''PROTOCOL_PAYLOAD'', ''FAST_UPDATE''} then None
      else ff_chain_id (fq_fields rq))"

definition request_message :: "fsp_lib \<Rightarrow> fsp_request \<Rightarrow> fsp_message option" where
  "request_message lib rq =
     build_fsp_message lib (fq_message_type rq) (fq_reward_epoch_id rq)
       ((fq_fields rq)\<lparr>ff_chain_id := build_chain_id rq\<rparr>)"

definition fsp_build_stage :: "fsp_lib \<Rightarrow> clock \<Rightarrow> fsp_request \<Rightarrow> caller \<Rightarrow> fsp_decision \<Rightarrow> (session, fsp_message) op" where
  "fsp_build_stage lib ck rq c allow =
     (case request_message lib rq of
        Some m \<Rightarrow> ret m
      | None \<Rightarrow> thenM (on_rates (release_fsp_rate_after_failure allow (ck_now ck)))
          (fsp_refuse ck rq c ''error'' ''fsp_message_malformed'' (FspMessageMalformed (fq_message_type rq))))"

text \<open>4. Sign it.\<close>

definition fsp_sign_stage ::
  "fsp_signer \<Rightarrow> clock \<Rightarrow> fsp_request \<Rightarrow> caller \<Rightarrow> fsp_decision \<Rightarrow> fsp_message \<Rightarrow> (session, signed_digest) op" where
  "fsp_sign_stage lib ck rq c allow m =
     catchM (sign_fsp_eip191 lib (fq_wallet rq) (fm_message_hash m)) (\<lambda>e.
     case e of
       SealError \<Rightarrow> thenM (on_rates (release_fsp_rate_after_failure allow (ck_now ck)))
         (fsp_refuse ck rq c ''error'' ''sign_failure'' FspVaultUnavailableError)
     | _ \<Rightarrow> raise e)"

text \<open>\<open>format(n, "064x")\<close>.\<close>

fun nat_hex :: "nat \<Rightarrow> string" where
  "nat_hex n = (if n < 16 then [hex_char n] else nat_hex (n div 16) @ [hex_char (n mod 16)])"

declare nat_hex.simps [simp del]

definition hex064 :: "int \<Rightarrow> string" where
  "hex064 n = (let sign = (if n < 0 then ''-'' else []); ds = nat_hex (nat \<bar>n\<bar>) in
     sign @ replicate (64 - length sign - length ds) CHR ''0'' @ ds)"

definition fsp_result_of :: "signed_digest \<Rightarrow> fsp_result" where
  "fsp_result_of d = \<lparr>fr_message_hash = ''0x'' @ bytes_hex (sd_message_hash d), fr_v = sd_v d,
     fr_r = ''0x'' @ hex064 (sd_r d), fr_s = ''0x'' @ hex064 (sd_s d), fr_signature = ''0x'' @ bytes_hex (sd_signature d)\<rparr>"

definition fsp_outcome :: "fsp_result \<Rightarrow> (string \<times> json) list" where
  "fsp_outcome r = [(''message_hash'', JStr (fr_message_hash r)), (''v'', JInt (fr_v r)), (''r'', JStr (fr_r r)),
     (''s'', JStr (fr_s r)), (''signature'', JStr (fr_signature r))]"

definition sign_fsp_message :: "fsp_env \<Rightarrow> clock \<Rightarrow> fsp_request \<Rightarrow> caller \<Rightarrow> (session, fsp_result) op" where
  "sign_fsp_message env ck rq c =
     (if fq_caller rq = [] \<or> 64 < length (fq_caller rq)
      then raise (ValueError ''caller must be a non-empty string with len <= 64'')
      else thenM (fsp_address_stage rq)
        (bindM (fsp_gate_stage (fe_policy env) ck rq c) (\<lambda>allow.
         bindM (fsp_build_stage (fe_lib env) ck rq c allow) (\<lambda>m.
         bindM (fsp_sign_stage (fe_signer env) ck rq c allow m) (\<lambda>d.
         thenM (json_audit ck ''fsp-sign-message'' ''approved'' (Some (c_name c)) (fsp_request_fields rq) None
             (Some (fsp_outcome (fsp_result_of d))))
           (ret (fsp_result_of d)))))))"

subsection \<open>The endpoint\<close>

record fsp_body =
  fsb_wallet :: string
  fsb_message_type :: string
  fsb_reward_epoch_id :: int
  fsb_fields :: fsp_fields

definition hex32_match :: "string \<Rightarrow> bool" where
  "hex32_match s = (let v = chop_newline s in
     take 2 v = ''0x'' \<and> length v = 66 \<and> list_all is_hex_char (drop 2 v))"

text \<open>The field constraints.\<close>

definition ge0 :: "int option \<Rightarrow> bool" where
  "ge0 x = (case x of None \<Rightarrow> True | Some n \<Rightarrow> 0 \<le> n)"

definition in_uint256 :: "int option \<Rightarrow> bool" where
  "in_uint256 x = (case x of None \<Rightarrow> True | Some n \<Rightarrow> 0 \<le> n \<and> n \<le> max_uint256)"

definition fsp_fields_valid :: "fsp_body \<Rightarrow> bool" where
  "fsp_fields_valid b \<longleftrightarrow> (let f = fsb_fields b in
     1 \<le> length (fsb_wallet b) \<and> length (fsb_wallet b) \<le> 64 \<and> fsb_message_type b \<in> set message_types \<and>
     0 \<le> fsb_reward_epoch_id b \<and> fsb_reward_epoch_id b \<le> max_uint24 \<and>
     (case ff_chain_id f of None \<Rightarrow> False | Some n \<Rightarrow> 1 \<le> n) \<and>
     ge0 (ff_no_of_weight_based_claims f) \<and> ge0 (ff_protocol_id f) \<and>
     (case ff_registration_variant f of None \<Rightarrow> True | Some v \<Rightarrow> v = ''legacy'' \<or> v = ''chain_scoped'') \<and>
     in_uint256 (ff_block_number f) \<and> in_uint256 (ff_replicate f) \<and> in_uint256 (ff_gamma_x f) \<and>
     in_uint256 (ff_gamma_y f) \<and> in_uint256 (ff_c f) \<and> in_uint256 (ff_s f))"

text \<open>\<open>_shape\<close>.\<close>

definition fsp_shape :: "string \<Rightarrow> fsp_fields \<Rightarrow> bool" where
  "fsp_shape t f =
     (if t = ''UPTIME'' then
        ff_no_of_weight_based_claims f = None \<and> ff_rewards_hash f = None \<and> ff_address f = None \<and>
        ff_signing_policy f = None \<and> ff_payload f = None \<and> ff_protocol_id f = None \<and>
        ff_registration_variant f = None \<and> \<not> any_fast_update f
      else if t = ''REWARD_DISTRIBUTION'' then
        ff_chain_id f \<noteq> None \<and> ff_no_of_weight_based_claims f \<noteq> None \<and>
        (case ff_rewards_hash f of None \<Rightarrow> False | Some h \<Rightarrow> hex32_match h) \<and>
        ff_address f = None \<and> ff_signing_policy f = None \<and> ff_payload f = None \<and> ff_protocol_id f = None \<and>
        ff_registration_variant f = None \<and> \<not> any_fast_update f
      else if t = ''VOTER_REGISTRATION'' then
        (case ff_address f of None \<Rightarrow> False | Some a \<Rightarrow> hex_address_match a) \<and>
        (ff_registration_variant f = Some ''legacy'' \<or> ff_registration_variant f = Some ''chain_scoped'') \<and>
        ff_no_of_weight_based_claims f = None \<and> ff_rewards_hash f = None \<and> ff_signing_policy f = None \<and>
        ff_payload f = None \<and> ff_protocol_id f = None \<and> \<not> any_fast_update f
      else if t = ''SIGNING_POLICY'' then
        ff_signing_policy f \<noteq> None \<and> ff_address f = None \<and> ff_no_of_weight_based_claims f = None \<and>
        ff_rewards_hash f = None \<and> ff_payload f = None \<and> ff_protocol_id f = None \<and>
        ff_registration_variant f = None \<and> \<not> any_fast_update f
      else if t = ''PROTOCOL_PAYLOAD'' then
        ff_payload f \<noteq> None \<and> ff_address f = None \<and> ff_no_of_weight_based_claims f = None \<and>
        ff_rewards_hash f = None \<and> ff_signing_policy f = None \<and> ff_registration_variant f = None \<and>
        \<not> any_fast_update f
      else
        ff_block_number f \<noteq> None \<and> ff_replicate f \<noteq> None \<and> ff_gamma_x f \<noteq> None \<and> ff_gamma_y f \<noteq> None \<and>
        ff_c f \<noteq> None \<and> ff_s f \<noteq> None \<and> ff_deltas f \<noteq> None \<and>
        ff_no_of_weight_based_claims f = None \<and> ff_rewards_hash f = None \<and> ff_address f = None \<and>
        ff_signing_policy f = None \<and> ff_payload f = None \<and> ff_protocol_id f = None \<and>
        ff_registration_variant f = None)"

definition fsp_body_valid :: "fsp_body \<Rightarrow> bool" where
  "fsp_body_valid b \<longleftrightarrow> fsp_fields_valid b \<and> fsp_shape (fsb_message_type b) (fsb_fields b)"

definition fsp_body_request :: "fsp_body \<Rightarrow> string \<Rightarrow> fsp_request" where
  "fsp_body_request b name = \<lparr>fq_wallet = fsb_wallet b, fq_caller = name, fq_message_type = fsb_message_type b,
     fq_reward_epoch_id = fsb_reward_epoch_id b, fq_fields = fsb_fields b\<rparr>"

definition fsp_http :: "exn \<Rightarrow> exn" where
  "fsp_http e = (case e of
     PolicyDenied _ _ \<Rightarrow> HTTPException 403 ''policy_denied''
   | WalletNotFound _ \<Rightarrow> HTTPException 403 ''policy_denied''
   | FspMessageMalformed _ \<Rightarrow> HTTPException 422 ''fsp_message_malformed''
   | FspVaultUnavailableError \<Rightarrow> HTTPException 503 ''vault_unavailable''
   | _ \<Rightarrow> e)"

definition fsp_handler :: "fsp_env \<Rightarrow> bool \<Rightarrow> clock \<Rightarrow> fsp_body \<Rightarrow> caller \<Rightarrow> (db, fsp_result) op" where
  "fsp_handler env vault ck b c =
     catchM (sealed_scope vault (sign_fsp_message env ck (fsp_body_request b (c_name c)) c))
       (\<lambda>e. raise (fsp_http e))"

definition post_sign_fsp_message ::
  "fsp_env \<Rightarrow> (string \<Rightarrow> string \<Rightarrow> bool option) \<Rightarrow> bool \<Rightarrow> clock \<Rightarrow> string option \<Rightarrow> fsp_body \<Rightarrow> (db, fsp_result) op" where
  "post_sign_fsp_message env verifies vault ck authorization b =
     bindM (authenticate verifies authorization) (\<lambda>c.
     if \<not> fsp_body_valid b then raise (HTTPException 422 ''validation'')
     else fsp_handler env vault ck b c)"

end
