(* ===== verification/Fsp_Correct.thy ===== *)
theory Fsp_Correct
  imports Sign_Fsp Accounts_Correct
begin

section \<open>What signing an FSP message does\<close>

text \<open>The outcomes of the FSP gate and of the whole use case as case rules, then the properties of the
  endpoint: what a signature proves was checked, that a failure is net-zero, that a retry gives the same
  bytes, and that a request passing every check is signed.\<close>

subsection \<open>The gate\<close>

lemma evaluate_fsp_cases:
  obtains (denied) step reason where "evaluate_fsp policy c rq now t = (Inr (FspDeny step reason), t)"
  | (allowed) path perm r t' where "fsp_binding policy c = Inr (path, perm)"
      "fsp_block_checks policy path perm rq = None" "fb_rate perm = Some r"
      "below_caps r now (fb_count (c_name c, fq_wallet rq, fq_message_type rq) t)"
      "evaluate_fsp policy c rq now t =
         (Inr (FspAllow (c_name c) (fq_wallet rq) (fq_message_type rq) path (fb_rate perm)), t')"
      "check_and_increment_fsp_caller (c_name c) (fq_wallet rq) (fq_message_type rq) (fb_rate perm) now t = (Inr True, t')"
proof (cases "fsp_binding policy c")
  case (Inl deny)
  then obtain step reason where "deny = FspDeny step reason"
    by (auto simp: fsp_binding_def split: option.splits if_splits)
  with Inl denied show thesis by (simp add: evaluate_fsp_def catchM_def)
next
  case (Inr pp)
  obtain path perm where pp: "pp = (path, perm)" by fastforce
  show thesis
  proof (cases "fsp_block_checks policy path perm rq")
    case (Some deny)
    then obtain step reason where "deny = FspDeny step reason"
      by (auto simp: fsp_block_checks_def split: if_splits)
    with Inr pp Some denied show thesis by (simp add: evaluate_fsp_def catchM_def)
  next
    case None
    obtain res t' where run: "check_and_increment_fsp_caller (c_name c) (fq_wallet rq) (fq_message_type rq)
        (fb_rate perm) now t = (res, t')" by fastforce
    from run show thesis
    proof (cases rule: fsp_check_cases)
      case refused
      with run Inr pp None denied show thesis by (simp add: evaluate_fsp_def catchM_def bindM_run)
    next
      case (granted r)
      with run Inr pp None allowed [of path perm r t'] show thesis
        by (simp add: evaluate_fsp_def catchM_def bindM_run)
    qed
  qed
qed

text \<open>Releasing what an allowed request took.\<close>

definition fsp_released :: "fsp_decision \<Rightarrow> datetime \<Rightarrow> rate_db \<Rightarrow> rate_db" where
  "fsp_released allow now t = snd (release_fsp_rate_after_failure allow now t)"

lemma release_fsp_after_run: "release_fsp_rate_after_failure allow now t = (Inr (), fsp_released allow now t)"
  using release_fsp_run [of "fd_caller allow" "fd_wallet allow" "fd_message_type allow" "fd_rate allow" now t]
  by (auto simp: release_fsp_rate_after_failure_def fsp_released_def catchM_def)

lemma fsp_release_restores:
  assumes "check_and_increment_fsp_caller c w m rate now t = (Inr True, t')" "counters_nonneg t"
  shows "same_rates t (fsp_released (FspAllow c w m path rate) now t')"
  using assms(1)
proof (cases rule: fsp_check_cases)
  case (granted r)
  obtain u where u: "release_fsp_caller c w m rate now t' = (Inr (), u)"
    "wallet_buckets u = wallet_buckets t'" "rate_buckets u = rate_buckets t'"
    "\<And>j wk ws. fb_count j u wk ws = fb_count j t' wk ws -
        (case rate of None \<Rightarrow> 0 | Some r \<Rightarrow> if j = (c, w, m) \<and> hits r now wk ws \<and> 0 < fb_count j t' wk ws then 1 else 0)"
    using release_fsp_run [of c w m rate now t'] by blast
  have "fsp_released (FspAllow c w m path rate) now t' = u"
    using u(1) by (simp add: fsp_released_def release_fsp_rate_after_failure_def catchM_def)
  moreover have "fb_count j u wk ws = fb_count j t wk ws" for j wk ws
  proof -
    have "0 \<le> fb_count j t wk ws" using assms(2) by (cases j) (auto simp: counters_nonneg_def)
    then show ?thesis by (auto simp: u(4) granted(1,4))
  qed
  ultimately show ?thesis
    using counts_cong [of u t] u(2,3) granted(5,6) by (simp add: same_rates_def)
qed simp

subsection \<open>The stages\<close>

lemma fsp_word: "''fsp-sign-message'' \<in> set valid_actions"
  by (simp add: valid_actions_def)

lemma fsp_refuse_run:
  assumes "decision \<in> set valid_decisions"
  shows "\<exists>d'. (fsp_refuse ck rq c decision reason e :: (session, 'a) op) s = (Inl e, open_session d') \<and>
    audit_grown ''fsp-sign-message'' decision (work s) d'"
  unfolding fsp_refuse_def by (rule json_refuse_run [OF fsp_word assms])

lemma fsp_address_run:
  "fsp_address_stage rq s = (case find_wallet (fq_wallet rq) (db_wallets (work s)) of
     None \<Rightarrow> (Inl (WalletNotFound (fq_wallet rq)), s) | Some w \<Rightarrow> (Inr (w_address w), s))"
  by (simp add: fsp_address_stage_def signer_address_def bindM_run catchM_def signer_wallet_run split: option.split)

text \<open>The signature as a function of the stored wallet.\<close>

definition fsp_signature :: "fsp_signer \<Rightarrow> wallet \<Rightarrow> byte list \<Rightarrow> exn + signed_digest" where
  "fsp_signature lib w h =
     (if length h \<noteq> 32 then Inl (ValueError ''message_hash_32 must be exactly 32 bytes'')
      else case fs_decrypt lib (w_privkey_ciphertext w) of
        Inl e \<Rightarrow> Inl e
      | Inr key \<Rightarrow>
          (case fs_sign_message lib key h of
             Inl e \<Rightarrow> Inl e
           | Inr (r, s, v, sig) \<Rightarrow>
               Inr \<lparr>sd_message_hash = h, sd_r = r, sd_s = s, sd_v = v, sd_signature = sig\<rparr>))"

lemma sign_fsp_eip191_run:
  "find_wallet name (db_wallets (work s)) = Some w \<Longrightarrow> sign_fsp_eip191 lib name h s = (fsp_signature lib w h, s)"
  by (auto simp: sign_fsp_eip191_def fsp_signature_def bindM_run signer_wallet_run split: sum.splits)

lemma on_rates_release:
  "on_rates (release_fsp_rate_after_failure allow now) s =
     (Inr (), put_rates (fsp_released allow now (db_rates (work s))) s)"
  by (simp add: on_run release_fsp_after_run)

text \<open>A failure after the gate: the rate is released, an error row committed.\<close>

lemma release_then_refuse:
  "\<exists>d'. thenM (on_rates (release_fsp_rate_after_failure allow now)) (fsp_refuse ck rq c ''error'' reason e :: (session, 'a) op) s =
     (Inl e, open_session d') \<and>
     audit_grown ''fsp-sign-message'' ''error'' ((work s)\<lparr>db_rates := fsp_released allow now (db_rates (work s))\<rparr>) d'"
proof -
  obtain d' where "(fsp_refuse ck rq c ''error'' reason e :: (session, 'a) op)
      (put_rates (fsp_released allow now (db_rates (work s))) s) = (Inl e, open_session d')"
    "audit_grown ''fsp-sign-message'' ''error'' (work (put_rates (fsp_released allow now (db_rates (work s))) s)) d'"
    using fsp_refuse_run [OF decision_words(3)] by blast
  then show ?thesis by (intro exI [of _ d']) (simp add: on_rates_release put_rates_def)
qed

lemma fsp_gate_stage_cases:
  obtains (denied) step reason d' where "fsp_gate_stage policy ck rq c (open_session d) = (Inl (PolicyDenied step reason), open_session d')"
      "audit_grown ''fsp-sign-message'' ''denied'' d d'"
      "evaluate_fsp policy c rq (ck_now ck) (db_rates d) = (Inr (FspDeny step reason), db_rates d)"
  | (allowed) path perm r t where "fsp_binding policy c = Inr (path, perm)"
      "fsp_block_checks policy path perm rq = None" "fb_rate perm = Some r"
      "below_caps r (ck_now ck) (fb_count (c_name c, fq_wallet rq, fq_message_type rq) (db_rates d))"
      "fsp_gate_stage policy ck rq c (open_session d) =
        (Inr (FspAllow (c_name c) (fq_wallet rq) (fq_message_type rq) path (fb_rate perm)), put_rates t (open_session d))"
      "check_and_increment_fsp_caller (c_name c) (fq_wallet rq) (fq_message_type rq) (fb_rate perm) (ck_now ck) (db_rates d) =
        (Inr True, t)"
proof (cases rule: evaluate_fsp_cases [where policy = policy and c = c and rq = rq and now = "ck_now ck" and t = "db_rates d"])
  case (denied step reason)
  obtain d' where "(fsp_refuse ck rq c ''denied'' (policy_denied_text step reason) (PolicyDenied step reason) ::
      (session, fsp_decision) op) (open_session d) = (Inl (PolicyDenied step reason), open_session d')"
    "audit_grown ''fsp-sign-message'' ''denied'' d d'"
    using fsp_refuse_run [OF decision_words(2), where s = "open_session d"] by (metis open_session_simps(1))
  moreover have "put_rates (db_rates d) (open_session d) = open_session d"
    using put_same(5) [of "open_session d"] by simp
  ultimately show thesis using denied that(1)
    by (simp add: fsp_gate_stage_def fsp_gate_def on_run bindM_run catchM_def)
next
  case (allowed path perm r t)
  then show thesis using that(2) [of path perm r t]
    by (simp add: fsp_gate_stage_def fsp_gate_def on_run bindM_run catchM_def)
qed

text \<open>What follows an allowing decision.\<close>

lemma fsp_tail_cases:
  fixes t d and allow :: fsp_decision
  defines "s1 \<equiv> put_rates t (open_session d)"
  assumes wallet: "find_wallet (fq_wallet rq) (db_wallets d) = Some w"
    and run: "bindM (fsp_build_stage (fe_lib env) ck rq c allow) (\<lambda>m.
        bindM (fsp_sign_stage (fe_signer env) ck rq c allow m) (\<lambda>d.
        thenM (json_audit ck ''fsp-sign-message'' ''approved'' (Some (c_name c)) (fsp_request_fields rq) None
            (Some (fsp_outcome (fsp_result_of d))))
          (ret (fsp_result_of d)))) s1 = (res, s')"
  obtains (released) e du where "res = Inl e" "s' = open_session du"
      "audit_grown ''fsp-sign-message'' ''error'' (d\<lparr>db_rates := fsp_released allow (ck_now ck) t\<rparr>) du"
  | (rolled) e where "res = Inl e" "durable s' = d"
  | (signed) m sd where "request_message (fe_lib env) rq = Some m"
      "fsp_signature (fe_signer env) w (fm_message_hash m) = Inr sd" "res = Inr (fsp_result_of sd)"
      "audit_grown ''fsp-sign-message'' ''approved'' (d\<lparr>db_rates := t\<rparr>) (work s')"
proof -
  have work: "work s1 = d\<lparr>db_rates := t\<rparr>" "durable s1 = d" by (simp_all add: s1_def put_rates_def)
  show thesis
  proof (cases "request_message (fe_lib env) rq")
    case None
    obtain e du where "fsp_build_stage (fe_lib env) ck rq c allow s1 = (Inl e, open_session du)"
      "audit_grown ''fsp-sign-message'' ''error'' (d\<lparr>db_rates := fsp_released allow (ck_now ck) t\<rparr>) du"
      using release_then_refuse [of allow "ck_now ck" ck rq c "''fsp_message_malformed''"
        "FspMessageMalformed (fq_message_type rq)" s1, where 'a = fsp_message] None
      unfolding work(1) fsp_build_stage_def by (auto simp: s1_def put_rates_def)
    with run show thesis by (intro released [of e du]) simp_all
  next
    case m: (Some m)
    then have built: "fsp_build_stage (fe_lib env) ck rq c allow s1 = (Inr m, s1)"
      by (simp add: fsp_build_stage_def)
    have sign: "sign_fsp_eip191 (fe_signer env) (fq_wallet rq) (fm_message_hash m) s1 =
        (fsp_signature (fe_signer env) w (fm_message_hash m), s1)"
      by (rule sign_fsp_eip191_run) (simp add: work wallet)
    show thesis
    proof (cases "fsp_signature (fe_signer env) w (fm_message_hash m)")
      case sealed: (Inl e)
      show thesis
      proof (cases "e = SealError")
        case True
        obtain e du where "fsp_sign_stage (fe_signer env) ck rq c allow m s1 = (Inl e, open_session du)"
          "audit_grown ''fsp-sign-message'' ''error'' (d\<lparr>db_rates := fsp_released allow (ck_now ck) t\<rparr>) du"
          using release_then_refuse [of allow "ck_now ck" ck rq c "''sign_failure''" FspVaultUnavailableError s1,
            where 'a = signed_digest] sign sealed True
          unfolding work(1) fsp_sign_stage_def by (auto simp: catchM_def s1_def put_rates_def)
        with run built show thesis by (intro released [of e du]) simp_all
      next
        case False
        with sign sealed have "fsp_sign_stage (fe_signer env) ck rq c allow m s1 = (Inl e, s1)"
          by (cases e) (simp_all add: fsp_sign_stage_def catchM_def)
        with run built work(2) show thesis by (intro rolled [of e]) auto
      qed
    next
      case (Inr sd)
      with sign have "fsp_sign_stage (fe_signer env) ck rq c allow m s1 = (Inr sd, s1)"
        by (simp add: fsp_sign_stage_def catchM_def)
      moreover obtain du where "thenM (json_audit ck ''fsp-sign-message'' ''approved'' (Some (c_name c)) (fsp_request_fields rq) None
          (Some (fsp_outcome (fsp_result_of sd)))) (ret (fsp_result_of sd)) s1 = (Inr (fsp_result_of sd), s1\<lparr>work := du\<rparr>)"
        "audit_grown ''fsp-sign-message'' ''approved'' (d\<lparr>db_rates := t\<rparr>) du"
        using audited_step [OF fsp_word decision_words(1), of ck "Some (c_name c)" "fsp_request_fields rq" None
          "Some (fsp_outcome (fsp_result_of sd))" "fsp_result_of sd" s1] by (auto simp: work)
      ultimately show thesis
        using run built m Inr by (intro signed [of m sd]) auto
    qed
  qed
qed

lemma sign_fsp_cases:
  assumes "session_scope False (sign_fsp_message env ck rq c) d = (res, d')"
  obtains (refused) e where "res = Inl e" "audit_refused ''fsp-sign-message'' d d'"
  | (failed) e t where "res = Inl e" "audit_grown ''fsp-sign-message'' ''error'' (d\<lparr>db_rates := t\<rparr>) d'"
      "counters_nonneg (db_rates d) \<Longrightarrow> same_rates (db_rates d) t"
  | (signed) w path perm r t m sd where "find_wallet (fq_wallet rq) (db_wallets d) = Some w"
      "fsp_binding (fe_policy env) c = Inr (path, perm)" "fsp_block_checks (fe_policy env) path perm rq = None"
      "fb_rate perm = Some r"
      "below_caps r (ck_now ck) (fb_count (c_name c, fq_wallet rq, fq_message_type rq) (db_rates d))"
      "check_and_increment_fsp_caller (c_name c) (fq_wallet rq) (fq_message_type rq) (fb_rate perm) (ck_now ck) (db_rates d) =
        (Inr True, t)"
      "request_message (fe_lib env) rq = Some m" "fsp_signature (fe_signer env) w (fm_message_hash m) = Inr sd"
      "res = Inr (fsp_result_of sd)" "audit_grown ''fsp-sign-message'' ''approved'' (d\<lparr>db_rates := t\<rparr>) d'"
proof -
  let ?s = "open_session d"
  note fsp_refused = refused and fsp_failed = failed and fsp_signed = signed
  have rolled: thesis if "sign_fsp_message env ck rq c ?s = (Inl e, s)" "durable s = d" for e s
    using that assms refused by (auto simp: session_scope_def audit_refused_def)
  show thesis
  proof (cases "fq_caller rq = [] \<or> 64 < length (fq_caller rq)")
    case True
    then show thesis by (intro rolled [of _ ?s]) (auto simp: sign_fsp_message_def)
  next
    case caller: False
    show thesis
    proof (cases "find_wallet (fq_wallet rq) (db_wallets d)")
      case None
      with caller show thesis by (intro rolled [of _ ?s]) (auto simp: sign_fsp_message_def thenM_def bindM_run fsp_address_run)
    next
      case (Some w)
      with caller have start: "sign_fsp_message env ck rq c ?s =
          bindM (fsp_gate_stage (fe_policy env) ck rq c) (\<lambda>allow.
         bindM (fsp_build_stage (fe_lib env) ck rq c allow) (\<lambda>m.
         bindM (fsp_sign_stage (fe_signer env) ck rq c allow m) (\<lambda>d.
         thenM (json_audit ck ''fsp-sign-message'' ''approved'' (Some (c_name c)) (fsp_request_fields rq) None
             (Some (fsp_outcome (fsp_result_of d))))
           (ret (fsp_result_of d))))) ?s"
        by (auto simp: sign_fsp_message_def fsp_address_run thenM_def bindM_run)
      show thesis
      proof (cases rule: fsp_gate_stage_cases [where policy = "fe_policy env" and ck = ck and rq = rq and c = c and d = d])
        case (denied step reason du)
        with start assms refused show thesis by (auto simp: session_scope_def audit_refused_def)
      next
        case (allowed path perm r t)
        let ?allow = "FspAllow (c_name c) (fq_wallet rq) (fq_message_type rq) path (fb_rate perm)"
        obtain res' s' where go: "sign_fsp_message env ck rq c ?s = (res', s')" by fastforce
        from Some go [unfolded start bindM_Inr [where m = "fsp_gate_stage (fe_policy env) ck rq c", OF allowed(5)]] show thesis
        proof (cases rule: fsp_tail_cases)
          case (released e du)
          with go assms fsp_release_restores [OF allowed(6)] show thesis
            by (intro fsp_failed [of e "fsp_released ?allow (ck_now ck) t"]) (auto simp: session_scope_def)
        next
          case rolled': (rolled e)
          with go show thesis by (intro rolled [of e s']) simp_all
        next
          case (signed m sd)
          with allowed go assms Some show thesis
            by (intro fsp_signed [of w path perm r t m sd]) (auto simp: session_scope_def)
        qed
      qed
    qed
  qed
qed

lemma fsp_handler_cases:
  assumes "fsp_handler env vault ck b c d = (res, d')"
  obtains (down) "\<not> vault" "res = Inl ScopeVaultUnavailableError" "d' = d"
  | (ran) r where "vault" "session_scope False (sign_fsp_message env ck (fsp_body_request b (c_name c)) c) d = (r, d')"
      "res = map_sum fsp_http id r"
  using assms by (cases vault; cases "session_scope False (sign_fsp_message env ck (fsp_body_request b (c_name c)) c) d")
    (auto simp: fsp_handler_def sealed_scope_def catchM_def fsp_http_def split: sum.splits)

lemma fsp_binding_ok:
  "fsp_binding policy c = Inr (path, perm) \<longleftrightarrow>
     (\<exists>b. map_of (p_callers policy) (c_name c) = Some b \<and> cb_policy_path b = c_policy_path c) \<and>
     path = c_policy_path c \<and> map_of (p_fsp_permissions policy) path = Some perm"
  by (auto simp: fsp_binding_def split: option.splits if_splits)

lemma fsp_block_ok:
  "fsp_block_checks policy path perm rq = None \<longleftrightarrow>
     map_of (p_permissions policy) path = None \<and> (fq_message_type rq = ''UPTIME'' \<longrightarrow> fb_chain_ids perm \<noteq> []) \<and>
     (fb_chain_ids perm \<noteq> [] \<longrightarrow> (\<exists>n \<in> set (fb_chain_ids perm). ff_chain_id (fq_fields rq) = Some n)) \<and>
     fq_message_type rq \<in> set (fb_message_types perm) \<and> fq_wallet rq \<in> set (fb_wallet_allowlist perm)"
  by (auto simp: fsp_block_checks_def split: option.splits if_splits)

text \<open>A request that passes every check is signed.\<close>

lemma fsp_signed:
  assumes "c_name c \<noteq> []" "length (c_name c) \<le> 64" "find_wallet (fsb_wallet b) (db_wallets d) = Some w"
    and "fsp_binding (fe_policy env) c = Inr (path, perm)"
    and "fsp_block_checks (fe_policy env) path perm (fsp_body_request b (c_name c)) = None"
    and "fb_rate perm = Some r" "below_caps r (ck_now ck) (fb_count (c_name c, fsb_wallet b, fsb_message_type b) (db_rates d))"
    and "request_message (fe_lib env) (fsp_body_request b (c_name c)) = Some m"
    and "fsp_signature (fe_signer env) w (fm_message_hash m) = Inr sd"
  shows "\<exists>d'. fsp_handler env True ck b c d = (Inr (fsp_result_of sd), d')"
proof -
  let ?rq = "fsp_body_request b (c_name c)" and ?s = "open_session d"
  have rq: "fq_wallet ?rq = fsb_wallet b" "fq_caller ?rq = c_name c" "fq_message_type ?rq = fsb_message_type b"
    by (simp_all add: fsp_body_request_def)
  obtain t where inc: "check_and_increment_fsp_caller (c_name c) (fsb_wallet b) (fsb_message_type b) (fb_rate perm)
      (ck_now ck) (db_rates d) = (Inr True, t)"
    using fb.limiter_granted [OF assms(7)] assms(6) by (auto simp: check_fsp_limiter)
  let ?allow = "FspAllow (c_name c) (fsb_wallet b) (fsb_message_type b) path (fb_rate perm)" and ?t = "put_rates t ?s"
  have "fsp_gate_stage (fe_policy env) ck ?rq c ?s = (Inr ?allow, ?t)"
    using inc assms(4,5) rq
    by (simp add: fsp_gate_stage_def fsp_gate_def evaluate_fsp_def on_run bindM_run catchM_def)
  moreover have "fsp_build_stage (fe_lib env) ck ?rq c ?allow ?t = (Inr m, ?t)"
    using assms(8) by (simp add: fsp_build_stage_def)
  moreover have "find_wallet (fq_wallet ?rq) (db_wallets (work ?t)) = Some w" using assms(3) rq by (simp add: put_rates_def)
  then have "fsp_sign_stage (fe_signer env) ck ?rq c ?allow m ?t = (Inr sd, ?t)"
    using assms(9) by (simp add: fsp_sign_stage_def sign_fsp_eip191_run)
  moreover obtain du where "thenM (json_audit ck ''fsp-sign-message'' ''approved'' (Some (c_name c)) (fsp_request_fields ?rq)
      None (Some (fsp_outcome (fsp_result_of sd)))) (ret (fsp_result_of sd)) ?t = (Inr (fsp_result_of sd), ?t\<lparr>work := du\<rparr>)"
    using audited_step [OF fsp_word decision_words(1), of ck "Some (c_name c)" "fsp_request_fields ?rq" None
      "Some (fsp_outcome (fsp_result_of sd))" "fsp_result_of sd" ?t] by blast
  ultimately have "sign_fsp_message env ck ?rq c ?s = (Inr (fsp_result_of sd), ?t\<lparr>work := du\<rparr>)"
    using assms(1-3) rq by (simp add: sign_fsp_message_def fsp_address_run)
  then show ?thesis by (simp add: fsp_handler_def sealed_scope_def session_scope_def)
qed

lemma fsp_signature_hash: "fsp_signature lib w h = Inr sd \<Longrightarrow> sd_message_hash sd = h \<and> length h = 32"
  by (auto simp: fsp_signature_def split: if_splits sum.splits)

subsection \<open>A concrete environment\<close>

definition sample_fsp_env :: fsp_env where
  "sample_fsp_env = \<lparr>fe_lib = sample_fsp_lib,
     fe_signer = \<lparr>fs_decrypt = (\<lambda>ct. if ct = ''seal:v1:'' then Inr [1] else Inl SealError),
       fs_sign_message = (\<lambda>key h. Inr (3, 4, 27, key @ h))\<rparr>,
     fe_policy = sample_policy\<lparr>p_fsp_permissions := [(''faucet'', \<lparr>fb_message_types = [''UPTIME''],
       fb_wallet_allowlist = [''hot''], fb_chain_ids = [14], fb_rate = Some \<lparr>per_hour = Some 2, per_day = None\<rparr>\<rparr>)]\<rparr>\<rparr>"

definition sample_fsp_body :: fsp_body where
  "sample_fsp_body = \<lparr>fsb_wallet = ''hot'', fsb_message_type = ''UPTIME'', fsb_reward_epoch_id = 5,
     fsb_fields = no_fields\<lparr>ff_chain_id := Some 14\<rparr>\<rparr>"

definition sample_digest :: signed_digest where
  "sample_digest = \<lparr>sd_message_hash = be_bytes 32 5, sd_r = 3, sd_s = 4, sd_v = 27, sd_signature = 1 # be_bytes 32 5\<rparr>"

lemma sample_fsp_signed:
  assumes "db_rates d = empty_rates" "find_wallet ''hot'' (db_wallets d) = Some sample_wallet"
  shows "\<exists>d'. fsp_handler sample_fsp_env True ck sample_fsp_body sample_sign_caller d = (Inr (fsp_result_of sample_digest), d')"
proof (rule fsp_signed)
  let ?perm = "\<lparr>fb_message_types = [''UPTIME''], fb_wallet_allowlist = [''hot''], fb_chain_ids = [14],
      fb_rate = Some \<lparr>per_hour = Some 2, per_day = None\<rparr>\<rparr> :: fsp_permission_block"
  let ?m = "\<lparr>fm_message_type = ''UPTIME'', fm_reward_epoch_id = 5, fm_message_hash = be_bytes 32 5\<rparr>"
  show "c_name sample_sign_caller \<noteq> []" "length (c_name sample_sign_caller) \<le> 64"
    by (simp_all add: sample_sign_caller_def sample_caller_def)
  show "find_wallet (fsb_wallet sample_fsp_body) (db_wallets d) = Some sample_wallet"
    using assms by (simp add: sample_fsp_body_def)
  show "fsp_binding (fe_policy sample_fsp_env) sample_sign_caller = Inr (''faucet'', ?perm)"
    by (simp add: fsp_binding_def sample_fsp_env_def sample_policy_def sample_sign_caller_def sample_caller_def)
  show "fsp_block_checks (fe_policy sample_fsp_env) ''faucet'' ?perm
      (fsp_body_request sample_fsp_body (c_name sample_sign_caller)) = None"
    by (simp add: fsp_block_ok sample_fsp_env_def sample_policy_def fsp_body_request_def sample_fsp_body_def)
  show "fb_rate ?perm = Some \<lparr>per_hour = Some 2, per_day = None\<rparr>" by simp
  show "below_caps \<lparr>per_hour = Some 2, per_day = None\<rparr> (ck_now ck)
      (fb_count (c_name sample_sign_caller, fsb_wallet sample_fsp_body, fsb_message_type sample_fsp_body) (db_rates d))"
    by (simp add: assms below_caps_def rate_windows_def)
  show "request_message (fe_lib sample_fsp_env) (fsp_body_request sample_fsp_body (c_name sample_sign_caller)) = Some ?m"
    by (simp add: request_message_def fsp_body_request_def sample_fsp_body_def build_chain_id_def sample_fsp_env_def
        build_refines_content content_of_type max_uint24_def only_simps no_fields_def any_fast_update_def sample_fsp_lib_def)
  show "fsp_signature (fe_signer sample_fsp_env) sample_wallet (fm_message_hash ?m) = Inr sample_digest"
    by (simp add: fsp_signature_def sample_fsp_env_def sample_wallet_def sample_digest_def)
qed

lemma sample_db_ready: "db_rates sample_db = empty_rates" "find_wallet ''hot'' (db_wallets sample_db) = Some sample_wallet"
  by (simp_all add: sample_db_def find_wallet_def sample_wallet_def)

subsection \<open>Properties\<close>

text \<open>C33: what an FSP signature proves: when the endpoint answers, the bearer was an active caller bound to the
  permission block its row names, the block is no transaction block, allows the type, the wallet and (when it
  lists chains, which an uptime vote requires) the chain, the caller was below its caps; the hash signed is
  the one rebuilt from the body; the database gains one unit in the caller's own FSP counters and one
  approved audit row, and no transaction, nonce or transaction counter is touched.\<close>

theorem post_fsp_success:
  assumes "post_sign_fsp_message env verifies vault ck authorization b d = (Inr res, d')"
  shows "\<exists>c w perm r t m sd.
    c \<in> set (db_callers d) \<and> c_revoked_at c = None \<and> fsp_body_valid b \<and>
    find_wallet (fsb_wallet b) (db_wallets d) = Some w \<and>
    map_of (p_fsp_permissions (fe_policy env)) (c_policy_path c) = Some perm \<and>
    map_of (p_permissions (fe_policy env)) (c_policy_path c) = None \<and>
    fsb_message_type b \<in> set (fb_message_types perm) \<and> fsb_wallet b \<in> set (fb_wallet_allowlist perm) \<and>
    (fsb_message_type b = ''UPTIME'' \<longrightarrow> fb_chain_ids perm \<noteq> []) \<and>
    (fb_chain_ids perm \<noteq> [] \<longrightarrow> (\<exists>n \<in> set (fb_chain_ids perm). ff_chain_id (fsb_fields b) = Some n)) \<and>
    fb_rate perm = Some r \<and> below_caps r (ck_now ck) (fb_count (c_name c, fsb_wallet b, fsb_message_type b) (db_rates d)) \<and>
    (\<forall>j wk ws. fb_count j t wk ws = fb_count j (db_rates d) wk ws +
       (if j = (c_name c, fsb_wallet b, fsb_message_type b) \<and> hits r (ck_now ck) wk ws then 1 else 0)) \<and>
    rate_buckets t = rate_buckets (db_rates d) \<and> wallet_buckets t = wallet_buckets (db_rates d) \<and>
    request_message (fe_lib env) (fsp_body_request b (c_name c)) = Some m \<and>
    fsp_signature (fe_signer env) w (fm_message_hash m) = Inr sd \<and> res = fsp_result_of sd \<and>
    fr_message_hash res = ''0x'' @ bytes_hex (fm_message_hash m) \<and>
    audit_grown ''fsp-sign-message'' ''approved'' (d\<lparr>db_rates := t\<rparr>) d'"
proof -
  from assms obtain c u where au: "authenticate verifies authorization d = (Inr c, u)"
    and body: "(if \<not> fsp_body_valid b then raise (HTTPException 422 ''validation'') else fsp_handler env vault ck b c) u =
      (Inr res, d')"
    unfolding post_sign_fsp_message_def by (rule bindM_InrE)
  from au have a: "u = d" "c \<in> set (db_callers d)" "c_revoked_at c = None"
    by (auto elim: authenticate_cases)
  with body have v: "fsp_body_valid b" and run: "fsp_handler env vault ck b c d = (Inr res, d')"
    by (auto split: if_splits)
  from run have "session_scope False (sign_fsp_message env ck (fsp_body_request b (c_name c)) c) d = (Inr res, d')"
  proof (cases rule: fsp_handler_cases)
    case (ran r)
    then show ?thesis by (cases r) simp_all
  qed simp
  then show ?thesis
  proof (cases rule: sign_fsp_cases)
    case (signed w path perm r t m sd)
    from signed(6) obtain
      "\<And>j wk ws. fb_count j t wk ws = fb_count j (db_rates d) wk ws +
         (if j = (c_name c, fsb_wallet b, fsb_message_type b) \<and> hits r (ck_now ck) wk ws then 1 else 0)"
      "rate_buckets t = rate_buckets (db_rates d)" "wallet_buckets t = wallet_buckets (db_rates d)"
      by (cases rule: fsp_check_cases) (use signed(4) in \<open>auto simp: fsp_body_request_def\<close>)
    moreover have "fr_message_hash res = ''0x'' @ bytes_hex (fm_message_hash m)"
      using fsp_signature_hash [OF signed(8)] signed(9) by (simp add: fsp_result_of_def)
    moreover from iffD1 [OF fsp_binding_ok signed(2)] have "path = c_policy_path c"
      "map_of (p_fsp_permissions (fe_policy env)) (c_policy_path c) = Some perm" by auto
    moreover note iffD1 [OF fsp_block_ok signed(3)]
    ultimately show ?thesis using a v signed(1,4,5,7-10)
      by (intro exI [of _ c] exI [of _ w] exI [of _ perm] exI [of _ r] exI [of _ t] exI [of _ m] exI [of _ sd])
        (simp add: fsp_body_request_def)
  qed simp_all
qed

text \<open>An uptime vote, signed end to end.\<close>

lemma post_fsp_success_witness:
  "\<exists>res d'. post_sign_fsp_message sample_fsp_env sample_verifies True sample_clock (Some sample_bearer) sample_fsp_body
     sample_db = (Inr res, d') \<and> fr_v res = 27 \<and> (\<exists>t. audit_grown ''fsp-sign-message'' ''approved'' (sample_db\<lparr>db_rates := t\<rparr>) d')"
proof -
  obtain d' where run: "fsp_handler sample_fsp_env True sample_clock sample_fsp_body sample_sign_caller sample_db =
      (Inr (fsp_result_of sample_digest), d')"
    using sample_fsp_signed [OF sample_db_ready] by blast
  have "fsp_body_valid sample_fsp_body" by code_simp
  with run have post: "post_sign_fsp_message sample_fsp_env sample_verifies True sample_clock (Some sample_bearer)
      sample_fsp_body sample_db = (Inr (fsp_result_of sample_digest), d')"
    by (simp add: post_sign_fsp_message_def bindM_run sample_authenticate)
  from post_fsp_success [OF post] have "\<exists>t. audit_grown ''fsp-sign-message'' ''approved'' (sample_db\<lparr>db_rates := t\<rparr>) d'"
    by blast
  with post show ?thesis by (auto simp: fsp_result_of_def sample_digest_def)
qed

text \<open>C34: a failed FSP request is net-zero: wallets, callers, transactions and nonces are as before, every rate
  counter has its old value, and the log gains at most one denied or error row.\<close>

theorem fsp_failure_neutral:
  assumes "fsp_handler env vault ck b c d = (Inl e, d')" "counters_nonneg (db_rates d)"
  shows "db_wallets d' = db_wallets d \<and> db_callers d' = db_callers d \<and> db_txs d' = db_txs d \<and>
    db_nonces d' = db_nonces d \<and> same_rates (db_rates d) (db_rates d') \<and>
    (d' = d \<or> (\<exists>row. audit_log (db_audit d') = audit_log (db_audit d) @ [row] \<and>
       ar_action row = ''fsp-sign-message'' \<and> (ar_decision row = ''denied'' \<or> ar_decision row = ''error'')))"
  using assms(1)
proof (cases rule: fsp_handler_cases)
  case (ran r)
  from ran(2) show ?thesis
  proof (cases rule: sign_fsp_cases)
    case (refused e')
    note D = audit_refusedD [OF refused(2)]
    from refused(2) consider "d' = d" | "audit_grown ''fsp-sign-message'' ''denied'' d d'"
      | "audit_grown ''fsp-sign-message'' ''error'' d d'" unfolding audit_refused_def by blast
    then show ?thesis using D(1-5) by cases (auto dest: audit_grownD(6))
  next
    case (failed e' t)
    from audit_grownD(6) [OF failed(2)] have "\<exists>row. audit_log (db_audit d') = audit_log (db_audit d) @ [row] \<and>
        ar_action row = ''fsp-sign-message'' \<and> (ar_decision row = ''denied'' \<or> ar_decision row = ''error'')" by auto
    with audit_grownD(1-5) [OF failed(2)] failed(3) assms(2) show ?thesis by simp
  next
    case (signed w path perm r t m sd)
    with ran(3) show ?thesis by simp
  qed
qed simp

text \<open>A wallet whose key cannot be unsealed: the request passes the gate and fails in signing.\<close>

definition broken_db :: db where
  "broken_db = sample_db\<lparr>db_wallets := [sample_wallet\<lparr>w_privkey_ciphertext := ''x''\<rparr>]\<rparr>"

lemma fsp_failure_neutral_witness:
  "\<exists>e d'. fsp_handler sample_fsp_env True sample_clock sample_fsp_body sample_sign_caller broken_db = (Inl e, d') \<and>
     same_rates (db_rates broken_db) (db_rates d')"
proof -
  obtain res d' where run: "fsp_handler sample_fsp_env True sample_clock sample_fsp_body sample_sign_caller broken_db = (res, d')"
    by fastforce
  have "\<exists>e. res = Inl e"
    using run
  proof (cases rule: fsp_handler_cases)
    case (ran r)
    from ran(2) show ?thesis
    proof (cases rule: sign_fsp_cases)
      case (signed w path perm r' t m sd)
      from signed(1) have "w = sample_wallet\<lparr>w_privkey_ciphertext := ''x''\<rparr>"
        by (simp add: broken_db_def find_wallet_def fsp_body_request_def sample_fsp_body_def sample_wallet_def)
      with signed(8) show ?thesis by (simp add: fsp_signature_def sample_fsp_env_def split: if_splits)
    qed (use ran(3) in auto)
  qed blast
  then obtain e where "res = Inl e" ..
  moreover have "counters_nonneg (db_rates broken_db)" by (simp add: broken_db_def sample_db_ready)
  ultimately show ?thesis using run fsp_failure_neutral by blast
qed

text \<open>A retry returns the same bytes: two answered requests with the same body for the same stored wallet,
  at any times and in any databases, give the same hash and the same signature.\<close>

theorem fsp_retry_same:
  assumes "fsp_handler env vault ck b c d = (Inr res, d')" "fsp_handler env vault' ck' b c' e = (Inr res', e')"
    and "find_wallet (fsb_wallet b) (db_wallets e) = find_wallet (fsb_wallet b) (db_wallets d)"
  shows "res' = res"
proof -
  have "\<exists>w m sd. find_wallet (fsb_wallet b) (db_wallets d) = Some w \<and>
      build_fsp_message (fe_lib env) (fsb_message_type b) (fsb_reward_epoch_id b)
        ((fsb_fields b)\<lparr>ff_chain_id := build_chain_id (fsp_body_request b [])\<rparr>) = Some m \<and>
      fsp_signature (fe_signer env) w (fm_message_hash m) = Inr sd \<and> res = fsp_result_of sd"
    if "fsp_handler env vault ck b c d = (Inr res, d')" for vault ck c d res d'
    using that
  proof (cases rule: fsp_handler_cases)
    case (ran r)
    from ran(2) show ?thesis
      by (cases rule: sign_fsp_cases)
        (use ran(3) in \<open>auto simp: request_message_def build_chain_id_def fsp_body_request_def\<close>)
  qed simp
  from this [OF assms(1)] this [OF assms(2)] assms(3) show ?thesis by auto
qed

lemma fsp_retry_same_witness:
  "\<exists>d' e'. fsp_handler sample_fsp_env True sample_clock sample_fsp_body sample_sign_caller sample_db =
      (Inr (fsp_result_of sample_digest), d') \<and>
    fst (fsp_handler sample_fsp_env True (sample_clock\<lparr>ck_now := 99\<rparr>) sample_fsp_body sample_sign_caller
      (sample_db\<lparr>db_txs := empty_txs\<rparr>)) = Inr (fsp_result_of sample_digest)"
proof -
  obtain d' where d': "fsp_handler sample_fsp_env True sample_clock sample_fsp_body sample_sign_caller sample_db =
      (Inr (fsp_result_of sample_digest), d')"
    using sample_fsp_signed [OF sample_db_ready] by blast
  obtain res e' where e': "fsp_handler sample_fsp_env True (sample_clock\<lparr>ck_now := 99\<rparr>) sample_fsp_body sample_sign_caller
      (sample_db\<lparr>db_txs := empty_txs\<rparr>) = (Inr res, e')"
    using sample_fsp_signed [of "sample_db\<lparr>db_txs := empty_txs\<rparr>" "sample_clock\<lparr>ck_now := 99\<rparr>"] sample_db_ready by auto
  have "res = fsp_result_of sample_digest" using fsp_retry_same [OF d' e'] by simp
  with d' e' show ?thesis by simp
qed

end
