(* ===== verification/Policy_Loader.thy ===== *)
theory Policy_Loader
  imports Sign_Fsp
begin

section \<open>The policy loader\<close>

text \<open>
  \<open>infra/policy_loader.py\<close>: loading \<open>policy.yaml\<close> and the consistency check of a policy against the live
  callers, wallets and ABIs, the gate every start of the daemon passes.  Each check is a definition giving
  the problems it finds; \<open>issue_text\<close> is the message, \<open>check_consistency\<close> the messages in the order of the
  source.  YAML and the schema validation of \<open>domain/policy.py\<close> are parameters of \<open>load_policy\<close>.
\<close>

datatype policy_load_error = PolicyLoadError string

text \<open>The file's content if it exists, the YAML parser and the model validation, with their messages.\<close>

definition load_policy ::
  "string \<Rightarrow> string option \<Rightarrow> (string \<Rightarrow> string + 'y) \<Rightarrow> ('y \<Rightarrow> string + policy) \<Rightarrow> policy_load_error + policy" where
  "load_policy path content safe_load model_validate =
     (case content of
        None \<Rightarrow> Inl (PolicyLoadError (''policy file not found: '' @ path))
      | Some text \<Rightarrow>
          (case safe_load text of
             Inl why \<Rightarrow> Inl (PolicyLoadError (''YAML parse error in '' @ path @ '': '' @ why))
           | Inr raw \<Rightarrow>
               (case model_validate raw of
                  Inl why \<Rightarrow> Inl (PolicyLoadError (''policy schema error in '' @ path @ '': '' @ why))
                | Inr p \<Rightarrow> Inr p)))"

subsection \<open>The self-submit shapes\<close>

definition fsp_self_submit_methods :: "string list" where
  "fsp_self_submit_methods =
     [''signUptimeVote(uint24,bytes32,(uint8,bytes32,bytes32))'',
      ''signRewards(uint24,(uint256,uint256)[],bytes32,(uint8,bytes32,bytes32))'',
      ''signNewSigningPolicy(uint24,bytes32,(uint8,bytes32,bytes32))'']"

definition fsp_self_submit_shapes :: "(string \<times> string list) list" where
  "fsp_self_submit_shapes =
     [(''flare_systems_manager'', fsp_self_submit_methods),
      (''relay'', [''relay()'']),
      (''voter_registry'', [''registerVoter(address,(uint8,bytes32,bytes32))'']),
      (''entity_manager'', [''confirmSigningPolicyAddressRegistration(address)''])]"

subsection \<open>The problems\<close>

datatype issue =
    CallerNotInPolicy string string
  | CallerDrifts string string string
  | CallerPathUnresolved string string
  | CapabilityShared string string string
  | UnknownAbi string string string
  | MethodNotInAbi string string string string
  | UnknownWallet string string
  | UnboundWallet string string
  | NativeUnknownWallet string string
  | ConstraintMissing string string
  | PathInBothDomains string
  | NoMessageTypes string
  | UnknownMessageType string string
  | FspUnknownWallet string string
  | SelfSubmitUnknown string
  | SelfSubmitNotFsp string
  | SelfSubmitUnused string
  | SelfSubmitRefused string
  | AddressInBothDomains string

primrec issue_text :: "issue \<Rightarrow> string" where
  "issue_text (CallerNotInPolicy n p) = ''caller '' @ quoted n @ '' policy_path '' @ quoted p @ '' not in policy''"
| "issue_text (CallerDrifts n p b) = ''caller '' @ quoted n @ '' policy_path '' @ quoted p @
     '' drifts from policy binding '' @ quoted b"
| "issue_text (CallerPathUnresolved n b) = ''caller '' @ quoted n @ '' binding policy_path '' @ quoted b @
     '' not in permissions, fsp_permissions, or native_transfers''"
| "issue_text (CapabilityShared cid a b) = ''capability_id '' @ quoted cid @ '' is bound to BOTH caller '' @ quoted a @
     '' and caller '' @ quoted b @ '' (capability_id must be unique)''"
| "issue_text (UnknownAbi p a n) = ''permissions '' @ quoted p @ '' contract '' @ quoted a @
     '' references unknown abi '' @ quoted n"
| "issue_text (MethodNotInAbi p a s n) = ''permission '' @ quoted p @ '' contract '' @ quoted a @ '' method '' @ quoted s @
     '' not found in abi '' @ quoted n"
| "issue_text (UnknownWallet p w) = ''permission '' @ quoted p @ '' allowlists unknown wallet '' @ quoted w"
| "issue_text (UnboundWallet p w) = ''permission '' @ quoted p @ '' allowlists wallet '' @ quoted w @
     '' with no policy.wallets binding (no wallet constraint)''"
| "issue_text (NativeUnknownWallet p w) = ''native_transfers '' @ quoted p @ '' allowlists unknown wallet '' @ quoted w"
| "issue_text (ConstraintMissing w p) = ''wallet '' @ quoted w @ '' policy_path '' @ quoted p @ '' not in wallet_constraints''"
| "issue_text (PathInBothDomains p) = ''policy_path '' @ quoted p @
     '' is in BOTH permissions and fsp_permissions (cross-domain key reuse forbidden)''"
| "issue_text (NoMessageTypes p) = ''fsp_permissions '' @ quoted p @ '' has empty message_types''"
| "issue_text (UnknownMessageType p t) = ''fsp_permissions '' @ quoted p @ '' unknown message_type '' @ quoted t"
| "issue_text (FspUnknownWallet p w) = ''fsp_permissions '' @ quoted p @ '' allowlists unknown wallet '' @ quoted w"
| "issue_text (SelfSubmitUnknown w) = ''fsp_self_submit names unknown wallet '' @ quoted w"
| "issue_text (SelfSubmitNotFsp w) = ''fsp_self_submit wallet '' @ quoted w @
     '' is not in any fsp_permissions allowlist (meaningless carve-out)''"
| "issue_text (SelfSubmitUnused w) = ''fsp_self_submit wallet '' @ quoted w @
     '' is not in any EVM permissions allowlist (carve-out declared but unused)''"
| "issue_text (SelfSubmitRefused w) = ''fsp_self_submit wallet '' @ quoted w @
     '' is allowlisted in an EVM permissions block that is NOT the constrained FlareSystemsManager '' @
     ''signUptimeVote/signRewards max_value_wei=0 self-submit shape '' @ em_dash @ '' carve-out refused''"
| "issue_text (AddressInBothDomains a) = ''address '' @ a @
     '' is reachable from BOTH an EVM permissions allowlist and an fsp_permissions allowlist '' @
     ''(key-domain segmentation violation '' @ em_dash @ '' one key must not sign in both domains)''"

subsection \<open>The checks\<close>

definition known_wallet :: "policy \<Rightarrow> wallet list \<Rightarrow> string \<Rightarrow> bool" where
  "known_wallet p wallets n \<longleftrightarrow> n \<in> w_name ` set wallets \<or> n \<in> fst ` set (p_wallets p)"

text \<open>Checks 1, 1b and 1c.\<close>

definition caller_issues :: "policy \<Rightarrow> caller \<Rightarrow> issue list" where
  "caller_issues p c =
     (if c_revoked_at c \<noteq> None then []
      else case map_of (p_callers p) (c_name c) of
        None \<Rightarrow> [CallerNotInPolicy (c_name c) (c_policy_path c)]
      | Some b \<Rightarrow>
          (if c_policy_path c \<noteq> cb_policy_path b
           then [CallerDrifts (c_name c) (c_policy_path c) (cb_policy_path b)] else []) @
          (if map_of (p_permissions p) (cb_policy_path b) = None \<and>
              map_of (p_fsp_permissions p) (cb_policy_path b) = None \<and>
              map_of (p_native_transfers p) (cb_policy_path b) = None
           then [CallerPathUnresolved (c_name c) (cb_policy_path b)] else []))"

text \<open>Check 1d, with the ids seen so far.\<close>

fun capability_issues :: "(string \<times> string) list \<Rightarrow> (string \<times> caller_binding) list \<Rightarrow> issue list" where
  "capability_issues seen [] = []"
| "capability_issues seen ((n, b) # rest) =
     (case cb_capability_id b of
        None \<Rightarrow> capability_issues seen rest
      | Some cid \<Rightarrow>
          (case map_of seen cid of
             Some prior \<Rightarrow> CapabilityShared cid prior n # capability_issues seen rest
           | None \<Rightarrow> capability_issues ((cid, n) # seen) rest))"

text \<open>Checks 2 and 3.\<close>

definition contract_issues :: "abi_registry \<Rightarrow> string \<Rightarrow> string \<times> contract_rule \<Rightarrow> issue list" where
  "contract_issues registry path = (\<lambda>(addr, crule).
     if cr_abi crule \<notin> set (abi_names registry) then [UnknownAbi path addr (cr_abi crule)]
     else map (\<lambda>sig. MethodNotInAbi path addr sig (cr_abi crule))
       (filter (\<lambda>sig. sig \<notin> set (signatures_for registry (cr_abi crule))) (map fst (cr_methods crule))))"

text \<open>Checks 4 and 4b.\<close>

definition allowlist_issues :: "policy \<Rightarrow> wallet list \<Rightarrow> string \<Rightarrow> string \<Rightarrow> issue list" where
  "allowlist_issues p wallets path w =
     (if \<not> known_wallet p wallets w then [UnknownWallet path w] else []) @
     (if w \<notin> fst ` set (p_wallets p) then [UnboundWallet path w] else [])"

definition permission_issues ::
  "policy \<Rightarrow> wallet list \<Rightarrow> abi_registry \<Rightarrow> string \<times> permission_block \<Rightarrow> issue list" where
  "permission_issues p wallets registry = (\<lambda>(path, perm).
     concat (map (contract_issues registry path) (pb_contracts perm)) @
     concat (map (allowlist_issues p wallets path) (pb_wallet_allowlist perm)))"

text \<open>Check 4c.\<close>

definition native_issues :: "policy \<Rightarrow> wallet list \<Rightarrow> string \<times> native_transfer_block \<Rightarrow> issue list" where
  "native_issues p wallets = (\<lambda>(path, rule).
     map (NativeUnknownWallet path) (filter (\<lambda>w. \<not> known_wallet p wallets w) (nb_wallet_allowlist rule)))"

text \<open>Check 5.\<close>

definition binding_issues :: "policy \<Rightarrow> string \<times> wallet_binding \<Rightarrow> issue list" where
  "binding_issues p = (\<lambda>(w, b).
     if map_of (p_wallet_constraints p) (wbd_policy_path b) = None
     then [ConstraintMissing w (wbd_policy_path b)] else [])"

text \<open>The FSP blocks.\<close>

definition fsp_issues :: "policy \<Rightarrow> wallet list \<Rightarrow> string \<times> fsp_permission_block \<Rightarrow> issue list" where
  "fsp_issues p wallets = (\<lambda>(path, fperm).
     (if map_of (p_permissions p) path \<noteq> None then [PathInBothDomains path] else []) @
     (if fb_message_types fperm = [] then [NoMessageTypes path] else []) @
     map (UnknownMessageType path) (filter (\<lambda>t. t \<notin> set message_types) (fb_message_types fperm)) @
     map (FspUnknownWallet path) (filter (\<lambda>w. \<not> known_wallet p wallets w) (fb_wallet_allowlist fperm)))"

text \<open>The address of a wallet name; the last row of a name counts.\<close>

definition name_to_addr :: "wallet list \<Rightarrow> string \<Rightarrow> string option" where
  "name_to_addr wallets = map_of (rev (map (\<lambda>w. (w_name w, py_lower (w_address w))) wallets))"

definition evm_names :: "policy \<Rightarrow> string list" where
  "evm_names p = concat (map (\<lambda>(path, perm). pb_wallet_allowlist perm) (p_permissions p))"

definition fsp_names :: "policy \<Rightarrow> string list" where
  "fsp_names p = concat (map (\<lambda>(path, fperm). fb_wallet_allowlist fperm) (p_fsp_permissions p))"

definition addresses :: "wallet list \<Rightarrow> string list \<Rightarrow> string list" where
  "addresses wallets ns = List.map_filter (name_to_addr wallets) ns"

text \<open>The carve-out.\<close>

definition exempt_contract :: "contract_rule \<Rightarrow> bool" where
  "exempt_contract crule =
     (case map_of fsp_self_submit_shapes (cr_abi crule) of
        None \<Rightarrow> False
      | Some allowed \<Rightarrow> list_all (\<lambda>(sig, rule). sig \<in> set allowed \<and> mr_max_value_wei rule = ''0'') (cr_methods crule))"

definition blocks_of :: "policy \<Rightarrow> string \<Rightarrow> permission_block list" where
  "blocks_of p w = filter (\<lambda>perm. w \<in> set (pb_wallet_allowlist perm)) (map snd (p_permissions p))"

text \<open>One name of \<open>fsp_self_submit\<close>: refused, or the address it exempts, if it has one.\<close>

definition self_submit_outcome :: "policy \<Rightarrow> wallet list \<Rightarrow> string \<Rightarrow> issue + string option" where
  "self_submit_outcome p wallets w =
     (if \<not> known_wallet p wallets w then Inl (SelfSubmitUnknown w)
      else if w \<notin> set (fsp_names p) then Inl (SelfSubmitNotFsp w)
      else if blocks_of p w = [] then Inl (SelfSubmitUnused w)
      else if \<not> list_all (\<lambda>perm. list_all (\<lambda>(addr, crule). exempt_contract crule) (pb_contracts perm)) (blocks_of p w)
      then Inl (SelfSubmitRefused w)
      else Inr (name_to_addr wallets w))"

definition self_submit_issues :: "policy \<Rightarrow> wallet list \<Rightarrow> issue list" where
  "self_submit_issues p wallets =
     concat (map (\<lambda>w. case self_submit_outcome p wallets w of Inl i \<Rightarrow> [i] | Inr _ \<Rightarrow> []) (p_fsp_self_submit p))"

definition exempt_addresses :: "policy \<Rightarrow> wallet list \<Rightarrow> string list" where
  "exempt_addresses p wallets =
     concat (map (\<lambda>w. case self_submit_outcome p wallets w of Inr (Some a) \<Rightarrow> [a] | _ \<Rightarrow> []) (p_fsp_self_submit p))"

definition shared_addresses :: "policy \<Rightarrow> wallet list \<Rightarrow> string list" where
  "shared_addresses p wallets =
     sort (remdups (filter (\<lambda>a. a \<in> set (addresses wallets (fsp_names p)) \<and> a \<notin> set (exempt_addresses p wallets))
       (addresses wallets (evm_names p))))"

definition consistency_issues :: "policy \<Rightarrow> caller list \<Rightarrow> wallet list \<Rightarrow> abi_registry \<Rightarrow> issue list" where
  "consistency_issues p callers wallets registry =
     concat (map (caller_issues p) callers) @
     capability_issues [] (p_callers p) @
     concat (map (permission_issues p wallets registry) (p_permissions p)) @
     concat (map (native_issues p wallets) (p_native_transfers p)) @
     concat (map (binding_issues p) (p_wallets p)) @
     concat (map (fsp_issues p wallets) (p_fsp_permissions p)) @
     self_submit_issues p wallets @
     map AddressInBothDomains (shared_addresses p wallets)"

definition check_consistency :: "policy \<Rightarrow> caller list \<Rightarrow> wallet list \<Rightarrow> abi_registry \<Rightarrow> string list" where
  "check_consistency p callers wallets registry = map issue_text (consistency_issues p callers wallets registry)"

subsection \<open>The checks inverted\<close>

text \<open>What a clean check says, declaratively.\<close>

definition caller_bound :: "policy \<Rightarrow> caller \<Rightarrow> bool" where
  "caller_bound p c \<longleftrightarrow> (\<exists>b. map_of (p_callers p) (c_name c) = Some b \<and> c_policy_path c = cb_policy_path b \<and>
     (map_of (p_permissions p) (cb_policy_path b) \<noteq> None \<or> map_of (p_fsp_permissions p) (cb_policy_path b) \<noteq> None \<or>
      map_of (p_native_transfers p) (cb_policy_path b) \<noteq> None))"

definition capabilities_distinct :: "policy \<Rightarrow> bool" where
  "capabilities_distinct p \<longleftrightarrow> distinct (List.map_filter (\<lambda>(n, b). cb_capability_id b) (p_callers p))"

definition permission_ok :: "policy \<Rightarrow> abi_registry \<Rightarrow> permission_block \<Rightarrow> bool" where
  "permission_ok p registry perm \<longleftrightarrow>
     (\<forall>(addr, crule) \<in> set (pb_contracts perm). cr_abi crule \<in> set (abi_names registry) \<and>
        fst ` set (cr_methods crule) \<subseteq> set (signatures_for registry (cr_abi crule))) \<and>
     set (pb_wallet_allowlist perm) \<subseteq> fst ` set (p_wallets p)"

definition fsp_ok :: "policy \<Rightarrow> wallet list \<Rightarrow> string \<times> fsp_permission_block \<Rightarrow> bool" where
  "fsp_ok p wallets = (\<lambda>(path, fperm). path \<notin> fst ` set (p_permissions p) \<and>
     fb_message_types fperm \<noteq> [] \<and> set (fb_message_types fperm) \<subseteq> set message_types \<and>
     (\<forall>w \<in> set (fb_wallet_allowlist fperm). known_wallet p wallets w))"

text \<open>A wallet whose transactions are confined to the self-submit shapes.\<close>

definition confined :: "policy \<Rightarrow> string \<Rightarrow> bool" where
  "confined p w \<longleftrightarrow> (\<forall>(path, perm) \<in> set (p_permissions p). w \<in> set (pb_wallet_allowlist perm) \<longrightarrow>
     (\<forall>(addr, crule) \<in> set (pb_contracts perm).
        \<exists>allowed. map_of fsp_self_submit_shapes (cr_abi crule) = Some allowed \<and>
          (\<forall>(sig, rule) \<in> set (cr_methods crule). sig \<in> set allowed \<and> mr_max_value_wei rule = ''0'')))"

definition self_submit_ok :: "policy \<Rightarrow> wallet list \<Rightarrow> string \<Rightarrow> bool" where
  "self_submit_ok p wallets w \<longleftrightarrow> known_wallet p wallets w \<and> w \<in> set (fsp_names p) \<and> w \<in> set (evm_names p) \<and>
     confined p w"

text \<open>An address both domains reach belongs to an opted-in wallet.\<close>

definition segmented :: "policy \<Rightarrow> wallet list \<Rightarrow> bool" where
  "segmented p wallets \<longleftrightarrow>
     (\<forall>m \<in> set (evm_names p). \<forall>n \<in> set (fsp_names p). \<forall>a.
        name_to_addr wallets m = Some a \<longrightarrow> name_to_addr wallets n = Some a \<longrightarrow>
        (\<exists>w \<in> set (p_fsp_self_submit p). name_to_addr wallets w = Some a))"

definition policy_consistent :: "policy \<Rightarrow> caller list \<Rightarrow> wallet list \<Rightarrow> abi_registry \<Rightarrow> bool" where
  "policy_consistent p callers wallets registry \<longleftrightarrow>
     (\<forall>c \<in> set callers. c_revoked_at c = None \<longrightarrow> caller_bound p c) \<and>
     capabilities_distinct p \<and>
     (\<forall>(path, perm) \<in> set (p_permissions p). permission_ok p registry perm) \<and>
     (\<forall>(path, rule) \<in> set (p_native_transfers p). \<forall>w \<in> set (nb_wallet_allowlist rule). known_wallet p wallets w) \<and>
     (\<forall>(w, b) \<in> set (p_wallets p). wbd_policy_path b \<in> fst ` set (p_wallet_constraints p)) \<and>
     (\<forall>block \<in> set (p_fsp_permissions p). fsp_ok p wallets block) \<and>
     (\<forall>w \<in> set (p_fsp_self_submit p). self_submit_ok p wallets w) \<and>
     segmented p wallets"

lemma caller_issues_Nil: "caller_issues p c = [] \<longleftrightarrow> (c_revoked_at c = None \<longrightarrow> caller_bound p c)"
  by (auto simp: caller_issues_def caller_bound_def split: option.splits)

lemma capability_issues_Nil:
  "capability_issues seen bs = [] \<longleftrightarrow>
     distinct (List.map_filter (\<lambda>(n, b). cb_capability_id b) bs) \<and>
     (\<forall>cid \<in> set (List.map_filter (\<lambda>(n, b). cb_capability_id b) bs). map_of seen cid = None)"
  by (induction seen bs rule: capability_issues.induct) (auto simp: map_filter_simps split: option.splits)

lemma contract_issues_Nil:
  "contract_issues registry path x = [] \<longleftrightarrow> (case x of (addr, crule) \<Rightarrow>
     cr_abi crule \<in> set (abi_names registry) \<and>
     fst ` set (cr_methods crule) \<subseteq> set (signatures_for registry (cr_abi crule)))"
  by (cases x) (auto simp: contract_issues_def filter_empty_conv)

lemma allowlist_issues_Nil: "allowlist_issues p wallets path w = [] \<longleftrightarrow> w \<in> fst ` set (p_wallets p)"
  by (auto simp: allowlist_issues_def known_wallet_def)

lemma permission_issues_Nil:
  "permission_issues p wallets registry (path, perm) = [] \<longleftrightarrow> permission_ok p registry perm"
proof -
  have "concat (map (contract_issues registry path) (pb_contracts perm)) = [] \<longleftrightarrow>
      (\<forall>(addr, crule) \<in> set (pb_contracts perm). cr_abi crule \<in> set (abi_names registry) \<and>
        fst ` set (cr_methods crule) \<subseteq> set (signatures_for registry (cr_abi crule)))"
    by (simp add: concat_eq_Nil_conv contract_issues_Nil)
  moreover have "concat (map (allowlist_issues p wallets path) (pb_wallet_allowlist perm)) = [] \<longleftrightarrow>
      set (pb_wallet_allowlist perm) \<subseteq> fst ` set (p_wallets p)"
    by (auto simp: concat_eq_Nil_conv allowlist_issues_Nil)
  ultimately show ?thesis
    by (simp add: permission_issues_def permission_ok_def)
qed

lemma fsp_issues_Nil: "fsp_issues p wallets block = [] \<longleftrightarrow> fsp_ok p wallets block"
  by (cases block) (auto simp: fsp_issues_def fsp_ok_def filter_empty_conv map_of_eq_None_iff)

lemma self_submit_Inr:
  "(\<exists>a. self_submit_outcome p wallets w = Inr a) \<longleftrightarrow> self_submit_ok p wallets w"
  "self_submit_outcome p wallets w = Inr a \<Longrightarrow> a = name_to_addr wallets w"
proof -
  have appears: "blocks_of p w \<noteq> [] \<longleftrightarrow> w \<in> set (evm_names p)"
    by (fastforce simp: blocks_of_def evm_names_def filter_empty_conv)
  have ok: "list_all (\<lambda>perm. list_all (\<lambda>(addr, crule). exempt_contract crule) (pb_contracts perm)) (blocks_of p w) \<longleftrightarrow>
      confined p w"
    by (fastforce simp: confined_def blocks_of_def list_all_iff exempt_contract_def split: option.splits)
  show "(\<exists>a. self_submit_outcome p wallets w = Inr a) \<longleftrightarrow> self_submit_ok p wallets w"
    unfolding self_submit_outcome_def self_submit_ok_def appears [symmetric] ok [symmetric] by simp
  show "self_submit_outcome p wallets w = Inr a \<Longrightarrow> a = name_to_addr wallets w"
    by (simp add: self_submit_outcome_def split: if_splits)
qed

lemma self_submit_issues_Nil:
  "self_submit_issues p wallets = [] \<longleftrightarrow> (\<forall>w \<in> set (p_fsp_self_submit p). self_submit_ok p wallets w)"
proof -
  have "(case self_submit_outcome p wallets w of Inl i \<Rightarrow> [i] | Inr _ \<Rightarrow> []) = [] \<longleftrightarrow>
      self_submit_ok p wallets w" for w
    unfolding self_submit_Inr(1) [symmetric] by (simp split: sum.splits)
  then show ?thesis by (simp add: self_submit_issues_def concat_eq_Nil_conv)
qed

lemma set_addresses: "a \<in> set (addresses wallets ns) \<longleftrightarrow> (\<exists>n \<in> set ns. name_to_addr wallets n = Some a)"
  by (induction ns) (auto simp: addresses_def map_filter_simps split: option.splits)

lemma set_exempt_addresses:
  assumes "\<forall>w \<in> set (p_fsp_self_submit p). self_submit_ok p wallets w"
  shows "a \<in> set (exempt_addresses p wallets) \<longleftrightarrow>
    (\<exists>w \<in> set (p_fsp_self_submit p). name_to_addr wallets w = Some a)"
proof -
  have "self_submit_outcome p wallets w = Inr (name_to_addr wallets w)"
    if "w \<in> set (p_fsp_self_submit p)" for w
    using self_submit_Inr assms that by metis
  then show ?thesis by (auto simp: exempt_addresses_def split: option.splits) metis
qed

lemma shared_addresses_Nil:
  assumes "\<forall>w \<in> set (p_fsp_self_submit p). self_submit_ok p wallets w"
  shows "shared_addresses p wallets = [] \<longleftrightarrow> segmented p wallets"
proof -
  have "shared_addresses p wallets = [] \<longleftrightarrow> set (shared_addresses p wallets) = {}" by simp
  also have "\<dots> \<longleftrightarrow> segmented p wallets"
    unfolding shared_addresses_def segmented_def set_sort set_remdups set_filter set_addresses
      set_exempt_addresses [OF assms] by blast
  finally show ?thesis .
qed

lemma check_consistency_Nil:
  "check_consistency p callers wallets registry = [] \<longleftrightarrow> policy_consistent p callers wallets registry"
proof -
  have perms: "concat (map (permission_issues p wallets registry) (p_permissions p)) = [] \<longleftrightarrow>
      (\<forall>(path, perm) \<in> set (p_permissions p). permission_ok p registry perm)"
    by (force simp: concat_eq_Nil_conv permission_issues_Nil)
  have natives: "concat (map (native_issues p wallets) (p_native_transfers p)) = [] \<longleftrightarrow>
      (\<forall>(path, rule) \<in> set (p_native_transfers p). \<forall>w \<in> set (nb_wallet_allowlist rule). known_wallet p wallets w)"
    by (force simp: concat_eq_Nil_conv native_issues_def filter_empty_conv)
  have bindings: "concat (map (binding_issues p) (p_wallets p)) = [] \<longleftrightarrow>
      (\<forall>(w, b) \<in> set (p_wallets p). wbd_policy_path b \<in> fst ` set (p_wallet_constraints p))"
    by (auto simp: concat_eq_Nil_conv binding_issues_def map_of_eq_None_iff split: if_splits)
  have callers: "concat (map (caller_issues p) callers) = [] \<longleftrightarrow>
      (\<forall>c \<in> set callers. c_revoked_at c = None \<longrightarrow> caller_bound p c)"
    by (simp add: concat_eq_Nil_conv caller_issues_Nil)
  have fsp: "concat (map (fsp_issues p wallets) (p_fsp_permissions p)) = [] \<longleftrightarrow>
      (\<forall>block \<in> set (p_fsp_permissions p). fsp_ok p wallets block)"
    by (simp add: concat_eq_Nil_conv fsp_issues_Nil)
  have ids: "capability_issues [] (p_callers p) = [] \<longleftrightarrow> capabilities_distinct p"
    by (simp add: capability_issues_Nil capabilities_distinct_def)
  show ?thesis
    unfolding check_consistency_def consistency_issues_def policy_consistent_def map_is_Nil_conv append_is_Nil_conv
      perms natives bindings callers fsp ids self_submit_issues_Nil
    using shared_addresses_Nil [of p wallets] by blast
qed

subsection \<open>Properties\<close>

text \<open>C10: the consistency check is exact: it reports nothing if and only if every active caller is bound
  under its stored path to a block of one of the three kinds, capability ids are not shared, every
  contract names a registered ABI and only its methods, every wallet of a permissions block has a
  binding, every binding a constraint, the FSP blocks are well formed and disjoint from the permissions,
  every opted-in wallet is confined to the zero-value self-submit shapes, and an address that both
  domains reach belongs to an opted-in wallet.\<close>

theorem check_consistency_exact:
  "check_consistency p callers wallets registry = [] \<longleftrightarrow> policy_consistent p callers wallets registry"
  by (rule check_consistency_Nil)

end
