(* ===== verification/Abi_Load.thy ===== *)
theory Abi_Load
  imports Abi_Intent Py_Json
begin

section \<open>Loading the ABI registry\<close>

text \<open>
  \<open>AbiRegistry.load\<close> of \<open>infra/abi_registry.py\<close>: the checks on \<open>registry.yaml\<close> and on every ABI file
  it names, down to the index of \<open>Abi_Intent\<close>.  The parsed YAML is a \<open>json\<close> value with string keys,
  \<open>safe_load\<close> a parameter; JSON files are read by \<open>json_loads\<close>.
\<close>

text \<open>\<open>RegistryError\<close> is \<open>AbiRegistryError\<close> with the check that failed, \<open>Escaped\<close> any other exception.\<close>

datatype registry_problem =
    RegistryMissing
  | RegistryNotMapping
  | RegistryVersion
  | AbisNotMapping
  | FilenameNotString string
  | PathTraversal string string
  | FileMissing string string
  | FileNotJson string string
  | FileNotAbi string string
  | SelectorTwice string string string

datatype load_failure = RegistryError registry_problem | Escaped

subsection \<open>Entries\<close>

definition json_get :: "string \<Rightarrow> json \<Rightarrow> json option" where
  "json_get k j = (case j of JObj kv \<Rightarrow> map_of kv k | _ \<Rightarrow> None)"

definition json_str :: "json option \<Rightarrow> string option" where
  "json_str v = (case v of Some (JStr s) \<Rightarrow> Some s | _ \<Rightarrow> None)"

lemma size_json_in: "(k, v) \<in> set kv \<Longrightarrow> size v < size (JObj kv)"
  by (induction kv) auto

lemma size_json_component:
  assumes "json_get k j = Some (JList cs)" "c \<in> set cs"
  shows "size c < size j"
proof -
  from assms(1) obtain kv where "j = JObj kv" "(k, JList cs) \<in> set kv"
    by (auto simp: json_get_def split: json.splits dest: map_of_SomeD)
  with size_json_in [of k "JList cs" kv] size_list_estimation' [of c cs "size c" size] assms(2)
  show ?thesis by simp
qed

text \<open>An input entry; what is not a dict, or has a key that is not a string, has no type.\<close>

function abi_input_of :: "json \<Rightarrow> abi_input" where
  "abi_input_of j = AbiInput (json_str (json_get ''name'' j)) (json_str (json_get ''type'' j))
     (case json_get ''components'' j of Some (JList cs) \<Rightarrow> Some (map abi_input_of cs) | _ \<Rightarrow> None)"
  by pat_completeness auto
termination
  by (relation "measure size") (auto intro: size_json_component)

declare abi_input_of.simps [simp del]

text \<open>\<open>entry.get("inputs", [])\<close>; the elements of anything else than a list fail in \<open>canonical_type\<close>.\<close>

definition inputs_of :: "json option \<Rightarrow> abi_input list" where
  "inputs_of v =
     (case v of
        None \<Rightarrow> []
      | Some (JList xs) \<Rightarrow> map abi_input_of xs
      | Some (JObj []) \<Rightarrow> []
      | Some (JStr []) \<Rightarrow> []
      | _ \<Rightarrow> [AbiInput None None None])"

definition abi_entry :: "json \<Rightarrow> abi_fn option" where
  "abi_entry j =
     (case j of
        JObj kv \<Rightarrow> Some \<lparr>fn_type = json_str (map_of kv ''type''),
          fn_mutability = json_str (map_of kv ''stateMutability''),
          fn_name = json_str (map_of kv ''name''), fn_inputs = inputs_of (map_of kv ''inputs'')\<rparr>
      | _ \<Rightarrow> None)"

subsection \<open>Files\<close>

text \<open>A Hardhat artifact or a bare array.\<close>

definition abi_array :: "json \<Rightarrow> json list option" where
  "abi_array parsed =
     (case json_get ''abi'' parsed of
        Some (JList xs) \<Rightarrow> Some xs
      | _ \<Rightarrow> (case parsed of JList xs \<Rightarrow> Some xs | _ \<Rightarrow> None))"

fun has_infix :: "string \<Rightarrow> string \<Rightarrow> bool" where
  "has_infix pat [] = (pat = [])"
| "has_infix pat (c # cs) = (starts_with (c # cs) pat \<or> has_infix pat cs)"

definition traverses :: "string \<Rightarrow> bool" where
  "traverses name \<longleftrightarrow> CHR ''/'' \<in> set name \<or> CHR 0x5C \<in> set name \<or> has_infix ''..'' name"

definition load_abi_file ::
  "(string \<Rightarrow> string option) \<Rightarrow> string \<Rightarrow> json \<Rightarrow> registry_problem + abi_fn option list" where
  "load_abi_file files abi_name filename =
     (case filename of
        JStr name \<Rightarrow>
          if traverses name then Inl (PathTraversal abi_name name)
          else (case files name of
            None \<Rightarrow> Inl (FileMissing abi_name name)
          | Some text \<Rightarrow>
              (case json_loads text of
                 None \<Rightarrow> Inl (FileNotJson abi_name name)
               | Some parsed \<Rightarrow>
                   (case abi_array parsed of
                      None \<Rightarrow> Inl (FileNotAbi abi_name name)
                    | Some xs \<Rightarrow> Inr (map abi_entry xs))))
      | _ \<Rightarrow> Inl (FilenameNotString abi_name))"

text \<open>The loop over the declared ABIs: each file is indexed before the next one is opened.\<close>

fun load_files ::
  "(abi_fn \<Rightarrow> byte list option) \<Rightarrow> (string \<Rightarrow> string option) \<Rightarrow> (string \<times> json) list \<Rightarrow> abi_registry \<Rightarrow>
   load_failure + abi_registry" where
  "load_files selector4 files [] reg = Inr reg"
| "load_files selector4 files ((name, filename) # r) reg =
     (case load_abi_file files name filename of
        Inl e \<Rightarrow> Inl (RegistryError e)
      | Inr entries \<Rightarrow>
          (case index_entries selector4 entries [] of
             Inl (DuplicateSelector sel sig sig') \<Rightarrow> Inl (RegistryError (SelectorTwice sel sig sig'))
           | Inl EntryError \<Rightarrow> Inl Escaped
           | Inr submap \<Rightarrow> load_files selector4 files r (AList.update name submap reg)))"

text \<open>\<open>raw.get("version") != 1\<close>; \<open>True\<close> and \<open>1.0\<close> equal 1.\<close>

definition version_one :: "(string \<Rightarrow> bool) \<Rightarrow> json option \<Rightarrow> bool" where
  "version_one float_one v =
     (case v of Some (JInt i) \<Rightarrow> i = 1 | Some (JBool b) \<Rightarrow> b | Some (JFloat x) \<Rightarrow> float_one x | _ \<Rightarrow> False)"

definition abi_registry_load ::
  "(abi_fn \<Rightarrow> byte list option) \<Rightarrow> (string \<Rightarrow> bool) \<Rightarrow> (string \<Rightarrow> json option) \<Rightarrow> (string \<Rightarrow> string option) \<Rightarrow>
   load_failure + abi_registry" where
  "abi_registry_load selector4 float_one safe_load files =
     (case files ''registry.yaml'' of
        None \<Rightarrow> Inl (RegistryError RegistryMissing)
      | Some text \<Rightarrow>
          (case safe_load text of
             None \<Rightarrow> Inl Escaped
           | Some raw \<Rightarrow>
               (case raw of
                  JObj kv \<Rightarrow>
                    if \<not> version_one float_one (map_of kv ''version'') then Inl (RegistryError RegistryVersion)
                    else (case map_of kv ''abis'' of
                      Some (JObj abis) \<Rightarrow> load_files selector4 files abis []
                    | _ \<Rightarrow> Inl (RegistryError AbisNotMapping))
                | _ \<Rightarrow> Inl (RegistryError RegistryNotMapping))))"

subsection \<open>What a loaded registry holds\<close>

text \<open>Loading is indexing the parsed files in order.\<close>

lemma load_files_index:
  assumes "load_files selector4 files abis reg = Inr out"
  shows "\<exists>parsed. map fst parsed = map fst abis \<and> load_abis selector4 parsed reg = Inr out \<and>
    (\<forall>(name, filename) \<in> set abis. \<exists>f. filename = JStr f \<and> \<not> traverses f \<and> files f \<noteq> None)"
  using assms
proof (induction selector4 files abis reg rule: load_files.induct)
  case (1 selector4 files reg)
  then show ?case by simp
next
  case (2 selector4 files name filename r reg)
  from 2(2) obtain entries submap where found: "load_abi_file files name filename = Inr entries"
    and idx: "index_entries selector4 entries [] = Inr submap"
    and rest: "load_files selector4 files r (AList.update name submap reg) = Inr out"
    by (auto split: sum.splits registry_error.splits)
  from 2(1) [OF found idx rest] obtain parsed where "map fst parsed = map fst r"
    "load_abis selector4 parsed (AList.update name submap reg) = Inr out"
    and names: "\<forall>(name, filename) \<in> set r. \<exists>f. filename = JStr f \<and> \<not> traverses f \<and> files f \<noteq> None" by blast
  with idx have "map fst ((name, entries) # parsed) = map fst ((name, filename) # r)"
    "load_abis selector4 ((name, entries) # parsed) reg = Inr out" by simp_all
  moreover from found have "\<exists>f. filename = JStr f \<and> \<not> traverses f \<and> files f \<noteq> None"
    by (auto simp: load_abi_file_def split: json.splits if_splits option.splits)
  ultimately show ?case using names by (intro exI [of _ "(name, entries) # parsed"]) auto
qed

lemma abi_registry_load_index:
  assumes "abi_registry_load selector4 float_one safe_load files = Inr reg"
  shows "\<exists>parsed. load_abis selector4 parsed [] = Inr reg"
  using assms load_files_index
  by (fastforce simp: abi_registry_load_def split: option.splits json.splits if_splits)

end
