(* ===== verification/Startup.thy ===== *)
theory Startup
  imports Policy_Loader Abi_Load Audited
begin

section \<open>Starting the daemon\<close>

text \<open>
  \<open>main.py\<close>: the log scrubber, the memory lock, and \<open>_startup_policy_load\<close>, which loads the ABI registry
  and the policy, checks them against the live callers and wallets, records the outcome and prunes stale
  rate buckets; and \<open>app/policy_check.py\<close>, the same check without the daemon.  The memory lock and the
  files are parameters.  A start gives the policy and the registry the handlers then use, or exits.
\<close>

subsection \<open>The log scrubber\<close>

definition public_hex_fields :: "string list" where
  "public_hex_fields =
     [''tx_hash'', ''hash'', ''block_hash'', ''transactionHash'', ''blockHash'', ''stateRoot'',
      ''transactionsRoot'', ''receiptsRoot'', ''parentHash'', ''mixHash'']"

text \<open>\<open>_PRIVKEY_HEX_RE\<close>; \<open>$\<close> also matches before a final newline.\<close>

definition hex64 :: "string \<Rightarrow> bool" where
  "hex64 s \<longleftrightarrow> length s = 64 \<and> list_all (\<lambda>c. hex_digit c \<noteq> None) s"

definition privkey_hex :: "string \<Rightarrow> bool" where
  "privkey_hex s \<longleftrightarrow> (\<exists>t \<in> {s, chop_newline s}. hex64 t \<or> (starts_with t ''0x'' \<and> hex64 (drop 2 t)))"

definition redacted :: string where
  "redacted = ''<redacted-32-byte-hex>''"

definition scrub_hex_secrets :: "(string \<times> json) list \<Rightarrow> (string \<times> json) list" where
  "scrub_hex_secrets = map (\<lambda>(k, v).
     (k, if k \<in> set public_hex_fields then v
         else case v of JStr s \<Rightarrow> if privkey_hex s then JStr redacted else v | _ \<Rightarrow> v))"

text \<open>No field but the public ones shows a 32-byte hex string; every other value stands.\<close>

lemma scrub_redacts:
  "map fst (scrub_hex_secrets event) = map fst event"
  "(k, JStr s) \<in> set (scrub_hex_secrets event) \<Longrightarrow> privkey_hex s \<Longrightarrow> k \<in> set public_hex_fields"
  "scrub_hex_secrets (scrub_hex_secrets event) = scrub_hex_secrets event"
proof -
  have word: "\<not> privkey_hex redacted"
    by (simp add: privkey_hex_def redacted_def chop_newline_def hex64_def)
  show "map fst (scrub_hex_secrets event) = map fst event"
    by (simp add: scrub_hex_secrets_def case_prod_beta')
  show "(k, JStr s) \<in> set (scrub_hex_secrets event) \<Longrightarrow> privkey_hex s \<Longrightarrow> k \<in> set public_hex_fields"
    using word by (auto simp: scrub_hex_secrets_def split: if_splits json.splits)
  show "scrub_hex_secrets (scrub_hex_secrets event) = scrub_hex_secrets event"
    using word by (auto simp: scrub_hex_secrets_def split: json.splits)
qed

subsection \<open>The start\<close>

text \<open>The files and parsers a start reads, and the release.\<close>

record start_env =
  st_policy_path :: string
  st_policy_text :: "string option"
  st_yaml :: "string \<Rightarrow> string + json"
  st_validate :: "json \<Rightarrow> string + policy"
  st_abi_yaml :: "string \<Rightarrow> json option"
  st_abi_files :: "string \<Rightarrow> string option"
  st_float_one :: "string \<Rightarrow> bool"
  st_selector4 :: "abi_fn \<Rightarrow> byte list option"
  st_version :: string

definition start_registry :: "start_env \<Rightarrow> load_failure + abi_registry" where
  "start_registry env = abi_registry_load (st_selector4 env) (st_float_one env) (st_abi_yaml env) (st_abi_files env)"

definition start_policy :: "start_env \<Rightarrow> policy_load_error + policy" where
  "start_policy env = load_policy (st_policy_path env) (st_policy_text env) (st_yaml env) (st_validate env)"

text \<open>\<open>consistency_errors\<close>, in the session of \<open>policy_check\<close> and of the start.\<close>

definition live_errors :: "policy \<Rightarrow> abi_registry \<Rightarrow> (session, string list) op" where
  "live_errors policy registry =
     bindM (on_callers (caller_list_all False)) (\<lambda>callers.
     bindM (on_wallets wallet_list_all) (\<lambda>wallets.
     ret (check_consistency policy callers wallets registry)))"

definition consistency_errors :: "start_env \<Rightarrow> policy \<Rightarrow> (db, string list) op" where
  "consistency_errors env policy =
     (case start_registry env of
        Inl e \<Rightarrow> raise OtherError
      | Inr registry \<Rightarrow> session_scope False (live_errors policy registry))"

definition join_semicolons :: "string list \<Rightarrow> string" where
  "join_semicolons xs = (case xs of [] \<Rightarrow> [] | y # ys \<Rightarrow> y @ concat (map (\<lambda>z. ''; '' @ z) ys))"

definition load_outcome :: "start_env \<Rightarrow> policy \<Rightarrow> abi_registry \<Rightarrow> (string \<times> json) list" where
  "load_outcome env policy registry =
     [(''policy_yaml_path'', JStr (st_policy_path env)),
      (''policy_yaml_sha256'', JStr (sha256_hex (encode_utf8 (case st_policy_text env of None \<Rightarrow> [] | Some t \<Rightarrow> t)))),
      (''callers_count'', JInt (int (length (p_callers policy)))),
      (''permissions_count'', JInt (int (length (p_permissions policy)))),
      (''wallet_constraints_count'', JInt (int (length (p_wallet_constraints policy)))),
      (''abis_loaded'', JList (map JStr (sort (abi_names registry)))),
      (''fwd_version'', JStr (st_version env))]"

definition loaded_reason :: "policy \<Rightarrow> abi_registry \<Rightarrow> string" where
  "loaded_reason policy registry =
     ''policy loaded: '' @ str_nat (length (p_callers policy)) @ '' callers, '' @
     str_nat (length (p_permissions policy)) @ '' permissions, '' @
     str_nat (length (p_wallet_constraints policy)) @ '' wallet_constraints, '' @
     str_nat (length (abi_names registry)) @ '' abis''"

text \<open>One \<open>policy-load\<close> row.\<close>

definition load_audit :: "start_env \<Rightarrow> clock \<Rightarrow> policy \<Rightarrow> abi_registry \<Rightarrow> string \<Rightarrow> string \<Rightarrow> (session, audit_row) op" where
  "load_audit env ck policy registry decision reason =
     on_audit (append_row (ck_audit ck) ''policy-load'' decision None None (Some reason)
       (Some (canonical_json (JObj (load_outcome env policy registry)))) None)"

text \<open>An exception of the pruning is dropped.\<close>

definition prune_rates :: "datetime \<Rightarrow> (session, unit) op" where
  "prune_rates now = catchM (thenM (on_rates (delete_stale (now - 2 * day_us))) (ret ())) (\<lambda>e. ret ())"

definition start_session :: "start_env \<Rightarrow> clock \<Rightarrow> policy \<Rightarrow> abi_registry \<Rightarrow> (session, unit) op" where
  "start_session env ck policy registry =
     bindM (live_errors policy registry) (\<lambda>errors.
     if errors \<noteq> [] then
       thenM (load_audit env ck policy registry ''error'' (take 2000 (join_semicolons errors)))
         (thenM audit_commit (raise (SystemExit 1)))
     else
       thenM (load_audit env ck policy registry ''approved'' (loaded_reason policy registry))
         (prune_rates (ck_now ck)))"

definition startup_policy_load :: "start_env \<Rightarrow> clock \<Rightarrow> (db, policy \<times> abi_registry) op" where
  "startup_policy_load env ck =
     (case start_registry env of
        Inl (RegistryError e) \<Rightarrow> raise (SystemExit 1)
      | Inl Escaped \<Rightarrow> raise OtherError
      | Inr registry \<Rightarrow>
          (case start_policy env of
             Inl e \<Rightarrow> raise (SystemExit 1)
           | Inr policy \<Rightarrow>
               thenM (session_scope False (start_session env ck policy registry)) (ret (policy, registry))))"

text \<open>\<open>lifespan\<close> up to the yield: \<open>lock_disabled\<close> is \<open>FWD_DISABLE_MLOCK=1\<close>, \<open>path_set\<close> that
  \<open>FWD_POLICY_PATH\<close> is set, \<open>locked\<close> how \<open>mlockall\<close> went; \<open>None\<close> is a daemon without a policy.\<close>

definition lifespan :: "bool \<Rightarrow> bool \<Rightarrow> bool \<Rightarrow> start_env \<Rightarrow> clock \<Rightarrow> (db, (policy \<times> abi_registry) option) op" where
  "lifespan lock_disabled path_set locked env ck =
     (if \<not> lock_disabled then
        (if \<not> locked then raise RuntimeError
         else bindM (startup_policy_load env ck) (\<lambda>x. ret (Some x)))
      else if path_set then bindM (startup_policy_load env ck) (\<lambda>x. ret (Some x))
      else ret None)"

subsection \<open>What a start does\<close>

text \<open>The rows the check sees.\<close>

definition live_callers :: "db \<Rightarrow> caller list" where
  "live_callers d = filter (\<lambda>c. c_revoked_at c = None) (sort_key (\<lambda>c. - c_created_at c) (db_callers d))"

definition live_wallets :: "db \<Rightarrow> wallet list" where
  "live_wallets d = sort_key w_created_at (db_wallets d)"

lemma live_sets [simp]:
  "set (live_callers d) = {c \<in> set (db_callers d). c_revoked_at c = None}"
  "set (live_wallets d) = set (db_wallets d)"
  by (auto simp: live_callers_def live_wallets_def)

text \<open>The database after the row of a start.\<close>

definition load_recorded ::
  "start_env \<Rightarrow> clock \<Rightarrow> policy \<Rightarrow> abi_registry \<Rightarrow> string \<Rightarrow> string \<Rightarrow> db \<Rightarrow> db" where
  "load_recorded env ck policy registry decision reason d = d\<lparr>db_audit :=
     snd (append_row (ck_audit ck) ''policy-load'' decision None None (Some reason)
       (Some (canonical_json (JObj (load_outcome env policy registry)))) None (db_audit d))\<rparr>"

lemma policy_load_valid: "''policy-load'' \<in> set valid_actions"
  by (simp add: valid_actions_def)

lemma load_recorded_grown:
  assumes "decision \<in> set valid_decisions"
  shows "audit_grown ''policy-load'' decision d (load_recorded env ck policy registry decision reason d)"
proof -
  obtain row t where "append_row (ck_audit ck) ''policy-load'' decision None None (Some reason)
      (Some (canonical_json (JObj (load_outcome env policy registry)))) None (db_audit d) = (Inr row, t)"
    using append_row_valid [OF policy_load_valid assms] by blast
  then show ?thesis unfolding audit_grown_def load_recorded_def by simp blast
qed

lemma load_audit_run:
  assumes "decision \<in> set valid_decisions"
  shows "\<exists>row. load_audit env ck policy registry decision reason s =
    (Inr row, s\<lparr>work := load_recorded env ck policy registry decision reason (work s)\<rparr>)"
proof -
  obtain row t where "append_row (ck_audit ck) ''policy-load'' decision None None (Some reason)
      (Some (canonical_json (JObj (load_outcome env policy registry)))) None (db_audit (work s)) = (Inr row, t)"
    using append_row_valid [OF policy_load_valid assms] by blast
  then show ?thesis by (simp add: load_audit_def on_run put_audit_def load_recorded_def)
qed

lemma live_errors_run:
  "live_errors policy registry s =
     (Inr (check_consistency policy (live_callers (work s)) (live_wallets (work s)) registry), s)"
  by (simp add: live_errors_def caller_list_all_def wallet_list_all_def on_run bindM_run live_callers_def live_wallets_def)

lemma prune_rates_run:
  "prune_rates now s = (Inr (), s\<lparr>work := (work s)\<lparr>db_rates := snd (delete_stale (now - 2 * day_us) (db_rates (work s)))\<rparr>\<rparr>)"
  by (simp add: prune_rates_def catchM_def thenM_def bindM_run on_run put_rates_def delete_stale_def Let_def)

definition started :: "start_env \<Rightarrow> clock \<Rightarrow> policy \<Rightarrow> abi_registry \<Rightarrow> db \<Rightarrow> db" where
  "started env ck policy registry d =
     (load_recorded env ck policy registry ''approved'' (loaded_reason policy registry) d)
       \<lparr>db_rates := snd (delete_stale (ck_now ck - 2 * day_us) (db_rates d))\<rparr>"

lemma start_session_run:
  "session_scope False (start_session env ck policy registry) d =
    (if check_consistency policy (live_callers d) (live_wallets d) registry = []
     then (Inr (), started env ck policy registry d)
     else (Inl (SystemExit 1), load_recorded env ck policy registry ''error''
       (take 2000 (join_semicolons (check_consistency policy (live_callers d) (live_wallets d) registry))) d))"
proof -
  obtain row where ok: "load_audit env ck policy registry ''approved'' (loaded_reason policy registry) (open_session d) =
    (Inr row, (open_session d)\<lparr>work := load_recorded env ck policy registry ''approved'' (loaded_reason policy registry) d\<rparr>)"
    using load_audit_run [OF decision_words(1), of env ck policy registry _ "open_session d"] by auto
  obtain row' where bad: "load_audit env ck policy registry ''error''
      (take 2000 (join_semicolons (check_consistency policy (live_callers d) (live_wallets d) registry))) (open_session d) =
    (Inr row', (open_session d)\<lparr>work := load_recorded env ck policy registry ''error''
      (take 2000 (join_semicolons (check_consistency policy (live_callers d) (live_wallets d) registry))) d\<rparr>)"
    using load_audit_run [OF decision_words(3), of env ck policy registry _ "open_session d"] by auto
  have rates: "db_rates (load_recorded env ck policy registry dc rs d) = db_rates d" for dc rs
    by (simp add: load_recorded_def)
  show ?thesis
    by (simp add: session_scope_def start_session_def bindM_run thenM_def live_errors_run ok bad prune_rates_run
        started_def rates)
qed


text \<open>Pruning at a start does not touch the windows that still count.\<close>

lemma started_counters:
  assumes "ck_now ck - 2 * day_us \<le> ws"
  shows "rb_count j (db_rates (started env ck policy registry d)) wk ws = rb_count j (db_rates d) wk ws"
    "fb_count i (db_rates (started env ck policy registry d)) wk ws = fb_count i (db_rates d) wk ws"
    "wbk_count u (db_rates (started env ck policy registry d)) wk ws = wbk_count u (db_rates d) wk ws"
    "committed_value (db_rates (started env ck policy registry d)) u ws = committed_value (db_rates d) u ws"
  using assms by (auto simp: started_def delete_stale_def Let_def rb_count_def fb_count_def wbk_count_def
      committed_value_def wbk_aggregate_def delete_stale_maps split: prod.splits)

end
