(* ===== verification/Policy_Clean.thy ===== *)
theory Policy_Clean
  imports Startup
begin

section \<open>What a clean policy promises\<close>

text \<open>
  The consistency check is meant to mirror the engine: a policy it accepts cannot make the engine refuse
  every request of an active caller for a misconfiguration, and an FSP signing key cannot be used for other
  transactions than the zero-value self-submit ones.  These are properties of the check and the engine
  together.
\<close>

lemma clean_caller:
  assumes "policy_consistent p callers wallets registry" "c \<in> set callers" "c_revoked_at c = None"
  obtains b where "map_of (p_callers p) (c_name c) = Some b" "c_policy_path c = cb_policy_path b"
    "map_of (p_permissions p) (c_policy_path c) \<noteq> None \<or> map_of (p_fsp_permissions p) (c_policy_path c) \<noteq> None \<or>
     map_of (p_native_transfers p) (c_policy_path c) \<noteq> None"
  using assms by (auto simp: policy_consistent_def caller_bound_def)

lemma clean_permission:
  assumes "policy_consistent p callers wallets registry" "map_of (p_permissions p) path = Some perm"
  shows "permission_ok p registry perm"
  using assms map_of_SomeD [OF assms(2)] by (fastforce simp: policy_consistent_def)

text \<open>An allowlisted wallet has a binding, and the binding a constraint.\<close>

lemma clean_wallet:
  assumes "policy_consistent p callers wallets registry" "map_of (p_permissions p) path = Some perm"
    "w \<in> set (pb_wallet_allowlist perm)"
  obtains wb con where "map_of (p_wallets p) w = Some wb" "map_of (p_wallet_constraints p) (wbd_policy_path wb) = Some con"
proof -
  from clean_permission [OF assms(1,2)] assms(3) have "w \<in> fst ` set (p_wallets p)"
    by (auto simp: permission_ok_def)
  then obtain wb where wb: "map_of (p_wallets p) w = Some wb"
    by (metis map_of_eq_None_iff not_Some_eq)
  moreover from assms(1) map_of_SomeD [OF wb] have "wbd_policy_path wb \<in> fst ` set (p_wallet_constraints p)"
    by (fastforce simp: policy_consistent_def)
  then obtain con where "map_of (p_wallet_constraints p) (wbd_policy_path wb) = Some con"
    by (metis map_of_eq_None_iff not_Some_eq)
  ultimately show thesis by (rule that)
qed

text \<open>The denials of the stages.\<close>

lemma rates_stage_denial:
  assumes "rates_stage policy c w rw k m rate limited why v now (Allow d p) t = (Inr (Deny step r), t')"
  shows "step = 8 \<or> step = 9 \<and> (map_of (p_wallets policy) (w_name w) = None \<or> r = ''wallet constraint exceeded'')"
  using assms
  by (auto simp: rates_stage_def Let_def bindM_run thenM_def split: prod.splits sum.splits if_splits option.splits)

lemma evaluate_native_denial:
  assumes "evaluate_native policy rule c w rq now t = (Inr (Deny step r), t')"
  shows "step \<noteq> 1"
proof (cases "native_stage rule rq")
  case (Stop x)
  with assms native_stage_Stop [OF Stop] show ?thesis by (auto simp: evaluate_native_def)
next
  case (Go v)
  with assms show ?thesis by (auto simp: evaluate_native_def dest!: rates_stage_denial)
qed

lemma evaluate_abi_denial:
  assumes "evaluate_abi lib policy registry path c w rq now t = (Inr (Deny step r), t')"
    and "map_of (p_permissions policy) path = Some perm"
  shows "step \<noteq> 1 \<and> (step = 9 \<longrightarrow> rq_wallet rq \<in> set (pb_wallet_allowlist perm) \<and>
    (map_of (p_wallets policy) (w_name w) = None \<or> r = ''wallet constraint exceeded''))"
proof (cases "contract_stage lib registry perm rq")
  case (Inl e)
  with assms show ?thesis by (simp add: evaluate_abi_def bindM_run)
next
  case (Inr st)
  show ?thesis
  proof (cases st)
    case (Stop x)
    with assms Inr contract_stage_Stop [of lib registry perm rq x] show ?thesis
      by (auto simp: evaluate_abi_def bindM_run)
  next
    case (Go dv)
    obtain d v where dv: "dv = (d, v)" by (cases dv)
    with Inr Go have "abi_checks lib registry perm rq d v" by (intro contract_stage_Go) simp
    then have "rq_wallet rq \<in> set (pb_wallet_allowlist perm)" by (auto simp: abi_checks_def)
    with assms Inr Go dv show ?thesis by (auto simp: evaluate_abi_def bindM_run dest!: rates_stage_denial)
  qed
qed


subsection \<open>Signing keys\<close>

lemma name_to_addr_row:
  assumes "distinct (map w_name wallets)" "w \<in> set wallets"
  shows "name_to_addr wallets (w_name w) = Some (py_lower (w_address w))"
proof -
  have "distinct (map fst (rev (map (\<lambda>w. (w_name w, py_lower (w_address w))) wallets)))"
    using assms(1) by (simp add: rev_map [symmetric] comp_def)
  then show ?thesis
    unfolding name_to_addr_def using assms(2) by (intro map_of_is_SomeI) auto
qed

lemma name_to_addrD:
  "name_to_addr wallets n = Some a \<Longrightarrow> \<exists>w \<in> set wallets. w_name w = n \<and> py_lower (w_address w) = a"
  unfolding name_to_addr_def by (auto dest!: map_of_SomeD)

text \<open>What an allowed contract call of a wallet confined to the self-submit shapes can be.\<close>

lemma confined_call:
  assumes "confined policy (rq_wallet rq)" "map_of (p_permissions policy) path = Some perm"
    "abi_checks lib registry perm rq d v"
  shows "(\<exists>abi sigs. (abi, sigs) \<in> set fsp_self_submit_shapes \<and> di_method_signature d \<in> set sigs) \<and>
    py_int (rq_value_wei rq) = Some v \<and> v \<le> 0"
proof -
  from assms(3) obtain addr crule mrule cap where call: "(addr, crule) \<in> set (pb_contracts perm)"
    "map_of (cr_methods crule) (di_method_signature d) = Some mrule" "py_int (mr_max_value_wei mrule) = Some cap"
    "py_int (rq_value_wei rq) = Some v" "v \<le> cap" "rq_wallet rq \<in> set (pb_wallet_allowlist perm)"
    unfolding abi_checks_def by blast
  from map_of_SomeD [OF assms(2)] call(1,6) assms(1) obtain allowed
    where "map_of fsp_self_submit_shapes (cr_abi crule) = Some allowed"
      "\<forall>(sig, rule) \<in> set (cr_methods crule). sig \<in> set allowed \<and> mr_max_value_wei rule = ''0''"
    unfolding confined_def by fastforce
  with map_of_SomeD [OF call(2)] have "(cr_abi crule, allowed) \<in> set fsp_self_submit_shapes"
    "di_method_signature d \<in> set allowed" "mr_max_value_wei mrule = ''0''"
    by (auto dest: map_of_SomeD)
  moreover have "py_int ''0'' = Some 0" by code_simp
  ultimately show ?thesis using call(3,4,5) by auto
qed

lemma segmented_owner:
  assumes "policy_consistent policy callers wallets registry" "w \<in> set wallets" "distinct (map w_name wallets)"
    "distinct (map (\<lambda>w. py_lower (w_address w)) wallets)"
    "w_name w \<in> set (evm_names policy)" "w_name w \<in> set (fsp_names policy)"
  shows "confined policy (w_name w)"
proof -
  have addr: "name_to_addr wallets (w_name w) = Some (py_lower (w_address w))"
    by (rule name_to_addr_row [OF assms(3,2)])
  with assms(1,5,6) obtain n where n: "n \<in> set (p_fsp_self_submit policy)"
    "name_to_addr wallets n = Some (py_lower (w_address w))"
    unfolding policy_consistent_def segmented_def by blast
  from name_to_addrD [OF n(2)] obtain u where u: "u \<in> set wallets" "w_name u = n"
    "py_lower (w_address u) = py_lower (w_address w)" by blast
  with assms(2,4) have "u = w" by (simp add: distinct_map inj_on_def)
  with u n(1) assms(1) show ?thesis by (auto simp: policy_consistent_def self_submit_ok_def)
qed


subsection \<open>A second name for a key\<close>

text \<open>The exemption is one of addresses, not of wallets: when a wallet has opted in, any other wallet with
  the same address may be allowlisted for arbitrary methods and values, and the check still accepts the policy.\<close>

theorem segmentation_admits_twin:
  assumes clean: "check_consistency policy callers wallets registry = []"
    and opted: "n \<in> set (p_fsp_self_submit policy)" "name_to_addr wallets n = Some a"
    and twin: "m \<notin> set (p_fsp_self_submit policy)" "name_to_addr wallets m = Some a"
    and block: "permission_ok policy registry perm" "pb_wallet_allowlist perm = [m]"
    and path: "path \<notin> fst ` set (p_fsp_permissions policy)"
  shows "check_consistency (policy\<lparr>p_permissions := p_permissions policy @ [(path, perm)]\<rparr>) callers wallets registry = []"
proof -
  let ?q = "policy\<lparr>p_permissions := p_permissions policy @ [(path, perm)]\<rparr>"
  have ok: "policy_consistent policy callers wallets registry"
    using clean check_consistency_Nil by simp
  have evm: "set (evm_names ?q) = insert m (set (evm_names policy))" and fsp: "fsp_names ?q = fsp_names policy"
    using block(2) by (auto simp: evm_names_def fsp_names_def)
  have known: "known_wallet ?q = known_wallet policy"
    by (simp add: known_wallet_def fun_eq_iff)
  have same: "permission_ok ?q = permission_ok policy"
    by (simp add: permission_ok_def fun_eq_iff)
  have "policy_consistent ?q callers wallets registry"
    unfolding policy_consistent_def
  proof (intro conjI)
    show "\<forall>c \<in> set callers. c_revoked_at c = None \<longrightarrow> caller_bound ?q c"
      using ok by (fastforce simp: policy_consistent_def caller_bound_def map_of_append)
    show "capabilities_distinct ?q"
      using ok by (simp add: policy_consistent_def capabilities_distinct_def)
    show "\<forall>(path, perm) \<in> set (p_permissions ?q). permission_ok ?q registry perm"
      using ok block(1) by (auto simp: policy_consistent_def same)
    show "\<forall>(path, rule) \<in> set (p_native_transfers ?q). \<forall>w \<in> set (nb_wallet_allowlist rule). known_wallet ?q wallets w"
      using ok by (simp add: policy_consistent_def known)
    show "\<forall>(w, b) \<in> set (p_wallets ?q). wbd_policy_path b \<in> fst ` set (p_wallet_constraints ?q)"
      using ok by (simp add: policy_consistent_def)
    show "\<forall>block \<in> set (p_fsp_permissions ?q). fsp_ok ?q wallets block"
    proof
      fix b assume b: "b \<in> set (p_fsp_permissions ?q)"
      then have "fst b \<noteq> path" using path by auto
      then have "fsp_ok ?q wallets b \<longleftrightarrow> fsp_ok policy wallets b"
        by (cases b) (simp add: fsp_ok_def known)
      with b ok show "fsp_ok ?q wallets b" by (simp add: policy_consistent_def)
    qed
    show "\<forall>w \<in> set (p_fsp_self_submit ?q). self_submit_ok ?q wallets w"
    proof
      fix w assume w: "w \<in> set (p_fsp_self_submit ?q)"
      with twin(1) have "w \<noteq> m" by auto
      with block(2) have "confined ?q w \<longleftrightarrow> confined policy w" by (simp add: confined_def)
      moreover from ok w have "self_submit_ok policy wallets w" by (simp add: policy_consistent_def)
      ultimately show "self_submit_ok ?q wallets w" by (simp add: self_submit_ok_def known fsp evm)
    qed
    show "segmented ?q wallets"
      using ok opted twin(2) unfolding policy_consistent_def segmented_def evm fsp by (simp; metis option.inject)
  qed
  then show ?thesis using check_consistency_Nil by simp
qed

subsection \<open>A sample\<close>

text \<open>A signing key that may finalise on the relay, its twin, and the caller of each.\<close>

definition relay_fn :: abi_fn where
  "relay_fn = \<lparr>fn_type = Some ''function'', fn_mutability = Some ''nonpayable'', fn_name = Some ''relay'', fn_inputs = []\<rparr>"

definition relay_lib :: eth_lib where
  "relay_lib = \<lparr>eth_selector4 = (\<lambda>f. Some [0xb5, 0x95, 0x16, 0x75]), eth_abi_decode = (\<lambda>ts bs. Some [])\<rparr>"

definition relay_registry :: abi_registry where
  "relay_registry = [(''relay'', [(''0xb5951675'', \<lparr>am_method_signature = ''relay()'',
     am_canonical_input_types = [], am_abi_fn_entry = relay_fn\<rparr>)])]"

definition relay_block :: "string \<Rightarrow> string \<Rightarrow> permission_block" where
  "relay_block name cap = \<lparr>pb_contracts = [(''0xCC'', \<lparr>cr_abi = ''relay'', cr_chains = [14],
       cr_methods = [(''relay()'', \<lparr>mr_max_value_wei = cap, mr_arg_predicates = [],
         mr_allow_unconstrained_args = False\<rparr>)]\<rparr>)],
     pb_wallet_allowlist = [name], pb_rate = Some \<lparr>per_hour = Some 2, per_day = None\<rparr>\<rparr>"

definition relay_policy :: policy where
  "relay_policy = \<lparr>p_version = 1,
     p_callers = [(''fin'', \<lparr>cb_policy_path = ''fin'', cb_capability_id = None\<rparr>),
       (''sig'', \<lparr>cb_policy_path = ''sig'', cb_capability_id = None\<rparr>)],
     p_wallets = [(''key'', \<lparr>wbd_policy_path = ''key''\<rparr>), (''twin'', \<lparr>wbd_policy_path = ''key''\<rparr>)],
     p_permissions = [(''fin'', relay_block ''key'' ''0'')],
     p_wallet_constraints = [(''key'', \<lparr>wc_max_aggregate_value_wei_per_day = None,
        wc_rate = Some \<lparr>per_hour = None, per_day = Some 5\<rparr>\<rparr>)],
     p_fsp_permissions = [(''sig'', \<lparr>fb_message_types = [''UPTIME''], fb_wallet_allowlist = [''key''],
        fb_chain_ids = [14], fb_rate = Some \<lparr>per_hour = Some 2, per_day = None\<rparr>\<rparr>)],
     p_native_transfers = [], p_fsp_self_submit = [''key'']\<rparr>"

definition relay_caller :: "string \<Rightarrow> caller" where
  "relay_caller name = sample_caller\<lparr>c_name := name, c_policy_path := name\<rparr>"

definition relay_wallet :: "string \<Rightarrow> wallet" where
  "relay_wallet name = sample_wallet\<lparr>w_name := name\<rparr>"

definition relay_request :: sign_request where
  "relay_request = sample_request\<lparr>rq_wallet := ''key'', rq_to := ''0xcc'', rq_value_wei := ''0'', rq_data := ''0xb5951675''\<rparr>"

lemmas relay_defs = relay_policy_def relay_block_def relay_registry_def relay_caller_def relay_wallet_def
  sample_caller_def sample_wallet_def fsp_self_submit_shapes_def

lemma relay_clean:
  "check_consistency relay_policy [relay_caller ''fin'', relay_caller ''sig''] [relay_wallet ''key''] relay_registry = []"
  "check_consistency relay_policy [relay_caller ''fin''] [relay_wallet ''key'', relay_wallet ''twin''] relay_registry = []"
  unfolding check_consistency_Nil
  by (simp_all add: policy_consistent_def relay_defs caller_bound_def capabilities_distinct_def map_filter_simps
      permission_ok_def abi_names_def signatures_for_def known_wallet_def fsp_ok_def message_types_def
      self_submit_ok_def confined_def evm_names_def fsp_names_def segmented_def name_to_addr_def)

definition relay_intent :: decoded_intent where
  "relay_intent = \<lparr>di_contract = ''0xcc'', di_method_signature = ''relay()'', di_selector = ''0xb5951675'', di_args = []\<rparr>"

lemma relay_strings [simp]:
  "py_int ''0'' = Some 0" "py_lower ''0xCC'' = ''0xcc''" "py_lower ''0xcc'' = ''0xcc''"
  "strip_0x ''0xb5951675'' = ''b5951675''" "bytes_fromhex ''b5951675'' = Some [0xb5, 0x95, 0x16, 0x75]"
  "bytes_hex [0xb5, 0x95, 0x16, 0x75] = ''b5951675''" "py_lower ''0xb5951675'' = ''0xb5951675''"
  "canonical_signature relay_fn = Some ''relay()''" "has_nonscalar_args relay_fn = Inr False"
  by code_simp+

lemma relay_lookup:
  "registry_lookup relay_registry ''relay'' ''0xb5951675'' = Some \<lparr>am_method_signature = ''relay()'',
     am_canonical_input_types = [], am_abi_fn_entry = relay_fn\<rparr>"
  by (simp add: registry_lookup_def relay_registry_def)

lemma relay_decoded:
  "decode_intent (eth_selector4 relay_lib) (eth_abi_decode relay_lib) ''0xcc'' [0xb5, 0x95, 0x16, 0x75] relay_fn =
     Some relay_intent"
proof -
  have inputs: "fn_inputs relay_fn = []" by (simp add: relay_fn_def)
  show ?thesis by (simp add: decode_intent_def relay_lib_def selector_of_def inputs relay_intent_def)
qed

lemma relay_contract_stage:
  "contract_stage relay_lib relay_registry (relay_block ''key'' ''0'') relay_request = Inr (Go (relay_intent, 0))"
proof -
  have rq: "rq_to relay_request = ''0xcc''" "rq_data relay_request = ''0xb5951675''" "rq_chain relay_request = 14"
    "rq_value_wei relay_request = ''0''" "rq_wallet relay_request = ''key''"
    by (simp_all add: relay_request_def sample_request_def)
  have intent: "di_method_signature relay_intent = ''relay()''" "di_args relay_intent = []"
    by (simp_all add: relay_intent_def)
  have dec: "decode_stage relay_lib relay_registry crule relay_request = Go (relay_intent, relay_fn)"
    if "cr_abi crule = ''relay''" for crule
    using relay_lookup relay_decoded by (simp add: decode_stage_def rq that del: bytes_fromhex.simps)
  have cap: "value_stage ''0'' relay_request = Go 0"
    by (simp add: value_stage_def rq)
  show ?thesis
    by (simp add: contract_stage_def find_contract_def relay_block_def rq dec method_stage_def cap intent)
qed

lemma relay_evaluate:
  "\<exists>t'. evaluate relay_lib relay_policy relay_registry (relay_caller ''fin'') (relay_wallet ''key'') relay_request 7 empty_rates =
     (Inr (Allow relay_intent ''fin''), t')"
proof -
  let ?rates = "rates_stage relay_policy (relay_caller ''fin'') (relay_wallet ''key'') ''key'' ''0xcc'' ''relay()''
    (Some \<lparr>per_hour = Some 2, per_day = None\<rparr>) True ''caller rate limit exceeded'' 0 7 (Allow relay_intent ''fin'')"
  have rates: "\<exists>t'. ?rates empty_rates = (Inr (Allow relay_intent ''fin''), t')"
    by (simp add: rates_stage_def relay_policy_def relay_caller_def relay_wallet_def sample_caller_def sample_wallet_def
      bindM_run thenM_def check_and_increment_caller_def check_and_increment_wallet_def aggregate_allows_def
      rate_windows_def Let_def floor_window_def window_width_def hour_us_def day_us_def
      wbk_count_def rb_inc_def empty_rates_def rb_count_def)
  have path: "map_of (p_callers relay_policy) ''fin'' = Some \<lparr>cb_policy_path = ''fin'', cb_capability_id = None\<rparr>"
    "map_of (p_native_transfers relay_policy) ''fin'' = None"
    "map_of (p_permissions relay_policy) ''fin'' = Some (relay_block ''key'' ''0'')"
    by (simp_all add: relay_policy_def)
  have names: "c_name (relay_caller ''fin'') = ''fin''" "c_policy_path (relay_caller ''fin'') = ''fin''"
    "rq_wallet relay_request = ''key''" "rq_to relay_request = ''0xcc''" "rq_data relay_request = ''0xb5951675''"
    "di_method_signature relay_intent = ''relay()''" "pb_rate (relay_block ''key'' ''0'') = Some \<lparr>per_hour = Some 2, per_day = None\<rparr>"
    by (simp_all add: relay_caller_def relay_request_def relay_intent_def relay_block_def)
  have "evaluate_inner relay_lib relay_policy relay_registry (relay_caller ''fin'') (relay_wallet ''key'') relay_request 7 = ?rates"
    by (simp add: evaluate_inner_def evaluate_abi_def path names relay_contract_stage fun_eq_iff bindM_run)
  with rates show ?thesis by (auto simp: evaluate_def catchM_def)
qed



lemma twin_address: "py_lower ''0xAA'' = ''0xaa''"
  by code_simp

lemma segmentation_admits_twin_witness:
  "check_consistency (relay_policy\<lparr>p_permissions := p_permissions relay_policy @ [(''pay'', relay_block ''twin'' ''9'')]\<rparr>)
     [relay_caller ''fin''] [relay_wallet ''key'', relay_wallet ''twin''] relay_registry = []"
  by (rule segmentation_admits_twin [OF relay_clean(2), of "''key''" "''0xaa''" "''twin''"])
    (simp_all add: relay_defs name_to_addr_def permission_ok_def abi_names_def signatures_for_def twin_address)

end
