(* ===== verification/Policy_Init.thy ===== *)
theory Policy_Init
  imports Policy_Loader Abi_Load
begin

section \<open>Generating a policy\<close>

text \<open>
  \<open>app/policy_init.py\<close>: the generator behind \<open>clifwd policy init\<close>.  The generated policy is built as a
  \<open>policy\<close> record, one assignment of the source after the other; \<open>policy_dict\<close> is the dict it is dumped as
  and \<open>merge_policies\<close> the union with an existing file.  The networks file is a table of addresses and chain
  ids, YAML parsing and dumping are parameters, and the method signatures come from the loaded registry.
\<close>

subsection \<open>Inputs and errors\<close>

definition valid_caps :: "string list" where
  "valid_caps = [''claim'', ''fsp'', ''fsp-voter'', ''fsp-register'']"

record net_spec =
  ns_chain_id :: "int option"
  ns_addresses :: "(string \<times> string) list"

text \<open>\<open>PolicyInitError\<close> with the check that failed, a \<open>KeyError\<close>, and what \<open>AbiRegistry.load\<close> raises.\<close>

datatype init_error =
    NetworksMissing
  | NetworksMalformed
  | NoNetworks
  | UnknownCapabilities "string list"
  | NoCapsGiven
  | UnknownSenderMode string
  | RecipientRequired
  | IdentityRequired
  | UnknownNetworks "string list"
  | AmbiguousMethod string string "string list"
  | AddressMissing string string
  | MergeNotYaml
  | MergeNotMapping
  | MissingKey string
  | RegistryFailed load_failure

text \<open>The networks file: \<open>None\<close> if it is missing; the parsed mapping, empty when the file is falsy, or \<open>None\<close> if
  it is something else.\<close>

definition load_networks ::
  "string option \<Rightarrow> (string \<Rightarrow> (string \<times> net_spec) list option) \<Rightarrow> init_error + (string \<times> net_spec) list" where
  "load_networks content parse =
     (case content of
        None \<Rightarrow> Inl NetworksMissing
      | Some text \<Rightarrow> (case parse text of None \<Rightarrow> Inl NetworksMalformed | Some t \<Rightarrow> Inr t))"

definition method_name :: "string \<Rightarrow> string" where
  "method_name s = takeWhile (\<lambda>c. c \<noteq> CHR ''('') s"

definition sig_for :: "abi_registry \<Rightarrow> string \<Rightarrow> string \<Rightarrow> init_error + string" where
  "sig_for registry abi name =
     (case remdups (filter (\<lambda>s. method_name s = name) (signatures_for registry abi)) of
        [s] \<Rightarrow> Inr s
      | matches \<Rightarrow> Inl (AmbiguousMethod abi name matches))"

text \<open>The signatures in the order they are looked up, each with the capability that needs it.\<close>

definition required_sigs :: "(string \<times> string \<times> string) list" where
  "required_sigs =
     [(''claim'', ''reward_manager'', ''claim''),
      (''fsp'', ''flare_systems_manager'', ''signUptimeVote''),
      (''fsp'', ''flare_systems_manager'', ''signRewards''),
      (''fsp-voter'', ''submission'', ''submit1''),
      (''fsp-voter'', ''submission'', ''submit2''),
      (''fsp-voter'', ''submission'', ''submit3''),
      (''fsp-voter'', ''submission'', ''submitSignatures''),
      (''fsp-voter'', ''fast_updater'', ''submitUpdates''),
      (''fsp-voter'', ''relay'', ''relay''),
      (''fsp-voter'', ''flare_systems_manager'', ''signNewSigningPolicy''),
      (''fsp-voter'', ''voter_registry'', ''registerVoter''),
      (''fsp-register'', ''entity_manager'', ''confirmSubmitAddressRegistration''),
      (''fsp-register'', ''entity_manager'', ''confirmSubmitSignaturesAddressRegistration''),
      (''fsp-register'', ''entity_manager'', ''confirmSigningPolicyAddressRegistration'')]"

type_synonym sigs = "string \<Rightarrow> string \<Rightarrow> string"

fun resolve_sigs ::
  "abi_registry \<Rightarrow> string list \<Rightarrow> (string \<times> string \<times> string) list \<Rightarrow> sigs \<Rightarrow> init_error + sigs" where
  "resolve_sigs registry caps [] sg = Inr sg"
| "resolve_sigs registry caps ((cap, abi, name) # r) sg =
     (if cap \<notin> set caps then resolve_sigs registry caps r sg
      else case sig_for registry abi name of
        Inl e \<Rightarrow> Inl e
      | Inr s \<Rightarrow> resolve_sigs registry caps r (sg(abi := (sg abi)(name := s))))"

subsection \<open>The sections of the policy\<close>

definition add_caller :: "string \<Rightarrow> string \<Rightarrow> policy \<Rightarrow> policy" where
  "add_caller name path p = p\<lparr>p_callers := AList.update name \<lparr>cb_policy_path = path, cb_capability_id = None\<rparr> (p_callers p)\<rparr>"

definition add_wallet :: "string \<Rightarrow> string \<Rightarrow> policy \<Rightarrow> policy" where
  "add_wallet name path p = p\<lparr>p_wallets := AList.update name \<lparr>wbd_policy_path = path\<rparr> (p_wallets p)\<rparr>"

text \<open>\<open>dict.setdefault\<close>.\<close>

definition default_wallet :: "string \<Rightarrow> string \<Rightarrow> policy \<Rightarrow> policy" where
  "default_wallet name path p = (if map_of (p_wallets p) name = None then add_wallet name path p else p)"

definition rate_of :: "int \<times> int \<Rightarrow> rate_limit option" where
  "rate_of pair = Some \<lparr>per_hour = Some (fst pair), per_day = Some (snd pair)\<rparr>"

definition add_constraint :: "string \<Rightarrow> int \<times> int \<Rightarrow> policy \<Rightarrow> policy" where
  "add_constraint path rate p = p\<lparr>p_wallet_constraints := AList.update path
     \<lparr>wc_max_aggregate_value_wei_per_day = Some ''0'', wc_rate = rate_of rate\<rparr> (p_wallet_constraints p)\<rparr>"

text \<open>A permissions block of one contract, whose methods carry no value.\<close>

definition zero_rule :: "bool \<Rightarrow> (string \<times> pyval) list \<Rightarrow> method_rule" where
  "zero_rule unconstrained predicates = \<lparr>mr_max_value_wei = ''0'', mr_arg_predicates = predicates,
     mr_allow_unconstrained_args = unconstrained\<rparr>"

definition add_permission ::
  "string \<Rightarrow> string \<Rightarrow> string \<Rightarrow> int \<Rightarrow> (string \<times> method_rule) list \<Rightarrow> string list \<Rightarrow> int \<times> int \<Rightarrow> policy \<Rightarrow> policy" where
  "add_permission path addr abi chain methods allowlist rate p = p\<lparr>p_permissions := AList.update path
     \<lparr>pb_contracts = [(addr, \<lparr>cr_abi = abi, cr_chains = [chain], cr_methods = methods\<rparr>)],
      pb_wallet_allowlist = allowlist, pb_rate = rate_of rate\<rparr> (p_permissions p)\<rparr>"

definition add_fsp :: "string \<Rightarrow> string \<Rightarrow> string \<Rightarrow> int \<Rightarrow> int \<times> int \<Rightarrow> policy \<Rightarrow> policy" where
  "add_fsp path message_type wallet chain rate p = p\<lparr>p_fsp_permissions := AList.update path
     \<lparr>fb_message_types = [message_type], fb_wallet_allowlist = [wallet], fb_chain_ids = [chain],
      fb_rate = rate_of rate\<rparr> (p_fsp_permissions p)\<rparr>"

definition add_self_submit :: "string \<Rightarrow> policy \<Rightarrow> policy" where
  "add_self_submit wallet p = p\<lparr>p_fsp_self_submit := p_fsp_self_submit p @ [wallet]\<rparr>"

text \<open>What the roles repeat: a wallet with its zero-value constraint; a caller that signs one message type; a
  caller that submits methods of one contract.\<close>

definition hot_wallet :: "string \<Rightarrow> string \<Rightarrow> int \<times> int \<Rightarrow> policy \<Rightarrow> policy" where
  "hot_wallet name path rate p = add_constraint path rate (add_wallet name path p)"

definition sign_role :: "string \<Rightarrow> string \<Rightarrow> string \<Rightarrow> string \<Rightarrow> int \<Rightarrow> int \<times> int \<Rightarrow> policy \<Rightarrow> policy" where
  "sign_role caller path message_type wallet chain rate p =
     add_fsp path message_type wallet chain rate (add_caller caller path p)"

definition submit_role ::
  "string \<Rightarrow> string \<Rightarrow> string \<Rightarrow> string \<Rightarrow> int \<Rightarrow> (string \<times> method_rule) list \<Rightarrow> string list \<Rightarrow> int \<times> int \<Rightarrow>
   policy \<Rightarrow> policy" where
  "submit_role caller path addr abi chain methods allowlist rate p =
     add_permission path addr abi chain methods allowlist rate (add_caller caller path p)"

subsection \<open>One network\<close>

definition claim_rules :: "sigs \<Rightarrow> string \<Rightarrow> int \<times> int \<Rightarrow> string \<Rightarrow> int \<Rightarrow> string \<Rightarrow> policy \<Rightarrow> policy" where
  "claim_rules sg recipient rate net chain manager p =
     hot_wallet (''claimer-'' @ net) (''wc/claimer-'' @ net) rate
      (submit_role (''claim-'' @ net) (''perm/claim-'' @ net) manager ''reward_manager'' chain
        [(sg ''reward_manager'' ''claim'', zero_rule True [(''_recipient'', PStr recipient)])]
        [''claimer-'' @ net] rate p)"

definition fsp_rules :: "sigs \<Rightarrow> bool \<Rightarrow> int \<times> int \<Rightarrow> string \<Rightarrow> int \<Rightarrow> string \<Rightarrow> policy \<Rightarrow> policy" where
  "fsp_rules sg shared rate net chain fsm p =
     (let signing = ''fsp-signing-'' @ net;
          sender = (if shared then ''fsp-sender'' else ''fsp-sender-'' @ net);
          wc_sender = (if shared then ''wc/fsp-sender'' else ''wc/fsp-sender-'' @ net);
          methods = (\<lambda>m. [(sg ''flare_systems_manager'' m, zero_rule True [(''_rewardEpochId'', PStr ''any'')])]);
          p = hot_wallet signing (''wc/fsp-'' @ net) rate p;
          p = hot_wallet sender wc_sender rate p;
          p = sign_role (''uptime-vote-sign-'' @ net) (''fsp/uptime-'' @ net) ''UPTIME'' signing chain rate p;
          p = sign_role (''reward-distribution-sign-'' @ net) (''fsp/reward-'' @ net) ''REWARD_DISTRIBUTION'' signing
                chain rate p;
          p = submit_role (''uptime-vote-submit-'' @ net) (''perm/uptime-submit-'' @ net) fsm ''flare_systems_manager'' chain
                (methods ''signUptimeVote'') [signing, sender] rate p;
          p = submit_role (''reward-distribution-submit-'' @ net) (''perm/reward-submit-'' @ net) fsm
                ''flare_systems_manager'' chain (methods ''signRewards'') [signing, sender] rate p
      in add_self_submit signing p)"

definition fastupdate_seat :: "sigs \<Rightarrow> int \<times> int \<Rightarrow> string \<Rightarrow> int \<Rightarrow> string \<Rightarrow> string \<Rightarrow> policy \<Rightarrow> policy" where
  "fastupdate_seat sg rate net chain addr i p =
     submit_role (''fastupdate-submit-'' @ i @ ''-'' @ net) (''perm/fastupdate-submit-'' @ i @ ''-'' @ net) addr ''fast_updater''
       chain [(sg ''fast_updater'' ''submitUpdates'', zero_rule True [])] [''fastupdate-'' @ i @ ''-'' @ net] rate
       (hot_wallet (''fastupdate-'' @ i @ ''-'' @ net) (''wc/fastupdate-'' @ i @ ''-'' @ net) rate p)"

text \<open>The rules of the voter role, with the addresses of the submission, fast-updater, relay and voter-registry
  contracts and the systems manager.\<close>

definition voter_sign_roles :: "int \<times> int \<Rightarrow> string \<Rightarrow> int \<Rightarrow> policy \<Rightarrow> policy" where
  "voter_sign_roles rate net chain p =
     (let signing = ''fsp-signing-'' @ net;
          p = sign_role (''signing-policy-sign-'' @ net) (''fsp/signing-policy-'' @ net) ''SIGNING_POLICY'' signing chain rate p;
          p = sign_role (''voter-registration-sign-'' @ net) (''fsp/voter-registration-'' @ net) ''VOTER_REGISTRATION''
                signing chain rate p;
          p = sign_role (''protocol-message-sign-'' @ net) (''fsp/protocol-message-'' @ net) ''PROTOCOL_PAYLOAD'' signing
                chain rate p
      in sign_role (''fastupdate-sign-'' @ net) (''fsp/fastupdate-sign-'' @ net) ''FAST_UPDATE'' signing chain rate p)"

definition voter_rules ::
  "sigs \<Rightarrow> int \<times> int \<Rightarrow> string \<Rightarrow> int \<Rightarrow> string \<Rightarrow> string \<Rightarrow> string \<Rightarrow> string \<Rightarrow> string \<Rightarrow> policy \<Rightarrow> policy" where
  "voter_rules sg rate net chain submission fast_updater relay registry fsm p =
     (let signing = ''fsp-signing-'' @ net;
          price = ''fsp-submit-'' @ net;
          sig_submit = ''fsp-sig-submit-'' @ net;
          rule = zero_rule True [];
          p = hot_wallet signing (''wc/fsp-'' @ net) rate p;
          p = add_self_submit signing p;
          p = voter_sign_roles rate net chain p;
          p = fastupdate_seat sg rate net chain fast_updater ''1'' p;
          p = fastupdate_seat sg rate net chain fast_updater ''2'' p;
          p = fastupdate_seat sg rate net chain fast_updater ''3'' p;
          p = hot_wallet price (''wc/fsp-submit-'' @ net) rate p;
          p = submit_role (''ftso-price-submit-'' @ net) (''perm/ftso-price-submit-'' @ net) submission ''submission'' chain
                (AList.update (sg ''submission'' ''submit3'') rule (AList.update (sg ''submission'' ''submit2'') rule
                  [(sg ''submission'' ''submit1'', rule)])) [price] rate p;
          p = hot_wallet sig_submit (''wc/fsp-sig-submit-'' @ net) rate p;
          p = submit_role (''ftso-signature-submit-'' @ net) (''perm/ftso-signature-submit-'' @ net) submission ''submission''
                chain [(sg ''submission'' ''submitSignatures'', rule)] [sig_submit] rate p;
          p = submit_role (''relay-submit-'' @ net) (''perm/relay-submit-'' @ net) relay ''relay'' chain
                [(sg ''relay'' ''relay'', rule)] [signing] rate p;
          p = submit_role (''signing-policy-submit-'' @ net) (''perm/signing-policy-submit-'' @ net) fsm
                ''flare_systems_manager'' chain [(sg ''flare_systems_manager'' ''signNewSigningPolicy'', rule)] [signing] rate p
      in submit_role (''voter-registration-submit-'' @ net) (''perm/voter-registration-submit-'' @ net) registry
           ''voter_registry'' chain [(sg ''voter_registry'' ''registerVoter'', rule)] [signing] rate p)"

definition confirm_role ::
  "sigs \<Rightarrow> string \<Rightarrow> int \<times> int \<Rightarrow> string \<Rightarrow> int \<Rightarrow> string \<Rightarrow> string \<Rightarrow> string \<Rightarrow> string \<Rightarrow> string \<Rightarrow> string \<Rightarrow>
   policy \<Rightarrow> policy" where
  "confirm_role sg identity rate net chain manager caller wallet wc path name p =
     add_permission (path @ net) manager ''entity_manager'' chain
       [(sg ''entity_manager'' name, zero_rule False [(''_voter'', PStr identity)])] [wallet @ net] rate
       (default_wallet (wallet @ net) (wc @ net) (add_caller (caller @ net) (path @ net) p))"

definition register_rules :: "sigs \<Rightarrow> string \<Rightarrow> int \<times> int \<Rightarrow> string \<Rightarrow> int \<Rightarrow> string \<Rightarrow> policy \<Rightarrow> policy" where
  "register_rules sg identity rate net chain manager p =
     confirm_role sg identity rate net chain manager ''entity-confirm-signing-'' ''fsp-signing-'' ''wc/fsp-''
       ''perm/entity-confirm-signing-'' ''confirmSigningPolicyAddressRegistration''
      (confirm_role sg identity rate net chain manager ''entity-confirm-sig-submit-'' ''fsp-sig-submit-'' ''wc/fsp-sig-submit-''
         ''perm/entity-confirm-sig-submit-'' ''confirmSubmitSignaturesAddressRegistration''
        (confirm_role sg identity rate net chain manager ''entity-confirm-submit-'' ''fsp-submit-'' ''wc/fsp-submit-''
           ''perm/entity-confirm-submit-'' ''confirmSubmitAddressRegistration'' p))"

subsection \<open>All networks\<close>

text \<open>\<open>spec[key]\<close>, and the addresses whose absence is reported.\<close>

definition address_of :: "net_spec \<Rightarrow> string \<Rightarrow> init_error + string" where
  "address_of spec key = (case map_of (ns_addresses spec) key of None \<Rightarrow> Inl (MissingKey key) | Some a \<Rightarrow> Inr a)"

definition required_address :: "string \<Rightarrow> net_spec \<Rightarrow> string \<Rightarrow> init_error + string" where
  "required_address net spec key =
     (case map_of (ns_addresses spec) key of None \<Rightarrow> Inl (AddressMissing net key) | Some a \<Rightarrow> Inr a)"

fun bind_sum :: "'e + 'a \<Rightarrow> ('a \<Rightarrow> 'e + 'b) \<Rightarrow> 'e + 'b" where
  "bind_sum (Inl e) f = Inl e"
| "bind_sum (Inr a) f = f a"

text \<open>The arguments of \<open>generate_policy\<close>; \<open>None\<close> for a recipient or an identity that was not given.\<close>

record init_args =
  ia_networks :: "string list"
  ia_capabilities :: "string list"
  ia_recipient :: "string option"
  ia_identity :: "string option"
  ia_sender_mode :: string
  ia_claim_rate :: "int \<times> int"
  ia_fsp_rate :: "int \<times> int"

definition network_rules ::
  "init_args \<Rightarrow> string list \<Rightarrow> sigs \<Rightarrow> string \<Rightarrow> net_spec \<Rightarrow> policy \<Rightarrow> init_error + policy" where
  "network_rules args caps sg net spec p =
     (case ns_chain_id spec of
        None \<Rightarrow> Inl (MissingKey ''chain_id'')
      | Some chain \<Rightarrow>
          bind_sum (if ''claim'' \<in> set caps
            then bind_sum (address_of spec ''reward_manager'') (\<lambda>manager.
              Inr (claim_rules sg (the (ia_recipient args)) (ia_claim_rate args) net chain manager p))
            else Inr p) (\<lambda>p.
          bind_sum (if ''fsp'' \<in> set caps
            then bind_sum (address_of spec ''flare_systems_manager'') (\<lambda>fsm.
              Inr (fsp_rules sg (ia_sender_mode args \<noteq> ''per-network'') (ia_fsp_rate args) net chain fsm p))
            else Inr p) (\<lambda>p.
          bind_sum (if ''fsp-voter'' \<in> set caps
            then bind_sum (required_address net spec ''submission'') (\<lambda>submission.
              bind_sum (required_address net spec ''fast_updater'') (\<lambda>fast_updater.
              bind_sum (required_address net spec ''relay'') (\<lambda>relay.
              bind_sum (required_address net spec ''voter_registry'') (\<lambda>registry.
              bind_sum (address_of spec ''flare_systems_manager'') (\<lambda>fsm.
              Inr (voter_rules sg (ia_fsp_rate args) net chain submission fast_updater relay registry fsm p))))))
            else Inr p) (\<lambda>p.
          if ''fsp-register'' \<in> set caps
          then bind_sum (required_address net spec ''entity_manager'') (\<lambda>manager.
            Inr (register_rules sg (the (ia_identity args)) (ia_fsp_rate args) net chain manager p))
          else Inr p))))"

fun networks_loop ::
  "init_args \<Rightarrow> string list \<Rightarrow> sigs \<Rightarrow> (string \<times> net_spec) list \<Rightarrow> string list \<Rightarrow> policy \<Rightarrow> init_error + policy" where
  "networks_loop args caps sg table [] p = Inr p"
| "networks_loop args caps sg table (net # nets) p =
     (case map_of table net of
        None \<Rightarrow> Inl (UnknownNetworks [net])
      | Some spec \<Rightarrow> bind_sum (network_rules args caps sg net spec p) (networks_loop args caps sg table nets))"

definition empty_policy :: policy where
  "empty_policy = \<lparr>p_version = 1, p_callers = [], p_wallets = [], p_permissions = [], p_wallet_constraints = [],
     p_fsp_permissions = [], p_native_transfers = [], p_fsp_self_submit = []\<rparr>"

definition given_names :: "string list \<Rightarrow> string list" where
  "given_names xs = filter (\<lambda>s. s \<noteq> []) (map py_strip xs)"

definition is_given :: "string option \<Rightarrow> bool" where
  "is_given v \<longleftrightarrow> (case v of None \<Rightarrow> False | Some s \<Rightarrow> s \<noteq> [])"

definition check_args :: "init_args \<Rightarrow> string list \<Rightarrow> string list \<Rightarrow> init_error option" where
  "check_args args nets caps =
     (if nets = [] then Some NoNetworks
      else if \<not> set caps \<subseteq> set valid_caps
      then Some (UnknownCapabilities (sort (remdups (filter (\<lambda>c. c \<notin> set valid_caps) caps))))
      else if caps = [] then Some NoCapsGiven
      else if ia_sender_mode args \<noteq> ''per-network'' \<and> ia_sender_mode args \<noteq> ''shared''
      then Some (UnknownSenderMode (ia_sender_mode args))
      else if ''claim'' \<in> set caps \<and> \<not> is_given (ia_recipient args) then Some RecipientRequired
      else if ''fsp-register'' \<in> set caps \<and> \<not> is_given (ia_identity args) then Some IdentityRequired
      else None)"

text \<open>The generated policy before it is dumped; \<open>networks\<close> and \<open>registry\<close> are what loading gave.\<close>

definition generated ::
  "init_args \<Rightarrow> init_error + (string \<times> net_spec) list \<Rightarrow> load_failure + abi_registry \<Rightarrow> init_error + policy" where
  "generated args networks registry =
     (let nets = given_names (ia_networks args);
          caps = map py_lower (given_names (ia_capabilities args))
      in case check_args args nets caps of
        Some e \<Rightarrow> Inl e
      | None \<Rightarrow>
          bind_sum networks (\<lambda>table.
          if \<not> set nets \<subseteq> fst ` set table
          then Inl (UnknownNetworks (filter (\<lambda>n. n \<notin> fst ` set table) nets))
          else (case registry of
            Inl e \<Rightarrow> Inl (RegistryFailed e)
          | Inr reg \<Rightarrow>
              bind_sum (resolve_sigs reg caps required_sigs (\<lambda>abi name. [])) (\<lambda>sg.
              bind_sum (networks_loop args caps sg table nets empty_policy) (\<lambda>p.
              Inr (p\<lparr>p_fsp_self_submit := rev (remdups (rev (p_fsp_self_submit p)))\<rparr>))))))"

subsection \<open>The dict and the merge\<close>

definition rate_json :: "rate_limit option \<Rightarrow> json" where
  "rate_json r = (case r of None \<Rightarrow> JNull
     | Some q \<Rightarrow> JObj [(''per_hour'', JInt (the (per_hour q))), (''per_day'', JInt (the (per_day q)))])"

definition pyval_json :: "pyval \<Rightarrow> json" where
  "pyval_json v = (case v of PStr s \<Rightarrow> JStr s | PInt i \<Rightarrow> JInt i | PBool b \<Rightarrow> JBool b | PNone \<Rightarrow> JNull | POther s \<Rightarrow> JStr s)"

definition method_json :: "method_rule \<Rightarrow> json" where
  "method_json m = JObj ([(''max_value_wei'', JStr (mr_max_value_wei m))] @
     (if mr_allow_unconstrained_args m then [(''allow_unconstrained_args'', JBool True)] else []) @
     (if mr_arg_predicates m \<noteq> []
      then [(''arg_predicates'', JObj (map (\<lambda>(k, v). (k, pyval_json v)) (mr_arg_predicates m)))] else []))"

definition contract_json :: "contract_rule \<Rightarrow> json" where
  "contract_json c = JObj [(''abi'', JStr (cr_abi c)), (''chains'', JList (map JInt (cr_chains c))),
     (''methods'', JObj (map (\<lambda>(k, m). (k, method_json m)) (cr_methods c)))]"

definition permission_json :: "permission_block \<Rightarrow> json" where
  "permission_json b = JObj [(''contracts'', JObj (map (\<lambda>(a, c). (a, contract_json c)) (pb_contracts b))),
     (''wallet_allowlist'', JList (map JStr (pb_wallet_allowlist b))), (''rate'', rate_json (pb_rate b))]"

definition constraint_json :: "wallet_constraint \<Rightarrow> json" where
  "constraint_json c = JObj [(''max_aggregate_value_wei_per_day'', JStr (the (wc_max_aggregate_value_wei_per_day c))),
     (''rate'', rate_json (wc_rate c))]"

definition fsp_block_json :: "fsp_permission_block \<Rightarrow> json" where
  "fsp_block_json b = JObj [(''message_types'', JList (map JStr (fb_message_types b))),
     (''wallet_allowlist'', JList (map JStr (fb_wallet_allowlist b))), (''rate'', rate_json (fb_rate b)),
     (''chain_ids'', JList (map JInt (fb_chain_ids b)))]"

definition path_json :: "string \<Rightarrow> json" where
  "path_json path = JObj [(''policy_path'', JStr path)]"

definition policy_dict :: "policy \<Rightarrow> (string \<times> json) list" where
  "policy_dict p =
     [(''version'', JInt 1),
      (''callers'', JObj (map (\<lambda>(k, b). (k, path_json (cb_policy_path b))) (p_callers p))),
      (''wallets'', JObj (map (\<lambda>(k, b). (k, path_json (wbd_policy_path b))) (p_wallets p))),
      (''permissions'', JObj (map (\<lambda>(k, b). (k, permission_json b)) (p_permissions p))),
      (''wallet_constraints'', JObj (map (\<lambda>(k, c). (k, constraint_json c)) (p_wallet_constraints p)))] @
     (if p_fsp_permissions p \<noteq> []
      then [(''fsp_permissions'', JObj (map (\<lambda>(k, b). (k, fsp_block_json b)) (p_fsp_permissions p)))] else []) @
     (if p_fsp_self_submit p \<noteq> []
      then [(''fsp_self_submit'', JList (map JStr (p_fsp_self_submit p)))] else [])"

definition merge_sections :: "string list" where
  "merge_sections = [''callers'', ''wallets'', ''permissions'', ''wallet_constraints'', ''fsp_permissions'']"

text \<open>\<open>{**cur, **add}\<close>.\<close>

definition dict_union :: "(string \<times> json) list \<Rightarrow> (string \<times> json) list \<Rightarrow> (string \<times> json) list" where
  "dict_union cur new = foldl (\<lambda>d (k, v). AList.update k v d) cur new"

definition merge_section :: "(string \<times> json) list \<Rightarrow> (string \<times> json) list \<Rightarrow> string \<Rightarrow> (string \<times> json) list" where
  "merge_section additions merged section =
     (case map_of additions section of
        Some (JObj (x # xs)) \<Rightarrow>
          AList.update section (JObj (dict_union (case map_of merged section of Some (JObj cur) \<Rightarrow> cur | _ \<Rightarrow> []) (x # xs))) merged
      | _ \<Rightarrow> merged)"

definition string_items :: "json option \<Rightarrow> string list" where
  "string_items v = (case v of Some (JList xs) \<Rightarrow> List.map_filter (\<lambda>x. json_str (Some x)) xs | _ \<Rightarrow> [])"

definition merge_policies :: "(string \<times> json) list \<Rightarrow> (string \<times> json) list \<Rightarrow> (string \<times> json) list" where
  "merge_policies base additions =
     (let version = (case map_of additions ''version'' of Some v \<Rightarrow> v
                     | None \<Rightarrow> (case map_of base ''version'' of Some v \<Rightarrow> v | None \<Rightarrow> JInt 1));
          merged = foldl (merge_section additions) (AList.update ''version'' version base) merge_sections;
          ss = foldl (\<lambda>ss w. if w \<in> set ss then ss else ss @ [w])
                 (string_items (map_of merged ''fsp_self_submit'')) (string_items (map_of additions ''fsp_self_submit''))
      in if ss \<noteq> [] then AList.update ''fsp_self_submit'' (JList (map JStr ss)) merged else merged)"

definition init_header :: string where
  "init_header = ''# Generated by `clifwd policy init`. Operator-controlled private config'' @ [CHR 0x0A] @
     ''# (Core invariant #12 '' @ em_dash @ '' gitignored, never committed). Rename wallets/callers'' @ [CHR 0x0A] @
     ''# to taste; create/import each wallet in fwd and mint each caller token,'' @ [CHR 0x0A] @
     ''# then run `clifwd policy validate` before `docker compose up -d`.'' @ [CHR 0x0A]"

text \<open>\<open>generate_policy\<close>: \<open>safe_load\<close> gives \<open>None\<close> when the merge target does not parse.\<close>

definition generate_policy ::
  "init_args \<Rightarrow> init_error + (string \<times> net_spec) list \<Rightarrow> load_failure + abi_registry \<Rightarrow>
   (string \<Rightarrow> json option) \<Rightarrow> (json \<Rightarrow> string) \<Rightarrow> string option \<Rightarrow> init_error + string" where
  "generate_policy args networks registry safe_load safe_dump merge_into =
     bind_sum (generated args networks registry) (\<lambda>p.
     bind_sum
       (case merge_into of
          None \<Rightarrow> Inr (policy_dict p)
        | Some text \<Rightarrow>
            if py_strip text = [] then Inr (policy_dict p)
            else (case safe_load text of
              None \<Rightarrow> Inl MergeNotYaml
            | Some JNull \<Rightarrow> Inr (merge_policies [] (policy_dict p))
            | Some (JObj existing) \<Rightarrow> Inr (merge_policies existing (policy_dict p))
            | Some _ \<Rightarrow> Inl MergeNotMapping))
       (\<lambda>kv. Inr (init_header @ safe_dump (JObj kv))))"

end
