(* ===== verification/Capability_Grant.thy ===== *)
theory Capability_Grant
  imports Policy_Schema Abi_Load Sign_Fsp "HOL-Library.Monad_Syntax"
begin

section \<open>Capability grants and the credential bundle\<close>

text \<open>
  \<open>app/capability_grant.py\<close>: reading a consumer's capability request, the grants planned for it and the
  custody diff shown to the operator; and \<open>app/bundle_emit.py\<close>: composing the one bundle that carries the
  minted tokens.  All of it is pure; writing the bundle to a file is left out.
\<close>

subsection \<open>The request\<close>

record spec_capability =
  sc_capability_id :: string
  sc_role :: string
  sc_endpoint :: string
  sc_caller_token_env :: string
  sc_wallet_env :: string
  sc_wallet_name :: "string option"
  sc_contract :: "string option"
  sc_contract_name :: "string option"
  sc_method :: "string option"
  sc_value_wei :: "string option"
  sc_recipient_pinned :: "string option"
  sc_suggested_rate :: "string option"

record consumer_spec =
  cs_consumer :: string
  cs_network :: string
  cs_compat :: "(string \<times> string) list"
  cs_capabilities :: "spec_capability list"

text \<open>\<open>CapabilitySpecError\<close>, with the check that failed.\<close>

datatype spec_error = SpecNotJson | SpecNotObject | SpecNotWellFormed

text \<open>Required keys of a pydantic model: strings, and strings or null.\<close>

definition str_key :: "(string \<times> json) list \<Rightarrow> string \<Rightarrow> string option" where
  "str_key kv k = json_str (map_of kv k)"

definition nullable_key :: "(string \<times> json) list \<Rightarrow> string \<Rightarrow> string option option" where
  "nullable_key kv k = (case map_of kv k of Some (JStr s) \<Rightarrow> Some (Some s) | Some JNull \<Rightarrow> Some None | _ \<Rightarrow> None)"

definition capability_id_field :: "(string \<times> json) list \<Rightarrow> string option" where
  "capability_id_field kv =
     (case str_key kv ''capability_id'' of
        None \<Rightarrow> None
      | Some cid \<Rightarrow> if capability_id_matches cid \<and> length cid \<le> 128 then Some cid else None)"

definition parse_capability :: "json \<Rightarrow> spec_capability option" where
  "parse_capability j =
     (case j of
        JObj kv \<Rightarrow> do {
          cid \<leftarrow> capability_id_field kv;
          role \<leftarrow> str_key kv ''role'';
          endpoint \<leftarrow> str_key kv ''endpoint'';
          token_env \<leftarrow> str_key kv ''caller_token_env'';
          wallet_env \<leftarrow> str_key kv ''wallet_env'';
          wallet_name \<leftarrow> nullable_key kv ''wallet_name'';
          contract \<leftarrow> nullable_key kv ''contract'';
          contract_name \<leftarrow> nullable_key kv ''contract_name'';
          meth \<leftarrow> nullable_key kv ''method'';
          value_wei \<leftarrow> nullable_key kv ''value_wei'';
          recipient \<leftarrow> nullable_key kv ''recipient_pinned'';
          rate \<leftarrow> nullable_key kv ''suggested_rate'';
          Some \<lparr>sc_capability_id = cid, sc_role = role, sc_endpoint = endpoint, sc_caller_token_env = token_env,
            sc_wallet_env = wallet_env, sc_wallet_name = wallet_name, sc_contract = contract,
            sc_contract_name = contract_name, sc_method = meth, sc_value_wei = value_wei,
            sc_recipient_pinned = recipient, sc_suggested_rate = rate\<rparr> }
      | _ \<Rightarrow> None)"

definition parse_compat :: "json option \<Rightarrow> (string \<times> string) list option" where
  "parse_compat v =
     (case v of
        Some (JObj kv) \<Rightarrow> those (map (\<lambda>(k, x). map_option (Pair k) (json_str (Some x))) kv)
      | _ \<Rightarrow> None)"

definition parse_capabilities :: "json option \<Rightarrow> spec_capability list option" where
  "parse_capabilities v =
     (case v of
        Some (JList (x # xs)) \<Rightarrow> those (map parse_capability (x # xs))
      | _ \<Rightarrow> None)"

definition join_key :: "string \<Rightarrow> string \<Rightarrow> string \<Rightarrow> string" where
  "join_key consumer network role = consumer @ CHR ''/'' # network @ CHR ''/'' # role"

definition join_integrity :: "consumer_spec \<Rightarrow> bool" where
  "join_integrity s \<longleftrightarrow>
     list_all (\<lambda>c. sc_capability_id c = join_key (cs_consumer s) (cs_network s) (sc_role c)) (cs_capabilities s)"

definition validate_spec :: "(string \<times> json) list \<Rightarrow> consumer_spec option" where
  "validate_spec kv = do {
     consumer \<leftarrow> str_key kv ''consumer'';
     network \<leftarrow> str_key kv ''network'';
     compat \<leftarrow> parse_compat (map_of kv ''compat'');
     caps \<leftarrow> parse_capabilities (map_of kv ''capabilities'');
     let s = \<lparr>cs_consumer = consumer, cs_network = network, cs_compat = compat, cs_capabilities = caps\<rparr>
     in if join_integrity s then Some s else None }"

definition parse_spec :: "string \<Rightarrow> spec_error + consumer_spec" where
  "parse_spec text =
     (case json_loads text of
        None \<Rightarrow> Inl SpecNotJson
      | Some (JObj kv) \<Rightarrow> (case validate_spec kv of None \<Rightarrow> Inl SpecNotWellFormed | Some s \<Rightarrow> Inr s)
      | Some _ \<Rightarrow> Inl SpecNotObject)"

subsection \<open>The plan\<close>

text \<open>\<open>str.format(net=..)\<close> on the templates below.\<close>

function format_net :: "string \<Rightarrow> string \<Rightarrow> string" where
  "format_net net [] = []"
| "format_net net (c # cs) =
     (if starts_with (c # cs) ''{net}'' then net @ format_net net (drop 4 cs) else c # format_net net cs)"
  by pat_completeness auto
termination
  by (relation "measure (\<lambda>(net, s). length s)") auto

definition role_convention :: "(string \<times> string \<times> string) list" where
  "role_convention =
     [(''ftso-reward-claim'', ''claim-{net}'', ''perm/claim-{net}''),
      (''uptime-vote-sign'', ''uptime-vote-sign-{net}'', ''fsp/uptime-{net}''),
      (''reward-distribution-sign'', ''reward-distribution-sign-{net}'', ''fsp/reward-{net}''),
      (''uptime-vote-submit'', ''uptime-vote-submit-{net}'', ''perm/uptime-submit-{net}''),
      (''reward-distribution-submit'', ''reward-distribution-submit-{net}'', ''perm/reward-submit-{net}''),
      (''signing-policy-sign'', ''signing-policy-sign-{net}'', ''fsp/signing-policy-{net}''),
      (''voter-registration-sign'', ''voter-registration-sign-{net}'', ''fsp/voter-registration-{net}''),
      (''protocol-message-sign'', ''protocol-message-sign-{net}'', ''fsp/protocol-message-{net}''),
      (''fastupdate-sign'', ''fastupdate-sign-{net}'', ''fsp/fastupdate-sign-{net}''),
      (''fastupdate-submit-1'', ''fastupdate-submit-1-{net}'', ''perm/fastupdate-submit-1-{net}''),
      (''fastupdate-submit-2'', ''fastupdate-submit-2-{net}'', ''perm/fastupdate-submit-2-{net}''),
      (''fastupdate-submit-3'', ''fastupdate-submit-3-{net}'', ''perm/fastupdate-submit-3-{net}''),
      (''ftso-price-submit'', ''ftso-price-submit-{net}'', ''perm/ftso-price-submit-{net}''),
      (''ftso-signature-submit'', ''ftso-signature-submit-{net}'', ''perm/ftso-signature-submit-{net}''),
      (''relay-submit'', ''relay-submit-{net}'', ''perm/relay-submit-{net}''),
      (''signing-policy-submit'', ''signing-policy-submit-{net}'', ''perm/signing-policy-submit-{net}''),
      (''voter-registration-submit'', ''voter-registration-submit-{net}'', ''perm/voter-registration-submit-{net}''),
      (''entity-confirm-submit'', ''entity-confirm-submit-{net}'', ''perm/entity-confirm-submit-{net}''),
      (''entity-confirm-sig-submit'', ''entity-confirm-sig-submit-{net}'', ''perm/entity-confirm-sig-submit-{net}''),
      (''entity-confirm-signing'', ''entity-confirm-signing-{net}'', ''perm/entity-confirm-signing-{net}'')]"

record planned_grant =
  pg_capability_id :: string
  pg_role :: string
  pg_caller_token_env :: string
  pg_wallet_name :: "string option"
  pg_caller_name :: "string option"
  pg_policy_path :: "string option"

definition planned :: "string \<Rightarrow> spec_capability \<Rightarrow> planned_grant" where
  "planned network c =
     (let template = map_of role_convention (sc_role c)
      in \<lparr>pg_capability_id = sc_capability_id c, pg_role = sc_role c,
          pg_caller_token_env = sc_caller_token_env c, pg_wallet_name = sc_wallet_name c,
          pg_caller_name = map_option (\<lambda>(n, p). format_net network n) template,
          pg_policy_path = map_option (\<lambda>(n, p). format_net network p) template\<rparr>)"

definition provisioning_plan :: "consumer_spec \<Rightarrow> planned_grant list" where
  "provisioning_plan s = map (planned (cs_network s)) (cs_capabilities s)"

subsection \<open>The custody diff\<close>

text \<open>The UTF-8 bytes of the arrow; truthiness of an optional string; \<open>str.rstrip\<close>.\<close>

definition arrow :: string where
  "arrow = [CHR 0xE2, CHR 0x86, CHR 0x92]"

definition given_text :: "string option \<Rightarrow> string option" where
  "given_text v = (case v of Some (c # cs) \<Rightarrow> v | _ \<Rightarrow> None)"

definition or_else :: "string option \<Rightarrow> string \<Rightarrow> string" where
  "or_else v d = (case given_text v of None \<Rightarrow> d | Some s \<Rightarrow> s)"

definition py_rstrip :: "string \<Rightarrow> string" where
  "py_rstrip s = rev (dropWhile is_py_space (rev s))"

definition join_lines :: "string list \<Rightarrow> string" where
  "join_lines xs = (case xs of [] \<Rightarrow> [] | y # ys \<Rightarrow> y @ concat (map (\<lambda>z. CHR 0x0A # z) ys))"

definition capability_lines :: "spec_capability \<Rightarrow> string list" where
  "capability_lines c =
     [''### '' @ sc_capability_id c @ ''  ('' @ sc_role c @ '')'',
      ''- endpoint: '' @ sc_endpoint c,
      ''- fwd wallet: '' @ or_else (sc_wallet_name c) (''<'' @ sc_wallet_env c @ '' unset>'') @
        ''  (env '' @ sc_wallet_env c @ '')'',
      ''- caller token: env '' @ sc_caller_token_env c @ '' (granted by fwd; the value is never shown in this diff)''] @
     (case given_text (sc_contract c) of None \<Rightarrow> []
      | Some a \<Rightarrow> [''- contract: '' @ or_else (sc_contract_name c) ''contract'' @ '' '' @ a]) @
     (case given_text (sc_method c) of None \<Rightarrow> [] | Some m \<Rightarrow> [''- method: '' @ m]) @
     (case sc_value_wei c of None \<Rightarrow> [] | Some v \<Rightarrow> [''- value: '' @ v]) @
     (if sc_role c = ''claim''
      then [''- recipient pinned: '' @ or_else (sc_recipient_pinned c) ''<CLAIM_RECIPIENT_ADDRESS unset>''] else []) @
     (case sc_suggested_rate c of None \<Rightarrow> []
      | Some r \<Rightarrow> [''- suggested rate: '' @ r @ ''  (request only '' @ em_dash @ '' fwd policy is authoritative)'']) @
     [''- '' @ arrow @ '' approve / reject'', '''']"

definition compat_text :: "(string \<times> string) list \<Rightarrow> string \<Rightarrow> string" where
  "compat_text versions k = (case map_of versions k of None \<Rightarrow> ''?'' | Some v \<Rightarrow> v)"

definition render_custody_diff :: "consumer_spec \<Rightarrow> string" where
  "render_custody_diff s =
     py_rstrip (join_lines
       ([''custody diff '' @ em_dash @ '' consumer: '' @ cs_consumer s @ ''   network: '' @ cs_network s,
         ''  (compat: clif='' @ compat_text (cs_compat s) ''clif'' @ '' fwd_client='' @
           compat_text (cs_compat s) ''fwd_client'' @ '' fwd_contract_expected='' @
           compat_text (cs_compat s) ''fwd_contract_expected'' @ '')'',
         ''''] @ concat (map capability_lines (cs_capabilities s)))) @ [CHR 0x0A]"

subsection \<open>The bundle\<close>

record bundle_capability =
  bc_capability_id :: string
  bc_caller_token_env :: string
  bc_caller_token :: string
  bc_wallet_name :: "string option"

text \<open>\<open>BundleEmitError\<close>, with the check that refused.\<close>

datatype bundle_error =
    NoCapabilities
  | TtlNotPositive int
  | LooksLikePrivateKey string
  | TokenUnclean string
  | ConfigPrivateKey string
  | ConfigUnclean string

definition upper_char :: "char \<Rightarrow> char" where
  "upper_char c = (if 97 \<le> char_code c \<and> char_code c \<le> 122 then char_of (char_code c - 32) else c)"

definition py_upper :: "string \<Rightarrow> string" where
  "py_upper s = map upper_char s"

definition names_private_key :: "string \<Rightarrow> bool" where
  "names_private_key s \<longleftrightarrow> has_infix ''PRIVATE_KEY'' (py_upper s)"

definition control_char :: "char \<Rightarrow> bool" where
  "control_char c \<longleftrightarrow> char_code c < 32 \<or> char_code c = 127"

definition reject_if_private_key :: "bundle_capability \<Rightarrow> bundle_error option" where
  "reject_if_private_key c =
     (if names_private_key (bc_caller_token_env c) \<or> names_private_key (bc_caller_token c)
      then Some (LooksLikePrivateKey (bc_capability_id c)) else None)"

definition reject_if_unclean_token :: "bundle_capability \<Rightarrow> bundle_error option" where
  "reject_if_unclean_token c =
     (let t = bc_caller_token c in
      if t = [] \<or> t \<noteq> py_strip t \<or> list_ex control_char t then Some (TokenUnclean (bc_capability_id c)) else None)"

fun reject_unsafe_config :: "(string \<times> string) list \<Rightarrow> bundle_error option" where
  "reject_unsafe_config [] = None"
| "reject_unsafe_config ((k, v) # r) =
     (if names_private_key k \<or> names_private_key v then Some (ConfigPrivateKey k)
      else if v \<noteq> py_strip v \<or> list_ex control_char v then Some (ConfigUnclean k)
      else reject_unsafe_config r)"

text \<open>The loop over the capabilities, both checks of one before the next.\<close>

fun reject_capabilities :: "bundle_capability list \<Rightarrow> bundle_error option" where
  "reject_capabilities [] = None"
| "reject_capabilities (c # cs) =
     (case reject_if_private_key c of
        Some e \<Rightarrow> Some e
      | None \<Rightarrow> (case reject_if_unclean_token c of Some e \<Rightarrow> Some e | None \<Rightarrow> reject_capabilities cs))"

definition bundle_entry :: "bundle_capability \<Rightarrow> json" where
  "bundle_entry c = JObj [(''capability_id'', JStr (bc_capability_id c)),
     (''caller_token_env'', JStr (bc_caller_token_env c)), (''caller_token'', JStr (bc_caller_token c)),
     (''wallet_name'', json_opt (bc_wallet_name c))]"

text \<open>\<open>datetime.isoformat\<close> leaves the microseconds out when there are none.\<close>

definition isoformat :: "datetime \<Rightarrow> string" where
  "isoformat ts = (if ts mod 1000000 = 0 then take 19 (isoformat_us ts) @ ''+00:00'' else isoformat_us ts)"

text \<open>\<open>compose_bundle\<close>; no \<open>config\<close> is the empty one.\<close>

definition compose_bundle ::
  "string \<Rightarrow> string \<Rightarrow> int \<Rightarrow> bundle_capability list \<Rightarrow> (string \<times> string) list option \<Rightarrow> datetime \<Rightarrow>
   bundle_error + (string \<times> json) list" where
  "compose_bundle consumer network ttl_seconds caps config now =
     (if caps = [] then Inl NoCapabilities
      else if ttl_seconds \<le> 0 then Inl (TtlNotPositive ttl_seconds)
      else (let cfg = (case config of None \<Rightarrow> [] | Some kv \<Rightarrow> kv) in
        case reject_capabilities caps of
          Some e \<Rightarrow> Inl e
        | None \<Rightarrow>
            (case reject_unsafe_config cfg of
               Some e \<Rightarrow> Inl e
             | None \<Rightarrow> Inr
                 [(''version'', JInt 2), (''consumer'', JStr consumer), (''network'', JStr network),
                  (''issued_at'', JStr (isoformat now)),
                  (''expires_at'', JStr (isoformat (now + ttl_seconds * 1000000))),
                  (''config'', JObj (map (\<lambda>(k, v). (k, JStr v)) cfg)),
                  (''capabilities'', JList (map bundle_entry caps))])))"

subsection \<open>Reading a request back\<close>

lemma map_of_sorted:
  assumes "distinct (map fst kv)"
  shows "map_of (sort_key fst kv) = map_of kv"
proof -
  have "distinct (map fst (sort_key fst kv))" using assms by (simp add: distinct_map)
  with assms show ?thesis by (subst map_of_inject_set) simp_all
qed

lemma sort_key_values: "sort_key fst (map (\<lambda>(k, v). (k, f v)) kv) = map (\<lambda>(k, v). (k, f v)) (sort_key fst kv)"
proof -
  have ins: "insort_key fst (k, f v) (map (\<lambda>(k, v). (k, f v)) xs) = map (\<lambda>(k, v). (k, f v)) (insort_key fst (k, v) xs)"
    for k v xs by (induction xs) auto
  show ?thesis
  proof (induction kv)
    case (Cons x kv)
    then show ?case by (cases x) (simp add: ins)
  qed simp
qed

text \<open>The payload of \<open>spec --json\<close>, the specification side of \<open>parse_spec\<close>.\<close>

definition capability_json :: "spec_capability \<Rightarrow> json" where
  "capability_json c = JObj
     [(''capability_id'', JStr (sc_capability_id c)), (''role'', JStr (sc_role c)),
      (''endpoint'', JStr (sc_endpoint c)), (''caller_token_env'', JStr (sc_caller_token_env c)),
      (''wallet_env'', JStr (sc_wallet_env c)), (''wallet_name'', json_opt (sc_wallet_name c)),
      (''contract'', json_opt (sc_contract c)), (''contract_name'', json_opt (sc_contract_name c)),
      (''method'', json_opt (sc_method c)), (''value_wei'', json_opt (sc_value_wei c)),
      (''recipient_pinned'', json_opt (sc_recipient_pinned c)), (''suggested_rate'', json_opt (sc_suggested_rate c))]"

definition spec_json :: "consumer_spec \<Rightarrow> json" where
  "spec_json s = JObj
     [(''consumer'', JStr (cs_consumer s)), (''network'', JStr (cs_network s)),
      (''compat'', JObj (map (\<lambda>(k, v). (k, JStr v)) (cs_compat s))),
      (''capabilities'', JList (map capability_json (cs_capabilities s)))]"

definition spec_ok :: "consumer_spec \<Rightarrow> bool" where
  "spec_ok s \<longleftrightarrow> cs_capabilities s \<noteq> [] \<and> join_integrity s \<and> distinct (map fst (cs_compat s)) \<and>
     list_all (\<lambda>c. capability_id_matches (sc_capability_id c) \<and> length (sc_capability_id c) \<le> 128) (cs_capabilities s)"

lemma json_opt_norm [simp]: "jnorm (json_opt v) = json_opt v" "json_ok (json_opt v)"
  by (cases v; simp add: json_opt_def)+

lemma json_opt_read [simp]:
  "(case json_opt v of JStr s \<Rightarrow> Some (Some s) | JNull \<Rightarrow> Some None | _ \<Rightarrow> None) = Some v"
  by (cases v) (simp_all add: json_opt_def)

lemma parse_capability_json:
  assumes "capability_id_matches (sc_capability_id c)" "length (sc_capability_id c) \<le> 128"
  shows "parse_capability (jnorm (capability_json c)) = Some c"
proof -
  let ?kv = "case capability_json c of JObj kv \<Rightarrow> kv"
  have norm: "jnorm (capability_json c) = JObj (sort_key fst ?kv)"
    by (simp add: capability_json_def)
  have "distinct (map fst ?kv)" by (simp add: capability_json_def)
  from map_of_sorted [OF this] have look: "map_of (sort_key fst ?kv) = map_of ?kv" .
  have strs: "str_key (sort_key fst ?kv) k = str_key ?kv k" "nullable_key (sort_key fst ?kv) k = nullable_key ?kv k"
    "capability_id_field (sort_key fst ?kv) = capability_id_field ?kv" for k
    by (simp_all add: str_key_def nullable_key_def capability_id_field_def look)
  show ?thesis
    unfolding norm parse_capability_def json.case strs
    using assms by (simp add: capability_json_def capability_id_field_def str_key_def nullable_key_def json_str_def)
qed

lemma parse_compat_json:
  "parse_compat (Some (jnorm (JObj (map (\<lambda>(k, v). (k, JStr v)) kv)))) = Some (sort_key fst kv)"
proof -
  have norm: "jnorm (JObj (map (\<lambda>(k, v). (k, JStr v)) kv)) = JObj (map (\<lambda>(k, v). (k, JStr v)) (sort_key fst kv))"
    by (simp add: sort_key_values [of JStr, unfolded case_prod_beta'] comp_def case_prod_beta')
  have "those (map (\<lambda>(k, x). map_option (Pair k) (json_str (Some x))) (map (\<lambda>(k, v). (k, JStr v)) xs)) = Some xs"
    for xs by (induction xs) (auto simp: json_str_def)
  then show ?thesis by (simp only: norm parse_compat_def option.case json.case)
qed

lemma those_map_Some: "(\<And>x. x \<in> set xs \<Longrightarrow> f x = Some (g x)) \<Longrightarrow> those (map f xs) = Some (map g xs)"
  by (induction xs) auto

lemma parse_capabilities_json:
  assumes "cs \<noteq> []" "\<And>c. c \<in> set cs \<Longrightarrow> capability_id_matches (sc_capability_id c) \<and> length (sc_capability_id c) \<le> 128"
  shows "parse_capabilities (Some (JList (map jnorm (map capability_json cs)))) = Some cs"
proof -
  have "those (map (\<lambda>c. parse_capability (jnorm (capability_json c))) cs) = Some (map (\<lambda>c. c) cs)"
    by (rule those_map_Some) (use assms(2) parse_capability_json in blast)
  moreover have "parse_capabilities (Some (JList ys)) = those (map parse_capability ys)" if "ys \<noteq> []" for ys
    using that by (cases ys) (simp_all add: parse_capabilities_def)
  ultimately show ?thesis using assms(1) by (simp add: comp_def)
qed

lemma validate_spec_json:
  assumes "spec_ok s"
  shows "jnorm (spec_json s) = JObj kv \<Longrightarrow> validate_spec kv = Some (s\<lparr>cs_compat := sort_key fst (cs_compat s)\<rparr>)"
proof -
  let ?kv = "[(''consumer'', JStr (cs_consumer s)), (''network'', JStr (cs_network s)),
      (''compat'', jnorm (JObj (map (\<lambda>(k, v). (k, JStr v)) (cs_compat s)))),
      (''capabilities'', JList (map jnorm (map capability_json (cs_capabilities s))))]"
  assume "jnorm (spec_json s) = JObj kv"
  then have kv: "kv = sort_key fst ?kv" by (simp add: spec_json_def)
  have look: "map_of kv = map_of ?kv" unfolding kv by (rule map_of_sorted) simp
  have caps: "parse_capabilities (map_of kv ''capabilities'') = Some (cs_capabilities s)"
    using parse_capabilities_json [of "cs_capabilities s"] assms
    by (simp only: look spec_ok_def list_all_iff) simp
  have compat: "parse_compat (map_of kv ''compat'') = Some (sort_key fst (cs_compat s))"
    using parse_compat_json [of "cs_compat s"] by (simp only: look) simp
  have names: "str_key kv ''consumer'' = Some (cs_consumer s)" "str_key kv ''network'' = Some (cs_network s)"
    by (simp_all add: str_key_def json_str_def look)
  have "join_integrity (s\<lparr>cs_compat := sort_key fst (cs_compat s)\<rparr>)"
    using assms by (simp add: spec_ok_def join_integrity_def)
  then show "validate_spec kv = Some (s\<lparr>cs_compat := sort_key fst (cs_compat s)\<rparr>)"
    by (cases s) (simp add: validate_spec_def caps compat names Let_def)
qed

lemma spec_json_ok:
  assumes "spec_ok s"
  shows "json_ok (spec_json s)"
proof -
  have "json_ok (capability_json c)" for c by (simp add: capability_json_def)
  with assms show ?thesis
    by (simp add: spec_json_def spec_ok_def list_all_iff comp_def case_prod_beta')
qed

lemma parse_capability_Some:
  "parse_capability j = Some c \<Longrightarrow> capability_id_matches (sc_capability_id c) \<and> length (sc_capability_id c) \<le> 128"
  by (auto simp: parse_capability_def capability_id_field_def bind_eq_Some_conv split: json.splits option.splits if_splits)

lemma those_Some_set: "those (map f xs) = Some ys \<Longrightarrow> y \<in> set ys \<Longrightarrow> \<exists>x \<in> set xs. f x = Some y"
  by (induction xs arbitrary: ys) (auto split: option.splits)

lemma validate_spec_Some:
  assumes "validate_spec kv = Some s"
  shows "cs_capabilities s \<noteq> [] \<and> join_integrity s \<and>
    (\<forall>c \<in> set (cs_capabilities s). capability_id_matches (sc_capability_id c) \<and> length (sc_capability_id c) \<le> 128)"
proof -
  from assms have caps: "parse_capabilities (map_of kv ''capabilities'') = Some (cs_capabilities s)" and join: "join_integrity s"
    by (auto simp: validate_spec_def bind_eq_Some_conv Let_def split: if_splits)
  from caps obtain x xs where all: "those (map parse_capability (x # xs)) = Some (cs_capabilities s)"
    by (auto simp: parse_capabilities_def split: option.splits json.splits list.splits)
  then have "cs_capabilities s \<noteq> []" by (auto split: option.splits)
  moreover have "capability_id_matches (sc_capability_id c) \<and> length (sc_capability_id c) \<le> 128"
    if "c \<in> set (cs_capabilities s)" for c
    using those_Some_set [OF all that] parse_capability_Some by blast
  ultimately show ?thesis using join by blast
qed

subsection \<open>Grants and bundles\<close>

lemma format_net_simps [simp]: "format_net net (''{net}'' @ s) = net @ format_net net s"
  by (simp add: starts_with_def)

text \<open>The convention formatted: every caller name and path ends in the network.\<close>

lemma convention_formatted:
  "map (\<lambda>(r, n, p). (r, format_net net n, format_net net p)) role_convention =
     [(''ftso-reward-claim'', ''claim-'' @ net, ''perm/claim-'' @ net),
      (''uptime-vote-sign'', ''uptime-vote-sign-'' @ net, ''fsp/uptime-'' @ net),
      (''reward-distribution-sign'', ''reward-distribution-sign-'' @ net, ''fsp/reward-'' @ net),
      (''uptime-vote-submit'', ''uptime-vote-submit-'' @ net, ''perm/uptime-submit-'' @ net),
      (''reward-distribution-submit'', ''reward-distribution-submit-'' @ net, ''perm/reward-submit-'' @ net),
      (''signing-policy-sign'', ''signing-policy-sign-'' @ net, ''fsp/signing-policy-'' @ net),
      (''voter-registration-sign'', ''voter-registration-sign-'' @ net, ''fsp/voter-registration-'' @ net),
      (''protocol-message-sign'', ''protocol-message-sign-'' @ net, ''fsp/protocol-message-'' @ net),
      (''fastupdate-sign'', ''fastupdate-sign-'' @ net, ''fsp/fastupdate-sign-'' @ net),
      (''fastupdate-submit-1'', ''fastupdate-submit-1-'' @ net, ''perm/fastupdate-submit-1-'' @ net),
      (''fastupdate-submit-2'', ''fastupdate-submit-2-'' @ net, ''perm/fastupdate-submit-2-'' @ net),
      (''fastupdate-submit-3'', ''fastupdate-submit-3-'' @ net, ''perm/fastupdate-submit-3-'' @ net),
      (''ftso-price-submit'', ''ftso-price-submit-'' @ net, ''perm/ftso-price-submit-'' @ net),
      (''ftso-signature-submit'', ''ftso-signature-submit-'' @ net, ''perm/ftso-signature-submit-'' @ net),
      (''relay-submit'', ''relay-submit-'' @ net, ''perm/relay-submit-'' @ net),
      (''signing-policy-submit'', ''signing-policy-submit-'' @ net, ''perm/signing-policy-submit-'' @ net),
      (''voter-registration-submit'', ''voter-registration-submit-'' @ net, ''perm/voter-registration-submit-'' @ net),
      (''entity-confirm-submit'', ''entity-confirm-submit-'' @ net, ''perm/entity-confirm-submit-'' @ net),
      (''entity-confirm-sig-submit'', ''entity-confirm-sig-submit-'' @ net, ''perm/entity-confirm-sig-submit-'' @ net),
      (''entity-confirm-signing'', ''entity-confirm-signing-'' @ net, ''perm/entity-confirm-signing-'' @ net)]"
  by (simp add: role_convention_def starts_with_def)

lemma parse_spec_json:
  assumes "spec_ok s"
  shows "parse_spec (canonical_json (spec_json s)) = Inr (s\<lparr>cs_compat := sort_key fst (cs_compat s)\<rparr>)"
proof -
  obtain kv where kv: "jnorm (spec_json s) = JObj kv" by (simp add: spec_json_def)
  with json_loads_canonical [OF spec_json_ok [OF assms]] validate_spec_json [OF assms kv] show ?thesis
    by (simp add: parse_spec_def)
qed

text \<open>C21: a capability request is read back exactly: the JSON of a well-formed request parses to the request
  itself, with the compatibility keys in order.\<close>

theorem parse_spec_roundtrip:
  assumes "spec_ok s"
  shows "parse_spec (canonical_json (spec_json s)) = Inr (s\<lparr>cs_compat := sort_key fst (cs_compat s)\<rparr>)"
  using assms by (rule parse_spec_json)

text \<open>A claim request of a provider, used by the witnesses.\<close>

definition claim_capability :: spec_capability where
  "claim_capability = \<lparr>sc_capability_id = ''clif/flare/ftso-reward-claim'', sc_role = ''ftso-reward-claim'',
     sc_endpoint = ''/v1/sign-transaction'', sc_caller_token_env = ''FWD_CLAIM_TOKEN'', sc_wallet_env = ''CLAIM_WALLET'',
     sc_wallet_name = Some ''claimer-flare'', sc_contract = Some ''0xC8'', sc_contract_name = None,
     sc_method = Some ''claim'', sc_value_wei = Some ''0'', sc_recipient_pinned = Some ''0xBB'', sc_suggested_rate = None\<rparr>"

definition claim_spec :: consumer_spec where
  "claim_spec = \<lparr>cs_consumer = ''clif'', cs_network = ''flare'', cs_compat = [(''clif'', ''2'')],
     cs_capabilities = [claim_capability]\<rparr>"

lemma claim_spec_ok: "spec_ok claim_spec"
proof -
  have "capability_id_matches ''clif/flare/ftso-reward-claim''" by code_simp
  then show ?thesis by (simp add: spec_ok_def claim_spec_def claim_capability_def join_integrity_def join_key_def)
qed

lemma parse_spec_roundtrip_witness: "parse_spec (canonical_json (spec_json claim_spec)) = Inr claim_spec"
  using parse_spec_roundtrip [OF claim_spec_ok] by (simp add: claim_spec_def)

lemma claim_spec_parsed: "parse_spec (canonical_json (spec_json claim_spec)) = Inr claim_spec"
  using parse_spec_json [OF claim_spec_ok] by (simp add: claim_spec_def)

lemma convention_injective:
  assumes "map_of role_convention r = Some (n, p)" "map_of role_convention r' = Some (n', p')"
  shows "format_net net n = format_net net n' \<Longrightarrow> r = r'" "format_net net p = format_net net p' \<Longrightarrow> r = r'"
proof -
  let ?rows = "map (\<lambda>(r, n, p). (r, format_net net n, format_net net p)) role_convention"
  have rows: "(r, format_net net n, format_net net p) \<in> set ?rows" "(r', format_net net n', format_net net p') \<in> set ?rows"
    using assms [THEN map_of_SomeD] by force+
  have "distinct (map (\<lambda>(r, n, p). n) ?rows)" "distinct (map (\<lambda>(r, n, p). p) ?rows)"
    unfolding convention_formatted by simp_all
  then have inj: "inj_on (\<lambda>(r, n, p). n) (set ?rows)" "inj_on (\<lambda>(r, n, p). p) (set ?rows)"
    unfolding distinct_map by blast+
  show "r = r'" if "format_net net n = format_net net n'"
    using inj_onD [OF inj(1) _ rows] that by simp
  show "r = r'" if "format_net net p = format_net net p'"
    using inj_onD [OF inj(2) _ rows] that by simp
qed

text \<open>The plan of an accepted request is sound: it has one grant per capability, each under the join key of
  the request's own consumer, network and role, and two grants of one derived caller name or of one policy path
  are of the same role.\<close>

theorem plan_sound:
  assumes "parse_spec text = Inr s"
  shows "map pg_role (provisioning_plan s) = map sc_role (cs_capabilities s) \<and> provisioning_plan s \<noteq> [] \<and>
    (\<forall>g \<in> set (provisioning_plan s).
       pg_capability_id g = join_key (cs_consumer s) (cs_network s) (pg_role g) \<and> length (pg_capability_id g) \<le> 128 \<and>
       (\<forall>h \<in> set (provisioning_plan s). pg_caller_name g \<noteq> None \<longrightarrow>
          pg_caller_name g = pg_caller_name h \<or> pg_policy_path g = pg_policy_path h \<longrightarrow> pg_role g = pg_role h))"
proof -
  from assms obtain kv where "validate_spec kv = Some s"
    by (auto simp: parse_spec_def split: option.splits json.splits)
  note ok = validate_spec_Some [OF this]
  have same: "sc_role c = sc_role d"
    if "pg_caller_name (planned net c) \<noteq> None" "pg_caller_name (planned net c) = pg_caller_name (planned net d) \<or>
      pg_policy_path (planned net c) = pg_policy_path (planned net d)" for net c d
    using that convention_injective [of "sc_role c" _ _ "sc_role d" _ _ net]
    by (cases "map_of role_convention (sc_role d)") (auto simp: planned_def Let_def)
  have roles: "map pg_role (provisioning_plan s) = map sc_role (cs_capabilities s)"
    by (simp add: provisioning_plan_def planned_def Let_def)
  have "pg_capability_id (planned (cs_network s) c) =
      join_key (cs_consumer s) (cs_network s) (pg_role (planned (cs_network s) c)) \<and>
      length (pg_capability_id (planned (cs_network s) c)) \<le> 128"
    if "c \<in> set (cs_capabilities s)" for c
  proof -
    have "sc_capability_id c = join_key (cs_consumer s) (cs_network s) (sc_role c)" "length (sc_capability_id c) \<le> 128"
      using ok that unfolding join_integrity_def list_all_iff by blast+
    then show ?thesis by (simp add: planned_def Let_def)
  qed
  then have each: "\<forall>g \<in> set (provisioning_plan s).
      pg_capability_id g = join_key (cs_consumer s) (cs_network s) (pg_role g) \<and> length (pg_capability_id g) \<le> 128"
    unfolding provisioning_plan_def set_map by blast
  have role: "pg_role (planned net c) = sc_role c" for net c by (simp add: planned_def Let_def)
  have "\<forall>g \<in> set (provisioning_plan s). \<forall>h \<in> set (provisioning_plan s). pg_caller_name g \<noteq> None \<longrightarrow>
      pg_caller_name g = pg_caller_name h \<or> pg_policy_path g = pg_policy_path h \<longrightarrow> pg_role g = pg_role h"
    unfolding provisioning_plan_def set_map
  proof (intro ballI impI)
    fix g h
    assume "g \<in> planned (cs_network s) ` set (cs_capabilities s)" "h \<in> planned (cs_network s) ` set (cs_capabilities s)"
    then obtain c e where gh: "g = planned (cs_network s) c" "h = planned (cs_network s) e" by (elim imageE)
    assume a: "pg_caller_name g \<noteq> None" "pg_caller_name g = pg_caller_name h \<or> pg_policy_path g = pg_policy_path h"
    show "pg_role g = pg_role h"
      unfolding gh role by (rule same [OF a [unfolded gh]])
  qed
  moreover have "provisioning_plan s \<noteq> []" using ok by (simp add: provisioning_plan_def)
  ultimately show ?thesis using roles each by blast
qed

lemma plan_sound_witness:
  "map pg_caller_name (provisioning_plan claim_spec) = [Some ''claim-flare''] \<and> provisioning_plan claim_spec \<noteq> []"
  using plan_sound [OF claim_spec_parsed]
  by (simp add: provisioning_plan_def planned_def claim_spec_def claim_capability_def role_convention_def starts_with_def)

text \<open>The custody diff never shows the pinned recipient of a role of the convention: whatever recipients a
  request asks for, the operator is shown the same diff.\<close>

theorem diff_hides_recipient:
  assumes "\<forall>c \<in> set (cs_capabilities s). sc_role c \<in> fst ` set role_convention"
  shows "render_custody_diff (s\<lparr>cs_capabilities := map (\<lambda>c. c\<lparr>sc_recipient_pinned := recipient c\<rparr>) (cs_capabilities s)\<rparr>) =
    render_custody_diff s"
proof -
  have "''claim'' \<notin> fst ` set role_convention" by (simp add: role_convention_def)
  then have "capability_lines (c\<lparr>sc_recipient_pinned := recipient c\<rparr>) = capability_lines c"
    if "c \<in> set (cs_capabilities s)" for c
  proof -
    have "sc_role c \<noteq> ''claim''" using bspec [OF assms that] \<open>''claim'' \<notin> _\<close> by metis
    then show ?thesis by (simp add: capability_lines_def cong: option.case_cong)
  qed
  then have "concat (map capability_lines
      (cs_capabilities (s\<lparr>cs_capabilities := map (\<lambda>c. c\<lparr>sc_recipient_pinned := recipient c\<rparr>) (cs_capabilities s)\<rparr>))) =
      concat (map capability_lines (cs_capabilities s))" by (simp add: comp_def cong: map_cong)
  then show ?thesis unfolding render_custody_diff_def by simp
qed

lemma diff_hides_recipient_witness:
  "render_custody_diff (claim_spec\<lparr>cs_capabilities := [claim_capability\<lparr>sc_recipient_pinned := Some ''0xEE''\<rparr>]\<rparr>) =
   render_custody_diff claim_spec"
  using diff_hides_recipient [of claim_spec "\<lambda>c. Some ''0xEE''"]
  by (simp add: claim_spec_def claim_capability_def role_convention_def)

text \<open>What a bundle must not contain.\<close>

definition token_clean :: "bundle_capability \<Rightarrow> bool" where
  "token_clean c \<longleftrightarrow> \<not> names_private_key (bc_caller_token_env c) \<and> \<not> names_private_key (bc_caller_token c) \<and>
     bc_caller_token c \<noteq> [] \<and> py_strip (bc_caller_token c) = bc_caller_token c \<and>
     (\<forall>x \<in> set (bc_caller_token c). \<not> control_char x)"

definition config_clean :: "(string \<times> string) list \<Rightarrow> bool" where
  "config_clean kv \<longleftrightarrow> (\<forall>(k, v) \<in> set kv. \<not> names_private_key k \<and> \<not> names_private_key v \<and>
     py_strip v = v \<and> (\<forall>x \<in> set v. \<not> control_char x))"

lemma reject_capabilities_None: "reject_capabilities cs = None \<longleftrightarrow> (\<forall>c \<in> set cs. token_clean c)"
  by (induction cs) (auto simp: reject_if_private_key_def reject_if_unclean_token_def token_clean_def Let_def list_ex_iff
      split: option.splits if_splits)

lemma reject_unsafe_config_None: "reject_unsafe_config kv = None \<longleftrightarrow> config_clean kv"
  by (induction kv rule: reject_unsafe_config.induct) (auto simp: config_clean_def list_ex_iff)

text \<open>A bundle is composed exactly when there is a capability, the lifetime is positive, no environment name,
  token or configuration entry mentions a private key, and every token and configuration value is clean; it then
  holds the configuration, the capabilities with their tokens and nothing else.\<close>

theorem bundle_exact:
  "(case compose_bundle consumer network ttl caps config now of
      Inl e \<Rightarrow> caps = [] \<or> ttl \<le> 0 \<or> \<not> (\<forall>c \<in> set caps. token_clean c) \<or>
        \<not> config_clean (case config of None \<Rightarrow> [] | Some kv \<Rightarrow> kv)
    | Inr bundle \<Rightarrow> caps \<noteq> [] \<and> 0 < ttl \<and> (\<forall>c \<in> set caps. token_clean c) \<and>
        config_clean (case config of None \<Rightarrow> [] | Some kv \<Rightarrow> kv) \<and>
        bundle = [(''version'', JInt 2), (''consumer'', JStr consumer), (''network'', JStr network),
          (''issued_at'', JStr (isoformat now)), (''expires_at'', JStr (isoformat (now + ttl * 1000000))),
          (''config'', JObj (map (\<lambda>(k, v). (k, JStr v)) (case config of None \<Rightarrow> [] | Some kv \<Rightarrow> kv))),
          (''capabilities'', JList (map bundle_entry caps))])"
  by (auto simp: compose_bundle_def Let_def reject_unsafe_config_None [symmetric] reject_capabilities_None [symmetric]
      split: option.split)

end
