(* ===== verification/Policy_Init_Correct.thy ===== *)
theory Policy_Init_Correct
  imports Policy_Init Policy_Clean Capability_Grant "HOL-Library.Sublist"
begin

section \<open>What the generator promises\<close>

text \<open>
  A generated policy passes the schema and the consistency check against whatever wallets are live, its callers
  are the ones the capability grants plan, and merging it into an existing policy only adds.
\<close>

subsection \<open>Rows added to a table\<close>

definition updates :: "('k \<times> 'v) list \<Rightarrow> ('k, 'v) table \<Rightarrow> ('k, 'v) table" where
  "updates rows t = foldl (\<lambda>t (k, v). AList.update k v t) t rows"

lemma updates_simps [simp]:
  "updates [] t = t" "updates ((k, v) # rows) t = updates rows (AList.update k v t)"
  by (simp_all add: updates_def)

lemma updates_append: "updates (xs @ ys) t = updates ys (updates xs t)"
  by (simp add: updates_def)

lemma set_updates: "set (updates rows t) \<subseteq> set rows \<union> set t"
proof (induction rows arbitrary: t)
  case (Cons x rows)
  obtain k v where x: "x = (k, v)" by (cases x)
  have "set (AList.update k v t) \<subseteq> insert (k, v) (set t)"
    by (induction t) auto
  with Cons [of "AList.update k v t"] x show ?case by auto
qed simp

lemma keys_updates: "fst ` set (updates rows t) = fst ` set rows \<union> fst ` set t"
proof (induction rows arbitrary: t)
  case (Cons x rows)
  obtain k v where x: "x = (k, v)" by (cases x)
  have "fst ` set (AList.update k v t) = insert k (fst ` set t)"
    by (metis dom_map_of_conv_image_fst dom_update update_conv' fun_upd_def domI domIff option.distinct(1) dom_fun_upd)
  with Cons [of "AList.update k v t"] x show ?case by simp
qed simp

lemma distinct_updates: "distinct (map fst t) \<Longrightarrow> distinct (map fst (updates rows t))"
  by (induction rows arbitrary: t) (auto simp: distinct_update)

lemma map_of_updates: "map_of (updates rows t) k = (case map_of (rev rows) k of None \<Rightarrow> map_of t k | Some v \<Rightarrow> Some v)"
  by (induction rows arbitrary: t) (auto simp: update_conv' map_add_def split: option.splits)

text \<open>Names built from a fixed set of prefixes.\<close>

definition prefix_free :: "string list \<Rightarrow> bool" where
  "prefix_free ps \<longleftrightarrow> (\<forall>p \<in> set ps. \<forall>q \<in> set ps. prefix p q \<longrightarrow> p = q)"

lemma prefix_freeD:
  assumes "prefix_free ps" "p \<in> set ps" "q \<in> set ps" "p @ a = q @ b"
  shows "p = q \<and> a = b"
proof -
  from assms(4) have "prefix p q \<or> prefix q p" by (metis prefix_same_cases prefixI)
  with assms(1-3) have "p = q" unfolding prefix_free_def by blast
  with assms(4) show ?thesis by simp
qed

subsection \<open>What a network adds\<close>

lemmas section_defs = add_caller_def add_wallet_def add_constraint_def add_permission_def add_fsp_def
  add_self_submit_def hot_wallet_def sign_role_def submit_role_def

lemmas rule_defs = claim_rules_def fsp_rules_def fastupdate_seat_def voter_sign_roles_def voter_rules_def
  confirm_role_def register_rules_def Let_def

lemma default_wallet_sections [simp]:
  "p_callers (default_wallet w path p) = p_callers p" "p_permissions (default_wallet w path p) = p_permissions p"
  "p_wallet_constraints (default_wallet w path p) = p_wallet_constraints p"
  "p_fsp_permissions (default_wallet w path p) = p_fsp_permissions p"
  "p_native_transfers (default_wallet w path p) = p_native_transfers p"
  "p_fsp_self_submit (default_wallet w path p) = p_fsp_self_submit p" "p_version (default_wallet w path p) = p_version p"
  by (simp_all add: default_wallet_def add_wallet_def)

text \<open>The rows of callers, by capability: name and path, up to the network.\<close>

definition caller_rows :: "string \<Rightarrow> (string \<times> string) list" where
  "caller_rows cap =
     (if cap = ''claim'' then [(''claim-'', ''perm/claim-'')]
      else if cap = ''fsp'' then
        [(''uptime-vote-sign-'', ''fsp/uptime-''), (''reward-distribution-sign-'', ''fsp/reward-''),
         (''uptime-vote-submit-'', ''perm/uptime-submit-''), (''reward-distribution-submit-'', ''perm/reward-submit-'')]
      else if cap = ''fsp-voter'' then
        [(''signing-policy-sign-'', ''fsp/signing-policy-''), (''voter-registration-sign-'', ''fsp/voter-registration-''),
         (''protocol-message-sign-'', ''fsp/protocol-message-''), (''fastupdate-sign-'', ''fsp/fastupdate-sign-''),
         (''fastupdate-submit-1-'', ''perm/fastupdate-submit-1-''), (''fastupdate-submit-2-'', ''perm/fastupdate-submit-2-''),
         (''fastupdate-submit-3-'', ''perm/fastupdate-submit-3-''), (''ftso-price-submit-'', ''perm/ftso-price-submit-''),
         (''ftso-signature-submit-'', ''perm/ftso-signature-submit-''), (''relay-submit-'', ''perm/relay-submit-''),
         (''signing-policy-submit-'', ''perm/signing-policy-submit-''),
         (''voter-registration-submit-'', ''perm/voter-registration-submit-'')]
      else if cap = ''fsp-register'' then
        [(''entity-confirm-submit-'', ''perm/entity-confirm-submit-''),
         (''entity-confirm-sig-submit-'', ''perm/entity-confirm-sig-submit-''),
         (''entity-confirm-signing-'', ''perm/entity-confirm-signing-'')]
      else [])"

definition net_callers :: "string \<Rightarrow> string \<Rightarrow> (string \<times> caller_binding) list" where
  "net_callers net cap = map (\<lambda>(n, path). (n @ net, \<lparr>cb_policy_path = path @ net, cb_capability_id = None\<rparr>)) (caller_rows cap)"

lemma rules_callers:
  "p_callers (claim_rules sg rc rate net chain a p) = updates (net_callers net ''claim'') (p_callers p)"
  "p_callers (fsp_rules sg shared rate net chain a p) = updates (net_callers net ''fsp'') (p_callers p)"
  "p_callers (voter_rules sg rate net chain a b c d e p) = updates (net_callers net ''fsp-voter'') (p_callers p)"
  "p_callers (register_rules sg rc rate net chain a p) = updates (net_callers net ''fsp-register'') (p_callers p)"
  by (simp_all add: net_callers_def caller_rows_def rule_defs section_defs)

text \<open>What the rules of a capability do to a policy, whatever the addresses.\<close>

definition cap_rules :: "init_args \<Rightarrow> sigs \<Rightarrow> string \<Rightarrow> int \<Rightarrow> string list \<Rightarrow> string \<Rightarrow> policy \<Rightarrow> policy" where
  "cap_rules args sg net chain as cap p =
     (if cap = ''claim'' then claim_rules sg (the (ia_recipient args)) (ia_claim_rate args) net chain (as ! 0) p
      else if cap = ''fsp'' then fsp_rules sg (ia_sender_mode args \<noteq> ''per-network'') (ia_fsp_rate args) net chain (as ! 1) p
      else if cap = ''fsp-voter''
      then voter_rules sg (ia_fsp_rate args) net chain (as ! 2) (as ! 3) (as ! 4) (as ! 5) (as ! 6) p
      else register_rules sg (the (ia_identity args)) (ia_fsp_rate args) net chain (as ! 7) p)"

lemma network_rules_Inr:
  assumes "network_rules args caps sg net spec p = Inr p'"
  obtains chain as where "ns_chain_id spec = Some chain"
    "p' = fold (\<lambda>cap p. if cap \<in> set caps then cap_rules args sg net chain as cap p else p) valid_caps p"
proof -
  have bind: "bind_sum m f = Inr y \<longleftrightarrow> (\<exists>x. m = Inr x \<and> f x = Inr y)" for m :: "init_error + 'x" and f and y :: "'y"
    by (cases m) auto
  from assms obtain chain where chain: "ns_chain_id spec = Some chain"
    by (auto simp: network_rules_def split: option.splits)
  with assms obtain p1 p2 p3 a b c d e f g h
    where "p1 = (if ''claim'' \<in> set caps
        then claim_rules sg (the (ia_recipient args)) (ia_claim_rate args) net chain a p else p)"
      "p2 = (if ''fsp'' \<in> set caps
        then fsp_rules sg (ia_sender_mode args \<noteq> ''per-network'') (ia_fsp_rate args) net chain b p1 else p1)"
      "p3 = (if ''fsp-voter'' \<in> set caps then voter_rules sg (ia_fsp_rate args) net chain c d e f g p2 else p2)"
      "p' = (if ''fsp-register'' \<in> set caps
        then register_rules sg (the (ia_identity args)) (ia_fsp_rate args) net chain h p3 else p3)"
    unfolding network_rules_def by (fastforce simp: bind split: if_splits)
  then have "p' = fold (\<lambda>cap p. if cap \<in> set caps then cap_rules args sg net chain [a, b, c, d, e, f, g, h] cap p else p)
      valid_caps p"
    by (simp add: valid_caps_def cap_rules_def)
  with chain show thesis by (rule that)
qed

text \<open>The blocks, wallets and messages of a capability.\<close>

definition blk :: "string \<Rightarrow> string \<Rightarrow> int \<Rightarrow> (string \<times> method_rule) list \<Rightarrow> string list \<Rightarrow> int \<times> int \<Rightarrow> permission_block" where
  "blk addr abi chain methods allowlist rate =
     \<lparr>pb_contracts = [(addr, \<lparr>cr_abi = abi, cr_chains = [chain], cr_methods = methods\<rparr>)],
      pb_wallet_allowlist = allowlist, pb_rate = rate_of rate\<rparr>"

definition sender_wallet :: "init_args \<Rightarrow> string \<Rightarrow> string" where
  "sender_wallet args net = (if ia_sender_mode args \<noteq> ''per-network'' then ''fsp-sender'' else ''fsp-sender-'' @ net)"

definition perm_rows :: "init_args \<Rightarrow> sigs \<Rightarrow> string \<Rightarrow> int \<Rightarrow> string list \<Rightarrow> string \<Rightarrow> (string \<times> permission_block) list" where
  "perm_rows args sg net chain as cap =
     (let signing = ''fsp-signing-'' @ net; rate = ia_fsp_rate args; rule = zero_rule True [];
          fsm = (\<lambda>m. [(sg ''flare_systems_manager'' m, zero_rule True [(''_rewardEpochId'', PStr ''any'')])]);
          seat = (\<lambda>i. (''perm/fastupdate-submit-'' @ i @ ''-'' @ net, blk (as ! 3) ''fast_updater'' chain
            [(sg ''fast_updater'' ''submitUpdates'', rule)] [''fastupdate-'' @ i @ ''-'' @ net] rate));
          confirm = (\<lambda>path wallet m. (path @ net, blk (as ! 7) ''entity_manager'' chain
            [(sg ''entity_manager'' m, zero_rule False [(''_voter'', PStr (the (ia_identity args)))])] [wallet @ net] rate))
      in if cap = ''claim'' then
           [(''perm/claim-'' @ net, blk (as ! 0) ''reward_manager'' chain
              [(sg ''reward_manager'' ''claim'', zero_rule True [(''_recipient'', PStr (the (ia_recipient args)))])]
              [''claimer-'' @ net] (ia_claim_rate args))]
         else if cap = ''fsp'' then
           [(''perm/uptime-submit-'' @ net, blk (as ! 1) ''flare_systems_manager'' chain (fsm ''signUptimeVote'')
              [signing, sender_wallet args net] rate),
            (''perm/reward-submit-'' @ net, blk (as ! 1) ''flare_systems_manager'' chain (fsm ''signRewards'')
              [signing, sender_wallet args net] rate)]
         else if cap = ''fsp-voter'' then
           [seat ''1'', seat ''2'', seat ''3'',
            (''perm/ftso-price-submit-'' @ net, blk (as ! 2) ''submission'' chain
              (AList.update (sg ''submission'' ''submit3'') rule (AList.update (sg ''submission'' ''submit2'') rule
                [(sg ''submission'' ''submit1'', rule)])) [''fsp-submit-'' @ net] rate),
            (''perm/ftso-signature-submit-'' @ net, blk (as ! 2) ''submission'' chain
              [(sg ''submission'' ''submitSignatures'', rule)] [''fsp-sig-submit-'' @ net] rate),
            (''perm/relay-submit-'' @ net, blk (as ! 4) ''relay'' chain [(sg ''relay'' ''relay'', rule)] [signing] rate),
            (''perm/signing-policy-submit-'' @ net, blk (as ! 6) ''flare_systems_manager'' chain
              [(sg ''flare_systems_manager'' ''signNewSigningPolicy'', rule)] [signing] rate),
            (''perm/voter-registration-submit-'' @ net, blk (as ! 5) ''voter_registry'' chain
              [(sg ''voter_registry'' ''registerVoter'', rule)] [signing] rate)]
         else
           [confirm ''perm/entity-confirm-submit-'' ''fsp-submit-'' ''confirmSubmitAddressRegistration'',
            confirm ''perm/entity-confirm-sig-submit-'' ''fsp-sig-submit-'' ''confirmSubmitSignaturesAddressRegistration'',
            confirm ''perm/entity-confirm-signing-'' ''fsp-signing-'' ''confirmSigningPolicyAddressRegistration''])"

definition wallet_rows :: "init_args \<Rightarrow> string \<Rightarrow> string \<Rightarrow> (string \<times> string) list" where
  "wallet_rows args net cap =
     (if cap = ''claim'' then [(''claimer-'' @ net, ''wc/claimer-'' @ net)]
      else if cap = ''fsp'' then
        [(''fsp-signing-'' @ net, ''wc/fsp-'' @ net),
         (sender_wallet args net, if ia_sender_mode args \<noteq> ''per-network'' then ''wc/fsp-sender'' else ''wc/fsp-sender-'' @ net)]
      else if cap = ''fsp-voter'' then
        [(''fsp-signing-'' @ net, ''wc/fsp-'' @ net), (''fastupdate-1-'' @ net, ''wc/fastupdate-1-'' @ net),
         (''fastupdate-2-'' @ net, ''wc/fastupdate-2-'' @ net), (''fastupdate-3-'' @ net, ''wc/fastupdate-3-'' @ net),
         (''fsp-submit-'' @ net, ''wc/fsp-submit-'' @ net), (''fsp-sig-submit-'' @ net, ''wc/fsp-sig-submit-'' @ net)]
      else [])"

definition fsp_rows :: "init_args \<Rightarrow> string \<Rightarrow> int \<Rightarrow> string \<Rightarrow> (string \<times> fsp_permission_block) list" where
  "fsp_rows args net chain cap =
     map (\<lambda>(path, mt). (path @ net, \<lparr>fb_message_types = [mt], fb_wallet_allowlist = [''fsp-signing-'' @ net],
         fb_chain_ids = [chain], fb_rate = rate_of (ia_fsp_rate args)\<rparr>))
       (if cap = ''fsp'' then [(''fsp/uptime-'', ''UPTIME''), (''fsp/reward-'', ''REWARD_DISTRIBUTION'')]
        else if cap = ''fsp-voter'' then
          [(''fsp/signing-policy-'', ''SIGNING_POLICY''), (''fsp/voter-registration-'', ''VOTER_REGISTRATION''),
           (''fsp/protocol-message-'', ''PROTOCOL_PAYLOAD''), (''fsp/fastupdate-sign-'', ''FAST_UPDATE'')]
        else [])"

definition cap_rate :: "init_args \<Rightarrow> string \<Rightarrow> int \<times> int" where
  "cap_rate args cap = (if cap = ''claim'' then ia_claim_rate args else ia_fsp_rate args)"

definition register_wallets :: "string \<Rightarrow> string list" where
  "register_wallets net = [''fsp-submit-'' @ net, ''fsp-sig-submit-'' @ net, ''fsp-signing-'' @ net]"

lemma default_wallet_id: "w \<in> fst ` set (p_wallets p) \<Longrightarrow> default_wallet w path p = p"
  by (simp add: default_wallet_def map_of_eq_None_iff)

definition constraint_rows :: "init_args \<Rightarrow> string \<Rightarrow> string \<Rightarrow> (string \<times> wallet_constraint) list" where
  "constraint_rows args net cap = map (\<lambda>(w, path). (path, \<lparr>wc_max_aggregate_value_wei_per_day = Some ''0'',
     wc_rate = rate_of (cap_rate args cap)\<rparr>)) (wallet_rows args net cap)"

definition self_submit_rows :: "string \<Rightarrow> string \<Rightarrow> string list" where
  "self_submit_rows net cap = (if cap = ''fsp'' \<or> cap = ''fsp-voter'' then [''fsp-signing-'' @ net] else [])"

lemmas cap_row_defs = perm_rows_def wallet_rows_def fsp_rows_def constraint_rows_def self_submit_rows_def blk_def
  sender_wallet_def cap_rate_def cap_rules_def

lemma claim_sections:
  "p_permissions (cap_rules args sg net chain as ''claim'' p) = updates (perm_rows args sg net chain as ''claim'') (p_permissions p)"
  "p_fsp_permissions (cap_rules args sg net chain as ''claim'' p) = updates (fsp_rows args net chain ''claim'') (p_fsp_permissions p)"
  "p_wallet_constraints (cap_rules args sg net chain as ''claim'' p) = updates (constraint_rows args net ''claim'') (p_wallet_constraints p)"
  "p_version (cap_rules args sg net chain as ''claim'' p) = p_version p"
  "p_native_transfers (cap_rules args sg net chain as ''claim'' p) = p_native_transfers p"
  "p_fsp_self_submit (cap_rules args sg net chain as ''claim'' p) = p_fsp_self_submit p @ self_submit_rows net ''claim''"
  by (simp_all add: cap_row_defs rule_defs section_defs)

lemma fsp_sections:
  "p_permissions (cap_rules args sg net chain as ''fsp'' p) = updates (perm_rows args sg net chain as ''fsp'') (p_permissions p)"
  "p_fsp_permissions (cap_rules args sg net chain as ''fsp'' p) = updates (fsp_rows args net chain ''fsp'') (p_fsp_permissions p)"
  "p_wallet_constraints (cap_rules args sg net chain as ''fsp'' p) = updates (constraint_rows args net ''fsp'') (p_wallet_constraints p)"
  "p_version (cap_rules args sg net chain as ''fsp'' p) = p_version p"
  "p_native_transfers (cap_rules args sg net chain as ''fsp'' p) = p_native_transfers p"
  "p_fsp_self_submit (cap_rules args sg net chain as ''fsp'' p) = p_fsp_self_submit p @ self_submit_rows net ''fsp''"
  by (simp_all add: cap_row_defs rule_defs section_defs)

lemma voter_sections:
  "p_permissions (cap_rules args sg net chain as ''fsp-voter'' p) = updates (perm_rows args sg net chain as ''fsp-voter'') (p_permissions p)"
  "p_fsp_permissions (cap_rules args sg net chain as ''fsp-voter'' p) = updates (fsp_rows args net chain ''fsp-voter'') (p_fsp_permissions p)"
  "p_wallet_constraints (cap_rules args sg net chain as ''fsp-voter'' p) = updates (constraint_rows args net ''fsp-voter'') (p_wallet_constraints p)"
  "p_version (cap_rules args sg net chain as ''fsp-voter'' p) = p_version p"
  "p_native_transfers (cap_rules args sg net chain as ''fsp-voter'' p) = p_native_transfers p"
  "p_fsp_self_submit (cap_rules args sg net chain as ''fsp-voter'' p) = p_fsp_self_submit p @ self_submit_rows net ''fsp-voter''"
  by (simp_all add: cap_row_defs rule_defs section_defs)

lemma register_sections:
  "p_permissions (cap_rules args sg net chain as ''fsp-register'' p) = updates (perm_rows args sg net chain as ''fsp-register'') (p_permissions p)"
  "p_fsp_permissions (cap_rules args sg net chain as ''fsp-register'' p) = updates (fsp_rows args net chain ''fsp-register'') (p_fsp_permissions p)"
  "p_wallet_constraints (cap_rules args sg net chain as ''fsp-register'' p) = updates (constraint_rows args net ''fsp-register'') (p_wallet_constraints p)"
  "p_version (cap_rules args sg net chain as ''fsp-register'' p) = p_version p"
  "p_native_transfers (cap_rules args sg net chain as ''fsp-register'' p) = p_native_transfers p"
  "p_fsp_self_submit (cap_rules args sg net chain as ''fsp-register'' p) = p_fsp_self_submit p @ self_submit_rows net ''fsp-register''"
  by (simp_all add: cap_row_defs rule_defs section_defs)

lemma cap_wallets:
  "p_wallets (cap_rules args sg net chain as ''claim'' p) = updates (map (\<lambda>(w, c). (w, \<lparr>wbd_policy_path = c\<rparr>)) (wallet_rows args net ''claim'')) (p_wallets p)"
  "p_wallets (cap_rules args sg net chain as ''fsp'' p) = updates (map (\<lambda>(w, c). (w, \<lparr>wbd_policy_path = c\<rparr>)) (wallet_rows args net ''fsp'')) (p_wallets p)"
  "p_wallets (cap_rules args sg net chain as ''fsp-voter'' p) = updates (map (\<lambda>(w, c). (w, \<lparr>wbd_policy_path = c\<rparr>)) (wallet_rows args net ''fsp-voter'')) (p_wallets p)"
  by (simp_all add: cap_row_defs rule_defs section_defs)

lemma register_keeps_wallets:
  assumes "set (register_wallets net) \<subseteq> fst ` set (p_wallets p)"
  shows "p_wallets (cap_rules args sg net chain as ''fsp-register'' p) = p_wallets p"
proof -
  have same: "p_wallets (default_wallet w c q) = p_wallets q" if "w \<in> fst ` set (p_wallets q)" for w c q
    using default_wallet_id [OF that] by simp
  show ?thesis
    using assms by (simp add: cap_rules_def rule_defs section_defs register_wallets_def same)
qed

lemma cap_sections:
  assumes "cap \<in> set valid_caps"
  shows "p_callers (cap_rules args sg net chain as cap p) = updates (net_callers net cap) (p_callers p)"
    "p_permissions (cap_rules args sg net chain as cap p) = updates (perm_rows args sg net chain as cap) (p_permissions p)"
    "p_fsp_permissions (cap_rules args sg net chain as cap p) = updates (fsp_rows args net chain cap) (p_fsp_permissions p)"
    "p_wallet_constraints (cap_rules args sg net chain as cap p) = updates (constraint_rows args net cap) (p_wallet_constraints p)"
    "p_version (cap_rules args sg net chain as cap p) = p_version p"
    "p_native_transfers (cap_rules args sg net chain as cap p) = p_native_transfers p"
    "p_fsp_self_submit (cap_rules args sg net chain as cap p) = p_fsp_self_submit p @ self_submit_rows net cap"
    "cap = ''fsp-register'' \<longrightarrow> set (register_wallets net) \<subseteq> fst ` set (p_wallets p) \<Longrightarrow>
      p_wallets (cap_rules args sg net chain as cap p) =
        updates (map (\<lambda>(w, c). (w, \<lparr>wbd_policy_path = c\<rparr>)) (wallet_rows args net cap)) (p_wallets p)"
proof -
  have "cap = ''claim'' \<or> cap = ''fsp'' \<or> cap = ''fsp-voter'' \<or> cap = ''fsp-register''"
    using assms by (simp add: valid_caps_def)
  note caps = this claim_sections [of args sg net chain as p] fsp_sections [of args sg net chain as p]
    voter_sections [of args sg net chain as p] register_sections [of args sg net chain as p]
    cap_wallets [of args sg net chain as p] register_keeps_wallets [of net p args sg chain as]
  show "p_callers (cap_rules args sg net chain as cap p) = updates (net_callers net cap) (p_callers p)"
    using caps(1) by (elim disjE) (simp_all add: cap_rules_def rules_callers)
  show "p_permissions (cap_rules args sg net chain as cap p) = updates (perm_rows args sg net chain as cap) (p_permissions p)"
    using caps by metis
  show "p_fsp_permissions (cap_rules args sg net chain as cap p) = updates (fsp_rows args net chain cap) (p_fsp_permissions p)"
    using caps by metis
  show "p_wallet_constraints (cap_rules args sg net chain as cap p) = updates (constraint_rows args net cap) (p_wallet_constraints p)"
    using caps by metis
  show "p_version (cap_rules args sg net chain as cap p) = p_version p"
    "p_native_transfers (cap_rules args sg net chain as cap p) = p_native_transfers p"
    "p_fsp_self_submit (cap_rules args sg net chain as cap p) = p_fsp_self_submit p @ self_submit_rows net cap"
    using caps by metis+
  show "cap = ''fsp-register'' \<longrightarrow> set (register_wallets net) \<subseteq> fst ` set (p_wallets p) \<Longrightarrow>
      p_wallets (cap_rules args sg net chain as cap p) =
        updates (map (\<lambda>(w, c). (w, \<lparr>wbd_policy_path = c\<rparr>)) (wallet_rows args net cap)) (p_wallets p)"
    using caps(1) caps by (auto simp: wallet_rows_def [where cap = "''fsp-register''"])
qed

subsection \<open>Signatures\<close>

definition sigs_ok :: "abi_registry \<Rightarrow> string list \<Rightarrow> sigs \<Rightarrow> bool" where
  "sigs_ok reg caps sg \<longleftrightarrow> (\<forall>(cap, abi, name) \<in> set required_sigs. cap \<in> set caps \<longrightarrow>
     sg abi name \<in> set (signatures_for reg abi) \<and> method_name (sg abi name) = name)"

lemma sig_for_Inr: "sig_for registry abi name = Inr s \<Longrightarrow> s \<in> set (signatures_for registry abi) \<and> method_name s = name"
proof -
  assume "sig_for registry abi name = Inr s"
  then have "remdups (filter (\<lambda>s. method_name s = name) (signatures_for registry abi)) = [s]"
    by (auto simp: sig_for_def split: list.splits)
  then have "set (remdups (filter (\<lambda>s. method_name s = name) (signatures_for registry abi))) = {s}" by simp
  then show ?thesis by auto
qed

lemma resolve_sigs_other:
  "resolve_sigs registry caps rows sg = Inr sg' \<Longrightarrow> (abi, name) \<notin> snd ` set rows \<Longrightarrow> sg' abi name = sg abi name"
  by (induction registry caps rows sg rule: resolve_sigs.induct) (auto split: if_splits sum.splits)

lemma resolve_sigs_sound:
  assumes "resolve_sigs registry caps rows sg = Inr sg'" "distinct (map snd rows)"
    "(cap, abi, name) \<in> set rows" "cap \<in> set caps"
  shows "sg' abi name \<in> set (signatures_for registry abi) \<and> method_name (sg' abi name) = name"
  using assms
proof (induction registry caps rows sg rule: resolve_sigs.induct)
  case (2 registry caps c a n r sg)
  show ?case
  proof (cases "(cap, abi, name) = (c, a, n)")
    case True
    with 2(3,6) obtain s where s: "sig_for registry a n = Inr s"
      "resolve_sigs registry caps r (sg(a := (sg a)(n := s))) = Inr sg'"
      by (auto split: sum.splits)
    from 2(4) True have "(a, n) \<notin> snd ` set r" by auto
    from resolve_sigs_other [OF s(2) this] sig_for_Inr [OF s(1)] True show ?thesis by simp
  next
    case False
    then have mem: "(cap, abi, name) \<in> set r" and dist: "distinct (map snd r)" using 2(4,5) by auto
    show ?thesis
    proof (cases "c \<in> set caps")
      case True
      with 2(3) obtain s where s: "sig_for registry a n = Inr s"
        "resolve_sigs registry caps r (sg(a := (sg a)(n := s))) = Inr sg'"
        by (auto split: sum.splits)
      show ?thesis by (rule 2(2) [OF _ s dist mem 2(6)]) (simp add: True)
    next
      case False
      with 2(3) have "resolve_sigs registry caps r sg = Inr sg'" by simp
      from 2(1) [OF False this dist mem 2(6)] show ?thesis .
    qed
  qed
qed simp

lemma resolved_sigs_ok:
  assumes "resolve_sigs reg caps required_sigs sg0 = Inr sg"
  shows "sigs_ok reg caps sg"
proof -
  have "distinct (map snd required_sigs)" by (simp add: required_sigs_def)
  with resolve_sigs_sound [OF assms] show ?thesis unfolding sigs_ok_def by blast
qed

text \<open>The registry has the self-submit methods in the shapes the loader exempts.\<close>

definition registry_has_shapes :: "abi_registry \<Rightarrow> bool" where
  "registry_has_shapes reg \<longleftrightarrow> (\<forall>(abi, allowed) \<in> set fsp_self_submit_shapes. \<forall>s \<in> set (signatures_for reg abi).
     method_name s \<in> method_name ` set allowed \<longrightarrow> s \<in> set allowed)"

lemma shape_sigs:
  assumes "registry_has_shapes reg" "sigs_ok reg caps sg"
  shows "''fsp'' \<in> set caps \<Longrightarrow> sg ''flare_systems_manager'' ''signUptimeVote'' \<in> set fsp_self_submit_methods"
    "''fsp'' \<in> set caps \<Longrightarrow> sg ''flare_systems_manager'' ''signRewards'' \<in> set fsp_self_submit_methods"
    "''fsp-voter'' \<in> set caps \<Longrightarrow> sg ''flare_systems_manager'' ''signNewSigningPolicy'' \<in> set fsp_self_submit_methods"
    "''fsp-voter'' \<in> set caps \<Longrightarrow> sg ''relay'' ''relay'' = ''relay()''"
    "''fsp-voter'' \<in> set caps \<Longrightarrow> sg ''voter_registry'' ''registerVoter'' = ''registerVoter(address,(uint8,bytes32,bytes32))''"
    "''fsp-register'' \<in> set caps \<Longrightarrow> sg ''entity_manager'' ''confirmSigningPolicyAddressRegistration'' =
       ''confirmSigningPolicyAddressRegistration(address)''"
proof -
  have in_shape: "sg abi name \<in> set allowed"
    if "(abi, allowed) \<in> set fsp_self_submit_shapes" "(cap, abi, name) \<in> set required_sigs" "cap \<in> set caps"
      "name \<in> method_name ` set allowed" for abi allowed cap name
    using assms that unfolding registry_has_shapes_def sigs_ok_def by fastforce
  note at = in_shape [unfolded fsp_self_submit_shapes_def required_sigs_def]
  show "''fsp'' \<in> set caps \<Longrightarrow> sg ''flare_systems_manager'' ''signUptimeVote'' \<in> set fsp_self_submit_methods"
    "''fsp'' \<in> set caps \<Longrightarrow> sg ''flare_systems_manager'' ''signRewards'' \<in> set fsp_self_submit_methods"
    "''fsp-voter'' \<in> set caps \<Longrightarrow> sg ''flare_systems_manager'' ''signNewSigningPolicy'' \<in> set fsp_self_submit_methods"
    by (rule at [of "''flare_systems_manager''" fsp_self_submit_methods "''fsp''"]
        at [of "''flare_systems_manager''" fsp_self_submit_methods "''fsp-voter''"];
        simp add: fsp_self_submit_methods_def method_name_def)+
  show "''fsp-voter'' \<in> set caps \<Longrightarrow> sg ''relay'' ''relay'' = ''relay()''"
    using at [of "''relay''" "[''relay()'']" "''fsp-voter''" "''relay''"] by (simp add: method_name_def)
  show "''fsp-voter'' \<in> set caps \<Longrightarrow> sg ''voter_registry'' ''registerVoter'' = ''registerVoter(address,(uint8,bytes32,bytes32))''"
    using at [of "''voter_registry''" "[''registerVoter(address,(uint8,bytes32,bytes32))'']" "''fsp-voter''" "''registerVoter''"]
    by (simp add: method_name_def)
  show "''fsp-register'' \<in> set caps \<Longrightarrow> sg ''entity_manager'' ''confirmSigningPolicyAddressRegistration'' =
       ''confirmSigningPolicyAddressRegistration(address)''"
    using at [of "''entity_manager''" "[''confirmSigningPolicyAddressRegistration(address)'']" "''fsp-register''"
        "''confirmSigningPolicyAddressRegistration''"] by (simp add: method_name_def)
qed

subsection \<open>An invariant of the generation\<close>

text \<open>A permissions entry, given the names of the bound wallets.\<close>

definition perm_shape :: "init_args \<Rightarrow> abi_registry \<Rightarrow> string set \<Rightarrow> string \<times> permission_block \<Rightarrow> bool" where
  "perm_shape args reg ws = (\<lambda>(path, b). starts_with path ''perm/'' \<and>
     (\<exists>addr abi chain methods. pb_contracts b = [(addr, \<lparr>cr_abi = abi, cr_chains = [chain], cr_methods = methods\<rparr>)] \<and>
        fst ` set methods \<subseteq> set (signatures_for reg abi) \<and> methods \<noteq> [] \<and>
        (\<forall>(s, m) \<in> set methods. mr_max_value_wei m = ''0'') \<and>
        ((\<exists>w \<in> set (pb_wallet_allowlist b). starts_with w ''fsp-signing-'') \<longrightarrow>
           (\<exists>allowed. map_of fsp_self_submit_shapes abi = Some allowed \<and> fst ` set methods \<subseteq> set allowed))) \<and>
     set (pb_wallet_allowlist b) \<subseteq> ws \<and>
     (pb_rate b = rate_of (ia_claim_rate args) \<or> pb_rate b = rate_of (ia_fsp_rate args)))"

definition fsp_shape :: "init_args \<Rightarrow> string set \<Rightarrow> string \<times> fsp_permission_block \<Rightarrow> bool" where
  "fsp_shape args ws = (\<lambda>(path, b). starts_with path ''fsp/'' \<and> fb_message_types b \<noteq> [] \<and>
     set (fb_message_types b) \<subseteq> set message_types \<and> set (fb_wallet_allowlist b) \<subseteq> ws \<and>
     fb_rate b = rate_of (ia_fsp_rate args))"

definition draft_ok :: "init_args \<Rightarrow> abi_registry \<Rightarrow> policy \<Rightarrow> bool" where
  "draft_ok args reg p \<longleftrightarrow>
     (\<forall>x \<in> set (p_permissions p). perm_shape args reg (fst ` set (p_wallets p)) x) \<and>
     (\<forall>x \<in> set (p_fsp_permissions p). fsp_shape args (fst ` set (p_wallets p)) x) \<and>
     (\<forall>x \<in> set (p_wallets p). wbd_policy_path (snd x) \<in> fst ` set (p_wallet_constraints p)) \<and>
     (\<forall>x \<in> set (p_wallet_constraints p).
        wc_rate (snd x) = rate_of (ia_claim_rate args) \<or> wc_rate (snd x) = rate_of (ia_fsp_rate args)) \<and>
     (\<forall>x \<in> set (p_callers p). cb_capability_id (snd x) = None \<and>
        cb_policy_path (snd x) \<in> fst ` set (p_permissions p) \<union> fst ` set (p_fsp_permissions p)) \<and>
     p_version p = 1 \<and> p_native_transfers p = []"

lemma perm_shape_mono: "perm_shape args reg ws x \<Longrightarrow> ws \<subseteq> ws' \<Longrightarrow> perm_shape args reg ws' x"
  unfolding perm_shape_def by auto

lemma fsp_shape_mono: "fsp_shape args ws x \<Longrightarrow> ws \<subseteq> ws' \<Longrightarrow> fsp_shape args ws' x"
  unfolding fsp_shape_def by auto

lemma starts_literals [simp]:
  "starts_with (''perm/'' @ s) ''perm/''" "starts_with (''fsp/'' @ s) ''fsp/''" "starts_with (''fsp-signing-'' @ s) ''fsp-signing-''"
  by (simp_all add: starts_with_def)

definition names_of :: "init_args \<Rightarrow> string \<Rightarrow> string \<Rightarrow> string set" where
  "names_of args net cap = (if cap = ''fsp-register'' then set (register_wallets net) else fst ` set (wallet_rows args net cap))"

lemma perm_rows_shape:
  assumes "registry_has_shapes reg" "sigs_ok reg caps sg" "cap \<in> set caps" "cap \<in> set valid_caps"
  shows "\<forall>x \<in> set (perm_rows args sg net chain as cap). perm_shape args reg (names_of args net cap) x"
proof -
  note shapes = shape_sigs [OF assms(1,2)]
  have sig: "sg abi name \<in> set (signatures_for reg abi)" if "(cap, abi, name) \<in> set required_sigs" for abi name
    using assms(2,3) that unfolding sigs_ok_def by fast
  note sigs = sig [unfolded required_sigs_def]
  have map: "map_of fsp_self_submit_shapes ''flare_systems_manager'' = Some fsp_self_submit_methods"
    "map_of fsp_self_submit_shapes ''relay'' = Some [''relay()'']"
    "map_of fsp_self_submit_shapes ''voter_registry'' = Some [''registerVoter(address,(uint8,bytes32,bytes32))'']"
    "map_of fsp_self_submit_shapes ''entity_manager'' = Some [''confirmSigningPolicyAddressRegistration(address)'']"
    by (simp_all add: fsp_self_submit_shapes_def)
  have "cap = ''claim'' \<or> cap = ''fsp'' \<or> cap = ''fsp-voter'' \<or> cap = ''fsp-register''"
    using assms(4) by (simp add: valid_caps_def)
  then show ?thesis
  proof (elim disjE)
    assume cap: "cap = ''claim''"
    from sigs show ?thesis unfolding cap
      by (simp add: perm_rows_def Let_def perm_shape_def blk_def names_of_def wallet_rows_def zero_rule_def starts_with_def)
  next
    assume cap: "cap = ''fsp''"
    from sigs shapes(1,2) assms(3) show ?thesis unfolding cap
      by (simp add: perm_rows_def Let_def perm_shape_def blk_def names_of_def wallet_rows_def zero_rule_def map)
        (simp add: starts_with_def)
  next
    assume cap: "cap = ''fsp-voter''"
    have "sg ''relay'' ''relay'' \<in> set (signatures_for reg ''relay'')"
      "sg ''voter_registry'' ''registerVoter'' \<in> set (signatures_for reg ''voter_registry'')"
      by (rule sig, simp add: required_sigs_def cap)+
    with sigs shapes(3-5) assms(3) show ?thesis unfolding cap
      by (simp add: perm_rows_def Let_def perm_shape_def blk_def names_of_def wallet_rows_def zero_rule_def map)
        (simp add: starts_with_def)
  next
    assume cap: "cap = ''fsp-register''"
    have "sg ''entity_manager'' ''confirmSigningPolicyAddressRegistration'' \<in> set (signatures_for reg ''entity_manager'')"
      by (rule sig) (simp add: required_sigs_def cap)
    with sigs shapes(6) assms(3) show ?thesis unfolding cap
      by (simp add: perm_rows_def Let_def perm_shape_def blk_def names_of_def register_wallets_def zero_rule_def map)
        (simp add: starts_with_def)
  qed
qed

lemma fsp_rows_shape: "\<forall>x \<in> set (fsp_rows args net chain cap). fsp_shape args {''fsp-signing-'' @ net} x"
  by (auto simp: fsp_rows_def fsp_shape_def message_types_def starts_with_def)

lemma fsp_rows_wallet:
  "fsp_rows args net chain cap \<noteq> [] \<Longrightarrow> ''fsp-signing-'' @ net \<in> fst ` set (wallet_rows args net cap)"
proof -
  assume "fsp_rows args net chain cap \<noteq> []"
  then have "cap = ''fsp'' \<or> cap = ''fsp-voter''" by (auto simp: fsp_rows_def split: if_splits)
  then show ?thesis by (elim disjE) (simp_all add: wallet_rows_def)
qed

lemma caller_rows_paths:
  assumes "cap \<in> set valid_caps" "x \<in> set (net_callers net cap)"
  shows "cb_capability_id (snd x) = None \<and>
    cb_policy_path (snd x) \<in> fst ` set (perm_rows args sg net chain as cap) \<union> fst ` set (fsp_rows args net chain cap)"
proof -
  have "cap = ''claim'' \<or> cap = ''fsp'' \<or> cap = ''fsp-voter'' \<or> cap = ''fsp-register''"
    using assms(1) by (simp add: valid_caps_def)
  then show ?thesis
    using assms(2) by (elim disjE) (auto simp: net_callers_def caller_rows_def perm_rows_def fsp_rows_def Let_def)
qed

text \<open>Where an entry of a section comes from.\<close>

lemma in_updates: "x \<in> set (updates rows t) \<Longrightarrow> x \<in> set rows \<or> x \<in> set t"
  using set_updates by fast

definition wallets_ready :: "string \<Rightarrow> string \<Rightarrow> policy \<Rightarrow> bool" where
  "wallets_ready net cap p \<longleftrightarrow> (cap = ''fsp-register'' \<longrightarrow> set (register_wallets net) \<subseteq> fst ` set (p_wallets p))"

lemma cap_names:
  assumes "cap \<in> set valid_caps" "wallets_ready net cap p"
  shows "fst ` set (p_wallets (cap_rules args sg net chain as cap p)) = fst ` set (wallet_rows args net cap) \<union> fst ` set (p_wallets p)"
    "fst ` set (p_wallet_constraints (cap_rules args sg net chain as cap p)) =
       snd ` set (wallet_rows args net cap) \<union> fst ` set (p_wallet_constraints p)"
  unfolding cap_sections(8) [OF assms(1) assms(2) [unfolded wallets_ready_def]] cap_sections(4) [OF assms(1)] keys_updates
  by (force simp: constraint_rows_def)+

lemma cap_perms:
  assumes ok: "draft_ok args reg p" and ready: "wallets_ready net cap p"
    and reg: "registry_has_shapes reg" "sigs_ok reg caps sg" "cap \<in> set caps" "cap \<in> set valid_caps"
    and x: "x \<in> set (p_permissions (cap_rules args sg net chain as cap p))"
  shows "perm_shape args reg (fst ` set (p_wallets (cap_rules args sg net chain as cap p))) x"
proof -
  note ws = cap_names(1) [OF reg(4) ready, of args sg chain as]
  have names: "names_of args net cap \<subseteq> fst ` set (p_wallets (cap_rules args sg net chain as cap p))"
    using ready unfolding ws names_of_def wallets_ready_def by auto
  have old: "fst ` set (p_wallets p) \<subseteq> fst ` set (p_wallets (cap_rules args sg net chain as cap p))" unfolding ws by blast
  from x have "x \<in> set (perm_rows args sg net chain as cap) \<or> x \<in> set (p_permissions p)"
    unfolding cap_sections(2) [OF reg(4)] by (rule in_updates)
  then show ?thesis
  proof
    assume "x \<in> set (perm_rows args sg net chain as cap)"
    with perm_rows_shape [OF reg] show ?thesis by (intro perm_shape_mono [OF _ names]) (rule bspec)
  next
    assume "x \<in> set (p_permissions p)"
    with ok show ?thesis unfolding draft_ok_def by (intro perm_shape_mono [OF _ old]) (elim conjE, rule bspec)
  qed
qed

lemma cap_fsps:
  assumes ok: "draft_ok args reg p" and ready: "wallets_ready net cap p" and cap: "cap \<in> set valid_caps"
    and x: "x \<in> set (p_fsp_permissions (cap_rules args sg net chain as cap p))"
  shows "fsp_shape args (fst ` set (p_wallets (cap_rules args sg net chain as cap p))) x"
proof -
  note ws = cap_names(1) [OF cap ready, of args sg chain as]
  from x consider "x \<in> set (fsp_rows args net chain cap)" | "x \<in> set (p_fsp_permissions p)"
    unfolding cap_sections(3) [OF cap] using in_updates by blast
  then show ?thesis
  proof cases
    case 1
    then have "{''fsp-signing-'' @ net} \<subseteq> fst ` set (p_wallets (cap_rules args sg net chain as cap p))"
      unfolding ws using fsp_rows_wallet [of args net chain cap] by fastforce
    with 1 fsp_rows_shape fsp_shape_mono show ?thesis by blast
  next
    case 2
    moreover have "fst ` set (p_wallets p) \<subseteq> fst ` set (p_wallets (cap_rules args sg net chain as cap p))" unfolding ws by blast
    ultimately show ?thesis using ok fsp_shape_mono unfolding draft_ok_def by blast
  qed
qed

lemma cap_bindings:
  assumes ok: "draft_ok args reg p" and ready: "wallets_ready net cap p" and cap: "cap \<in> set valid_caps"
    and x: "x \<in> set (p_wallets (cap_rules args sg net chain as cap p))"
  shows "wbd_policy_path (snd x) \<in> fst ` set (p_wallet_constraints (cap_rules args sg net chain as cap p))"
proof -
  note cons = cap_names(2) [OF cap ready, of args sg chain as]
  from x have "x \<in> set (map (\<lambda>(w, c). (w, \<lparr>wbd_policy_path = c\<rparr>)) (wallet_rows args net cap)) \<or> x \<in> set (p_wallets p)"
    unfolding cap_sections(8) [OF cap ready [unfolded wallets_ready_def]] by (rule in_updates)
  then consider "x \<in> (\<lambda>(w, c). (w, \<lparr>wbd_policy_path = c\<rparr>)) ` set (wallet_rows args net cap)" | "x \<in> set (p_wallets p)"
    unfolding set_map by blast
  then show ?thesis
  proof cases
    case 1
    then obtain y where y: "y \<in> set (wallet_rows args net cap)" "x = (\<lambda>(w, c). (w, \<lparr>wbd_policy_path = c\<rparr>)) y" by (rule imageE)
    from y(2) have "wbd_policy_path (snd x) = snd y" by (cases y) simp
    then show ?thesis unfolding cons using imageI [OF y(1), of snd] by simp
  next
    case 2
    with ok show ?thesis unfolding cons draft_ok_def by blast
  qed
qed

lemma cap_rates:
  assumes ok: "draft_ok args reg p" and cap: "cap \<in> set valid_caps"
    and x: "x \<in> set (p_wallet_constraints (cap_rules args sg net chain as cap p))"
  shows "wc_rate (snd x) = rate_of (ia_claim_rate args) \<or> wc_rate (snd x) = rate_of (ia_fsp_rate args)"
proof -
  from x consider "x \<in> set (constraint_rows args net cap)" | "x \<in> set (p_wallet_constraints p)"
    unfolding cap_sections(4) [OF cap] using in_updates by blast
  then show ?thesis
  proof cases
    case 1
    then have "wc_rate (snd x) = rate_of (cap_rate args cap)" by (auto simp: constraint_rows_def)
    then show ?thesis by (simp add: cap_rate_def split: if_splits)
  next
    case 2
    with ok show ?thesis unfolding draft_ok_def by blast
  qed
qed

lemma cap_callers:
  assumes ok: "draft_ok args reg p" and cap: "cap \<in> set valid_caps"
    and x: "x \<in> set (p_callers (cap_rules args sg net chain as cap p))"
  shows "cb_capability_id (snd x) = None \<and>
    cb_policy_path (snd x) \<in> fst ` set (p_permissions (cap_rules args sg net chain as cap p)) \<union>
      fst ` set (p_fsp_permissions (cap_rules args sg net chain as cap p))"
proof -
  from x consider "x \<in> set (net_callers net cap)" | "x \<in> set (p_callers p)"
    unfolding cap_sections(1) [OF cap] using in_updates by blast
  then show ?thesis
    unfolding cap_sections(2,3) [OF cap] keys_updates
  proof cases
    case 1
    from caller_rows_paths [OF cap this, of args sg chain as]
    show "cb_capability_id (snd x) = None \<and> cb_policy_path (snd x) \<in>
      fst ` set (perm_rows args sg net chain as cap) \<union> fst ` set (p_permissions p) \<union>
      (fst ` set (fsp_rows args net chain cap) \<union> fst ` set (p_fsp_permissions p))" by blast
  next
    case 2
    with ok show "cb_capability_id (snd x) = None \<and> cb_policy_path (snd x) \<in>
      fst ` set (perm_rows args sg net chain as cap) \<union> fst ` set (p_permissions p) \<union>
      (fst ` set (fsp_rows args net chain cap) \<union> fst ` set (p_fsp_permissions p))" unfolding draft_ok_def by blast
  qed
qed

lemma draft_ok_cap:
  assumes "draft_ok args reg p" "wallets_ready net cap p"
    "registry_has_shapes reg" "sigs_ok reg caps sg" "cap \<in> set caps" "cap \<in> set valid_caps"
  shows "draft_ok args reg (cap_rules args sg net chain as cap p)"
  using cap_perms [OF assms] cap_fsps [OF assms(1,2,6)] cap_bindings [OF assms(1,2,6)] cap_rates [OF assms(1,6)]
    cap_callers [OF assms(1,6)] assms(1) cap_sections(5,6) [OF assms(6)]
  unfolding draft_ok_def by metis

subsection \<open>Signing wallets\<close>

text \<open>A network whose signing wallet is allowlisted in both domains.\<close>

definition seated :: "policy \<Rightarrow> string \<Rightarrow> bool" where
  "seated p n \<longleftrightarrow>
     (\<exists>path \<in> {''fsp/uptime-'' @ n, ''fsp/signing-policy-'' @ n}. \<exists>b.
        map_of (p_fsp_permissions p) path = Some b \<and> ''fsp-signing-'' @ n \<in> set (fb_wallet_allowlist b)) \<and>
     (\<exists>path \<in> {''perm/uptime-submit-'' @ n, ''perm/relay-submit-'' @ n}. \<exists>b.
        map_of (p_permissions p) path = Some b \<and> ''fsp-signing-'' @ n \<in> set (pb_wallet_allowlist b))"

text \<open>Whatever the capability and the network, an entry at one of these paths allowlists its signing wallet.\<close>

lemma fsp_rows_seat:
  "(path, b) \<in> set (fsp_rows args net chain cap) \<Longrightarrow> path \<in> {''fsp/uptime-'' @ n, ''fsp/signing-policy-'' @ n} \<Longrightarrow>
   ''fsp-signing-'' @ n \<in> set (fb_wallet_allowlist b)"
  by (auto simp: fsp_rows_def split: if_splits)

lemma perm_rows_seat:
  "(path, b) \<in> set (perm_rows args sg net chain as cap) \<Longrightarrow> path \<in> {''perm/uptime-submit-'' @ n, ''perm/relay-submit-'' @ n} \<Longrightarrow>
   ''fsp-signing-'' @ n \<in> set (pb_wallet_allowlist b)"
  by (auto simp: perm_rows_def blk_def Let_def split: if_splits)

lemma updates_lookup:
  assumes "map_of (updates rows t) k = Some v"
  shows "(k, v) \<in> set rows \<or> map_of t k = Some v"
  using assms by (auto simp: map_of_updates split: option.splits dest: map_of_SomeD)

lemma updates_lookup_Some: "map_of t k = Some v \<Longrightarrow> \<exists>u. map_of (updates rows t) k = Some u \<and> ((k, u) \<in> set rows \<or> u = v)"
  by (auto simp: map_of_updates split: option.splits dest: map_of_SomeD)

lemma seated_kept:
  assumes "seated p n" "cap \<in> set valid_caps"
  shows "seated (cap_rules args sg net chain as cap p) n"
proof -
  from assms(1) obtain fp fb pp pb where f: "fp \<in> {''fsp/uptime-'' @ n, ''fsp/signing-policy-'' @ n}"
      "map_of (p_fsp_permissions p) fp = Some fb" "''fsp-signing-'' @ n \<in> set (fb_wallet_allowlist fb)"
    and q: "pp \<in> {''perm/uptime-submit-'' @ n, ''perm/relay-submit-'' @ n}"
      "map_of (p_permissions p) pp = Some pb" "''fsp-signing-'' @ n \<in> set (pb_wallet_allowlist pb)"
    unfolding seated_def by blast
  obtain fu where fu: "map_of (updates (fsp_rows args net chain cap) (p_fsp_permissions p)) fp = Some fu"
    "(fp, fu) \<in> set (fsp_rows args net chain cap) \<or> fu = fb"
    using updates_lookup_Some [OF f(2)] by blast
  obtain pu where pu: "map_of (updates (perm_rows args sg net chain as cap) (p_permissions p)) pp = Some pu"
    "(pp, pu) \<in> set (perm_rows args sg net chain as cap) \<or> pu = pb"
    using updates_lookup_Some [OF q(2)] by blast
  have "''fsp-signing-'' @ n \<in> set (fb_wallet_allowlist fu)" using fu(2) f(1,3) fsp_rows_seat by blast
  moreover have "''fsp-signing-'' @ n \<in> set (pb_wallet_allowlist pu)" using pu(2) q(1,3) perm_rows_seat by blast
  ultimately show ?thesis
    unfolding seated_def cap_sections(2,3) [OF assms(2)] using f(1) q(1) fu(1) pu(1) by blast
qed

lemma updates_lookup_row:
  assumes "(k, v) \<in> set rows" "\<And>u. (k, u) \<in> set rows \<Longrightarrow> P u"
  shows "\<exists>u. map_of (updates rows t) k = Some u \<and> P u"
proof -
  have "k \<in> fst ` set (rev rows)" using imageI [OF assms(1), of fst] by simp
  then have "map_of (rev rows) k \<noteq> None" by (simp add: map_of_eq_None_iff)
  then obtain u where "map_of (rev rows) k = Some u" by blast
  moreover from map_of_SomeD [OF this] have "(k, u) \<in> set rows" by simp
  ultimately show ?thesis using assms(2) by (simp add: map_of_updates)
qed

lemma seated_new:
  assumes "cap = ''fsp'' \<or> cap = ''fsp-voter''"
  shows "seated (cap_rules args sg net chain as cap p) net"
proof -
  have cap: "cap \<in> set valid_caps" using assms by (auto simp: valid_caps_def)
  have "fst (hd (fsp_rows args net chain cap)) \<in> {''fsp/uptime-'' @ net, ''fsp/signing-policy-'' @ net} \<and>
      fsp_rows args net chain cap \<noteq> []"
    using assms by (elim disjE) (simp_all add: fsp_rows_def)
  then obtain fp fb where f: "fp \<in> {''fsp/uptime-'' @ net, ''fsp/signing-policy-'' @ net}" "(fp, fb) \<in> set (fsp_rows args net chain cap)"
    by (metis hd_in_set prod.collapse)
  let ?i = "if cap = ''fsp'' then 0 else 5 :: nat"
  have "fst (perm_rows args sg net chain as cap ! ?i) \<in> {''perm/uptime-submit-'' @ net, ''perm/relay-submit-'' @ net} \<and>
      ?i < length (perm_rows args sg net chain as cap)"
    using assms by (elim disjE) (simp_all add: perm_rows_def Let_def)
  then obtain pp pb where q: "pp \<in> {''perm/uptime-submit-'' @ net, ''perm/relay-submit-'' @ net}"
    "(pp, pb) \<in> set (perm_rows args sg net chain as cap)"
    by (metis nth_mem prod.collapse)
  have "\<exists>u. map_of (updates (fsp_rows args net chain cap) (p_fsp_permissions p)) fp = Some u \<and>
      ''fsp-signing-'' @ net \<in> set (fb_wallet_allowlist u)"
    by (rule updates_lookup_row [OF f(2)]) (rule fsp_rows_seat [OF _ f(1)])
  moreover have "\<exists>u. map_of (updates (perm_rows args sg net chain as cap) (p_permissions p)) pp = Some u \<and>
      ''fsp-signing-'' @ net \<in> set (pb_wallet_allowlist u)"
    by (rule updates_lookup_row [OF q(2)]) (rule perm_rows_seat [OF _ q(1)])
  ultimately show ?thesis unfolding seated_def cap_sections(2,3) [OF cap] using f(1) q(1) by blast
qed

definition seats_ok :: "policy \<Rightarrow> bool" where
  "seats_ok p \<longleftrightarrow>
     (\<forall>w \<in> set (p_fsp_self_submit p). \<exists>n. w = ''fsp-signing-'' @ n \<and> seated p n) \<and>
     (\<forall>x \<in> set (p_fsp_permissions p). set (fb_wallet_allowlist (snd x)) \<subseteq> set (p_fsp_self_submit p))"

lemma seats_ok_cap:
  assumes "seats_ok p" "cap \<in> set valid_caps"
  shows "seats_ok (cap_rules args sg net chain as cap p)"
  unfolding seats_ok_def
proof (intro conjI ballI)
  fix w assume "w \<in> set (p_fsp_self_submit (cap_rules args sg net chain as cap p))"
  then consider "w \<in> set (p_fsp_self_submit p)" | "w = ''fsp-signing-'' @ net" "cap = ''fsp'' \<or> cap = ''fsp-voter''"
    unfolding cap_sections(7) [OF assms(2)] by (auto simp: self_submit_rows_def split: if_splits)
  then show "\<exists>n. w = ''fsp-signing-'' @ n \<and> seated (cap_rules args sg net chain as cap p) n"
  proof cases
    case 1
    with assms(1) obtain n where "w = ''fsp-signing-'' @ n" "seated p n" unfolding seats_ok_def by blast
    with seated_kept [OF _ assms(2)] show ?thesis by blast
  next
    case 2
    with seated_new [OF 2(2)] show ?thesis by blast
  qed
next
  fix x assume "x \<in> set (p_fsp_permissions (cap_rules args sg net chain as cap p))"
  then consider "x \<in> set (fsp_rows args net chain cap)" | "x \<in> set (p_fsp_permissions p)"
    unfolding cap_sections(3) [OF assms(2)] using in_updates by blast
  then show "set (fb_wallet_allowlist (snd x)) \<subseteq> set (p_fsp_self_submit (cap_rules args sg net chain as cap p))"
  proof cases
    case 1
    then have "cap = ''fsp'' \<or> cap = ''fsp-voter''" "fb_wallet_allowlist (snd x) = [''fsp-signing-'' @ net]"
      by (auto simp: fsp_rows_def split: if_splits)
    then show ?thesis unfolding cap_sections(7) [OF assms(2)] by (auto simp: self_submit_rows_def)
  next
    case 2
    with assms(1) show ?thesis unfolding cap_sections(7) [OF assms(2)] seats_ok_def by auto
  qed
qed

subsection \<open>The whole generation\<close>

definition draft_inv :: "init_args \<Rightarrow> abi_registry \<Rightarrow> policy \<Rightarrow> bool" where
  "draft_inv args reg p \<longleftrightarrow> draft_ok args reg p \<and> seats_ok p"

lemma cap_step:
  assumes "draft_inv args reg p" "cap \<in> set caps \<Longrightarrow> wallets_ready net cap p"
    "registry_has_shapes reg" "sigs_ok reg caps sg" "cap \<in> set valid_caps"
  shows "draft_inv args reg (if cap \<in> set caps then cap_rules args sg net chain as cap p else p)"
  using assms draft_ok_cap [of args reg p net cap caps sg chain as] seats_ok_cap [of p cap args sg net chain as]
  by (simp add: draft_inv_def)

lemma network_inv:
  assumes "network_rules args caps sg net spec p = Inr p'" "draft_inv args reg p"
    and reg: "registry_has_shapes reg" "sigs_ok reg caps sg"
    and caps: "''fsp-register'' \<in> set caps \<Longrightarrow> ''fsp-voter'' \<in> set caps"
  shows "draft_inv args reg p'"
proof -
  from assms(1) obtain chain as
    where p': "p' = fold (\<lambda>cap p. if cap \<in> set caps then cap_rules args sg net chain as cap p else p) valid_caps p"
    by (rule network_rules_Inr)
  define f where "f = (\<lambda>cap p. if cap \<in> set caps then cap_rules args sg net chain as cap p else p)"
  have step: "draft_inv args reg (f cap q)"
    if "draft_inv args reg q" "cap \<in> set caps \<Longrightarrow> wallets_ready net cap q" "cap \<in> set valid_caps" for cap q
    unfolding f_def using cap_step [OF that(1,2) reg that(3)] .
  have easy: "wallets_ready net cap q" if "cap \<noteq> ''fsp-register''" for cap q
    using that by (simp add: wallets_ready_def)
  let ?p2 = "f ''fsp'' (f ''claim'' p)"
  have "draft_inv args reg (f ''claim'' p)"
    by (rule step [OF assms(2)]) (simp_all add: easy valid_caps_def)
  then have "draft_inv args reg ?p2"
    by (rule step) (simp_all add: easy valid_caps_def)
  then have p3: "draft_inv args reg (f ''fsp-voter'' ?p2)"
    by (rule step) (simp_all add: easy valid_caps_def)
  have "wallets_ready net ''fsp-register'' (f ''fsp-voter'' ?p2)" if "''fsp-register'' \<in> set caps"
  proof -
    have "set (register_wallets net) \<subseteq> fst ` set (wallet_rows args net ''fsp-voter'')"
      by (simp add: register_wallets_def wallet_rows_def)
    moreover have "fst ` set (p_wallets (f ''fsp-voter'' ?p2)) =
        fst ` set (wallet_rows args net ''fsp-voter'') \<union> fst ` set (p_wallets ?p2)"
      unfolding f_def using caps [OF that] cap_names(1) [of "''fsp-voter''" net] by (simp add: easy valid_caps_def)
    ultimately show ?thesis unfolding wallets_ready_def by blast
  qed
  then have "draft_inv args reg (f ''fsp-register'' (f ''fsp-voter'' ?p2))"
    by (rule step [OF p3]) (simp_all add: valid_caps_def)
  then show ?thesis by (simp add: p' f_def valid_caps_def)
qed

lemma loop_inv:
  assumes "networks_loop args caps sg table nets p = Inr p'" "draft_inv args reg p"
    and "registry_has_shapes reg" "sigs_ok reg caps sg" "''fsp-register'' \<in> set caps \<Longrightarrow> ''fsp-voter'' \<in> set caps"
  shows "draft_inv args reg p'"
  using assms
proof (induction args caps sg table nets p rule: networks_loop.induct)
  case (2 args caps sg table net nets p)
  from 2(2) obtain spec q where q: "map_of table net = Some spec" "network_rules args caps sg net spec p = Inr q"
    "networks_loop args caps sg table nets q = Inr p'"
    by (cases "network_rules args caps sg net (the (map_of table net)) p") (auto split: option.splits)
  from 2(1) [OF q(1,3) network_inv [OF q(2) 2(3-6)] 2(4-6)] show ?case .
qed simp

lemma empty_inv: "draft_inv args reg empty_policy"
  by (simp add: draft_inv_def draft_ok_def seats_ok_def empty_policy_def)

text \<open>The policy that was generated.\<close>

lemma generatedD:
  assumes "generated args networks registry = Inr p"
  obtains table reg sg q where "networks = Inr table" "registry = Inr reg"
    "set (map py_lower (given_names (ia_capabilities args))) \<subseteq> set valid_caps"
    "sigs_ok reg (map py_lower (given_names (ia_capabilities args))) sg"
    "networks_loop args (map py_lower (given_names (ia_capabilities args))) sg table
       (given_names (ia_networks args)) empty_policy = Inr q"
    "p = q\<lparr>p_fsp_self_submit := rev (remdups (rev (p_fsp_self_submit q)))\<rparr>"
proof -
  let ?caps = "map py_lower (given_names (ia_capabilities args))" and ?nets = "given_names (ia_networks args)"
  from assms have chk: "check_args args ?nets ?caps = None" by (auto simp: generated_def Let_def split: option.splits)
  with assms obtain table reg where tr: "networks = Inr table" "registry = Inr reg"
    by (cases networks; cases registry) (auto simp: generated_def Let_def split: if_splits)
  from assms obtain sg where sg: "resolve_sigs reg ?caps required_sigs (\<lambda>abi name. []) = Inr sg"
    by (cases "resolve_sigs reg ?caps required_sigs (\<lambda>abi name. [])") (auto simp: generated_def Let_def chk tr split: if_splits)
  from assms obtain q where q: "networks_loop args ?caps sg table ?nets empty_policy = Inr q"
    by (cases "networks_loop args ?caps sg table ?nets empty_policy") (auto simp: generated_def Let_def chk tr sg split: if_splits)
  from assms have "p = q\<lparr>p_fsp_self_submit := rev (remdups (rev (p_fsp_self_submit q)))\<rparr>"
    by (auto simp: generated_def Let_def chk tr sg q split: if_splits)
  moreover from chk have "set ?caps \<subseteq> set valid_caps" by (auto simp: check_args_def split: if_splits)
  ultimately show thesis using tr resolved_sigs_ok [OF sg] q by (intro that)
qed

end
