(* ===== verification/Policy_Generated.thy ===== *)
theory Policy_Generated
  imports Policy_Init_Correct
begin

text \<open>What a generated policy promises (app/policy_init.py): it passes the boot check of
  infra/policy_loader.py, it binds the callers the custody plan of app/capability_grant.py grants, and a
  merge into an existing policy only adds.\<close>

subsection \<open>The draft passes the boot check\<close>

lemma draft_known: "w \<in> fst ` set (p_wallets p) \<Longrightarrow> known_wallet p wallets w"
  by (simp add: known_wallet_def)

lemma draft_caller_bound:
  assumes "draft_ok args reg p" "map_of (p_callers p) (c_name c) = Some b" "cb_policy_path b = c_policy_path c"
  shows "caller_bound p c"
proof -
  have "(c_name c, b) \<in> set (p_callers p)" using assms(2) by (rule map_of_SomeD)
  with assms(1) have "cb_policy_path (snd (c_name c, b)) \<in> fst ` set (p_permissions p) \<union> fst ` set (p_fsp_permissions p)"
    unfolding draft_ok_def by blast
  then have "map_of (p_permissions p) (cb_policy_path b) \<noteq> None \<or> map_of (p_fsp_permissions p) (cb_policy_path b) \<noteq> None"
    unfolding map_of_eq_None_iff by simp
  with assms(2,3) show ?thesis unfolding caller_bound_def by metis
qed

lemma no_capability_ids: "\<forall>x \<in> set cs. cb_capability_id (snd x) = None \<Longrightarrow> List.map_filter (\<lambda>(n, b). cb_capability_id b) cs = []"
  by (induction cs) (auto simp: map_filter_simps)

lemma draft_capabilities: "draft_ok args reg p \<Longrightarrow> capabilities_distinct p"
  unfolding draft_ok_def capabilities_distinct_def using no_capability_ids by (metis distinct.simps(1))

lemma draft_permission_ok:
  assumes "draft_ok args reg p" "x \<in> set (p_permissions p)"
  shows "permission_ok p reg (snd x)"
proof -
  from assms have "perm_shape args reg (fst ` set (p_wallets p)) x" unfolding draft_ok_def by blast
  then obtain addr abi chain methods where b: "pb_contracts (snd x) = [(addr, \<lparr>cr_abi = abi, cr_chains = [chain], cr_methods = methods\<rparr>)]"
    "fst ` set methods \<subseteq> set (signatures_for reg abi)" "methods \<noteq> []" "set (pb_wallet_allowlist (snd x)) \<subseteq> fst ` set (p_wallets p)"
    unfolding perm_shape_def by (cases x) auto
  from b(2,3) have "signatures_for reg abi \<noteq> []" by auto
  then have "abi \<in> set (abi_names reg)"
    by (cases "map_of reg abi") (auto simp: signatures_for_def abi_names_def dest!: map_of_SomeD intro: rev_image_eqI)
  with b show ?thesis by (simp add: permission_ok_def)
qed

lemma draft_fsp_ok:
  assumes "draft_ok args reg p" "x \<in> set (p_fsp_permissions p)"
  shows "fsp_ok p wallets x"
proof -
  from assms have f: "fsp_shape args (fst ` set (p_wallets p)) x" unfolding draft_ok_def by blast
  have "fst y \<noteq> fst x" if "y \<in> set (p_permissions p)" for y
  proof -
    from assms(1) that have "perm_shape args reg (fst ` set (p_wallets p)) y" unfolding draft_ok_def by blast
    then have "starts_with (fst y) ''perm/''" by (cases y) (simp add: perm_shape_def)
    moreover from f have "starts_with (fst x) ''fsp/''" by (cases x) (simp add: fsp_shape_def)
    ultimately have "fst x ! 1 = CHR ''s''" "fst y ! 1 = CHR ''e''"
      unfolding starts_with_def by (auto dest: arg_cong [of _ _ "\<lambda>s. s ! 1"])
    then show ?thesis by auto
  qed
  then have "fst x \<notin> fst ` set (p_permissions p)" by force
  with f show ?thesis by (cases x) (auto simp: fsp_ok_def fsp_shape_def intro: draft_known)
qed

lemma draft_confined:
  assumes "draft_ok args reg p"
  shows "confined p (''fsp-signing-'' @ n)"
  unfolding confined_def
proof (clarify)
  fix path b addr crule
  assume entry: "(path, b) \<in> set (p_permissions p)" "''fsp-signing-'' @ n \<in> set (pb_wallet_allowlist b)"
    "(addr, crule) \<in> set (pb_contracts b)"
  from assms entry(1) have "perm_shape args reg (fst ` set (p_wallets p)) (path, b)" unfolding draft_ok_def by blast
  then obtain addr' abi chain methods where b: "pb_contracts b = [(addr', \<lparr>cr_abi = abi, cr_chains = [chain], cr_methods = methods\<rparr>)]"
    and zero: "\<forall>(s, m) \<in> set methods. mr_max_value_wei m = ''0''"
    and shape: "(\<exists>w \<in> set (pb_wallet_allowlist b). starts_with w ''fsp-signing-'') \<longrightarrow>
      (\<exists>allowed. map_of fsp_self_submit_shapes abi = Some allowed \<and> fst ` set methods \<subseteq> set allowed)"
    unfolding perm_shape_def by auto
  from shape entry(2) starts_literals(3) [of n] obtain allowed
    where "map_of fsp_self_submit_shapes abi = Some allowed" "fst ` set methods \<subseteq> set allowed" by blast
  with b entry(3) zero show "\<exists>allowed. map_of fsp_self_submit_shapes (cr_abi crule) = Some allowed \<and>
      (\<forall>(sig, rule) \<in> set (cr_methods crule). sig \<in> set allowed \<and> mr_max_value_wei rule = ''0'')"
    by (auto simp: image_subset_iff)
qed

lemma seated_uses:
  assumes "seated p n"
  shows "\<exists>x \<in> set (p_fsp_permissions p). ''fsp-signing-'' @ n \<in> set (fb_wallet_allowlist (snd x))"
    "''fsp-signing-'' @ n \<in> set (fsp_names p)" "''fsp-signing-'' @ n \<in> set (evm_names p)"
  using assms unfolding seated_def fsp_names_def evm_names_def by (force dest!: map_of_SomeD)+

lemma draft_self_submit:
  assumes "draft_inv args reg p" "w \<in> set (p_fsp_self_submit p)"
  shows "self_submit_ok p wallets w"
proof -
  from assms have ok: "draft_ok args reg p" and "seats_ok p" by (simp_all add: draft_inv_def)
  with assms(2) obtain n where n: "w = ''fsp-signing-'' @ n" "seated p n" unfolding seats_ok_def by blast
  from seated_uses(1) [OF n(2)] obtain x where x: "x \<in> set (p_fsp_permissions p)" "w \<in> set (fb_wallet_allowlist (snd x))"
    unfolding n(1) by blast
  from ok x(1) have "fsp_shape args (fst ` set (p_wallets p)) x" unfolding draft_ok_def by blast
  with x(2) have "w \<in> fst ` set (p_wallets p)" by (cases x) (auto simp: fsp_shape_def)
  with n seated_uses(2,3) [OF n(2)] draft_confined [OF ok] show ?thesis by (simp add: self_submit_ok_def draft_known)
qed

lemma draft_segmented:
  assumes "draft_inv args reg p"
  shows "segmented p wallets"
proof -
  have "w \<in> set (p_fsp_self_submit p)" if w: "w \<in> set (fsp_names p)" for w
  proof -
    from w obtain x where "x \<in> set (p_fsp_permissions p)" "w \<in> set (fb_wallet_allowlist (snd x))"
      unfolding fsp_names_def by force
    with assms show ?thesis unfolding draft_inv_def seats_ok_def by blast
  qed
  then show ?thesis unfolding segmented_def by blast
qed

lemma draft_consistent:
  assumes inv: "draft_inv args reg p" and live: "\<forall>c \<in> set callers. c_revoked_at c = None \<longrightarrow>
      (\<exists>b. map_of (p_callers p) (c_name c) = Some b \<and> cb_policy_path b = c_policy_path c)"
  shows "policy_consistent p callers wallets reg"
proof -
  from inv have ok: "draft_ok args reg p" by (simp add: draft_inv_def)
  have "p_native_transfers p = []" "\<forall>x \<in> set (p_wallets p). wbd_policy_path (snd x) \<in> fst ` set (p_wallet_constraints p)"
    using ok unfolding draft_ok_def by blast+
  moreover have "\<forall>c \<in> set callers. c_revoked_at c = None \<longrightarrow> caller_bound p c"
    using live draft_caller_bound [OF ok] by blast
  ultimately show ?thesis
    using draft_capabilities [OF ok] draft_permission_ok [OF ok] draft_fsp_ok [OF ok] draft_self_submit [OF inv] draft_segmented [OF inv]
    unfolding policy_consistent_def by (simp add: split_beta)
qed


lemma draft_valid:
  assumes "draft_ok args reg p"
    and rates: "1 \<le> fst (ia_claim_rate args)" "1 \<le> snd (ia_claim_rate args)"
      "1 \<le> fst (ia_fsp_rate args)" "1 \<le> snd (ia_fsp_rate args)"
  shows "valid_policy p"
proof -
  have rate: "valid_rate_opt r" if "r = rate_of (ia_claim_rate args) \<or> r = rate_of (ia_fsp_rate args)" for r
    using that rates by (auto simp: rate_of_def valid_rate_opt_def valid_rate_limit_def ge1_def)
  have callers: "valid_caller_binding (snd x)" if "x \<in> set (p_callers p)" for x
    using assms(1) that unfolding draft_ok_def valid_caller_binding_def by (metis option.case(1))
  have perms: "valid_permission_block (snd x)" if "x \<in> set (p_permissions p)" for x
  proof -
    from assms(1) that have "perm_shape args reg (fst ` set (p_wallets p)) x" unfolding draft_ok_def by blast
    then show ?thesis by (cases x) (auto simp: perm_shape_def valid_permission_block_def valid_contract_rule_def intro: rate)
  qed
  have fsps: "valid_rate_opt (fb_rate (snd x))" if "x \<in> set (p_fsp_permissions p)" for x
  proof -
    from assms(1) that have "fsp_shape args (fst ` set (p_wallets p)) x" unfolding draft_ok_def by blast
    then show ?thesis by (cases x) (auto simp: fsp_shape_def intro: rate)
  qed
  have wcs: "valid_rate_opt (wc_rate (snd x))" if "x \<in> set (p_wallet_constraints p)" for x
    by (rule rate) (use assms(1) that in \<open>unfold draft_ok_def, blast\<close>)
  have "p_version p = 1" "p_native_transfers p = []" using assms(1) unfolding draft_ok_def by blast+
  then show ?thesis
    unfolding valid_policy_def list_all_iff by (simp add: split_beta callers perms fsps wcs)
qed

lemma generated_inv:
  assumes "generated args networks (Inr reg) = Inr p" "registry_has_shapes reg"
    "''fsp-register'' \<in> set (map py_lower (given_names (ia_capabilities args))) \<Longrightarrow>
     ''fsp-voter'' \<in> set (map py_lower (given_names (ia_capabilities args)))"
  shows "draft_inv args reg p"
  using assms(1)
proof (rule generatedD)
  fix table reg' sg q
  assume g: "Inr reg = (Inr reg' :: load_failure + abi_registry)"
    "sigs_ok reg' (map py_lower (given_names (ia_capabilities args))) sg"
    "networks_loop args (map py_lower (given_names (ia_capabilities args))) sg table (given_names (ia_networks args)) empty_policy = Inr q"
    "p = q\<lparr>p_fsp_self_submit := rev (remdups (rev (p_fsp_self_submit q)))\<rparr>"
  from g(1,2) have "sigs_ok reg (map py_lower (given_names (ia_capabilities args))) sg" by simp
  from loop_inv [OF g(3) empty_inv assms(2) this assms(3)] have "draft_inv args reg q" .
  moreover have "seated p n = seated q n" for n by (simp add: g(4) seated_def)
  ultimately show ?thesis by (simp add: g(4) draft_inv_def draft_ok_def seats_ok_def)
qed


text \<open>A request for the claim capability on one network.\<close>

definition claim_args :: init_args where
  "claim_args = \<lparr>ia_networks = ['' flare''], ia_capabilities = [''Claim''], ia_recipient = Some ''0xabc'',
     ia_identity = None, ia_sender_mode = ''per-network'', ia_claim_rate = (4, 8), ia_fsp_rate = (5000, 120000)\<rparr>"

definition claim_networks :: "(string \<times> net_spec) list" where
  "claim_networks = [(''flare'', \<lparr>ns_chain_id = Some 14, ns_addresses = [(''reward_manager'', ''0xc8'')]\<rparr>)]"

definition claim_registry :: abi_registry where
  "claim_registry = [(''reward_manager'', [(''0x01020304'', \<lparr>am_method_signature = ''claim(address)'',
     am_canonical_input_types = [''address''], am_abi_fn_entry = \<lparr>fn_type = Some ''function'', fn_mutability = Some ''nonpayable'',
       fn_name = Some ''claim'', fn_inputs = [AbiInput None (Some ''address'') None]\<rparr>\<rparr>)])]"

definition claim_policy :: policy where
  "claim_policy = claim_rules (\<lambda>abi name. if abi = ''reward_manager'' \<and> name = ''claim'' then ''claim(address)'' else [])
     ''0xabc'' (4, 8) ''flare'' 14 ''0xc8'' empty_policy"

lemma claim_shapes: "registry_has_shapes claim_registry"
  by (simp add: registry_has_shapes_def claim_registry_def signatures_for_def fsp_self_submit_shapes_def)

lemma claim_sigs: "resolve_sigs claim_registry [''claim''] required_sigs (\<lambda>abi name. []) =
    Inr (\<lambda>abi name. if abi = ''reward_manager'' \<and> name = ''claim'' then ''claim(address)'' else [])"
  by (simp add: required_sigs_def sig_for_def claim_registry_def signatures_for_def method_name_def fun_eq_iff)

lemma claim_nets: "given_names (ia_networks claim_args) = [''flare'']"
  by code_simp

lemma claim_caps: "map py_lower (given_names (ia_capabilities claim_args)) = [''claim'']"
  by code_simp

lemma claim_mode: "ia_sender_mode claim_args = ''per-network''"
  by (simp add: claim_args_def)

lemma claim_loop:
  "networks_loop claim_args [''claim''] sg claim_networks [''flare''] p = Inr (claim_rules sg ''0xabc'' (4, 8) ''flare'' 14 ''0xc8'' p)"
  by (simp add: claim_networks_def network_rules_def address_of_def claim_args_def)

lemma claim_generated: "generated claim_args (Inr claim_networks) (Inr claim_registry) = Inr claim_policy"
proof -
  have "check_args claim_args [''flare''] [''claim''] = None"
    by (simp add: check_args_def claim_args_def valid_caps_def is_given_def)
  moreover have "set [''flare''] \<subseteq> fst ` set claim_networks" by (simp add: claim_networks_def)
  moreover have "claim_policy\<lparr>p_fsp_self_submit := rev (remdups (rev (p_fsp_self_submit claim_policy)))\<rparr> = claim_policy"
    by (simp add: claim_policy_def rule_defs section_defs empty_policy_def)
  ultimately show ?thesis
    unfolding generated_def Let_def claim_nets claim_caps
    by (simp only: option.case bind_sum.simps sum.case claim_sigs claim_loop claim_policy_def [symmetric] if_True not_not
      simp_thms if_False)
qed



subsection \<open>The callers of the custody plan\<close>

text \<open>The roles a capability of the generator covers.\<close>

definition capability_roles :: "(string \<times> string list) list" where
  "capability_roles =
     [(''claim'', [''ftso-reward-claim'']),
      (''fsp'', [''uptime-vote-sign'', ''reward-distribution-sign'', ''uptime-vote-submit'', ''reward-distribution-submit'']),
      (''fsp-voter'', [''signing-policy-sign'', ''voter-registration-sign'', ''protocol-message-sign'', ''fastupdate-sign'',
        ''fastupdate-submit-1'', ''fastupdate-submit-2'', ''fastupdate-submit-3'', ''ftso-price-submit'',
        ''ftso-signature-submit'', ''relay-submit'', ''signing-policy-submit'', ''voter-registration-submit'']),
      (''fsp-register'', [''entity-confirm-submit'', ''entity-confirm-sig-submit'', ''entity-confirm-signing''])]"

text \<open>The role of a row of the generator: the caller's prefix without its dash, but for the claim.\<close>

definition row_role :: "string \<Rightarrow> string" where
  "row_role n = (if n = ''claim-'' then ''ftso-reward-claim'' else butlast n)"

lemma roles_are_rows: "(cap, roles) \<in> set capability_roles \<Longrightarrow> roles = map (\<lambda>(n, path). row_role n) (caller_rows cap)"
  unfolding capability_roles_def list.set insert_iff empty_iff prod.inject
  by (elim disjE conjE) (simp_all add: caller_rows_def row_role_def)

lemma capability_valid: "(cap, roles) \<in> set capability_roles \<Longrightarrow> cap \<in> set valid_caps"
  unfolding capability_roles_def list.set insert_iff empty_iff prod.inject
  by (elim disjE conjE) (simp_all add: valid_caps_def)

definition convention_rows :: "(string \<times> string \<times> string) list" where
  "convention_rows = concat (map (\<lambda>cap. map (\<lambda>(n, path). (row_role n, n, path)) (caller_rows cap)) valid_caps)"

lemma formatted_rows:
  "map (\<lambda>(r, n, p). (r, format_net net n, format_net net p)) role_convention =
   map (\<lambda>(r, n, p). (r, n @ net, p @ net)) convention_rows"
  unfolding convention_formatted
  by (simp add: convention_rows_def valid_caps_def caller_rows_def row_role_def)


lemma map_of_rows: "map_of (map (\<lambda>(r, n, p). (r, f n, g p)) rows) role = map_option (\<lambda>(n, p). (f n, g p)) (map_of rows role)"
  by (induction rows) auto

lemma planned_row:
  assumes "(cap, roles) \<in> set capability_roles" "sc_role c \<in> set roles"
  shows "\<exists>n path. (n, path) \<in> set (caller_rows cap) \<and> pg_caller_name (planned net c) = Some (n @ net) \<and>
    pg_policy_path (planned net c) = Some (path @ net)"
proof -
  from assms obtain n path where row: "(n, path) \<in> set (caller_rows cap)" "sc_role c = row_role n"
    unfolding roles_are_rows [OF assms(1)] by auto
  have "(row_role n, n, path) \<in> set convention_rows"
    unfolding convention_rows_def using row(1) capability_valid [OF assms(1)] by force
  moreover have "distinct (map fst convention_rows)"
    by (simp add: convention_rows_def valid_caps_def caller_rows_def row_role_def)
  ultimately have "map_of convention_rows (sc_role c) = Some (n, path)" using row(2) by simp
  then have "map_of (map (\<lambda>(r, n, p). (r, n @ net, p @ net)) convention_rows) (sc_role c) = Some (n @ net, path @ net)"
    by (simp add: map_of_rows)
  then have formatted: "map_of (map (\<lambda>(r, n, p). (r, format_net net n, format_net net p)) role_convention) (sc_role c) =
      Some (n @ net, path @ net)"
    by (simp only: formatted_rows)
  with formatted obtain nt pt where "map_of role_convention (sc_role c) = Some (nt, pt)" "format_net net nt = n @ net"
    "format_net net pt = path @ net"
    by (cases "map_of role_convention (sc_role c)") (auto simp: map_of_rows)
  with row(1) show ?thesis by (auto simp: planned_def)
qed

text \<open>Every caller comes from a row, and its path has a block.\<close>

definition callers_inv :: "policy \<Rightarrow> bool" where
  "callers_inv p \<longleftrightarrow> (\<forall>x \<in> set (p_callers p). (\<exists>cap \<in> set valid_caps. \<exists>net. x \<in> set (net_callers net cap)) \<and>
     cb_policy_path (snd x) \<in> fst ` set (p_permissions p) \<union> fst ` set (p_fsp_permissions p))"

lemma callers_inv_cap:
  assumes "callers_inv p" "cap \<in> set valid_caps"
  shows "callers_inv (cap_rules args sg net chain as cap p)"
  unfolding callers_inv_def cap_sections(1-3) [OF assms(2)] keys_updates
proof
  fix x assume "x \<in> set (updates (net_callers net cap) (p_callers p))"
  then consider "x \<in> set (net_callers net cap)" | "x \<in> set (p_callers p)" using in_updates by blast
  then show "(\<exists>cap \<in> set valid_caps. \<exists>net. x \<in> set (net_callers net cap)) \<and> cb_policy_path (snd x) \<in>
      fst ` set (perm_rows args sg net chain as cap) \<union> fst ` set (p_permissions p) \<union>
      (fst ` set (fsp_rows args net chain cap) \<union> fst ` set (p_fsp_permissions p))"
  proof cases
    case 1
    with caller_rows_paths [OF assms(2) 1, of args sg chain as] assms(2) show ?thesis by blast
  next
    case 2
    with assms(1) show ?thesis unfolding callers_inv_def by blast
  qed
qed

lemma network_preserves:
  assumes "network_rules args caps sg net spec p = Inr p'" "P p"
    and step: "\<And>chain as cap q. cap \<in> set valid_caps \<Longrightarrow> P q \<Longrightarrow> P (cap_rules args sg net chain as cap q)"
  shows "P p'"
proof -
  from assms(1) obtain chain as
    where p': "p' = fold (\<lambda>cap p. if cap \<in> set caps then cap_rules args sg net chain as cap p else p) valid_caps p"
    by (rule network_rules_Inr)
  have "P (fold (\<lambda>cap p. if cap \<in> set caps then cap_rules args sg net chain as cap p else p) cs q)"
    if "set cs \<subseteq> set valid_caps" "P q" for cs q
    using that by (induction cs arbitrary: q) (simp_all add: step)
  from this [OF order.refl assms(2)] show ?thesis by (simp only: p')
qed

lemma networks_loop_Cons:
  assumes "networks_loop args caps sg table (net # nets) p = Inr p'"
  obtains spec q where "network_rules args caps sg net spec p = Inr q" "networks_loop args caps sg table nets q = Inr p'"
  using assms that by (cases "network_rules args caps sg net (the (map_of table net)) p") (auto split: option.splits)

lemma loop_preserves:
  assumes "networks_loop args caps sg table nets p = Inr p'" "P p"
    and step: "\<And>net chain as cap q. net \<in> set nets \<Longrightarrow> cap \<in> set valid_caps \<Longrightarrow> P q \<Longrightarrow> P (cap_rules args sg net chain as cap q)"
  shows "P p'"
  using assms
proof (induction nets arbitrary: p)
  case (Cons net nets)
  from Cons(2) obtain spec q where "network_rules args caps sg net spec p = Inr q"
    "networks_loop args caps sg table nets q = Inr p'" by (rule networks_loop_Cons)
  moreover from network_preserves [of args caps sg net spec p q P, OF this(1) Cons(3)] Cons(4) have "P q" by simp
  ultimately show ?case using Cons(1,4) by simp
qed simp

lemma caller_keys_cap: "cap \<in> set valid_caps \<Longrightarrow>
    fst ` set (p_callers (cap_rules args sg net chain as cap p)) = fst ` set (net_callers net cap) \<union> fst ` set (p_callers p)"
  by (simp only: cap_sections(1) keys_updates)

lemma network_binds:
  assumes "network_rules args caps sg net spec p = Inr p'" "cap \<in> set caps" "cap \<in> set valid_caps"
  shows "fst ` set (net_callers net cap) \<subseteq> fst ` set (p_callers p')"
proof -
  from assms(1) obtain chain as
    where p': "p' = fold (\<lambda>cap p. if cap \<in> set caps then cap_rules args sg net chain as cap p else p) valid_caps p"
    by (rule network_rules_Inr)
  let ?f = "\<lambda>cap p. if cap \<in> set caps then cap_rules args sg net chain as cap p else p"
  have kept: "fst ` set (p_callers q) \<subseteq> fst ` set (p_callers (fold ?f cs q))" if "set cs \<subseteq> set valid_caps" for cs q
    using that by (induction cs arbitrary: q) (force simp: caller_keys_cap)+
  have "fst ` set (net_callers net cap) \<subseteq> fst ` set (p_callers (fold ?f cs q))"
    if "set cs \<subseteq> set valid_caps" "cap \<in> set cs" for cs q
    using that
  proof (induction cs arbitrary: q)
    case (Cons c cs)
    show ?case
    proof (cases "cap = c")
      case True
      have "fst ` set (net_callers net cap) \<subseteq> fst ` set (p_callers (?f cap q))"
        using assms(2,3) by (simp add: caller_keys_cap)
      with kept [of cs "?f cap q"] Cons(2) True show ?thesis by (simp only: fold_simps) auto
    next
      case False
      with Cons show ?thesis by (simp only: fold_simps) auto
    qed
  qed simp
  from this [OF order.refl assms(3)] show ?thesis by (simp only: p')
qed

lemma loop_binds:
  assumes "networks_loop args caps sg table nets p = Inr p'" "net \<in> set nets" "cap \<in> set caps" "cap \<in> set valid_caps"
  shows "fst ` set (net_callers net cap) \<subseteq> fst ` set (p_callers p')"
  using assms(1,2)
proof (induction nets arbitrary: p)
  case (Cons n nets)
  from Cons(2) obtain spec q where q: "network_rules args caps sg n spec p = Inr q"
    "networks_loop args caps sg table nets q = Inr p'" by (rule networks_loop_Cons)
  show ?case
  proof (cases "net \<in> set nets")
    case True
    with Cons(1) q(2) show ?thesis by blast
  next
    case False
    with Cons(3) have n: "n = net" by simp
    show ?thesis
      by (rule loop_preserves [OF q(2), where P = "\<lambda>q. fst ` set (net_callers net cap) \<subseteq> fst ` set (p_callers q)"])
        (use network_binds [OF q(1) assms(3,4)] n caller_keys_cap in auto)
  qed
qed simp


lemma caller_prefixes_free: "prefix_free (concat (map (\<lambda>cap. map fst (caller_rows cap)) valid_caps))"
  by (simp add: prefix_free_def valid_caps_def caller_rows_def)

lemma caller_rows_unique:
  assumes "cap \<in> set valid_caps" "cap' \<in> set valid_caps" "(n, path) \<in> set (caller_rows cap)" "(n, path') \<in> set (caller_rows cap')"
  shows "path = path'"
proof -
  let ?rows = "concat (map caller_rows valid_caps)"
  have "distinct (map fst ?rows)" by (simp add: valid_caps_def caller_rows_def)
  moreover have "(n, path) \<in> set ?rows" "(n, path') \<in> set ?rows" using assms by auto
  ultimately show ?thesis by (metis eq_key_imp_eq_value)
qed

lemma bound_row:
  assumes "callers_inv p" "cap \<in> set valid_caps" "(n, path) \<in> set (caller_rows cap)" "n @ net \<in> fst ` set (p_callers p)"
  shows "map_of (p_callers p) (n @ net) = Some \<lparr>cb_policy_path = path @ net, cb_capability_id = None\<rparr>"
proof -
  from assms(4) obtain b where b: "map_of (p_callers p) (n @ net) = Some b"
    by (cases "map_of (p_callers p) (n @ net)") (auto simp: map_of_eq_None_iff)
  with assms(1) obtain cap' net' where c: "cap' \<in> set valid_caps" "(n @ net, b) \<in> set (net_callers net' cap')"
    unfolding callers_inv_def by (blast dest: map_of_SomeD)
  from c(2) obtain m path' where m: "(m, path') \<in> set (caller_rows cap')" "m @ net' = n @ net"
      "b = \<lparr>cb_policy_path = path' @ net', cb_capability_id = None\<rparr>"
    unfolding net_callers_def by auto
  have "m = n \<and> net' = net"
  proof (rule prefix_freeD [OF caller_prefixes_free _ _ m(2)])
    show "m \<in> set (concat (map (\<lambda>cap. map fst (caller_rows cap)) valid_caps))"
      "n \<in> set (concat (map (\<lambda>cap. map fst (caller_rows cap)) valid_caps))"
      using m(1) c(1) assms(2,3) by force+
  qed
  with caller_rows_unique [OF c(1) assms(2), of m path' path] m assms(3) b show ?thesis by simp
qed




subsection \<open>Merging\<close>

lemma map_of_dict_union: "map_of (dict_union cur new) = map_of cur ++ map_of (rev new)"
proof (induction new arbitrary: cur)
  case Nil
  then show ?case by (simp add: dict_union_def)
next
  case (Cons x new)
  obtain k v where "x = (k, v)" by (cases x)
  with Cons [of "AList.update k v cur"] show ?case
    by (simp add: dict_union_def update_conv' map_add_def fun_eq_iff split: option.splits)
qed

definition section_items :: "(string \<times> json) list \<Rightarrow> string \<Rightarrow> (string \<times> json) list" where
  "section_items d sect = (case map_of d sect of Some (JObj kv) \<Rightarrow> kv | _ \<Rightarrow> [])"

lemma merge_section_other: "k \<noteq> sect \<Longrightarrow> map_of (merge_section new d sect) k = map_of d k"
  by (simp add: merge_section_def update_conv' split: option.splits json.splits list.splits)

lemma merge_section_same:
  "map_of d sect = Some (JObj cur) \<Longrightarrow>
   \<exists>m. map_of (merge_section new d sect) sect = Some (JObj m) \<and> map_of m = map_of cur ++ map_of (rev (section_items new sect))"
  by (simp add: merge_section_def section_items_def update_conv' map_of_dict_union del: rev.simps(2)
      split: option.splits json.splits list.splits)

lemma merge_loop_other: "k \<notin> set sections \<Longrightarrow> map_of (foldl (merge_section new) d sections) k = map_of d k"
  by (induction sections arbitrary: d) (simp_all add: merge_section_other)

lemma merge_loop_same:
  assumes "distinct sections" "sect \<in> set sections" "map_of d sect = Some (JObj cur)"
  shows "\<exists>m. map_of (foldl (merge_section new) d sections) sect = Some (JObj m) \<and>
    map_of m = map_of cur ++ map_of (rev (section_items new sect))"
  using assms
proof (induction sections arbitrary: d)
  case (Cons s sections)
  show ?case
  proof (cases "s = sect")
    case True
    with merge_section_same [OF Cons(4)] Cons(2) merge_loop_other show ?thesis by fastforce
  next
    case False
    with Cons merge_section_other [of sect s new d] show ?thesis by simp
  qed
qed simp

lemma append_new_set: "set (foldl (\<lambda>ss w. if w \<in> set ss then ss else ss @ [w]) ss ws) = set ss \<union> set ws"
  by (induction ws arbitrary: ss) auto

lemma string_items_str: "string_items (Some (JList (map JStr ws))) = ws"
  by (induction ws) (simp_all add: string_items_def json_str_def map_filter_simps)

lemma string_items_None: "string_items None = []"
  by (simp add: string_items_def)

lemma merge_policies_section:
  assumes "sect \<in> set merge_sections" "map_of base sect = Some (JObj cur)"
  shows "\<exists>m. map_of (merge_policies base new) sect = Some (JObj m) \<and> map_of m = map_of cur ++ map_of (rev (section_items new sect))"
proof -
  have sec: "sect \<noteq> ''version''" "sect \<noteq> ''fsp_self_submit''" "distinct merge_sections"
    using assms(1) by (auto simp: merge_sections_def)
  have "map_of (AList.update ''version'' v base) sect = Some (JObj cur)" for v
    using sec(1) assms(2) by (simp add: update_conv')
  from merge_loop_same [OF sec(3) assms(1) this] sec(2) show ?thesis
    by (simp add: merge_policies_def Let_def update_conv')
qed

text \<open>Merging is a union.  A key of the existing policy that is not a merged section survives as it is; a section
  that is a mapping becomes the union of both, the generated entries winning; and the self-submit list holds
  exactly the wallets of both.\<close>

lemma merge_policies_union:
  "(\<forall>k. k \<notin> set (''version'' # ''fsp_self_submit'' # merge_sections) \<longrightarrow> map_of (merge_policies base new) k = map_of base k) \<and>
   (\<forall>sect cur. sect \<in> set merge_sections \<longrightarrow> map_of base sect = Some (JObj cur) \<longrightarrow>
      (\<exists>m. map_of (merge_policies base new) sect = Some (JObj m) \<and> map_of m = map_of cur ++ map_of (rev (section_items new sect)))) \<and>
   set (string_items (map_of (merge_policies base new) ''fsp_self_submit'')) =
     set (string_items (map_of base ''fsp_self_submit'')) \<union> set (string_items (map_of new ''fsp_self_submit''))"
proof (intro conjI allI impI)
  fix k assume "k \<notin> set (''version'' # ''fsp_self_submit'' # merge_sections)"
  then show "map_of (merge_policies base new) k = map_of base k"
    by (simp add: merge_policies_def Let_def update_conv' merge_loop_other)
next
  fix sect cur assume "sect \<in> set merge_sections" "map_of base sect = Some (JObj cur)"
  then show "\<exists>m. map_of (merge_policies base new) sect = Some (JObj m) \<and>
      map_of m = map_of cur ++ map_of (rev (section_items new sect))"
    by (rule merge_policies_section)
next
  let ?ss = "string_items (map_of base ''fsp_self_submit'')" and ?new = "string_items (map_of new ''fsp_self_submit'')"
  let ?all = "foldl (\<lambda>ss w. if w \<in> set ss then ss else ss @ [w]) ?ss ?new"
  have "''fsp_self_submit'' \<notin> set merge_sections" by (simp add: merge_sections_def)
  then have old: "map_of (foldl (merge_section new) (AList.update ''version'' v base) merge_sections) ''fsp_self_submit'' =
      map_of base ''fsp_self_submit''" for v
    by (simp add: merge_loop_other update_conv')
  show "set (string_items (map_of (merge_policies base new) ''fsp_self_submit'')) = set ?ss \<union> set ?new"
  proof (cases "?all = []")
    case True
    with append_new_set [of ?ss ?new] show ?thesis by (simp add: merge_policies_def Let_def old)
  next
    case False
    then have "map_of (merge_policies base new) ''fsp_self_submit'' = Some (JList (map JStr ?all))"
      by (simp add: merge_policies_def Let_def old update_conv')
    then show ?thesis by (simp only: string_items_str append_new_set)
  qed
qed


text \<open>With one sender wallet per network, every key the generator emits ends in a dash and a network.\<close>

definition policy_keys :: "policy \<Rightarrow> string set" where
  "policy_keys p = fst ` set (p_callers p) \<union> fst ` set (p_wallets p) \<union> fst ` set (p_permissions p) \<union>
     fst ` set (p_wallet_constraints p) \<union> fst ` set (p_fsp_permissions p)"

definition of_network :: "string set \<Rightarrow> string \<Rightarrow> bool" where
  "of_network nets k \<longleftrightarrow> (\<exists>net \<in> nets. suffix (CHR ''-'' # net) k)"

lemma suffix_dash: "suffix (CHR ''-'' # net) (c # s) \<longleftrightarrow> c # s = CHR ''-'' # net \<or> suffix (CHR ''-'' # net) s"
  by (auto simp: suffix_Cons)

lemma rows_suffixed:
  assumes "cap \<in> set valid_caps" "ia_sender_mode args = ''per-network''"
  shows "\<forall>k \<in> fst ` set (net_callers net cap) \<union> fst ` set (wallet_rows args net cap) \<union> set (register_wallets net) \<union>
      fst ` set (perm_rows args sg net chain as cap) \<union> snd ` set (wallet_rows args net cap) \<union> fst ` set (fsp_rows args net chain cap).
    suffix (CHR ''-'' # net) k"
proof -
  have "cap = ''claim'' \<or> cap = ''fsp'' \<or> cap = ''fsp-voter'' \<or> cap = ''fsp-register''"
    using assms(1) by (simp add: valid_caps_def)
  with assms(2) show ?thesis
    by (elim disjE) (simp_all add: net_callers_def caller_rows_def wallet_rows_def register_wallets_def perm_rows_def
      fsp_rows_def Let_def sender_wallet_def suffix_dash)
qed

lemma default_wallet_keys: "fst ` set (p_wallets (default_wallet w c q)) = insert w (fst ` set (p_wallets q))"
  using keys_updates [of "[(w, \<lparr>wbd_policy_path = c\<rparr>)]" "p_wallets q"]
  by (cases "map_of (p_wallets q) w") (auto simp: default_wallet_def add_wallet_def dest!: map_of_SomeD intro: rev_image_eqI)

lemma cap_wallet_keys:
  assumes "cap \<in> set valid_caps"
  shows "fst ` set (p_wallets (cap_rules args sg net chain as cap p)) \<subseteq>
    fst ` set (wallet_rows args net cap) \<union> set (register_wallets net) \<union> fst ` set (p_wallets p)"
proof (cases "cap = ''fsp-register''")
  case True
  have "fst ` set (p_wallets (cap_rules args sg net chain as ''fsp-register'' p)) =
      set (register_wallets net) \<union> fst ` set (p_wallets p)"
    by (auto simp: cap_rules_def register_rules_def confirm_role_def add_permission_def add_caller_def default_wallet_keys
      register_wallets_def)
  with True show ?thesis by blast
next
  case False
  with cap_names(1) [OF assms, of net p args sg chain as] show ?thesis by (auto simp: wallets_ready_def)
qed

lemma grown_sections: "W' \<subseteq> W \<union> R \<union> w \<Longrightarrow>
    (C \<union> c) \<union> W' \<union> (P \<union> p) \<union> (K \<union> k) \<union> (F \<union> f) \<subseteq> (C \<union> W \<union> R \<union> P \<union> K \<union> F) \<union> (c \<union> w \<union> p \<union> k \<union> f)"
  by blast

lemma one_of_five: "\<exists>T \<in> {a, b, c, d, e, {}}. S = T \<Longrightarrow> S \<subseteq> a \<union> b \<union> c \<union> d \<union> e"
  by blast

lemma generated_keys:
  assumes "generated args networks registry = Inr p" "ia_sender_mode args = ''per-network''" "k \<in> policy_keys p"
  shows "of_network (set (given_names (ia_networks args))) k"
proof -
  let ?nets = "given_names (ia_networks args)"
  obtain table sg q where q: "networks_loop args (map py_lower (given_names (ia_capabilities args))) sg table ?nets empty_policy = Inr q"
    and p: "p = q\<lparr>p_fsp_self_submit := rev (remdups (rev (p_fsp_self_submit q)))\<rparr>"
    using assms(1) by (rule generatedD)
  have "\<forall>k \<in> policy_keys q. of_network (set ?nets) k"
  proof (rule loop_preserves [OF q, where P = "\<lambda>q. \<forall>k \<in> policy_keys q. of_network (set ?nets) k"])
    show "\<forall>k \<in> policy_keys empty_policy. of_network (set ?nets) k" by (simp add: policy_keys_def empty_policy_def)
  next
    fix net chain as cap r
    assume step: "net \<in> set ?nets" "cap \<in> set valid_caps" "\<forall>k \<in> policy_keys r. of_network (set ?nets) k"
    have constraints: "fst ` set (constraint_rows args net cap) = snd ` set (wallet_rows args net cap)"
      by (force simp: constraint_rows_def)
    let ?new = "fst ` set (net_callers net cap) \<union> fst ` set (wallet_rows args net cap) \<union> set (register_wallets net) \<union>
      fst ` set (perm_rows args sg net chain as cap) \<union> snd ` set (wallet_rows args net cap) \<union> fst ` set (fsp_rows args net chain cap)"
    have "policy_keys (cap_rules args sg net chain as cap r) \<subseteq> ?new \<union> policy_keys r"
      unfolding policy_keys_def cap_sections(1-4) [OF step(2)] keys_updates constraints
      by (rule grown_sections) (rule cap_wallet_keys [OF step(2)])
    moreover have "\<forall>k \<in> ?new. of_network (set ?nets) k"
      using rows_suffixed [OF step(2) assms(2), of net sg chain as] step(1) unfolding of_network_def by (metis (no_types))
    ultimately show "\<forall>k \<in> policy_keys (cap_rules args sg net chain as cap r). of_network (set ?nets) k"
      using step(3) by (meson UnE subsetD)
  qed
  with assms(3) show ?thesis by (simp add: p policy_keys_def)
qed

lemma keys_map: "fst ` set (map (\<lambda>(k, b). (k, f b)) xs) = fst ` set xs"
  by (force simp: image_image)

lemma dict_section:
  "sect \<in> set merge_sections \<Longrightarrow> \<exists>S \<in> {fst ` set (p_callers p), fst ` set (p_wallets p), fst ` set (p_permissions p),
     fst ` set (p_wallet_constraints p), fst ` set (p_fsp_permissions p), {}}. fst ` set (section_items (policy_dict p) sect) = S"
  unfolding merge_sections_def list.set insert_iff empty_iff
  by (elim disjE) (simp_all add: section_items_def policy_dict_def keys_map del: set_map)

lemma dict_keys: "sect \<in> set merge_sections \<Longrightarrow> fst ` set (section_items (policy_dict p) sect) \<subseteq> policy_keys p"
  unfolding policy_keys_def by (rule one_of_five) (rule dict_section)




subsection \<open>The register capability alone\<close>

text \<open>The confirm roles bind the voter wallets to constraints only the voter rules add.\<close>

lemma register_alone_rejected:
  "check_consistency (register_rules sg identity rate net chain manager empty_policy) callers wallets reg \<noteq> []"
proof -
  let ?p = "register_rules sg identity rate net chain manager empty_policy"
  have "(''fsp-submit-'' @ net, \<lparr>wbd_policy_path = ''wc/fsp-submit-'' @ net\<rparr>) \<in> set (p_wallets ?p)" "p_wallet_constraints ?p = []"
    by (simp_all add: register_rules_def confirm_role_def default_wallet_def section_defs empty_policy_def)
  then have "\<not> policy_consistent ?p callers wallets reg" unfolding policy_consistent_def by force
  then show ?thesis by (simp add: check_consistency_Nil)
qed


subsection \<open>The shared sender\<close>

text \<open>With one shared sender, a network's rules write a key of no network, so the last network's rate is the rate
  of the sender everywhere.\<close>

lemma shared_sender_overwritten:
  "map_of (p_wallet_constraints (fsp_rules sg True rate net chain fsm p)) ''wc/fsp-sender'' =
     Some \<lparr>wc_max_aggregate_value_wei_per_day = Some ''0'', wc_rate = rate_of rate\<rparr>"
  by (simp add: fsp_rules_def Let_def section_defs update_conv')

end
