(* ===== verification/Laws.thy ===== *)
theory Laws
  imports Session
begin

section \<open>Laws every operation obeys\<close>

text \<open>
  A law is a preorder on states; an operation obeys it when it relates the state before to the state
  after, whether it returns or raises.  Obedience is closed under the ways the code composes operations,
  so a law of the repository operations is one of the sessions, and then of the endpoints, built from
  them.  The interface \<open>transition_law\<close> is the preorder, \<open>session_law\<close> the law a session obeys when its
  database does, with commit and rollback.
\<close>

definition obeys :: "('s \<Rightarrow> 's \<Rightarrow> bool) \<Rightarrow> ('s, 'a) op \<Rightarrow> bool" where
  "obeys law m \<longleftrightarrow> (\<forall>s. law s (snd (m s)))"

lemma obeysD: "obeys law m \<Longrightarrow> m s = (r, t) \<Longrightarrow> law s t"
  by (auto simp: obeys_def dest!: spec [of _ s])

locale transition_law =
  fixes law :: "'s \<Rightarrow> 's \<Rightarrow> bool"
  assumes law_refl: "law s s"
    and law_trans: "law s t \<Longrightarrow> law t u \<Longrightarrow> law s u"
begin

lemma obeys_basic: "obeys law (ret a)" "obeys law (raise e)" "obeys law (getM f)" "obeys law (ofSum r)"
  by (simp_all add: obeys_def law_refl)

lemma obeys_read: "(\<And>s. snd (m s) = s) \<Longrightarrow> obeys law m"
  by (simp add: obeys_def law_refl)

lemma obeys_bind:
  assumes "obeys law m" "\<And>x. obeys law (f x)"
  shows "obeys law (bindM m f)"
  unfolding obeys_def
proof
  fix s
  obtain r t where m: "m s = (r, t)" by fastforce
  then have "law s t" by (rule obeysD [OF assms(1)])
  moreover have "law t (snd (f a t))" for a using assms(2) [of a] by (simp add: obeys_def)
  ultimately show "law s (snd (bindM m f s))"
    using m by (cases r) (auto intro: law_trans)
qed

lemma obeys_then: "obeys law m \<Longrightarrow> obeys law n \<Longrightarrow> obeys law (thenM m n)"
  by (simp add: thenM_def obeys_bind)

lemma obeys_catch:
  assumes "obeys law m" "\<And>e. obeys law (h e)"
  shows "obeys law (catchM m h)"
  unfolding obeys_def
proof
  fix s
  obtain r t where m: "m s = (r, t)" by fastforce
  then have "law s t" by (rule obeysD [OF assms(1)])
  moreover have "law t (snd (h e t))" for e using assms(2) [of e] by (simp add: obeys_def)
  ultimately show "law s (snd (catchM m h s))"
    using m by (cases r) (auto intro: law_trans)
qed

lemma obeys_cases:
  "(b \<Longrightarrow> obeys law m) \<Longrightarrow> (\<not> b \<Longrightarrow> obeys law n) \<Longrightarrow> obeys law (if b then m else n)"
  "(p = None \<Longrightarrow> obeys law m) \<Longrightarrow> (\<And>x. p = Some x \<Longrightarrow> obeys law (f x)) \<Longrightarrow> obeys law (case p of None \<Rightarrow> m | Some x \<Rightarrow> f x)"
  "(\<And>x. obeys law (g x)) \<Longrightarrow> (\<And>y. obeys law (k y)) \<Longrightarrow> obeys law (case q of Inl x \<Rightarrow> g x | Inr y \<Rightarrow> k y)"
  "(\<And>x y. z = (x, y) \<Longrightarrow> obeys law (h x y)) \<Longrightarrow> obeys law (case z of (x, y) \<Rightarrow> h x y)"
  by (simp_all split: option.split sum.split prod.split)

lemmas obeys_rules = obeys_basic obeys_bind obeys_then obeys_catch obeys_cases

end

subsection \<open>Sessions\<close>

definition session_law :: "(db \<Rightarrow> db \<Rightarrow> bool) \<Rightarrow> session \<Rightarrow> session \<Rightarrow> bool" where
  "session_law law s t \<longleftrightarrow> law (durable s) (work s) \<longrightarrow>
     law (work s) (work t) \<and> law (durable s) (durable t) \<and> law (durable t) (work t)"

locale database_law = transition_law law for law :: "db \<Rightarrow> db \<Rightarrow> bool"

sublocale database_law \<subseteq> session: transition_law "session_law law"
proof
  fix s t u
  show "session_law law s s" by (simp add: session_law_def law_refl)
  show "session_law law s t \<Longrightarrow> session_law law t u \<Longrightarrow> session_law law s u"
    unfolding session_law_def by (blast intro: law_trans)
qed

lemma on_state:
  "snd (on_wallets m1 s) = s\<lparr>work := (work s)\<lparr>db_wallets := snd (m1 (db_wallets (work s)))\<rparr>\<rparr>"
  "snd (on_callers m2 s) = s\<lparr>work := (work s)\<lparr>db_callers := snd (m2 (db_callers (work s)))\<rparr>\<rparr>"
  "snd (on_txs m3 s) = s\<lparr>work := (work s)\<lparr>db_txs := snd (m3 (db_txs (work s)))\<rparr>\<rparr>"
  "snd (on_nonces m4 s) = s\<lparr>work := (work s)\<lparr>db_nonces := snd (m4 (db_nonces (work s)))\<rparr>\<rparr>"
  "snd (on_rates m5 s) = s\<lparr>work := (work s)\<lparr>db_rates := snd (m5 (db_rates (work s)))\<rparr>\<rparr>"
  "snd (on_audit m6 s) = s\<lparr>work := (work s)\<lparr>db_audit := snd (m6 (db_audit (work s)))\<rparr>\<rparr>"
  by (simp_all add: on_run put_defs split: prod.split)

context database_law
begin

lemma session_work:
  assumes "\<And>d. law d (f d)"
  shows "session_law law s (s\<lparr>work := f (work s)\<rparr>)"
  using assms by (auto simp: session_law_def law_refl intro: law_trans)

lemma obeys_on:
  "(\<And>d. law d (d\<lparr>db_wallets := snd (m1 (db_wallets d))\<rparr>)) \<Longrightarrow> obeys (session_law law) (on_wallets m1)"
  "(\<And>d. law d (d\<lparr>db_callers := snd (m2 (db_callers d))\<rparr>)) \<Longrightarrow> obeys (session_law law) (on_callers m2)"
  "(\<And>d. law d (d\<lparr>db_txs := snd (m3 (db_txs d))\<rparr>)) \<Longrightarrow> obeys (session_law law) (on_txs m3)"
  "(\<And>d. law d (d\<lparr>db_nonces := snd (m4 (db_nonces d))\<rparr>)) \<Longrightarrow> obeys (session_law law) (on_nonces m4)"
  "(\<And>d. law d (d\<lparr>db_rates := snd (m5 (db_rates d))\<rparr>)) \<Longrightarrow> obeys (session_law law) (on_rates m5)"
  "(\<And>d. law d (d\<lparr>db_audit := snd (m6 (db_audit d))\<rparr>)) \<Longrightarrow> obeys (session_law law) (on_audit m6)"
proof -
  show "obeys (session_law law) (on_wallets m1)" if "\<And>d. law d (d\<lparr>db_wallets := snd (m1 (db_wallets d))\<rparr>)"
    using session_work [where f = "\<lambda>d. d\<lparr>db_wallets := snd (m1 (db_wallets d))\<rparr>", OF that] by (simp add: obeys_def on_state)
  show "obeys (session_law law) (on_callers m2)" if "\<And>d. law d (d\<lparr>db_callers := snd (m2 (db_callers d))\<rparr>)"
    using session_work [where f = "\<lambda>d. d\<lparr>db_callers := snd (m2 (db_callers d))\<rparr>", OF that] by (simp add: obeys_def on_state)
  show "obeys (session_law law) (on_txs m3)" if "\<And>d. law d (d\<lparr>db_txs := snd (m3 (db_txs d))\<rparr>)"
    using session_work [where f = "\<lambda>d. d\<lparr>db_txs := snd (m3 (db_txs d))\<rparr>", OF that] by (simp add: obeys_def on_state)
  show "obeys (session_law law) (on_nonces m4)" if "\<And>d. law d (d\<lparr>db_nonces := snd (m4 (db_nonces d))\<rparr>)"
    using session_work [where f = "\<lambda>d. d\<lparr>db_nonces := snd (m4 (db_nonces d))\<rparr>", OF that] by (simp add: obeys_def on_state)
  show "obeys (session_law law) (on_rates m5)" if "\<And>d. law d (d\<lparr>db_rates := snd (m5 (db_rates d))\<rparr>)"
    using session_work [where f = "\<lambda>d. d\<lparr>db_rates := snd (m5 (db_rates d))\<rparr>", OF that] by (simp add: obeys_def on_state)
  show "obeys (session_law law) (on_audit m6)" if "\<And>d. law d (d\<lparr>db_audit := snd (m6 (db_audit d))\<rparr>)"
    using session_work [where f = "\<lambda>d. d\<lparr>db_audit := snd (m6 (db_audit d))\<rparr>", OF that] by (simp add: obeys_def on_state)
qed

lemma obeys_on_read:
  "(\<And>t. snd (m1 t) = t) \<Longrightarrow> obeys (session_law law) (on_wallets m1)"
  "(\<And>t. snd (m2 t) = t) \<Longrightarrow> obeys (session_law law) (on_callers m2)"
  "(\<And>t. snd (m3 t) = t) \<Longrightarrow> obeys (session_law law) (on_txs m3)"
  "(\<And>t. snd (m4 t) = t) \<Longrightarrow> obeys (session_law law) (on_nonces m4)"
  "(\<And>t. snd (m6 t) = t) \<Longrightarrow> obeys (session_law law) (on_audit m6)"
  by (simp_all add: obeys_on law_refl)

text \<open>A statement whose argument was read from the database just before.\<close>

lemma obeys_on_get:
  "(\<And>d. law d (d\<lparr>db_txs := snd (m3 (g3 d) (db_txs d))\<rparr>)) \<Longrightarrow>
     obeys (session_law law) (bindM (getM (\<lambda>s. g3 (work s))) (\<lambda>x. on_txs (m3 x)))"
  "(\<And>d. law d (d\<lparr>db_nonces := snd (m4 (g4 d) (db_nonces d))\<rparr>)) \<Longrightarrow>
     obeys (session_law law) (bindM (getM (\<lambda>s. g4 (work s))) (\<lambda>x. on_nonces (m4 x)))"
proof -
  show "obeys (session_law law) (bindM (getM (\<lambda>s. g3 (work s))) (\<lambda>x. on_txs (m3 x)))"
    if "\<And>d. law d (d\<lparr>db_txs := snd (m3 (g3 d) (db_txs d))\<rparr>)"
    using session_work [where f = "\<lambda>d. d\<lparr>db_txs := snd (m3 (g3 d) (db_txs d))\<rparr>", OF that]
    by (simp add: obeys_def on_state bindM_run)
  show "obeys (session_law law) (bindM (getM (\<lambda>s. g4 (work s))) (\<lambda>x. on_nonces (m4 x)))"
    if "\<And>d. law d (d\<lparr>db_nonces := snd (m4 (g4 d) (db_nonces d))\<rparr>)"
    using session_work [where f = "\<lambda>d. d\<lparr>db_nonces := snd (m4 (g4 d) (db_nonces d))\<rparr>", OF that]
    by (simp add: obeys_def on_state bindM_run)
qed

lemma obeys_commit: "obeys (session_law law) audit_commit"
  by (simp add: obeys_def session_law_def law_refl)

lemma obeys_scope:
  assumes "obeys (session_law law) body"
  shows "obeys law (session_scope ro body)"
  unfolding obeys_def
proof
  fix d
  obtain r s where body: "body (open_session d) = (r, s)" by fastforce
  then have "session_law law (open_session d) s" by (rule obeysD [OF assms])
  then have "law d (work s)" "law d (durable s)" by (simp_all add: session_law_def law_refl)
  with body show "law d (snd (session_scope ro body d))"
    by (cases r) (simp_all add: session_scope_def)
qed

lemma obeys_sealed: "obeys (session_law law) body \<Longrightarrow> obeys law (sealed_scope vault body)"
  by (simp add: sealed_scope_def obeys_scope obeys_basic)

end

end
