(* ===== verification/System_Laws.thy ===== *)
theory System_Laws
  imports Laws Sign_Transaction Tx_Reports Nonce_Admin Accounts_Admin Sign_Fsp Startup
begin

section \<open>Laws of the endpoints\<close>

text \<open>
  The interfaces \<open>account_laws\<close> and \<open>repository_laws\<close>: a law on databases that the writing operations of the
  repositories obey, the first without the transaction and nonce tables.  Their lemmas carry the law through
  the use cases and their sessions, so that every start of the daemon and every request to it obeys it,
  answered or refused.
\<close>

locale account_laws = database_law law + rates: transition_law rate_law
  for law :: "db \<Rightarrow> db \<Rightarrow> bool" and rate_law :: "rate_db \<Rightarrow> rate_db \<Rightarrow> bool" +
  assumes lift_rates: "rate_law (db_rates d) t \<Longrightarrow> law d (d\<lparr>db_rates := t\<rparr>)"
    and caller_check: "obeys rate_law (check_and_increment_caller c w k m rate now)"
    and wallet_check: "obeys rate_law (check_and_increment_wallet w con v now)"
    and fsp_check: "obeys rate_law (check_and_increment_fsp_caller c w m rate now)"
    and caller_release: "obeys rate_law (release_caller c w k m rate now)"
    and fsp_release: "obeys rate_law (release_fsp_caller c w m rate now)"
    and wallet_release: "obeys rate_law (release_wallet w con now)"
    and stale_pruned: "obeys rate_law (delete_stale before)"
    and wallet_created: "law d (d\<lparr>db_wallets := snd (wallet_create now name addr ciph master path (db_wallets d))\<rparr>)"
    and caller_created: "law d (d\<lparr>db_callers := snd (caller_create now name key_hash pre path rep (db_callers d))\<rparr>)"
    and caller_revoked: "law d (d\<lparr>db_callers := snd (caller_revoke now name (db_callers d))\<rparr>)"
    and audit_appended: "law d (d\<lparr>db_audit := snd (append_row now act dc who req rs out ts (db_audit d))\<rparr>)"
begin

lemma obeys_rates: "obeys rate_law m \<Longrightarrow> obeys (session_law law) (on_rates m)"
  by (rule obeys_on) (simp add: obeys_def lift_rates)

lemma obeys_account_writes:
  "obeys (session_law law) (on_wallets (wallet_create now n a p v pp))"
  "obeys (session_law law) (on_callers (caller_create now n h p pp rep))"
  "obeys (session_law law) (on_callers (caller_revoke now n))"
  "obeys (session_law law) (on_audit (append_row now a dc c' q rs u' ts))"
  by (rule obeys_on, rule wallet_created caller_created caller_revoked audit_appended)+

lemma obeys_queries:
  "obeys (session_law law) (on_wallets (wallet_get_by_name n b))"
  "obeys (session_law law) (on_txs (get_by_idempotency_key c k))"
  "obeys (session_law law) (on_txs (list_hashes_by_tx i))"
  "obeys (session_law law) (on_txs (has_stale_reservation w ch t))"
  "obeys (session_law law) (on_txs (get_by_id i True))"
  "obeys (session_law law) (on_txs (latest_attempt i))"
  "obeys (session_law law) (on_txs (list_attempts i))"
  "obeys (session_law law) (on_txs (count_in_flight w ch))"
  "obeys (session_law law) (on_nonces (get_nonce w ch True))"
  "obeys (session_law law) (on_audit (find_sign_transaction_seq i))"
  by (rule obeys_on_read;
      simp add: wallet_get_by_name_def get_by_idempotency_key_def list_hashes_by_tx_def
        has_stale_reservation_def get_by_id_def latest_attempt_def list_attempts_def get_nonce_def
        count_in_flight_def find_sign_transaction_seq_def bindM_run split: option.split)+

lemma obeys_audit:
  "obeys (session_law law) (json_audit ck a dc n q r u)"
  "obeys (session_law law) (json_refuse ck a dc n q rs u e)"
  "obeys (session_law law) (sign_audit ck rq c dc r v)"
  "obeys (session_law law) (refuse ck rq c dc rs v e)"
  by (simp_all add: json_audit_def json_refuse_def sign_audit_def refuse_def obeys_account_writes
      obeys_commit session.obeys_then session.obeys_basic)

lemmas obeys_steps = obeys_rates obeys_account_writes obeys_queries obeys_audit obeys_commit
  session.obeys_rules

lemmas rate_steps = caller_check wallet_check fsp_check caller_release fsp_release wallet_release
  rates.obeys_rules

subsection \<open>The policy gates\<close>

lemma obeys_gate:
  "obeys rate_law (gate lib policy registry c w rq now)"
  "obeys rate_law (release_rate_after_failure policy allow c w rq now)"
proof -
  have "obeys rate_law (rates_stage policy c w wn k m rate lim rs v now d)" for wn k m rate lim rs v d
    unfolding rates_stage_def Let_def by (intro rate_steps)
  then have "obeys rate_law (evaluate lib policy registry c w rq now)"
    unfolding evaluate_def evaluate_inner_def evaluate_abi_def evaluate_native_def Let_def
    by (intro rate_steps; (simp split: stage.split add: rates.obeys_basic)?)
  then show "obeys rate_law (gate lib policy registry c w rq now)"
    unfolding gate_def by (intro rate_steps; (simp split: decision.split add: rates.obeys_basic)?)
  show "obeys rate_law (release_rate_after_failure policy allow c w rq now)"
    unfolding release_rate_after_failure_def by (intro rate_steps)
qed

lemma obeys_fsp_gate:
  "obeys rate_law (fsp_gate policy c fq now)" "obeys rate_law (release_fsp_rate_after_failure fd now)"
proof -
  have "obeys rate_law (evaluate_fsp policy c fq now)"
    unfolding evaluate_fsp_def by (intro rate_steps)
  then show "obeys rate_law (fsp_gate policy c fq now)"
    unfolding fsp_gate_def by (intro rate_steps; (simp split: fsp_decision.split add: rates.obeys_basic)?)
  show "obeys rate_law (release_fsp_rate_after_failure fd now)"
    unfolding release_fsp_rate_after_failure_def by (intro rate_steps)
qed

subsection \<open>The use cases\<close>

lemma obeys_signer:
  "obeys (session_law law) (signer_address n)" "obeys (session_law law) (signer_sign_transaction lib n td)"
  "obeys (session_law law) (sign_fsp_eip191 flib n h)"
  unfolding signer_address_def signer_wallet_def signer_sign_transaction_def sign_fsp_eip191_def
  by (intro obeys_steps)+

lemma obeys_fsp: "obeys (session_law law) (sign_fsp_message env ck fq c)"
proof -
  have "obeys (session_law law) (fsp_address_stage fq)" "obeys (session_law law) (fsp_gate_stage policy ck fq c)"
    "obeys (session_law law) (fsp_build_stage lib ck fq c allow)"
    "obeys (session_law law) (fsp_sign_stage slib ck fq c allow m)" for policy lib allow slib m
    unfolding fsp_address_stage_def fsp_gate_stage_def fsp_build_stage_def fsp_sign_stage_def fsp_refuse_def
    by (intro obeys_steps obeys_signer obeys_fsp_gate; (simp split: exn.split add: obeys_steps obeys_fsp_gate)?)+
  then show ?thesis unfolding sign_fsp_message_def by (intro obeys_steps)
qed

lemma obeys_accounts:
  "obeys (session_law law) (create_caller argon2_hash rnd ck cr)" "obeys (session_law law) (revoke_caller ck name)"
  "obeys (session_law law) (create_wallet lib account seal_text ck name path)"
  "obeys (session_law law) (import_wallet lib uid shredded ck ir file)"
proof -
  show "obeys (session_law law) (create_caller argon2_hash rnd ck cr)" "obeys (session_law law) (revoke_caller ck name)"
    "obeys (session_law law) (create_wallet lib account seal_text ck name path)"
    unfolding create_caller_def revoke_caller_def create_wallet_def signer_create_wallet_def
    by (intro obeys_steps; (simp split: exn.split add: obeys_steps)?)+
  have "obeys (session_law law) (import_checks uid ck ir file)" "obeys (session_law law) (import_stage lib ck ir key)" for key
    unfolding import_checks_def import_stage_def signer_import_wallet_def import_refuse_def Let_def
    by (intro obeys_steps; (simp split: exn.split add: obeys_steps)?)+
  then show "obeys (session_law law) (import_wallet lib uid shredded ck ir file)"
    unfolding import_wallet_def by (intro obeys_steps)
qed

subsection \<open>A start\<close>

lemma obeys_start: "obeys law (startup_policy_load env ck)" "obeys law (lifespan lock_disabled path_set locked env ck)"
proof -
  have errors: "obeys (session_law law) (live_errors policy registry)" for policy registry
    by (rule session.obeys_read) (simp add: live_errors_run)
  have session: "obeys (session_law law) (start_session env ck policy registry)" for policy registry
    unfolding start_session_def load_audit_def prune_rates_def by (intro obeys_steps errors stale_pruned)
  show start: "obeys law (startup_policy_load env ck)"
    unfolding startup_policy_load_def
    by (intro obeys_rules obeys_scope session; (simp split: load_failure.split add: obeys_basic)?)
  show "obeys law (lifespan lock_disabled path_set locked env ck)"
    unfolding lifespan_def by (intro obeys_rules start)
qed

subsection \<open>The endpoints\<close>

lemma obeys_authenticate: "obeys law (authenticate verifies authorization)"
proof -
  have "snd (on_callers (require_caller verifies authorization) s) = s" for s
    by (simp add: on_state require_caller_state)
  then show ?thesis unfolding authenticate_def by (intro obeys_scope session.obeys_read)
qed

lemma obeys_guards:
  "(\<And>c. obeys law (handler c)) \<Longrightarrow> obeys law (guarded verifies authorization valid handler)"
  "obeys law h \<Longrightarrow> obeys law (admin_guarded expected authorization valid h)"
  unfolding guarded_def admin_guarded_def require_admin_def
  by (intro obeys_rules obeys_authenticate; simp)+

lemma obeys_account_endpoints:
  "obeys law (post_sign_fsp_message fenv verifies vault ck authorization fb)"
  "obeys law (post_callers expected policy argon2_hash rnd vault ck authorization cb)"
  "obeys law (delete_caller expected vault ck authorization name)"
  "obeys law (post_wallets expected policy lib account seal_text vault ck authorization wb)"
  "obeys law (wallets_import lib uid shredded vault ck ir file)"
  unfolding post_sign_fsp_message_def fsp_handler_def post_callers_def callers_handler_def delete_caller_def
    post_wallets_def wallets_handler_def wallets_import_def
  by (intro obeys_guards obeys_rules obeys_sealed obeys_authenticate obeys_fsp obeys_accounts)+

end

subsection \<open>Transactions and nonces\<close>

text \<open>A transaction is inserted under the foreign keys of the moment, a nonce row under its wallet's.\<close>

locale repository_laws = account_laws +
  assumes value_commit: "obeys rate_law (add_committed_value w v now)"
    and nonce_reserved: "law d (d\<lparr>db_nonces := snd (reserve_next w ch (db_nonces d))\<rparr>)"
    and nonce_released: "law d (d\<lparr>db_nonces := snd (release_if_unused w ch n (db_nonces d))\<rparr>)"
    and nonce_confirmed: "law d (d\<lparr>db_nonces := snd (mark_confirmed w ch n (db_nonces d))\<rparr>)"
    and nonce_set: "law d (d\<lparr>db_nonces := snd (set_next_nonce w ch n (db_nonces d))\<rparr>)"
    and nonce_seeded: "law d (d\<lparr>db_nonces :=
      snd (init_for_wallet (find_wallet w (db_wallets d) \<noteq> None) now w ch n force (db_nonces d))\<rparr>)"
    and tx_created: "law d (d\<lparr>db_txs :=
      snd (tx_create (tx_fk_ok rq d) now (new_tx_row ck rq n raw) (db_txs d))\<rparr>)"
    and status_updated: "law d (d\<lparr>db_txs := snd (update_status i st conf rcp None sub (db_txs d))\<rparr>)"
    and hash_added: "law d (d\<lparr>db_txs := snd (add_hash now i hex num (db_txs d))\<rparr>)"
    and attempt_added: "law d (d\<lparr>db_txs := snd (add_attempt attempt (db_txs d))\<rparr>)"
begin

lemma obeys_writes:
  "obeys (session_law law) (on_nonces (reserve_next w ch))"
  "obeys (session_law law) (on_nonces (release_if_unused w ch n))"
  "obeys (session_law law) (on_nonces (mark_confirmed w ch n))"
  "obeys (session_law law) (on_nonces (set_next_nonce w ch n))"
  "obeys (session_law law) (on_txs (update_status i s c r None u))"
  "obeys (session_law law) (on_txs (add_hash now i h n'))"
  "obeys (session_law law) (on_txs (add_attempt row))"
  by (rule obeys_on, rule nonce_reserved nonce_released nonce_confirmed nonce_set
      status_updated hash_added attempt_added)+

lemma obeys_inserts:
  "obeys (session_law law) (bindM (getM (\<lambda>s. find_wallet w (db_wallets (work s)) \<noteq> None))
     (\<lambda>ok. on_nonces (init_for_wallet ok now w ch n force)))"
  "obeys (session_law law) (bindM (getM (\<lambda>s. tx_fk_ok rq (work s)))
     (\<lambda>ok. on_txs (tx_create ok now (new_tx_row ck rq n raw))))"
  by (rule obeys_on_get, rule nonce_seeded tx_created)+

lemmas write_steps = obeys_writes obeys_steps

lemma obeys_sign: "obeys (session_law law) (sign_scope env ck rq c)"
proof -
  have stages: "obeys (session_law law) (replay_stage ck rq c)" "obeys (session_law law) (address_stage rq)"
    "obeys (session_law law) (caps_stage st ck rq c)" "obeys (session_law law) (gate_stage lib policy registry ck rq c w)"
    "obeys (session_law law) (release_rate policy ck rq c w allow)"
    "obeys (session_law law) (build_and_sign slib rq nonce)"
    for st lib policy registry w allow slib nonce
    unfolding replay_stage_def address_stage_def caps_stage_def gate_stage_def release_rate_def
      build_and_sign_def Let_def
    by (intro write_steps obeys_signer obeys_gate; (simp split: exn.split add: write_steps)?)+
  have more: "obeys (session_law law) (wedge_stage st policy ck rq c w allow)"
    "obeys (session_law law) (reserve_stage policy ck rq c w allow)"
    "obeys (session_law law) (sign_stage slib policy ck rq c w allow nonce)"
    for st policy w allow slib nonce
    unfolding wedge_stage_def reserve_stage_def sign_stage_def
    by (intro write_steps stages; (simp split: exn.split add: write_steps stages)?)+
  have persist: "persist_stage ck rq c nonce stx = thenM (bindM (getM (\<lambda>s. tx_fk_ok rq (work s)))
      (\<lambda>ok. on_txs (tx_create ok (ck_row ck) (new_tx_row ck rq nonce (''0x'' @ bytes_hex (st_raw_transaction stx))))))
      (m (''0x'' @ bytes_hex (st_hash stx)) (''0x'' @ bytes_hex (st_raw_transaction stx)))"
    if "m = (\<lambda>tx_hash raw. thenM (on_txs (add_hash (ck_hash ck) (ck_uuid ck) tx_hash 1))
      (thenM (on_txs (add_attempt (new_attempt ck rq raw tx_hash)))
        (thenM (sign_audit ck rq c ''approved'' None
            (Some (canonical_json (JObj [(''tx_id'', JStr (ck_uuid ck)), (''hash'', JStr tx_hash),
               (''nonce'', JInt nonce)]))))
          (ret \<lparr>sr_tx_id = ck_uuid ck, sr_hash = tx_hash, sr_signed_raw_tx = raw, sr_nonce = nonce\<rparr>))))" for nonce stx m
    by (simp add: that persist_stage_def Let_def bindM_run thenM_def fun_eq_iff)
  have "obeys (session_law law) (persist_stage ck rq c nonce stx)" for nonce stx
    unfolding persist [OF refl] by (intro write_steps obeys_inserts)
  then show ?thesis
    unfolding sign_scope_def sign_transaction_def sign_fresh_def
    by (intro write_steps stages more)
qed

lemma obeys_reports:
  "obeys law (broadcast_result ck i bb c)" "obeys law (receipt ck i rb c)"
  "obeys law (sign_replacement st lib vault ck i pb c)"
proof -
  have checks: "obeys (session_law law) (ownership_check i c)"
    "obeys (session_law law) (hash_check ck i h a name)"
    "obeys (session_law law) (transition_check ck i cur req intent a name)" for h a name cur req intent
    unfolding ownership_check_def hash_check_def transition_check_def by (intro write_steps)+
  have steps: "obeys (session_law law) (broadcast_step ck i bb c x)" "obeys (session_law law) (receipt_step ck i rb c x)" for x
    unfolding broadcast_step_def receipt_step_def Let_def
    by (cases "bb_outcome bb"; cases "rb_outcome rb"; simp; intro write_steps value_commit rate_steps)+
  show "obeys law (broadcast_result ck i bb c)" "obeys law (receipt ck i rb c)"
    unfolding broadcast_result_def receipt_def by (intro obeys_scope write_steps checks steps)+
  have "obeys (session_law law) (fee_checks st ck i pb c)" "obeys (session_law law) (attempt_number ck i c)"
    "obeys (session_law law) (resign lib ck i pb c x)"
    "obeys (session_law law) (replacement_persist ck i pb c x sq stx)" for x sq stx
    unfolding fee_checks_def attempt_number_def resign_def replacement_persist_def replacement_refuse_def Let_def
    by (intro write_steps obeys_signer)+
  then show "obeys law (sign_replacement st lib vault ck i pb c)"
    unfolding sign_replacement_def replacement_body_op_def by (intro obeys_sealed write_steps checks)
qed

lemma obeys_nonce_admin:
  "obeys (session_law law) (nonce_init ck ib)" "obeys (session_law law) (nonce_sync st ck sb)"
proof -
  have "obeys (session_law law) (existing_guard ck ib x)" "obeys (session_law law) (in_flight_guard ck ib x)"
    "obeys (session_law law) (init_stage ck ib)" for x
    unfolding existing_guard_def in_flight_guard_def init_stage_def init_refuse_def
    by (intro write_steps obeys_inserts; (simp split: exn.split add: write_steps)?)+
  then show "obeys (session_law law) (nonce_init ck ib)"
    unfolding nonce_init_def by (intro write_steps)
  show "obeys (session_law law) (nonce_sync st ck sb)"
    unfolding nonce_sync_def sync_step_def Let_def by (intro write_steps)
qed

lemma obeys_endpoints:
  "obeys law (post_sign_transaction senv verifies vault ck authorization key sb)"
  "obeys law (post_broadcast_result verifies ck authorization i bb)"
  "obeys law (post_receipt verifies ck authorization i rb)"
  "obeys law (post_sign_replacement senv verifies vault ck authorization i pb)"
  "obeys law (post_nonce_init expected vault ck authorization ib)"
  "obeys law (post_nonce_sync expected st vault ck authorization nb)"
  unfolding post_sign_transaction_def sign_handler_def post_broadcast_result_def post_receipt_def
    post_sign_replacement_def post_nonce_init_def post_nonce_sync_def
  by (intro obeys_guards obeys_rules obeys_sealed obeys_authenticate obeys_sign obeys_reports
      obeys_nonce_admin)+

end

end
