(* ===== verification/System.thy ===== *)
theory System
  imports System_Laws Sign_Failures Report_Properties Nonce_Correct Accounts_Correct Fsp_Correct
    "HOL-Library.Sublist"
begin

section \<open>The daemon over its lifetime\<close>

text \<open>
  Requests run one after the other, each a function on the database (\<open>Session\<close>).  The relation \<open>served\<close>
  has one rule per writing endpoint, \<open>reachable\<close> closes it from the empty database.  Two laws of the
  repositories hold along it by the interpretations of \<open>repository_laws\<close>: the tables stay well formed
  with their references intact, and recorded history is never rewritten.  The nonce ledger refines the
  abstract one at the end of the file.
\<close>

subsection \<open>Well-formed databases\<close>

text \<open>The foreign keys.\<close>

definition references_ok :: "db \<Rightarrow> bool" where
  "references_ok d \<longleftrightarrow>
     (\<forall>x \<in> set (transactions (db_txs d)). tx_wallet x \<in> w_name ` set (db_wallets d) \<and>
        tx_caller x \<in> c_name ` set (db_callers d)) \<and>
     (\<forall>k \<in> fst ` set (db_nonces d). fst k \<in> w_name ` set (db_wallets d))"

definition db_wf :: "db \<Rightarrow> bool" where
  "db_wf d \<longleftrightarrow> wallets_wf (db_wallets d) \<and> callers_wf (db_callers d) \<and> tx_wf (db_txs d) \<and>
     distinct (map fst (db_nonces d)) \<and> counters_nonneg (db_rates d) \<and> audit_intact (db_audit d) \<and>
     references_ok d"

definition keeps_wf :: "db \<Rightarrow> db \<Rightarrow> bool" where
  "keeps_wf d d' \<longleftrightarrow> (db_wf d \<longrightarrow> db_wf d')"

definition keeps_counters :: "rate_db \<Rightarrow> rate_db \<Rightarrow> bool" where
  "keeps_counters t t' \<longleftrightarrow> (counters_nonneg t \<longrightarrow> counters_nonneg t')"

lemma obeysI: "(\<And>s r t. m s = (r, t) \<Longrightarrow> law s t) \<Longrightarrow> obeys law m"
  by (simp add: obeys_def) (metis prod.collapse)

lemma wallet_create_grows: "\<exists>ws. snd (wallet_create now n a p v pp t) = t @ ws"
  by (auto simp: wallet_create_run Let_def)

lemma wallet_create_wf: "wallets_wf t \<Longrightarrow> wallets_wf (snd (wallet_create now n a p v pp t))"
  by (auto simp: wallet_create_run Let_def wallets_wf_def find_wallet_None)

lemma caller_create_names: "c_name ` set t \<subseteq> c_name ` set (snd (caller_create now n h p pp rep t))"
proof -
  obtain r t' where run: "caller_create now n h p pp rep t = (r, t')" by fastforce
  then show ?thesis
  proof (cases rule: caller_create_cases)
    case (replaced row e)
    then have "map c_name t' = map c_name t" by simp
    then have "c_name ` set t' = c_name ` set t" by (metis list.set_map)
    with run show ?thesis by simp
  qed (use run in auto)
qed

lemma caller_revoke_names: "map c_name (snd (caller_revoke now n t)) = map c_name t"
  by (auto simp: caller_revoke_run split: option.split)

lemma nonce_keys:
  "map fst (snd (reserve_next w ch t)) = map fst t" "map fst (snd (release_if_unused w ch n t)) = map fst t"
  "map fst (snd (mark_confirmed w ch n t)) = map fst t" "map fst (snd (set_next_nonce w ch n t)) = map fst t"
  by (auto simp: reserve_next_def release_if_unused_def mark_confirmed_def set_next_nonce_def bindM_run
      thenM_def Let_def split: option.split)

lemma init_keys:
  assumes "init_for_wallet ok now w ch n force t = (r, t')" "distinct (map fst t)"
  shows "distinct (map fst t')" "map fst t' = map fst t \<or> (ok \<and> map fst t' = map fst t @ [(w, ch)])"
proof -
  show "map fst t' = map fst t \<or> (ok \<and> map fst t' = map fst t @ [(w, ch)])"
  proof (cases "map_of t (w, ch)")
    case None
    then have "(w, ch) \<notin> set (map fst t)" by (simp add: map_of_eq_None_iff)
    with None assms(1) show ?thesis by (auto simp: init_for_wallet_def Let_def update_keys split: if_splits)
  next
    case (Some r)
    then have "((w, ch), r) \<in> set t" by (rule map_of_SomeD)
    then have "map fst (AList.update (w, ch) v t) = map fst t" for v
      by (simp add: update_keys rev_image_eqI)
    with Some assms(1) show ?thesis by (auto simp: init_for_wallet_def Let_def split: if_splits)
  qed
  show "distinct (map fst t')"
    using assms by (auto simp: init_for_wallet_def Let_def distinct_update split: if_splits option.splits)
qed

lemma init_key_set:
  assumes "init_for_wallet ok now w ch n force t = (r, t')" "distinct (map fst t)" "k \<in> fst ` set t'"
  shows "k \<in> fst ` set t \<or> (ok \<and> k = (w, ch))"
  using init_keys(2) [OF assms(1,2)]
proof
  assume "map fst t' = map fst t"
  from arg_cong [OF this, of set] assms(3) show ?thesis by (simp only: list.set_map simp_thms)
next
  assume ok: "ok \<and> map fst t' = map fst t @ [(w, ch)]"
  then have "set (map fst t') = set (map fst t @ [(w, ch)])" by simp
  then have "fst ` set t' = insert (w, ch) (fst ` set t)" by simp
  with ok assms(3) show ?thesis by blast
qed

lemma references_txs:
  assumes "references_ok d" "(\<lambda>x. (tx_wallet x, tx_caller x)) ` set (transactions t) \<subseteq>
    (\<lambda>x. (tx_wallet x, tx_caller x)) ` set (transactions (db_txs d))"
  shows "references_ok (d\<lparr>db_txs := t\<rparr>)"
  unfolding references_ok_def
proof (rule conjI, rule ballI)
  fix x assume "x \<in> set (transactions (db_txs (d\<lparr>db_txs := t\<rparr>)))"
  then have "(tx_wallet x, tx_caller x) \<in> (\<lambda>x. (tx_wallet x, tx_caller x)) ` set (transactions t)"
    by (intro imageI) simp
  with assms(2) have "(tx_wallet x, tx_caller x) \<in> (\<lambda>x. (tx_wallet x, tx_caller x)) ` set (transactions (db_txs d))"
    by (rule subsetD)
  then obtain y where "(tx_wallet x, tx_caller x) = (tx_wallet y, tx_caller y)" and y: "y \<in> set (transactions (db_txs d))"
    by (rule imageE)
  moreover from y assms(1) have "tx_wallet y \<in> w_name ` set (db_wallets d) \<and> tx_caller y \<in> c_name ` set (db_callers d)"
    unfolding references_ok_def by blast
  ultimately show "tx_wallet x \<in> w_name ` set (db_wallets (d\<lparr>db_txs := t\<rparr>)) \<and>
      tx_caller x \<in> c_name ` set (db_callers (d\<lparr>db_txs := t\<rparr>))"
    by simp
next
  show "\<forall>k \<in> fst ` set (db_nonces (d\<lparr>db_txs := t\<rparr>)). fst k \<in> w_name ` set (db_wallets (d\<lparr>db_txs := t\<rparr>))"
    using assms(1) unfolding references_ok_def by simp
qed

lemma update_status_refs:
  "(\<lambda>x. (tx_wallet x, tx_caller x)) ` set (transactions (snd (update_status i s c r w u t))) =
   (\<lambda>x. (tx_wallet x, tx_caller x)) ` set (transactions t)"
proof -
  have "map (\<lambda>x. (tx_wallet x, tx_caller x)) (transactions (snd (update_status i s c r w u t))) =
      map (\<lambda>x. (tx_wallet x, tx_caller x)) (transactions t)"
    by (simp add: update_status_def)
  from arg_cong [OF this, of set] show ?thesis by (simp only: list.set_map)
qed

interpretation counters_law: transition_law keeps_counters
  by unfold_locales (auto simp: keeps_counters_def)

interpretation wf_law: transition_law keeps_wf
  by unfold_locales (auto simp: keeps_wf_def)

lemma counters_nonneg_stale: "counters_nonneg t \<Longrightarrow> counters_nonneg (snd (delete_stale before t))"
proof -
  obtain n t' where "delete_stale before t = (Inr n, t')"
    "\<forall>i wk ws. rb_count i t' wk ws = (if ws < before then 0 else rb_count i t wk ws)"
    "\<forall>i wk ws. fb_count i t' wk ws = (if ws < before then 0 else fb_count i t wk ws)"
    "\<forall>w wk ws. wbk_count w t' wk ws = (if ws < before then 0 else wbk_count w t wk ws)"
    using delete_stale_spec [of before t] by (elim exE conjE) (rule that)
  then show "counters_nonneg t \<Longrightarrow> counters_nonneg (snd (delete_stale before t))"
    unfolding counters_nonneg_def by simp
qed

lemma counters_kept:
  "obeys keeps_counters (check_and_increment_caller c w k m rate now)"
  "obeys keeps_counters (check_and_increment_wallet w con v now)"
  "obeys keeps_counters (check_and_increment_fsp_caller c w m rate now)"
  "obeys keeps_counters (release_caller c w k m rate now)"
  "obeys keeps_counters (release_fsp_caller c w m rate now)"
  "obeys keeps_counters (release_wallet w con now)"
  "obeys keeps_counters (delete_stale before)"
  unfolding keeps_counters_def
  by (rule obeysI, use counters_nonneg_caller counters_nonneg_wallet counters_nonneg_fsp in metis,
      rule obeysI, use counters_nonneg_caller counters_nonneg_wallet counters_nonneg_fsp in metis,
      rule obeysI, use counters_nonneg_caller counters_nonneg_wallet counters_nonneg_fsp in metis,
      simp_all add: obeys_def counters_nonneg_release counters_nonneg_stale)

lemma commit_counts:
  assumes "add_committed_value w v now t = (r, t')"
  shows "rate_buckets t' = rate_buckets t" "fsp_rate_buckets t' = fsp_rate_buckets t"
    "wbk_count j t' wk ws = wbk_count j t wk ws"
proof -
  show "wbk_count j t' wk ws = wbk_count j t wk ws"
    using assms by (auto simp: add_committed_value_def bindM_run wbk_count_def update_conv split: sum.splits option.splits if_splits)
  show "rate_buckets t' = rate_buckets t" "fsp_rate_buckets t' = fsp_rate_buckets t"
    using assms by (auto simp: add_committed_value_def bindM_run split: sum.splits option.splits)
qed

lemma value_kept: "obeys keeps_counters (add_committed_value w v now)"
proof (rule obeysI)
  fix t r t' assume run: "add_committed_value w v now t = (r, t')"
  show "keeps_counters t t'"
    using commit_counts [OF run] by (simp add: keeps_counters_def counters_nonneg_def counts_cong [of t' t])
qed

interpretation wf_accounts: account_laws keeps_wf keeps_counters
proof unfold_locales
  fix d :: db and t assume "keeps_counters (db_rates d) t"
  then show "keeps_wf d (d\<lparr>db_rates := t\<rparr>)"
    by (simp add: keeps_wf_def keeps_counters_def db_wf_def references_ok_def)
next
  fix d :: db and now name addr ciph master path
  obtain ws where "snd (wallet_create now name addr ciph master path (db_wallets d)) = db_wallets d @ ws"
    using wallet_create_grows by blast
  with wallet_create_wf [of "db_wallets d" now name addr ciph master path]
  show "keeps_wf d (d\<lparr>db_wallets := snd (wallet_create now name addr ciph master path (db_wallets d))\<rparr>)"
    by (auto simp: keeps_wf_def db_wf_def references_ok_def)
next
  fix d :: db and now name key_hash pre path rep
  obtain r t where "caller_create now name key_hash pre path rep (db_callers d) = (r, t)" by fastforce
  with caller_create_names [of "db_callers d" now name key_hash pre path rep]
  show "keeps_wf d (d\<lparr>db_callers := snd (caller_create now name key_hash pre path rep (db_callers d))\<rparr>)"
    by (auto simp: keeps_wf_def db_wf_def references_ok_def intro: caller_create_wf)
next
  fix d :: db and now name
  have "c_name ` set (snd (caller_revoke now name (db_callers d))) = c_name ` set (db_callers d)"
    using arg_cong [OF caller_revoke_names [of now name "db_callers d"], of set] by (simp only: list.set_map)
  then show "keeps_wf d (d\<lparr>db_callers := snd (caller_revoke now name (db_callers d))\<rparr>)"
    using caller_revoke_wf by (simp add: keeps_wf_def db_wf_def references_ok_def)
next
  fix d :: db and now act dc who req rs out ts
  obtain r t where "append_row now act dc who req rs out ts (db_audit d) = (r, t)" by fastforce
  then show "keeps_wf d (d\<lparr>db_audit := snd (append_row now act dc who req rs out ts (db_audit d))\<rparr>)"
    by (auto simp: keeps_wf_def db_wf_def references_ok_def intro: audit_intact_append)
qed (rule counters_kept)+

text \<open>A transaction table that stays well formed and gains no owner.\<close>

lemma keeps_wf_txs:
  assumes "tx_wf (db_txs d) \<Longrightarrow> tx_wf t"
    and "(\<lambda>x. (tx_wallet x, tx_caller x)) ` set (transactions t) \<subseteq>
      (\<lambda>x. (tx_wallet x, tx_caller x)) ` set (transactions (db_txs d))"
  shows "keeps_wf d (d\<lparr>db_txs := t\<rparr>)"
  using assms references_txs [OF _ assms(2)] by (simp add: keeps_wf_def db_wf_def)

lemma keeps_wf_nonces:
  assumes "map fst t = map fst (db_nonces d)"
  shows "keeps_wf d (d\<lparr>db_nonces := t\<rparr>)"
proof -
  have "fst ` set t = fst ` set (db_nonces d)" using arg_cong [OF assms, of set] by (simp only: list.set_map)
  with assms show ?thesis by (simp add: keeps_wf_def db_wf_def references_ok_def)
qed

interpretation wf_repositories: repository_laws keeps_wf keeps_counters
proof unfold_locales
  fix d :: db and w ch n
  show "keeps_wf d (d\<lparr>db_nonces := snd (reserve_next w ch (db_nonces d))\<rparr>)"
    "keeps_wf d (d\<lparr>db_nonces := snd (release_if_unused w ch n (db_nonces d))\<rparr>)"
    "keeps_wf d (d\<lparr>db_nonces := snd (mark_confirmed w ch n (db_nonces d))\<rparr>)"
    "keeps_wf d (d\<lparr>db_nonces := snd (set_next_nonce w ch n (db_nonces d))\<rparr>)"
    by (rule keeps_wf_nonces, rule nonce_keys)+
next
  fix d :: db and w now ch n force
  obtain r t where run: "init_for_wallet (find_wallet w (db_wallets d) \<noteq> None) now w ch n force (db_nonces d) = (r, t)"
    by fastforce
  note keys = init_key_set [OF run] init_keys(1) [OF run]
  have "keeps_wf d (d\<lparr>db_nonces := t\<rparr>)"
    unfolding keeps_wf_def
  proof
    assume wf: "db_wf d"
    then have u: "distinct (map fst (db_nonces d))" and r: "references_ok d" by (simp_all add: db_wf_def)
    have "fst k \<in> w_name ` set (db_wallets d)" if "k \<in> fst ` set t" for k
      using keys(1) [OF u that]
    proof
      assume "find_wallet w (db_wallets d) \<noteq> None \<and> k = (w, ch)"
      then show ?thesis by (auto dest: find_wallet_Some)
    qed (use r in \<open>auto simp: references_ok_def\<close>)
    with wf keys(2) [OF u] r show "db_wf (d\<lparr>db_nonces := t\<rparr>)"
      by (simp add: db_wf_def references_ok_def)
  qed
  with run show "keeps_wf d (d\<lparr>db_nonces := snd (init_for_wallet (find_wallet w (db_wallets d) \<noteq> None)
      now w ch n force (db_nonces d))\<rparr>)"
    by simp
next
  fix d :: db and rq now ck n raw
  obtain r t where run: "tx_create (tx_fk_ok rq d) now (new_tx_row ck rq n raw) (db_txs d) = (r, t)" by fastforce
  then have "keeps_wf d (d\<lparr>db_txs := t\<rparr>)"
  proof (cases rule: tx_create_cases)
    case (created row)
    then have "rq_wallet rq \<in> w_name ` set (db_wallets d)" "rq_caller rq \<in> c_name ` set (db_callers d)"
      "tx_wallet row = rq_wallet rq" "tx_caller row = rq_caller rq"
      by (simp_all add: tx_fk_ok_def new_tx_row_def find_wallet_None find_caller_None)
    with created(3) tx_create_wf [OF _ run] show ?thesis
      by (simp add: keeps_wf_def db_wf_def references_ok_def)
  qed (simp add: keeps_wf_def)
  with run show "keeps_wf d (d\<lparr>db_txs := snd (tx_create (tx_fk_ok rq d) now (new_tx_row ck rq n raw) (db_txs d))\<rparr>)"
    by simp
next
  fix d :: db and i st conf rcp sub
  show "keeps_wf d (d\<lparr>db_txs := snd (update_status i st conf rcp None sub (db_txs d))\<rparr>)"
    by (rule keeps_wf_txs) (use update_status_wf prod.collapse in \<open>metis\<close>, simp add: update_status_refs)
next
  fix d :: db and now i hex num
  show "keeps_wf d (d\<lparr>db_txs := snd (add_hash now i hex num (db_txs d))\<rparr>)"
    by (rule keeps_wf_txs) (use add_hash_wf prod.collapse in \<open>metis\<close>, simp add: add_hash_def Let_def)
next
  fix d :: db and attempt
  show "keeps_wf d (d\<lparr>db_txs := snd (add_attempt attempt (db_txs d))\<rparr>)"
    by (rule keeps_wf_txs) (use add_attempt_wf prod.collapse in \<open>metis\<close>, simp add: add_attempt_def)
qed (rule value_kept)

subsection \<open>Recorded history\<close>

text \<open>
  Wallets, hashes, attempts and audit rows are only appended; callers keep their names; a transaction
  keeps its place and every column but the status, its two times and the receipt.
\<close>

definition rows_kept :: "transaction list \<Rightarrow> transaction list \<Rightarrow> bool" where
  "rows_kept xs ys \<longleftrightarrow> length xs \<le> length ys \<and> (\<forall>i < length xs. tx_same (xs ! i) (ys ! i))"

definition history :: "db \<Rightarrow> db \<Rightarrow> bool" where
  "history d d' \<longleftrightarrow>
     prefix (audit_log (db_audit d)) (audit_log (db_audit d')) \<and> prefix (db_wallets d) (db_wallets d') \<and>
     prefix (map c_name (db_callers d)) (map c_name (db_callers d')) \<and>
     prefix (transaction_hashes (db_txs d)) (transaction_hashes (db_txs d')) \<and>
     prefix (transaction_attempts (db_txs d)) (transaction_attempts (db_txs d')) \<and>
     rows_kept (transactions (db_txs d)) (transactions (db_txs d'))"

lemma rows_kept_refl [simp]: "rows_kept xs xs"
  by (simp add: rows_kept_def)

lemma rows_kept_append [simp]: "rows_kept xs (xs @ ys)"
  by (simp add: rows_kept_def nth_append)

lemma rows_kept_map: "(\<And>x. tx_same x (f x)) \<Longrightarrow> rows_kept xs (map f xs)"
  by (simp add: rows_kept_def)

lemma rows_kept_trans: "rows_kept xs ys \<Longrightarrow> rows_kept ys zs \<Longrightarrow> rows_kept xs zs"
  unfolding rows_kept_def by (meson le_trans less_le_trans tx_same_trans)

lemma caller_create_prefix: "prefix (map c_name t) (map c_name (snd (caller_create now n h p pp rep t)))"
proof -
  obtain r t' where run: "caller_create now n h p pp rep t = (r, t')" by fastforce
  then show ?thesis
  proof (cases rule: caller_create_cases)
    case (replaced row e)
    then have "map c_name t' = map c_name t" by simp
    with run show ?thesis by simp
  qed (use run in auto)
qed

definition any_counters :: "rate_db \<Rightarrow> rate_db \<Rightarrow> bool" where
  "any_counters t t' \<longleftrightarrow> True"

interpretation history_law: transition_law history
proof
  show "history s s" for s by (simp add: history_def)
  show "history s t \<Longrightarrow> history t u \<Longrightarrow> history s u" for s t u
    unfolding history_def by (blast intro: prefix_order.trans rows_kept_trans)
qed

interpretation any_counters_law: transition_law any_counters
  by unfold_locales (simp_all add: any_counters_def)

interpretation history_repositories: repository_laws history any_counters
proof unfold_locales
  fix d :: db and now name addr ciph master path
  show "history d (d\<lparr>db_wallets := snd (wallet_create now name addr ciph master path (db_wallets d))\<rparr>)"
    using wallet_create_grows [of now name addr ciph master path "db_wallets d"] by (auto simp: history_def)
next
  fix d :: db and now act dc who req rs out ts
  show "history d (d\<lparr>db_audit := snd (append_row now act dc who req rs out ts (db_audit d))\<rparr>)"
    by (simp add: history_def append_row_def Let_def)
next
  fix d :: db and rq now ck n raw
  obtain r t where run: "tx_create (tx_fk_ok rq d) now (new_tx_row ck rq n raw) (db_txs d) = (r, t)" by fastforce
  then have "history d (d\<lparr>db_txs := t\<rparr>)" by (cases rule: tx_create_cases) (simp_all add: history_def)
  with run show "history d (d\<lparr>db_txs := snd (tx_create (tx_fk_ok rq d) now (new_tx_row ck rq n raw) (db_txs d))\<rparr>)"
    by simp
next
  fix d :: db and i st conf rcp sub
  show "history d (d\<lparr>db_txs := snd (update_status i st conf rcp None sub (db_txs d))\<rparr>)"
    by (simp add: history_def update_status_def rows_kept_map tx_same_status)
qed (simp_all add: history_def caller_create_prefix caller_revoke_names add_hash_def add_attempt_def Let_def
    obeys_def any_counters_def)

subsection \<open>Requests that leave the ledger alone\<close>

definition ledger_untouched :: "db \<Rightarrow> db \<Rightarrow> bool" where
  "ledger_untouched d d' \<longleftrightarrow> db_txs d' = db_txs d \<and> db_nonces d' = db_nonces d"

interpretation ledger_accounts: account_laws ledger_untouched any_counters
  by unfold_locales (simp_all add: ledger_untouched_def obeys_def any_counters_def)

end
