(* ===== verification/Lifetime.thy ===== *)
theory Lifetime
  imports System
begin

section \<open>Every run of the daemon\<close>

text \<open>
  The relation \<open>served\<close> has a rule for a start of the daemon, every writing endpoint and the import command, whatever the
  configuration, the clock, the credentials and the answers of the libraries; reading endpoints leave the
  database as it is.  Its argument says whether an administrator may overwrite a nonce while transactions
  are in flight.  The nonce ledger is specified on its own and refined by the database.
\<close>

inductive served :: "bool \<Rightarrow> db \<Rightarrow> db \<Rightarrow> bool" for forced where
  start: "lifespan lock_disabled path_set locked startenv ck d = (out, d') \<Longrightarrow> served forced d d'"
| sign: "post_sign_transaction env verifies vault ck authorization key b d = (res, d') \<Longrightarrow> served forced d d'"
| sign_fsp: "post_sign_fsp_message fenv verifies vault ck authorization fb d = (res, d') \<Longrightarrow> served forced d d'"
| broadcast: "post_broadcast_result verifies ck authorization i bb d = (res, d') \<Longrightarrow> served forced d d'"
| receipt: "post_receipt verifies ck authorization i rb d = (res, d') \<Longrightarrow> served forced d d'"
| replacement: "post_sign_replacement env verifies vault ck authorization i pb d = (res, d') \<Longrightarrow> served forced d d'"
| nonce_init: "post_nonce_init expected vault ck authorization nb d = (res, d') \<Longrightarrow>
    nib_force_with_in_flight nb \<longrightarrow> forced \<Longrightarrow> served forced d d'"
| nonce_sync: "post_nonce_sync expected st vault ck authorization sb d = (res, d') \<Longrightarrow> served forced d d'"
| new_caller: "post_callers expected policy argon2_hash rnd vault ck authorization cb d = (res, d') \<Longrightarrow> served forced d d'"
| revoke: "delete_caller expected vault ck authorization name d = (res, d') \<Longrightarrow> served forced d d'"
| new_wallet: "post_wallets expected policy lib account seal_text vault ck authorization wb d = (res, d') \<Longrightarrow> served forced d d'"
| import_key: "wallets_import lib uid shredded vault ck ir file d = (res, d') \<Longrightarrow> served forced d d'"

definition empty_db :: db where
  "empty_db = \<lparr>db_wallets = [], db_callers = [],
     db_txs = \<lparr>transactions = [], transaction_hashes = [], transaction_attempts = []\<rparr>,
     db_nonces = [], db_rates = empty_rates, db_audit = empty_audit\<rparr>"

definition reachable :: "bool \<Rightarrow> db \<Rightarrow> bool" where
  "reachable forced d \<longleftrightarrow> (served forced)\<^sup>*\<^sup>* empty_db d"

context repository_laws
begin

lemma served_obeys: "served forced d d' \<Longrightarrow> law d d'"
  by (cases rule: served.cases, assumption)
    (rule obeysD, rule obeys_start obeys_endpoints obeys_account_endpoints, assumption)+

lemma runs_obey: "(served forced)\<^sup>*\<^sup>* d d' \<Longrightarrow> law d d'"
  by (induction rule: rtranclp_induct) (blast intro: law_refl law_trans served_obeys)+

end

lemma empty_db_wf: "db_wf empty_db"
  by (simp add: db_wf_def empty_db_def references_ok_def wallets_wf_def callers_wf_def tx_wf_def tx_rows_wf_def)

lemma served_wf: "served forced d d' \<Longrightarrow> db_wf d \<Longrightarrow> db_wf d'"
  using wf_repositories.served_obeys by (simp add: keeps_wf_def)

text \<open>C3: In every database the daemon can reach, the tables are well formed: keys are unique, the audit chain
  is intact and contiguous, no counter is negative, and every transaction and nonce belongs to a wallet, every
  transaction to a caller, every hash to a transaction.\<close>

theorem reachable_db_wf: "reachable forced d \<Longrightarrow> db_wf d"
  using wf_repositories.runs_obey [of forced empty_db d] empty_db_wf
  by (simp add: reachable_def keeps_wf_def)

text \<open>C4: Whatever the daemon serves, answered or refused, recorded history stands: audit rows, wallets, hashes
  and attempts are only appended, callers are never dropped, and a transaction keeps every column but its status,
  its submission and confirmation times and its receipt.\<close>

theorem history_append_only: "(served forced)\<^sup>*\<^sup>* d d' \<Longrightarrow> history d d'"
  by (rule history_repositories.runs_obey)

subsection \<open>Refinement\<close>

text \<open>A system refines a specification: each of its steps is one of the specification's on the abstract states,
  whose invariant then holds of every state a run reaches.\<close>

locale refinement =
  fixes step :: "'c \<Rightarrow> 'c \<Rightarrow> bool" and astep :: "'a \<Rightarrow> 'a \<Rightarrow> bool" and abs_of :: "'c \<Rightarrow> 'a"
    and ainv :: "'a \<Rightarrow> bool"
  assumes refines: "step c c' \<Longrightarrow> astep (abs_of c) (abs_of c')"
    and ainv_step: "astep a a' \<Longrightarrow> ainv a \<Longrightarrow> ainv a'"
begin

lemma refines_runs: "step\<^sup>*\<^sup>* c c' \<Longrightarrow> astep\<^sup>*\<^sup>* (abs_of c) (abs_of c')"
  by (induction rule: rtranclp_induct) (auto intro: rtranclp.rtrancl_into_rtrancl refines)

lemma ainv_runs: "step\<^sup>*\<^sup>* c c' \<Longrightarrow> ainv (abs_of c) \<Longrightarrow> ainv (abs_of c')"
  by (induction rule: rtranclp_induct) (auto intro: ainv_step refines)

end

subsection \<open>The ledger specified\<close>

text \<open>The next nonce of every wallet and chain, and the transactions in flight with their key and nonce.\<close>

record ledger =
  nxt :: "string \<times> int \<Rightarrow> int option"
  flight :: "string \<Rightarrow> ((string \<times> int) \<times> int) option"

inductive ledger_step :: "ledger \<Rightarrow> ledger \<Rightarrow> bool" where
  idle: "ledger_step l l"
| reserve: "nxt l k = Some n \<Longrightarrow> flight l i = None \<Longrightarrow>
    ledger_step l \<lparr>nxt = (nxt l)(k \<mapsto> n + 1), flight = (flight l)(i \<mapsto> (k, n))\<rparr>"
| settle: "flight l i \<noteq> None \<Longrightarrow> ledger_step l (l\<lparr>flight := (flight l)(i := None)\<rparr>)"
| release: "flight l i = Some (k, n) \<Longrightarrow> nxt l k = Some (n + 1) \<Longrightarrow>
    ledger_step l \<lparr>nxt = (nxt l)(k \<mapsto> n), flight = (flight l)(i := None)\<rparr>"
| seed: "nxt l k = None \<or> (\<forall>i n. flight l i \<noteq> Some (k, n)) \<Longrightarrow>
    ledger_step l (l\<lparr>nxt := (nxt l)(k \<mapsto> m)\<rparr>)"
| advance: "nxt l k = Some n \<Longrightarrow> n \<le> m \<Longrightarrow> ledger_step l (l\<lparr>nxt := (nxt l)(k \<mapsto> m)\<rparr>)"

definition ledger_ok :: "ledger \<Rightarrow> bool" where
  "ledger_ok l \<longleftrightarrow>
     (\<forall>i k n. flight l i = Some (k, n) \<longrightarrow> (\<exists>m. nxt l k = Some m \<and> n < m)) \<and>
     (\<forall>i j k n. flight l i = Some (k, n) \<longrightarrow> flight l j = Some (k, n) \<longrightarrow> i = j)"

lemma ledger_okD:
  "ledger_ok l \<Longrightarrow> flight l i = Some (k, n) \<Longrightarrow> \<exists>m. nxt l k = Some m \<and> n < m"
  "ledger_ok l \<Longrightarrow> flight l i = Some (k, n) \<Longrightarrow> flight l j = Some (k, n) \<Longrightarrow> i = j"
  unfolding ledger_ok_def by blast+

lemma ledger_okI:
  "(\<And>i k n. flight l i = Some (k, n) \<Longrightarrow> \<exists>m. nxt l k = Some m \<and> n < m) \<Longrightarrow>
   (\<And>i j k n. flight l i = Some (k, n) \<Longrightarrow> flight l j = Some (k, n) \<Longrightarrow> i = j) \<Longrightarrow> ledger_ok l"
  unfolding ledger_ok_def by blast

text \<open>The specification never has two transactions in flight with one nonce.\<close>

lemma ledger_step_ok: "ledger_step l l' \<Longrightarrow> ledger_ok l \<Longrightarrow> ledger_ok l'"
proof (induction rule: ledger_step.induct)
  case (reserve l k n i)
  note ok = ledger_okD [OF reserve(3)]
  show ?case
  proof (rule ledger_okI)
    fix j k' m assume "flight \<lparr>nxt = (nxt l)(k \<mapsto> n + 1), flight = (flight l)(i \<mapsto> (k, n))\<rparr> j = Some (k', m)"
    then show "\<exists>b. nxt \<lparr>nxt = (nxt l)(k \<mapsto> n + 1), flight = (flight l)(i \<mapsto> (k, n))\<rparr> k' = Some b \<and> m < b"
      using ok(1) [of j k' m] reserve(1) by (auto split: if_splits)
  next
    fix a b k' m
    assume "flight \<lparr>nxt = (nxt l)(k \<mapsto> n + 1), flight = (flight l)(i \<mapsto> (k, n))\<rparr> a = Some (k', m)"
      "flight \<lparr>nxt = (nxt l)(k \<mapsto> n + 1), flight = (flight l)(i \<mapsto> (k, n))\<rparr> b = Some (k', m)"
    then show "a = b"
      using ok(2) [of a k' m b] ok(1) [of a k n] ok(1) [of b k n] reserve(1) by (auto split: if_splits)
  qed
next
  case (release l i k n)
  note ok = ledger_okD [OF release(3)]
  show ?case
  proof (rule ledger_okI)
    fix j k' m assume j: "flight \<lparr>nxt = (nxt l)(k \<mapsto> n), flight = (flight l)(i := None)\<rparr> j = Some (k', m)"
    then have "m \<noteq> n \<or> k' \<noteq> k" using ok(2) [of j k n i] release(1) by (auto split: if_splits)
    with j show "\<exists>b. nxt \<lparr>nxt = (nxt l)(k \<mapsto> n), flight = (flight l)(i := None)\<rparr> k' = Some b \<and> m < b"
      using ok(1) [of j k' m] release(2) by (auto split: if_splits)
  qed (use ok(2) in \<open>auto split: if_splits\<close>)
next
  case (seed l k m)
  note ok = ledger_okD [OF seed(2)]
  have "\<And>i n. flight l i \<noteq> Some (k, n)" using seed(1) ok(1) by fastforce
  then show ?case using ok by (intro ledger_okI) (auto split: if_splits)
next
  case (advance l k n m)
  note ok = ledger_okD [OF advance(3)]
  show ?case
  proof (rule ledger_okI)
    fix j k' b assume "flight (l\<lparr>nxt := (nxt l)(k \<mapsto> m)\<rparr>) j = Some (k', b)"
    then show "\<exists>c. nxt (l\<lparr>nxt := (nxt l)(k \<mapsto> m)\<rparr>) k' = Some c \<and> b < c"
      using ok(1) [of j k' b] advance(1,2) by (auto split: if_splits)
  qed (use ok(2) in auto)
qed (auto simp: ledger_ok_def)

subsection \<open>The database refines it\<close>

definition flying :: "transaction \<Rightarrow> ((string \<times> int) \<times> int) option" where
  "flying x = (if in_flight x then Some ((tx_wallet x, tx_chain x), tx_nonce x) else None)"

definition ledger_of :: "db \<Rightarrow> ledger" where
  "ledger_of d = \<lparr>nxt = (\<lambda>k. map_option next_nonce (map_of (db_nonces d) k)),
     flight = (\<lambda>i. Option.bind (find_tx i (db_txs d)) flying)\<rparr>"

lemma ledger_ofI:
  "(\<And>k. map_option next_nonce (map_of (db_nonces d') k) = nxt l k) \<Longrightarrow>
   (\<And>i. Option.bind (find_tx i (db_txs d')) flying = flight l i) \<Longrightarrow> ledger_of d' = l"
  by (cases l) (simp add: ledger_of_def fun_eq_iff)

lemma ledger_same:
  "db_txs d' = db_txs d \<Longrightarrow> db_nonces d' = db_nonces d \<Longrightarrow> ledger_of d' = ledger_of d"
  by (simp add: ledger_of_def)

lemma audit_ledger:
  "audit_grown a dc d d' \<Longrightarrow> ledger_of d' = ledger_of d"
  "audit_refused a d d' \<Longrightarrow> ledger_of d' = ledger_of d"
  by (rule ledger_same, erule audit_grownD, erule audit_grownD)
    (rule ledger_same, erule audit_refusedD, erule audit_refusedD)

lemma idle_eq: "ledger_of d' = ledger_of d \<Longrightarrow> ledger_step (ledger_of d) (ledger_of d')"
  using idle [of "ledger_of d"] by simp

text \<open>A request of the account endpoints is an idle step.\<close>

lemma accounts_idle: "obeys ledger_untouched m \<Longrightarrow> m d = (r, d') \<Longrightarrow> ledger_step (ledger_of d) (ledger_of d')"
  by (rule idle_eq, rule ledger_same; drule (1) obeysD; simp add: ledger_untouched_def)

text \<open>A signature reserves.\<close>

lemma sign_step:
  assumes "sign_handler env vault ck b key c d = (res, d')"
  shows "ledger_step (ledger_of d) (ledger_of d')"
  using assms
proof (cases rule: sign_handler_cases)
  case (failed e)
  from refusal_effect_tables [OF this(2)] have "db_txs d' = db_txs d" "db_nonces d' = db_nonces d" by blast+
  then show ?thesis by (intro idle_eq ledger_same)
next
  case (replayed x)
  then show ?thesis by (intro idle_eq audit_ledger)
next
  case (signed r)
  let ?rq = "body_request b (c_name c) key"
  let ?k = "(rq_wallet ?rq, rq_chain ?rq)"
  obtain t row stx where f: "map_of (db_nonces d) ?k = Some row" "find_tx (ck_uuid ck) (db_txs d) = None"
      "d' = stored ck ?rq c (next_nonce row) stx (reserved ?rq (next_nonce row) (d\<lparr>db_rates := t\<rparr>))"
    using signed(4) unfolding fresh_effect_def by (elim exE conjE) (rule that)
  let ?l = "ledger_of d" and ?n = "next_nonce row"
  have "ledger_of d' = \<lparr>nxt = (nxt ?l)(?k \<mapsto> ?n + 1), flight = (flight ?l)(ck_uuid ck \<mapsto> (?k, ?n))\<rparr>"
  proof (rule ledger_ofI)
    fix k
    show "map_option next_nonce (map_of (db_nonces d') k) =
        nxt \<lparr>nxt = (nxt ?l)(?k \<mapsto> ?n + 1), flight = (flight ?l)(ck_uuid ck \<mapsto> (?k, ?n))\<rparr> k"
      by (simp add: f(1,3) reserved_def ledger_of_def table_simps)
  next
    fix i
    show "Option.bind (find_tx i (db_txs d')) flying =
        flight \<lparr>nxt = (nxt ?l)(?k \<mapsto> ?n + 1), flight = (flight ?l)(ck_uuid ck \<mapsto> (?k, ?n))\<rparr> i"
      using f(2) by (simp add: f(3) stored_def Let_def reserved_def ledger_of_def find_tx_def find_append
          new_tx_row_def flying_def in_flight_def split: option.split)
  qed
  moreover have "nxt ?l ?k = Some ?n" "flight ?l (ck_uuid ck) = None"
    using f(1,2) by (simp_all add: ledger_of_def)
  ultimately show ?thesis by (simp only: reserve)
qed (simp add: idle)

lemma flying_status: "in_flight x \<Longrightarrow> flying (status_values s c r w u x) =
    (if s = ''pending'' \<or> s = ''submitted'' then flying x else None)"
  by (simp add: flying_def in_flight_def)

text \<open>A broadcast result keeps, settles or releases, a receipt settles.\<close>

lemma broadcast_ledger:
  assumes "find_tx i (db_txs d) = Some x" "tx_status x = ''pending''"
  shows "ledger_step (ledger_of d) (ledger_of (broadcast_db ck i o' x d))"
proof -
  let ?l = "ledger_of d" and ?k = "(tx_wallet x, tx_chain x)" and ?d = "broadcast_db ck i o' x d"
  have fx: "flight ?l i = Some (?k, tx_nonce x)" and fl: "in_flight x"
    using assms by (simp_all add: ledger_of_def flying_def in_flight_def)
  have flight: "flight (ledger_of ?d) = (if o' = Accepted then flight ?l else (flight ?l)(i := None))"
    using assms fl by (cases o') (auto simp: ledger_of_def broadcast_find flying_status broadcast_status_def fun_eq_iff)
  have nxt: "nxt (ledger_of ?d) = (if o' = RejectedReleaseable \<and> nxt ?l ?k = Some (tx_nonce x + 1)
      then (nxt ?l)(?k \<mapsto> tx_nonce x) else nxt ?l)"
    by (cases o'; cases "map_of (db_nonces d) ?k")
      (auto simp: ledger_of_def broadcast_db_def release_if_unused_def table_simps fun_eq_iff)
  note eq = ledger.equality [of "ledger_of ?d"]
  consider (kept) "o' = Accepted"
    | (released) "o' = RejectedReleaseable" "nxt ?l ?k = Some (tx_nonce x + 1)"
    | (settled) "o' \<noteq> Accepted" "\<not> (o' = RejectedReleaseable \<and> nxt ?l ?k = Some (tx_nonce x + 1))"
    by blast
  then show ?thesis
  proof cases
    case kept
    then show ?thesis using flight nxt by (intro idle_eq eq) simp_all
  next
    case released
    then have "ledger_of ?d = \<lparr>nxt = (nxt ?l)(?k \<mapsto> tx_nonce x), flight = (flight ?l)(i := None)\<rparr>"
      using flight nxt by (intro eq) simp_all
    with release [OF fx released(2)] show ?thesis by simp
  next
    case settled
    then have "ledger_of ?d = ?l\<lparr>flight := (flight ?l)(i := None)\<rparr>"
      by (intro eq) (auto simp: flight nxt)
    with settle [of ?l i] fx show ?thesis by simp
  qed
qed

lemma receipt_ledger:
  assumes "find_tx i (db_txs d) = Some x" "tx_status x = ''submitted''"
  shows "ledger_step (ledger_of d) (ledger_of (receipt_db ck i b x r d))"
proof -
  let ?l = "ledger_of d"
  have fx: "flight ?l i \<noteq> None" and fl: "in_flight x"
    using assms by (simp_all add: ledger_of_def flying_def in_flight_def)
  have "ledger_of (receipt_db ck i b x r d) = ?l\<lparr>flight := (flight ?l)(i := None)\<rparr>"
  proof (rule ledger_ofI)
    fix k
    show "map_option next_nonce (map_of (db_nonces (receipt_db ck i b x r d)) k) =
        nxt (?l\<lparr>flight := (flight ?l)(i := None)\<rparr>) k"
      by (simp add: ledger_of_def receipt_db_def mark_confirmed_def table_simps option.map_comp o_def)
  next
    fix j
    show "Option.bind (find_tx j (db_txs (receipt_db ck i b x r d))) flying =
        flight (?l\<lparr>flight := (flight ?l)(i := None)\<rparr>) j"
      unfolding receipt_find using assms fl
      by (cases "rb_outcome b") (simp_all add: ledger_of_def flying_status receipt_status_def)
  qed
  then show ?thesis using settle [OF fx] by simp
qed

lemma seed_step:
  assumes "seed_allowed b d" "\<not> nib_force_with_in_flight b"
  shows "ledger_step (ledger_of d) (ledger_of (seeded ck b d))"
proof -
  let ?l = "ledger_of d" and ?k = "(nib_wallet b, nib_chain b)"
  have "flight ?l i \<noteq> Some (?k, n)" if "nxt ?l ?k \<noteq> None" for i n
  proof
    assume "flight ?l i = Some (?k, n)"
    then obtain x where x: "find_tx i (db_txs d) = Some x" "in_flight x" "tx_wallet x = nib_wallet b" "tx_chain x = nib_chain b"
      by (auto simp: ledger_of_def flying_def bind_eq_Some_conv split: if_splits)
    have "in_flight_count (nib_wallet b) (nib_chain b) (db_txs d) = 0"
      using assms that by (auto simp: seed_allowed_def ledger_of_def split: option.splits)
    with x find_tx_id [OF x(1)] show False by (auto simp: in_flight_count_def filter_empty_conv)
  qed
  then have "nxt ?l ?k = None \<or> (\<forall>i n. flight ?l i \<noteq> Some (?k, n))" by blast
  from seed [OF this, of "nib_starting_nonce b"]
  show ?thesis
    by (simp add: ledger_of_def seeded_def fresh_nonce_def update_conv' fun_upd_def if_distrib cong: if_cong)
qed

lemma sync_step_ledger:
  assumes "map_of (db_nonces d) (nsb_wallet b, nsb_chain b) = Some r" "next_nonce r < nsb_on_chain_count b"
  shows "ledger_step (ledger_of d) (ledger_of (synced b d))"
proof -
  let ?l = "ledger_of d" and ?k = "(nsb_wallet b, nsb_chain b)"
  have "nxt ?l ?k = Some (next_nonce r)" using assms(1) by (simp add: ledger_of_def)
  from advance [OF this, of "nsb_on_chain_count b"] assms
  show ?thesis
    by (simp add: ledger_of_def synced_def set_next_nonce_def table_simps fun_upd_def if_distrib cong: if_cong)
qed

lemma sign_served:
  assumes "post_sign_transaction env verifies vault ck authorization key b d = (res, d')"
  shows "ledger_step (ledger_of d) (ledger_of d')"
proof -
  from assms have "guarded verifies authorization (sign_body_valid b) (sign_handler env vault ck b key) d = (res, d')"
    by (simp add: post_sign_transaction_def guarded_def)
  then show ?thesis by (cases rule: guarded_cases) (simp_all add: idle sign_step)
qed

lemma broadcast_served:
  assumes "post_broadcast_result verifies ck authorization i bb d = (res, d')"
  shows "ledger_step (ledger_of d) (ledger_of d')"
proof -
  from assms [unfolded post_broadcast_result_def] show ?thesis
  proof (cases rule: guarded_cases)
    case (called c)
    from called(4) show ?thesis
    proof (cases rule: broadcast_cases)
      case (refused e)
      then show ?thesis by (intro idle_eq) (auto simp: report_refusal_def audit_ledger split: option.splits if_splits)
    next
      case (accepted x)
      from audit_ledger(1) [OF accepted(6)] show ?thesis by (simp add: broadcast_ledger accepted)
    qed
  qed (simp add: idle)
qed

lemma receipt_served:
  assumes "post_receipt verifies ck authorization i rb d = (res, d')"
  shows "ledger_step (ledger_of d) (ledger_of d')"
proof -
  from assms [unfolded post_receipt_def] show ?thesis
  proof (cases rule: guarded_cases)
    case (called c)
    from called(4) show ?thesis
    proof (cases rule: receipt_cases)
      case (refused e)
      then show ?thesis by (intro idle_eq) (auto simp: report_refusal_def audit_ledger split: option.splits if_splits)
    next
      case (accepted x r)
      from audit_ledger(1) [OF accepted(7)] show ?thesis by (simp add: receipt_ledger accepted)
    qed (simp add: idle)
  qed (simp add: idle)
qed

lemma replacement_served:
  assumes "post_sign_replacement env verifies vault ck authorization i pb d = (res, d')"
  shows "ledger_step (ledger_of d) (ledger_of d')"
proof -
  from assms [unfolded post_sign_replacement_def] show ?thesis
  proof (cases rule: guarded_cases)
    case (called c)
    from called(4) show ?thesis
    proof (cases rule: replacement_cases)
      case (refused e)
      then show ?thesis by (intro idle_eq audit_ledger)
    next
      case (accepted v)
      then obtain sq stx where "audit_grown ''tx-replacement'' ''approved'' (replaced_db ck i pb sq stx d) d'"
        by (auto simp: replacement_effect_def)
      from audit_ledger(1) [OF this] show ?thesis
        by (intro idle_eq) (simp add: ledger_of_def find_tx_def replaced_db_def Let_def)
    qed
  qed (simp add: idle)
qed

lemma nonce_init_served:
  assumes "post_nonce_init expected vault ck authorization nb d = (res, d')" "\<not> nib_force_with_in_flight nb"
  shows "ledger_step (ledger_of d) (ledger_of d')"
proof -
  from assms(1) [unfolded post_nonce_init_def] show ?thesis
  proof (cases rule: admin_guarded_cases)
    case admitted
    show ?thesis
    proof (cases vault)
      case True
      with admitted(3) have "session_scope False (nonce_init ck nb) d = (res, d')" by (simp add: sealed_scope_def)
      then show ?thesis
      proof (cases rule: nonce_init_cases)
        case refused
        then show ?thesis by (intro idle_eq audit_ledger)
      next
        case seeded
        from audit_ledger(1) [OF seeded(3)] seed_step [OF seeded(1) assms(2)] show ?thesis by simp
      qed
    qed (use admitted(3) in \<open>simp add: sealed_scope_def idle\<close>)
  qed (simp add: idle)
qed

lemma nonce_sync_served:
  assumes "post_nonce_sync expected st vault ck authorization sb d = (res, d')"
  shows "ledger_step (ledger_of d) (ledger_of d')"
proof -
  from assms [unfolded post_nonce_sync_def] show ?thesis
  proof (cases rule: admin_guarded_cases)
    case admitted
    show ?thesis
    proof (cases vault)
      case True
      with admitted(3) have "session_scope False (nonce_sync st ck sb) d = (res, d')" by (simp add: sealed_scope_def)
      then show ?thesis
      proof (cases rule: nonce_sync_cases)
        case (advanced r)
        from audit_ledger(1) [OF advanced(5)] sync_step_ledger [OF advanced(1,2)] show ?thesis by simp
      qed (auto intro: idle_eq audit_ledger)
    qed (use admitted(3) in \<open>simp add: sealed_scope_def idle\<close>)
  qed (simp add: idle)
qed

text \<open>Every request is a step of the specified ledger: a signature reserves the next nonce for a new transaction,
  a report keeps, settles or releases it, an administrator seeds or advances, and everything else is idle.\<close>

lemma served_step:
  assumes "served False d d'"
  shows "ledger_step (ledger_of d) (ledger_of d')"
  using assms
  by cases (rule sign_served broadcast_served receipt_served replacement_served nonce_init_served nonce_sync_served
      accounts_idle [OF ledger_accounts.obeys_start(2)]
      accounts_idle [OF ledger_accounts.obeys_account_endpoints(1)]
      accounts_idle [OF ledger_accounts.obeys_account_endpoints(2)]
      accounts_idle [OF ledger_accounts.obeys_account_endpoints(3)]
      accounts_idle [OF ledger_accounts.obeys_account_endpoints(4)]
      accounts_idle [OF ledger_accounts.obeys_account_endpoints(5)], assumption | simp)+

interpretation nonces: refinement "served False" ledger_step ledger_of ledger_ok
  by unfold_locales (blast intro: served_step ledger_step_ok)+


lemma reachable_ledger_ok: "reachable False d \<Longrightarrow> ledger_ok (ledger_of d)"
  unfolding reachable_def
  by (erule nonces.ainv_runs) (simp add: ledger_ok_def ledger_of_def empty_db_def find_tx_def)

subsection \<open>A sample run\<close>

text \<open>A wallet, a caller and a nonce are set up, then a transfer is signed.\<close>

definition setup_clock :: clock where
  "setup_clock = \<lparr>ck_now = 0, ck_audit = 0, ck_row = 0, ck_hash = 0, ck_uuid = []\<rparr>"

definition sample_admin :: "string option" where
  "sample_admin = Some ''Bearer secret''"

lemma sample_admin_ok: "admin_ok ''secret'' sample_admin"
  by code_simp

lemma admin_guarded_run:
  "admin_ok expected a \<Longrightarrow> valid \<Longrightarrow> admin_guarded expected a valid handler d = handler d"
  by (simp add: admin_guarded_def thenM_def bindM_run require_admin_run)

definition sample_step1 :: "(db, string \<times> string) op" where
  "sample_step1 = post_wallets ''secret'' None
     \<lparr>pl_encrypt = (\<lambda>_. Inr ''seal:v1:''), pl_address_of = (\<lambda>_. Inr ''0xaa''), pl_checksum = (\<lambda>_. ''0xAA'')\<rparr>
     ([1], ''0xaa'') [] True setup_clock sample_admin \<lparr>wab_name = ''hot'', wab_policy_path = ''hot''\<rparr>"

definition sample_step2 :: "(db, caller_create_result) op" where
  "sample_step2 = post_callers ''secret'' None (\<lambda>_. ''h'') (replicate 43 CHR ''a'') True setup_clock sample_admin
     \<lparr>cab_name = ''clif'', cab_policy_path = ''faucet'', cab_replace = False, cab_capability_id = None\<rparr>"

definition sample_step3 :: "(db, nonce_init_response) op" where
  "sample_step3 = post_nonce_init ''secret'' True setup_clock sample_admin
     \<lparr>nib_wallet = ''hot'', nib_chain = 14, nib_starting_nonce = 5, nib_force = False, nib_force_with_in_flight = False\<rparr>"

text \<open>What an approved row adds is some audit log.\<close>

lemma audited_step_log:
  assumes "action \<in> set valid_actions"
  obtains a where "thenM (json_audit ck action ''approved'' name request reason outcome) (ret v) s =
    (Inr v, s\<lparr>work := (work s)\<lparr>db_audit := a\<rparr>\<rparr>)"
proof -
  obtain d' where d: "thenM (json_audit ck action ''approved'' name request reason outcome) (ret v) s =
      (Inr v, s\<lparr>work := d'\<rparr>)" "audit_grown action ''approved'' (work s) d'"
    using audited_step [OF assms decision_words(1), of ck name request reason outcome v s] by blast
  from d(2) have "d' = (work s)\<lparr>db_audit := db_audit d'\<rparr>" unfolding audit_grown_def by (rule conjunct1)
  with d(1) show thesis by (intro that [of "db_audit d'"]) metis
qed

lemma sample_step1_run: "\<exists>r a. sample_step1 empty_db = (Inr r, empty_db\<lparr>db_wallets := [sample_wallet], db_audit := a\<rparr>)"
proof -
  let ?lib = "\<lparr>pl_encrypt = (\<lambda>_. Inr ''seal:v1:''), pl_address_of = (\<lambda>_. Inr ''0xaa''), pl_checksum = (\<lambda>_. ''0xAA'')\<rparr>"
  let ?s = "put_wallets [sample_wallet] (open_session empty_db)"
  obtain a where row: "thenM (json_audit setup_clock ''wallet-create'' ''approved'' None (wallet_create_fields ''hot'' ''hot'') None
      (Some [(''address'', JStr (w_address sample_wallet))])) (ret (w_name sample_wallet, w_address sample_wallet)) ?s =
      (Inr (w_name sample_wallet, w_address sample_wallet), ?s\<lparr>work := (work ?s)\<lparr>db_audit := a\<rparr>\<rparr>)"
    by (rule audited_step_log [OF account_words(3)])
  have made: "signer_create_wallet ?lib ([1], ''0xaa'') setup_clock ''hot'' ''hot'' (open_session empty_db) = (Inr sample_wallet, ?s)"
    by (simp add: signer_create_wallet_run new_wallet_def sample_wallet_def setup_clock_def empty_db_def find_wallet_def Let_def)
  have "create_wallet ?lib ([1], ''0xaa'') [] setup_clock ''hot'' ''hot'' (open_session empty_db) =
      (Inr (w_name sample_wallet, w_address sample_wallet), ?s\<lparr>work := (work ?s)\<lparr>db_audit := a\<rparr>\<rparr>)"
    unfolding create_wallet_def by (rule trans, rule bindM_Inr, rule catchM_Inr, rule made, rule row)
  moreover have "name_match ''hot''" by code_simp
  ultimately show ?thesis
    by (simp add: sample_step1_def post_wallets_def admin_guarded_run sample_admin_ok wallet_body_valid_def
        wallets_handler_def sealed_scope_def session_scope_def catchM_def put_wallets_def exI [of _ a])
qed

lemma sample_step2_run:
  assumes "db_callers d = []"
  shows "\<exists>r a. sample_step2 d = (Inr r, d\<lparr>db_callers := [sample_sign_caller], db_audit := a\<rparr>)"
proof -
  let ?s = "put_callers [sample_sign_caller] (open_session d)"
  let ?key = "key_prefix_const @ replicate 43 CHR ''a''"
  let ?g = "\<lparr>gk_key = ?key, gk_key_hash = ''h'', gk_key_prefix = ''aaaaaaaa''\<rparr>"
  let ?r = "\<lparr>ccr_name = ''clif'', ccr_policy_path = ''faucet'', ccr_replace = False, ccr_capability_id = None\<rparr>"
  let ?c = sample_sign_caller
  let ?v = "\<lparr>ccs_name = c_name ?c, ccs_api_key = ?key, ccs_api_key_prefix = c_api_key_prefix ?c,
     ccs_policy_path = c_policy_path ?c, ccs_capability_id = None\<rparr>"
  obtain a where row: "thenM (json_audit setup_clock ''caller-create'' ''approved'' None (caller_create_fields ?r) None
      (Some [(''api_key_prefix'', JStr (c_api_key_prefix ?c))])) (ret ?v) ?s = (Inr ?v, ?s\<lparr>work := (work ?s)\<lparr>db_audit := a\<rparr>\<rparr>)"
    by (rule audited_step_log [OF account_words(1)])
  have key: "generate_api_key (\<lambda>_. ''h'') (replicate 43 CHR ''a'') = Inr ?g" by code_simp
  have made: "on_callers (caller_create (ck_row setup_clock) ''clif'' ''h'' ''aaaaaaaa'' ''faucet'' False) (open_session d) = (Inr ?c, ?s)"
    using assms by (simp add: on_run caller_create_run find_caller_def hash_taken_def sample_sign_caller_def
        sample_caller_def setup_clock_def Let_def)
  have "create_caller (\<lambda>_. ''h'') (replicate 43 CHR ''a'') setup_clock ?r (open_session d) =
      (Inr ?v, ?s\<lparr>work := (work ?s)\<lparr>db_audit := a\<rparr>\<rparr>)"
    unfolding create_caller_def key
    by (rule trans, rule bindM_Inr, rule ofSum_run, rule trans, rule bindM_Inr, rule catchM_Inr)
      (use made row in \<open>simp_all only: caller_create_request.simps generated_key.simps\<close>)
  moreover have "name_match ''clif''" by code_simp
  ultimately show ?thesis
    by (simp add: sample_step2_def post_callers_def admin_guarded_run sample_admin_ok caller_body_valid_def
        callers_handler_def sealed_scope_def session_scope_def catchM_def put_callers_def exI [of _ a])
qed

lemma sample_step3_run:
  assumes "db_nonces d = []" "find_wallet ''hot'' (db_wallets d) \<noteq> None"
  shows "\<exists>r a. sample_step3 d = (Inr r, d\<lparr>db_nonces := db_nonces sample_db, db_audit := a\<rparr>)"
proof -
  let ?b = "\<lparr>nib_wallet = ''hot'', nib_chain = 14, nib_starting_nonce = 5, nib_force = False, nib_force_with_in_flight = False\<rparr>"
  have "seed_allowed ?b d" using assms by (simp add: seed_allowed_def)
  from nonce_init_seeded [OF this, of setup_clock] obtain d'
    where run: "nonce_init setup_clock ?b (open_session d) = (Inr \<lparr>nir_wallet = ''hot'', nir_chain = 14, nir_next_nonce = 5\<rparr>,
        (open_session d)\<lparr>work := d'\<rparr>)"
      and grown: "audit_grown ''nonce-init'' ''approved'' (seeded setup_clock ?b d) d'"
    by auto
  from grown have "d' = (seeded setup_clock ?b d)\<lparr>db_audit := db_audit d'\<rparr>"
    unfolding audit_grown_def by (rule conjunct1)
  moreover have "seeded setup_clock ?b d = d\<lparr>db_nonces := db_nonces sample_db\<rparr>"
    using assms(1) by (simp add: seeded_def fresh_nonce_def setup_clock_def sample_db_def)
  ultimately have "\<exists>a. d' = d\<lparr>db_nonces := db_nonces sample_db, db_audit := a\<rparr>" by metis
  moreover from run have "sample_step3 d = (Inr \<lparr>nir_wallet = ''hot'', nir_chain = 14, nir_next_nonce = 5\<rparr>, d')"
    by (simp add: sample_step3_def post_nonce_init_def admin_guarded_run sample_admin_ok nonce_init_body_valid_def
        sealed_scope_def session_scope_def)
  ultimately show ?thesis by blast
qed

lemma sample_ready: "\<exists>a. reachable False (sample_db\<lparr>db_audit := a\<rparr>)"
proof -
  obtain r1 a1 where s1: "sample_step1 empty_db = (Inr r1, empty_db\<lparr>db_wallets := [sample_wallet], db_audit := a1\<rparr>)"
    using sample_step1_run by blast
  let ?d1 = "empty_db\<lparr>db_wallets := [sample_wallet], db_audit := a1\<rparr>"
  obtain r2 a2 where s2: "sample_step2 ?d1 = (Inr r2, ?d1\<lparr>db_callers := [sample_sign_caller], db_audit := a2\<rparr>)"
    using sample_step2_run [of ?d1] by (auto simp: empty_db_def)
  let ?d2 = "?d1\<lparr>db_callers := [sample_sign_caller], db_audit := a2\<rparr>"
  obtain r3 a3 where s3: "sample_step3 ?d2 = (Inr r3, ?d2\<lparr>db_nonces := db_nonces sample_db, db_audit := a3\<rparr>)"
    using sample_step3_run [of ?d2] by (auto simp: empty_db_def find_wallet_def sample_wallet_def)
  let ?d3 = "?d2\<lparr>db_nonces := db_nonces sample_db, db_audit := a3\<rparr>"
  have "served False empty_db ?d1" by (rule served.new_wallet [OF s1 [unfolded sample_step1_def]])
  moreover have "served False ?d1 ?d2" by (rule served.new_caller [OF s2 [unfolded sample_step2_def]])
  moreover have "served False ?d2 ?d3" by (rule served.nonce_init [OF s3 [unfolded sample_step3_def]]) simp
  ultimately have "reachable False ?d3"
    unfolding reachable_def by (blast intro: rtranclp.intros)
  moreover have "?d3 = sample_db\<lparr>db_audit := a3\<rparr>" by (simp add: sample_db_def empty_db_def empty_txs_def)
  ultimately show ?thesis by (intro exI [of _ a3]) simp
qed

lemma sample_signed:
  "\<exists>d x. reachable False d \<and> transactions (db_txs d) = [x] \<and> in_flight x \<and>
     tx_wallet x = ''hot'' \<and> tx_chain x = 14 \<and> tx_nonce x = 5"
proof -
  obtain a where reach: "reachable False (sample_db\<lparr>db_audit := a\<rparr>)" using sample_ready by blast
  let ?d = "sample_db\<lparr>db_audit := a\<rparr>"
  obtain r d' where run: "sign_handler sample_env True sample_clock sample_body (Some ''k'') sample_sign_caller ?d = (Inr r, d')"
    using sample_handler_any by blast
  then have "post_sign_transaction sample_env sample_verifies True sample_clock (Some sample_bearer) (Some ''k'') sample_body ?d
      = (Inr r, d')"
    by (simp add: post_sign_transaction_def sample_authenticate_any sample_body_valid)
  then have "served False ?d d'" by (rule served.sign)
  with reach have "reachable False d'" unfolding reachable_def by (rule rtranclp.rtrancl_into_rtrancl)
  moreover have "\<exists>x. transactions (db_txs d') = [x] \<and> in_flight x \<and> tx_wallet x = ''hot'' \<and> tx_chain x = 14 \<and> tx_nonce x = 5"
    using run
  proof (cases rule: sign_handler_cases)
    case (replayed x)
    then show ?thesis by (simp add: sample_sign_defs)
  next
    case (signed v)
    then show ?thesis
      by (auto simp: fresh_effect_def stored_def Let_def reserved_def new_tx_row_def in_flight_def
          sample_db_def sample_body_def body_request_def empty_txs_def)
  qed simp_all
  ultimately show ?thesis by blast
qed

lemma reachable_db_wf_witness: "\<exists>d. length (transactions (db_txs d)) = 1 \<and> db_wf d"
proof -
  obtain d x where "reachable False d" "transactions (db_txs d) = [x]" using sample_signed by blast
  then show ?thesis using reachable_db_wf by (intro exI [of _ d]) simp
qed

lemma history_append_only_witness:
  "\<exists>d x. transactions (db_txs d) = [x] \<and> history empty_db d \<and> (served False)\<^sup>*\<^sup>* empty_db d"
  using sample_signed history_append_only unfolding reachable_def by blast




end
