(* ===== verification/Sealed_Master.thy ===== *)
theory Sealed_Master
  imports Fwd_Prelude
begin

section \<open>The sealed master key and the health probes\<close>

text \<open>
  \<open>infra/sealed_master.py\<close>: opening the master key file with every custody check, and the envelope
  \<open>seal:v1:<base64>\<close>; \<open>app/health.py\<close> and \<open>api/health.py\<close>: the two probes of \<open>/healthz\<close>.  AES-GCM is a
  parameter, base64 is Python's.  What a path names is the record \<open>key_file\<close>; the descriptor that is opened
  and the bytes that are read from it belong to one file, so a file that is swapped between a stat and an
  open is a different argument of the two probes.
\<close>

subsection \<open>The key file\<close>

text \<open>\<open>stat\<close> results: \<open>S_ISREG\<close>, \<open>S_IMODE\<close>, owner, size; and what reading gives.\<close>

record key_file =
  kf_regular :: bool
  kf_mode :: nat
  kf_uid :: int
  kf_size :: nat
  kf_bytes :: "byte list"

text \<open>What the path names: nothing, a file that cannot be opened or examined, a symbolic link (with what it leads
  to) or a file.\<close>

datatype key_path =
    NoPath
  | Unreadable "key_file option"
  | Link "key_file option"
  | At key_file

text \<open>\<open>SealError\<close>, with the check that failed.\<close>

datatype seal_failure =
    KeyNotFound
  | KeyNotOpened
  | KeyNotRegular
  | KeyBadMode nat
  | KeyBadOwner
  | KeyBadSize nat

definition open_master :: "int \<Rightarrow> key_path \<Rightarrow> seal_failure + byte list" where
  "open_master euid path =
     (case path of
        NoPath \<Rightarrow> Inl KeyNotFound
      | Unreadable _ \<Rightarrow> Inl KeyNotOpened
      | Link _ \<Rightarrow> Inl KeyNotOpened
      | At f \<Rightarrow>
          if \<not> kf_regular f then Inl KeyNotRegular
          else if kf_mode f \<noteq> 0x180 then Inl (KeyBadMode (kf_mode f))
          else if kf_uid f \<noteq> euid then Inl KeyBadOwner
          else if kf_size f \<noteq> 32 then Inl (KeyBadSize (kf_size f))
          else (let raw = take 33 (kf_bytes f)
                in if length raw \<noteq> 32 then Inl (KeyBadSize (length raw)) else Inr raw))"

text \<open>\<open>__aexit__\<close>.\<close>

definition close_master :: "byte list \<Rightarrow> byte list" where
  "close_master master = map (\<lambda>_. 0) master"

subsection \<open>Base64\<close>

definition b64_char :: "nat \<Rightarrow> char" where
  "b64_char n = (if n < 26 then char_of (n + 65) else if n < 52 then char_of (n + 71)
     else if n < 62 then char_of (n - 4) else if n = 62 then CHR ''+'' else CHR ''/'')"

definition b64_val :: "char \<Rightarrow> nat option" where
  "b64_val c = (let k = char_code c in
     if 65 \<le> k \<and> k \<le> 90 then Some (k - 65)
     else if 97 \<le> k \<and> k \<le> 122 then Some (k - 71)
     else if 48 \<le> k \<and> k \<le> 57 then Some (k + 4)
     else if k = 43 then Some 62
     else if k = 47 then Some 63 else None)"

fun b64encode :: "byte list \<Rightarrow> string" where
  "b64encode [] = []"
| "b64encode [a] = [b64_char (unat a div 4), b64_char (unat a mod 4 * 16), CHR ''='', CHR ''='']"
| "b64encode [a, b] = [b64_char (unat a div 4), b64_char (unat a mod 4 * 16 + unat b div 16),
     b64_char (unat b mod 16 * 4), CHR ''='']"
| "b64encode (a # b # c # r) =
     b64_char (unat a div 4) # b64_char (unat a mod 4 * 16 + unat b div 16) #
     b64_char (unat b mod 16 * 4 + unat c div 64) # b64_char (unat c mod 64) # b64encode r"

text \<open>\<open>binascii.a2b_base64\<close> without strict mode: characters outside the alphabet are skipped, a complete
  padding ends the input; \<open>None\<close> is \<open>binascii.Error\<close>.  \<open>quad\<close> counts the characters of the group,
  \<open>pads\<close> its padding, \<open>left\<close> holds the bits that are left over.\<close>

fun a2b_base64 :: "nat \<Rightarrow> nat \<Rightarrow> nat \<Rightarrow> string \<Rightarrow> byte list option" where
  "a2b_base64 quad pads left [] = (if quad = 0 then Some [] else None)"
| "a2b_base64 quad pads left (c # cs) =
     (if c = CHR ''='' then
        (if 2 \<le> quad \<and> 4 \<le> quad + (pads + 1) then Some []
         else a2b_base64 quad (if 2 \<le> quad then pads + 1 else pads) left cs)
      else (case b64_val c of
          None \<Rightarrow> a2b_base64 quad pads left cs
        | Some v \<Rightarrow>
            if quad = 0 then a2b_base64 1 0 v cs
            else if quad = 1 then map_option (Cons (of_nat (left * 4 + v div 16))) (a2b_base64 2 0 (v mod 16) cs)
            else if quad = 2 then map_option (Cons (of_nat (left * 16 + v div 4))) (a2b_base64 3 0 (v mod 4) cs)
            else map_option (Cons (of_nat (left * 64 + v))) (a2b_base64 0 0 0 cs)))"

definition b64decode :: "string \<Rightarrow> byte list option" where
  "b64decode s = a2b_base64 0 0 0 s"

subsection \<open>The envelope\<close>

text \<open>AES-GCM with a key and a nonce; \<open>None\<close> is any exception of the library.\<close>

record aead =
  ae_encrypt :: "byte list \<Rightarrow> byte list \<Rightarrow> byte list \<Rightarrow> byte list"
  ae_decrypt :: "byte list \<Rightarrow> byte list \<Rightarrow> byte list \<Rightarrow> byte list option"

definition seal_prefix :: string where
  "seal_prefix = ''seal:v1:''"

definition seal_encrypt :: "aead \<Rightarrow> byte list \<Rightarrow> byte list \<Rightarrow> byte list \<Rightarrow> string" where
  "seal_encrypt lib master nonce plaintext = seal_prefix @ b64encode (nonce @ ae_encrypt lib master nonce plaintext)"

text \<open>\<open>b64decode\<close> is outside the \<open>try\<close>: its \<open>binascii.Error\<close>, here \<open>OtherError\<close>, is not turned into a
  \<open>SealError\<close>.\<close>

definition seal_decrypt :: "aead \<Rightarrow> byte list \<Rightarrow> string \<Rightarrow> exn + byte list" where
  "seal_decrypt lib master ciphertext =
     (if \<not> starts_with ciphertext seal_prefix then Inl SealError
      else (case b64decode (drop (length seal_prefix) ciphertext) of
          None \<Rightarrow> Inl OtherError
        | Some blob \<Rightarrow> (case ae_decrypt lib master (take 12 blob) (drop 12 blob) of
            None \<Rightarrow> Inl SealError
          | Some plaintext \<Rightarrow> Inr plaintext)))"

subsection \<open>The probes\<close>

text \<open>\<open>os.stat\<close> follows links and does not open the file.\<close>

definition path_stat :: "key_path \<Rightarrow> key_file option" where
  "path_stat path = (case path of NoPath \<Rightarrow> None | Unreadable f \<Rightarrow> f | Link f \<Rightarrow> f | At f \<Rightarrow> Some f)"

definition master_status :: "int \<Rightarrow> key_path \<Rightarrow> bool" where
  "master_status euid path =
     (case path_stat path of
        None \<Rightarrow> False
      | Some f \<Rightarrow>
          if \<not> kf_regular f then False
          else if kf_mode f \<noteq> 0x180 then False
          else if kf_uid f \<noteq> euid then False
          else if kf_size f \<noteq> 32 then False
          else True)"

definition sealed_master_liveness :: "int \<Rightarrow> key_path \<Rightarrow> bool" where
  "sealed_master_liveness euid path = (case open_master euid path of Inl e \<Rightarrow> False | Inr m \<Rightarrow> True)"

definition probe_word :: "bool \<Rightarrow> string" where
  "probe_word b = (if b then ''ok'' else ''unavailable'')"

text \<open>Status and body.\<close>

definition healthz :: "int \<Rightarrow> key_path \<Rightarrow> int \<times> (string \<times> string) list" where
  "healthz euid path =
     (let sealed = sealed_master_liveness euid path; master = master_status euid path
      in if \<not> sealed then (503, [(''status'', ''degraded''), (''detail'', ''sealed master unavailable'')])
         else (200, [(''master'', probe_word master), (''sealed_master'', probe_word sealed), (''fwd'', ''ok'')]))"

subsection \<open>Base64 read back\<close>

lemma b64_val_char [simp]: "n < 64 \<Longrightarrow> b64_val (b64_char n) = Some n"
  by (auto simp: b64_val_def b64_char_def Let_def)

lemma b64_char_not_pad [simp]: "n < 64 \<Longrightarrow> b64_char n \<noteq> CHR ''=''"
proof
  assume "n < 64" "b64_char n = CHR ''=''"
  then have "b64_val (CHR ''='') = Some n" using b64_val_char by metis
  then show False by (simp add: b64_val_def)
qed

text \<open>The bits of a byte, split and put together again.\<close>

lemma byte_bound [simp]: "unat (a :: byte) < 256"
  using unsigned_less [of a] by simp

lemma sextets [simp]:
  "unat (a :: byte) div 4 < 64" "unat a mod 4 * 16 + unat (b :: byte) div 16 < 64"
  "unat b mod 16 * 4 + unat (c :: byte) div 64 < 64" "unat c mod 64 < 64" "unat a mod 4 * 16 < 64" "unat b mod 16 * 4 < 64"
proof -
  have "unat a div 4 < 64" "unat b div 16 < 16" "unat c div 64 < 4" by (simp_all add: less_mult_imp_div_less)
  moreover have "unat a mod 4 < 4" "unat b mod 16 < 16" "unat c mod 64 < 64" by simp_all
  ultimately show "unat a div 4 < 64" "unat a mod 4 * 16 + unat b div 16 < 64" "unat b mod 16 * 4 + unat c div 64 < 64"
    "unat c mod 64 < 64" "unat a mod 4 * 16 < 64" "unat b mod 16 * 4 < 64" by linarith+
qed

lemma high_bits [simp]:
  "unat (b :: byte) div 16 div 16 = 0" "unat b div 16 mod 16 = unat b div 16"
  "unat b div 64 div 4 = 0" "unat b div 64 mod 4 = unat b div 64"
  by (simp_all add: less_mult_imp_div_less)

text \<open>One character of the alphabet, and the paddings.\<close>

lemma a2b_steps:
  assumes "v < 64"
  shows "a2b_base64 0 p l (b64_char v # cs) = a2b_base64 1 0 v cs"
    "a2b_base64 1 p l (b64_char v # cs) = map_option (Cons (of_nat (l * 4 + v div 16))) (a2b_base64 2 0 (v mod 16) cs)"
    "a2b_base64 2 p l (b64_char v # cs) = map_option (Cons (of_nat (l * 16 + v div 4))) (a2b_base64 3 0 (v mod 4) cs)"
    "a2b_base64 3 p l (b64_char v # cs) = map_option (Cons (of_nat (l * 64 + v))) (a2b_base64 0 0 0 cs)"
  using assms by simp_all

lemma a2b_pads: "a2b_base64 2 0 l ''=='' = Some []" "a2b_base64 3 0 l ''='' = Some []"
  by simp_all

lemma group_bytes:
  "(of_nat (unat (a :: byte) div 4 * 4 + (unat a mod 4 * 16 + unat (b :: byte) div 16) div 16) :: byte) = a"
  "(of_nat ((unat a mod 4 * 16 + unat b div 16) mod 16 * 16 + (unat b mod 16 * 4 + unat (c :: byte) div 64) div 4) :: byte) = b"
  "(of_nat ((unat b mod 16 * 4 + unat c div 64) mod 4 * 64 + unat c mod 64) :: byte) = c"
  "(of_nat (unat a div 4 * 4 + unat a mod 4 * 16 div 16) :: byte) = a"
  "(of_nat ((unat a mod 4 * 16 + unat b div 16) mod 16 * 16 + unat b mod 16 * 4 div 4) :: byte) = b"
proof -
  have "unat a div 4 * 4 + (unat a mod 4 * 16 + unat b div 16) div 16 = unat a" by simp
  then show "(of_nat (unat a div 4 * 4 + (unat a mod 4 * 16 + unat b div 16) div 16) :: byte) = a"
    by (simp only: of_nat_unat ucast_id)
  have "(unat a mod 4 * 16 + unat b div 16) mod 16 * 16 + (unat b mod 16 * 4 + unat c div 64) div 4 = unat b" by simp
  then show "(of_nat ((unat a mod 4 * 16 + unat b div 16) mod 16 * 16 + (unat b mod 16 * 4 + unat c div 64) div 4) :: byte) = b"
    by (simp only: of_nat_unat ucast_id)
  have "(unat b mod 16 * 4 + unat c div 64) mod 4 * 64 + unat c mod 64 = unat c" by simp
  then show "(of_nat ((unat b mod 16 * 4 + unat c div 64) mod 4 * 64 + unat c mod 64) :: byte) = c"
    by (simp only: of_nat_unat ucast_id)
  have "unat a div 4 * 4 + unat a mod 4 * 16 div 16 = unat a" by simp
  then show "(of_nat (unat a div 4 * 4 + unat a mod 4 * 16 div 16) :: byte) = a" by (simp only: of_nat_unat ucast_id)
  have "(unat a mod 4 * 16 + unat b div 16) mod 16 * 16 + unat b mod 16 * 4 div 4 = unat b" by simp
  then show "(of_nat ((unat a mod 4 * 16 + unat b div 16) mod 16 * 16 + unat b mod 16 * 4 div 4) :: byte) = b"
    by (simp only: of_nat_unat ucast_id)
qed

lemma b64decode_encode: "b64decode (b64encode bs) = Some bs"
  unfolding b64decode_def
proof (induction bs rule: b64encode.induct)
  case 1
  show ?case by simp
next
  case (2 a)
  show ?case
    unfolding b64encode.simps a2b_steps(1) [OF sextets(1)] a2b_steps(2) [OF sextets(5)] a2b_pads
    by (simp only: group_bytes option.map)
next
  case (3 a b)
  show ?case
    unfolding b64encode.simps a2b_steps(1) [OF sextets(1)] a2b_steps(2) [OF sextets(2)] a2b_steps(3) [OF sextets(6)] a2b_pads
    by (simp only: group_bytes option.map)
next
  case (4 a b c r)
  then show ?case
    unfolding b64encode.simps a2b_steps(1) [OF sextets(1)] a2b_steps(2) [OF sextets(2)] a2b_steps(3) [OF sextets(3)]
      a2b_steps(4) [OF sextets(4)]
    by (simp only: group_bytes option.map)
qed

lemma b64encode_inj: "b64encode xs = b64encode ys \<Longrightarrow> xs = ys"
  by (drule arg_cong [of _ _ b64decode]) (simp only: b64decode_encode option.inject)

subsection \<open>Sealing\<close>

lemma seal_strip: "starts_with (seal_prefix @ s) seal_prefix" "drop (length seal_prefix) (seal_prefix @ s) = s"
  by (simp_all add: starts_with_def)


definition shift_lib :: aead where
  "shift_lib = \<lparr>ae_encrypt = \<lambda>k n p. map (\<lambda>b. b + 1) p, ae_decrypt = \<lambda>k n c. Some (map (\<lambda>b. b - 1) c)\<rparr>"


subsection \<open>Custody\<close>

lemma open_master_Inr:
  "open_master euid path = Inr m \<longleftrightarrow> (\<exists>f. path = At f \<and> kf_regular f \<and> kf_mode f = 0x180 \<and> kf_uid f = euid \<and>
     kf_size f = 32 \<and> length (take 33 (kf_bytes f)) = 32 \<and> m = take 33 (kf_bytes f))"
  by (cases path) (auto simp: open_master_def Let_def)

text \<open>The health endpoint tells the truth: it answers 200 exactly when the master key can be opened, that is
  when the path names, not through a link, a regular file of mode 0600, owned by the daemon, of 32 bytes; the
  key it holds then is that file's content; and both probes of a 200 say \<open>ok\<close>.\<close>

theorem healthz_exact:
  "(fst (healthz euid path) = 200 \<longleftrightarrow> (\<exists>m. open_master euid path = Inr m)) \<and>
   (fst (healthz euid path) = 200 \<longleftrightarrow> (\<exists>f. path = At f \<and> kf_regular f \<and> kf_mode f = 0x180 \<and> kf_uid f = euid \<and>
      kf_size f = 32 \<and> length (kf_bytes f) = 32 \<and> open_master euid path = Inr (kf_bytes f))) \<and>
   healthz euid path =
     (if \<exists>m. open_master euid path = Inr m
      then (200, [(''master'', ''ok''), (''sealed_master'', ''ok''), (''fwd'', ''ok'')])
      else (503, [(''status'', ''degraded''), (''detail'', ''sealed master unavailable'')]))"
proof (cases "open_master euid path")
  case (Inl e)
  then show ?thesis by (simp add: healthz_def sealed_master_liveness_def)
next
  case (Inr m)
  then obtain f where f: "path = At f" "kf_regular f" "kf_mode f = 0x180" "kf_uid f = euid" "kf_size f = 32"
    "length (take 33 (kf_bytes f)) = 32" "m = take 33 (kf_bytes f)"
    by (auto simp: open_master_Inr)
  from f(6) have "length (kf_bytes f) = 32" by simp
  moreover from f(6) this have "m = kf_bytes f" by (simp add: f(7))
  ultimately show ?thesis
    using Inr f by (simp add: healthz_def sealed_master_liveness_def master_status_def path_stat_def probe_word_def)
qed

text \<open>The stat probe alone would accept a key behind a link or one that cannot be read.\<close>

lemma stat_probe_weaker:
  "master_status euid (Link (Some f)) = master_status euid (At f)" "open_master euid (Link (Some f)) = Inl KeyNotOpened"
  by (simp_all add: master_status_def path_stat_def open_master_def)

lemma close_master_zero: "close_master m = replicate (length m) 0"
  by (simp add: close_master_def map_replicate_const)

end
