(* ===== verification/Uuid7.thy ===== *)
theory Uuid7
  imports Fwd_Prelude
begin

unbundle bit_operations_syntax

section \<open>Transaction ids\<close>

text \<open>
  \<open>infra/uuidv7.py\<close>: the version-7 UUID as an integer put together by shifts and masks, and its text.  The
  clock, in milliseconds, and the random bytes are arguments; integers are Python's.
\<close>

text \<open>\<open>int.from_bytes(bs, "big")\<close>.\<close>

definition be_int :: "byte list \<Rightarrow> int" where
  "be_int bs = foldl (\<lambda>n b. 256 * n + uint b) 0 bs"

definition uuid7_int :: "int \<Rightarrow> byte list \<Rightarrow> byte list \<Rightarrow> int" where
  "uuid7_int ms rand2 rand8 =
     (let rand_a = be_int rand2 AND 0x0FFF;
          rand_b = be_int rand8 AND 0x3FFFFFFFFFFFFFFF
      in push_bit 80 (ms AND 0xFFFFFFFFFFFF) OR push_bit 76 0x7 OR push_bit 64 (rand_a AND 0xFFF) OR push_bit 62 0x2 OR rand_b)"

text \<open>\<open>str(uuid.UUID(int=u))\<close>: 32 hex digits in five groups.\<close>

fun hex_digits :: "nat \<Rightarrow> int \<Rightarrow> string" where
  "hex_digits 0 u = []"
| "hex_digits (Suc n) u = hex_char (nat (u div 16 ^ n mod 16)) # hex_digits n u"

definition uuid_text :: "int \<Rightarrow> string" where
  "uuid_text u =
     (let h = hex_digits 32 u
      in take 8 h @ CHR ''-'' # take 4 (drop 8 h) @ CHR ''-'' # take 4 (drop 12 h) @ CHR ''-'' #
         take 4 (drop 16 h) @ CHR ''-'' # drop 20 h)"

definition uuid7_str :: "int \<Rightarrow> byte list \<Rightarrow> byte list \<Rightarrow> string" where
  "uuid7_str ms rand2 rand8 = uuid_text (uuid7_int ms rand2 rand8)"

subsection \<open>The layout\<close>

lemma or_push:
  assumes "0 \<le> y" "y < 2 ^ n"
  shows "push_bit n x OR y = x * 2 ^ n + (y :: int)"
proof -
  have "take_bit n y = y" using assms by (simp add: take_bit_int_eq_self)
  then have "\<not> bit (push_bit n x) k \<or> \<not> bit y k" for k
    by (metis bit_push_bit_iff bit_take_bit_iff not_le)
  then have "push_bit n x + y = push_bit n x OR y" by (rule disjunctive_add)
  then show ?thesis by (simp add: push_bit_eq_mult)
qed

lemma masks:
  "(x :: int) AND 0xFFF = x mod 2 ^ 12" "x AND 0x3FFFFFFFFFFFFFFF = x mod 2 ^ 62" "x AND 0xFFFFFFFFFFFF = x mod 2 ^ 48"
  using take_bit_eq_mask [of 12 x] take_bit_eq_mask [of 62 x] take_bit_eq_mask [of 48 x]
  by (simp_all add: mask_eq_exp_minus_1 take_bit_eq_mod)

lemma uuid7_sum:
  "uuid7_int ms r2 r8 = ms mod 2 ^ 48 * 2 ^ 80 + (7 * 2 ^ 76 + (be_int r2 mod 2 ^ 12 * 2 ^ 64 + (2 * 2 ^ 62 + be_int r8 mod 2 ^ 62)))"
proof -
  let ?a = "be_int r2 mod 2 ^ 12" and ?b = "be_int r8 mod 2 ^ 62"
  have b: "0 \<le> ?b" "?b < 2 ^ 62" and a: "0 \<le> ?a" "?a < 2 ^ 12" by simp_all
  have d: "push_bit 62 2 OR ?b = 2 * 2 ^ 62 + ?b" by (rule or_push [OF b])
  have c: "push_bit 64 ?a OR (2 * 2 ^ 62 + ?b) = ?a * 2 ^ 64 + (2 * 2 ^ 62 + ?b)"
    by (rule or_push) (use b in simp_all)
  have e: "push_bit 76 7 OR (?a * 2 ^ 64 + (2 * 2 ^ 62 + ?b)) = 7 * 2 ^ 76 + (?a * 2 ^ 64 + (2 * 2 ^ 62 + ?b))"
    by (rule or_push) (use a b in simp_all)
  have f: "push_bit 80 (ms mod 2 ^ 48) OR (7 * 2 ^ 76 + (?a * 2 ^ 64 + (2 * 2 ^ 62 + ?b))) =
      ms mod 2 ^ 48 * 2 ^ 80 + (7 * 2 ^ 76 + (?a * 2 ^ 64 + (2 * 2 ^ 62 + ?b)))"
    by (rule or_push) (use a b in simp_all)
  have "?a mod 2 ^ 12 = ?a" by simp
  then have "uuid7_int ms r2 r8 = push_bit 80 (ms mod 2 ^ 48) OR (push_bit 76 7 OR (push_bit 64 ?a OR (push_bit 62 2 OR ?b)))"
    unfolding uuid7_int_def Let_def masks by (simp only: or.assoc)
  then show ?thesis by (simp only: d c e f)
qed

lemma uuid7_parts:
  "0 \<le> uuid7_int ms r2 r8 \<and> uuid7_int ms r2 r8 < 2 ^ 128 \<and>
   uuid7_int ms r2 r8 div 2 ^ 80 = ms mod 2 ^ 48 \<and>
   uuid7_int ms r2 r8 div 2 ^ 76 mod 16 = 7 \<and>
   uuid7_int ms r2 r8 div 2 ^ 62 mod 4 = 2 \<and>
   uuid7_int ms r2 r8 div 2 ^ 64 mod 2 ^ 12 = be_int r2 mod 2 ^ 12 \<and>
   uuid7_int ms r2 r8 mod 2 ^ 62 = be_int r8 mod 2 ^ 62"
proof -
  define t a b where "t = ms mod 2 ^ 48" and "a = be_int r2 mod 2 ^ 12" and "b = be_int r8 mod 2 ^ 62"
  have range: "0 \<le> t" "t < 2 ^ 48" "0 \<le> a" "a < 2 ^ 12" "0 \<le> b" "b < 2 ^ 62" by (simp_all add: t_def a_def b_def)
  define u where "u = uuid7_int ms r2 r8"
  have u: "u = (((t * 16 + 7) * 2 ^ 12 + a) * 4 + 2) * 2 ^ 62 + b"
    unfolding u_def uuid7_sum t_def a_def b_def by simp
  have cut: "(x * m + y) div m = x" "(x * m + y) mod m = y" if "0 \<le> y" "y < m" for x y m :: int
    using that by simp_all
  have d62: "u div 2 ^ 62 = ((t * 16 + 7) * 2 ^ 12 + a) * 4 + 2" "u mod 2 ^ 62 = b"
    unfolding u by (rule cut [OF range(5,6)])+
  have d64: "u div 2 ^ 64 = (t * 16 + 7) * 2 ^ 12 + a"
    using zdiv_zmult2_eq [of 4 u "2 ^ 62"] unfolding d62 by simp
  have d76: "u div 2 ^ 76 = t * 16 + 7"
    using zdiv_zmult2_eq [of "2 ^ 12" u "2 ^ 64"] cut(1) [OF range(3,4), of "t * 16 + 7"] unfolding d64 by simp
  have d80: "u div 2 ^ 80 = t"
    using zdiv_zmult2_eq [of 16 u "2 ^ 76"] unfolding d76 by simp
  have "u div 2 ^ 64 mod 2 ^ 12 = a" unfolding d64 by (rule cut [OF range(3,4)])
  moreover have tags: "u div 2 ^ 76 mod 16 = 7" "u div 2 ^ 62 mod 4 = 2"
    unfolding d76 d62 by (rule cut(2); simp)+
  moreover have "0 \<le> u" "u < 2 ^ 128" unfolding u using range by simp_all
  ultimately show ?thesis
    unfolding u_def [symmetric] t_def [symmetric] a_def [symmetric] b_def [symmetric]
    using d62(2) d80 tags by blast
qed

lemmas uuid7_fields = uuid7_parts [THEN conjunct1] uuid7_parts [THEN conjunct2, THEN conjunct1]
  uuid7_parts [THEN conjunct2, THEN conjunct2, THEN conjunct1]

text \<open>A transaction id is a version-7 UUID of 128 bits: its top 48 bits are the clock, its version is 7, its
  variant is binary 10, and the other bits are the random bits, so no field overflows into another.\<close>

theorem uuid7_layout:
  "0 \<le> uuid7_int ms r2 r8 \<and> uuid7_int ms r2 r8 < 2 ^ 128 \<and>
   uuid7_int ms r2 r8 div 2 ^ 80 = ms mod 2 ^ 48 \<and>
   uuid7_int ms r2 r8 div 2 ^ 76 mod 16 = 7 \<and>
   uuid7_int ms r2 r8 div 2 ^ 62 mod 4 = 2 \<and>
   uuid7_int ms r2 r8 div 2 ^ 64 mod 2 ^ 12 = be_int r2 mod 2 ^ 12 \<and>
   uuid7_int ms r2 r8 mod 2 ^ 62 = be_int r8 mod 2 ^ 62"
  by (rule uuid7_parts)

subsection \<open>The order of the ids\<close>

lemma lex_append: "length xs = length ys \<Longrightarrow> (xs @ s < ys @ t) \<longleftrightarrow> xs < ys \<or> xs = ys \<and> s < (t :: string)"
  by (induction xs ys rule: list_induct2) auto

lemma hex_char_mono: "m < n \<Longrightarrow> n < 16 \<Longrightarrow> hex_char m < hex_char n"
  by (auto simp: hex_char_def less_char_def)

lemma length_hex_digits [simp]: "length (hex_digits n u) = n"
  by (induction n) simp_all

lemma hex_digits_mono:
  "0 \<le> u \<Longrightarrow> u < v \<Longrightarrow> u div 16 ^ n = v div 16 ^ n \<Longrightarrow> hex_digits n u < hex_digits n v"
proof (induction n)
  case (Suc n)
  let ?i = "u div 16 ^ n" and ?j = "v div 16 ^ n"
  have high: "?i div 16 = ?j div 16"
    using Suc(4) zdiv_zmult2_eq [of 16 u "16 ^ n"] zdiv_zmult2_eq [of 16 v "16 ^ n"] by (simp add: mult.commute)
  show ?case
  proof (cases "?i = ?j")
    case True
    with Suc show ?thesis by simp
  next
    case False
    moreover have "?i \<le> ?j" using Suc(3) by (intro zdiv_mono1) simp_all
    ultimately have "?i mod 16 < ?j mod 16" using high div_mult_mod_eq [of ?i 16] div_mult_mod_eq [of ?j 16] by linarith
    then have "nat (?i mod 16) < nat (?j mod 16)" "nat (?j mod 16) < 16" by simp_all
    then have "hex_char (nat (?i mod 16)) < hex_char (nat (?j mod 16))" by (rule hex_char_mono)
    then show ?thesis by simp
  qed
qed simp

lemma uuid_text_mono:
  assumes "0 \<le> u" "u < v" "v < 2 ^ 128"
  shows "uuid_text u < uuid_text v"
proof -
  let ?g = "hex_digits 32 u" and ?h = "hex_digits 32 v"
  have parts: "h = take 8 h @ take 4 (drop 8 h) @ take 4 (drop 12 h) @ take 4 (drop 16 h) @ drop 20 h" for h :: string
    using append_take_drop_id [of 8 h] append_take_drop_id [of 4 "drop 8 h"] append_take_drop_id [of 4 "drop 12 h"]
      append_take_drop_id [of 4 "drop 16 h"] by (metis (no_types, lifting) drop_drop numeral_plus_numeral add_num_simps)
  have "?g < ?h" using assms by (intro hex_digits_mono) simp_all
  then show ?thesis
    unfolding uuid_text_def Let_def
    by (subst (asm) parts, subst (asm) (8) parts) (simp add: lex_append)
qed

text \<open>Ids are ordered by time: an id drawn in a later millisecond is greater, as an integer and as the text
  SQLite compares, whatever the random bytes were, as long as the clock fits its 48 bits.\<close>

theorem uuid7_time_ordered:
  assumes "0 \<le> ms" "ms < ms'" "ms' < 2 ^ 48"
  shows "uuid7_int ms r2 r8 < uuid7_int ms' r2' r8' \<and> uuid7_str ms r2 r8 < uuid7_str ms' r2' r8'"
proof -
  have "uuid7_int ms r2 r8 div 2 ^ 80 = ms" "uuid7_int ms' r2' r8' div 2 ^ 80 = ms'"
    using uuid7_fields(3) [of ms r2 r8] uuid7_fields(3) [of ms' r2' r8'] assms by simp_all
  then have "uuid7_int ms r2 r8 < uuid7_int ms' r2' r8'"
    using assms(2) zdiv_mono1 [of "uuid7_int ms' r2' r8'" "uuid7_int ms r2 r8" "2 ^ 80"] by fastforce
  with uuid_text_mono uuid7_fields(1,2) show ?thesis unfolding uuid7_str_def by blast
qed

lemma uuid7_time_ordered_witness:
  "uuid7_str 1700000000000 [255, 255] (replicate 8 255) < uuid7_str 1700000000001 [0, 0] (replicate 8 0)"
  using uuid7_time_ordered [of 1700000000000 1700000000001] by simp

end
