(* ===== verification/Json_Total.thy ===== *)
theory Json_Total
  imports Capability_Grant
begin

section \<open>The JSON reader never gives up\<close>

text \<open>
  \<open>json.loads\<close> is modelled with fuel.  Every reader consumes at least one character of what it is given, so
  two units of fuel per character always suffice: more fuel never changes a result, and \<open>None\<close> is always the
  \<open>ValueError\<close> of the source.
\<close>

subsection \<open>Every reader consumes\<close>

lemma skip_ws_length: "length (skip_ws s) \<le> length s"
  by (simp add: skip_ws_def length_dropWhile_le)

lemma json_string_shorter: "json_string s = Some (t, r) \<Longrightarrow> length r < length s"
proof (induction s arbitrary: t rule: json_string.induct)
  case (2 c cs)
  show ?case
  proof (cases "c = CHR 0x22 \<or> c \<noteq> CHR 0x5C")
    case True
    with 2 show ?thesis by (auto split: if_splits) fastforce?
  next
    case False
    then have c: "c \<noteq> CHR 0x22" "c = CHR 0x5C" by simp_all
    with 2(4) obtain e es where es: "cs = e # es" by (cases cs) auto
    show ?thesis
    proof (cases "e = CHR ''u''")
      case True
      with 2(4) c es obtain n q u where "json_unicode es = Some (n, q)" "json_string q = Some (u, r)"
        by (auto split: option.splits)
      with 2(1) [OF c es True this(1) refl] json_unicode_shorter [of es n q] es show ?thesis by fastforce
    next
      case False
      with 2(4) c es obtain x u where "json_simple_escape e = Some x" "json_string es = Some (u, r)"
        by (auto split: option.splits)
      with 2(2) [OF c es False this(1)] es show ?thesis by fastforce
    qed
  qed
qed simp

lemma strip_prefix_length: "strip_prefix p s = Some r \<Longrightarrow> length s = length p + length r"
  by (induction p s rule: strip_prefix.induct) (auto split: if_splits)

lemma frac_exp_length: "length (snd (json_frac s)) \<le> length s" "length (snd (json_exp s)) \<le> length s"
proof -
  have digits: "length (snd (take_digits t)) \<le> length t" for t by (simp add: take_digits_def length_dropWhile_le)
  show "length (snd (json_frac s)) \<le> length s"
    using digits [of "tl s"] by (cases s) (auto simp: json_frac_def)
  show "length (snd (json_exp s)) \<le> length s"
    using digits [of "tl s"] digits [of "tl (tl s)"] by (cases s; cases "tl s") (auto simp: json_exp_def Let_def)
qed

lemma json_number_shorter: "json_number s = Some (v, r) \<Longrightarrow> length r < length s"
proof -
  assume read: "json_number s = Some (v, r)"
  define s1 where "s1 = snd (case s of c # cs \<Rightarrow> if c = CHR ''-'' then ([c], cs) else ([], s) | [] \<Rightarrow> ([], s))"
  define ds where "ds = fst (take_digits s1)"
  define ip r1 where "ip = fst (if ds \<noteq> [] \<and> hd ds = CHR ''0'' then (''0'', tl s1) else (ds, snd (take_digits s1)))"
    and "r1 = snd (if ds \<noteq> [] \<and> hd ds = CHR ''0'' then (''0'', tl s1) else (ds, snd (take_digits s1)))"
  have r: "ip \<noteq> []" "r = snd (json_exp (snd (json_frac r1)))"
    using read unfolding json_number_def Let_def split_beta s1_def [symmetric] ds_def [symmetric] ip_def [symmetric] r1_def [symmetric]
    by (auto split: if_splits)
  have "length s1 \<le> length s" by (cases s) (simp_all add: s1_def)
  moreover have "length r1 < length s1"
  proof -
    from r(1) have "ds \<noteq> []" by (auto simp: ip_def split: if_splits)
    then have "0 < length (takeWhile is_digit s1)" by (simp add: ds_def take_digits_def)
    moreover have "length s1 = length (takeWhile is_digit s1) + length (dropWhile is_digit s1)"
      by (metis length_append takeWhile_dropWhile_id)
    moreover have "r1 = tl s1 \<or> r1 = dropWhile is_digit s1" by (auto simp: r1_def take_digits_def)
    ultimately show ?thesis using length_tl [of s1] by (elim disjE) simp_all
  qed
  moreover have "length r \<le> length r1"
    unfolding r(2) using frac_exp_length(1) [of r1] frac_exp_length(2) [of "snd (json_frac r1)"] by linarith
  ultimately show ?thesis by linarith
qed

lemma literal_shorter:
  assumes "(case strip_prefix (c # p) s of None \<Rightarrow> rest | Some t \<Rightarrow> Some (x, t)) = Some (v, r)"
  shows "length r < length s \<or> rest = Some (v, r)"
  using assms by (cases "strip_prefix (c # p) s") (auto dest: strip_prefix_length)

lemma json_scalar_shorter:
  assumes "json_scalar s = Some (v, r)"
  shows "length r < length s"
proof -
  note l1 = literal_shorter [OF assms [unfolded json_scalar_def]]
  have step: "length r < length s \<or> rest = Some (v, r)"
    if "length r < length s \<or> (case strip_prefix (c # p) s of None \<Rightarrow> rest | Some t \<Rightarrow> Some (x, t)) = Some (v, r)" for c p x rest
    using that literal_shorter by (elim disjE) simp_all
  note l2 = step [OF l1]
  note l3 = step [OF l2]
  note l4 = step [OF l3]
  note l5 = step [OF l4]
  from step [OF l5] json_number_shorter show ?thesis by blast
qed

lemma value_step:
  assumes "json_value (Suc n) s = Some (v, r)" "\<And>t vs r. json_elems n t = Some (vs, r) \<Longrightarrow> length r < length t"
    "\<And>t kvs r. json_members n t = Some (kvs, r) \<Longrightarrow> length r < length t"
  shows "length r < length s"
proof (cases s)
  case (Cons c cs)
  note ws = skip_ws_length [of cs]
  consider "c = CHR 0x22" | "c = CHR ''[''" | "c = CHR ''{''" | "c \<noteq> CHR 0x22" "c \<noteq> CHR ''[''" "c \<noteq> CHR ''{''" by blast
  then show ?thesis
  proof cases
    case 1
    with assms(1) Cons show ?thesis by (auto dest!: json_string_shorter)
  next
    case 2
    with assms(1) Cons obtain d t where t: "skip_ws cs = d # t" by (cases "skip_ws cs") auto
    with assms(1) Cons 2 consider "r = t" | vs where "json_elems n (d # t) = Some (vs, r)" by (auto split: if_splits)
    then show ?thesis using ws t Cons assms(2) [of "d # t" _ r] by cases fastforce+
  next
    case 3
    with assms(1) Cons obtain d t where t: "skip_ws cs = d # t" by (cases "skip_ws cs") auto
    with assms(1) Cons 3 consider "r = t" | kvs where "json_members n (d # t) = Some (kvs, r)" by (auto split: if_splits)
    then show ?thesis using ws t Cons assms(3) [of "d # t" _ r] by cases fastforce+
  next
    case 4
    with assms(1) Cons show ?thesis by (auto dest!: json_scalar_shorter)
  qed
qed (use assms(1) in simp)

lemma json_elems_cases:
  assumes "json_elems (Suc n) s = Some (vs, r)"
  obtains v t d u where "json_value n s = Some (v, t)" "skip_ws t = d # u" "r = u"
  | v t d u ws where "json_value n s = Some (v, t)" "skip_ws t = d # u" "json_elems n (skip_ws u) = Some (ws, r)"
  using assms by (auto split: option.splits list.splits if_splits)

lemma json_members_cases:
  assumes "json_members (Suc n) s = Some (kvs, r)"
  obtains qs k r1 c r2 v t d u where "s = CHR 0x22 # qs" "json_string qs = Some (k, r1)" "skip_ws r1 = c # r2"
    "json_value n (skip_ws r2) = Some (v, t)" "skip_ws t = d # u" "r = u \<or> (\<exists>ms. json_members n (skip_ws u) = Some (ms, r))"
  using assms by (auto split: option.splits list.splits if_splits)

lemma readers_shorter:
  "(\<forall>s v r. json_value n s = Some (v, r) \<longrightarrow> length r < length s) \<and>
   (\<forall>s vs r. json_elems n s = Some (vs, r) \<longrightarrow> length r < length s) \<and>
   (\<forall>s kvs r. json_members n s = Some (kvs, r) \<longrightarrow> length r < length s)"
proof (induction n)
  case (Suc n)
  then have ih: "json_value n s = Some (v, r) \<Longrightarrow> length r < length s"
    "json_elems n s = Some (vs, r) \<Longrightarrow> length r < length s"
    "json_members n s = Some (kvs, r) \<Longrightarrow> length r < length s" for s v vs kvs r by blast+
  have scalars: "length r < length s" if "json_value (Suc n) s = Some (v, r)" for s v r
    by (rule value_step [OF that ih(2,3)])
  have elems: "length r < length s" if "json_elems (Suc n) s = Some (vs, r)" for s vs r
    using that
  proof (cases rule: json_elems_cases)
    case (1 v t d u)
    with ih(1) [OF 1(1)] skip_ws_length [of t] show ?thesis by simp
  next
    case (2 v t d u ws)
    with ih(1) [OF 2(1)] ih(2) [OF 2(3)] skip_ws_length [of t] skip_ws_length [of u] show ?thesis by simp
  qed
  have members: "length r < length s" if "json_members (Suc n) s = Some (kvs, r)" for s kvs r
    using that
  proof (cases rule: json_members_cases)
    case (1 qs k r1 c r2 v t d u)
    note 1 json_string_shorter [OF 1(2)] ih(1) [OF 1(4)] skip_ws_length [of r1] skip_ws_length [of r2] skip_ws_length [of t] skip_ws_length [of u]
    moreover from this(6) have "r = u \<or> length r < length (skip_ws u)" using ih(3) by blast
    ultimately show ?thesis by auto
  qed
  from scalars elems members show ?case by blast
qed simp

subsection \<open>Enough fuel\<close>

lemma value_fuel:
  assumes "\<And>t. Suc (length t) \<le> length s \<Longrightarrow> json_elems m t = json_elems n t"
    "\<And>t. Suc (length t) \<le> length s \<Longrightarrow> json_members m t = json_members n t"
  shows "json_value (Suc m) s = json_value (Suc n) s"
proof (cases s)
  case (Cons c cs)
  have "json_elems m (d # t) = json_elems n (d # t)" "json_members m (d # t) = json_members n (d # t)"
    if "skip_ws cs = d # t" for d t
    using assms [of "d # t"] skip_ws_length [of cs] that Cons by simp_all
  then show ?thesis unfolding Cons by (auto split: list.split)
qed simp

lemma elems_fuel:
  assumes "json_value m s = json_value n s" "\<And>t. length t + 2 \<le> length s \<Longrightarrow> json_elems m t = json_elems n t"
  shows "json_elems (Suc m) s = json_elems (Suc n) s"
proof (cases "json_value n s")
  case (Some x)
  obtain v r where x: "x = (v, r)" by (cases x)
  have "length r < length s" using readers_shorter [of n] Some x by blast
  then have "json_elems m (skip_ws t) = json_elems n (skip_ws t)" if "skip_ws r = d # t" for d t
    using that skip_ws_length [of r] skip_ws_length [of t] by (intro assms(2)) simp
  then show ?thesis using assms(1) Some x by (auto split: list.split)
qed (use assms(1) in simp)

lemma members_fuel:
  assumes "\<And>t. length t + 2 \<le> length s \<Longrightarrow> json_value m t = json_value n t"
    "\<And>t. length t + 2 \<le> length s \<Longrightarrow> json_members m t = json_members n t"
  shows "json_members (Suc m) s = json_members (Suc n) s"
proof -
  have v: "json_value m (skip_ws r2) = json_value n (skip_ws r2)"
    if "s = q # qs" "json_string qs = Some (k, r1)" "skip_ws r1 = c # r2" for q qs k r1 c r2
    using that json_string_shorter [OF that(2)] skip_ws_length [of r1] skip_ws_length [of r2] by (intro assms(1)) simp
  have w: "json_members m (skip_ws t) = json_members n (skip_ws t)"
    if "s = q # qs" "json_string qs = Some (k, r1)" "skip_ws r1 = c # r2" "json_value n (skip_ws r2) = Some (x, r3)"
      "skip_ws r3 = d # t" for q qs k r1 c r2 x r3 d t
  proof -
    have "length r3 < length (skip_ws r2)" using readers_shorter [of n] that(4) by blast
    then show ?thesis
      using that json_string_shorter [OF that(2)] skip_ws_length [of r1] skip_ws_length [of r2] skip_ws_length [of r3]
        skip_ws_length [of t] by (intro assms(2)) simp
  qed
  show ?thesis
    using v w by (auto split: list.split option.split)
qed

lemma fuel_enough:
  "(\<forall>s. 2 * length s + 1 \<le> n \<longrightarrow> json_value (n + k) s = json_value n s) \<and>
   (\<forall>s. 2 * length s + 2 \<le> n \<longrightarrow> json_elems (n + k) s = json_elems n s) \<and>
   (\<forall>s. 2 * length s + 2 \<le> n \<longrightarrow> json_members (n + k) s = json_members n s)"
proof (induction n)
  case (Suc n)
  then have ih: "2 * length s + 1 \<le> n \<Longrightarrow> json_value (n + k) s = json_value n s"
    "2 * length s + 2 \<le> n \<Longrightarrow> json_elems (n + k) s = json_elems n s"
    "2 * length s + 2 \<le> n \<Longrightarrow> json_members (n + k) s = json_members n s" for s by blast+
  have "json_value (Suc (n + k)) s = json_value (Suc n) s" if "2 * length s + 1 \<le> Suc n" for s
    by (rule value_fuel) (use that in \<open>auto intro!: ih\<close>)
  moreover have "json_elems (Suc (n + k)) s = json_elems (Suc n) s" if "2 * length s + 2 \<le> Suc n" for s
    by (rule elems_fuel) (use that in \<open>auto intro!: ih\<close>)
  moreover have "json_members (Suc (n + k)) s = json_members (Suc n) s" if "2 * length s + 2 \<le> Suc n" for s
    by (rule members_fuel) (use that in \<open>auto intro!: ih\<close>)
  ultimately show ?case by simp
qed simp

lemma json_members_elim:
  obtains qs k r1 c r2 y where "s = CHR 0x22 # qs" "json_string qs = Some (k, r1)" "skip_ws r1 = c # r2"
    "json_value n (skip_ws r2) = Some y"
  | "json_members (Suc n) s \<noteq> Some x"
  by (cases "json_members (Suc n) s = Some x") (auto split: option.splits list.splits if_splits)

text \<open>Fuel never changes a result that was read.\<close>

lemma fuel_mono_readers:
  "(\<forall>s x. json_value n s = Some x \<longrightarrow> json_value (n + k) s = Some x) \<and>
   (\<forall>s x. json_elems n s = Some x \<longrightarrow> json_elems (n + k) s = Some x) \<and>
   (\<forall>s x. json_members n s = Some x \<longrightarrow> json_members (n + k) s = Some x)"
proof (induction n)
  case (Suc n)
  then have ih: "json_value n s = Some x \<Longrightarrow> json_value (n + k) s = Some x"
    "json_elems n s = Some y \<Longrightarrow> json_elems (n + k) s = Some y"
    "json_members n s = Some z \<Longrightarrow> json_members (n + k) s = Some z" for s x y z by blast+
  have "json_value (Suc n) s = Some x \<Longrightarrow> json_value (Suc (n + k)) s = Some x" for s x
    by (auto split: list.splits if_splits dest: ih(2,3))
  moreover have "json_elems (Suc n) s = Some x \<Longrightarrow> json_elems (Suc (n + k)) s = Some x" for s x
  proof (cases "json_value n s")
    case (Some y)
    assume "json_elems (Suc n) s = Some x"
    with Some ih(1) [OF Some] show ?thesis by (cases y) (auto split: list.splits if_splits dest: ih(2))
  qed simp
  moreover have "json_members (Suc n) s = Some x \<Longrightarrow> json_members (Suc (n + k)) s = Some x" for s x
  proof (cases rule: json_members_elim [where s = s and n = n and x = x])
    case (1 qs k r1 c r2 y)
    assume "json_members (Suc n) s = Some x"
    with 1 ih(1) [OF 1(4)] show ?thesis by (cases y) (auto split: list.splits if_splits dest: ih(3))
  qed simp_all
  ultimately show ?case by simp
qed simp

lemmas fuel_mono = fuel_mono_readers [THEN conjunct1, rule_format]

lemma json_loads_fuel:
  assumes "2 * length s + 1 \<le> n"
  shows "json_loads s = (case json_value n (skip_ws s) of None \<Rightarrow> None
     | Some (v, r) \<Rightarrow> if skip_ws r = [] then Some v else None)"
proof -
  have enough: "json_value m (skip_ws s) = json_value (2 * length (skip_ws s) + 1) (skip_ws s)"
    if "2 * length s + 1 \<le> m" for m
    using fuel_enough [of "2 * length (skip_ws s) + 1" "m - (2 * length (skip_ws s) + 1)"] skip_ws_length [of s] that by simp
  have "json_value (2 * length s + 2) (skip_ws s) = json_value n (skip_ws s)"
    using enough [OF assms] enough [of "2 * length s + 2"] by simp
  then show ?thesis unfolding json_loads_def by (rule arg_cong)
qed



end
