(* ===== verification/Cli_Process.thy ===== *)
theory Cli_Process
  imports Py_Json
begin

section \<open>A command of \<open>clifwd\<close> as a process\<close>

text \<open>
  What the commands under \<open>cli/\<close> share: the two output streams, the files and the world a command works on (the
  database, or the daemon behind HTTP), \<open>typer.echo\<close> and \<open>typer.Exit\<close>, \<open>str.split\<close> and \<open>splitlines\<close>, and \<open>json.dumps\<close>.
  \<open>typer.Exit(code=n)\<close> is \<open>SystemExit n\<close>; a command that returns exits with code 0.
\<close>

record ('d, 'f) cli =
  cli_out :: "string list"
  cli_err :: "string list"
  cli_world :: 'd
  cli_files :: "(string, 'f) table"

definition echo :: "string \<Rightarrow> (('d, 'f) cli, unit) op" where
  "echo s = modifyM (\<lambda>c. c\<lparr>cli_out := cli_out c @ [s]\<rparr>)"

definition echo_err :: "string \<Rightarrow> (('d, 'f) cli, unit) op" where
  "echo_err s = modifyM (\<lambda>c. c\<lparr>cli_err := cli_err c @ [s]\<rparr>)"

definition fail_with :: "string \<Rightarrow> int \<Rightarrow> (('d, 'f) cli, 'a) op" where
  "fail_with s code = thenM (echo_err s) (raise (SystemExit code))"

fun echo_all :: "string list \<Rightarrow> (('d, 'f) cli, unit) op" where
  "echo_all [] = ret ()"
| "echo_all (x # xs) = thenM (echo x) (echo_all xs)"

fun echo_errs :: "string list \<Rightarrow> (('d, 'f) cli, unit) op" where
  "echo_errs [] = ret ()"
| "echo_errs (x # xs) = thenM (echo_err x) (echo_errs xs)"

text \<open>An operation on the world.\<close>

definition on_world :: "('d, 'a) op \<Rightarrow> (('d, 'f) cli, 'a) op" where
  "on_world m = (\<lambda>c. case m (cli_world c) of (r, d) \<Rightarrow> (r, c\<lparr>cli_world := d\<rparr>))"

definition write_file :: "string \<Rightarrow> 'f \<Rightarrow> (('d, 'f) cli, unit) op" where
  "write_file path content = modifyM (\<lambda>c. c\<lparr>cli_files := AList.update path content (cli_files c)\<rparr>)"

definition exit_code :: "exn + 'a \<Rightarrow> int" where
  "exit_code r = (case r of Inr _ \<Rightarrow> 0 | Inl (SystemExit n) \<Rightarrow> n | Inl _ \<Rightarrow> 1)"

subsection \<open>Text\<close>

definition join_commas :: "string list \<Rightarrow> string" where
  "join_commas xs = (case xs of [] \<Rightarrow> [] | y # ys \<Rightarrow> y @ concat (map (\<lambda>z. '', '' @ z) ys))"

text \<open>\<open>s.split(c)\<close> for one character.\<close>

fun split_at :: "char \<Rightarrow> string \<Rightarrow> string list" where
  "split_at d [] = [[]]"
| "split_at d (c # cs) =
     (if c = d then [] # split_at d cs
      else case split_at d cs of [] \<Rightarrow> [[c]] | w # ws \<Rightarrow> (c # w) # ws)"

text \<open>The code points of a string.\<close>

fun code_points :: "string \<Rightarrow> nat list" where
  "code_points (a # b # c # d # r) =
     (if char_code a < 128 then char_code a # code_points (b # c # d # r)
      else if char_code a < 224 then ((char_code a - 192) * 64 + (char_code b - 128)) # code_points (c # d # r)
      else if char_code a < 240
      then ((char_code a - 224) * 4096 + (char_code b - 128) * 64 + (char_code c - 128)) # code_points (d # r)
      else ((char_code a - 240) * 262144 + (char_code b - 128) * 4096 + (char_code c - 128) * 64 +
        (char_code d - 128)) # code_points r)"
| "code_points [a, b, c] =
     (if char_code a < 128 then char_code a # code_points [b, c]
      else if char_code a < 224 then ((char_code a - 192) * 64 + (char_code b - 128)) # code_points [c]
      else [(char_code a - 224) * 4096 + (char_code b - 128) * 64 + (char_code c - 128)])"
| "code_points [a, b] =
     (if char_code a < 128 then char_code a # code_points [b]
      else [(char_code a - 192) * 64 + (char_code b - 128)])"
| "code_points [a] = [char_code a]"
| "code_points [] = []"

text \<open>\<open>s[:n]\<close>.\<close>

definition take_points :: "nat \<Rightarrow> string \<Rightarrow> string" where
  "take_points n s = concat (map utf8 (take n (code_points s)))"

subsection \<open>\<open>json.dumps\<close>\<close>

definition u_escape :: "nat \<Rightarrow> string" where
  "u_escape n = [CHR 0x5C, CHR ''u'', hex_char (n div 4096 mod 16), hex_char (n div 256 mod 16),
     hex_char (n div 16 mod 16), hex_char (n mod 16)]"

text \<open>\<open>ensure_ascii\<close>: what is not printable ASCII is escaped, beyond 16 bits as a surrogate pair.\<close>

definition ascii_escape :: "nat \<Rightarrow> string" where
  "ascii_escape n =
     (if n < 127 then json_escape_char (char_of n)
      else if n < 65536 then u_escape n
      else u_escape (55296 + (n - 65536) div 1024) @ u_escape (56320 + (n - 65536) mod 1024))"

definition ascii_lit :: "string \<Rightarrow> string" where
  "ascii_lit s = CHR 0x22 # concat (map ascii_escape (code_points s)) @ [CHR 0x22]"

fun json_dumps :: "json \<Rightarrow> string" where
  "json_dumps JNull = ''null''"
| "json_dumps (JBool b) = (if b then ''true'' else ''false'')"
| "json_dumps (JInt i) = str_int i"
| "json_dumps (JFloat s) = s"
| "json_dumps (JStr s) = ascii_lit s"
| "json_dumps (JList xs) = CHR ''['' # join_commas (map json_dumps xs) @ [CHR '']'']"
| "json_dumps (JObj kvs) =
     CHR ''{'' # join_commas (map (\<lambda>(k, s). ascii_lit k @ '': '' @ s) (map (\<lambda>(k, v). (k, json_dumps v)) kvs)) @ [CHR ''}'']"

subsection \<open>Running\<close>

lemma echo_run [simp]: "echo t c = (Inr (), c\<lparr>cli_out := cli_out c @ [t]\<rparr>)"
  by (simp add: echo_def)

lemma echo_err_run [simp]: "echo_err t c = (Inr (), c\<lparr>cli_err := cli_err c @ [t]\<rparr>)"
  by (simp add: echo_err_def)

lemma fail_with_run [simp]: "fail_with t n c = (Inl (SystemExit n), c\<lparr>cli_err := cli_err c @ [t]\<rparr>)"
  by (simp add: fail_with_def)

lemma echo_errs_run [simp]: "echo_errs xs c = (Inr (), c\<lparr>cli_err := cli_err c @ xs\<rparr>)"
  by (induction xs arbitrary: c) simp_all

lemma echo_all_run [simp]: "echo_all xs c = (Inr (), c\<lparr>cli_out := cli_out c @ xs\<rparr>)"
  by (induction xs arbitrary: c) simp_all

lemma write_file_run [simp]: "write_file p x c = (Inr (), c\<lparr>cli_files := AList.update p x (cli_files c)\<rparr>)"
  by (simp add: write_file_def)

lemma on_world_run: "m (cli_world c) = (r, d) \<Longrightarrow> on_world m c = (r, c\<lparr>cli_world := d\<rparr>)"
  by (simp add: on_world_def)

text \<open>Only messages: nothing but stderr changes.\<close>

definition only_err :: "('d, 'f) cli \<Rightarrow> ('d, 'f) cli \<Rightarrow> bool" where
  "only_err c c' \<longleftrightarrow> (\<exists>msgs. c' = c\<lparr>cli_err := cli_err c @ msgs\<rparr>)"

lemma only_err_refl [simp]: "only_err c c"
  unfolding only_err_def by (rule exI [of _ "[]"]) simp

lemma only_err_step [simp]: "only_err c c' \<Longrightarrow> only_err c (c'\<lparr>cli_err := cli_err c' @ msgs\<rparr>)"
  unfolding only_err_def by auto

lemma only_err_own [simp]: "only_err c (c\<lparr>cli_err := cli_err c @ msgs\<rparr>)"
  unfolding only_err_def by blast

lemma only_err_same: "only_err c c' \<Longrightarrow> cli_out c' = cli_out c \<and> cli_world c' = cli_world c \<and> cli_files c' = cli_files c"
  by (auto simp: only_err_def)

lemma only_err_trans: "only_err c c' \<Longrightarrow> only_err c' c'' \<Longrightarrow> only_err c c''"
  unfolding only_err_def by auto

end
