(* ===== verification/Bundle_Cli.thy ===== *)
theory Bundle_Cli
  imports Cli_Process Capability_Grant
begin

section \<open>Composing the credential bundle from a pipe\<close>

text \<open>
  \<open>cli/bundle.py\<close>: \<open>clifwd bundle compose\<close> reads tab-separated lines from stdin and prints the composed bundle.
  \<open>str.splitlines\<close> and \<open>json.dumps(indent=2)\<close> are modelled.
\<close>

subsection \<open>Lines\<close>

text \<open>How many bytes of a line boundary are at the head; the boundaries beyond ASCII are U+0085, U+2028 and U+2029.\<close>

definition line_end :: "string \<Rightarrow> nat" where
  "line_end s =
     (if starts_with s [CHR 0x0D, CHR 0x0A] then 2
      else case s of
        [] \<Rightarrow> 0
      | c # r \<Rightarrow> if (10 \<le> char_code c \<and> char_code c \<le> 13) \<or> (28 \<le> char_code c \<and> char_code c \<le> 30) then 1
          else if starts_with s [CHR 0xC2, CHR 0x85] then 2
          else if starts_with s [CHR 0xE2, CHR 0x80, CHR 0xA8] \<or> starts_with s [CHR 0xE2, CHR 0x80, CHR 0xA9] then 3
          else 0)"

function split_lines :: "string \<Rightarrow> string \<Rightarrow> string list" where
  "split_lines cur [] = (if cur = [] then [] else [cur])"
| "split_lines cur (c # r) =
     (if line_end (c # r) = 0 then split_lines (cur @ [c]) r
      else cur # split_lines [] (drop (line_end (c # r)) (c # r)))"
  by pat_completeness auto
termination
  by (relation "measure (\<lambda>(cur, s). length s)") auto

definition splitlines :: "string \<Rightarrow> string list" where
  "splitlines s = split_lines [] s"

subsection \<open>Indented JSON\<close>

definition json_break :: "nat \<Rightarrow> string" where
  "json_break n = CHR 0x0A # replicate n (CHR '' '')"

definition joined :: "string \<Rightarrow> string list \<Rightarrow> string" where
  "joined sep xs = (case xs of [] \<Rightarrow> [] | y # ys \<Rightarrow> y @ concat (map (\<lambda>z. sep @ z) ys))"

fun json_indented :: "nat \<Rightarrow> json \<Rightarrow> string" where
  "json_indented n (JList []) = ''[]''"
| "json_indented n (JList (x # xs)) =
     CHR ''['' # json_break (n + 2) @ joined (CHR '','' # json_break (n + 2)) (map (json_indented (n + 2)) (x # xs)) @
     json_break n @ '']''"
| "json_indented n (JObj []) = ''{}''"
| "json_indented n (JObj (kv # kvs)) =
     CHR ''{'' # json_break (n + 2) @ joined (CHR '','' # json_break (n + 2))
       (map (\<lambda>(k, s). ascii_lit k @ '': '' @ s) (map (\<lambda>(k, v). (k, json_indented (n + 2) v)) (kv # kvs))) @
     json_break n @ ''}''"
| "json_indented n j = json_dumps j"

subsection \<open>The command\<close>

definition tab :: char where
  "tab = CHR 0x09"

text \<open>The loop over the lines, with the message of a malformed one.\<close>

fun read_tuples ::
  "string list \<Rightarrow> bundle_capability list \<Rightarrow> (string \<times> string) list \<Rightarrow>
   string + bundle_capability list \<times> (string \<times> string) list" where
  "read_tuples [] caps config = Inr (caps, config)"
| "read_tuples (raw # raws) caps config =
     (if py_strip raw = [] then read_tuples raws caps config
      else (let parts = split_at tab raw in
        if hd parts = ''CONFIG'' then
          if length parts \<noteq> 3
          then Inl (''malformed CONFIG line: need CONFIG<TAB>KEY<TAB>VALUE (3 fields), got '' @ str_nat (length parts))
          else read_tuples raws caps (AList.update (parts ! 1) (parts ! 2) config)
        else case parts of
          [cid, env, token, wallet] \<Rightarrow>
            read_tuples raws (caps @ [\<lparr>bc_capability_id = cid, bc_caller_token_env = env, bc_caller_token = token,
              bc_wallet_name = (if wallet = [] then None else Some wallet)\<rparr>]) config
        | _ \<Rightarrow> Inl (''malformed line: need a 4-field capability tuple or a CONFIG line, got '' @
            str_nat (length parts) @ '' fields'')))"

declare read_tuples.simps(2) [simp del]

definition compose_command ::
  "(bundle_error \<Rightarrow> string) \<Rightarrow> datetime \<Rightarrow> string \<Rightarrow> string \<Rightarrow> int \<Rightarrow> string \<Rightarrow> (('d, 'f) cli, unit) op" where
  "compose_command error_text now consumer network ttl stdin =
     (case read_tuples (splitlines stdin) [] [] of
        Inl why \<Rightarrow> fail_with why 2
      | Inr (caps, config) \<Rightarrow>
          if caps = [] then fail_with ''no capability tuples on stdin'' 2
          else (case compose_bundle consumer network ttl caps (Some config) now of
            Inl e \<Rightarrow> fail_with (''bundle compose failed: '' @ error_text e) 2
          | Inr bundle \<Rightarrow> echo (json_indented 0 (JObj bundle))))"

subsection \<open>The pipe format\<close>

text \<open>What the host side writes: one line per capability, one per config entry.\<close>

definition tabbed :: "string list \<Rightarrow> string" where
  "tabbed xs = joined [tab] xs"

definition capability_line :: "bundle_capability \<Rightarrow> string" where
  "capability_line c = tabbed [bc_capability_id c, bc_caller_token_env c, bc_caller_token c,
     (case bc_wallet_name c of None \<Rightarrow> [] | Some w \<Rightarrow> w)]"

definition config_line :: "string \<times> string \<Rightarrow> string" where
  "config_line kv = tabbed [''CONFIG'', fst kv, snd kv]"

definition pipe_text :: "bundle_capability list \<Rightarrow> (string \<times> string) list \<Rightarrow> string" where
  "pipe_text caps config = concat (map (\<lambda>l. l @ [CHR 0x0A]) (map capability_line caps @ map config_line config))"

definition plain :: "string \<Rightarrow> bool" where
  "plain s \<longleftrightarrow> list_all (\<lambda>c. 32 \<le> char_code c \<and> char_code c < 127) s"

definition pipe_ok :: "bundle_capability \<Rightarrow> bool" where
  "pipe_ok c \<longleftrightarrow> plain (bc_capability_id c) \<and> plain (bc_caller_token_env c) \<and> plain (bc_caller_token c) \<and>
     bc_capability_id c \<noteq> ''CONFIG'' \<and> list_ex (\<lambda>x. x \<noteq> CHR '' '') (bc_capability_id c) \<and>
     (case bc_wallet_name c of None \<Rightarrow> True | Some w \<Rightarrow> w \<noteq> [] \<and> plain w)"

subsection \<open>Reading the pipe back\<close>

lemma split_at_clean: "d \<notin> set s \<Longrightarrow> split_at d s = [s]"
  by (induction s) auto

lemma split_at_nonempty: "split_at d s \<noteq> []"
  by (induction s) (auto split: list.splits)

lemma split_at_append: "d \<notin> set s \<Longrightarrow> split_at d (s @ d # r) = s # split_at d r"
  by (induction s) auto

lemma split_tabbed: "xs \<noteq> [] \<Longrightarrow> \<forall>x \<in> set xs. tab \<notin> set x \<Longrightarrow> split_at tab (tabbed xs) = xs"
proof (induction xs)
  case (Cons x xs)
  show ?case
  proof (cases xs)
    case Nil
    with Cons show ?thesis by (simp add: tabbed_def joined_def split_at_clean)
  next
    case (Cons y ys)
    with Cons.IH Cons.prems have "split_at tab (tabbed (y # ys)) = y # ys" by simp
    moreover have "tabbed (x # y # ys) = x @ tab # tabbed (y # ys)" by (simp add: tabbed_def joined_def)
    ultimately show ?thesis using Cons Cons.prems(2) by (simp add: split_at_append)
  qed
qed simp

text \<open>A line without line boundaries.\<close>

definition one_line :: "string \<Rightarrow> bool" where
  "one_line s \<longleftrightarrow> list_all (\<lambda>c. c = tab \<or> (32 \<le> char_code c \<and> char_code c < 127)) s"

lemma line_end_one:
  assumes "one_line (c # s)"
  shows "line_end (c # r) = 0"
proof -
  from assms have n: "char_code c = (9 :: nat) \<or> 32 \<le> (char_code c :: nat) \<and> char_code c < (127 :: nat)"
    by (auto simp: one_line_def tab_def)
  have "c \<noteq> CHR 0x0D" "c \<noteq> CHR 0xC2" "c \<noteq> CHR 0xE2" using n by auto
  with n show ?thesis by (auto simp: line_end_def starts_with_def)
qed

lemma split_lines_one: "one_line s \<Longrightarrow> split_lines cur (s @ CHR 0x0A # r) = (cur @ s) # split_lines [] r"
proof (induction s arbitrary: cur)
  case Nil
  then show ?case by (simp add: line_end_def starts_with_def)
next
  case (Cons c s)
  then show ?case using line_end_one [of c s "s @ CHR 0x0A # r"] by (simp add: one_line_def)
qed

lemma splitlines_pipe: "\<forall>l \<in> set ls. one_line l \<Longrightarrow> splitlines (concat (map (\<lambda>l. l @ [CHR 0x0A]) ls)) = ls"
  unfolding splitlines_def by (induction ls) (simp_all add: split_lines_one)

lemma plain_tab: "plain s \<Longrightarrow> tab \<notin> set s"
  by (auto simp: plain_def tab_def list_all_iff)

lemma tabbed_one_line: "\<forall>x \<in> set xs. plain x \<Longrightarrow> one_line (tabbed xs)"
  by (cases xs) (auto simp: tabbed_def joined_def one_line_def plain_def list_all_iff)

lemma py_strip_keeps:
  assumes "x \<in> set s" "\<not> is_py_space x"
  shows "py_strip s \<noteq> []"
proof
  assume "py_strip s = []"
  then have "\<forall>c \<in> set (dropWhile is_py_space s). is_py_space c" by (simp add: py_strip_def dropWhile_eq_Nil_conv)
  then have "dropWhile is_py_space s = []" using hd_dropWhile [of is_py_space s] by (metis list.set_sel(1))
  with assms show False by (simp add: dropWhile_eq_Nil_conv)
qed

definition capability_fields :: "bundle_capability \<Rightarrow> string list" where
  "capability_fields c = [bc_capability_id c, bc_caller_token_env c, bc_caller_token c,
     (case bc_wallet_name c of None \<Rightarrow> [] | Some w \<Rightarrow> w)]"

lemma pipe_plain: "pipe_ok c \<Longrightarrow> x \<in> set (capability_fields c) \<Longrightarrow> plain x"
  by (cases "bc_wallet_name c") (auto simp: pipe_ok_def capability_fields_def plain_def)

lemma read_capability:
  assumes "pipe_ok c"
  shows "read_tuples (capability_line c # raws) caps config = read_tuples raws (caps @ [c]) config"
proof -
  let ?w = "case bc_wallet_name c of None \<Rightarrow> [] | Some w \<Rightarrow> w"
  let ?parts = "[bc_capability_id c, bc_caller_token_env c, bc_caller_token c, ?w]"
  have ok: "\<forall>x \<in> set ?parts. plain x" "bc_capability_id c \<noteq> ''CONFIG''"
    using pipe_plain [OF assms] assms unfolding capability_fields_def pipe_ok_def by blast+
  from assms obtain x where x: "x \<in> set (bc_capability_id c)" "x \<noteq> CHR '' ''" by (auto simp: pipe_ok_def list_ex_iff)
  with ok(1) have "\<not> is_py_space x"
    using inj_of_char [THEN injD, of x "CHR '' ''"] by (auto simp: plain_def list_all_iff is_py_space_def is_space_def)
  moreover have "x \<in> set (capability_line c)" using x by (simp add: capability_line_def tabbed_def joined_def)
  ultimately have "py_strip (capability_line c) \<noteq> []" by (intro py_strip_keeps)
  moreover have "split_at tab (capability_line c) = ?parts"
    unfolding capability_line_def by (rule split_tabbed) (use ok(1) plain_tab in blast)+
  moreover have "(if ?w = [] then None else Some ?w) = bc_wallet_name c"
    using assms by (auto simp: pipe_ok_def split: option.splits)
  moreover have "\<lparr>bc_capability_id = bc_capability_id c, bc_caller_token_env = bc_caller_token_env c,
      bc_caller_token = bc_caller_token c, bc_wallet_name = bc_wallet_name c\<rparr> = c" by (cases c) simp
  ultimately show ?thesis using ok(2) by (simp only: read_tuples.simps(2) Let_def list.case list.sel if_False)
qed

lemma read_config:
  assumes "plain k" "plain v"
  shows "read_tuples (config_line (k, v) # raws) caps config = read_tuples raws caps (AList.update k v config)"
proof -
  have "CHR ''C'' \<in> set (config_line (k, v))" by (simp add: config_line_def tabbed_def joined_def)
  moreover have "\<not> is_py_space (CHR ''C'')" by (simp add: is_py_space_def is_space_def)
  ultimately have "py_strip (config_line (k, v)) \<noteq> []" by (rule py_strip_keeps)
  moreover have "split_at tab (config_line (k, v)) = [''CONFIG'', k, v]"
    unfolding config_line_def fst_conv snd_conv by (rule split_tabbed) (use assms plain_tab in \<open>auto simp: tab_def\<close>)
  ultimately show ?thesis by (simp add: Let_def read_tuples.simps(2))
qed

lemma update_new: "k \<notin> fst ` set kvs \<Longrightarrow> AList.update k v kvs = kvs @ [(k, v)]"
  by (induction kvs) auto

lemma read_configs:
  assumes "\<forall>kv \<in> set kvs. plain (fst kv) \<and> plain (snd kv)" "distinct (map fst (config @ kvs))"
  shows "read_tuples (map config_line kvs) caps config = Inr (caps, config @ kvs)"
  using assms
proof (induction kvs arbitrary: config)
  case (Cons kv kvs)
  then have "AList.update (fst kv) (snd kv) config = config @ [kv]"
    by (subst update_new) auto
  with Cons show ?case using read_config [of "fst kv" "snd kv"] by simp
qed simp

lemma read_pipe:
  assumes "\<forall>c \<in> set caps. pipe_ok c" "\<forall>kv \<in> set kvs. plain (fst kv) \<and> plain (snd kv)" "distinct (map fst kvs)"
  shows "read_tuples (map capability_line caps @ map config_line kvs) caps0 [] = Inr (caps0 @ caps, kvs)"
  using assms by (induction caps arbitrary: caps0) (simp_all add: read_configs read_capability)

lemma splitlines_pipe_text:
  assumes "\<forall>c \<in> set caps. pipe_ok c" "\<forall>kv \<in> set kvs. plain (fst kv) \<and> plain (snd kv)"
  shows "splitlines (pipe_text caps kvs) = map capability_line caps @ map config_line kvs"
  unfolding pipe_text_def
proof (rule splitlines_pipe, rule ballI)
  fix l assume "l \<in> set (map capability_line caps @ map config_line kvs)"
  then consider c where "c \<in> set caps" "l = capability_line c" | kv where "kv \<in> set kvs" "l = config_line kv" by auto
  then show "one_line l"
  proof cases
    case 1
    with assms(1) pipe_plain show ?thesis
      unfolding 1(2) capability_line_def capability_fields_def [symmetric] by (intro tabbed_one_line) blast
  next
    case 2
    with assms(2) show ?thesis by (auto simp: config_line_def intro!: tabbed_one_line) (simp add: plain_def)
  qed
qed


text \<open>One capability with a wallet, and the network.\<close>

definition pipe_capability :: bundle_capability where
  "pipe_capability = \<lparr>bc_capability_id = ''clif/flare/claim'', bc_caller_token_env = ''T'', bc_caller_token = ''secret'',
     bc_wallet_name = Some ''hot wallet''\<rparr>"


end
