(* ===== verification/Grant_Cli.thy ===== *)
theory Grant_Cli
  imports Bundle_Cli Accounts_Correct
begin

section \<open>Granting capabilities from the command line\<close>

text \<open>
  \<open>cli/capability.py\<close>: \<open>clifwd capability grant\<close> from the option values to the exit code, with what it prints,
  the calls it makes to the daemon and the bundle it writes; and \<open>write_bundle\<close> of \<open>app/bundle_emit.py\<close>.  The daemon is behind HTTP: a mint call is an operation on its
  state that answers with a reply or is unreachable.  The texts of exceptions and Python's \<open>repr\<close> are
  parameters, the environment gives the admin key.
\<close>

type_synonym 'd grant_cli = "('d, string) cli"

subsection \<open>The mint call\<close>

text \<open>What a mint call answers: \<open>201\<close> with the key and its prefix, or another status and text.\<close>

datatype http_reply = Minted string string | Reply int string

type_synonym 'd mint_call = "string \<Rightarrow> caller_body \<Rightarrow> 'd \<Rightarrow> (string + http_reply) \<times> 'd"

definition call_mint :: "'d mint_call \<Rightarrow> string \<Rightarrow> caller_body \<Rightarrow> ('d grant_cli, string + http_reply) op" where
  "call_mint mint auth b = (\<lambda>c. case mint auth b (cli_world c) of (r, d) \<Rightarrow> (Inr r, c\<lparr>cli_world := d\<rparr>))"

record texts =
  tx_repr :: "string \<Rightarrow> string"
  tx_spec_error :: "spec_error \<Rightarrow> string"
  tx_bundle_error :: "bundle_error \<Rightarrow> string"

subsection \<open>Writing the bundle\<close>

text \<open>\<open>write_bundle\<close>: how the file system behaves at the path.  Until \<open>os.replace\<close> a failure leaves no file; the
  \<open>chmod\<close> after it can fail with the bundle already published.\<close>

datatype disk = DiskOk | BeforeReplace string | AfterReplace string

definition bundle_text :: "(string \<times> json) list \<Rightarrow> string" where
  "bundle_text b = json_indented 0 (JObj b) @ [CHR 0x0A]"

definition write_bundle :: "(string \<Rightarrow> disk) \<Rightarrow> (string \<times> json) list \<Rightarrow> string \<Rightarrow> ('d grant_cli, string option) op" where
  "write_bundle disk bundle path =
     (case disk path of
        BeforeReplace e \<Rightarrow> ret (Some e)
      | AfterReplace e \<Rightarrow> thenM (write_file path (bundle_text bundle)) (ret (Some e))
      | DiskOk \<Rightarrow> thenM (write_file path (bundle_text bundle)) (ret None))"

subsection \<open>Inputs\<close>

text \<open>\<open>KEY=VALUE\<close> entries, the last of a key winning; \<open>Inl\<close> is the malformed entry.\<close>

fun parse_config :: "(string \<times> string) list \<Rightarrow> string list \<Rightarrow> string + (string \<times> string) list" where
  "parse_config cfg [] = Inr cfg"
| "parse_config cfg (item # items) =
     (let key = takeWhile (\<lambda>c. c \<noteq> CHR ''='') item; rest = dropWhile (\<lambda>c. c \<noteq> CHR ''='') item
      in if rest = [] \<or> key = [] then Inl item else parse_config (AList.update key (tl rest) cfg) items)"

text \<open>The spec comes from a file, which may be unreadable, or from stdin.\<close>

datatype spec_source = SpecFile "string + string" | Stdin string

record grant_args =
  ga_spec :: spec_source
  ga_approve :: bool
  ga_replace :: bool
  ga_emit :: "string option"
  ga_ttl :: int
  ga_config :: "string list"

definition spec_text :: "spec_source \<Rightarrow> ('d grant_cli, string) op" where
  "spec_text src =
     (case src of
        SpecFile (Inl e) \<Rightarrow> fail_with (''cannot read --spec-file: '' @ e) 2
      | SpecFile (Inr t) \<Rightarrow> ret t
      | Stdin t \<Rightarrow> if py_strip t = []
          then fail_with ''no spec given: pass --spec-file or pipe `<consumer> spec --json` to stdin'' 2 else ret t)"

definition admin_headers :: "string \<Rightarrow> ('d grant_cli, string) op" where
  "admin_headers key = (if key = [] then fail_with ''FWD_ADMIN_KEY env var not set'' 2 else ret (''Bearer '' @ key))"

subsection \<open>The review\<close>

definition quoted :: "string \<Rightarrow> string" where
  "quoted s = CHR 0x27 # s @ [CHR 0x27]"

definition opt_text :: "string option \<Rightarrow> string" where
  "opt_text v = (case v of None \<Rightarrow> ''None'' | Some s \<Rightarrow> s)"

definition review_line :: "planned_grant \<Rightarrow> string" where
  "review_line g =
     (case pg_caller_name g of
        None \<Rightarrow> ''  - '' @ pg_capability_id g @ '': role '' @ quoted (pg_role g) @
          '' is outside the known convention '' @ em_dash @ '' map the caller name + policy_path by hand''
      | Some n \<Rightarrow> ''  - '' @ pg_capability_id g @ '': mint caller '' @ quoted n @ '' (policy_path '' @
          quoted (opt_text (pg_policy_path g)) @ '', token -> env '' @ pg_caller_token_env g @ '')'')"

definition review :: "planned_grant list \<Rightarrow> ('d grant_cli, unit) op" where
  "review plan = echo_errs
     ([''review-only (default-deny). To instantiate this grant, re-run with:'',
       ''  ... | clifwd capability grant --approve'', ''planned grants (caller name <- role convention):''] @
      map review_line plan)"

subsection \<open>The gate in front of the mint\<close>

definition no_wallet :: "planned_grant \<Rightarrow> bool" where
  "no_wallet g \<longleftrightarrow> given_text (pg_wallet_name g) = None"

definition premint_gate :: "consumer_spec \<Rightarrow> (string \<times> string) list \<Rightarrow> planned_grant list \<Rightarrow> ('d grant_cli, unit) op" where
  "premint_gate spec cfg plan =
     (case find no_wallet plan of
        Some g \<Rightarrow> fail_with (''refusing --emit-bundle: capability '' @ pg_capability_id g @
          '' has no configured wallet (spec shows configured:false) '' @ em_dash @
          '' configure the wallet first; a v2 bundle with a null wallet_name is rejected by the importer'') 2
      | None \<Rightarrow>
          (case map_of cfg ''NETWORK'' of
             None \<Rightarrow> fail_with (''refusing --emit-bundle: --config NETWORK='' @ cs_network spec @
               '' is required (consumer-contract-v1 '' @ [CHR 0xC2, CHR 0xA7] @
               ''4: the v2 config MUST carry the consumer's network selector; without it the consumer silently defaults to flare)'') 2
           | Some n \<Rightarrow>
               if n \<noteq> cs_network spec
               then fail_with (''refusing --emit-bundle: --config NETWORK='' @ n @ '' contradicts the spec's network '' @
                 cs_network spec) 2
               else ret ()))"

subsection \<open>The mint\<close>

definition granted_line :: "planned_grant \<Rightarrow> string \<Rightarrow> string \<Rightarrow> string" where
  "granted_line g name prefix = ''granted '' @ pg_capability_id g @ '': caller '' @ quoted name @ '' (prefix '' @ prefix @ '')''"

definition bundle_of :: "planned_grant \<Rightarrow> string \<Rightarrow> bundle_capability" where
  "bundle_of g key = \<lparr>bc_capability_id = pg_capability_id g, bc_caller_token_env = pg_caller_token_env g,
     bc_caller_token = key, bc_wallet_name = pg_wallet_name g\<rparr>"

definition grant_body :: "bool \<Rightarrow> planned_grant \<Rightarrow> string \<Rightarrow> string \<Rightarrow> caller_body" where
  "grant_body replace g name path = \<lparr>cab_name = name, cab_policy_path = path, cab_replace = replace,
     cab_capability_id = Some (pg_capability_id g)\<rparr>"

text \<open>One planned grant, given the failures so far and the minted capabilities.\<close>

definition mint_one ::
  "'d mint_call \<Rightarrow> string \<Rightarrow> bool \<Rightarrow> bool \<Rightarrow> planned_grant \<Rightarrow> nat \<Rightarrow> bundle_capability list \<Rightarrow>
   ('d grant_cli, nat \<times> bundle_capability list) op" where
  "mint_one mint auth replace emit g failures minted =
     (case (pg_caller_name g, pg_policy_path g) of
        (Some name, Some path) \<Rightarrow>
          bindM (call_mint mint auth (grant_body replace g name path)) (\<lambda>r.
          case r of
            Inl e \<Rightarrow> fail_with (''unreachable minting '' @ pg_capability_id g @ '': '' @ e) 2
          | Inr (Minted key prefix) \<Rightarrow>
              if emit
              then thenM (echo_err (granted_line g name prefix @ '' -> bundle (env '' @ pg_caller_token_env g @ '')''))
                     (ret (failures, minted @ [bundle_of g key]))
              else thenM (echo_err (granted_line g name prefix @ ''. Token (return-once) -> env '' @ pg_caller_token_env g @ '':''))
                     (thenM (echo (pg_caller_token_env g @ ''='' @ key)) (ret (failures, minted)))
          | Inr (Reply status reply) \<Rightarrow>
              if status = 409
              then thenM (echo_err (''exists '' @ pg_capability_id g @ '': caller '' @ quoted name @
                     '' already active (its token was shown once; revoke+re-grant, or --replace to rotate)''))
                     (ret (failures + 1, minted))
              else thenM (echo_err (''FAILED '' @ pg_capability_id g @ '': http '' @ str_int status @ '': '' @ take_points 200 reply))
                     (ret (failures + 1, minted)))
      | _ \<Rightarrow> thenM (echo_err (''skip '' @ pg_capability_id g @ '': role '' @ quoted (pg_role g) @
              '' has no caller-name convention '' @ em_dash @
              '' map + mint manually with `clifwd callers create --capability-id ...`''))
              (ret (failures + 1, minted)))"

fun mint_loop ::
  "'d mint_call \<Rightarrow> string \<Rightarrow> bool \<Rightarrow> bool \<Rightarrow> planned_grant list \<Rightarrow> nat \<Rightarrow> bundle_capability list \<Rightarrow>
   ('d grant_cli, nat \<times> bundle_capability list) op" where
  "mint_loop mint auth replace emit [] failures minted = ret (failures, minted)"
| "mint_loop mint auth replace emit (g # gs) failures minted =
     bindM (mint_one mint auth replace emit g failures minted) (\<lambda>(f, m). mint_loop mint auth replace emit gs f m)"

subsection \<open>The command\<close>

definition emit_stage ::
  "texts \<Rightarrow> (string \<Rightarrow> disk) \<Rightarrow> datetime \<Rightarrow> consumer_spec \<Rightarrow> int \<Rightarrow> (string \<times> string) list \<Rightarrow> string \<Rightarrow>
   bundle_capability list \<Rightarrow> ('d grant_cli, unit) op" where
  "emit_stage tx disk now spec ttl cfg path minted =
     (case compose_bundle (cs_consumer spec) (cs_network spec) ttl minted (Some cfg) now of
        Inl e \<Rightarrow> fail_with (''bundle emit failed: '' @ tx_bundle_error tx e) 2
      | Inr bundle \<Rightarrow>
          bindM (write_bundle disk bundle path) (\<lambda>err.
          case err of
            Some e \<Rightarrow> fail_with (''bundle emit failed: '' @ e) 2
          | None \<Rightarrow> echo_err (''bundle written 0600 to '' @ path @ '' ('' @ str_nat (length minted) @ '' capabilities: '' @
              join_commas (map bc_capability_id minted) @ '')'')))"

definition finish_grant ::
  "texts \<Rightarrow> (string \<Rightarrow> disk) \<Rightarrow> datetime \<Rightarrow> consumer_spec \<Rightarrow> grant_args \<Rightarrow> (string \<times> string) list \<Rightarrow> nat \<Rightarrow>
   bundle_capability list \<Rightarrow> ('d grant_cli, unit) op" where
  "finish_grant tx disk now spec args cfg failures minted =
     thenM
       (case ga_emit args of
          None \<Rightarrow> ret ()
        | Some path \<Rightarrow>
            if failures = 0 then emit_stage tx disk now spec (ga_ttl args) cfg path minted
            else echo_err (''bundle NOT written: not every capability minted (fail-closed '' @ em_dash @ '' no partial bundle)''))
       (if failures \<noteq> 0
        then fail_with (str_nat failures @ '' capability(ies) not minted '' @ em_dash @ '' see above'') 1 else ret ())"

definition grant ::
  "texts \<Rightarrow> (string \<Rightarrow> disk) \<Rightarrow> 'd mint_call \<Rightarrow> string \<Rightarrow> datetime \<Rightarrow> grant_args \<Rightarrow> ('d grant_cli, unit) op" where
  "grant tx disk mint admin_key now args =
     (case parse_config [] (ga_config args) of
        Inl item \<Rightarrow> fail_with (''malformed --config entry '' @ tx_repr tx item @ '': expected KEY=VALUE with a non-empty key'') 2
      | Inr cfg \<Rightarrow>
          bindM (spec_text (ga_spec args)) (\<lambda>txt.
          case parse_spec txt of
            Inl e \<Rightarrow> fail_with (''INVALID spec: '' @ tx_spec_error tx e) 2
          | Inr spec \<Rightarrow>
              thenM (echo_err (render_custody_diff spec))
                (let plan = provisioning_plan spec in
                 if \<not> ga_approve args then review plan
                 else thenM (case ga_emit args of None \<Rightarrow> ret () | Some path \<Rightarrow> premint_gate spec cfg plan)
                   (bindM (admin_headers admin_key) (\<lambda>auth.
                    bindM (mint_loop mint auth (ga_replace args) (ga_emit args \<noteq> None) plan 0 []) (\<lambda>(failures, minted).
                    finish_grant tx disk now spec args cfg failures minted))))))"


subsection \<open>What a grant does\<close>

lemma call_mint_run: "call_mint mint auth b c = (Inr (fst (mint auth b (cli_world c))), c\<lparr>cli_world := snd (mint auth b (cli_world c))\<rparr>)"
  by (simp add: call_mint_def split_beta)

lemma premint_gate_cases:
  assumes "premint_gate spec cfg plan c = (r, c')"
  obtains (passed) "r = Inr ()" "c' = c" "\<forall>g \<in> set plan. given_text (pg_wallet_name g) \<noteq> None"
      "map_of cfg ''NETWORK'' = Some (cs_network spec)"
  | (refused) "r = Inl (SystemExit 2)" "only_err c c'"
proof (cases "find no_wallet plan")
  case None
  then have "\<forall>g \<in> set plan. given_text (pg_wallet_name g) \<noteq> None" by (auto simp: find_None_iff no_wallet_def)
  with None assms that show thesis
    by (cases "map_of cfg ''NETWORK''") (auto simp: premint_gate_def split: if_splits)
next
  case (Some g)
  with assms that(2) show thesis by (auto simp: premint_gate_def)
qed

text \<open>The specification of the mint: every planned grant in order, all of them minted.\<close>

fun mint_all ::
  "'d mint_call \<Rightarrow> string \<Rightarrow> bool \<Rightarrow> planned_grant list \<Rightarrow> 'd \<Rightarrow> (string list \<times> 'd) option" where
  "mint_all mint auth replace [] d = Some ([], d)"
| "mint_all mint auth replace (g # gs) d =
     (case (pg_caller_name g, pg_policy_path g) of
        (Some name, Some path) \<Rightarrow>
          (case mint auth (grant_body replace g name path) d of
             (Inr (Minted key prefix), d') \<Rightarrow>
               map_option (\<lambda>(keys, e). (key # keys, e)) (mint_all mint auth replace gs d')
           | _ \<Rightarrow> None)
      | _ \<Rightarrow> None)"

lemma mint_one_emit:
  assumes "mint_one mint auth replace True g f m c = (r, c')"
  obtains (minted) name path key prefix where "pg_caller_name g = Some name" "pg_policy_path g = Some path"
      "mint auth (grant_body replace g name path) (cli_world c) = (Inr (Minted key prefix), cli_world c')"
      "r = Inr (f, m @ [bundle_of g key])" "cli_out c' = cli_out c" "cli_files c' = cli_files c"
  | (missed) "r = Inr (f + 1, m) \<or> r = Inl (SystemExit 2)" "cli_out c' = cli_out c" "cli_files c' = cli_files c"
proof (cases "pg_caller_name g = None \<or> pg_policy_path g = None")
  case True
  with assms missed show thesis by (auto simp: mint_one_def split: option.splits)
next
  case False
  then obtain name path where np: "pg_caller_name g = Some name" "pg_policy_path g = Some path" by auto
  obtain a d where call: "mint auth (grant_body replace g name path) (cli_world c) = (a, d)" by fastforce
  show thesis
  proof (cases a)
    case (Inl e)
    with np call assms missed show thesis by (auto simp: mint_one_def bindM_run call_mint_run)
  next
    case (Inr reply)
    with np call assms minted missed show thesis
      by (cases reply) (auto simp: mint_one_def bindM_run call_mint_run split: if_splits)
  qed
qed

lemma mint_loop_emit:
  assumes "mint_loop mint auth replace True plan f m c = (r, c')"
  shows "cli_out c' = cli_out c \<and> cli_files c' = cli_files c \<and>
    (r = Inl (SystemExit 2) \<or> (\<exists>f' m'. r = Inr (f', m') \<and> f \<le> f' \<and>
       (f' = f \<longrightarrow> (\<exists>keys. mint_all mint auth replace plan (cli_world c) = Some (keys, cli_world c') \<and>
          length keys = length plan \<and> m' = m @ map2 bundle_of plan keys))))"
  using assms
proof (induction plan arbitrary: f m c)
  case (Cons g gs)
  obtain r1 c1 where one: "mint_one mint auth replace True g f m c = (r1, c1)" by fastforce
  from one show ?case
  proof (cases rule: mint_one_emit)
    case (minted name path key prefix)
    with Cons.prems one have "mint_loop mint auth replace True gs f (m @ [bundle_of g key]) c1 = (r, c')"
      by (simp add: bindM_run)
    note ih = Cons.IH [OF this]
    show ?thesis
    proof (cases "r = Inl (SystemExit 2)")
      case True
      with ih minted show ?thesis by simp
    next
      case False
      with ih obtain f' m' where fm: "r = Inr (f', m')" "f \<le> f'"
        "f' = f \<longrightarrow> (\<exists>keys. mint_all mint auth replace gs (cli_world c1) = Some (keys, cli_world c') \<and>
          length keys = length gs \<and> m' = (m @ [bundle_of g key]) @ map2 bundle_of gs keys)" by blast
      have "f' = f \<longrightarrow> (\<exists>keys. mint_all mint auth replace (g # gs) (cli_world c) = Some (keys, cli_world c') \<and>
          length keys = length (g # gs) \<and> m' = m @ map2 bundle_of (g # gs) keys)"
      proof
        assume "f' = f"
        with fm(3) obtain keys where k: "mint_all mint auth replace gs (cli_world c1) = Some (keys, cli_world c')"
          "length keys = length gs" "m' = (m @ [bundle_of g key]) @ map2 bundle_of gs keys" by blast
        with minted show "\<exists>keys. mint_all mint auth replace (g # gs) (cli_world c) = Some (keys, cli_world c') \<and>
          length keys = length (g # gs) \<and> m' = m @ map2 bundle_of (g # gs) keys"
          by (intro exI [of _ "key # keys"]) simp
      qed
      with fm ih minted show ?thesis by auto
    qed
  next
    case missed
    then consider "r1 = Inr (f + 1, m)" | "r1 = Inl (SystemExit 2)" by blast
    then show ?thesis
    proof cases
      case 1
      with Cons.prems one have "mint_loop mint auth replace True gs (f + 1) m c1 = (r, c')" by (simp add: bindM_run)
      from Cons.IH [OF this] missed(2,3) show ?thesis by fastforce
    next
      case 2
      with Cons.prems one missed(2,3) show ?thesis by (simp add: bindM_run)
    qed
  qed
qed auto

lemma finish_grant_cases:
  assumes "finish_grant tx disk now spec args cfg f m c = (r, c')" "ga_emit args = Some path"
  obtains (kept) "cli_files c' = cli_files c" "cli_out c' = cli_out c" "cli_world c' = cli_world c"
      "r = Inl (SystemExit 1) \<or> r = Inl (SystemExit 2)"
  | (written) b where "f = 0" "compose_bundle (cs_consumer spec) (cs_network spec) (ga_ttl args) m (Some cfg) now = Inr b"
      "cli_files c' = AList.update path (bundle_text b) (cli_files c)" "cli_out c' = cli_out c" "cli_world c' = cli_world c"
      "if disk path = DiskOk then r = Inr () else r = Inl (SystemExit 2)"
proof (cases "f = 0")
  case False
  with assms kept show thesis by (auto simp: finish_grant_def)
next
  case True
  show thesis
  proof (cases "compose_bundle (cs_consumer spec) (cs_network spec) (ga_ttl args) m (Some cfg) now")
    case (Inl e)
    with True assms kept show thesis by (auto simp: finish_grant_def emit_stage_def thenM_def bindM_run)
  next
    case (Inr b)
    with True assms kept written [OF True Inr] show thesis
      by (cases "disk path") (auto simp: finish_grant_def emit_stage_def thenM_def bindM_run write_bundle_def)
  qed
qed


lemma spec_text_cases:
  assumes "spec_text src c = (r, c')"
  obtains (given) t where "r = Inr t" "c' = c" "\<And>e. src \<noteq> SpecFile (Inl e)"
  | (refused) "r = Inl (SystemExit 2)" "only_err c c'"
proof (cases src)
  case (SpecFile x)
  with assms that show thesis by (cases x) (auto simp: spec_text_def)
next
  case (Stdin t)
  with assms that show thesis by (auto simp: spec_text_def split: if_splits)
qed

text \<open>A command gets to the mint or stops with messages only.\<close>

lemma grant_cases:
  assumes "grant tx disk mint key now args c = (r, c')"
  obtains (stopped) "only_err c c'" "r = Inl (SystemExit 2) \<or> \<not> ga_approve args \<and> r = Inr ()"
  | (minting) cfg t spec c1 where "ga_approve args" "parse_config [] (ga_config args) = Inr cfg"
      "spec_text (ga_spec args) c = (Inr t, c)" "parse_spec t = Inr spec" "key \<noteq> []" "only_err c c1"
      "ga_emit args \<noteq> None \<longrightarrow> (\<forall>g \<in> set (provisioning_plan spec). given_text (pg_wallet_name g) \<noteq> None) \<and>
         map_of cfg ''NETWORK'' = Some (cs_network spec)"
      "bindM (mint_loop mint (''Bearer '' @ key) (ga_replace args) (ga_emit args \<noteq> None) (provisioning_plan spec) 0 [])
         (\<lambda>(f, m). finish_grant tx disk now spec args cfg f m) c1 = (r, c')"
proof (cases "parse_config [] (ga_config args)")
  case (Inl item)
  with assms stopped show thesis by (auto simp: grant_def)
next
  case cfg: (Inr cfg)
  obtain rt c0 where src: "spec_text (ga_spec args) c = (rt, c0)" by fastforce
  from src show thesis
  proof (cases rule: spec_text_cases)
    case refused
    with cfg src assms stopped show thesis by (auto simp: grant_def bindM_run)
  next
    case (given t)
    show thesis
    proof (cases "parse_spec t")
      case (Inl e)
      with cfg src given assms stopped show thesis by (auto simp: grant_def bindM_run)
    next
      case spec: (Inr spec)
      let ?c = "c\<lparr>cli_err := cli_err c @ [render_custody_diff spec]\<rparr>" and ?plan = "provisioning_plan spec"
      define gate :: "('a grant_cli, unit) op" where
        "gate = (case ga_emit args of None \<Rightarrow> ret () | Some path \<Rightarrow> premint_gate spec cfg ?plan)"
      have run: "(if \<not> ga_approve args then review ?plan else thenM gate (bindM (admin_headers key) (\<lambda>auth.
          bindM (mint_loop mint auth (ga_replace args) (ga_emit args \<noteq> None) ?plan 0 [])
            (\<lambda>(failures, minted). finish_grant tx disk now spec args cfg failures minted)))) ?c = (r, c')"
        using assms cfg src given spec unfolding gate_def grant_def by (simp add: bindM_run thenM_def Let_def)
      show thesis
      proof (cases "ga_approve args")
        case False
        with run stopped show thesis by (simp add: review_def echo_errs_run) (metis append_assoc only_err_own)
      next
        case True
        obtain rg c1 where g: "gate ?c = (rg, c1)" by fastforce
        have "rg = Inl (SystemExit 2) \<and> only_err ?c c1 \<or> rg = Inr () \<and> c1 = ?c \<and> (ga_emit args \<noteq> None \<longrightarrow>
            (\<forall>g \<in> set ?plan. given_text (pg_wallet_name g) \<noteq> None) \<and> map_of cfg ''NETWORK'' = Some (cs_network spec))"
          using g unfolding gate_def by (cases "ga_emit args") (auto elim: premint_gate_cases)
        then consider "rg = Inl (SystemExit 2)" "only_err ?c c1" | "rg = Inr ()" "c1 = ?c" "ga_emit args \<noteq> None \<longrightarrow>
            (\<forall>g \<in> set ?plan. given_text (pg_wallet_name g) \<noteq> None) \<and> map_of cfg ''NETWORK'' = Some (cs_network spec)" by blast
        then show thesis
        proof cases
          case 1
          with run True g stopped only_err_trans [OF only_err_own 1(2)] show thesis by (simp add: thenM_def bindM_run)
        next
          case 2
          show thesis
          proof (cases "key = []")
            case True
            with run \<open>ga_approve args\<close> g 2 stopped only_err_step [OF only_err_own] show thesis
              by (auto simp: thenM_def bindM_run admin_headers_def)
          next
            case False
            with run True g 2 show thesis
              by (intro minting [OF True cfg _ spec False only_err_own 2(3)])
                (simp_all add: src given thenM_def bindM_run admin_headers_def)
          qed
        qed
      qed
    qed
  qed
qed


text \<open>A grant is denied by default: without \<open>--approve\<close> nothing is minted, nothing is printed to stdout and no
  file is written, whatever the request, the options and the daemon are.\<close>

theorem grant_default_deny:
  assumes "grant tx disk mint key now args c = (r, c')" "\<not> ga_approve args"
  shows "cli_world c' = cli_world c \<and> cli_out c' = cli_out c \<and> cli_files c' = cli_files c \<and>
    (r = Inr () \<or> r = Inl (SystemExit 2))"
  using assms(1)
proof (cases rule: grant_cases)
  case stopped
  with only_err_same show ?thesis by blast
next
  case minting
  with assms(2) show ?thesis by simp
qed

text \<open>What an emitted bundle is: the bundle of the whole plan, with the keys of one run of mints that left the daemon
  as it is now.\<close>

definition complete_bundle ::
  "'d mint_call \<Rightarrow> string \<Rightarrow> datetime \<Rightarrow> grant_args \<Rightarrow> 'd \<Rightarrow> 'd \<Rightarrow> (string \<times> json) list \<Rightarrow> bool" where
  "complete_bundle mint key now args d d' b \<longleftrightarrow>
     (\<exists>cfg t spec keys. (ga_spec args = SpecFile (Inr t) \<or> ga_spec args = Stdin t) \<and> parse_spec t = Inr spec \<and>
        parse_config [] (ga_config args) = Inr cfg \<and> map_of cfg ''NETWORK'' = Some (cs_network spec) \<and>
        (\<forall>g \<in> set (provisioning_plan spec). given_text (pg_wallet_name g) \<noteq> None) \<and>
        mint_all mint (''Bearer '' @ key) (ga_replace args) (provisioning_plan spec) d = Some (keys, d') \<and>
        length keys = length (provisioning_plan spec) \<and>
        compose_bundle (cs_consumer spec) (cs_network spec) (ga_ttl args) (map2 bundle_of (provisioning_plan spec) keys)
          (Some cfg) now = Inr b)"

lemma spec_text_source: "spec_text src c = (Inr t, c') \<Longrightarrow> src = SpecFile (Inr t) \<or> src = Stdin t"
  by (cases src) (auto simp: spec_text_def split: sum.splits if_splits)

lemma grant_emit_cases:
  assumes "grant tx disk mint key now args c = (r, c')" "ga_emit args = Some path"
  obtains (unwritten) "cli_out c' = cli_out c" "cli_files c' = cli_files c" "r = Inr () \<longrightarrow> \<not> ga_approve args"
  | (written) b where "ga_approve args" "cli_out c' = cli_out c" "cli_files c' = AList.update path (bundle_text b) (cli_files c)"
      "complete_bundle mint key now args (cli_world c) (cli_world c') b"
      "if disk path = DiskOk then r = Inr () else r = Inl (SystemExit 2)"
  using assms(1)
proof (cases rule: grant_cases)
  case stopped
  with only_err_same [OF stopped(1)] unwritten show thesis by auto
next
  case (minting cfg t spec c1)
  have c1: "cli_out c1 = cli_out c" "cli_world c1 = cli_world c" "cli_files c1 = cli_files c"
    using only_err_same [OF minting(6)] by simp_all
  obtain rl c2 where loop: "mint_loop mint (''Bearer '' @ key) (ga_replace args) True (provisioning_plan spec) 0 [] c1 = (rl, c2)"
    by fastforce
  note ran = mint_loop_emit [OF loop]
  show thesis
  proof (cases "rl = Inl (SystemExit 2)")
    case True
    with minting(8) loop assms(2) ran c1 unwritten show thesis by (auto simp: bindM_run)
  next
    case False
    with ran obtain f m where fm: "rl = Inr (f, m)" "f = 0 \<longrightarrow> (\<exists>keys. mint_all mint (''Bearer '' @ key) (ga_replace args)
        (provisioning_plan spec) (cli_world c1) = Some (keys, cli_world c2) \<and> length keys = length (provisioning_plan spec) \<and>
        m = map2 bundle_of (provisioning_plan spec) keys)" by auto
    with minting(8) loop assms(2) have "finish_grant tx disk now spec args cfg f m c2 = (r, c')" by (simp add: bindM_run)
    from this assms(2) show thesis
    proof (cases rule: finish_grant_cases)
      case kept
      with ran c1 unwritten show thesis by auto
    next
      case (written b)
      with fm(2) obtain keys where k: "mint_all mint (''Bearer '' @ key) (ga_replace args) (provisioning_plan spec)
          (cli_world c1) = Some (keys, cli_world c2)" "length keys = length (provisioning_plan spec)"
        "m = map2 bundle_of (provisioning_plan spec) keys" by blast
      have "complete_bundle mint key now args (cli_world c) (cli_world c') b"
        unfolding complete_bundle_def
        using minting(2,4,7) spec_text_source [OF minting(3)] k written(2,5) c1(2) assms(2) by (intro exI conjI) simp_all
      with written ran c1 minting(1) show thesis by (intro that(2)) simp_all
    qed
  qed
qed



subsection \<open>Stranded keys\<close>

lemma mint_loop_all:
  assumes "mint_all mint auth replace plan (cli_world c) = Some (keys, d)"
  shows "\<exists>c'. mint_loop mint auth replace True plan f m c = (Inr (f, m @ map2 bundle_of plan keys), c') \<and>
    cli_world c' = d \<and> cli_out c' = cli_out c \<and> cli_files c' = cli_files c"
  using assms
proof (induction plan arbitrary: keys m c)
  case (Cons g gs)
  from Cons(2) obtain name path key prefix d1 ks where m: "pg_caller_name g = Some name" "pg_policy_path g = Some path"
    "mint auth (grant_body replace g name path) (cli_world c) = (Inr (Minted key prefix), d1)"
    "mint_all mint auth replace gs d1 = Some (ks, d)" "keys = key # ks"
    by (auto split: option.splits prod.splits sum.splits http_reply.splits)
  then obtain c1 where "mint_one mint auth replace True g f m c = (Inr (f, m @ [bundle_of g key]), c1)"
    "cli_world c1 = d1" "cli_out c1 = cli_out c" "cli_files c1 = cli_files c"
    by (simp add: mint_one_def bindM_run call_mint_run)
  with Cons(1) [of c1 ks "m @ [bundle_of g key]"] m(4,5) show ?case by (auto simp: bindM_run)
qed simp

text \<open>An approved request that passes the gate and whose mints all succeed reaches the last stage with every key.\<close>

lemma grant_all_minted:
  assumes "ga_emit args = Some path" "ga_approve args" "parse_config [] (ga_config args) = Inr cfg"
    and "ga_spec args = SpecFile (Inr t)" "parse_spec t = Inr spec" "key \<noteq> []"
    and "\<forall>g \<in> set (provisioning_plan spec). given_text (pg_wallet_name g) \<noteq> None"
    and "map_of cfg ''NETWORK'' = Some (cs_network spec)"
    and "mint_all mint (''Bearer '' @ key) (ga_replace args) (provisioning_plan spec) (cli_world c) = Some (keys, d)"
  obtains c' where "grant tx disk mint key now args c =
      finish_grant tx disk now spec args cfg 0 (map2 bundle_of (provisioning_plan spec) keys) c'"
    "cli_world c' = d" "cli_out c' = cli_out c" "cli_files c' = cli_files c"
proof -
  let ?c = "c\<lparr>cli_err := cli_err c @ [render_custody_diff spec]\<rparr>"
  from mint_loop_all [of mint "''Bearer '' @ key" "ga_replace args" "provisioning_plan spec" ?c keys d 0 "[]"] assms(9)
  obtain c' where loop: "mint_loop mint (''Bearer '' @ key) (ga_replace args) True (provisioning_plan spec) 0 [] ?c =
      (Inr (0, map2 bundle_of (provisioning_plan spec) keys), c')"
    "cli_world c' = d" "cli_out c' = cli_out c" "cli_files c' = cli_files c" by auto
  have "find no_wallet (provisioning_plan spec) = None" using assms(7) by (auto simp: find_None_iff no_wallet_def)
  then have gate: "premint_gate spec cfg (provisioning_plan spec) ?c = (Inr (), ?c)"
    by (simp add: premint_gate_def assms(8))
  obtain auth where auth: "auth = ''Bearer '' @ key" by simp
  have "admin_headers key ?c = (Inr auth, ?c)" using assms(6) by (simp add: admin_headers_def auth)
  with loop(1) [folded auth] gate have "grant tx disk mint key now args c =
      finish_grant tx disk now spec args cfg 0 (map2 bundle_of (provisioning_plan spec) keys) c'"
    by (simp add: grant_def assms(1-5) spec_text_def bindM_run thenM_def Let_def)
  with loop(2-4) that show thesis by blast
qed

definition doomed_bundle :: "int \<Rightarrow> (string \<times> string) list \<Rightarrow> bool" where
  "doomed_bundle ttl cfg \<longleftrightarrow> ttl \<le> 0 \<or> reject_unsafe_config cfg \<noteq> None"

lemma doomed_refused: "doomed_bundle ttl cfg \<Longrightarrow> \<exists>e. compose_bundle consumer network ttl caps (Some cfg) now = Inl e"
  by (auto simp: doomed_bundle_def compose_bundle_def Let_def split: option.splits)

text \<open>C37: the gate in front of the mint does not look at what the bundle composer refuses.  A request with a
  lifetime that is not positive, or with a config value the composer rejects, passes the gate; every key is then
  minted and active in the daemon, the bundle is refused, and the keys are neither printed nor written: they are
  lost, which the gate is there to prevent.\<close>

theorem grant_strands_keys:
  assumes "ga_emit args = Some path" "ga_approve args" "parse_config [] (ga_config args) = Inr cfg"
    and "ga_spec args = SpecFile (Inr t)" "parse_spec t = Inr spec" "key \<noteq> []"
    and "\<forall>g \<in> set (provisioning_plan spec). given_text (pg_wallet_name g) \<noteq> None"
    and "map_of cfg ''NETWORK'' = Some (cs_network spec)"
    and "mint_all mint (''Bearer '' @ key) (ga_replace args) (provisioning_plan spec) (cli_world c) = Some (keys, d)"
    and "doomed_bundle (ga_ttl args) cfg"
  shows "\<exists>c'. grant tx disk mint key now args c = (Inl (SystemExit 2), c') \<and> cli_world c' = d \<and>
    cli_out c' = cli_out c \<and> cli_files c' = cli_files c"
proof -
  obtain e where e: "compose_bundle (cs_consumer spec) (cs_network spec) (ga_ttl args)
      (map2 bundle_of (provisioning_plan spec) keys) (Some cfg) now = Inl e"
    using doomed_refused [OF assms(10)] by blast
  show ?thesis
    by (rule grant_all_minted [OF assms(1-9), of tx disk now])
      (simp add: finish_grant_def assms(1) emit_stage_def e thenM_def bindM_run)
qed

subsection \<open>Sample requests\<close>

definition sample_texts :: texts where
  "sample_texts = \<lparr>tx_repr = id, tx_spec_error = (\<lambda>_. []), tx_bundle_error = (\<lambda>_. [])\<rparr>"

definition claim_options :: "bool \<Rightarrow> int \<Rightarrow> grant_args" where
  "claim_options approve ttl = \<lparr>ga_spec = SpecFile (Inr (canonical_json (spec_json claim_spec))), ga_approve = approve,
     ga_replace = False, ga_emit = Some ''bundle'', ga_ttl = ttl, ga_config = [''NETWORK=flare'']\<rparr>"

definition counting_mint :: "nat mint_call" where
  "counting_mint a b d = (Inr (Minted (str_nat d) []), d + 1)"

definition idle_cli :: "'d \<Rightarrow> 'd grant_cli" where
  "idle_cli d = \<lparr>cli_out = [], cli_err = [], cli_world = d, cli_files = []\<rparr>"

definition claim_grant :: planned_grant where
  "claim_grant = \<lparr>pg_capability_id = ''clif/flare/ftso-reward-claim'', pg_role = ''ftso-reward-claim'',
     pg_caller_token_env = ''FWD_CLAIM_TOKEN'', pg_wallet_name = Some ''claimer-flare'',
     pg_caller_name = Some ''claim-flare'', pg_policy_path = Some ''perm/claim-flare''\<rparr>"

lemma claim_plan: "provisioning_plan claim_spec = [claim_grant]"
  by (simp add: provisioning_plan_def planned_def claim_spec_def claim_capability_def role_convention_def claim_grant_def
      starts_with_def)

lemma claim_request:
  "ga_emit (claim_options a ttl) = Some ''bundle''" "ga_approve (claim_options a ttl) = a"
  "parse_config [] (ga_config (claim_options a ttl)) = Inr [(''NETWORK'', ''flare'')]"
  "ga_spec (claim_options a ttl) = SpecFile (Inr (canonical_json (spec_json claim_spec)))"
  "ga_ttl (claim_options a ttl) = ttl" "ga_replace (claim_options a ttl) = False"
  "\<forall>g \<in> set (provisioning_plan claim_spec). given_text (pg_wallet_name g) \<noteq> None"
  "map_of [(''NETWORK'', ''flare'')] ''NETWORK'' = Some (cs_network claim_spec)"
  unfolding claim_plan
  by (simp_all add: claim_options_def claim_grant_def given_text_def) (simp add: claim_spec_def)

lemma grant_default_deny_witness:
  "let c = snd (grant sample_texts (\<lambda>_. DiskOk) counting_mint ''admin'' 0 (claim_options False 3600) (idle_cli 7))
   in cli_world c = 7 \<and> cli_out c = [] \<and> cli_files c = []"
  using grant_default_deny [OF prod.collapse [symmetric], of "claim_options False 3600" sample_texts "\<lambda>_. DiskOk" counting_mint
      "''admin''" 0 "idle_cli 7"]
  by (simp add: claim_request Let_def idle_cli_def)

lemma grant_strands_keys_witness:
  "\<exists>c. grant sample_texts (\<lambda>_. DiskOk) counting_mint ''admin'' 0 (claim_options True 0) (idle_cli 7) = (Inl (SystemExit 2), c) \<and>
    cli_world c = 8 \<and> cli_out c = [] \<and> cli_files c = []"
proof -
  have "mint_all counting_mint (''Bearer '' @ ''admin'') False (provisioning_plan claim_spec) (cli_world (idle_cli 7)) =
      Some ([str_nat 7], 8)"
    by (simp add: claim_plan claim_grant_def counting_mint_def idle_cli_def)
  then have "\<exists>c. grant sample_texts (\<lambda>_. DiskOk) counting_mint ''admin'' 0 (claim_options True 0) (idle_cli 7) =
      (Inl (SystemExit 2), c) \<and> cli_world c = 8 \<and> cli_out c = cli_out (idle_cli (7::nat)) \<and>
      cli_files c = cli_files (idle_cli (7::nat))"
    by (intro grant_strands_keys [OF claim_request(1) _ claim_request(3,4) claim_spec_parsed _ claim_request(7,8)])
      (simp_all only: claim_request(2,5,6) doomed_bundle_def, simp_all)
  then show ?thesis by (simp add: idle_cli_def)
qed

subsection \<open>The daemon behind the calls\<close>

text \<open>What the command relies on: a minted key is live for its caller, and later calls keep live keys live.\<close>

locale mint_service =
  fixes mint :: "'d mint_call" and ok :: "'d \<Rightarrow> bool" and live :: "'d \<Rightarrow> caller_body \<Rightarrow> string \<Rightarrow> bool"
  assumes mint_ok: "mint a b d = (r, d') \<Longrightarrow> ok d \<Longrightarrow> ok d'"
    and minted_live: "mint a b d = (Inr (Minted key prefix), d') \<Longrightarrow> ok d \<Longrightarrow> live d' b key"
    and live_kept: "mint a b d = (r, d') \<Longrightarrow> ok d \<Longrightarrow> live d b' key \<Longrightarrow> live d' b' key"
begin

lemma all_keep: "mint_all mint a replace gs d = Some (keys, d') \<Longrightarrow> ok d \<Longrightarrow> ok d' \<and> (live d b key \<longrightarrow> live d' b key)"
proof (induction gs arbitrary: d keys)
  case (Cons g gs)
  from Cons(2) obtain name path k prefix d1 ks where m: "mint a (grant_body replace g name path) d = (Inr (Minted k prefix), d1)"
    "mint_all mint a replace gs d1 = Some (ks, d')"
    by (auto split: option.splits prod.splits sum.splits http_reply.splits)
  with Cons(1) [OF m(2)] mint_ok [OF m(1) Cons(3)] live_kept [OF m(1) Cons(3)] show ?case by blast
qed simp

lemma all_live:
  assumes "mint_all mint a replace gs d = Some (keys, d')" "ok d" "(g, key) \<in> set (zip gs keys)"
  shows "\<exists>name path. pg_caller_name g = Some name \<and> pg_policy_path g = Some path \<and> live d' (grant_body replace g name path) key"
  using assms
proof (induction gs arbitrary: d keys)
  case (Cons h gs)
  from Cons(2) obtain name path k prefix d1 ks where m: "pg_caller_name h = Some name" "pg_policy_path h = Some path"
    "mint a (grant_body replace h name path) d = (Inr (Minted k prefix), d1)"
    "mint_all mint a replace gs d1 = Some (ks, d')" "keys = k # ks"
    by (auto split: option.splits prod.splits sum.splits http_reply.splits)
  note ok1 = mint_ok [OF m(3) Cons(3)]
  from Cons(4) m(5) consider "(g, key) = (h, k)" | "(g, key) \<in> set (zip gs ks)" by auto
  then show ?case
  proof cases
    case 1
    with all_keep [OF m(4) ok1] minted_live [OF m(3) Cons(3)] m(1,2) show ?thesis by blast
  next
    case 2
    with Cons(1) [OF m(4) ok1] show ?thesis by blast
  qed
qed simp

end

text \<open>The daemon of the model: the database, and how many random keys it has drawn.\<close>

record mint_daemon =
  md_db :: db
  md_draws :: nat

definition reply_of :: "exn + caller_create_result \<Rightarrow> http_reply" where
  "reply_of r =
     (case r of
        Inr res \<Rightarrow> Minted (ccs_api_key res) (ccs_api_key_prefix res)
      | Inl (HTTPException status detail) \<Rightarrow> Reply status detail
      | Inl _ \<Rightarrow> Reply 500 ''Internal Server Error'')"

definition daemon_mint ::
  "string \<Rightarrow> policy option \<Rightarrow> (string \<Rightarrow> string) \<Rightarrow> (nat \<Rightarrow> string) \<Rightarrow> bool \<Rightarrow> (nat \<Rightarrow> clock) \<Rightarrow> mint_daemon mint_call" where
  "daemon_mint expected policy argon2_hash random vault clocks auth b d =
     (case post_callers expected policy argon2_hash (random (md_draws d)) vault (clocks (md_draws d)) (Some auth) b (md_db d) of
        (r, e) \<Rightarrow> (Inr (reply_of r), \<lparr>md_db = e, md_draws = md_draws d + 1\<rparr>))"

definition daemon_ok :: "mint_daemon \<Rightarrow> bool" where
  "daemon_ok d \<longleftrightarrow> callers_wf (db_callers (md_db d))"

text \<open>An active row of the body's caller for the key.\<close>

definition daemon_live :: "(string \<Rightarrow> string) \<Rightarrow> mint_daemon \<Rightarrow> caller_body \<Rightarrow> string \<Rightarrow> bool" where
  "daemon_live argon2_hash d b key \<longleftrightarrow>
     (\<exists>c r. c \<in> set (db_callers (md_db d)) \<and> c_name c = cab_name b \<and> c_policy_path c = cab_policy_path b \<and>
        c_revoked_at c = None \<and> length r = 43 \<and> key = key_prefix_const @ r \<and> c_api_key_hash c = argon2_hash key \<and>
        c_api_key_prefix c = take 8 r)"

lemma active_caller_kept:
  assumes "caller_create now n h p pp rep t = (res, t')" "callers_wf t" "c \<in> set t" "c_revoked_at c = None"
  shows "c \<in> set t'"
  using assms(1)
proof (cases rule: caller_create_cases)
  case (replaced row e)
  have "c_name c \<noteq> n" using find_caller_unique [OF assms(2,3)] replaced(4,5) assms(4) by auto
  with assms(3) show ?thesis unfolding replaced(7) by (auto simp: image_iff)
qed (use assms(3) in simp_all)

lemma post_callers_cases:
  assumes "post_callers expected policy argon2 rnd vault ck a b d = (res, d')"
  obtains (refused) e where "res = Inl e" "db_callers d' = db_callers d"
  | (created) g row r where "generate_api_key argon2 rnd = Inr g"
      "caller_create (ck_row ck) (cab_name b) (gk_key_hash g) (gk_key_prefix g) (cab_policy_path b) (cab_replace b)
         (db_callers d) = (Inr row, db_callers d')"
      "res = Inr r" "ccs_api_key r = gk_key g"
proof -
  let ?run = "session_scope False (create_caller argon2 rnd ck \<lparr>ccr_name = cab_name b,
    ccr_policy_path = cab_policy_path b, ccr_replace = cab_replace b, ccr_capability_id = cab_capability_id b\<rparr>) d"
  have "(\<exists>e. res = Inl e) \<and> d' = d \<or> ?run = (res, d') \<or> (\<exists>e e'. ?run = (Inl e, d') \<and> res = Inl e')"
    using assms unfolding post_callers_def
    by (auto elim!: admin_guarded_cases simp: callers_handler_def sealed_scope_def catchM_def split: if_splits sum.splits prod.splits)
  then consider "\<exists>e. res = Inl e" "d' = d" | v where "?run = (v, d')" "v = res \<or> (\<exists>e e'. v = Inl e \<and> res = Inl e')" by blast
  then show thesis
  proof cases
    case 1
    with that(1) show thesis by auto
  next
    case 2
    from 2(1) show thesis
    proof (cases rule: create_caller_cases)
      case (refused e)
      with 2(2) audit_refusedD(2) [OF refused(2)] that(1) show thesis by auto
    next
      case (created g row t)
      with 2(2) audit_grownD(2) [OF created(4)] show thesis by (intro that(2) [of g row]) auto
    qed
  qed
qed

lemma daemon_mint_cases:
  assumes "daemon_mint expected policy argon2 random vault clocks a b d = (r, d')"
  obtains (refused) "\<And>k p. r \<noteq> Inr (Minted k p)" "db_callers (md_db d') = db_callers (md_db d)"
  | (created) g row prefix where "generate_api_key argon2 (random (md_draws d)) = Inr g" "r = Inr (Minted (gk_key g) prefix)"
      "caller_create (ck_row (clocks (md_draws d))) (cab_name b) (gk_key_hash g) (gk_key_prefix g) (cab_policy_path b)
         (cab_replace b) (db_callers (md_db d)) = (Inr row, db_callers (md_db d'))"
proof -
  obtain res e where run: "post_callers expected policy argon2 (random (md_draws d)) vault (clocks (md_draws d)) (Some a) b
      (md_db d) = (res, e)" by fastforce
  with assms have d': "r = Inr (reply_of res)" "md_db d' = e" by (auto simp: daemon_mint_def)
  from run show thesis
  proof (cases rule: post_callers_cases)
    case (refused x)
    with d' that(1) show thesis by (auto simp: reply_of_def split: exn.splits)
  next
    case (created g row x)
    with d' that(2) show thesis by (auto simp: reply_of_def)
  qed
qed

interpretation daemon_mints: mint_service "daemon_mint expected policy argon2 random vault clocks" daemon_ok "daemon_live argon2"
  for expected policy argon2 random vault clocks
proof
  fix a b d r d'
  assume run: "daemon_mint expected policy argon2 random vault clocks a b d = (r, d')" and ok: "daemon_ok d"
  from run ok show "daemon_ok d'"
    by (cases rule: daemon_mint_cases) (auto simp: daemon_ok_def dest: caller_create_wf)
  from run show "daemon_live argon2 d' b' key" if "daemon_live argon2 d b' key" for b' key
    using that ok by (cases rule: daemon_mint_cases)
      (auto simp: daemon_ok_def daemon_live_def dest: active_caller_kept)
next
  fix a b d key prefix d'
  assume "daemon_mint expected policy argon2 random vault clocks a b d = (Inr (Minted key prefix), d')" "daemon_ok d"
  from this(1) show "daemon_live argon2 d' b key"
  proof (cases rule: daemon_mint_cases)
    case (created g row p)
    from caller_create_row [OF created(3)] created(1,2) show ?thesis
      by (auto simp: daemon_live_def generate_api_key_def Let_def split: if_splits intro!: bexI [of _ row])
  qed auto
qed

end
