(* ===== verification/Grant_Live.thy ===== *)
theory Grant_Live
  imports Grant_Cli Lifetime
begin

section \<open>Granted keys authenticate\<close>

text \<open>
  The command of \<open>cli/capability.py\<close> against the daemon of the model: the tokens of a bundle that \<open>clifwd capability
  grant\<close> wrote authenticate at the daemon as the callers of the plan.  The key endpoint answers a well-formed
  request on an unused name with a key.
\<close>

subsection \<open>The key endpoint answers\<close>

definition caller_request_ok :: "policy option \<Rightarrow> caller_body \<Rightarrow> bool" where
  "caller_request_ok policy b \<longleftrightarrow> caller_body_valid b \<and> name_match (cab_name b) \<and>
     (case cab_capability_id b of None \<Rightarrow> True | Some s \<Rightarrow> capability_match s) \<and>
     (case policy of None \<Rightarrow> True | Some p \<Rightarrow> policy_path_exists p (cab_policy_path b) ''caller'')"

lemma create_caller_fresh:
  assumes "length rnd = 43" "find_caller (ccr_name r) (db_callers d) = None"
    and "\<not> hash_taken (ccr_name r) (argon2 (key_prefix_const @ rnd)) (db_callers d)"
  obtains c row a where "create_caller argon2 rnd ck r (open_session d) =
      (Inr c, (open_session d)\<lparr>work := d\<lparr>db_callers := db_callers d @ [row], db_audit := a\<rparr>\<rparr>)"
    "ccs_api_key c = key_prefix_const @ rnd"
proof -
  let ?key = "key_prefix_const @ rnd"
  let ?g = "\<lparr>gk_key = ?key, gk_key_hash = argon2 ?key, gk_key_prefix = take 8 rnd\<rparr>"
  let ?row = "\<lparr>c_name = ccr_name r, c_api_key_hash = argon2 ?key, c_api_key_prefix = take 8 rnd,
    c_policy_path = ccr_policy_path r, c_created_at = ck_row ck, c_revoked_at = None\<rparr>"
  let ?s = "put_callers (db_callers d @ [?row]) (open_session d)"
  let ?v = "\<lparr>ccs_name = c_name ?row, ccs_api_key = ?key, ccs_api_key_prefix = c_api_key_prefix ?row,
    ccs_policy_path = c_policy_path ?row, ccs_capability_id = ccr_capability_id r\<rparr>"
  obtain a where row: "thenM (json_audit ck ''caller-create'' ''approved'' None (caller_create_fields r) None
      (Some [(''api_key_prefix'', JStr (c_api_key_prefix ?row))])) (ret ?v) ?s = (Inr ?v, ?s\<lparr>work := (work ?s)\<lparr>db_audit := a\<rparr>\<rparr>)"
    by (rule audited_step_log [OF account_words(1)])
  have key: "generate_api_key argon2 rnd = Inr ?g" using assms(1) by (simp add: generate_api_key_def Let_def)
  have made: "on_callers (caller_create (ck_row ck) (ccr_name r) (argon2 ?key) (take 8 rnd) (ccr_policy_path r) (ccr_replace r))
      (open_session d) = (Inr ?row, ?s)"
    using assms(2,3) by (simp add: on_run caller_create_run Let_def)
  have "create_caller argon2 rnd ck r (open_session d) = (Inr ?v, ?s\<lparr>work := (work ?s)\<lparr>db_audit := a\<rparr>\<rparr>)"
    unfolding create_caller_def key
    by (rule trans, rule bindM_Inr, rule ofSum_run, rule trans, rule bindM_Inr, rule catchM_Inr)
      (use made row in \<open>simp_all only: generated_key.simps\<close>)
  then show thesis by (intro that [of ?v a ?row]) (simp_all add: put_callers_def)
qed

lemma daemon_mint_fresh:
  assumes "admin_ok expected (Some auth)" "caller_request_ok policy b"
    and "length (random (md_draws d)) = 43" "find_caller (cab_name b) (db_callers (md_db d)) = None"
    and "\<not> hash_taken (cab_name b) (argon2 (key_prefix_const @ random (md_draws d))) (db_callers (md_db d))"
  obtains prefix d' where "daemon_mint expected policy argon2 random True clocks auth b d =
    (Inr (Minted (key_prefix_const @ random (md_draws d)) prefix), d')"
proof -
  let ?r = "\<lparr>ccr_name = cab_name b, ccr_policy_path = cab_policy_path b, ccr_replace = cab_replace b,
    ccr_capability_id = cab_capability_id b\<rparr>"
  from assms(4,5) obtain c row a where "create_caller argon2 (random (md_draws d)) (clocks (md_draws d)) ?r (open_session (md_db d)) =
      (Inr c, (open_session (md_db d))\<lparr>work := (md_db d)\<lparr>db_callers := db_callers (md_db d) @ [row], db_audit := a\<rparr>\<rparr>)"
    "ccs_api_key c = key_prefix_const @ random (md_draws d)"
    by (rule create_caller_fresh [OF assms(3), of ?r "md_db d" argon2 "clocks (md_draws d)", simplified])
  with assms(1,2) that show thesis
    by (auto simp: daemon_mint_def post_callers_def admin_guarded_run caller_request_ok_def callers_handler_def sealed_scope_def
        session_scope_def catchM_def reply_of_def split: option.splits)
qed

subsection \<open>Tokens of a written bundle\<close>

text \<open>C17: A written bundle works: when \<open>clifwd capability grant --approve --emit-bundle\<close> ends without an error, the
  file holds one entry per capability of the request, and presenting its token to the daemon it ran against
  resolves to the active caller that the plan names for the capability, under the plan's policy path.  argon2
  accepts a key for its own hash and for no other stored one.\<close>

theorem granted_keys_authenticate:
  assumes "grant tx disk (daemon_mint expected policy argon2 random vault clocks) key now args c = (Inr (), c')"
    and "ga_emit args = Some path" "ga_approve args" "callers_wf (db_callers (md_db (cli_world c)))"
    and "\<And>k. verifies (argon2 k) k = Some True"
    and "\<And>x k. x \<in> set (db_callers (md_db (cli_world c'))) \<Longrightarrow> c_api_key_hash x \<noteq> argon2 k \<Longrightarrow>
      verifies (c_api_key_hash x) k = Some False"
  shows "\<exists>spec t keys b. parse_spec t = Inr spec \<and> cli_files c' = AList.update path (bundle_text b) (cli_files c) \<and>
    map_of b ''capabilities'' = Some (JList (map bundle_entry (map2 bundle_of (provisioning_plan spec) keys))) \<and>
    length keys = length (provisioning_plan spec) \<and>
    (\<forall>(g, k) \<in> set (zip (provisioning_plan spec) keys). \<exists>x.
       resolve_caller verifies k (db_callers (md_db (cli_world c'))) = (Inr (Some x), db_callers (md_db (cli_world c'))) \<and>
       pg_caller_name g = Some (c_name x) \<and> pg_policy_path g = Some (c_policy_path x))"
  using assms(1,2)
proof (cases rule: grant_emit_cases)
  case unwritten
  with assms(3) show ?thesis by simp
next
  case (written b)
  let ?t = "db_callers (md_db (cli_world c'))"
  from written(4) obtain cfg t spec keys where b: "parse_spec t = Inr spec"
    "mint_all (daemon_mint expected policy argon2 random vault clocks) (''Bearer '' @ key) (ga_replace args)
       (provisioning_plan spec) (cli_world c) = Some (keys, cli_world c')"
    "length keys = length (provisioning_plan spec)"
    "compose_bundle (cs_consumer spec) (cs_network spec) (ga_ttl args) (map2 bundle_of (provisioning_plan spec) keys)
       (Some cfg) now = Inr b"
    unfolding complete_bundle_def by blast
  have ok: "daemon_ok (cli_world c)" using assms(4) by (simp add: daemon_ok_def)
  have wf: "callers_wf ?t" using daemon_mints.all_keep [OF b(2) ok] by (simp add: daemon_ok_def)
  have "\<exists>x. resolve_caller verifies k ?t = (Inr (Some x), ?t) \<and> pg_caller_name g = Some (c_name x) \<and>
      pg_policy_path g = Some (c_policy_path x)" if "(g, k) \<in> set (zip (provisioning_plan spec) keys)" for g k
  proof -
    from daemon_mints.all_live [OF b(2) ok that] obtain x r where x: "x \<in> set ?t" "pg_caller_name g = Some (c_name x)"
      "pg_policy_path g = Some (c_policy_path x)" "c_revoked_at x = None" "length r = 43" "k = key_prefix_const @ r"
      "c_api_key_hash x = argon2 k" "c_api_key_prefix x = take 8 r" unfolding daemon_live_def grant_body_def by auto
    have "verifies (c_api_key_hash y) (key_prefix_const @ r) = Some False" if "y \<in> set ?t" "y \<noteq> x" for y
      using assms(6) [OF that(1), of k] hash_unique [OF wf x(1) that(1)] that(2) x(6,7) by metis
    from resolve_unique [where verifies = verifies, OF x(1,4,5,8) _ this] assms(5) [of k] x(2,3,6,7) show ?thesis by auto
  qed
  moreover have "map_of b ''capabilities'' = Some (JList (map bundle_entry (map2 bundle_of (provisioning_plan spec) keys)))"
    using b(4) by (auto simp: compose_bundle_def Let_def split: if_splits option.splits)
  ultimately show ?thesis using b(1,3) written(3) by (intro exI conjI) auto
qed

subsection \<open>The sample request is granted\<close>

definition claim_argon2 :: "string \<Rightarrow> string" where
  "claim_argon2 k = CHR ''$'' # k"

definition claim_mint :: "mint_daemon mint_call" where
  "claim_mint = daemon_mint ''secret'' None claim_argon2 (\<lambda>_. replicate 43 CHR ''a'') True (\<lambda>_. setup_clock)"

definition claim_daemon :: mint_daemon where
  "claim_daemon = \<lparr>md_db = empty_db, md_draws = 0\<rparr>"

definition claim_key :: string where
  "claim_key = key_prefix_const @ replicate 43 CHR ''a''"

lemma claim_minted: "\<exists>d. mint_all claim_mint (''Bearer '' @ ''secret'') False (provisioning_plan claim_spec) claim_daemon =
  Some ([claim_key], d)"
proof -
  let ?b = "grant_body False claim_grant ''claim-flare'' ''perm/claim-flare''"
  have ok: "admin_ok ''secret'' (Some (''Bearer '' @ ''secret''))" by code_simp
  have body: "caller_request_ok None ?b" by code_simp
  have new: "find_caller (cab_name ?b) (db_callers (md_db claim_daemon)) = None"
    "\<not> hash_taken (cab_name ?b) (claim_argon2 (key_prefix_const @ replicate 43 CHR ''a'')) (db_callers (md_db claim_daemon))"
    by (simp_all add: claim_daemon_def empty_db_def find_caller_def hash_taken_def)
  obtain prefix d where call: "claim_mint (''Bearer '' @ ''secret'') ?b claim_daemon = (Inr (Minted claim_key prefix), d)"
    unfolding claim_mint_def claim_key_def by (rule daemon_mint_fresh [where ?argon2.0 = claim_argon2 and random = "\<lambda>_. replicate 43 CHR ''a''", OF ok body _ new]) simp_all
  have names: "pg_caller_name claim_grant = Some ''claim-flare''" "pg_policy_path claim_grant = Some ''perm/claim-flare''"
    by (simp_all add: claim_grant_def)
  show ?thesis unfolding claim_plan mint_all.simps names option.case prod.case call by simp
qed

lemma claim_composed: "\<exists>b. compose_bundle ''clif'' ''flare'' 3600 [bundle_of claim_grant claim_key] (Some [(''NETWORK'', ''flare'')]) 0 = Inr b"
proof -
  have "reject_capabilities [bundle_of claim_grant claim_key] = None" "reject_unsafe_config [(''NETWORK'', ''flare'')] = None"
    by code_simp+
  then show ?thesis by (simp add: compose_bundle_def Let_def)
qed

lemma claim_granted:
  "\<exists>c. grant sample_texts (\<lambda>_. DiskOk) claim_mint ''secret'' 0 (claim_options True 3600) (idle_cli claim_daemon) = (Inr (), c)"
proof -
  obtain d where "mint_all claim_mint (''Bearer '' @ ''secret'') False (provisioning_plan claim_spec) claim_daemon =
    Some ([claim_key], d)" using claim_minted by blast
  then have all: "mint_all claim_mint (''Bearer '' @ ''secret'') (ga_replace (claim_options True 3600)) (provisioning_plan claim_spec)
      (cli_world (idle_cli claim_daemon)) = Some ([claim_key], d)"
    by (simp only: claim_request(6) idle_cli_def cli.simps)
  have ready: "ga_approve (claim_options True 3600)" "''secret'' \<noteq> []" by (simp_all add: claim_request(2))
  obtain c where c: "grant sample_texts (\<lambda>_. DiskOk) claim_mint ''secret'' 0 (claim_options True 3600) (idle_cli claim_daemon) =
      finish_grant sample_texts (\<lambda>_. DiskOk) 0 claim_spec (claim_options True 3600) [(''NETWORK'', ''flare'')] 0
        (map2 bundle_of (provisioning_plan claim_spec) [claim_key]) c"
    using grant_all_minted [OF claim_request(1) ready(1) claim_request(3,4) claim_spec_parsed ready(2) claim_request(7,8) all]
    by metis
  have "cs_consumer claim_spec = ''clif''" "cs_network claim_spec = ''flare''" by (simp_all add: claim_spec_def)
  with claim_composed show ?thesis
    unfolding c by (auto simp: finish_grant_def claim_request emit_stage_def claim_plan thenM_def bindM_run write_bundle_def)
qed


lemma granted_keys_authenticate_witness:
  "\<exists>c x. grant sample_texts (\<lambda>_. DiskOk) claim_mint ''secret'' 0 (claim_options True 3600) (idle_cli claim_daemon) = (Inr (), c) \<and>
    x \<in> set (db_callers (md_db (cli_world c))) \<and> c_revoked_at x = None"
proof -
  obtain c where c: "grant sample_texts (\<lambda>_. DiskOk) claim_mint ''secret'' 0 (claim_options True 3600) (idle_cli claim_daemon) = (Inr (), c)"
    using claim_granted by blast
  obtain spec t keys where k: "parse_spec t = Inr spec" "length keys = length (provisioning_plan spec)"
    "\<forall>(g, k) \<in> set (zip (provisioning_plan spec) keys). \<exists>x. resolve_caller (\<lambda>h k. Some (h = claim_argon2 k)) k
       (db_callers (md_db (cli_world c))) = (Inr (Some x), db_callers (md_db (cli_world c)))"
    using granted_keys_authenticate [where verifies = "\<lambda>h k. Some (h = claim_argon2 k)", OF c [unfolded claim_mint_def]
      claim_request(1)]
    by (fastforce simp: claim_request(2) idle_cli_def claim_daemon_def empty_db_def callers_wf_def)
  have "cs_capabilities spec \<noteq> []" using plan_sound [OF k(1)] by (auto simp: provisioning_plan_def)
  then obtain g gs k0 ks where "provisioning_plan spec = g # gs" "keys = k0 # ks"
    using k(2) by (cases "provisioning_plan spec"; cases keys) (auto simp: provisioning_plan_def)
  with k(3) obtain x where "resolve_caller (\<lambda>h k. Some (h = claim_argon2 k)) k0
       (db_callers (md_db (cli_world c))) = (Inr (Some x), db_callers (md_db (cli_world c)))" by auto
  from resolve_caller_Some [OF this] c show ?thesis by blast
qed

end
