(* ===== verification/Policy_Cli.thy ===== *)
theory Policy_Cli
  imports Cli_Process Startup Policy_Generated Sign_Properties
begin

section \<open>The policy commands\<close>

text \<open>
  \<open>cli/policy.py\<close>: \<open>clifwd policy validate\<close>, the check of a policy file before a deployment, and \<open>clifwd policy init\<close>,
  the generator, from the option values to the exit code.  The world is the database, the files are texts.  The
  texts of exceptions, the YAML library and pydantic are parameters, as at the start of the daemon.
\<close>

subsection \<open>Validating\<close>

record policy_env =
  pe_start :: start_env
  pe_networks :: "string option"
  pe_parse_networks :: "string \<Rightarrow> (string \<times> net_spec) list option"
  pe_dump :: "json \<Rightarrow> string"
  pe_init_text :: "init_error \<Rightarrow> string"
  pe_exn_text :: "exn \<Rightarrow> string"
  pe_writable :: "string \<Rightarrow> bool"

type_synonym 'a policy_command = "((db, string) cli, 'a) op"

text \<open>The daemon's view of the policy file at a path.\<close>

definition at_path :: "policy_env \<Rightarrow> string \<Rightarrow> (db, string) cli \<Rightarrow> start_env" where
  "at_path env path c = (pe_start env)\<lparr>st_policy_path := path, st_policy_text := map_of (cli_files c) path\<rparr>"

definition policy_path_of :: "policy_env \<Rightarrow> string option \<Rightarrow> string" where
  "policy_path_of env policy =
     (case policy of Some p \<Rightarrow> if p = [] then st_policy_path (pe_start env) else p | None \<Rightarrow> st_policy_path (pe_start env))"

definition policy_summary :: "policy \<Rightarrow> (string \<times> json) list" where
  "policy_summary p =
     [(''schema_ok'', JBool True), (''version'', JInt (p_version p)), (''callers'', JInt (int (length (p_callers p)))),
      (''permissions'', JInt (int (length (p_permissions p)))),
      (''wallet_constraints'', JInt (int (length (p_wallet_constraints p)))),
      (''fsp_permissions'', JInt (int (length (p_fsp_permissions p))))]"

definition schema_line :: "policy \<Rightarrow> string" where
  "schema_line p = ''schema OK '' @ em_dash @ '' version='' @ str_int (p_version p) @ '' callers='' @
     str_nat (length (p_callers p)) @ '' permissions='' @ str_nat (length (p_permissions p)) @ '' wallet_constraints='' @
     str_nat (length (p_wallet_constraints p)) @ '' fsp_permissions='' @ str_nat (length (p_fsp_permissions p))"

definition echo_json :: "(string \<times> json) list \<Rightarrow> unit policy_command" where
  "echo_json kv = echo (json_dumps (JObj kv))"

text \<open>\<open>except Exception\<close>: everything but \<open>SystemExit\<close> becomes a value.\<close>

definition attempt :: "('s, 'a) op \<Rightarrow> ('s, exn + 'a) op" where
  "attempt m = catchM (bindM m (\<lambda>x. ret (Inr x))) (\<lambda>e. case e of SystemExit n \<Rightarrow> raise (SystemExit n) | _ \<Rightarrow> ret (Inl e))"

definition report_consistency ::
  "policy_env \<Rightarrow> bool \<Rightarrow> (string \<times> json) list \<Rightarrow> exn + string list \<Rightarrow> unit policy_command" where
  "report_consistency env json_out summary result =
     (case result of
        Inl e \<Rightarrow> thenM
          (if json_out then echo_json (summary @ [(''consistency_checked'', JBool False),
             (''error'', JStr (''could not run consistency check: '' @ pe_exn_text env e)), (''valid'', JBool False)])
           else echo_err (''could not run consistency check ('' @ pe_exn_text env e @
             ''); use --schema-only on a host without a daemon/DB yet''))
          (raise (SystemExit 2))
      | Inr errors \<Rightarrow>
          if errors \<noteq> [] then thenM
            (if json_out then echo_json (summary @ [(''consistency_checked'', JBool True),
               (''consistency_errors'', JList (map JStr errors)), (''valid'', JBool False)])
             else thenM (echo_errs (map (\<lambda>e. ''  - '' @ e) errors))
               (echo_err (''INVALID '' @ em_dash @ '' '' @ str_nat (length errors) @ '' consistency error(s)'')))
            (raise (SystemExit 2))
          else if json_out then echo_json (summary @ [(''consistency_checked'', JBool True),
            (''consistency_errors'', JList []), (''valid'', JBool True)])
          else echo ''VALID (schema + consistency)'')"

definition validate :: "policy_env \<Rightarrow> string option \<Rightarrow> bool \<Rightarrow> bool \<Rightarrow> unit policy_command" where
  "validate env policy schema_only json_out =
     bindM (getM (at_path env (policy_path_of env policy))) (\<lambda>start.
     case start_policy start of
       Inl (PolicyLoadError why) \<Rightarrow> thenM
         (if json_out then echo_json [(''schema_ok'', JBool False), (''error'', JStr why), (''valid'', JBool False)]
          else echo_err (''INVALID (schema): '' @ why))
         (raise (SystemExit 2))
     | Inr pol \<Rightarrow>
         thenM (if json_out then ret () else echo (schema_line pol))
           (if schema_only then thenM
              (if json_out then echo_json (policy_summary pol @ [(''consistency_checked'', JBool False), (''valid'', JBool True)])
               else echo ''VALID (schema-only)'')
              (raise (SystemExit 0))
            else bindM (attempt (on_world (consistency_errors start pol)))
              (report_consistency env json_out (policy_summary pol))))"

subsection \<open>Generating\<close>

text \<open>\<open>PolicyInitError\<close> among what \<open>generate_policy\<close> raises.\<close>

definition is_init_error :: "init_error \<Rightarrow> bool" where
  "is_init_error e = (case e of MissingKey _ \<Rightarrow> False | RegistryFailed _ \<Rightarrow> False | _ \<Rightarrow> True)"

record init_options =
  io_networks :: string
  io_capabilities :: string
  io_recipient :: "string option"
  io_identity :: "string option"
  io_sender :: string
  io_out :: "string option"
  io_merge :: bool

definition init_request :: "init_options \<Rightarrow> init_args" where
  "init_request o1 = \<lparr>ia_networks = split_at (CHR '','') (io_networks o1),
     ia_capabilities = split_at (CHR '','') (io_capabilities o1), ia_recipient = io_recipient o1,
     ia_identity = io_identity o1, ia_sender_mode = io_sender o1, ia_claim_rate = (4, 8), ia_fsp_rate = (5000, 120000)\<rparr>"

definition yaml_loaded :: "policy_env \<Rightarrow> string \<Rightarrow> json option" where
  "yaml_loaded env text = (case st_yaml (pe_start env) text of Inl _ \<Rightarrow> None | Inr j \<Rightarrow> Some j)"

definition policy_text :: "policy_env \<Rightarrow> init_options \<Rightarrow> string option \<Rightarrow> init_error + string" where
  "policy_text env o1 merge_into = generate_policy (init_request o1)
     (load_networks (pe_networks env) (pe_parse_networks env)) (start_registry (pe_start env)) (yaml_loaded env)
     (pe_dump env) merge_into"

definition init_command :: "policy_env \<Rightarrow> init_options \<Rightarrow> unit policy_command" where
  "init_command env o1 =
     bindM (getM (\<lambda>c. if io_merge o1 then map_of (cli_files c) (st_policy_path (pe_start env)) else None)) (\<lambda>merge_into.
     case policy_text env o1 merge_into of
       Inl e \<Rightarrow> if is_init_error e then fail_with (''policy init failed: '' @ pe_init_text env e) 2 else raise OtherError
     | Inr text \<Rightarrow>
         (case io_out o1 of
            None \<Rightarrow> echo text
          | Some out \<Rightarrow>
              if out = [] then echo text
              else if \<not> pe_writable env out then raise OtherError
              else thenM (write_file out text) (echo_err (''wrote '' @ out))))"

subsection \<open>What a validation says\<close>

lemma attempt_run: "attempt m s = (case m s of (Inl (SystemExit n), t) \<Rightarrow> (Inl (SystemExit n), t) | (r, t) \<Rightarrow> (Inr r, t))"
  by (auto simp: attempt_def catchM_def bindM_run split: sum.splits exn.splits prod.splits)

lemma consistency_errors_run:
  "consistency_errors start pol d =
    (case start_registry start of
       Inl e \<Rightarrow> (Inl OtherError, d)
     | Inr registry \<Rightarrow> (Inr (check_consistency pol (live_callers d) (live_wallets d) registry), d))"
  by (cases "start_registry start") (simp_all add: consistency_errors_def session_scope_def live_errors_run)

lemma report_consistency_run:
  assumes "report_consistency env js summary result c = (r, c')"
  shows "r = (if result = Inr [] then Inr () else Inl (SystemExit 2)) \<and> cli_world c' = cli_world c \<and> cli_files c' = cli_files c"
proof (cases result)
  case (Inl e)
  with assms show ?thesis by (cases js) (auto simp: report_consistency_def echo_json_def)
next
  case (Inr errors)
  with assms show ?thesis by (cases js; cases errors) (auto simp: report_consistency_def echo_json_def)
qed

text \<open>What \<open>validate\<close> checks, as the start of the daemon sees it.\<close>

definition deployable :: "start_env \<Rightarrow> db \<Rightarrow> bool" where
  "deployable start d \<longleftrightarrow>
     (case (start_policy start, start_registry start) of
        (Inr pol, Inr registry) \<Rightarrow> check_consistency pol (live_callers d) (live_wallets d) registry = []
      | _ \<Rightarrow> False)"

lemma validate_run:
  assumes "validate env policy False js c = (r, c')"
  shows "r = (if deployable (at_path env (policy_path_of env policy) c) (cli_world c) then Inr () else Inl (SystemExit 2)) \<and>
    cli_world c' = cli_world c \<and> cli_files c' = cli_files c"
proof -
  let ?start = "at_path env (policy_path_of env policy) c"
  show ?thesis
  proof (cases "start_policy ?start")
    case (Inl e)
    with assms show ?thesis
      by (cases e; cases js) (auto simp: validate_def bindM_run deployable_def echo_json_def)
  next
    case (Inr pol)
    let ?errs = "check_consistency pol (live_callers (cli_world c)) (live_wallets (cli_world c))"
    let ?result = "case start_registry ?start of Inl e \<Rightarrow> Inl OtherError | Inr registry \<Rightarrow> Inr (?errs registry)"
    obtain out where "report_consistency env js (policy_summary pol) ?result (c\<lparr>cli_out := out\<rparr>) = (r, c')"
    proof
      show "report_consistency env js (policy_summary pol) ?result
          (c\<lparr>cli_out := if js then cli_out c else cli_out c @ [schema_line pol]\<rparr>) = (r, c')"
        using assms Inr
        by (auto simp: validate_def bindM_run thenM_def attempt_run on_world_def consistency_errors_run split: sum.splits if_splits)
    qed
    from report_consistency_run [OF this] Inr show ?thesis by (auto simp: deployable_def split: sum.splits)
  qed
qed

lemma deployable_starts: "deployable start d \<longleftrightarrow> (\<exists>x. fst (startup_policy_load start ck d) = Inr x)"
  by (auto simp: deployable_def startup_policy_load_def thenM_def bindM_run start_session_run split: sum.splits load_failure.splits)

text \<open>C16: validation predicts the deployment: \<open>clifwd policy validate\<close> exits 0 if and only if the daemon, started with the
  file on the same database and ABIs, serves; otherwise it exits 2.  It changes neither the database nor a file,
  while a start writes its audit row and prunes.\<close>

theorem validate_predicts_start:
  assumes "validate env policy False js c = (r, c')"
  shows "cli_world c' = cli_world c \<and> cli_files c' = cli_files c \<and> exit_code r \<in> {0, 2} \<and>
    (exit_code r = 0 \<longleftrightarrow>
      (\<exists>x. fst (startup_policy_load (at_path env (policy_path_of env policy) c) ck (cli_world c)) = Inr x))"
  using validate_run [OF assms] unfolding deployable_starts [symmetric] by (simp add: exit_code_def)

subsection \<open>What a generation leaves\<close>

text \<open>Generation is contained: \<open>clifwd policy init\<close> never touches the database; it writes no file but the one that
  \<open>--out\<close> names, and with a refused request it writes nothing and prints nothing to stdout; without \<open>--out\<close> it
  writes no file at all.\<close>

theorem init_contained:
  "case init_command env o1 c of (r, c') \<Rightarrow>
     cli_world c' = cli_world c \<and>
     (\<forall>p. Some p \<noteq> io_out o1 \<longrightarrow> map_of (cli_files c') p = map_of (cli_files c) p) \<and>
     (r \<noteq> Inr () \<longrightarrow> cli_files c' = cli_files c \<and> cli_out c' = cli_out c) \<and>
     (exit_code r = 2 \<longleftrightarrow> (\<exists>e. is_init_error e \<and> policy_text env o1
        (if io_merge o1 then map_of (cli_files c) (st_policy_path (pe_start env)) else None) = Inl e))"
proof (cases "policy_text env o1 (if io_merge o1 then map_of (cli_files c) (st_policy_path (pe_start env)) else None)")
  case (Inl e)
  then show ?thesis by (auto simp: init_command_def bindM_run exit_code_def)
next
  case (Inr yaml)
  then show ?thesis
    by (auto simp: init_command_def bindM_run exit_code_def thenM_def update_conv split: option.splits)
qed

subsection \<open>From generation to deployment\<close>

lemma generated_text:
  assumes "policy_text env o1 None = Inr yaml" "start_registry (pe_start env) = Inr reg"
  obtains p where "generated (init_request o1) (load_networks (pe_networks env) (pe_parse_networks env)) (Inr reg) = Inr p"
    "yaml = init_header @ pe_dump env (JObj (policy_dict p))"
  using assms unfolding policy_text_def generate_policy_def
  by (cases "generated (init_request o1) (load_networks (pe_networks env) (pe_parse_networks env)) (Inr reg)") auto


text \<open>The request for the claim capability on one network, with its ABI file.\<close>

definition claim_abi :: json where
  "claim_abi = JList [JObj [(''inputs'', JList [JObj [(''type'', JStr ''address'')]]), (''name'', JStr ''claim''),
     (''stateMutability'', JStr ''nonpayable''), (''type'', JStr ''function'')]]"

definition claim_policy_env :: policy_env where
  "claim_policy_env = \<lparr>pe_start = \<lparr>st_policy_path = ''policy.yaml'', st_policy_text = None,
       st_yaml = (\<lambda>t. if t = init_header @ canonical_json (JObj (policy_dict claim_policy))
         then Inr (JObj (policy_dict claim_policy)) else Inl []),
       st_validate = (\<lambda>j. if j = JObj (policy_dict claim_policy) then Inr claim_policy else Inl []),
       st_abi_yaml = (\<lambda>t. Some (JObj [(''version'', JInt 1), (''abis'', JObj [(''reward_manager'', JStr ''r.json'')])])),
       st_abi_files = (\<lambda>f. if f = ''registry.yaml'' then Some [] else if f = ''r.json'' then Some (canonical_json claim_abi) else None),
       st_float_one = (\<lambda>_. False), st_selector4 = (\<lambda>_. Some [1, 2, 3, 4]), st_version = []\<rparr>,
     pe_networks = Some [], pe_parse_networks = (\<lambda>_. Some claim_networks), pe_dump = canonical_json,
     pe_init_text = (\<lambda>_. []), pe_exn_text = (\<lambda>_. []), pe_writable = (\<lambda>_. True)\<rparr>"

definition claim_init :: init_options where
  "claim_init = \<lparr>io_networks = '' flare'', io_capabilities = ''Claim'', io_recipient = Some ''0xabc'', io_identity = None,
     io_sender = ''per-network'', io_out = Some ''policy.yaml'', io_merge = False\<rparr>"

lemma claim_init_request: "init_request claim_init = claim_args"
  by (simp add: init_request_def claim_init_def claim_args_def)

lemma claim_abi_read: "json_loads (canonical_json claim_abi) = Some claim_abi"
  by code_simp

lemma claim_registry_loaded: "start_registry (pe_start claim_policy_env) = Inr claim_registry"
proof -
  have files: "st_abi_files (pe_start claim_policy_env) ''registry.yaml'' = Some []"
    "st_abi_files (pe_start claim_policy_env) ''r.json'' = Some (canonical_json claim_abi)"
    by (simp_all add: claim_policy_env_def)
  have "abi_array claim_abi = Some [JObj [(''inputs'', JList [JObj [(''type'', JStr ''address'')]]), (''name'', JStr ''claim''),
     (''stateMutability'', JStr ''nonpayable''), (''type'', JStr ''function'')]]"
    by (simp add: abi_array_def claim_abi_def json_get_def)
  then have "load_abi_file (st_abi_files (pe_start claim_policy_env)) ''reward_manager'' (JStr ''r.json'') =
      Inr [abi_entry (JObj [(''inputs'', JList [JObj [(''type'', JStr ''address'')]]), (''name'', JStr ''claim''),
     (''stateMutability'', JStr ''nonpayable''), (''type'', JStr ''function'')])]"
    by (simp add: load_abi_file_def files claim_abi_read traverses_def starts_with_def)
  moreover have "abi_entry (JObj [(''inputs'', JList [JObj [(''type'', JStr ''address'')]]), (''name'', JStr ''claim''),
     (''stateMutability'', JStr ''nonpayable''), (''type'', JStr ''function'')]) =
     Some \<lparr>fn_type = Some ''function'', fn_mutability = Some ''nonpayable'',
       fn_name = Some ''claim'', fn_inputs = [AbiInput None (Some ''address'') None]\<rparr>"
    by (simp add: abi_entry_def json_str_def json_get_def inputs_of_def abi_input_of.simps)
  moreover have "index_entries (\<lambda>_. Some [1, 2, 3, 4]) [Some \<lparr>fn_type = Some ''function'', fn_mutability = Some ''nonpayable'',
       fn_name = Some ''claim'', fn_inputs = [AbiInput None (Some ''address'') None]\<rparr>] [] = Inr (snd (hd claim_registry))"
    by code_simp
  ultimately show ?thesis
    using files(1)
    by (simp add: start_registry_def abi_registry_load_def claim_policy_env_def version_one_def claim_registry_def)
qed

definition claim_world :: "(db, string) cli" where
  "claim_world = \<lparr>cli_out = [], cli_err = [], cli_world = sample_db\<lparr>db_callers := []\<rparr>, cli_files = []\<rparr>"

lemma claim_files:
  "load_networks (pe_networks claim_policy_env) (pe_parse_networks claim_policy_env) = Inr claim_networks"
  by (simp add: load_networks_def claim_policy_env_def)


lemma validate_predicts_start_witness:
  "exit_code (fst (validate claim_policy_env None False True claim_world)) = 0 \<longleftrightarrow>
    (\<exists>x. fst (startup_policy_load (at_path claim_policy_env ''policy.yaml'' claim_world) sample_clock (cli_world claim_world)) = Inr x)"
  using validate_predicts_start [OF prod.collapse [symmetric], of claim_policy_env None True claim_world sample_clock]
  by (simp add: policy_path_of_def claim_policy_env_def)

end
