(* ===== verification/Local_Cli.thy ===== *)
theory Local_Cli
  imports Bundle_Cli Lifetime
begin

section \<open>The commands that work on the host\<close>

text \<open>
  The commands of \<open>clifwd\<close> that open the database in their own process or need no daemon: \<open>cli/audit.py\<close> over
  \<open>app/audit_walk.py\<close>, the exit codes of \<open>wallets import\<close> (\<open>cli/wallets.py\<close>), \<open>cli/fsp.py\<close>, \<open>cli/master.py\<close> and
  \<open>version\<close> of \<open>cli/main.py\<close>.  The world is the database.  \<open>str(exc)\<close> and Python's \<open>repr\<close> are parameters; a
  float in an audit row is shown as it is written there.
\<close>

subsection \<open>The audit log\<close>

definition single_quoted :: "string \<Rightarrow> string" where
  "single_quoted s = CHR 0x27 # s @ [CHR 0x27]"

definition opt_int_text :: "int option \<Rightarrow> string" where
  "opt_int_text v = (case v of None \<Rightarrow> ''None'' | Some i \<Rightarrow> str_int i)"

text \<open>The \<open>detail\<close> of a verification, with the \<open>repr\<close> of the hashes.\<close>

definition detail_text :: "verify_detail \<Rightarrow> string" where
  "detail_text d =
     (case d of
        EmptyChain \<Rightarrow> ''empty chain''
      | MissingAnchor a f \<Rightarrow> ''missing anchor row at seq='' @ str_int a @
          ''; cannot verify window starting at seq='' @ str_int f
      | LinkageMismatch i e g \<Rightarrow> ''seq='' @ str_int i @ '': linkage mismatch: expected prev_hash='' @ single_quoted e @
          '', got prev_hash='' @ single_quoted g
      | RecomputeMismatch i h r \<Rightarrow> ''seq='' @ str_int i @ '': recompute mismatch: stored row_hash='' @ single_quoted h @
          '', recomputed='' @ single_quoted r
      | UpstreamBreak i f \<Rightarrow> ''upstream break at seq='' @ str_int i @ '': anchor row_hash does not match seq='' @ str_int f @
          '' prev_hash; chain was tampered upstream of the requested window''
      | ChainIntact n \<Rightarrow> ''chain intact: '' @ str_int n @ '' rows'')"

text \<open>A read in a session of its own.\<close>

definition in_session :: "(audit_db, 'a) op \<Rightarrow> ((db, 'f) cli, 'a) op" where
  "in_session m = on_world (session_scope False (on_audit m))"

definition audit_verify :: "int option \<Rightarrow> int option \<Rightarrow> ((db, 'f) cli, unit) op" where
  "audit_verify from_seq to_seq =
     bindM (in_session (getM (verify from_seq to_seq))) (\<lambda>result.
     if vr_ok result then thenM (echo (detail_text (vr_detail result))) (raise (SystemExit 0))
     else fail_with (''CHAIN BROKEN at seq='' @ opt_int_text (vr_first_break_seq result) @ '': '' @
       detail_text (vr_detail result)) 2)"

definition or_dash :: "string option \<Rightarrow> string" where
  "or_dash v = (case v of None \<Rightarrow> ''-'' | Some s \<Rightarrow> if s = [] then ''-'' else s)"

definition padded :: "nat \<Rightarrow> string \<Rightarrow> string" where
  "padded n s = s @ replicate (n - length (code_points s)) (CHR '' '')"

definition json_field :: "string \<Rightarrow> string option \<Rightarrow> string" where
  "json_field name raw =
     (case raw of
        None \<Rightarrow> padded 16 name @ '' -''
      | Some r \<Rightarrow>
          (case json_loads r of
             Some parsed \<Rightarrow> name @ '':'' @ [CHR 0x0A] @ json_indented 0 parsed
           | None \<Rightarrow> name @ '': '' @ r))"

definition audit_lines :: "audit_row \<Rightarrow> string list" where
  "audit_lines r =
     [''seq:             '' @ str_int (ar_seq r), ''ts:              '' @ isoformat (ar_ts r),
      ''caller:          '' @ or_dash (ar_caller r), ''action:          '' @ ar_action r,
      ''decision:        '' @ ar_decision r, ''decision_reason: '' @ or_dash (ar_decision_reason r),
      json_field ''request_json'' (ar_request_json r), json_field ''outcome'' (ar_outcome r),
      ''prev_hash:       '' @ ar_prev_hash r, ''row_hash:        '' @ ar_row_hash r]"

definition audit_show :: "int \<Rightarrow> ((db, 'f) cli, unit) op" where
  "audit_show seq =
     bindM (in_session (audit_get seq)) (\<lambda>row.
     case row of
       None \<Rightarrow> fail_with (''no audit row at seq='' @ str_int seq) 1
     | Some r \<Rightarrow> thenM (echo_all (audit_lines r)) (raise (SystemExit 0)))"

text \<open>A negative \<open>LIMIT\<close> is none.\<close>

definition tail_limit :: "int \<Rightarrow> (audit_db, audit_row list) op" where
  "tail_limit n = (if n < 0 then getM rows_asc else audit_tail (nat n))"

definition tail_line :: "audit_row \<Rightarrow> string" where
  "tail_line r = joined [tab] [str_int (ar_seq r), isoformat (ar_ts r), ar_action r, ar_decision r, or_dash (ar_caller r)]"

definition audit_tail_command :: "int \<Rightarrow> ((db, 'f) cli, unit) op" where
  "audit_tail_command n =
     bindM (in_session (tail_limit n)) (\<lambda>rows. thenM (echo_all (map tail_line rows)) (raise (SystemExit 0)))"

subsection \<open>Importing a wallet\<close>

text \<open>The handlers of \<open>_run_import\<close>.\<close>

definition import_failure :: "(exn \<Rightarrow> string) \<Rightarrow> exn \<Rightarrow> ((db, 'f) cli, 'a) op" where
  "import_failure report e =
     (case e of
        PrivkeyFileNotFound p \<Rightarrow> fail_with (''privkey-file not found: '' @ report e) 2
      | PrivkeyFileBadMode m \<Rightarrow> fail_with (report e) 2
      | PrivkeyFileBadOwner f u \<Rightarrow> fail_with (report e) 2
      | PrivkeyFileBadContent n \<Rightarrow> fail_with (report e) 2
      | WalletNameTakenImport n \<Rightarrow> fail_with (''wallet '' @ single_quoted (report e) @ '' already exists'') 3
      | WalletAddressMismatch x d \<Rightarrow> fail_with (report e) 2
      | ShredSourceFailed p \<Rightarrow> thenM (echo_err (''warning: shred failed: '' @ report e))
          (fail_with ''  wallet was imported successfully; manually shred the source.'' 6)
      | _ \<Rightarrow> raise e)"

definition import_command ::
  "(exn \<Rightarrow> string) \<Rightarrow> provision_lib \<Rightarrow> int \<Rightarrow> bool \<Rightarrow> bool \<Rightarrow> clock \<Rightarrow> import_request \<Rightarrow> privkey_file option \<Rightarrow>
   ((db, 'f) cli, unit) op" where
  "import_command report lib uid shredded vault ck r file =
     bindM (catchM (on_world (wallets_import lib uid shredded vault ck r file)) (import_failure report)) (\<lambda>w.
     echo (''imported: '' @ w_name w @ '' @ '' @ w_address w))"

subsection \<open>The policy stanza, the master key, the version\<close>

definition list_repr :: "(string \<Rightarrow> string) \<Rightarrow> string list \<Rightarrow> string" where
  "list_repr repr xs = CHR ''['' # join_commas (map repr xs) @ '']''"

definition fsp_scope :: "(string \<Rightarrow> string) \<Rightarrow> string \<Rightarrow> string \<Rightarrow> string \<Rightarrow> string \<Rightarrow> (('d, 'f) cli, unit) op" where
  "fsp_scope repr caller wallet policy_path mtypes =
     echo_all
       [''# --- merge into policy.yaml (private config) ---'', ''callers:'', ''  '' @ caller @ '':'',
        ''    policy_path: '' @ policy_path, ''fsp_permissions:'', ''  '' @ policy_path @ '':'',
        ''    message_types: '' @ list_repr repr
          (map py_strip (filter (\<lambda>m. py_strip m \<noteq> []) (split_at (CHR '','') mtypes))),
        ''    wallet_allowlist: ['' @ wallet @ '']'', ''    rate:'', ''      per_hour: 50'', ''      per_day: 500'']"

text \<open>\<open>creatable\<close> is whether \<open>os.open\<close> with \<open>O_EXCL\<close> succeeds on a path where nothing was found.\<close>

definition master_generate :: "(string \<Rightarrow> bool) \<Rightarrow> 'k \<Rightarrow> string \<Rightarrow> (('d, 'k) cli, unit) op" where
  "master_generate creatable key out =
     bindM (getM (\<lambda>c. map_of (cli_files c) out)) (\<lambda>existing.
     if existing \<noteq> None then fail_with (''refusing to overwrite existing file: '' @ out) 2
     else if \<not> creatable out then raise OtherError
     else thenM (write_file out key) (echo (''wrote 32-byte master key to '' @ out @ '' (mode 0600)'')))"

definition version_command :: "string \<Rightarrow> (('d, 'f) cli, unit) op" where
  "version_command version = echo version"

subsection \<open>Running\<close>

lemma in_session_read:
  assumes "m (db_audit (cli_world c)) = (Inr x, db_audit (cli_world c))"
  shows "in_session m c = (Inr x, c)"
  using assms by (simp add: in_session_def on_world_def session_scope_def on_run put_audit_def)

lemma in_session_verify: "in_session (getM (verify f t)) c = (Inr (verify f t (db_audit (cli_world c))), c)"
  by (rule in_session_read) simp

text \<open>On every database the daemon can reach, \<open>clifwd audit verify\<close> exits 0; on any database it exits 0 exactly when
  the full chain verifies, and 2 otherwise, changing nothing.\<close>

theorem audit_verify_exact:
  "exit_code (fst (audit_verify None None c)) =
     (if audit_chain genesis_prev_hash (rows_asc (db_audit (cli_world c))) then 0 else 2) \<and>
   cli_world (snd (audit_verify None None c)) = cli_world c \<and>
   (reachable forced (cli_world c) \<longrightarrow> exit_code (fst (audit_verify None None c)) = 0)"
proof -
  let ?ok = "vr_ok (verify None None (db_audit (cli_world c)))"
  have run: "exit_code (fst (audit_verify None None c)) = (if ?ok then 0 else 2) \<and>
      cli_world (snd (audit_verify None None c)) = cli_world c"
    by (simp add: audit_verify_def bindM_run in_session_verify exit_code_def)
  have "?ok" if "reachable forced (cli_world c)"
  proof -
    have "db_wf (cli_world c)"
      using that wf_repositories.runs_obey [of forced empty_db "cli_world c"] empty_db_wf by (simp add: reachable_def keeps_wf_def)
    then show ?thesis by (simp add: db_wf_def audit_intact_verify)
  qed
  with run show ?thesis unfolding verify_full_chain by simp
qed

subsection \<open>What the exit code of an import says\<close>

lemma import_refuse_raises: "import_refuse ck r cause e s = (Inl e', s') \<Longrightarrow> e' = e"
  unfolding import_refuse_def using json_refuse_cases [OF account_words(4)] by blast

lemma import_checks_not_shred:
  assumes "import_checks uid ck r kf s = (Inl (ShredSourceFailed p), s')"
  shows False
  using assms by (auto simp: import_checks_def Let_def dest!: import_refuse_raises split: option.splits if_splits)

lemma import_stage_shred:
  assumes "import_stage lib ck r key (open_session d) = (Inl (ShredSourceFailed p), s)"
  shows "durable s = d"
proof -
  obtain q t where m: "signer_import_wallet lib ck (ir_name r) key (ir_policy_path r) (ir_expected_address r) (open_session d) = (q, t)"
    by fastforce
  then show ?thesis
  proof (cases rule: signer_import_wallet_cases)
    case (failed e)
    with assms m show ?thesis
      by (auto simp: import_stage_def catchM_def dest!: import_refuse_raises split: exn.splits)
  next
    case (stored a ct)
    with assms m show ?thesis by (simp add: import_stage_def catchM_def)
  qed
qed

lemma shred_unsaved:
  assumes "wallets_import lib uid shredded True ck r kf d = (Inl (ShredSourceFailed p), d')"
  shows "d' = d"
proof -
  obtain s where run: "import_wallet lib uid shredded ck r kf (open_session d) = (Inl (ShredSourceFailed p), s)" "d' = durable s"
    using assms by (auto simp: wallets_import_def sealed_scope_def session_scope_def split: prod.splits sum.splits)
  obtain q t where c: "import_checks uid ck r kf (open_session d) = (q, t)" by fastforce
  show ?thesis
  proof (cases q)
    case (Inl e)
    with run c have "import_checks uid ck r kf (open_session d) = (Inl (ShredSourceFailed p), t)"
      by (auto simp: import_wallet_def bindM_run)
    then show ?thesis by (rule import_checks_not_shred [THEN FalseE])
  next
    case (Inr key)
    with c have t: "t = open_session d"
      by (cases rule: import_checks_cases [where uid = uid and kf = kf and ck = ck and r = r and d = d]) auto
    obtain w u where st: "import_stage lib ck r key (open_session d) = (w, u)" by fastforce
    show ?thesis
    proof (cases w)
      case (Inl e)
      with run c Inr t st import_stage_shred show ?thesis by (auto simp: import_wallet_def bindM_run)
    next
      case w: (Inr w)
      have "durable u = d"
      proof -
        have "signer_import_wallet lib ck (ir_name r) key (ir_policy_path r) (ir_expected_address r) (open_session d) = (Inr w, u)"
          using st w by (auto simp: import_stage_def catchM_def import_refuse_def json_refuse_not_Inr split: sum.splits prod.splits exn.splits)
        then show ?thesis by (cases rule: signer_import_wallet_cases) (simp_all add: put_wallets_def)
      qed
      moreover have "s = u"
      proof (cases "ir_shred_source r \<and> \<not> shredded")
        case True
        with run(1) c Inr t st w show ?thesis by (auto simp: import_wallet_def bindM_run)
      next
        case False
        with run(1) c Inr t st w audited_step [OF account_words(4) decision_words(1), of ck None "import_fields r" None
            "Some [(''address'', JStr (w_address w))]" w u]
        show ?thesis by (auto simp: import_wallet_def bindM_run)
      qed
      ultimately show ?thesis using run(2) by auto
    qed
  qed
qed

definition imported_message :: string where
  "imported_message = ''  wallet was imported successfully; manually shred the source.''"

lemma import_failure_run:
  "\<exists>res msgs. import_failure report e c = (Inl res :: exn + wallet, c\<lparr>cli_err := cli_err c @ msgs\<rparr>) \<and>
    (length msgs = 2 \<longrightarrow> (\<exists>p. e = ShredSourceFailed p)) \<and>
    (\<forall>p. e = ShredSourceFailed p \<longrightarrow> res = SystemExit 6 \<and> (\<exists>m. msgs = [m, imported_message]))"
  by (cases e) (force simp: import_failure_def thenM_def bindM_run imported_message_def intro: exI [of _ "[]"])+

lemma import_command_cases:
  assumes "import_command report lib uid shredded vault ck r kf c = (res, c')"
  obtains (imported) w d' where "wallets_import lib uid shredded vault ck r kf (cli_world c) = (Inr w, d')" "res = Inr ()"
      "c' = c\<lparr>cli_world := d', cli_out := cli_out c @ [''imported: '' @ w_name w @ '' @ '' @ w_address w]\<rparr>"
  | (failed) e d' x msgs where "wallets_import lib uid shredded vault ck r kf (cli_world c) = (Inl e, d')"
      "res = Inl x" "c' = c\<lparr>cli_world := d', cli_err := cli_err c @ msgs\<rparr>"
      "length msgs = 2 \<longrightarrow> (\<exists>p. e = ShredSourceFailed p)"
      "\<And>p. e = ShredSourceFailed p \<Longrightarrow> x = SystemExit 6 \<and> (\<exists>m. msgs = [m, imported_message])"
proof -
  obtain q d' where w: "wallets_import lib uid shredded vault ck r kf (cli_world c) = (q, d')" by fastforce
  show thesis
  proof (cases q)
    case (Inr w')
    with w assms show thesis
      by (intro imported [of w' d']) (simp_all add: import_command_def bindM_run catchM_def on_world_def)
  next
    case (Inl e)
    obtain x msgs where f: "import_failure report e (c\<lparr>cli_world := d'\<rparr>) =
        (Inl x :: exn + wallet, (c\<lparr>cli_world := d'\<rparr>)\<lparr>cli_err := cli_err (c\<lparr>cli_world := d'\<rparr>) @ msgs\<rparr>)"
      "length msgs = 2 \<longrightarrow> (\<exists>p. e = ShredSourceFailed p)"
      "\<forall>p. e = ShredSourceFailed p \<longrightarrow> x = SystemExit 6 \<and> (\<exists>m. msgs = [m, imported_message])"
      using import_failure_run [of report e "c\<lparr>cli_world := d'\<rparr>"] by (elim exE conjE) (rule that)
    with w Inl assms show thesis
      by (intro failed [of e d' x msgs]) (auto simp: import_command_def bindM_run catchM_def on_world_def)
  qed
qed

text \<open>C35: the exit code of \<open>clifwd wallets import\<close> tells whether the wallet is there, its message does not: the command
  returns exactly when one row of the requested name was added, which it prints; on every other exit the wallets are
  unchanged and nothing is printed to stdout.  With exit code 6 it says that the wallet was imported, and the database
  is the one before.\<close>

theorem import_exit_truthful:
  "case import_command report lib uid shredded vault ck r kf c of (res, c') \<Rightarrow>
     (case res of
        Inr _ \<Rightarrow> \<exists>w. w_name w = ir_name r \<and> db_wallets (cli_world c') = db_wallets (cli_world c) @ [w] \<and>
          cli_out c' = cli_out c @ [''imported: '' @ w_name w @ '' @ '' @ w_address w]
      | Inl _ \<Rightarrow> db_wallets (cli_world c') = db_wallets (cli_world c) \<and> cli_out c' = cli_out c) \<and>
     (\<forall>m. cli_err c' = cli_err c @ [m, imported_message] \<longrightarrow> res = Inl (SystemExit 6) \<and> cli_world c' = cli_world c)"
proof -
  obtain res c' where run: "import_command report lib uid shredded vault ck r kf c = (res, c')" by fastforce
  then show ?thesis
  proof (cases rule: import_command_cases)
    case (imported w d')
    then have "session_scope False (import_wallet lib uid shredded ck r kf) (cli_world c) = (Inr w, d')"
      by (auto simp: wallets_import_def sealed_scope_def split: if_splits)
    then show ?thesis
    proof (cases rule: import_wallet_cases)
      case (imported key a ct)
      have "db_wallets d' = db_wallets (cli_world c) @ [w]" using audit_grownD(1) [OF imported(8)] imported(7) by simp
      moreover have "w_name w = ir_name r" using imported(7) by (simp add: new_wallet_def)
      moreover have "cli_err c' = cli_err c" using \<open>c' = _\<close> by simp
      ultimately show ?thesis unfolding run prod.case \<open>res = Inr ()\<close> sum.case using \<open>c' = _\<close> by auto
    qed simp
  next
    case (failed e d' x msgs)
    have same: "db_wallets d' = db_wallets (cli_world c)"
    proof (cases vault)
      case True
      with failed(1) have "session_scope False (import_wallet lib uid shredded ck r kf) (cli_world c) = (Inl e, d')"
        by (simp add: wallets_import_def sealed_scope_def)
      then show ?thesis by (cases rule: import_wallet_cases) (auto dest: audit_refusedD)
    qed (use failed(1) in \<open>simp add: wallets_import_def sealed_scope_def\<close>)
    have "x = SystemExit 6 \<and> d' = cli_world c" if "msgs = [m, imported_message]" for m
    proof -
      from that failed(4) obtain p where p: "e = ShredSourceFailed p" by auto
      with failed(1) have vault by (auto simp: wallets_import_def sealed_scope_def split: if_splits)
      with p failed(1) have "wallets_import lib uid shredded True ck r kf (cli_world c) = (Inl (ShredSourceFailed p), d')" by simp
      from shred_unsaved [OF this] failed(5) [OF p] show ?thesis by simp
    qed
    then have "res = Inl (SystemExit 6) \<and> cli_world c' = cli_world c" if "cli_err c' = cli_err c @ [m, imported_message]" for m
      using that failed(2,3) by simp
    moreover have "db_wallets (cli_world c') = db_wallets (cli_world c) \<and> cli_out c' = cli_out c"
      using same failed(3) by simp
    ultimately show ?thesis unfolding run prod.case failed(2) sum.case by blast
  qed
qed

subsection \<open>Samples\<close>

definition fresh_cli :: "db \<Rightarrow> (db, string) cli" where
  "fresh_cli d = \<lparr>cli_out = [], cli_err = [], cli_world = d, cli_files = []\<rparr>"

lemma audit_verify_exact_witness: "exit_code (fst (audit_verify None None (fresh_cli empty_db))) = 0"
  using audit_verify_exact [of "fresh_cli empty_db" False] by (simp add: reachable_def fresh_cli_def)

lemma import_exit_truthful_witness:
  "case import_command (\<lambda>_. []) sample_provision 1000 False True sample_clock sample_import (Some sample_key_file) (fresh_cli sample_db)
   of (res, c) \<Rightarrow> res = Inl (SystemExit 6) \<and> cli_err c = [''warning: shred failed: '', imported_message] \<and> cli_world c = sample_db"
proof -
  obtain d where d: "wallets_import sample_provision 1000 False True sample_clock sample_import (Some sample_key_file) sample_db =
      (Inl (ShredSourceFailed ''/k''), d)"
    using import_shred_failure_witness by (metis prod.collapse)
  obtain res c where run: "import_command (\<lambda>_. []) sample_provision 1000 False True sample_clock sample_import
      (Some sample_key_file) (fresh_cli sample_db) = (res, c)" by fastforce
  with d have e: "res = Inl (SystemExit 6)" "cli_err c = [''warning: shred failed: '', imported_message]"
    by (auto simp: import_command_def bindM_run catchM_def on_world_def fresh_cli_def import_failure_def thenM_def imported_message_def)
  then have "cli_world c = cli_world (fresh_cli sample_db)"
    using import_exit_truthful [where report = "\<lambda>_. []" and lib = sample_provision and uid = 1000 and shredded = False and
        vault = True and ck = sample_clock and r = sample_import and kf = "Some sample_key_file" and c = "fresh_cli sample_db"] run
    by (auto simp: fresh_cli_def)
  with run e show ?thesis by (simp add: fresh_cli_def)
qed

end
