(* ===== verification/Client_Cli.thy ===== *)
theory Client_Cli
  imports Bundle_Cli
begin

section \<open>The commands that talk to the daemon\<close>

text \<open>
  The commands of \<open>clifwd\<close> that send one request to the daemon: \<open>cli/callers.py\<close>, \<open>create\<close> and \<open>list\<close> of
  \<open>cli/wallets.py\<close>, \<open>cli/nonce.py\<close>, \<open>list\<close> of \<open>cli/capability.py\<close> and \<open>health\<close> of \<open>cli/main.py\<close>.  HTTP is an
  operation on the world that answers or is unreachable; an answer has a status, a text and, when the text is
  JSON, a body.  The fields the commands print are strings, as the API's schemas have them; a body without them is the
  \<open>KeyError\<close> or \<open>TypeError\<close> that ends the command.
\<close>

subsection \<open>Requests and answers\<close>

record http_request =
  hq_method :: string
  hq_path :: string
  hq_json :: "json option"
  hq_auth :: "string option"

record http_answer =
  hr_status :: int
  hr_text :: string
  hr_json :: "json option"

type_synonym 'd http = "http_request \<Rightarrow> 'd \<Rightarrow> (string + http_answer) \<times> 'd"

type_synonym 'd client = "(('d, string) cli, unit) op"

definition http_call :: "'d http \<Rightarrow> http_request \<Rightarrow> (http_answer \<Rightarrow> 'd client) \<Rightarrow> 'd client" where
  "http_call send q continue =
     bindM (on_world (\<lambda>d. case send q d of (r, e) \<Rightarrow> (Inr r, e))) (\<lambda>r.
     case r of Inl why \<Rightarrow> fail_with (''unreachable: '' @ why) 2 | Inr a \<Rightarrow> continue a)"

text \<open>\<open>_admin_headers\<close>.\<close>

definition with_key :: "string \<Rightarrow> (string \<Rightarrow> 'd client) \<Rightarrow> 'd client" where
  "with_key key continue = (if key = [] then fail_with ''FWD_ADMIN_KEY env var not set'' 2 else continue (''Bearer '' @ key))"

definition http_failure :: "http_answer \<Rightarrow> 'd client" where
  "http_failure a = fail_with (''http '' @ str_int (hr_status a) @ '': '' @ take_points 200 (hr_text a)) 1"

definition body_field :: "string \<Rightarrow> json option \<Rightarrow> json option" where
  "body_field k j = (case j of Some (JObj kv) \<Rightarrow> map_of kv k | _ \<Rightarrow> None)"

definition string_field :: "string \<Rightarrow> json option \<Rightarrow> (string \<Rightarrow> 'd client) \<Rightarrow> 'd client" where
  "string_field k j continue = (case body_field k j of Some (JStr s) \<Rightarrow> continue s | _ \<Rightarrow> raise OtherError)"

definition list_field :: "string \<Rightarrow> json option \<Rightarrow> (json list \<Rightarrow> 'd client) \<Rightarrow> 'd client" where
  "list_field k j continue = (case body_field k j of Some (JList xs) \<Rightarrow> continue xs | _ \<Rightarrow> raise OtherError)"

definition opt_json :: "string option \<Rightarrow> json" where
  "opt_json v = (case v of None \<Rightarrow> JNull | Some s \<Rightarrow> JStr s)"

definition column :: "nat \<Rightarrow> string \<Rightarrow> string" where
  "column n s = s @ replicate (n - length (code_points s)) (CHR '' '')"

definition dashes :: "nat \<Rightarrow> string" where
  "dashes n = replicate n (CHR ''-'')"

text \<open>The rows of a table, one by one.\<close>

fun each :: "(json \<Rightarrow> 'd client) \<Rightarrow> json list \<Rightarrow> 'd client" where
  "each f [] = ret ()"
| "each f (x # xs) = thenM (f x) (each f xs)"

definition json_truthy :: "json option \<Rightarrow> bool" where
  "json_truthy v = (case v of
     None \<Rightarrow> False | Some JNull \<Rightarrow> False | Some (JBool b) \<Rightarrow> b | Some (JInt i) \<Rightarrow> i \<noteq> 0 | Some (JStr s) \<Rightarrow> s \<noteq> []
   | Some (JList xs) \<Rightarrow> xs \<noteq> [] | Some (JObj kv) \<Rightarrow> kv \<noteq> [] | Some (JFloat s) \<Rightarrow> True)"

definition get_request :: "string \<Rightarrow> string \<Rightarrow> http_request" where
  "get_request auth path = \<lparr>hq_method = ''GET'', hq_path = path, hq_json = None, hq_auth = Some auth\<rparr>"

definition post_request :: "string \<Rightarrow> string \<Rightarrow> (string \<times> json) list \<Rightarrow> http_request" where
  "post_request auth path kv = \<lparr>hq_method = ''POST'', hq_path = path, hq_json = Some (JObj kv), hq_auth = Some auth\<rparr>"

subsection \<open>Callers\<close>

definition callers_create_request :: "string \<Rightarrow> string \<Rightarrow> string \<Rightarrow> bool \<Rightarrow> string option \<Rightarrow> http_request" where
  "callers_create_request auth name policy replace capability =
     post_request auth ''/v1/admin/callers'' [(''name'', JStr name), (''policy_path'', JStr policy),
       (''replace'', JBool replace), (''capability_id'', opt_json capability)]"

definition show_created :: "json option \<Rightarrow> 'd client" where
  "show_created body =
     string_field ''name'' body (\<lambda>n. thenM (echo_err (''created caller: '' @ n))
     (string_field ''policy_path'' body (\<lambda>p. thenM (echo_err (''policy_path:    '' @ p))
     (thenM (if json_truthy (body_field ''capability_id'' body)
        then string_field ''capability_id'' body (\<lambda>c. echo_err (''capability_id:  '' @ c)) else ret ())
     (string_field ''api_key_prefix'' body (\<lambda>x. thenM (echo_err (''api_key_prefix: '' @ x))
     (thenM (echo_err (''API KEY (returned ONCE '' @ [CHR 0xE2, CHR 0x80, CHR 0x94] @ '' capture now):''))
     (string_field ''api_key'' body echo))))))))"

definition callers_create :: "'d http \<Rightarrow> string \<Rightarrow> string \<Rightarrow> string \<Rightarrow> bool \<Rightarrow> string option \<Rightarrow> 'd client" where
  "callers_create send key name policy replace capability =
     with_key key (\<lambda>auth. http_call send (callers_create_request auth name policy replace capability) (\<lambda>a.
     if hr_status a = 201 then show_created (hr_json a)
     else if hr_status a = 409 then fail_with (''caller exists: '' @ name) 3
     else http_failure a))"

definition caller_line :: "json \<Rightarrow> 'd client" where
  "caller_line c =
     string_field ''name'' (Some c) (\<lambda>n. string_field ''api_key_prefix'' (Some c) (\<lambda>x. string_field ''policy_path'' (Some c) (\<lambda>p.
     echo (column 32 n @ ''  '' @ column 10 x @ ''  '' @ column 32 p @ ''  '' @
       (if json_truthy (body_field ''revoked_at'' (Some c)) then ''REVOKED'' else ''active'')))))"

definition callers_list :: "'d http \<Rightarrow> string \<Rightarrow> bool \<Rightarrow> 'd client" where
  "callers_list send key json_out =
     with_key key (\<lambda>auth. http_call send (get_request auth ''/v1/admin/callers'') (\<lambda>a.
     if hr_status a \<noteq> 200 then http_failure a
     else if json_out then echo (hr_text a)
     else list_field ''callers'' (hr_json a) (\<lambda>cs.
       if cs = [] then echo_err ''(no callers)''
       else thenM (echo_all [column 32 ''name'' @ ''  '' @ column 10 ''prefix'' @ ''  '' @ column 32 ''policy_path'' @ ''  status'',
           dashes 32 @ ''  '' @ dashes 10 @ ''  '' @ dashes 32 @ ''  ------''])
         (each caller_line cs))))"

definition callers_revoke :: "'d http \<Rightarrow> string \<Rightarrow> string \<Rightarrow> 'd client" where
  "callers_revoke send key name =
     with_key key (\<lambda>auth. http_call send \<lparr>hq_method = ''DELETE'', hq_path = ''/v1/admin/callers/'' @ name, hq_json = None,
       hq_auth = Some auth\<rparr> (\<lambda>a.
     if hr_status a = 204 then echo_err (''revoked caller: '' @ name)
     else if hr_status a = 404 then fail_with (''caller not found: '' @ name) 4
     else if hr_status a = 409 then fail_with (''caller already revoked: '' @ name) 5
     else http_failure a))"

subsection \<open>Wallets\<close>

definition wallets_create :: "'d http \<Rightarrow> string \<Rightarrow> string \<Rightarrow> string \<Rightarrow> 'd client" where
  "wallets_create send key name policy =
     with_key key (\<lambda>auth. http_call send (post_request auth ''/v1/admin/wallets''
       [(''name'', JStr name), (''policy_path'', JStr policy)]) (\<lambda>a.
     if hr_status a = 201 then string_field ''name'' (hr_json a) (\<lambda>n. string_field ''address'' (hr_json a) (\<lambda>x.
       echo (''created: '' @ n @ '' @ '' @ x)))
     else if hr_status a = 409 then fail_with (''wallet exists: '' @ name) 3
     else http_failure a))"

definition wallet_line :: "json \<Rightarrow> 'd client" where
  "wallet_line w =
     string_field ''name'' (Some w) (\<lambda>n. string_field ''address'' (Some w) (\<lambda>x. string_field ''policy_path'' (Some w) (\<lambda>p.
     echo (column 32 n @ ''  '' @ column 44 x @ ''  '' @ p))))"

definition wallets_list :: "'d http \<Rightarrow> string \<Rightarrow> bool \<Rightarrow> 'd client" where
  "wallets_list send key json_out =
     with_key key (\<lambda>auth. http_call send (get_request auth ''/v1/admin/wallets'') (\<lambda>a.
     if hr_status a \<noteq> 200 then http_failure a
     else if json_out then (case hr_json a of None \<Rightarrow> raise OtherError | Some j \<Rightarrow> echo (json_dumps j))
     else list_field ''wallets'' (hr_json a) (\<lambda>ws.
       if ws = [] then echo_err ''(no wallets)''
       else thenM (echo_all [column 32 ''name'' @ ''  '' @ column 44 ''address'' @ ''  policy_path'',
           dashes 32 @ ''  '' @ dashes 44 @ ''  '' @ dashes 32])
         (each wallet_line ws))))"

subsection \<open>Nonces\<close>

definition nonce_init_command :: "'d http \<Rightarrow> string \<Rightarrow> string \<Rightarrow> int \<Rightarrow> int \<Rightarrow> bool \<Rightarrow> 'd client" where
  "nonce_init_command send key wallet chain starting force =
     with_key key (\<lambda>auth. http_call send (post_request auth ''/v1/admin/nonce-init'' [(''wallet'', JStr wallet),
       (''chain'', JInt chain), (''starting_nonce'', JInt starting), (''force'', JBool force)]) (\<lambda>a.
     thenM (echo (hr_text a)) (raise (SystemExit (if hr_status a = 201 then 0 else 1)))))"

definition nonce_path :: "string \<Rightarrow> int \<Rightarrow> string" where
  "nonce_path wallet chain = wallet @ ''/'' @ str_int chain"

definition nonce_get_command :: "'d http \<Rightarrow> string \<Rightarrow> string \<Rightarrow> int \<Rightarrow> 'd client" where
  "nonce_get_command send key wallet chain =
     with_key key (\<lambda>auth. http_call send (get_request auth (''/v1/admin/nonce/'' @ nonce_path wallet chain)) (\<lambda>a.
     if hr_status a = 200 then thenM (echo (hr_text a)) (raise (SystemExit 0))
     else if hr_status a = 404 then fail_with (''nonce_not_initialized: '' @ nonce_path wallet chain) 4
     else http_failure a))"

definition nonce_sync_command :: "'d http \<Rightarrow> string \<Rightarrow> string \<Rightarrow> int \<Rightarrow> int \<Rightarrow> 'd client" where
  "nonce_sync_command send key wallet chain count =
     with_key key (\<lambda>auth. http_call send (post_request auth ''/v1/admin/nonce-sync'' [(''wallet'', JStr wallet),
       (''chain'', JInt chain), (''on_chain_count'', JInt count)]) (\<lambda>a.
     if hr_status a = 200 then thenM (echo (hr_text a)) (raise (SystemExit 0))
     else if hr_status a = 404 then fail_with (''nonce_not_initialized: '' @ nonce_path wallet chain) 4
     else if hr_status a = 409 then fail_with (hr_text a) 5
     else http_failure a))"

subsection \<open>Capabilities and health\<close>

definition granted_capability_line :: "json \<Rightarrow> 'd client" where
  "granted_capability_line c =
     string_field ''capability_id'' (Some c) (\<lambda>i. string_field ''caller_name'' (Some c) (\<lambda>n.
     string_field ''policy_path'' (Some c) (\<lambda>p. string_field ''status'' (Some c) (\<lambda>s.
     echo (column 32 i @ ''  '' @ column 24 n @ ''  '' @ column 24 p @ ''  '' @ s)))))"

definition capability_list_command :: "'d http \<Rightarrow> string \<Rightarrow> bool \<Rightarrow> 'd client" where
  "capability_list_command send key json_out =
     with_key key (\<lambda>auth. http_call send (get_request auth ''/v1/admin/capabilities'') (\<lambda>a.
     if hr_status a \<noteq> 200 then http_failure a
     else if json_out then echo (hr_text a)
     else list_field ''capabilities'' (hr_json a) (\<lambda>cs.
       if cs = [] then echo_err ''(no granted capabilities)''
       else thenM (echo_all [column 32 ''capability_id'' @ ''  '' @ column 24 ''caller'' @ ''  '' @ column 24 ''policy_path'' @ ''  status'',
           dashes 32 @ ''  '' @ dashes 24 @ ''  '' @ dashes 24 @ ''  ------''])
         (each granted_capability_line cs))))"

definition health_command :: "'d http \<Rightarrow> 'd client" where
  "health_command send =
     http_call send \<lparr>hq_method = ''GET'', hq_path = ''/healthz'', hq_json = None, hq_auth = None\<rparr> (\<lambda>a.
     thenM (echo (hr_text a)) (raise (SystemExit (if hr_status a = 200 then 0 else 1))))"

subsection \<open>Printing\<close>

text \<open>Operations that only print; they return or end with the error of a malformed body.\<close>

definition printing :: "'d client \<Rightarrow> bool" where
  "printing m \<longleftrightarrow> (\<forall>c. case m c of (r, c') \<Rightarrow> cli_world c' = cli_world c \<and> cli_files c' = cli_files c \<and>
     (r = Inr () \<or> r = Inl OtherError))"

named_theorems printing_rules

lemma printing_echo [printing_rules]: "printing (echo s)" "printing (echo_err s)" "printing (echo_all xs)" "printing (ret ())"
  "printing (raise OtherError)"
  by (simp_all add: printing_def)

lemma printing_then [printing_rules]: "printing m \<Longrightarrow> printing n \<Longrightarrow> printing (thenM m n)"
  unfolding printing_def thenM_def bindM_run by (fastforce split: prod.splits sum.splits)

lemma printing_field [printing_rules]: "(\<And>s. printing (f s)) \<Longrightarrow> printing (string_field k j f)"
  "(\<And>xs. printing (g xs)) \<Longrightarrow> printing (list_field k j g)"
  by (auto simp: string_field_def list_field_def printing_echo split: option.splits json.splits)

lemma printing_option [printing_rules]: "printing m \<Longrightarrow> (\<And>x. printing (f x)) \<Longrightarrow> printing (case v of None \<Rightarrow> m | Some x \<Rightarrow> f x)"
  by (cases v) simp_all

lemma printing_if [printing_rules]: "printing m \<Longrightarrow> printing n \<Longrightarrow> printing (if b then m else n)"
  by simp

lemma printing_each [printing_rules]: "(\<And>x. printing (f x)) \<Longrightarrow> printing (each f xs)"
  by (induction xs) (simp_all add: printing_rules)

lemma printing_lines [printing_rules]:
  "printing (caller_line j)" "printing (wallet_line j)" "printing (granted_capability_line j)" "printing (show_created body)"
  unfolding caller_line_def wallet_line_def granted_capability_line_def show_created_def
  by (intro printing_rules)+

subsection \<open>What a command does\<close>

datatype client_command =
    CallersCreate string string bool "string option"
  | CallersList bool
  | CallersRevoke string
  | WalletsCreate string string
  | WalletsList bool
  | NonceInit string int int bool
  | NonceGet string int
  | NonceSync string int int
  | CapabilityList bool
  | Health

definition run_client :: "'d http \<Rightarrow> string \<Rightarrow> client_command \<Rightarrow> 'd client" where
  "run_client send key cmd =
     (case cmd of
        CallersCreate name policy replace capability \<Rightarrow> callers_create send key name policy replace capability
      | CallersList js \<Rightarrow> callers_list send key js
      | CallersRevoke name \<Rightarrow> callers_revoke send key name
      | WalletsCreate name policy \<Rightarrow> wallets_create send key name policy
      | WalletsList js \<Rightarrow> wallets_list send key js
      | NonceInit wallet chain starting force \<Rightarrow> nonce_init_command send key wallet chain starting force
      | NonceGet wallet chain \<Rightarrow> nonce_get_command send key wallet chain
      | NonceSync wallet chain count \<Rightarrow> nonce_sync_command send key wallet chain count
      | CapabilityList js \<Rightarrow> capability_list_command send key js
      | Health \<Rightarrow> health_command send)"

text \<open>The one request of a command, the status that is a success, and the codes of the others.\<close>

definition client_request :: "string \<Rightarrow> client_command \<Rightarrow> http_request" where
  "client_request key cmd =
     (let auth = ''Bearer '' @ key in
      case cmd of
        CallersCreate name policy replace capability \<Rightarrow> callers_create_request auth name policy replace capability
      | CallersList js \<Rightarrow> get_request auth ''/v1/admin/callers''
      | CallersRevoke name \<Rightarrow> \<lparr>hq_method = ''DELETE'', hq_path = ''/v1/admin/callers/'' @ name, hq_json = None, hq_auth = Some auth\<rparr>
      | WalletsCreate name policy \<Rightarrow> post_request auth ''/v1/admin/wallets'' [(''name'', JStr name), (''policy_path'', JStr policy)]
      | WalletsList js \<Rightarrow> get_request auth ''/v1/admin/wallets''
      | NonceInit wallet chain starting force \<Rightarrow> post_request auth ''/v1/admin/nonce-init'' [(''wallet'', JStr wallet),
          (''chain'', JInt chain), (''starting_nonce'', JInt starting), (''force'', JBool force)]
      | NonceGet wallet chain \<Rightarrow> get_request auth (''/v1/admin/nonce/'' @ nonce_path wallet chain)
      | NonceSync wallet chain count \<Rightarrow> post_request auth ''/v1/admin/nonce-sync'' [(''wallet'', JStr wallet),
          (''chain'', JInt chain), (''on_chain_count'', JInt count)]
      | CapabilityList js \<Rightarrow> get_request auth ''/v1/admin/capabilities''
      | Health \<Rightarrow> \<lparr>hq_method = ''GET'', hq_path = ''/healthz'', hq_json = None, hq_auth = None\<rparr>)"

definition success_status :: "client_command \<Rightarrow> int" where
  "success_status cmd = (case cmd of CallersCreate _ _ _ _ \<Rightarrow> 201 | WalletsCreate _ _ \<Rightarrow> 201 | NonceInit _ _ _ _ \<Rightarrow> 201
     | CallersRevoke _ \<Rightarrow> 204 | _ \<Rightarrow> 200)"

definition failure_code :: "client_command \<Rightarrow> int \<Rightarrow> int" where
  "failure_code cmd status = (case cmd of
     CallersCreate _ _ _ _ \<Rightarrow> if status = 409 then 3 else 1
   | WalletsCreate _ _ \<Rightarrow> if status = 409 then 3 else 1
   | CallersRevoke _ \<Rightarrow> if status = 404 then 4 else if status = 409 then 5 else 1
   | NonceGet _ _ \<Rightarrow> if status = 404 then 4 else 1
   | NonceSync _ _ _ \<Rightarrow> if status = 404 then 4 else if status = 409 then 5 else 1
   | _ \<Rightarrow> 1)"

subsection \<open>Exit codes\<close>

lemma http_call_run: "http_call send q f c = (case send q (cli_world c) of
     (Inl why, d) \<Rightarrow> (Inl (SystemExit 2), c\<lparr>cli_world := d, cli_err := cli_err c @ [''unreachable: '' @ why]\<rparr>)
   | (Inr a, d) \<Rightarrow> f a (c\<lparr>cli_world := d\<rparr>))"
  by (auto simp: http_call_def bindM_run on_world_def split: prod.splits sum.splits)

text \<open>An operation that ends with code \<open>n\<close> and only prints; on stdout only when \<open>shown\<close>.\<close>

definition exits :: "bool \<Rightarrow> int \<Rightarrow> 'd client \<Rightarrow> bool" where
  "exits shown n m \<longleftrightarrow> (\<forall>c. case m c of (r, c') \<Rightarrow> r = Inl (SystemExit n) \<and> cli_world c' = cli_world c \<and>
     cli_files c' = cli_files c \<and> (\<not> shown \<longrightarrow> cli_out c' = cli_out c))"

lemma exits_rules:
  "exits False n (fail_with s n)" "exits False 1 (http_failure a)" "exits True n (thenM (echo s) (raise (SystemExit n)))"
  by (simp_all add: exits_def http_failure_def thenM_def bindM_run)

text \<open>What an answer with a status makes of a command.\<close>

definition shows_failures :: "client_command \<Rightarrow> bool" where
  "shows_failures cmd \<longleftrightarrow> (case cmd of Health \<Rightarrow> True | NonceInit _ _ _ _ \<Rightarrow> True | _ \<Rightarrow> False)"

definition tells :: "client_command \<Rightarrow> int \<Rightarrow> string list \<Rightarrow> exn + unit \<Rightarrow> string list \<Rightarrow> bool" where
  "tells cmd status out r out' \<longleftrightarrow>
     (if status = success_status cmd then exit_code r = 0 \<or> r = Inl OtherError
      else exit_code r = failure_code cmd status \<and> (shows_failures cmd \<or> out' = out))"

definition answered :: "client_command \<Rightarrow> int \<Rightarrow> 'd client \<Rightarrow> bool" where
  "answered cmd status m \<longleftrightarrow> (\<forall>c r c'. m c = (r, c') \<longrightarrow>
     cli_world c' = cli_world c \<and> cli_files c' = cli_files c \<and> tells cmd status (cli_out c) r (cli_out c'))"

lemma answered_printing:
  assumes "printing m" "status = success_status cmd"
  shows "answered cmd status m"
  unfolding answered_def
proof (intro allI impI)
  fix c r c' assume "m c = (r, c')"
  with assms(1) have "cli_world c' = cli_world c \<and> cli_files c' = cli_files c \<and> (r = Inr () \<or> r = Inl OtherError)"
    unfolding printing_def by (metis (mono_tags, lifting) prod.case)
  with assms(2) show "cli_world c' = cli_world c \<and> cli_files c' = cli_files c \<and> tells cmd status (cli_out c) r (cli_out c')"
    by (auto simp: tells_def exit_code_def)
qed

lemma answered_exits:
  assumes "exits shown n m" "if status = success_status cmd then n = 0 else n = failure_code cmd status \<and> (shown \<longrightarrow> shows_failures cmd)"
  shows "answered cmd status m"
  unfolding answered_def
proof (intro allI impI)
  fix c r c' assume "m c = (r, c')"
  with assms(1) have "r = Inl (SystemExit n) \<and> cli_world c' = cli_world c \<and> cli_files c' = cli_files c \<and>
      (\<not> shown \<longrightarrow> cli_out c' = cli_out c)"
    unfolding exits_def by (metis (mono_tags, lifting) prod.case)
  with assms(2) show "cli_world c' = cli_world c \<and> cli_files c' = cli_files c \<and> tells cmd status (cli_out c) r (cli_out c')"
    by (auto simp: tells_def exit_code_def)
qed

text \<open>What a command that sends its request once does.\<close>

definition sends :: "'d http \<Rightarrow> string \<Rightarrow> client_command \<Rightarrow> 'd client \<Rightarrow> bool" where
  "sends send key cmd m \<longleftrightarrow> (\<forall>c r c'. m c = (r, c') \<longrightarrow> cli_files c' = cli_files c \<and>
     (if key = [] \<and> cmd \<noteq> Health then exit_code r = 2 \<and> cli_world c' = cli_world c \<and> cli_out c' = cli_out c
      else case send (client_request key cmd) (cli_world c) of
        (Inl why, d) \<Rightarrow> exit_code r = 2 \<and> cli_world c' = d \<and> cli_out c' = cli_out c
      | (Inr a, d) \<Rightarrow> cli_world c' = d \<and> tells cmd (hr_status a) (cli_out c) r (cli_out c')))"

lemma sends_call:
  assumes "\<And>a. answered cmd (hr_status a) (f a)" "q = client_request key cmd" "key \<noteq> [] \<or> cmd = Health"
  shows "sends send key cmd (http_call send q f)"
  unfolding sends_def
proof (intro allI impI)
  fix c r c' assume run: "http_call send q f c = (r, c')"
  obtain x d where x: "send (client_request key cmd) (cli_world c) = (x, d)" by fastforce
  have "cli_files c' = cli_files c \<and> (case send (client_request key cmd) (cli_world c) of
      (Inl why, d) \<Rightarrow> exit_code r = 2 \<and> cli_world c' = d \<and> cli_out c' = cli_out c
    | (Inr a, d) \<Rightarrow> cli_world c' = d \<and> tells cmd (hr_status a) (cli_out c) r (cli_out c'))"
  proof (cases x)
    case (Inl why)
    with x assms(2) run show ?thesis by (auto simp: http_call_run exit_code_def)
  next
    case (Inr a)
    with x assms(2) run have "f a (c\<lparr>cli_world := d\<rparr>) = (r, c')" by (simp add: http_call_run)
    with assms(1) [of a] have "cli_world c' = d \<and> cli_files c' = cli_files c \<and> tells cmd (hr_status a) (cli_out c) r (cli_out c')"
      unfolding answered_def by fastforce
    with x Inr show ?thesis by simp
  qed
  with assms(3) show "cli_files c' = cli_files c \<and>
     (if key = [] \<and> cmd \<noteq> Health then exit_code r = 2 \<and> cli_world c' = cli_world c \<and> cli_out c' = cli_out c
      else case send (client_request key cmd) (cli_world c) of
        (Inl why, d) \<Rightarrow> exit_code r = 2 \<and> cli_world c' = d \<and> cli_out c' = cli_out c
      | (Inr a, d) \<Rightarrow> cli_world c' = d \<and> tells cmd (hr_status a) (cli_out c) r (cli_out c'))" by auto
qed

lemma sends_key:
  assumes "key \<noteq> [] \<Longrightarrow> sends send key cmd (f (''Bearer '' @ key))" "cmd \<noteq> Health"
  shows "sends send key cmd (with_key key f)"
  using assms by (cases "key = []") (auto simp: with_key_def sends_def exit_code_def)

lemmas command_defs = callers_create_def callers_list_def callers_revoke_def wallets_create_def wallets_list_def
  nonce_init_command_def nonce_get_command_def nonce_sync_command_def capability_list_command_def health_command_def

lemmas client_tables = client_request_def Let_def success_status_def failure_code_def shows_failures_def

lemma answered_if: "(b \<Longrightarrow> answered cmd st m) \<Longrightarrow> (\<not> b \<Longrightarrow> answered cmd st n) \<Longrightarrow> answered cmd st (if b then m else n)"
  by simp


end
