(* ===== verification/Migrations.thy ===== *)
theory Migrations
  imports Fwd_Prelude
begin

section \<open>The database schema\<close>

text \<open>
  The migrations under \<open>alembic/versions/\<close>, which build the tables every store works on, and the tables the
  stores declare to SQLAlchemy.  A schema is its tables and its indexes; a migration is a list of statements.
  A statement fails as SQLite does: a table, an index or a column that is already there, or is not, or a column
  that an index or a key still uses.  Rows are not part of a schema.  \<open>migrations_roundtrip\<close> shows that a
  downgrade undoes its upgrade, \<open>head_matches_tables\<close> that the migrated schema is the one the stores declare.
\<close>

subsection \<open>Statements\<close>

datatype column_type = TString | TInteger | TTimestamp

record column_def =
  cd_name :: string
  cd_type :: column_type
  cd_nullable :: bool
  cd_unique :: bool
  cd_default :: "string option"

text \<open>A foreign key names its column and the table and column it refers to.\<close>

record table_def =
  tb_columns :: "column_def list"
  tb_primary_key :: "string list"
  tb_foreign_keys :: "(string \<times> string \<times> string) list"

record index_def =
  ix_table :: string
  ix_columns :: "string list"
  ix_unique :: bool
  ix_where :: "string option"

record schema =
  sc_tables :: "(string \<times> table_def) list"
  sc_indexes :: "(string \<times> index_def) list"

datatype ddl =
    CreateTable string table_def
  | DropTable string
  | CreateIndex string index_def
  | DropIndex string
  | AddColumn string column_def
  | DropColumn string string

definition has_column :: "string \<Rightarrow> table_def \<Rightarrow> bool" where
  "has_column n t = list_ex (\<lambda>c. cd_name c = n) (tb_columns t)"

definition update_table :: "string \<Rightarrow> (table_def \<Rightarrow> table_def) \<Rightarrow> schema \<Rightarrow> schema" where
  "update_table n f s = s\<lparr>sc_tables := map (\<lambda>(m, t). (m, if m = n then f t else t)) (sc_tables s)\<rparr>"

text \<open>Tables and indexes share a name space.  Dropping a table drops its indexes.\<close>

definition taken :: "string \<Rightarrow> schema \<Rightarrow> bool" where
  "taken n s = (map_of (sc_tables s) n \<noteq> None \<or> map_of (sc_indexes s) n \<noteq> None)"

fun run_ddl :: "ddl \<Rightarrow> schema \<Rightarrow> schema option" where
  "run_ddl (CreateTable n t) s =
     (if taken n s \<or> \<not> distinct (map cd_name (tb_columns t))
        \<or> \<not> list_all (\<lambda>c. has_column c t) (tb_primary_key t) then None
      else Some (s\<lparr>sc_tables := sc_tables s @ [(n, t)]\<rparr>))"
| "run_ddl (DropTable n) s =
     (if map_of (sc_tables s) n = None then None
      else Some (s\<lparr>sc_tables := filter (\<lambda>(m, t). m \<noteq> n) (sc_tables s),
        sc_indexes := filter (\<lambda>(i, x). ix_table x \<noteq> n) (sc_indexes s)\<rparr>))"
| "run_ddl (CreateIndex n i) s =
     (case map_of (sc_tables s) (ix_table i) of
        None \<Rightarrow> None
      | Some t \<Rightarrow>
          if taken n s \<or> \<not> list_all (\<lambda>c. has_column c t) (ix_columns i) then None
          else Some (s\<lparr>sc_indexes := sc_indexes s @ [(n, i)]\<rparr>))"
| "run_ddl (DropIndex n) s =
     (if map_of (sc_indexes s) n = None then None
      else Some (s\<lparr>sc_indexes := filter (\<lambda>(m, i). m \<noteq> n) (sc_indexes s)\<rparr>))"
| "run_ddl (AddColumn n c) s =
     (case map_of (sc_tables s) n of
        None \<Rightarrow> None
      | Some t \<Rightarrow>
          if has_column (cd_name c) t then None
          else Some (update_table n (\<lambda>t. t\<lparr>tb_columns := tb_columns t @ [c]\<rparr>) s))"
| "run_ddl (DropColumn n c) s =
     (case map_of (sc_tables s) n of
        None \<Rightarrow> None
      | Some t \<Rightarrow>
          if \<not> has_column c t \<or> c \<in> set (tb_primary_key t)
              \<or> list_ex (\<lambda>(i, x). ix_table x = n \<and> c \<in> set (ix_columns x)) (sc_indexes s) then None
          else Some (update_table n (\<lambda>t. t\<lparr>tb_columns := filter (\<lambda>d. cd_name d \<noteq> c) (tb_columns t)\<rparr>) s))"

fun run_script :: "ddl list \<Rightarrow> schema \<Rightarrow> schema option" where
  "run_script [] s = Some s"
| "run_script (d # ds) s = (case run_ddl d s of None \<Rightarrow> None | Some s' \<Rightarrow> run_script ds s')"

subsection \<open>The revisions\<close>

definition col :: "string \<Rightarrow> column_type \<Rightarrow> column_def" where
  "col n ty = \<lparr>cd_name = n, cd_type = ty, cd_nullable = False, cd_unique = False, cd_default = None\<rparr>"

definition nullable :: "column_def \<Rightarrow> column_def" where
  "nullable c = c\<lparr>cd_nullable := True\<rparr>"

definition with_default :: "string \<Rightarrow> column_def \<Rightarrow> column_def" where
  "with_default d c = c\<lparr>cd_default := Some d\<rparr>"

definition uniq :: "column_def \<Rightarrow> column_def" where
  "uniq c = c\<lparr>cd_unique := True\<rparr>"

definition now_default :: string where
  "now_default = ''CURRENT_TIMESTAMP''"

definition upgrade_0001 :: "ddl list" where
  "upgrade_0001 = []"

definition downgrade_0001 :: "ddl list" where
  "downgrade_0001 = []"

definition upgrade_0002 :: "ddl list" where
  "upgrade_0002 =
     [CreateTable ''wallets'' \<lparr>tb_columns = [col ''name'' TString, col ''address'' TString,
         col ''privkey_ciphertext'' TString, col ''vault_master_key'' TString, col ''policy_path'' TString,
         with_default now_default (col ''created_at'' TTimestamp)],
       tb_primary_key = [''name''], tb_foreign_keys = []\<rparr>]"

definition downgrade_0002 :: "ddl list" where
  "downgrade_0002 = [DropTable ''wallets'']"

definition upgrade_0003 :: "ddl list" where
  "upgrade_0003 =
     [CreateTable ''callers'' \<lparr>tb_columns = [col ''name'' TString, uniq (col ''api_key_hash'' TString),
         col ''api_key_prefix'' TString, col ''policy_path'' TString,
         with_default now_default (col ''created_at'' TTimestamp), nullable (col ''revoked_at'' TTimestamp)],
       tb_primary_key = [''name''], tb_foreign_keys = []\<rparr>,
      CreateIndex ''idx_callers_prefix_active'' \<lparr>ix_table = ''callers'', ix_columns = [''api_key_prefix''],
        ix_unique = False, ix_where = Some ''revoked_at IS NULL''\<rparr>]"

definition downgrade_0003 :: "ddl list" where
  "downgrade_0003 = [DropIndex ''idx_callers_prefix_active'', DropTable ''callers'']"

definition plain_index :: "string \<Rightarrow> string list \<Rightarrow> index_def" where
  "plain_index t cs = \<lparr>ix_table = t, ix_columns = cs, ix_unique = False, ix_where = None\<rparr>"

definition upgrade_0004 :: "ddl list" where
  "upgrade_0004 =
     [CreateTable ''wallet_chains'' \<lparr>tb_columns = [col ''wallet'' TString, col ''chain'' TInteger],
        tb_primary_key = [''wallet'', ''chain''], tb_foreign_keys = [(''wallet'', ''wallets'', ''name'')]\<rparr>,
      CreateTable ''nonces'' \<lparr>tb_columns = [col ''wallet'' TString, col ''chain'' TInteger, col ''next_nonce'' TInteger,
          nullable (col ''last_confirmed'' TInteger), with_default now_default (col ''last_reconciled_at'' TTimestamp)],
        tb_primary_key = [''wallet'', ''chain''], tb_foreign_keys = [(''wallet'', ''wallets'', ''name'')]\<rparr>,
      CreateTable ''transactions'' \<lparr>tb_columns = [col ''tx_id'' TString, col ''wallet'' TString, col ''chain'' TInteger,
          col ''caller'' TString, col ''nonce'' TInteger, col ''contract_address'' TString, col ''method_name'' TString,
          col ''value_wei'' TString, nullable (col ''idempotency_key'' TString), col ''request_json'' TString,
          nullable (col ''signed_raw'' TString), col ''status'' TString, nullable (col ''submitted_at'' TTimestamp),
          nullable (col ''confirmed_at'' TTimestamp), nullable (col ''receipt_json'' TString),
          with_default now_default (col ''created_at'' TTimestamp)],
        tb_primary_key = [''tx_id''],
        tb_foreign_keys = [(''wallet'', ''wallets'', ''name''), (''caller'', ''callers'', ''name'')]\<rparr>,
      CreateTable ''transaction_args'' \<lparr>tb_columns = [col ''tx_id'' TString, col ''arg_name'' TString,
          col ''arg_type'' TString, col ''arg_value'' TString],
        tb_primary_key = [''tx_id'', ''arg_name''], tb_foreign_keys = [(''tx_id'', ''transactions'', ''tx_id'')]\<rparr>,
      CreateTable ''transaction_hashes'' \<lparr>tb_columns = [col ''tx_id'' TString, col ''sequence_num'' TInteger,
          col ''hash_hex'' TString, with_default now_default (col ''submitted_at'' TTimestamp)],
        tb_primary_key = [''tx_id'', ''sequence_num''], tb_foreign_keys = [(''tx_id'', ''transactions'', ''tx_id'')]\<rparr>,
      CreateTable ''audit_log'' \<lparr>tb_columns = [col ''seq'' TInteger, with_default now_default (col ''ts'' TTimestamp),
          nullable (col ''caller'' TString), col ''action'' TString, nullable (col ''request_json'' TString),
          col ''decision'' TString, nullable (col ''decision_reason'' TString), nullable (col ''outcome'' TString),
          col ''prev_hash'' TString, col ''row_hash'' TString],
        tb_primary_key = [''seq''], tb_foreign_keys = []\<rparr>,
      CreateIndex ''idx_tx_idempotency'' \<lparr>ix_table = ''transactions'', ix_columns = [''caller'', ''idempotency_key''],
        ix_unique = True, ix_where = Some ''idempotency_key IS NOT NULL''\<rparr>,
      CreateIndex ''idx_tx_status'' (plain_index ''transactions'' [''status'']),
      CreateIndex ''idx_tx_wallet_chain_nonce'' (plain_index ''transactions'' [''wallet'', ''chain'', ''nonce'']),
      CreateIndex ''idx_tx_method'' (plain_index ''transactions'' [''method_name'', ''contract_address'']),
      CreateIndex ''idx_audit_caller_ts'' (plain_index ''audit_log'' [''caller'', ''ts''])]"

definition downgrade_0004 :: "ddl list" where
  "downgrade_0004 =
     [DropIndex ''idx_audit_caller_ts'', DropIndex ''idx_tx_method'', DropIndex ''idx_tx_wallet_chain_nonce'',
      DropIndex ''idx_tx_status'', DropIndex ''idx_tx_idempotency'', DropTable ''audit_log'',
      DropTable ''transaction_hashes'', DropTable ''transaction_args'', DropTable ''transactions'', DropTable ''nonces'',
      DropTable ''wallet_chains'']"

definition counter_col :: column_def where
  "counter_col = with_default ''0'' (col ''counter'' TInteger)"

definition upgrade_0005 :: "ddl list" where
  "upgrade_0005 =
     [CreateTable ''rate_buckets'' \<lparr>tb_columns = [col ''caller'' TString, col ''wallet'' TString, col ''contract'' TString,
          col ''method'' TString, col ''window_kind'' TString, col ''window_start'' TTimestamp, counter_col],
        tb_primary_key = [''caller'', ''wallet'', ''contract'', ''method'', ''window_kind'', ''window_start''],
        tb_foreign_keys = []\<rparr>,
      CreateTable ''wallet_buckets'' \<lparr>tb_columns = [col ''wallet'' TString, col ''window_kind'' TString,
          col ''window_start'' TTimestamp, counter_col, with_default ''0'' (col ''aggregate_value_wei'' TString)],
        tb_primary_key = [''wallet'', ''window_kind'', ''window_start''], tb_foreign_keys = []\<rparr>]"

definition downgrade_0005 :: "ddl list" where
  "downgrade_0005 = [DropTable ''wallet_buckets'', DropTable ''rate_buckets'']"

definition upgrade_0006 :: "ddl list" where
  "upgrade_0006 =
     [CreateTable ''fsp_rate_buckets'' \<lparr>tb_columns = [col ''caller'' TString, col ''wallet'' TString,
          col ''message_type'' TString, col ''window_kind'' TString, col ''window_start'' TTimestamp, counter_col],
        tb_primary_key = [''caller'', ''wallet'', ''message_type'', ''window_kind'', ''window_start''],
        tb_foreign_keys = []\<rparr>]"

definition downgrade_0006 :: "ddl list" where
  "downgrade_0006 = [DropTable ''fsp_rate_buckets'']"

definition upgrade_0007 :: "ddl list" where
  "upgrade_0007 =
     [AddColumn ''transactions'' (nullable (col ''reserved_at'' TTimestamp)),
      CreateTable ''transaction_attempts'' \<lparr>tb_columns = [col ''tx_id'' TString, col ''sequence_num'' TInteger,
          col ''gas'' TInteger, col ''max_fee_per_gas'' TInteger, col ''max_priority_fee_per_gas'' TInteger,
          col ''signed_raw'' TString, col ''hash'' TString, col ''created_at'' TTimestamp],
        tb_primary_key = [''tx_id'', ''sequence_num''], tb_foreign_keys = []\<rparr>]"

definition downgrade_0007 :: "ddl list" where
  "downgrade_0007 = [DropTable ''transaction_attempts'', DropColumn ''transactions'' ''reserved_at'']"

text \<open>A revision with the one before it.\<close>

record revision =
  rv_id :: string
  rv_down :: "string option"
  rv_upgrade :: "ddl list"
  rv_downgrade :: "ddl list"

definition revisions :: "revision list" where
  "revisions =
     [\<lparr>rv_id = ''0001'', rv_down = None, rv_upgrade = upgrade_0001, rv_downgrade = downgrade_0001\<rparr>,
      \<lparr>rv_id = ''0002'', rv_down = Some ''0001'', rv_upgrade = upgrade_0002, rv_downgrade = downgrade_0002\<rparr>,
      \<lparr>rv_id = ''0003'', rv_down = Some ''0002'', rv_upgrade = upgrade_0003, rv_downgrade = downgrade_0003\<rparr>,
      \<lparr>rv_id = ''0004'', rv_down = Some ''0003'', rv_upgrade = upgrade_0004, rv_downgrade = downgrade_0004\<rparr>,
      \<lparr>rv_id = ''0005'', rv_down = Some ''0004'', rv_upgrade = upgrade_0005, rv_downgrade = downgrade_0005\<rparr>,
      \<lparr>rv_id = ''0006'', rv_down = Some ''0005'', rv_upgrade = upgrade_0006, rv_downgrade = downgrade_0006\<rparr>,
      \<lparr>rv_id = ''0007'', rv_down = Some ''0006'', rv_upgrade = upgrade_0007, rv_downgrade = downgrade_0007\<rparr>]"

subsection \<open>The tables of the stores\<close>

text \<open>A column of a store's table; a primary key column is never null.  The Python-side defaults are the stores'.\<close>

definition wallets_table :: table_def where
  "wallets_table = \<lparr>tb_columns = [col ''name'' TString, col ''address'' TString, col ''privkey_ciphertext'' TString,
       col ''vault_master_key'' TString, col ''policy_path'' TString, col ''created_at'' TTimestamp],
     tb_primary_key = [''name''], tb_foreign_keys = []\<rparr>"

definition callers_table :: table_def where
  "callers_table = \<lparr>tb_columns = [col ''name'' TString, uniq (col ''api_key_hash'' TString),
       col ''api_key_prefix'' TString, col ''policy_path'' TString, col ''created_at'' TTimestamp,
       nullable (col ''revoked_at'' TTimestamp)],
     tb_primary_key = [''name''], tb_foreign_keys = []\<rparr>"

definition callers_prefix_index :: index_def where
  "callers_prefix_index = \<lparr>ix_table = ''callers'', ix_columns = [''api_key_prefix''], ix_unique = False,
     ix_where = Some ''revoked_at IS NULL''\<rparr>"

definition nonces_table :: table_def where
  "nonces_table = \<lparr>tb_columns = [col ''wallet'' TString, col ''chain'' TInteger, col ''next_nonce'' TInteger,
       nullable (col ''last_confirmed'' TInteger), col ''last_reconciled_at'' TTimestamp],
     tb_primary_key = [''wallet'', ''chain''], tb_foreign_keys = []\<rparr>"

definition transactions_table :: table_def where
  "transactions_table = \<lparr>tb_columns = [col ''tx_id'' TString, col ''wallet'' TString, col ''chain'' TInteger,
       col ''caller'' TString, col ''nonce'' TInteger, col ''contract_address'' TString, col ''method_name'' TString,
       col ''value_wei'' TString, nullable (col ''idempotency_key'' TString), col ''request_json'' TString,
       nullable (col ''signed_raw'' TString), col ''status'' TString, nullable (col ''submitted_at'' TTimestamp),
       nullable (col ''confirmed_at'' TTimestamp), nullable (col ''receipt_json'' TString),
       col ''created_at'' TTimestamp, nullable (col ''reserved_at'' TTimestamp)],
     tb_primary_key = [''tx_id''], tb_foreign_keys = []\<rparr>"

definition transaction_hashes_table :: table_def where
  "transaction_hashes_table = \<lparr>tb_columns = [col ''tx_id'' TString, col ''sequence_num'' TInteger,
       col ''hash_hex'' TString, col ''submitted_at'' TTimestamp],
     tb_primary_key = [''tx_id'', ''sequence_num''], tb_foreign_keys = []\<rparr>"

definition transaction_attempts_table :: table_def where
  "transaction_attempts_table = \<lparr>tb_columns = [col ''tx_id'' TString, col ''sequence_num'' TInteger,
       col ''gas'' TInteger, col ''max_fee_per_gas'' TInteger, col ''max_priority_fee_per_gas'' TInteger,
       col ''signed_raw'' TString, col ''hash'' TString, col ''created_at'' TTimestamp],
     tb_primary_key = [''tx_id'', ''sequence_num''], tb_foreign_keys = []\<rparr>"

definition audit_log_table :: table_def where
  "audit_log_table = \<lparr>tb_columns = [col ''seq'' TInteger, with_default now_default (col ''ts'' TTimestamp),
       nullable (col ''caller'' TString), col ''action'' TString, nullable (col ''request_json'' TString),
       col ''decision'' TString, nullable (col ''decision_reason'' TString), nullable (col ''outcome'' TString),
       col ''prev_hash'' TString, col ''row_hash'' TString],
     tb_primary_key = [''seq''], tb_foreign_keys = []\<rparr>"

definition rate_buckets_table :: table_def where
  "rate_buckets_table = \<lparr>tb_columns = [col ''caller'' TString, col ''wallet'' TString, col ''contract'' TString,
       col ''method'' TString, col ''window_kind'' TString, col ''window_start'' TTimestamp, col ''counter'' TInteger],
     tb_primary_key = [''caller'', ''wallet'', ''contract'', ''method'', ''window_kind'', ''window_start''],
     tb_foreign_keys = []\<rparr>"

definition wallet_buckets_table :: table_def where
  "wallet_buckets_table = \<lparr>tb_columns = [col ''wallet'' TString, col ''window_kind'' TString,
       col ''window_start'' TTimestamp, col ''counter'' TInteger, col ''aggregate_value_wei'' TString],
     tb_primary_key = [''wallet'', ''window_kind'', ''window_start''], tb_foreign_keys = []\<rparr>"

definition fsp_rate_buckets_table :: table_def where
  "fsp_rate_buckets_table = \<lparr>tb_columns = [col ''caller'' TString, col ''wallet'' TString,
       col ''message_type'' TString, col ''window_kind'' TString, col ''window_start'' TTimestamp,
       col ''counter'' TInteger],
     tb_primary_key = [''caller'', ''wallet'', ''message_type'', ''window_kind'', ''window_start''],
     tb_foreign_keys = []\<rparr>"

definition store_tables :: "(string \<times> table_def) list" where
  "store_tables =
     [(''wallets'', wallets_table), (''callers'', callers_table), (''nonces'', nonces_table),
      (''transactions'', transactions_table), (''transaction_hashes'', transaction_hashes_table),
      (''transaction_attempts'', transaction_attempts_table), (''audit_log'', audit_log_table),
      (''rate_buckets'', rate_buckets_table), (''wallet_buckets'', wallet_buckets_table),
      (''fsp_rate_buckets'', fsp_rate_buckets_table)]"

subsection \<open>Upgrading and downgrading\<close>

text \<open>A schema whose table names are unique and whose keys and indexes are on columns that exist.\<close>

definition keyed :: "table_def \<Rightarrow> bool" where
  "keyed t = list_all (\<lambda>c. has_column c t) (tb_primary_key t)"

definition indexed :: "schema \<Rightarrow> index_def \<Rightarrow> bool" where
  "indexed s x = (case map_of (sc_tables s) (ix_table x) of
      None \<Rightarrow> False
    | Some t \<Rightarrow> list_all (\<lambda>c. has_column c t) (ix_columns x))"

definition wf_schema :: "schema \<Rightarrow> bool" where
  "wf_schema s = (distinct (map fst (sc_tables s)) \<and> list_all (\<lambda>(n, t). keyed t) (sc_tables s)
     \<and> list_all (\<lambda>(n, x). indexed s x) (sc_indexes s))"

definition empty_schema :: schema where
  "empty_schema = \<lparr>sc_tables = [], sc_indexes = []\<rparr>"

text \<open>The statement that undoes a creating one.\<close>

fun undo :: "ddl \<Rightarrow> ddl option" where
  "undo (CreateTable n t) = Some (DropTable n)"
| "undo (CreateIndex n i) = Some (DropIndex n)"
| "undo (AddColumn n c) = Some (DropColumn n (cd_name c))"
| "undo d = None"

definition undone_by :: "ddl list \<Rightarrow> ddl list \<Rightarrow> bool" where
  "undone_by up down = (map undo up = map Some (rev down))"

lemma run_script_append:
  "run_script (a @ b) s = (case run_script a s of None \<Rightarrow> None | Some s' \<Rightarrow> run_script b s')"
  by (induction a arbitrary: s) (auto split: option.splits)

lemma map_of_update_table:
  "map_of (sc_tables (update_table n f s)) m
   = map_option (\<lambda>t. if m = n then f t else t) (map_of (sc_tables s) m)"
proof -
  have "map_of (map (\<lambda>(m, t). (m, if m = n then f t else t)) ts) m
      = map_option (\<lambda>t. if m = n then f t else t) (map_of ts m)" for ts
    by (induction ts) auto
  then show ?thesis
    by (simp add: update_table_def)
qed

lemma names_update_table [simp]: "map fst (sc_tables (update_table n f s)) = map fst (sc_tables s)"
  by (simp add: update_table_def case_prod_unfold comp_def)

lemma indexes_update_table [simp]: "sc_indexes (update_table n f s) = sc_indexes s"
  by (simp add: update_table_def)

text \<open>A creating statement keeps a schema well formed, and the statement that undoes it gives it back.\<close>

lemma indexed_grows:
  assumes "indexed s x"
    and "\<And>t. map_of (sc_tables s) (ix_table x) = Some t \<Longrightarrow>
      \<exists>t'. map_of (sc_tables s') (ix_table x) = Some t' \<and> set (tb_columns t) \<subseteq> set (tb_columns t')"
  shows "indexed s' x"
  using assms by (auto simp: indexed_def has_column_def list_ex_iff list_all_iff split: option.splits) blast+

lemma filter_fresh:
  assumes "map_of xs n = None"
  shows "filter (\<lambda>(m, x). m \<noteq> n) xs = xs"
  using assms by (induction xs) (auto split: if_splits)

lemma create_table_undone:
  assumes run: "run_ddl (CreateTable n t) s = Some s'" and wf: "wf_schema s"
  shows "wf_schema s' \<and> run_ddl (DropTable n) s' = Some s"
proof -
  from run have free: "map_of (sc_tables s) n = None" "map_of (sc_indexes s) n = None"
    and s': "s' = s\<lparr>sc_tables := sc_tables s @ [(n, t)]\<rparr>" and key: "keyed t"
    by (simp_all add: taken_def keyed_def split: if_splits)
  have old: "map_of (sc_tables s') m = (case map_of (sc_tables s) m of None \<Rightarrow> if m = n then Some t else None | Some u \<Rightarrow> Some u)"
    for m
    unfolding s' by (simp add: map_add_def split: option.splits)
  have ix: "indexed s x" "ix_table x \<noteq> n" if "(i, x) \<in> set (sc_indexes s)" for i x
  proof -
    show "indexed s x"
      using wf that by (auto simp: wf_schema_def list_all_iff)
    with free(1) show "ix_table x \<noteq> n"
      by (auto simp: indexed_def split: option.splits)
  qed
  have "indexed s' x" if "(i, x) \<in> set (sc_indexes s)" for i x
    by (rule indexed_grows [OF ix(1) [OF that]]) (simp add: old)
  moreover have "n \<notin> fst ` set (sc_tables s)"
    using free(1) by (simp add: map_of_eq_None_iff)
  ultimately have "wf_schema s'"
    using wf key unfolding wf_schema_def s' by (auto simp: list_all_iff)
  moreover have "filter (\<lambda>(i, x). ix_table x \<noteq> n) (sc_indexes s) = sc_indexes s"
    using ix(2) by (auto simp: filter_id_conv)
  then have "run_ddl (DropTable n) s' = Some s"
    using free(1) by (simp add: s' filter_fresh)
  ultimately show ?thesis ..
qed

lemma create_index_undone:
  assumes run: "run_ddl (CreateIndex n x) s = Some s'" and wf: "wf_schema s"
  shows "wf_schema s' \<and> run_ddl (DropIndex n) s' = Some s"
proof -
  from run have free: "map_of (sc_indexes s) n = None" and x: "indexed s x"
    and s': "s' = s\<lparr>sc_indexes := sc_indexes s @ [(n, x)]\<rparr>"
    by (auto simp: taken_def indexed_def split: option.splits if_splits)
  have same: "indexed s' y = indexed s y" for y
    by (simp add: indexed_def s')
  have "wf_schema s'"
    using wf x by (simp add: wf_schema_def same) (simp add: s')
  moreover have "run_ddl (DropIndex n) s' = Some s"
    using free by (simp add: s' filter_fresh)
  ultimately show ?thesis ..
qed

lemma update_table_inverse:
  assumes "distinct (map fst (sc_tables s))" "map_of (sc_tables s) n = Some t" "g (f t) = t"
  shows "update_table n g (update_table n f s) = s"
proof -
  have "map ((\<lambda>(m, t). (m, if m = n then g t else t)) \<circ> (\<lambda>(m, t). (m, if m = n then f t else t))) (sc_tables s)
      = sc_tables s"
  proof (rule map_idI)
    fix p assume p: "p \<in> set (sc_tables s)"
    obtain m u where mu: "p = (m, u)" by (cases p)
    have "u = t" if "m = n"
      using that assms(1,2) p mu eq_key_imp_eq_value map_of_SomeD by metis
    then show "((\<lambda>(m, t). (m, if m = n then g t else t)) \<circ> (\<lambda>(m, t). (m, if m = n then f t else t))) p = p"
      using assms(3) mu by simp
  qed
  then show ?thesis
    by (simp add: update_table_def)
qed

lemma add_column_undone:
  assumes run: "run_ddl (AddColumn n c) s = Some s'" and wf: "wf_schema s"
  shows "wf_schema s' \<and> run_ddl (DropColumn n (cd_name c)) s' = Some s"
proof -
  define add :: "table_def \<Rightarrow> table_def" where "add = (\<lambda>t. t\<lparr>tb_columns := tb_columns t @ [c]\<rparr>)"
  from run obtain t where t: "map_of (sc_tables s) n = Some t" "\<not> has_column (cd_name c) t"
    and s': "s' = update_table n add s"
    by (auto simp: add_def split: option.splits if_splits)
  have ix: "indexed s x" if "(i, x) \<in> set (sc_indexes s)" for i x
    using wf that by (auto simp: wf_schema_def list_all_iff)
  have "indexed s' x" if "(i, x) \<in> set (sc_indexes s)" for i x
    by (rule indexed_grows [OF ix [OF that]]) (auto simp: s' map_of_update_table add_def)
  moreover have "keyed (add u)" if "keyed u" for u
    using that by (auto simp: keyed_def add_def has_column_def list_all_iff list_ex_iff)
  then have "list_all (\<lambda>(n, t). keyed t) (sc_tables s')"
    using wf by (auto simp: wf_schema_def s' update_table_def list_all_iff)
  ultimately have wf': "wf_schema s'"
    using wf unfolding wf_schema_def s' by (auto simp: list_all_iff)
  have unused: "cd_name c \<notin> set (ix_columns x)" if "(i, x) \<in> set (sc_indexes s)" "ix_table x = n" for i x
    using ix [OF that(1)] t that(2) by (auto simp: indexed_def list_all_iff)
  have key': "cd_name c \<notin> set (tb_primary_key t)"
    using wf map_of_SomeD [OF t(1)] t(2) by (auto simp: wf_schema_def keyed_def list_all_iff)
  have "filter (\<lambda>d. cd_name d \<noteq> cd_name c) (tb_columns t) = tb_columns t"
    using t(2) by (auto simp: has_column_def list_ex_iff filter_id_conv)
  then have restored: "add t\<lparr>tb_columns := filter (\<lambda>d. cd_name d \<noteq> cd_name c) (tb_columns (add t))\<rparr> = t"
    by (simp add: add_def)
  have "update_table n (\<lambda>t. t\<lparr>tb_columns := filter (\<lambda>d. cd_name d \<noteq> cd_name c) (tb_columns t)\<rparr>) s' = s"
    unfolding s' by (rule update_table_inverse [OF _ t(1)]) (use wf restored in \<open>simp_all add: wf_schema_def\<close>)
  moreover have "map_of (sc_tables s') n = Some (add t)" "has_column (cd_name c) (add t)"
    "tb_primary_key (add t) = tb_primary_key t"
    using t(1) by (simp_all add: s' map_of_update_table add_def has_column_def)
  moreover have "\<not> list_ex (\<lambda>(i, x). ix_table x = n \<and> cd_name c \<in> set (ix_columns x)) (sc_indexes s')"
    using unused by (auto simp: s' list_ex_iff)
  ultimately show ?thesis
    using wf' key' by simp
qed

lemma create_undone:
  assumes "run_ddl d s = Some s'" "wf_schema s" "undo d = Some u"
  shows "wf_schema s'" "run_ddl u s' = Some s"
  using assms create_table_undone create_index_undone add_column_undone by (cases d; fastforce)+

lemma script_undone:
  assumes "run_script up s = Some s'" "wf_schema s" "undone_by up down"
  shows "wf_schema s' \<and> run_script down s' = Some s"
  using assms
proof (induction up arbitrary: s down)
  case Nil
  then show ?case by (simp add: undone_by_def)
next
  case (Cons d ds)
  from Cons.prems(3) obtain u us where u: "undo d = Some u" "undone_by ds us" and down: "down = us @ [u]"
    by (cases down rule: rev_cases) (auto simp: undone_by_def)
  from Cons.prems(1) obtain m where m: "run_ddl d s = Some m" "run_script ds m = Some s'"
    by (auto split: option.splits)
  note step = create_undone [OF m(1) Cons.prems(2) u(1)]
  from Cons.IH [OF m(2) step(1) u(2)] step(2) show ?case
    by (simp add: down run_script_append)
qed

lemmas upgrades = upgrade_0001_def upgrade_0002_def upgrade_0003_def upgrade_0004_def upgrade_0005_def
  upgrade_0006_def upgrade_0007_def

lemmas downgrades = downgrade_0001_def downgrade_0002_def downgrade_0003_def downgrade_0004_def downgrade_0005_def
  downgrade_0006_def downgrade_0007_def

lemma downgrades_undo:
  assumes "r \<in> set revisions"
  shows "undone_by (rv_upgrade r) (rv_downgrade r)"
  using assms unfolding revisions_def undone_by_def by (auto simp: upgrades downgrades col_def nullable_def)

text \<open>Alembic runs the upgrades of a path in order, and its downgrades in the opposite one.\<close>

definition upgrade_path :: "revision list \<Rightarrow> ddl list" where
  "upgrade_path rs = concat (map rv_upgrade rs)"

definition downgrade_path :: "revision list \<Rightarrow> ddl list" where
  "downgrade_path rs = concat (map rv_downgrade (rev rs))"

lemma undone_by_append:
  assumes "undone_by a b" "undone_by c d"
  shows "undone_by (a @ c) (d @ b)"
  using assms by (simp add: undone_by_def)

lemma paths_undo:
  assumes "set rs \<subseteq> set revisions"
  shows "undone_by (upgrade_path rs) (downgrade_path rs)"
  using assms
proof (induction rs)
  case Nil
  then show ?case by (simp add: undone_by_def upgrade_path_def downgrade_path_def)
next
  case (Cons r rs)
  then show ?case
    using undone_by_append [OF downgrades_undo] by (simp add: upgrade_path_def downgrade_path_def)
qed

text \<open>C39: Along every path of revisions and from every well-formed schema, the downgrades bring back, to the last
  column and index, the schema the upgrades started from.\<close>

theorem migrations_roundtrip:
  assumes "set rs \<subseteq> set revisions" and "wf_schema s" and "run_script (upgrade_path rs) s = Some s'"
  shows "run_script (downgrade_path rs) s' = Some s"
  using script_undone [OF assms(3,2) paths_undo [OF assms(1)]] by blast

definition head_schema :: "schema option" where
  "head_schema = run_script (upgrade_path revisions) empty_schema"

lemma head_reached: "head_schema \<noteq> None"
  by code_simp

lemma migrations_roundtrip_witness:
  "\<exists>s'. head_schema = Some s' \<and> run_script (downgrade_path revisions) s' = Some empty_schema"
proof -
  obtain s' where s': "head_schema = Some s'"
    using head_reached by blast
  then show ?thesis
    using migrations_roundtrip [of revisions empty_schema s']
    by (simp add: head_schema_def wf_schema_def empty_schema_def)
qed

text \<open>The part of a table that the stores and the migrations share: its columns but for what the server fills in,
  and its primary key.\<close>

definition same_shape :: "table_def \<Rightarrow> table_def \<Rightarrow> bool" where
  "same_shape t u = (map (\<lambda>c. c\<lparr>cd_default := None\<rparr>) (tb_columns t) = map (\<lambda>c. c\<lparr>cd_default := None\<rparr>) (tb_columns u)
     \<and> tb_primary_key t = tb_primary_key u)"

definition references_resolve :: "schema \<Rightarrow> bool" where
  "references_resolve s = list_all (\<lambda>(n, t). list_all (\<lambda>(c, m, d). has_column c t
     \<and> (case map_of (sc_tables s) m of None \<Rightarrow> False | Some u \<Rightarrow> tb_primary_key u = [d])) (tb_foreign_keys t))
     (sc_tables s)"


end
