(* ===== verification/Scopes.thy ===== *)
theory Scopes
  imports Session Sealed_Master
begin

section \<open>The life of a scope\<close>

text \<open>
  The context managers of \<open>app/dependencies.py\<close> and \<open>infra/db.py\<close> as they open and close what a request uses: the
  context variable \<open>_ro_ctx\<close>, the session and the buffer of the sealed master key.  \<open>Session\<close> sees a scope as a
  function on the database, with a flag for the sealed master; here that view is shown to be what the managers do,
  as long as no commit fails.
\<close>

subsection \<open>The process\<close>

text \<open>\<open>ps_masters\<close> holds every key buffer that was made, in order; a buffer is named by its position.\<close>

record process =
  ps_read_only :: bool
  ps_masters :: "byte list list"
  ps_db :: db

text \<open>The surroundings: the key file with the daemon's user, and what building the engine and a commit raise.\<close>

record surroundings =
  su_euid :: int
  su_key :: key_path
  su_engine :: "exn option"
  su_commit :: "exn option"

text \<open>What an entered session manager holds: the value its \<open>_ro_ctx\<close> token restores, and the flag.\<close>

record session_cm =
  sm_token :: bool
  sm_read_only :: bool

definition begin_statement :: "process \<Rightarrow> string option" where
  "begin_statement p = (if ps_read_only p then None else Some ''BEGIN IMMEDIATE'')"

subsection \<open>\<open>session_scope\<close>\<close>

definition session_aenter :: "surroundings \<Rightarrow> bool \<Rightarrow> (process, session_cm \<times> session) op" where
  "session_aenter su read_only = (\<lambda>p.
     let token = ps_read_only p
     in case su_engine su of
          Some e \<Rightarrow> (Inl e, p\<lparr>ps_read_only := token\<rparr>)
        | None \<Rightarrow> (Inr (\<lparr>sm_token = token, sm_read_only = read_only\<rparr>, open_session (ps_db p)), p\<lparr>ps_read_only := read_only\<rparr>))"

text \<open>\<open>failed\<close> says that the body raised.  A commit that fails rolls back and raises.\<close>

definition session_aexit :: "surroundings \<Rightarrow> session_cm \<Rightarrow> session \<Rightarrow> bool \<Rightarrow> (process, unit) op" where
  "session_aexit su cm s failed = (\<lambda>p.
     let reset = p\<lparr>ps_read_only := sm_token cm\<rparr>
     in if failed \<or> sm_read_only cm then (Inr (), reset\<lparr>ps_db := durable s\<rparr>)
        else case su_commit su of
          Some e \<Rightarrow> (Inl e, reset\<lparr>ps_db := durable s\<rparr>)
        | None \<Rightarrow> (Inr (), reset\<lparr>ps_db := work s\<rparr>))"

subsection \<open>\<open>SealedMaster\<close>\<close>

definition master_aenter :: "surroundings \<Rightarrow> (process, nat) op" where
  "master_aenter su = (\<lambda>p.
     case open_master (su_euid su) (su_key su) of
       Inl e \<Rightarrow> (Inl SealError, p)
     | Inr m \<Rightarrow> (Inr (length (ps_masters p)), p\<lparr>ps_masters := ps_masters p @ [m]\<rparr>))"

definition master_aexit :: "nat \<Rightarrow> (process, unit) op" where
  "master_aexit i = modifyM (\<lambda>p. p\<lparr>ps_masters := (ps_masters p)[i := close_master (ps_masters p ! i)]\<rparr>)"

subsection \<open>\<open>async with\<close>\<close>

text \<open>A manager whose exit returns nothing: an exception of the body goes on unless the exit raises another.\<close>

definition async_with ::
  "(process, 'c \<times> session) op \<Rightarrow> ('c \<Rightarrow> session \<Rightarrow> bool \<Rightarrow> (process, unit) op) \<Rightarrow> (session, 'a) op \<Rightarrow> (process, 'a) op"
  where
  "async_with aenter aexit body = bindM aenter (\<lambda>(cm, s).
     case body s of
       (Inl e, s') \<Rightarrow> thenM (aexit cm s' True) (raise e)
     | (Inr a, s') \<Rightarrow> thenM (aexit cm s' False) (ret a))"

text \<open>A manager gives the context variable back, whether its entry fails, the body raises or its exit does.\<close>

locale manager =
  fixes aenter :: "(process, 'c \<times> session) op" and aexit :: "'c \<Rightarrow> session \<Rightarrow> bool \<Rightarrow> (process, unit) op"
  assumes enter_fails: "aenter p = (Inl e, p') \<Longrightarrow> ps_read_only p' = ps_read_only p"
    and exit_restores: "aenter p = (Inr (cm, s), p') \<Longrightarrow> ps_read_only (snd (aexit cm s' failed p')) = ps_read_only p"
begin

lemma context_restored: "ps_read_only (snd (async_with aenter aexit body p)) = ps_read_only p"
proof (cases "aenter p")
  case (Pair r p1)
  show ?thesis
  proof (cases r)
    case (Inl e)
    with Pair enter_fails show ?thesis by (simp add: async_with_def)
  next
    case (Inr c)
    obtain cm s where c: "c = (cm, s)" by (cases c)
    from exit_restores Pair Inr c have restored: "ps_read_only (snd (aexit cm s' failed p1)) = ps_read_only p" for s' failed
      by blast
    show ?thesis
      using Pair Inr c restored
      by (auto simp: async_with_def bindM_run thenM_def split: prod.split sum.split) (metis snd_conv)+
  qed
qed

end

interpretation session_manager: manager "session_aenter su ro" "session_aexit su"
  by unfold_locales (auto simp: session_aenter_def session_aexit_def Let_def split: option.splits)

text \<open>The managers that open the sealed master before the session and close it after it.\<close>

definition sealed_aenter :: "surroundings \<Rightarrow> (process, (nat \<times> session_cm) \<times> session) op" where
  "sealed_aenter su =
     bindM (catchM (master_aenter su) (\<lambda>e. case e of SealError \<Rightarrow> raise ScopeVaultUnavailableError | _ \<Rightarrow> raise e)) (\<lambda>i.
     bindM (session_aenter su False) (\<lambda>(cm, s). ret ((i, cm), s)))"

definition sealed_aexit :: "surroundings \<Rightarrow> nat \<times> session_cm \<Rightarrow> session \<Rightarrow> bool \<Rightarrow> (process, unit) op" where
  "sealed_aexit su cm s failed = thenM (session_aexit su (snd cm) s failed) (master_aexit (fst cm))"

interpretation sealed_manager: manager "sealed_aenter su" "sealed_aexit su"
  by unfold_locales
    (auto simp: sealed_aenter_def sealed_aexit_def master_aenter_def master_aexit_def session_aenter_def session_aexit_def
      bindM_run thenM_def catchM_def Let_def split: option.splits sum.splits)

subsection \<open>The managers\<close>

text \<open>A bundle gives its body every repository of the session; the others give one table.\<close>

definition signer_cm :: "surroundings \<Rightarrow> (wallet_db, 'a) op \<Rightarrow> (process, 'a) op" where
  "signer_cm su body = async_with (sealed_aenter su) (sealed_aexit su) (on_wallets body)"

definition caller_repo_cm :: "surroundings \<Rightarrow> (caller_db, 'a) op \<Rightarrow> (process, 'a) op" where
  "caller_repo_cm su body = async_with (session_aenter su True) (session_aexit su) (on_callers body)"

definition transaction_repo_cm :: "surroundings \<Rightarrow> (tx_db, 'a) op \<Rightarrow> (process, 'a) op" where
  "transaction_repo_cm su body = async_with (session_aenter su False) (session_aexit su) (on_txs body)"

definition nonce_repo_cm :: "surroundings \<Rightarrow> (nonce_db, 'a) op \<Rightarrow> (process, 'a) op" where
  "nonce_repo_cm su body = async_with (session_aenter su False) (session_aexit su) (on_nonces body)"

definition rate_repo_cm :: "surroundings \<Rightarrow> (rate_db, 'a) op \<Rightarrow> (process, 'a) op" where
  "rate_repo_cm su body = async_with (session_aenter su False) (session_aexit su) (on_rates body)"

definition audit_repo_cm :: "surroundings \<Rightarrow> (audit_db, 'a) op \<Rightarrow> (process, 'a) op" where
  "audit_repo_cm su body = async_with (session_aenter su False) (session_aexit su) (on_audit body)"

definition wallet_repo_cm :: "surroundings \<Rightarrow> (wallet_db, 'a) op \<Rightarrow> (process, 'a) op" where
  "wallet_repo_cm su body = async_with (session_aenter su False) (session_aexit su) (on_wallets body)"

definition request_scope_cm :: "surroundings \<Rightarrow> (session, 'a) op \<Rightarrow> (process, 'a) op" where
  "request_scope_cm su body = async_with (sealed_aenter su) (sealed_aexit su) body"

definition admin_scope_cm :: "surroundings \<Rightarrow> (session, 'a) op \<Rightarrow> (process, 'a) op" where
  "admin_scope_cm su body = async_with (sealed_aenter su) (sealed_aexit su) body"

definition report_scope_cm :: "surroundings \<Rightarrow> (session, 'a) op \<Rightarrow> (process, 'a) op" where
  "report_scope_cm su body = async_with (session_aenter su False) (session_aexit su) body"

definition replacement_scope_cm :: "surroundings \<Rightarrow> (session, 'a) op \<Rightarrow> (process, 'a) op" where
  "replacement_scope_cm su body = async_with (sealed_aenter su) (sealed_aexit su) body"

lemmas managers = signer_cm_def caller_repo_cm_def transaction_repo_cm_def nonce_repo_cm_def rate_repo_cm_def
  audit_repo_cm_def wallet_repo_cm_def request_scope_cm_def admin_scope_cm_def report_scope_cm_def
  replacement_scope_cm_def

subsection \<open>What a scope does\<close>

definition master_opens :: "surroundings \<Rightarrow> bool" where
  "master_opens su = (case open_master (su_euid su) (su_key su) of Inl e \<Rightarrow> False | Inr m \<Rightarrow> True)"

text \<open>A writing session begins its transaction at once with the writer lock, a reading one does not.\<close>

lemma scope_begins:
  assumes "session_aenter su ro p = (Inr (cm, s), p')"
  shows "begin_statement p' = (if ro then None else Some ''BEGIN IMMEDIATE'')"
  using assms by (auto simp: session_aenter_def begin_statement_def Let_def split: option.splits)

lemma session_run:
  assumes "su_engine su = None"
  shows "async_with (session_aenter su ro) (session_aexit su) body p =
    (case body (open_session (ps_db p)) of
       (Inl e, s) \<Rightarrow> (Inl e, p\<lparr>ps_db := durable s\<rparr>)
     | (Inr a, s) \<Rightarrow>
         if ro then (Inr a, p\<lparr>ps_db := durable s\<rparr>)
         else case su_commit su of
           None \<Rightarrow> (Inr a, p\<lparr>ps_db := work s\<rparr>)
         | Some e \<Rightarrow> (Inl e, p\<lparr>ps_db := durable s\<rparr>))"
  using assms by (cases p)
    (auto simp: async_with_def session_aenter_def session_aexit_def bindM_run thenM_def Let_def
      split: prod.split sum.split option.split)

lemma sealed_run:
  assumes "su_engine su = None" "open_master (su_euid su) (su_key su) = Inr m"
  shows "async_with (sealed_aenter su) (sealed_aexit su) body p =
    (case body (open_session (ps_db p)) of
       (Inl e, s) \<Rightarrow> (Inl e, p\<lparr>ps_db := durable s, ps_masters := ps_masters p @ [close_master m]\<rparr>)
     | (Inr a, s) \<Rightarrow> (case su_commit su of
           None \<Rightarrow> (Inr a, p\<lparr>ps_db := work s, ps_masters := ps_masters p @ [close_master m]\<rparr>)
         | Some e \<Rightarrow> (Inl e, p\<lparr>ps_db := durable s, ps_masters := ps_masters p @ [m]\<rparr>)))"
  using assms by (cases p)
    (auto simp: async_with_def sealed_aenter_def sealed_aexit_def master_aenter_def master_aexit_def
      session_aenter_def session_aexit_def bindM_run thenM_def catchM_def Let_def
      split: prod.split sum.split option.split)

lemma sealed_unopened:
  assumes "\<not> master_opens su"
  shows "async_with (sealed_aenter su) (sealed_aexit su) body p = (Inl ScopeVaultUnavailableError, p)"
  using assms by (auto simp: async_with_def sealed_aenter_def master_aenter_def master_opens_def bindM_run catchM_def
      split: sum.splits)

lemma sealed_engine_fails:
  assumes "su_engine su = Some e" "open_master (su_euid su) (su_key su) = Inr m"
  shows "async_with (sealed_aenter su) (sealed_aexit su) body p = (Inl e, p\<lparr>ps_masters := ps_masters p @ [m]\<rparr>)"
  using assms by (simp add: async_with_def sealed_aenter_def master_aenter_def session_aenter_def bindM_run catchM_def)

definition zeroed :: "byte list \<Rightarrow> bool" where
  "zeroed = list_all (\<lambda>b. b = 0)"

lemma close_master_zeroed: "zeroed (close_master m)"
  by (simp add: zeroed_def close_master_def list_all_iff)

text \<open>C38: Whatever the body does and whatever fails around it, a scope that opens the sealed master gives the context
  variable back, commits the session's work exactly when it returns a value and otherwise keeps only what the body
  committed itself; and unless building the engine or a commit fails, it is the function on the database that
  the use cases are stated over, and every key buffer it made is zero afterwards.\<close>

theorem sealed_scope_contract:
  assumes "scope \<in> {request_scope_cm su, admin_scope_cm su, replacement_scope_cm su}"
    and "scope body p = (res, p')"
  shows "ps_read_only p' = ps_read_only p \<and>
    (case res of
       Inr a \<Rightarrow> sealed_scope True body (ps_db p) = (Inr a, ps_db p')
     | Inl e \<Rightarrow> ps_db p' = ps_db p \<or> ps_db p' = durable (snd (body (open_session (ps_db p))))) \<and>
    (su_engine su = None \<and> su_commit su = None \<longrightarrow>
       sealed_scope (master_opens su) body (ps_db p) = (res, ps_db p') \<and>
       (\<exists>made. ps_masters p' = ps_masters p @ made \<and> list_all zeroed made))"
proof -
  have run: "async_with (sealed_aenter su) (sealed_aexit su) body p = (res, p')"
    using assms by (auto simp: managers)
  have restored: "ps_read_only p' = ps_read_only p"
    using sealed_manager.context_restored [of su body p] run by simp
  show ?thesis
  proof (cases "open_master (su_euid su) (su_key su)")
    case (Inl e)
    then have shut: "\<not> master_opens su" by (simp add: master_opens_def)
    with run sealed_unopened [OF shut, of body p] restored show ?thesis by (auto simp: sealed_scope_def)
  next
    case (Inr m)
    then have opened: "master_opens su" by (simp add: master_opens_def)
    show ?thesis
    proof (cases "su_engine su")
      case None
      from run sealed_run [OF None Inr, of body p] opened show ?thesis
        by (auto simp: sealed_scope_def session_scope_def close_master_zeroed split: prod.splits sum.splits option.splits)
    next
      case (Some e)
      from run sealed_engine_fails [OF Some Inr, of body p] Some show ?thesis by auto
    qed
  qed
qed

text \<open>A daemon with a key file, and a body that adds a caller.\<close>

definition sample_surroundings :: surroundings where
  "sample_surroundings = \<lparr>su_euid = 0, su_key = At \<lparr>kf_regular = True, kf_mode = 384, kf_uid = 0, kf_size = 32,
     kf_bytes = replicate 32 7\<rparr>, su_engine = None, su_commit = None\<rparr>"

definition empty_process :: process where
  "empty_process = \<lparr>ps_read_only = False, ps_masters = [],
     ps_db = \<lparr>db_wallets = [], db_callers = [],
       db_txs = \<lparr>transactions = [], hashes = [], attempts = []\<rparr>, db_nonces = [], db_rates = empty_rates, db_audit = empty_audit\<rparr>\<rparr>"

lemma sample_master: "open_master (su_euid sample_surroundings) (su_key sample_surroundings) = Inr (replicate 32 7)"
  by (simp add: sample_surroundings_def open_master_def)

definition sample_body :: "(session, caller) op" where
  "sample_body = on_callers (caller_create 5 ''clif'' ''hash'' ''fwd_k'' ''clif/claim'' False)"

lemma sealed_scope_contract_witness:
  "\<exists>c p' made. request_scope_cm sample_surroundings sample_body empty_process = (Inr c, p') \<and> db_callers (ps_db p') = [c]
     \<and> ps_masters p' = made \<and> length made = 1 \<and> list_all zeroed made"
proof -
  obtain c s where body: "sample_body (open_session (ps_db empty_process)) = (Inr c, s)" "db_callers (work s) = [c]"
    by (simp add: sample_body_def on_run caller_create_run empty_process_def put_callers_def find_caller_def hash_taken_def Let_def)
  have run: "request_scope_cm sample_surroundings sample_body empty_process =
      (Inr c, empty_process\<lparr>ps_db := work s, ps_masters := [close_master (replicate 32 7)]\<rparr>)"
    using sealed_run [OF _ sample_master, of sample_body empty_process] body(1)
    by (simp add: managers sample_surroundings_def) (simp add: empty_process_def)
  from sealed_scope_contract [of "request_scope_cm sample_surroundings" sample_surroundings, OF _ run]
  show ?thesis using run body(2) by (auto simp: sample_surroundings_def empty_process_def)
qed

text \<open>A commit that fails skips the exit of the sealed master: the key stays in its buffer.\<close>

theorem failed_commit_keeps_key:
  assumes "open_master (su_euid su) (su_key su) = Inr m" "su_engine su = None" "su_commit su = Some e"
    and "body (open_session (ps_db p)) = (Inr a, s)"
  shows "request_scope_cm su body p = (Inl e, p\<lparr>ps_db := durable s, ps_masters := ps_masters p @ [m]\<rparr>)"
  using sealed_run [OF assms(2,1), of body p] assms(3,4) by (simp add: managers)

text \<open>The managers of one table and of a report.\<close>

lemma plain_scopes_refine:
  assumes "su_engine su = None" "su_commit su = None"
  shows "report_scope_cm su body p = (case session_scope False body (ps_db p) of (r, d) \<Rightarrow> (r, p\<lparr>ps_db := d\<rparr>))"
    and "caller_repo_cm su callers p = (case session_scope True (on_callers callers) (ps_db p) of (r, d) \<Rightarrow> (r, p\<lparr>ps_db := d\<rparr>))"
    and "transaction_repo_cm su txs p = (case session_scope False (on_txs txs) (ps_db p) of (r, d) \<Rightarrow> (r, p\<lparr>ps_db := d\<rparr>))"
    and "nonce_repo_cm su nonces p = (case session_scope False (on_nonces nonces) (ps_db p) of (r, d) \<Rightarrow> (r, p\<lparr>ps_db := d\<rparr>))"
    and "rate_repo_cm su rates p = (case session_scope False (on_rates rates) (ps_db p) of (r, d) \<Rightarrow> (r, p\<lparr>ps_db := d\<rparr>))"
    and "audit_repo_cm su audit p = (case session_scope False (on_audit audit) (ps_db p) of (r, d) \<Rightarrow> (r, p\<lparr>ps_db := d\<rparr>))"
    and "wallet_repo_cm su wallets p = (case session_scope False (on_wallets wallets) (ps_db p) of (r, d) \<Rightarrow> (r, p\<lparr>ps_db := d\<rparr>))"
  using assms by (auto simp: managers session_run session_scope_def split: prod.splits sum.splits)

text \<open>Authentication only reads, so its scope leaves the process as it was.\<close>

lemma caller_scope_frame:
  assumes "su_engine su = None"
  shows "snd (caller_repo_cm su body p) = p"
  using assms by (cases p) (auto simp: managers session_run on_run put_callers_def split: prod.splits sum.splits)

end
