(* ===== verification/Spec2Isabelle.thy ===== *)
theory Spec2Isabelle
  imports Policy_Engine Sign_Failures Report_Properties Nonce_Correct Accounts_Correct Fsp_Correct Policy_Clean Policy_Generated Lifetime Sealed_Master Uuid7 Json_Total Grant_Live Policy_Cli Local_Cli Client_Cli Migrations Scopes
begin

text \<open>
  \<open>fwd\<close> is a signing daemon: it holds the sealed private keys of a host and signs transactions and Flare Systems
  Protocol (FSP) messages for authenticated callers, under an operator's policy.  It never talks to a chain; callers
  report what became of a transaction.  This development models the Python package \<open>src/src/fwd\<close> from the database
  rows up to the HTTP endpoints and the commands of \<open>clifwd\<close>, and proves what makes it correct.  Paths below are
  relative to \<open>src/src/fwd\<close>.

  The parts and how they interact.  A request is authenticated (\<open>Accounts_Repo\<close>), decoded against the ABI registry
  (\<open>Abi_Intent\<close>, \<open>Abi_Load\<close>), judged by the policy engine (\<open>Policy_Engine\<close>) which takes units from the rate tables
  (\<open>Rate_Repo\<close>), given the next nonce (\<open>Nonce_Repo\<close>), signed, stored (\<open>Transaction_Repo\<close>) and recorded in the hash-chained
  audit log (\<open>Audit_Repo\<close>), all in one database session (\<open>Session\<close>); a refusal gives the units and the nonce back and
  records an error row.  Reports then move the stored transaction and return nonces and committed value.  The policy is
  generated (\<open>Policy_Init\<close>), checked (\<open>Policy_Loader\<close>) by a command and again when the daemon starts (\<open>Startup\<close>); callers
  and wallets are administered over HTTP (\<open>Accounts_Admin\<close>) or granted in bulk from a consumer's request
  (\<open>Capability_Grant\<close>, \<open>Grant_Cli\<close>), which hands the minted keys over in a bundle file.

  State and operations.  An operation is a function from a state to an exception or a result with the next state
  (\<open>Fwd_Prelude\<close>), so every \<open>raise\<close>, \<open>HTTPException\<close> and \<open>typer.Exit\<close> is a value.  A table is a list of rows or an
  association list, with the constraints of the schema in the operation that writes it; the database is the record
  \<open>db\<close> of its six tables.  A session is a working copy and what is durable: a commit copies one into the other, a
  rollback drops the working copy, and \<open>BEGIN IMMEDIATE\<close> makes sessions serial, so a run of the daemon is a sequence of
  endpoint calls (the relation \<open>served\<close> of \<open>Lifetime\<close>).

  Theories and source.
  Base: \<open>Fwd_Prelude\<close> (operations, tables, Python's \<open>int\<close>, \<open>str\<close> and \<open>bytes\<close> helpers), \<open>Py_Json\<close> (\<open>json.dumps\<close> canonical, \<open>json.loads\<close>),
  \<open>Sha256\<close> (SHA-256 and ISO dates).
  Stores: \<open>Rate_Repo\<close> (\<open>infra/rate_repo.py\<close>), \<open>Nonce_Repo\<close> (\<open>infra/nonce_repo.py\<close>), \<open>Transaction_Repo\<close>
  (\<open>infra/transaction_repo.py\<close>), \<open>Audit_Repo\<close> (\<open>infra/audit_repo.py\<close>), \<open>Accounts_Repo\<close> (\<open>infra/wallet_repo.py\<close>,
  \<open>infra/caller_repo.py\<close>, \<open>infra/api_key.py\<close>, \<open>app/caller_resolution.py\<close>, \<open>api/caller_auth.py\<close>), \<open>Migrations\<close>
  (\<open>src/alembic/versions\<close> and the tables these stores declare).
  Policy: \<open>Policy_Schema\<close> (\<open>domain/policy.py\<close>), \<open>Abi_Intent\<close> and \<open>Abi_Load\<close> (\<open>domain/intent.py\<close>, \<open>infra/abi_registry.py\<close>),
  \<open>Policy_Engine\<close> (\<open>app/policy_engine.py\<close>, \<open>app/policy_gate.py\<close>), \<open>Policy_Loader\<close> (\<open>infra/policy_loader.py\<close>), \<open>Policy_Init\<close>
  (\<open>app/policy_init.py\<close>).
  Use cases and endpoints: \<open>Session\<close> and \<open>Scopes\<close> (\<open>infra/db.py\<close>, \<open>app/dependencies.py\<close>), \<open>Sign_Transaction\<close> (\<open>app/sign_transaction.py\<close>,
  \<open>infra/envelope_signer.py\<close>, \<open>api/sign.py\<close>), \<open>Tx_Reports\<close> (\<open>api/transactions.py\<close>), \<open>Nonce_Admin\<close> (\<open>api/nonce.py\<close>,
  \<open>api/admin_auth.py\<close>), \<open>Accounts_Admin\<close> (the caller and wallet use cases and endpoints), \<open>Fsp_Message\<close> and \<open>Sign_Fsp\<close>
  (\<open>domain/fsp_message.py\<close>, \<open>app/fsp_policy.py\<close>, \<open>app/sign_fsp_message.py\<close>, \<open>api/sign_fsp_message.py\<close>), \<open>Startup\<close> (\<open>main.py\<close>,
  \<open>app/policy_check.py\<close>), \<open>Capability_Grant\<close> (\<open>app/capability_grant.py\<close>, \<open>app/bundle_emit.py\<close>), \<open>Sealed_Master\<close>
  (\<open>infra/sealed_master.py\<close>, \<open>app/health.py\<close>, \<open>api/health.py\<close>), \<open>Uuid7\<close> (\<open>infra/uuidv7.py\<close>).
  Commands: \<open>Cli_Process\<close> (output streams, files, \<open>json.dumps\<close>), \<open>Grant_Cli\<close> (\<open>cli/capability.py\<close>, \<open>write_bundle\<close>), \<open>Bundle_Cli\<close>
  (\<open>cli/bundle.py\<close>), \<open>Policy_Cli\<close> (\<open>cli/policy.py\<close>), \<open>Local_Cli\<close> (\<open>cli/audit.py\<close>, \<open>wallets import\<close>, \<open>cli/fsp.py\<close>, \<open>cli/master.py\<close>),
  \<open>Client_Cli\<close> (\<open>cli/callers.py\<close>, \<open>cli/wallets.py\<close>, \<open>cli/nonce.py\<close>, \<open>capability list\<close>, \<open>health\<close>).

  What the lemma groups show.  The stores meet their contracts (the locales \<open>nonce_ledger\<close>, \<open>counter_store\<close>,
  \<open>hash_chain\<close>): nonces are handed out once, a window grants no more than its limit, two verified logs with one head are
  the same log or exhibit a collision.  \<open>Sign_Correct\<close>, \<open>Sign_Properties\<close>, \<open>Sign_Failures\<close>, \<open>Report_Correct\<close>,
  \<open>Report_Properties\<close>, \<open>Nonce_Correct\<close>, \<open>Accounts_Correct\<close> and \<open>Fsp_Correct\<close> give, for every use case, a case rule with its
  outcomes and the properties read off them: what a success changed and checked, that a failure is net-zero, that a
  well-formed request succeeds.  \<open>Laws\<close>, \<open>System_Laws\<close> and \<open>System\<close> lift a law of the repository operations to every
  endpoint; \<open>Lifetime\<close> closes them under runs: the database stays well formed, history is append-only, the nonce table
  refines a ledger specified on its own, and no two transactions in flight share a nonce.  \<open>Policy_Clean\<close>,
  \<open>Policy_Init_Correct\<close> and \<open>Policy_Generated\<close> relate engine, loader, generator and grants: a policy the check accepts
  cannot misconfigure a caller or free an FSP key, and what the generator emits the check accepts.  \<open>Policy_Cli\<close> carries
  that to the operator: validation predicts the start, and a generated file deploys.  \<open>Grant_Cli\<close> and \<open>Grant_Live\<close> show
  that a grant is denied by default, emits whole bundles only, and that the keys in them authenticate; also that its gate
  lets requests through whose keys are then lost.  \<open>Bundle_Cli\<close>, \<open>Sealed_Master\<close>, \<open>Py_Json\<close> and \<open>Capability_Grant\<close> have the
  round trips of the formats; \<open>Migrations\<close> shows that
  the migrated schema is the declared one and that downgrades undo upgrades;
  \<open>Scopes\<close> that the context managers are the sessions of \<open>Session\<close> and clear the master key, unless a commit fails.

  Fuel and termination.  \<open>json_loads\<close> runs its reader with fuel twice the length of the text plus two; \<open>Json_Total\<close>
  shows that this is never used up, because every reader consumes a character, so parsing a request always ends with a
  request or an error and running out of fuel is not among its results.  All other recursions are structural or have a
  measure.  Version-7 ids are ordered as long as the clock fits 48 bits.

  Parameters.  Code outside the repository is an argument: keccak and the ABI codec, signing and address
  derivation, AES-GCM, argon2, random bytes and clocks, YAML and pydantic parsing, HTTP, the file system.  What a
  theorem needs of them is a hypothesis that states their documented behaviour (a hash that argon2 made verifies, the
  YAML library reads back what it dumped), and its witness instantiates it.

  Not modelled.  Reading the environment into settings, and the assembly of routers, middleware, logging and the
  typer applications; the lifetime of secrets in memory other than the key buffer of a scope, and \<open>mlockall\<close> beyond
  its result; SQLite's 64-bit range, engine set-up and pragmas, and lock timeouts; interleaving inside a session, which
  \<open>BEGIN IMMEDIATE\<close>
  excludes; recursion limits and the overflow of \<open>timedelta\<close>; the exact texts of third-party exceptions;
  \<open>alembic/env.py\<close>, which starts Alembic, and what a migration does to rows; shell scripts, tests and the example client.
\<close>

end
